(* ===== verification/Prelude.thy ===== *)
theory Prelude
  imports Complex_Main "HOL-Library.Word" "HOL-Library.RBT" "HOL-Library.Sublist"
    "HOL-Library.List_Lexorder" "HOL-Library.Char_ord" "HOL-Library.Code_Target_Numeral"
begin

text \<open>
  Shared vocabulary of the development: the machine integer types of Rust, saturating and
  wrapping arithmetic, results with a threaded state, loops with an early error return,
  and the string operations of the standard library that the program uses.
\<close>

named_theorems frame_simps \<open>which fields an operation leaves alone\<close>
named_theorems result_splits_simps \<open>equations that open a stateful result\<close>

section \<open>Machine integers\<close>

type_synonym u8 = "8 word"
type_synonym u16 = "16 word"
type_synonym u32 = "32 word"
type_synonym u64 = "64 word"
type_synonym i32 = "32 word" \<comment> \<open>read with \<open>sint\<close>\<close>

text \<open>An \<open>i64\<close> is an integer kept in range: every operation of the source that can leave
  the range is written with the saturating or the wrapping reduction below.\<close>

type_synonym i64 = int

definition I64_MAX :: int where "I64_MAX = 9223372036854775807"
definition I64_MIN :: int where "I64_MIN = -9223372036854775808"

definition in_i64 :: "int \<Rightarrow> bool" where
  "in_i64 x \<longleftrightarrow> I64_MIN \<le> x \<and> x \<le> I64_MAX"

definition sat_i64 :: "int \<Rightarrow> i64" where
  "sat_i64 x = (if x < I64_MIN then I64_MIN else if I64_MAX < x then I64_MAX else x)"

definition wrap_i64 :: "int \<Rightarrow> i64" where
  "wrap_i64 x = (x - I64_MIN) mod 18446744073709551616 + I64_MIN"

lemmas i64_defs = I64_MAX_def I64_MIN_def in_i64_def sat_i64_def wrap_i64_def

lemma sat_i64_in [simp]: "in_i64 (sat_i64 x)"
  by (auto simp: i64_defs)

lemma wrap_i64_in [simp]: "in_i64 (wrap_i64 x)"
proof -
  have "0 \<le> (x - I64_MIN) mod 18446744073709551616"
    and "(x - I64_MIN) mod 18446744073709551616 < 18446744073709551616" by auto
  then show ?thesis by (simp add: i64_defs)
qed

lemma sat_i64_id [simp]: "in_i64 x \<Longrightarrow> sat_i64 x = x"
  by (auto simp: i64_defs)

lemma wrap_i64_id [simp]: "in_i64 x \<Longrightarrow> wrap_i64 x = x"
  by (auto simp: i64_defs)

text \<open>Rust's signed division and remainder truncate towards zero.\<close>

definition tdiv :: "int \<Rightarrow> int \<Rightarrow> int" where
  "tdiv a b = sgn a * sgn b * (\<bar>a\<bar> div \<bar>b\<bar>)"

definition tmod :: "int \<Rightarrow> int \<Rightarrow> int" where
  "tmod a b = a - tdiv a b * b"

lemma tdiv_mult_tmod: "tdiv a b * b + tmod a b = a"
  by (simp add: tmod_def)

lemma tmod_abs: "tmod a b = sgn a * (\<bar>a\<bar> mod \<bar>b\<bar>)"
proof -
  have "tdiv a b * b = sgn a * (\<bar>a\<bar> div \<bar>b\<bar> * (sgn b * b))"
    by (simp add: tdiv_def algebra_simps)
  also have "sgn b * b = \<bar>b\<bar>" by (simp add: abs_sgn)
  finally have "tmod a b = sgn a * \<bar>a\<bar> - sgn a * (\<bar>a\<bar> div \<bar>b\<bar> * \<bar>b\<bar>)"
    by (simp add: tmod_def sgn_mult_abs)
  also have "\<dots> = sgn a * (\<bar>a\<bar> mod \<bar>b\<bar>)"
    by (simp add: minus_div_mult_eq_mod [symmetric] algebra_simps)
  finally show ?thesis .
qed

lemma tmod_bound: "b \<noteq> 0 \<Longrightarrow> \<bar>tmod a b\<bar> < \<bar>b\<bar>"
proof -
  assume "b \<noteq> 0"
  then have "0 \<le> \<bar>a\<bar> mod \<bar>b\<bar>" and "\<bar>a\<bar> mod \<bar>b\<bar> < \<bar>b\<bar>" by auto
  then show ?thesis by (auto simp: tmod_abs abs_mult sgn_if)
qed

text \<open>Saturating unsigned addition.\<close>

definition usat_add :: "'a::len word \<Rightarrow> 'a word \<Rightarrow> 'a word" where
  "usat_add a b = (if unat a + unat b < 2 ^ LENGTH('a) then a + b else - 1)"

lemma unat_usat_add:
  "unat (usat_add a (b :: 'a::len word)) = min (unat a + unat b) (2 ^ LENGTH('a) - 1)"
proof (cases "unat a + unat b < 2 ^ LENGTH('a)")
  case True
  then show ?thesis by (simp add: usat_add_def unat_word_ariths)
next
  case False
  then show ?thesis by (simp add: usat_add_def unsigned_minus_1_eq_mask mask_eq_exp_minus_1)
qed

text \<open>Durations are counted in nanoseconds; the largest one is \<open>u64::MAX\<close> seconds and
  \<open>999_999_999\<close> nanoseconds, and \<open>saturating_add\<close> stops there.\<close>

type_synonym duration = nat

definition DURATION_MAX :: duration where
  "DURATION_MAX = 18446744073709551615 * 1000000000 + 999999999"

definition dur_add :: "duration \<Rightarrow> duration \<Rightarrow> duration" where
  "dur_add a b = min (a + b) DURATION_MAX"

definition from_millis :: "u64 \<Rightarrow> duration" where
  "from_millis ms = unat ms * 1000000"

lemma from_millis_le_max: "from_millis ms \<le> DURATION_MAX"
proof -
  have "unat ms < 2 ^ 64" using unsigned_less [of ms, where ?'a = nat] by simp
  then show ?thesis by (simp add: from_millis_def DURATION_MAX_def)
qed

lemma from_millis_eq_0_iff [simp]: "from_millis ms = 0 \<longleftrightarrow> ms = 0"
  by (simp add: from_millis_def unat_eq_zero)

section \<open>Results with a threaded state\<close>

text \<open>
  A method that takes \<open>&mut self\<close> and returns a \<open>Result\<close> is a function from the state to
  the new state and \<open>Inl\<close> an error or \<open>Inr\<close> a value. The state part is there on both
  branches: an error return keeps the changes made before it.
\<close>

type_synonym ('s, 'e, 'a) st = "'s \<times> ('e + 'a)"

fun andThen :: "('s, 'e, 'a) st \<Rightarrow> ('s \<Rightarrow> 'a \<Rightarrow> ('s, 'e, 'b) st) \<Rightarrow> ('s, 'e, 'b) st" where
  "andThen (s, Inl e) f = (s, Inl e)"
| "andThen (s, Inr a) f = f s a"

lemma andThen_split:
  "P (andThen r f) \<longleftrightarrow>
     (\<forall>s e. r = (s, Inl e) \<longrightarrow> P (s, Inl e)) \<and> (\<forall>s a. r = (s, Inr a) \<longrightarrow> P (f s a))"
  by (cases "(r, f)" rule: andThen.cases) auto

lemma andThen_split_asm:
  "P (andThen r f) \<longleftrightarrow>
     \<not> ((\<exists>s e. r = (s, Inl e) \<and> \<not> P (s, Inl e)) \<or> (\<exists>s a. r = (s, Inr a) \<and> \<not> P (f s a)))"
  by (cases "(r, f)" rule: andThen.cases) auto

lemmas andThen_splits = andThen_split andThen_split_asm

lemma andThen_Inr_iff:
  "andThen r f = (t, Inr b) \<longleftrightarrow> (\<exists>s a. r = (s, Inr a) \<and> f s a = (t, Inr b))"
  by (cases "(r, f)" rule: andThen.cases) auto

lemma andThen_Inl_iff:
  "andThen r f = (t, Inl e) \<longleftrightarrow>
     r = (t, Inl e) \<or> (\<exists>s a. r = (s, Inr a) \<and> f s a = (t, Inl e))"
  by (cases "(r, f)" rule: andThen.cases) auto

text \<open>
  A \<open>for\<close> loop whose body can fail (\<open>?\<close>) and which collects \<open>submitted |= \<dots>\<close>.
\<close>

fun for_each :: "('x \<Rightarrow> 's \<Rightarrow> ('s, 'e, bool) st) \<Rightarrow> 'x list \<Rightarrow> 's \<Rightarrow> ('s, 'e, bool) st" where
  "for_each body [] s = (s, Inr False)"
| "for_each body (x # xs) s =
     andThen (body x s) (\<lambda>s' b. andThen (for_each body xs s') (\<lambda>s'' c. (s'', Inr (b \<or> c))))"

text \<open>An invariant of every body run is an invariant of the loop, on both outcomes.\<close>

lemma for_each_invariant:
  assumes "P s" and "\<And>x t. x \<in> set xs \<Longrightarrow> P t \<Longrightarrow> P (fst (body x t))"
  shows "P (fst (for_each body xs s))"
  using assms
proof (induction xs arbitrary: s)
  case Nil
  then show ?case by simp
next
  case (Cons x xs)
  have step: "P (fst (body x s))" using Cons.prems by simp
  show ?case
  proof (cases "body x s")
    case (Pair t r)
    then have "P t" using step by simp
    then have "P (fst (for_each body xs t))"
      by (rule Cons.IH) (use Cons.prems(2) in simp)
    with Pair \<open>P t\<close> show ?thesis
      by (cases r) (auto split: andThen_splits)
  qed
qed

text \<open>On success every body succeeded; a step relation that composes is threaded through.\<close>

lemma for_each_success_induct:
  assumes "for_each body xs s = (t, Inr b)"
    and "Q [] s"
    and "\<And>pre x post u v c. xs = pre @ x # post \<Longrightarrow> Q pre u \<Longrightarrow> body x u = (v, Inr c) \<Longrightarrow> Q (pre @ [x]) v"
  shows "Q xs t"
proof -
  have "\<And>pre. \<lbrakk> for_each body ys u = (t, Inr c); Q pre u; xs = pre @ ys \<rbrakk> \<Longrightarrow> Q xs t"
    for ys u c
  proof (induction ys arbitrary: u c)
    case Nil
    then show ?case by simp
  next
    case (Cons y ys)
    then obtain v d e where "body y u = (v, Inr d)" and "for_each body ys v = (t, Inr e)"
      by (auto simp: andThen_Inr_iff)
    moreover from this(1) have "Q (pre @ [y]) v" using assms(3) Cons.prems by blast
    ultimately show ?case using Cons.IH [of v e "pre @ [y]"] Cons.prems(3) by simp
  qed
  from this [OF assms(1,2)] show ?thesis by simp
qed

text \<open>Collecting an iterator of results into \<open>Result<Vec<_>, _>\<close>: the first error wins.\<close>

fun collect_results :: "('a \<Rightarrow> 'e + 'b) \<Rightarrow> 'a list \<Rightarrow> 'e + 'b list" where
  "collect_results f [] = Inr []"
| "collect_results f (x # xs) =
     (case f x of
        Inl e \<Rightarrow> Inl e
      | Inr y \<Rightarrow> (case collect_results f xs of Inl e \<Rightarrow> Inl e | Inr ys \<Rightarrow> Inr (y # ys)))"

lemma collect_results_Inr_iff:
  "collect_results f xs = Inr ys \<longleftrightarrow> list_all2 (\<lambda>x y. f x = Inr y) xs ys"
proof (induction xs arbitrary: ys)
  case Nil
  then show ?case by auto
next
  case (Cons x xs)
  show ?case
  proof (cases "collect_results f xs")
    case (Inl e)
    then have "\<not> list_all2 (\<lambda>x y. f x = Inr y) xs zs" for zs
      using Cons.IH [of zs] by simp
    with Inl show ?thesis by (auto simp: list_all2_Cons1 split: sum.splits)
  next
    case (Inr zs)
    then have "list_all2 (\<lambda>x y. f x = Inr y) xs zs' \<longleftrightarrow> zs' = zs" for zs'
      using Cons.IH [of zs'] by auto
    with Inr show ?thesis by (auto simp: list_all2_Cons1 split: sum.splits)
  qed
qed

lemma collect_results_length:
  "collect_results f xs = Inr ys \<Longrightarrow> length ys = length xs"
  by (auto simp: collect_results_Inr_iff dest: list_all2_lengthD)

lemma collect_results_Inl:
  "collect_results f xs = Inl e \<Longrightarrow> \<exists>x \<in> set xs. f x = Inl e"
  by (induction xs) (auto split: sum.splits)

text \<open>Zipping with the position, as \<open>iter().enumerate()\<close>, and the first position.\<close>

definition enumerated :: "'a list \<Rightarrow> (nat \<times> 'a) list" where
  "enumerated xs = zip [0..<length xs] xs"

lemma enumerated_set: "(i, x) \<in> set (enumerated xs) \<longleftrightarrow> i < length xs \<and> x = xs ! i"
  by (force simp: enumerated_def set_zip)

text \<open>\<open>Iterator::find_map\<close>.\<close>

fun find_map :: "('a \<Rightarrow> 'b option) \<Rightarrow> 'a list \<Rightarrow> 'b option" where
  "find_map f [] = None"
| "find_map f (x # xs) = (case f x of Some y \<Rightarrow> Some y | None \<Rightarrow> find_map f xs)"

fun find_position :: "('a \<Rightarrow> bool) \<Rightarrow> 'a list \<Rightarrow> nat option" where
  "find_position P [] = None"
| "find_position P (x # xs) = (if P x then Some 0 else map_option Suc (find_position P xs))"

lemma find_position_None: "find_position P xs = None \<longleftrightarrow> (\<forall>x \<in> set xs. \<not> P x)"
  by (induction xs) auto

lemma find_position_Some:
  "find_position P xs = Some i \<longleftrightarrow> i < length xs \<and> P (xs ! i) \<and> (\<forall>j < i. \<not> P (xs ! j))"
proof (induction xs arbitrary: i)
  case Nil
  then show ?case by simp
next
  case (Cons x xs)
  show ?case
  proof (cases "P x")
    case True
    then show ?thesis by (cases i) auto
  next
    case False
    then show ?thesis
      by (cases i) (auto simp: Cons.IH less_Suc_eq_0_disj)
  qed
qed

section \<open>Strings\<close>

text \<open>
  A Rust string is its UTF-8 bytes. \<open>trim\<close> removes the characters with the Unicode property
  \<open>White_Space\<close>, listed here by their encodings; UTF-8 is self-synchronising, so stripping
  encodings from either end is stripping characters.
\<close>

definition white_space :: "string list" where
  "white_space =
     [[CHR 0x09], [CHR 0x0A], [CHR 0x0B], [CHR 0x0C], [CHR 0x0D], [CHR 0x20],
      [CHR 0xC2, CHR 0x85], [CHR 0xC2, CHR 0xA0], [CHR 0xE1, CHR 0x9A, CHR 0x80],
      [CHR 0xE2, CHR 0x80, CHR 0x80], [CHR 0xE2, CHR 0x80, CHR 0x81],
      [CHR 0xE2, CHR 0x80, CHR 0x82], [CHR 0xE2, CHR 0x80, CHR 0x83],
      [CHR 0xE2, CHR 0x80, CHR 0x84], [CHR 0xE2, CHR 0x80, CHR 0x85],
      [CHR 0xE2, CHR 0x80, CHR 0x86], [CHR 0xE2, CHR 0x80, CHR 0x87],
      [CHR 0xE2, CHR 0x80, CHR 0x88], [CHR 0xE2, CHR 0x80, CHR 0x89],
      [CHR 0xE2, CHR 0x80, CHR 0x8A], [CHR 0xE2, CHR 0x80, CHR 0xA8],
      [CHR 0xE2, CHR 0x80, CHR 0xA9], [CHR 0xE2, CHR 0x80, CHR 0xAF],
      [CHR 0xE2, CHR 0x81, CHR 0x9F], [CHR 0xE3, CHR 0x80, CHR 0x80]]"

fun strip_first :: "string list \<Rightarrow> string \<Rightarrow> string option" where
  "strip_first [] s = None"
| "strip_first (w # ws) s =
     (if w \<noteq> [] \<and> prefix w s then Some (drop (length w) s) else strip_first ws s)"

lemma strip_first_length: "strip_first ws s = Some t \<Longrightarrow> length t < length s"
  by (induction ws) (auto split: if_splits simp: prefix_def)

function strip_front :: "string list \<Rightarrow> string \<Rightarrow> string" where
  "strip_front ws s = (case strip_first ws s of None \<Rightarrow> s | Some t \<Rightarrow> strip_front ws t)"
  by pat_completeness auto
termination
  by (relation "measure (\<lambda>(ws, s). length s)") (auto dest: strip_first_length)

declare strip_front.simps [simp del]

definition trim :: "string \<Rightarrow> string" where
  "trim s = rev (strip_front (map rev white_space) (rev (strip_front white_space s)))"

lemma strip_front_None: "strip_first ws s = None \<Longrightarrow> strip_front ws s = s"
  by (simp add: strip_front.simps)

lemma trim_idI:
  "strip_first white_space s = None \<Longrightarrow> strip_first (map rev white_space) (rev s) = None \<Longrightarrow> trim s = s"
  by (simp add: trim_def strip_front_None)

definition str_contains :: "string \<Rightarrow> string \<Rightarrow> bool" where
  "str_contains hay needle \<longleftrightarrow> sublist needle hay"

text \<open>The decimal text of a number.\<close>

fun show_nat :: "nat \<Rightarrow> string" where
  "show_nat n = (if n < 10 then [char_of (48 + n)] else show_nat (n div 10) @ [char_of (48 + n mod 10)])"

declare show_nat.simps [simp del]

definition ascii_lower :: "char \<Rightarrow> char" where
  "ascii_lower c =
     (if 65 \<le> (of_char c :: nat) \<and> (of_char c :: nat) \<le> 90 then char_of (of_char c + 32 :: nat) else c)"

definition to_ascii_lowercase :: "string \<Rightarrow> string" where
  "to_ascii_lowercase = map ascii_lower"

definition eq_ignore_ascii_case :: "string \<Rightarrow> string \<Rightarrow> bool" where
  "eq_ignore_ascii_case a b \<longleftrightarrow> to_ascii_lowercase a = to_ascii_lowercase b"

lemma ascii_lower_idem [simp]: "ascii_lower (ascii_lower c) = ascii_lower c"
  by (auto simp: ascii_lower_def)

lemma to_ascii_lowercase_idem [simp]:
  "to_ascii_lowercase (to_ascii_lowercase s) = to_ascii_lowercase s"
  by (simp add: to_ascii_lowercase_def)

end
