(* ===== verification/F64.thy ===== *)
theory F64
  imports Prelude
begin

text \<open>
  Rust's primitive type \<open>f64\<close>: IEEE 754 binary64 with round to nearest, ties to even, over the
  64 bits of a value. The program computes surface coordinates, joystick geometry and scaled
  motion with it. A non-negative finite value with magnitude bits \<open>b\<close> is
  \<open>man b * 2 ^ ex b\<close> units of \<open>2 ^ -1074\<close>, so bits and values are ordered alike; a result is
  rounded once by \<open>round_dyadic\<close>. The lemmas at the end say that rounding is monotone and
  exact where it should be, and lift this to multiplication, addition, \<open>round\<close> and the casts.
\<close>

section \<open>Bits\<close>

datatype f64 = F64 (to_bits: u64)

definition INF_MAG :: nat where "INF_MAG = 9218868437227405312" \<comment> \<open>exponent bits all one\<close>

definition f_neg_bit :: "f64 \<Rightarrow> bool" where
  "f_neg_bit x \<longleftrightarrow> bit (to_bits x) 63"

definition mag :: "f64 \<Rightarrow> nat" where
  "mag x = unat (to_bits x) mod 9223372036854775808"

definition mk_f64 :: "bool \<Rightarrow> nat \<Rightarrow> f64" where
  "mk_f64 s b = F64 (of_nat (b + (if s then 9223372036854775808 else 0)))"

definition f_nan :: f64 where "f_nan = mk_f64 False 9221120237041090560"

definition is_nan :: "f64 \<Rightarrow> bool" where "is_nan x \<longleftrightarrow> INF_MAG < mag x"
definition is_infinite :: "f64 \<Rightarrow> bool" where "is_infinite x \<longleftrightarrow> mag x = INF_MAG"
definition is_finite :: "f64 \<Rightarrow> bool" where "is_finite x \<longleftrightarrow> mag x < INF_MAG"

text \<open>Significand and exponent of a magnitude, in units of \<open>2 ^ -1074\<close>.\<close>

definition man :: "nat \<Rightarrow> nat" where
  "man b = (if b < 4503599627370496 then b else 4503599627370496 + b mod 4503599627370496)"

definition ex :: "nat \<Rightarrow> nat" where
  "ex b = (if b < 4503599627370496 then 0 else b div 4503599627370496 - 1)"

definition ord :: "f64 \<Rightarrow> int" where
  "ord x = (if f_neg_bit x then - int (mag x) else int (mag x))"

definition f_lt :: "f64 \<Rightarrow> f64 \<Rightarrow> bool" where
  "f_lt x y \<longleftrightarrow> \<not> is_nan x \<and> \<not> is_nan y \<and> ord x < ord y"

definition f_le :: "f64 \<Rightarrow> f64 \<Rightarrow> bool" where
  "f_le x y \<longleftrightarrow> \<not> is_nan x \<and> \<not> is_nan y \<and> ord x \<le> ord y"

definition f_eq :: "f64 \<Rightarrow> f64 \<Rightarrow> bool" where
  "f_eq x y \<longleftrightarrow> \<not> is_nan x \<and> \<not> is_nan y \<and> ord x = ord y"

section \<open>Rounding\<close>

fun bitlen :: "nat \<Rightarrow> nat" where
  "bitlen n = (if n = 0 then 0 else Suc (bitlen (n div 2)))"

declare bitlen.simps [simp del]

primrec num_len :: "num \<Rightarrow> num" where
  "num_len num.One = num.One"
| "num_len (num.Bit0 n) = Num.inc (num_len n)"
| "num_len (num.Bit1 n) = Num.inc (num_len n)"

lemma bitlen_numeral_eq: "bitlen (numeral n) = numeral (num_len n)"
proof (induction n)
  case One
  show ?case by (subst bitlen.simps) (simp add: bitlen.simps [of 0])
next
  case (Bit0 n)
  have "numeral (num.Bit0 n) div 2 = (numeral n :: nat)" by simp
  then show ?case by (subst bitlen.simps) (simp add: Bit0 numeral_inc del: numeral_Bit0_div_2)
next
  case (Bit1 n)
  then show ?case by (subst bitlen.simps) (simp add: numeral_inc)
qed

lemma bitlen_eval [simp]:
  "bitlen 0 = 0" "bitlen (Suc 0) = 1" "bitlen 1 = 1" "bitlen (numeral n) = numeral (num_len n)"
  by (simp_all add: bitlen_numeral_eq bitlen.simps [of "Suc 0"] bitlen.simps [of 0])

text \<open>Round half to even of the fraction \<open>p / q\<close>.\<close>

definition rhe :: "nat \<Rightarrow> nat \<Rightarrow> nat" where
  "rhe p q = (let n = p div q; r = p mod q
              in if 2 * r < q \<or> (2 * r = q \<and> even n) then n else n + 1)"

text \<open>The magnitude bits nearest to \<open>m * 2 ^ e\<close> units; \<open>INF_MAG\<close> on overflow.\<close>

definition round_dyadic :: "nat \<Rightarrow> int \<Rightarrow> nat" where
  "round_dyadic m e =
     (if m = 0 then 0
      else
        let k = nat (int (bitlen m) + e - 53);
            d = int k - e;
            n = (if d \<le> 0 then m * 2 ^ nat (- d) else rhe m (2 ^ nat d))
        in min (k * 4503599627370496 + n) INF_MAG)"

text \<open>The nearest magnitude to the fraction \<open>p / q\<close> times \<open>2 ^ e\<close> units: the quotient to at
  least 56 bits with the remainder folded into a sticky bit.\<close>

definition round_frac :: "nat \<Rightarrow> nat \<Rightarrow> int \<Rightarrow> nat" where
  "round_frac p q e =
     (let s = 57 + bitlen q;
          t = p * 2 ^ s
      in round_dyadic (2 * (t div q) + (if t mod q = 0 then 0 else 1)) (e - int s - 1))"

section \<open>Arithmetic\<close>

definition f_neg :: "f64 \<Rightarrow> f64" where
  "f_neg x = mk_f64 (\<not> f_neg_bit x) (mag x)"

definition signed_man :: "f64 \<Rightarrow> int" where
  "signed_man x = (if f_neg_bit x then - int (man (mag x)) else int (man (mag x)))"

definition f_add :: "f64 \<Rightarrow> f64 \<Rightarrow> f64" where
  "f_add x y =
     (if is_nan x \<or> is_nan y then f_nan
      else if is_infinite x then (if is_infinite y \<and> f_neg_bit x \<noteq> f_neg_bit y then f_nan else x)
      else if is_infinite y then y
      else
        let e = min (ex (mag x)) (ex (mag y));
            v = signed_man x * 2 ^ (ex (mag x) - e) + signed_man y * 2 ^ (ex (mag y) - e)
        in if v = 0 then mk_f64 (f_neg_bit x \<and> f_neg_bit y) 0
           else mk_f64 (v < 0) (round_dyadic (nat \<bar>v\<bar>) (int e)))"

definition f_sub :: "f64 \<Rightarrow> f64 \<Rightarrow> f64" where
  "f_sub x y = f_add x (f_neg y)"

definition f_mul :: "f64 \<Rightarrow> f64 \<Rightarrow> f64" where
  "f_mul x y =
     (let s = (f_neg_bit x \<noteq> f_neg_bit y)
      in if is_nan x \<or> is_nan y then f_nan
         else if is_infinite x \<or> is_infinite y
           then (if mag x = 0 \<or> mag y = 0 then f_nan else mk_f64 s INF_MAG)
         else mk_f64 s (round_dyadic (man (mag x) * man (mag y))
                          (int (ex (mag x)) + int (ex (mag y)) - 1074)))"

definition f_div :: "f64 \<Rightarrow> f64 \<Rightarrow> f64" where
  "f_div x y =
     (let s = (f_neg_bit x \<noteq> f_neg_bit y)
      in if is_nan x \<or> is_nan y then f_nan
         else if is_infinite x then (if is_infinite y then f_nan else mk_f64 s INF_MAG)
         else if is_infinite y then mk_f64 s 0
         else if mag y = 0 then (if mag x = 0 then f_nan else mk_f64 s INF_MAG)
         else mk_f64 s (round_frac (man (mag x)) (man (mag y))
                          (int (ex (mag x)) - int (ex (mag y)) + 1074)))"

text \<open>\<open>f64::min\<close> and \<open>f64::max\<close> return the other argument for a NaN; \<open>clamp\<close> keeps a NaN.\<close>

definition f_max :: "f64 \<Rightarrow> f64 \<Rightarrow> f64" where
  "f_max x y = (if is_nan x then y else if is_nan y then x else if f_lt x y then y else x)"

definition f_min :: "f64 \<Rightarrow> f64 \<Rightarrow> f64" where
  "f_min x y = (if is_nan x then y else if is_nan y then x else if f_lt y x then y else x)"

definition f_clamp :: "f64 \<Rightarrow> f64 \<Rightarrow> f64 \<Rightarrow> f64" where
  "f_clamp x lo hi = (let y = (if f_lt x lo then lo else x) in if f_lt hi y then hi else y)"

text \<open>\<open>round\<close> rounds half away from zero, \<open>floor\<close> down; a value with exponent at least 1074 is
  an integer already.\<close>

definition f_round :: "f64 \<Rightarrow> f64" where
  "f_round x =
     (if \<not> is_finite x \<or> 1074 \<le> ex (mag x) then x
      else let d = 1074 - ex (mag x)
           in mk_f64 (f_neg_bit x) (round_dyadic ((man (mag x) + 2 ^ (d - 1)) div 2 ^ d) 1074))"

definition f_floor :: "f64 \<Rightarrow> f64" where
  "f_floor x =
     (if \<not> is_finite x \<or> 1074 \<le> ex (mag x) then x
      else let d = 1074 - ex (mag x); q = man (mag x) div 2 ^ d; r = man (mag x) mod 2 ^ d
           in mk_f64 (f_neg_bit x)
                (round_dyadic (if f_neg_bit x \<and> r \<noteq> 0 then q + 1 else q) 1074))"

text \<open>The integer part, towards zero, of a finite value, and Rust's saturating casts.\<close>

definition trunc_mag :: "nat \<Rightarrow> nat" where
  "trunc_mag b = (if 1074 \<le> ex b then man b * 2 ^ (ex b - 1074) else man b div 2 ^ (1074 - ex b))"

definition f_to_int :: "f64 \<Rightarrow> int \<Rightarrow> int \<Rightarrow> int" where
  "f_to_int x lo hi =
     (if is_nan x then 0
      else if is_infinite x then (if f_neg_bit x then lo else hi)
      else max lo (min hi ((if f_neg_bit x then - 1 else 1) * int (trunc_mag (mag x)))))"

definition f_as_u32 :: "f64 \<Rightarrow> u32" where
  "f_as_u32 x = of_int (f_to_int x 0 4294967295)"

definition f_as_u16 :: "f64 \<Rightarrow> u16" where
  "f_as_u16 x = of_int (f_to_int x 0 65535)"

definition f_as_i32 :: "f64 \<Rightarrow> i32" where
  "f_as_i32 x = of_int (f_to_int x (- 2147483648) 2147483647)"

definition f_as_i64 :: "f64 \<Rightarrow> i64" where
  "f_as_i64 x = f_to_int x I64_MIN I64_MAX"

text \<open>Exact conversions from integers, and a decimal literal \<open>p / q\<close>.\<close>

definition f_of_int :: "int \<Rightarrow> f64" where
  "f_of_int n = mk_f64 (n < 0) (round_dyadic (nat \<bar>n\<bar>) 1074)"

definition f_of_u32 :: "u32 \<Rightarrow> f64" where
  "f_of_u32 n = mk_f64 False (round_dyadic (unat n) 1074)"

definition f_of_i32 :: "i32 \<Rightarrow> f64" where
  "f_of_i32 n = f_of_int (sint n)"

definition f_lit :: "nat \<Rightarrow> nat \<Rightarrow> f64" where
  "f_lit p q = mk_f64 False (round_frac p q 1074)"

definition f_zero :: f64 where "f_zero = F64 0"
definition f_one :: f64 where "f_one = F64 4607182418800017408"

section \<open>Rounding is monotone and exact on representable values\<close>

lemma bitlen_less: "n < 2 ^ bitlen n"
proof (induction n rule: bitlen.induct)
  case (1 n)
  show ?case
  proof (cases "n = 0")
    case False
    then have "n div 2 < 2 ^ bitlen (n div 2)" by (rule "1.IH")
    with False show ?thesis by (subst bitlen.simps) simp
  qed simp
qed

lemma bitlen_ge: "n \<noteq> 0 \<Longrightarrow> 2 ^ (bitlen n - 1) \<le> n"
proof (induction n rule: bitlen.induct)
  case (1 n)
  show ?case
  proof (cases "n div 2 = 0")
    case True
    with "1.prems" have "n = 1" by arith
    then show ?thesis by simp
  next
    case False
    then have "0 < bitlen (n div 2)" by (subst bitlen.simps) simp
    then have "2 * 2 ^ (bitlen (n div 2) - 1) = (2::nat) ^ bitlen (n div 2)"
      by (simp flip: power_Suc)
    moreover have "2 ^ (bitlen (n div 2) - 1) \<le> n div 2"
      using "1.IH" "1.prems" False by simp
    ultimately have "2 ^ bitlen (n div 2) \<le> n" by linarith
    with "1.prems" show ?thesis by (subst bitlen.simps) simp
  qed
qed

lemma bitlen_le_iff: "bitlen n \<le> k \<longleftrightarrow> n < 2 ^ k"
proof
  assume "bitlen n \<le> k"
  then have "(2::nat) ^ bitlen n \<le> 2 ^ k" by simp
  with bitlen_less [of n] show "n < 2 ^ k" by linarith
next
  assume "n < 2 ^ k"
  show "bitlen n \<le> k"
  proof (rule ccontr)
    assume "\<not> bitlen n \<le> k"
    then have "0 < bitlen n" and "k \<le> bitlen n - 1" by auto
    from this(1) have "n \<noteq> 0" by (cases n) auto
    from \<open>k \<le> bitlen n - 1\<close> have "(2::nat) ^ k \<le> 2 ^ (bitlen n - 1)" by simp
    with bitlen_ge [OF \<open>n \<noteq> 0\<close>] \<open>n < 2 ^ k\<close> show False by linarith
  qed
qed

lemma bitlen_unique: "2 ^ k \<le> n \<Longrightarrow> n < 2 ^ Suc k \<Longrightarrow> bitlen n = Suc k"
proof -
  assume "2 ^ k \<le> n" and "n < 2 ^ Suc k"
  then have "\<not> bitlen n \<le> k" and "bitlen n \<le> Suc k"
    by (simp_all only: bitlen_le_iff not_less)
  then show ?thesis by simp
qed

lemma bitlen_mono: "m \<le> n \<Longrightarrow> bitlen m \<le> bitlen n"
  using bitlen_less [of n] by (simp add: bitlen_le_iff)

lemma bitlen_shift: "m \<noteq> 0 \<Longrightarrow> bitlen (m * 2 ^ j) = bitlen m + j"
proof -
  assume "m \<noteq> 0"
  then have "0 < bitlen m" by (subst bitlen.simps) simp
  then obtain b where b: "bitlen m = Suc b" by (cases "bitlen m") auto
  have "2 ^ b \<le> m" and "m < 2 ^ Suc b"
    using bitlen_ge [OF \<open>m \<noteq> 0\<close>] bitlen_less [of m] b by simp_all
  then have "2 ^ (b + j) \<le> m * 2 ^ j" and "m * 2 ^ j < 2 ^ Suc (b + j)"
    by (simp_all add: power_add)
  from bitlen_unique [OF this] b show ?thesis by simp
qed

lemma rhe_exact: "0 < q \<Longrightarrow> rhe (n * q) q = n"
  by (simp add: rhe_def Let_def)

lemma rhe_mult: "0 < c \<Longrightarrow> rhe (p * c) (q * c) = rhe p q"
proof -
  assume c: "0 < c"
  have "(p * c) mod (q * c) = (p mod q) * c" by (simp add: mult_mod_left mult.commute)
  moreover have "(p * c) div (q * c) = p div q" using c by simp
  ultimately show ?thesis using c by (simp add: rhe_def Let_def mult.assoc [symmetric])
qed

lemma rhe_bounds: "p div q \<le> rhe p q" "rhe p q \<le> p div q + 1"
  by (auto simp: rhe_def Let_def)

lemma rhe_mono: "p \<le> p' \<Longrightarrow> rhe p q \<le> rhe p' q"
proof -
  assume le: "p \<le> p'"
  then have d: "p div q \<le> p' div q" by (rule div_le_mono)
  show ?thesis
  proof (cases "p div q = p' div q")
    case True
    with le have "p mod q \<le> p' mod q"
      by (metis add_le_cancel_left mult_div_mod_eq)
    with True show ?thesis by (auto simp: rhe_def Let_def)
  next
    case False
    with d rhe_bounds [of p q] rhe_bounds [of p' q] show ?thesis by linarith
  qed
qed

lemma rhe_le: "p \<le> n * q \<Longrightarrow> 0 < q \<Longrightarrow> rhe p q \<le> n"
  using rhe_mono [of p "n * q" q] rhe_exact [of q n] by simp

lemma rhe_ge: "n * q \<le> p \<Longrightarrow> 0 < q \<Longrightarrow> n \<le> rhe p q"
  using rhe_mono [of "n * q" p q] rhe_exact [of q n] by simp

text \<open>The same rounding stated over naturals only: the value is \<open>p / 2 ^ d\<close> units.\<close>

definition round_units :: "nat \<Rightarrow> nat \<Rightarrow> nat" where
  "round_units p d = (let k = bitlen p - (53 + d) in k * 4503599627370496 + rhe p (2 ^ (d + k)))"

lemma round_dyadic_units:
  assumes "0 \<le> e + int d"
  shows "round_dyadic m e = min (round_units (m * 2 ^ nat (e + int d)) d) INF_MAG"
proof (cases "m = 0")
  case True
  then show ?thesis
    by (auto simp: round_dyadic_def round_units_def rhe_def Let_def)
next
  case False
  define j where "j = nat (e + int d)"
  define k where "k = nat (int (bitlen m) + e - 53)"
  have e: "e = int j - int d" using assms by (simp add: j_def)
  have k_eq: "bitlen (m * 2 ^ j) - (53 + d) = k"
    using False by (simp add: bitlen_shift k_def e)
  have "(if int k - e \<le> 0 then m * 2 ^ nat (- (int k - e)) else rhe m (2 ^ nat (int k - e)))
      = rhe (m * 2 ^ j) (2 ^ (d + k))"
  proof (cases "int k - e \<le> 0")
    case True
    then have "j = nat (e - int k) + (d + k)" using e by simp
    then have "m * 2 ^ j = (m * 2 ^ nat (e - int k)) * 2 ^ (d + k)"
      by (simp add: power_add mult.assoc)
    then have "rhe (m * 2 ^ j) (2 ^ (d + k)) = m * 2 ^ nat (e - int k)"
      by (simp only: rhe_exact zero_less_power zero_less_numeral)
    with True show ?thesis by simp
  next
    case False
    then have "d + k = nat (int k - e) + j" using e by simp
    then have "(2::nat) ^ (d + k) = 2 ^ nat (int k - e) * 2 ^ j" by (simp add: power_add)
    with False show ?thesis by (simp add: rhe_mult)
  qed
  with k_eq show ?thesis
    using False
    by (simp add: round_dyadic_def round_units_def Let_def k_def [symmetric] j_def [symmetric])
qed

lemma round_units_mono: "p \<le> p' \<Longrightarrow> round_units p d \<le> round_units p' d"
proof -
  assume le: "p \<le> p'"
  define k where "k = bitlen p - (53 + d)"
  define k' where "k' = bitlen p' - (53 + d)"
  have kk: "k \<le> k'" using bitlen_mono [OF le] by (simp add: k_def k'_def)
  show ?thesis
  proof (cases "k = k'")
    case True
    with rhe_mono [OF le] show ?thesis
      by (simp add: round_units_def Let_def k_def [symmetric] k'_def [symmetric])
  next
    case False
    with kk have lt: "k + 1 \<le> k'" by simp
    have "p < 2 ^ (53 + d + k)"
      by (subst bitlen_le_iff [symmetric]) (simp add: k_def)
    then have "p \<le> 2 ^ 53 * 2 ^ (d + k)" by (simp add: power_add algebra_simps)
    then have hi: "rhe p (2 ^ (d + k)) \<le> 2 ^ 53" by (rule rhe_le) simp
    have "\<not> bitlen p' \<le> 52 + d + k'" using lt by (simp add: k'_def)
    then have "2 ^ 52 * 2 ^ (d + k') \<le> p'"
      by (simp add: bitlen_le_iff power_add algebra_simps)
    then have lo: "2 ^ 52 \<le> rhe p' (2 ^ (d + k'))" by (rule rhe_ge) simp
    have "(k + 1) * 4503599627370496 \<le> k' * 4503599627370496"
      using lt by (rule mult_le_mono1)
    with hi lo show ?thesis
      by (simp add: round_units_def Let_def k_def [symmetric] k'_def [symmetric])
  qed
qed

theorem round_dyadic_mono:
  assumes "0 \<le> e + int d" and "0 \<le> e' + int d"
    and "m * 2 ^ nat (e + int d) \<le> m' * 2 ^ nat (e' + int d)"
  shows "round_dyadic m e \<le> round_dyadic m' e'"
  using round_units_mono [OF assms(3), of d]
  by (simp add: round_dyadic_units [OF assms(1)] round_dyadic_units [OF assms(2)] min.coboundedI1)

lemma round_dyadic_le_inf [simp]: "round_dyadic m e \<le> INF_MAG"
  by (simp add: round_dyadic_def Let_def)

lemma round_dyadic_0 [simp]: "round_dyadic 0 e = 0"
  by (simp add: round_dyadic_def)

section \<open>Magnitudes as numbers of units\<close>

definition units :: "nat \<Rightarrow> nat" where
  "units b = man b * 2 ^ ex b"

lemma man_less: "man b < 9007199254740992"
  by (simp add: man_def)

lemma units_normal:
  assumes "n \<le> 9007199254740992" and "k = 0 \<or> 4503599627370496 \<le> n"
  shows "units (k * 4503599627370496 + n) = n * 2 ^ k"
proof -
  consider "n < 4503599627370496" "k = 0"
    | "4503599627370496 \<le> n" "n < 9007199254740992" | "n = 9007199254740992"
    using assms by linarith
  then show ?thesis
  proof cases
    case 2
    define r where "r = n - 4503599627370496"
    have n: "n = 4503599627370496 + r" and r: "r < 4503599627370496"
      using 2 by (simp_all add: r_def)
    have "k * 4503599627370496 + n = r + (k + 1) * 4503599627370496" using n by simp
    then have "(k * 4503599627370496 + n) div 4503599627370496 = k + 1"
      and "(k * 4503599627370496 + n) mod 4503599627370496 = r"
      using r by simp_all
    with n 2 show ?thesis by (simp add: units_def man_def ex_def)
  next
    case 3
    then have "k * 4503599627370496 + n = (k + 2) * 4503599627370496" by simp
    then have "(k * 4503599627370496 + n) div 4503599627370496 = k + 2"
      and "(k * 4503599627370496 + n) mod 4503599627370496 = 0"
      by simp_all
    with 3 show ?thesis by (simp add: units_def man_def ex_def)
  qed (simp add: units_def man_def ex_def)
qed

lemma units_step: "units b < units (Suc b)"
proof (cases "b < 4503599627370496")
  case True
  then show ?thesis
    using units_normal [of b 0] units_normal [of "Suc b" 0] by simp
next
  case False
  define k where "k = b div 4503599627370496 - 1"
  define n where "n = 4503599627370496 + b mod 4503599627370496"
  have "1 \<le> b div 4503599627370496" using False by (simp add: div_greater_zero_iff Suc_le_eq)
  then have b: "b = k * 4503599627370496 + n"
    using div_mult_mod_eq [of b 4503599627370496] by (simp add: k_def n_def algebra_simps diff_mult_distrib)
  moreover have "n < 9007199254740992" and "4503599627370496 \<le> n" by (simp_all add: n_def)
  ultimately show ?thesis
    using units_normal [of n k] units_normal [of "Suc n" k] by simp
qed

lemma units_strict_mono: "b < b' \<Longrightarrow> units b < units b'"
  by (rule lift_Suc_mono_less [of units, OF units_step])

lemma units_le_iff: "units b \<le> units b' \<longleftrightarrow> b \<le> b'"
  by (metis linorder_not_less units_strict_mono nat_less_le)

lemma units_0 [simp]: "units 0 = 0"
  by (simp add: units_def man_def ex_def)

lemma shift_div_pow:
  "(if e \<le> x then m * 2 ^ (x - e) else m div 2 ^ (e - x)) = (m * 2 ^ x) div (2 ^ e :: nat)"
proof (cases "e \<le> x")
  case True
  then have eq: "m * 2 ^ x = (m * 2 ^ (x - e)) * 2 ^ e" by (simp add: mult.assoc flip: power_add)
  show ?thesis using True unfolding eq by simp
next
  case False
  then have "(2::nat) ^ e = 2 ^ (e - x) * 2 ^ x" by (simp flip: power_add)
  then show ?thesis using False by simp
qed

lemma trunc_mag_units: "trunc_mag b = units b div 2 ^ 1074"
  by (simp only: trunc_mag_def units_def shift_div_pow)

lemma units_round_dyadic:
  assumes "bitlen m \<le> 53" and "e \<le> 2045"
  shows "units (round_dyadic m (int e)) = m * 2 ^ e"
proof (cases "m = 0")
  case False
  define k where "k = bitlen m + e - 53"
  have kz: "nat (int (bitlen m) + int e - 53) = k" unfolding k_def by arith
  have ke: "k \<le> e" using assms(1) by (simp add: k_def)
  define n where "n = m * 2 ^ (e - k)"
  have bn: "bitlen n = bitlen m + (e - k)" using False by (simp add: n_def bitlen_shift)
  then have "bitlen n \<le> 53" using assms(1) unfolding k_def by arith
  then have n53: "n < 2 ^ 53" by (simp add: bitlen_le_iff)
  have n52: "k = 0 \<or> 4503599627370496 \<le> n"
  proof (cases "k = 0")
    case False
    then have "\<not> bitlen n \<le> 52" using bn ke by (simp add: k_def)
    then show ?thesis by (simp add: bitlen_le_iff)
  qed simp
  have "k \<le> 2045" using ke assms(2) by simp
  then have "k * 4503599627370496 \<le> 2045 * 4503599627370496" by (rule mult_le_mono1)
  then have "k * 4503599627370496 + n \<le> INF_MAG" using n53 by (simp add: INF_MAG_def)
  then have "round_dyadic m (int e) = k * 4503599627370496 + n"
    using False ke by (simp add: round_dyadic_def Let_def kz n_def nat_diff_distrib)
  then show ?thesis
    using units_normal [of n k] n53 n52 ke by (simp add: n_def flip: power_add)
qed simp

lemma ex_less: "b < INF_MAG \<Longrightarrow> ex b < 2046"
proof -
  assume "b < INF_MAG"
  then have "b div 4503599627370496 < 2047" by (simp add: INF_MAG_def less_mult_imp_div_less)
  then show ?thesis by (cases "b div 4503599627370496") (auto simp: ex_def)
qed

lemma bitlen_man: "bitlen (man b) \<le> 53"
  using man_less [of b] by (simp add: bitlen_le_iff)

lemma round_dyadic_man: "b < INF_MAG \<Longrightarrow> round_dyadic (man b) (int (ex b)) = b"
proof -
  assume b: "b < INF_MAG"
  have "units (round_dyadic (man b) (int (ex b))) = units b"
    using units_round_dyadic [OF bitlen_man [of b], of "ex b"] ex_less [OF b]
    by (simp add: units_def)
  then show ?thesis by (simp add: eq_iff units_le_iff)
qed

text \<open>A value that some magnitude represents is rounded to that magnitude.\<close>

lemma round_dyadic_exact:
  assumes "b < INF_MAG" and "0 \<le> e + int d" and "m * 2 ^ nat (e + int d) = units b * 2 ^ d"
  shows "round_dyadic m e = b"
proof -
  have "man b * 2 ^ nat (int (ex b) + int d) = m * 2 ^ nat (e + int d)"
    using assms(3) by (simp add: units_def power_add flip: of_nat_add)
  then have "round_dyadic m e = round_dyadic (man b) (int (ex b))"
    using round_dyadic_mono [OF assms(2), of "int (ex b)" m "man b"]
      round_dyadic_mono [OF _ assms(2), of "int (ex b)" "man b" m] by simp
  then show ?thesis using round_dyadic_man [OF assms(1)] by simp
qed

lemma unat_u64_bits: "n < 18446744073709551616 \<Longrightarrow> unat (of_nat n :: u64) = n"
  by (simp add: unsigned_of_nat take_bit_nat_eq_self)

lemma mk_f64_bits:
  assumes "b \<le> INF_MAG"
  shows "unat (to_bits (mk_f64 s b)) = b + (if s then 9223372036854775808 else 0)"
proof -
  have "b + (if s then 9223372036854775808 else 0) < 18446744073709551616"
    using assms by (simp add: INF_MAG_def)
  then show ?thesis unfolding mk_f64_def f64.sel by (rule unat_u64_bits)
qed

lemma mag_mk [simp]: "b \<le> INF_MAG \<Longrightarrow> mag (mk_f64 s b) = b"
  unfolding mag_def mk_f64_bits by (auto simp: INF_MAG_def)

lemma neg_bit_mk [simp]: "b \<le> INF_MAG \<Longrightarrow> f_neg_bit (mk_f64 s b) = s"
proof -
  assume b: "b \<le> INF_MAG"
  have "f_neg_bit (mk_f64 s b) \<longleftrightarrow> bit (unat (to_bits (mk_f64 s b))) 63"
    by (simp add: f_neg_bit_def bit_unsigned_iff)
  also have "\<dots> \<longleftrightarrow> odd ((b + (if s then 9223372036854775808 else 0)) div 2 ^ 63)"
    by (simp only: mk_f64_bits [OF b] bit_iff_odd)
  also have "(b + (if s then 9223372036854775808 else 0)) div 2 ^ 63 = (if s then 1 else 0)"
    using b by (auto simp: INF_MAG_def)
  finally show ?thesis by simp
qed

section \<open>Non-negative values\<close>

definition f_nonneg :: "f64 \<Rightarrow> bool" where
  "f_nonneg x \<longleftrightarrow> \<not> is_nan x \<and> 0 \<le> ord x"

lemma f_nonneg_ord: "f_nonneg x \<Longrightarrow> ord x = int (mag x)"
  by (auto simp: f_nonneg_def ord_def split: if_splits)

lemma f_nonneg_neg_bit: "f_nonneg x \<Longrightarrow> f_neg_bit x \<Longrightarrow> mag x = 0"
  by (auto simp: f_nonneg_def ord_def)

lemma finite_not_nan: "is_finite x \<Longrightarrow> \<not> is_nan x \<and> \<not> is_infinite x"
  by (auto simp: is_finite_def is_nan_def is_infinite_def)

lemma nonneg_mk: "b \<le> INF_MAG \<Longrightarrow> (s \<Longrightarrow> b = 0) \<Longrightarrow> f_nonneg (mk_f64 s b)"
  by (auto simp: f_nonneg_def is_nan_def ord_def)

lemma man_0 [simp]: "man 0 = 0"
  by (simp add: man_def)

lemma f_mul_nonneg:
  assumes "f_nonneg x" "is_finite x" "f_nonneg y" "is_finite y"
  shows "f_nonneg (f_mul x y)"
    and "mag (f_mul x y) = round_dyadic (man (mag x) * man (mag y))
                             (int (ex (mag x)) + int (ex (mag y)) - 1074)"
proof -
  let ?b = "round_dyadic (man (mag x) * man (mag y)) (int (ex (mag x)) + int (ex (mag y)) - 1074)"
  have m: "f_mul x y = mk_f64 (f_neg_bit x \<noteq> f_neg_bit y) ?b"
    using finite_not_nan [OF assms(2)] finite_not_nan [OF assms(4)] by (simp add: f_mul_def Let_def)
  have "f_neg_bit x \<noteq> f_neg_bit y \<Longrightarrow> ?b = 0"
    using f_nonneg_neg_bit [OF assms(1)] f_nonneg_neg_bit [OF assms(3)] by auto
  then show "f_nonneg (f_mul x y)" using m by (simp add: nonneg_mk)
  show "mag (f_mul x y) = ?b" using m by simp
qed

lemma f_mul_mono:
  assumes "f_nonneg x" "is_finite x" "f_nonneg x'" "is_finite x'" "f_nonneg y" "is_finite y"
    and "mag x \<le> mag x'"
  shows "mag (f_mul x y) \<le> mag (f_mul x' y)"
proof -
  have scaled: "man (mag z) * man (mag y) * 2 ^ nat (int (ex (mag z)) + int (ex (mag y)) - 1074 + int 1074)
      = units (mag z) * units (mag y)" for z
    by (simp add: units_def power_add flip: of_nat_add)
  have le: "units (mag x) * units (mag y) \<le> units (mag x') * units (mag y)"
    using assms(7) by (simp add: units_le_iff)
  show ?thesis
    unfolding f_mul_nonneg(2) [OF assms(1,2,5,6)] f_mul_nonneg(2) [OF assms(3,4,5,6)]
  proof (rule round_dyadic_mono [where d = 1074])
    show "man (mag x) * man (mag y) * 2 ^ nat (int (ex (mag x)) + int (ex (mag y)) - 1074 + int 1074)
        \<le> man (mag x') * man (mag y) * 2 ^ nat (int (ex (mag x')) + int (ex (mag y)) - 1074 + int 1074)"
      unfolding scaled by (rule le)
  qed simp_all
qed

lemma man_eq_0_iff [simp]: "man b = 0 \<longleftrightarrow> b = 0"
  by (simp add: man_def)

lemma signed_man_nonneg: "f_nonneg x \<Longrightarrow> signed_man x = int (man (mag x))"
  using f_nonneg_neg_bit [of x] by (auto simp: signed_man_def)

lemma f_add_nonneg:
  assumes "f_nonneg x" "is_finite x" "f_nonneg y" "is_finite y"
  shows "f_nonneg (f_add x y)" and "mag x \<le> mag (f_add x y)"
proof -
  let ?e = "min (ex (mag x)) (ex (mag y))"
  define w where "w = man (mag x) * 2 ^ (ex (mag x) - ?e) + man (mag y) * 2 ^ (ex (mag y) - ?e)"
  have v: "signed_man x * 2 ^ (ex (mag x) - ?e) + signed_man y * 2 ^ (ex (mag y) - ?e) = int w"
    by (simp add: w_def signed_man_nonneg [OF assms(1)] signed_man_nonneg [OF assms(3)])
  have eq: "f_add x y = (if w = 0 then mk_f64 (f_neg_bit x \<and> f_neg_bit y) 0
                         else mk_f64 False (round_dyadic w (int ?e)))"
    using finite_not_nan [OF assms(2)] finite_not_nan [OF assms(4)] v
    by (simp add: f_add_def Let_def)
  show "f_nonneg (f_add x y)" by (simp add: eq nonneg_mk)
  show "mag x \<le> mag (f_add x y)"
  proof (cases "w = 0")
    case True
    then show ?thesis by (simp add: eq w_def)
  next
    case False
    have "man (mag x) * 2 ^ ex (mag x) = man (mag x) * 2 ^ (ex (mag x) - ?e) * 2 ^ ?e"
      by (simp add: mult.assoc flip: power_add)
    also have "\<dots> \<le> w * 2 ^ ?e" by (intro mult_le_mono1) (simp add: w_def)
    finally have "round_dyadic (man (mag x)) (int (ex (mag x))) \<le> round_dyadic w (int ?e)"
      by (intro round_dyadic_mono [where d = 0]) simp_all
    moreover have "mag x < INF_MAG" using assms(2) by (simp add: is_finite_def)
    ultimately show ?thesis using False by (simp add: eq round_dyadic_man)
  qed
qed

text \<open>\<open>round\<close> is the integer nearest to the value, halves upwards for a non-negative one.\<close>

definition nearest_int :: "nat \<Rightarrow> nat" where
  "nearest_int b = (units b + 2 ^ 1073) div 2 ^ 1074"

lemma nearest_int_mono: "b \<le> b' \<Longrightarrow> nearest_int b \<le> nearest_int b'"
  unfolding nearest_int_def by (intro div_le_mono add_right_mono) (simp only: units_le_iff)

lemma half_up_shift:
  "e < d \<Longrightarrow> (m + 2 ^ (d - e - 1)) div 2 ^ (d - e) = (m * 2 ^ e + 2 ^ (d - 1)) div (2 ^ d :: nat)"
proof -
  assume lt: "e < d"
  then have "(2::nat) ^ d = 2 ^ (d - e) * 2 ^ e" and "(2::nat) ^ (d - 1) = 2 ^ (d - e - 1) * 2 ^ e"
    by (simp_all flip: power_add)
  then have "(m * 2 ^ e + 2 ^ (d - 1)) div 2 ^ d
      = ((m + 2 ^ (d - e - 1)) * 2 ^ e) div (2 ^ (d - e) * 2 ^ e)"
    by (simp only: add_mult_distrib)
  then show ?thesis by simp
qed

lemma half_up_multiple: "0 < d \<Longrightarrow> (n * 2 ^ d + 2 ^ (d - 1)) div 2 ^ d = (n :: nat)"
proof -
  assume "0 < d"
  then have "2 ^ (d - 1) < (2::nat) ^ d" by simp
  then show ?thesis by (simp add: div_add1_eq)
qed

lemma half_up_1074: "(n * 2 ^ 1074 + 2 ^ 1073) div 2 ^ 1074 = (n :: nat)"
proof -
  have "1074 - 1 = (1073 :: nat)" by simp
  with half_up_multiple [of 1074 n] show ?thesis by (simp only: zero_less_numeral True_implies_equals)
qed

lemma f_round_nonneg:
  assumes "f_nonneg x" "is_finite x"
  shows "f_nonneg (f_round x)" and "units (mag (f_round x)) = nearest_int (mag x) * 2 ^ 1074"
proof -
  let ?m = "man (mag x)" and ?e = "ex (mag x)"
  have goal: "f_nonneg (f_round x) \<and> units (mag (f_round x)) = nearest_int (mag x) * 2 ^ 1074"
  proof (cases "1074 \<le> ?e")
    case True
    have "units (mag x) = (?m * 2 ^ (?e - 1074)) * 2 ^ 1074"
      unfolding units_def mult.assoc power_add [symmetric] using True by simp
    then have "nearest_int (mag x) * 2 ^ 1074 = units (mag x)"
      unfolding nearest_int_def by (simp only: half_up_1074)
    with True assms(1) show ?thesis by (simp add: f_round_def)
  next
    case False
    define d where "d = 1074 - ?e"
    define n where "n = (?m + 2 ^ (d - 1)) div 2 ^ d"
    have d0: "0 < d" using False by (simp add: d_def)
    have n: "n = nearest_int (mag x)"
      using half_up_shift [of ?e 1074 ?m] False
      unfolding n_def d_def nearest_int_def units_def by (simp only: not_le) simp
    have "n \<le> (?m + 2 ^ (d - 1)) div 2 ^ (d - 1)" 
      unfolding n_def by (intro div_le_mono2) (use d0 in auto)
    also have "\<dots> \<le> ?m + 1" by simp
    finally have "bitlen n \<le> 53 \<or> n = 9007199254740992"
      using man_less [of "mag x"] by (auto simp: bitlen_le_iff)
    then have "bitlen n \<le> 53"
    proof
      assume top: "n = 9007199254740992"
      have "n * 2 ^ d \<le> ?m + 2 ^ (d - 1)" unfolding n_def by simp
      moreover have "2 ^ d = 2 * (2::nat) ^ (d - 1)" using d0 by (simp flip: power_Suc)
      moreover have "1 \<le> (2::nat) ^ (d - 1)" by simp
      ultimately have "n \<le> ?m" using top man_less [of "mag x"] by (cases "(2::nat) ^ (d - 1)") auto
      with top man_less [of "mag x"] show ?thesis by simp
    qed
    then have "units (round_dyadic n 1074) = n * 2 ^ 1074"
      using units_round_dyadic [of n 1074] by simp
    moreover have "f_round x = mk_f64 (f_neg_bit x) (round_dyadic n 1074)"
      using False assms(2) by (simp add: f_round_def n_def d_def Let_def)
    moreover have "f_neg_bit x \<Longrightarrow> n = 0"
      using f_nonneg_neg_bit [OF assms(1)] d0 by (simp add: n_def)
    ultimately show ?thesis using n by (auto simp: nonneg_mk)
  qed
  then show "f_nonneg (f_round x)" and "units (mag (f_round x)) = nearest_int (mag x) * 2 ^ 1074"
    by simp_all
qed

lemma trunc_mag_f_round:
  "f_nonneg x \<Longrightarrow> is_finite x \<Longrightarrow> trunc_mag (mag (f_round x)) = nearest_int (mag x)"
  by (simp only: trunc_mag_units f_round_nonneg(2)) simp

lemma trunc_mag_mono: "b \<le> b' \<Longrightarrow> trunc_mag b \<le> trunc_mag b'"
  unfolding trunc_mag_units by (intro div_le_mono) (simp only: units_le_iff)

lemma trunc_mag_INF: "65535 \<le> trunc_mag INF_MAG" "4294967295 \<le> trunc_mag INF_MAG"
  by (simp_all add: trunc_mag_def INF_MAG_def ex_def man_def)

lemma f_to_int_nonneg:
  assumes "f_nonneg x" and "0 \<le> hi" and "nat hi \<le> trunc_mag INF_MAG"
  shows "f_to_int x 0 hi = int (min (nat hi) (trunc_mag (mag x)))"
proof -
  have "trunc_mag (mag x) = 0" if "f_neg_bit x"
    using f_nonneg_neg_bit [OF assms(1) that] by (simp add: trunc_mag_def)
  moreover have "\<not> is_nan x" using assms(1) by (simp add: f_nonneg_def)
  moreover have "\<not> f_neg_bit x" if "is_infinite x"
    using that assms(1) f_nonneg_neg_bit [of x] by (auto simp: is_infinite_def INF_MAG_def)
  ultimately show ?thesis using assms(2,3)
    by (auto simp: f_to_int_def is_infinite_def)
qed

lemma unat_f_as_u32:
  "f_nonneg x \<Longrightarrow> unat (f_as_u32 x) = min 4294967295 (trunc_mag (mag x))"
  using f_to_int_nonneg [of x 4294967295] trunc_mag_INF
  by (simp add: f_as_u32_def unsigned_of_nat take_bit_nat_eq_self)

lemma unat_f_as_u16:
  "f_nonneg x \<Longrightarrow> unat (f_as_u16 x) = min 65535 (trunc_mag (mag x))"
  using f_to_int_nonneg [of x 65535] trunc_mag_INF
  by (simp add: f_as_u16_def unsigned_of_nat take_bit_nat_eq_self)

lemma f_of_u32_nonneg [simp]:
  shows "f_nonneg (f_of_u32 n)" and "units (mag (f_of_u32 n)) = unat n * 2 ^ 1074"
proof -
  show "f_nonneg (f_of_u32 n)" by (simp add: f_of_u32_def nonneg_mk)
  have "unat n < 2 ^ 32" using unsigned_less [of n, where ?'a = nat] by simp
  then have "bitlen (unat n) \<le> 32" by (simp only: bitlen_le_iff)
  then show "units (mag (f_of_u32 n)) = unat n * 2 ^ 1074"
    using units_round_dyadic [of "unat n" 1074] by (simp add: f_of_u32_def)
qed

lemma units_INF: "2 ^ 32 * 2 ^ 1074 \<le> units INF_MAG"
  by (simp add: units_def INF_MAG_def ex_def man_def)

lemma f_of_u32_finite [simp]: "is_finite (f_of_u32 n)"
proof -
  have "unat n < 2 ^ 32" using unsigned_less [of n, where ?'a = nat] by simp
  then have "unat n * 2 ^ 1074 < 2 ^ 32 * 2 ^ 1074" by (intro mult_less_mono1) simp_all
  then have "\<not> units INF_MAG \<le> units (mag (f_of_u32 n))"
    using units_INF unfolding f_of_u32_nonneg(2) by linarith
  then show ?thesis by (simp only: units_le_iff is_finite_def not_le)
qed

lemma nearest_int_f_of_u32 [simp]: "nearest_int (mag (f_of_u32 n)) = unat n"
  unfolding nearest_int_def f_of_u32_nonneg(2) by (rule half_up_1074)

end
