(* ===== verification/Profile.thy ===== *)
theory Profile
  imports Prelude
begin

text \<open>
  The version 1 control profile, \<^verbatim>\<open>wroid-core/src/lib.rs\<close>: the data, the validator with its
  error list, and the scaling of a profile to another resolution. Loading and saving (file
  I/O and the serde derive) is not modelled.
\<close>

section \<open>Data\<close>

record point =
  px :: u32
  py :: u32

record resolution =
  rwidth :: u32
  rheight :: u32

datatype binding_input =
    BKey string
  | BKeyCluster string string string string \<comment> \<open>up, left, down, right\<close>
  | BMouseButton string

datatype binding_action =
    BTap point
  | BSwipe point point u64
  | BVirtualJoystick point u32 u64 u64 \<comment> \<open>center, radius, \<open>tick_ms\<close>, \<open>swipe_duration_ms\<close>\<close>
  | BMouseAim point
  | BMacro "binding_action list"

record binding =
  bname :: string
  binput :: binding_input
  baction :: binding_action

record control_profile =
  cp_name :: string
  cp_package_name :: string
  cp_resolution :: resolution
  cp_bindings :: "binding list"

datatype validation_error =
    EmptyProfileName
  | EmptyPackageName
  | InvalidResolution u32 u32
  | EmptyBindingName
  | DuplicateBindingName string
  | EmptyInputValue string
  | PointOutOfBounds string point resolution
  | ZeroSwipeDuration string
  | ZeroJoystickRadius string
  | ZeroJoystickTick string
  | ZeroJoystickSwipeDuration string
  | UnsupportedAction string string

section \<open>Validation\<close>

definition validate_point :: "point \<Rightarrow> string \<Rightarrow> resolution \<Rightarrow> validation_error list" where
  "validate_point p b r =
     (if rwidth r \<le> px p \<or> rheight r \<le> py p then [PointOutOfBounds b p r] else [])"

fun validate_input :: "binding_input \<Rightarrow> string \<Rightarrow> validation_error list" where
  "validate_input (BKey key) b = (if trim key = [] then [EmptyInputValue b] else [])"
| "validate_input (BKeyCluster up left down right) b =
     (if list_ex (\<lambda>key. trim key = []) [up, left, down, right] then [EmptyInputValue b] else [])"
| "validate_input (BMouseButton button) b = (if trim button = [] then [EmptyInputValue b] else [])"

fun validate_action :: "binding_action \<Rightarrow> string \<Rightarrow> resolution \<Rightarrow> validation_error list" where
  "validate_action (BTap p) b r = validate_point p b r"
| "validate_action (BSwipe from to duration_ms) b r =
     validate_point from b r @ validate_point to b r
       @ (if duration_ms = 0 then [ZeroSwipeDuration b] else [])"
| "validate_action (BVirtualJoystick center radius tick_ms swipe_duration_ms) b r =
     validate_point center b r
       @ (if radius = 0 then [ZeroJoystickRadius b] else [])
       @ (if tick_ms = 0 then [ZeroJoystickTick b] else [])
       @ (if swipe_duration_ms = 0 then [ZeroJoystickSwipeDuration b] else [])"
| "validate_action (BMouseAim anchor) b r = [UnsupportedAction b ''mouse_aim'']"
| "validate_action (BMacro steps) b r = [UnsupportedAction b ''macro'']"

text \<open>The loop over the bindings: the names already seen are the \<open>HashSet\<close> of the source.\<close>

fun validate_bindings :: "binding list \<Rightarrow> string set \<Rightarrow> resolution \<Rightarrow> validation_error list" where
  "validate_bindings [] names r = []"
| "validate_bindings (b # bs) names r =
     (let name = trim (bname b);
          name_errors = (if name = [] then [EmptyBindingName]
                         else if name \<in> names then [DuplicateBindingName (bname b)] else []);
          names' = (if name = [] then names else insert name names)
      in name_errors @ validate_input (binput b) (bname b) @ validate_action (baction b) (bname b) r
           @ validate_bindings bs names' r)"

definition profile_errors :: "control_profile \<Rightarrow> validation_error list" where
  "profile_errors p =
     (if trim (cp_name p) = [] then [EmptyProfileName] else [])
     @ (if trim (cp_package_name p) = [] then [EmptyPackageName] else [])
     @ (if rwidth (cp_resolution p) = 0 \<or> rheight (cp_resolution p) = 0
        then [InvalidResolution (rwidth (cp_resolution p)) (rheight (cp_resolution p))] else [])
     @ validate_bindings (cp_bindings p) {} (cp_resolution p)"

definition validate_profile :: "control_profile \<Rightarrow> validation_error list + unit" where
  "validate_profile p = (let errors = profile_errors p in if errors = [] then Inr () else Inl errors)"

definition binding_named :: "control_profile \<Rightarrow> string \<Rightarrow> binding option" where
  "binding_named p name = find (\<lambda>b. bname b = name) (cp_bindings p)"

section \<open>Scaling\<close>

text \<open>The source computes in \<open>u128\<close>, where none of these products can overflow.\<close>

definition scale_axis :: "u32 \<Rightarrow> u32 \<Rightarrow> u32 \<Rightarrow> u32" where
  "scale_axis v from to =
     (if from = 0 \<or> to = 0 then 0
      else let scaled = (unat v * unat to + unat from div 2) div unat from;
               clamped = min scaled (unat to - 1)
           in of_nat clamped)"

definition scale_radius_average :: "u32 \<Rightarrow> resolution \<Rightarrow> resolution \<Rightarrow> u32" where
  "scale_radius_average radius from to =
     (if radius = 0 \<or> rwidth from = 0 \<or> rheight from = 0 \<or> rwidth to = 0 \<or> rheight to = 0 then 0
      else
        let numerator = unat radius
              * (unat (rwidth to) * unat (rheight from) + unat (rheight to) * unat (rwidth from));
            denominator = 2 * unat (rwidth from) * unat (rheight from);
            scaled = (numerator + denominator div 2) div denominator
        in of_nat (min (max scaled 1) 4294967295))"

definition scale_point :: "point \<Rightarrow> resolution \<Rightarrow> resolution \<Rightarrow> point" where
  "scale_point p from to =
     \<lparr>px = scale_axis (px p) (rwidth from) (rwidth to),
      py = scale_axis (py p) (rheight from) (rheight to)\<rparr>"

fun scale_action :: "binding_action \<Rightarrow> resolution \<Rightarrow> resolution \<Rightarrow> binding_action" where
  "scale_action (BTap p) from to = BTap (scale_point p from to)"
| "scale_action (BSwipe a b duration_ms) from to =
     BSwipe (scale_point a from to) (scale_point b from to) duration_ms"
| "scale_action (BVirtualJoystick center radius tick_ms swipe_duration_ms) from to =
     BVirtualJoystick (scale_point center from to) (scale_radius_average radius from to)
       tick_ms swipe_duration_ms"
| "scale_action (BMouseAim anchor) from to = BMouseAim anchor"
| "scale_action (BMacro steps) from to = BMacro steps"

definition scale_profile :: "control_profile \<Rightarrow> resolution \<Rightarrow> control_profile" where
  "scale_profile p r =
     p\<lparr>cp_resolution := r,
       cp_bindings := map (\<lambda>b. b\<lparr>baction := scale_action (baction b) (cp_resolution p) r\<rparr>)
                        (cp_bindings p)\<rparr>"

section \<open>Scaling one axis\<close>

lemma u32_unat_less: "unat (v :: u32) < 4294967296"
  using unsigned_less [of v, where ?'a = nat] by simp

lemma unat_scale_axis:
  "from \<noteq> 0 \<Longrightarrow> to \<noteq> 0 \<Longrightarrow>
   unat (scale_axis v from to) = min ((unat v * unat to + unat from div 2) div unat from) (unat to - 1)"
proof -
  assume nz: "from \<noteq> 0" "to \<noteq> 0"
  let ?n = "min ((unat v * unat to + unat from div 2) div unat from) (unat to - 1)"
  have "?n < 2 ^ LENGTH(32)" using u32_unat_less [of to] by simp
  then show ?thesis using nz
    by (simp add: scale_axis_def Let_def unsigned_of_nat take_bit_nat_eq_self)
qed

lemma unat_scale_axis_less: "0 < unat to \<Longrightarrow> unat (scale_axis v from to) < unat to"
proof (cases "from = 0")
  case False
  assume "0 < unat to"
  moreover from this have "to \<noteq> 0" by auto
  ultimately show ?thesis using False by (simp add: unat_scale_axis)
qed (simp add: scale_axis_def)

lemma scale_axis_less: "to \<noteq> 0 \<Longrightarrow> scale_axis v from to < to"
  using unat_scale_axis_less [of to v "from"] by (simp add: word_less_nat_alt unat_gt_0)

lemma scale_axis_mono: "v \<le> w \<Longrightarrow> scale_axis v from to \<le> scale_axis w from to"
proof (cases "from = 0 \<or> to = 0")
  case False
  assume "v \<le> w"
  then have "unat v * unat to + unat from div 2 \<le> unat w * unat to + unat from div 2"
    by (simp add: word_le_nat_alt)
  then have "(unat v * unat to + unat from div 2) div unat from
      \<le> (unat w * unat to + unat from div 2) div unat from" by (rule div_le_mono)
  then show ?thesis using False by (simp add: word_le_nat_alt unat_scale_axis)
qed (simp add: scale_axis_def)

lemma div_eq_nat: "0 < d \<Longrightarrow> q * d \<le> n \<Longrightarrow> n < (q + 1) * d \<Longrightarrow> n div d = (q :: nat)"
  by (rule div_nat_eqI) (simp_all add: mult.commute)

lemma scaled_no_clamp:
  assumes "0 < f" "f \<le> t" "v < (f :: nat)"
  shows "(v * t + f div 2) div f < t"
proof -
  have "v * t + f div 2 < t * f"
  proof -
    have "(v + 1) * t \<le> f * t" using assms by (intro mult_le_mono1) simp
    moreover have "f div 2 < t" using assms by linarith
    ultimately show ?thesis by (simp add: algebra_simps)
  qed
  then show ?thesis using assms(1) by (simp add: div_less_iff_less_mult)
qed

lemma scale_round_trip_nat:
  assumes "0 < f" "f \<le> t" "v < (f :: nat)"
  defines "s \<equiv> (v * t + f div 2) div f"
  shows "(s * f + t div 2) div t = v"
proof -
  have sf: "s * f \<le> v * t + f div 2" and fs: "v * t + f div 2 < s * f + f"
    using div_mult_mod_eq [of "v * t + f div 2" f] mod_less_divisor [OF assms(1), of "v * t + f div 2"]
    unfolding s_def by linarith+
  show ?thesis
  proof (cases "f = t")
    case True
    then have "s = v" unfolding s_def using assms(1) by (simp add: div_add1_eq)
    with True assms(1) show ?thesis by (simp add: div_add1_eq)
  next
    case False
    have "v * t \<le> s * f + t div 2" using fs assms(2) by linarith
    moreover have "s * f + t div 2 < (v + 1) * t" using sf False assms(2) by (simp add: algebra_simps)
    ultimately show ?thesis using assms by (intro div_eq_nat) simp_all
  qed
qed

text \<open>Scaling a coordinate of a surface up to a larger one and back gives the coordinate:
  no profile edited on a bigger screen loses a position when it returns.\<close>

theorem scale_axis_round_trip:
  assumes "v < from" and "from \<le> to"
  shows "scale_axis (scale_axis v from to) to from = v"
proof -
  have f: "0 < unat from" "unat from \<le> unat to" "unat v < unat from"
    using assms by (auto simp: word_less_nat_alt word_le_nat_alt)
  then have nz: "from \<noteq> 0" "to \<noteq> 0" by auto
  have "unat (scale_axis v from to) = (unat v * unat to + unat from div 2) div unat from"
    using scaled_no_clamp [OF f] by (simp add: unat_scale_axis [OF nz])
  moreover have "unat v \<le> unat from - 1" using f by simp
  ultimately have "unat (scale_axis (scale_axis v from to) to from) = unat v"
    using scale_round_trip_nat [OF f] by (simp add: unat_scale_axis [OF nz(2,1)])
  then show ?thesis by (simp add: unsigned_word_eqI)
qed

lemma scale_axis_round_trip_witness:
  "(333 :: u32) < 1280 \<and> (1280 :: u32) \<le> 1920 \<and> scale_axis 333 1280 1920 = 500
     \<and> scale_axis (scale_axis 333 1280 1920) 1920 1280 = 333"
  using scale_axis_round_trip [of 333 1280 1920] by (simp add: scale_axis_def)

section \<open>Validation and scaling of whole profiles\<close>

definition point_inside :: "resolution \<Rightarrow> point \<Rightarrow> bool" where
  "point_inside r p \<longleftrightarrow> px p < rwidth r \<and> py p < rheight r"

fun action_points :: "binding_action \<Rightarrow> point list" where
  "action_points (BTap p) = [p]"
| "action_points (BSwipe a b d) = [a, b]"
| "action_points (BVirtualJoystick c r t d) = [c]"
| "action_points _ = []"

fun action_executable :: "binding_action \<Rightarrow> bool" where
  "action_executable (BTap p) = True"
| "action_executable (BSwipe a b d) = (d \<noteq> 0)"
| "action_executable (BVirtualJoystick c r t d) = (r \<noteq> 0 \<and> t \<noteq> 0 \<and> d \<noteq> 0)"
| "action_executable _ = False"

fun input_keys :: "binding_input \<Rightarrow> string list" where
  "input_keys (BKey key) = [key]"
| "input_keys (BKeyCluster up left down right) = [up, left, down, right]"
| "input_keys (BMouseButton button) = [button]"

definition binding_ok :: "resolution \<Rightarrow> binding \<Rightarrow> bool" where
  "binding_ok r b \<longleftrightarrow>
     (\<forall>key \<in> set (input_keys (binput b)). trim key \<noteq> []) \<and> action_executable (baction b)
     \<and> (\<forall>p \<in> set (action_points (baction b)). point_inside r p)"

lemma validate_input_Nil: "validate_input i b = [] \<longleftrightarrow> (\<forall>key \<in> set (input_keys i). trim key \<noteq> [])"
  by (cases i) auto

lemma validate_point_Nil: "validate_point p b r = [] \<longleftrightarrow> point_inside r p"
  by (auto simp: validate_point_def point_inside_def)

lemma validate_action_Nil:
  "validate_action a b r = [] \<longleftrightarrow>
     action_executable a \<and> (\<forall>p \<in> set (action_points a). point_inside r p)"
  by (cases a) (auto simp: validate_point_Nil)

lemma validate_bindings_Nil:
  "validate_bindings bs names r = [] \<longleftrightarrow>
     distinct (map (\<lambda>b. trim (bname b)) bs) \<and> names \<inter> (\<lambda>b. trim (bname b)) ` set bs = {}
     \<and> (\<forall>b \<in> set bs. trim (bname b) \<noteq> [] \<and> binding_ok r b)"
proof (induction bs arbitrary: names)
  case Nil
  then show ?case by simp
next
  case (Cons b bs)
  then show ?case
    by (auto simp: Let_def validate_input_Nil validate_action_Nil binding_ok_def)
qed

lemma validate_profile_Inr: "validate_profile p = Inr () \<longleftrightarrow> profile_errors p = []"
  by (simp add: validate_profile_def Let_def)

text \<open>The validator accepts exactly the profiles with a name, a package, a non-zero
  resolution, distinct non-empty binding names (after trimming), non-blank inputs, executable
  actions (tap, swipe or joystick with non-zero parameters) and every point on the surface.\<close>

theorem validate_profile_iff:
  "validate_profile p = Inr () \<longleftrightarrow>
     trim (cp_name p) \<noteq> [] \<and> trim (cp_package_name p) \<noteq> []
     \<and> rwidth (cp_resolution p) \<noteq> 0 \<and> rheight (cp_resolution p) \<noteq> 0
     \<and> distinct (map (\<lambda>b. trim (bname b)) (cp_bindings p))
     \<and> list_all (\<lambda>b. trim (bname b) \<noteq> [] \<and> binding_ok (cp_resolution p) b) (cp_bindings p)"
  by (auto simp: validate_profile_Inr profile_errors_def validate_bindings_Nil list_all_iff)

lemma scale_radius_nonzero:
  assumes "radius \<noteq> 0" "rwidth from \<noteq> 0" "rheight from \<noteq> 0" "rwidth to \<noteq> 0" "rheight to \<noteq> 0"
  shows "scale_radius_average radius from to \<noteq> 0"
proof -
  define m where "m = min (max ((unat radius
              * (unat (rwidth to) * unat (rheight from) + unat (rheight to) * unat (rwidth from))
              + 2 * unat (rwidth from) * unat (rheight from) div 2)
              div (2 * unat (rwidth from) * unat (rheight from))) 1) 4294967295"
  have "m < 4294967296" and "m \<noteq> 0" by (auto simp: m_def)
  then have "unat (of_nat m :: u32) \<noteq> 0" by (simp add: unsigned_of_nat take_bit_nat_eq_self)
  then have "(of_nat m :: u32) \<noteq> 0" by auto
  then show ?thesis using assms by (simp add: scale_radius_average_def Let_def m_def)
qed

lemma scale_point_inside:
  "rwidth to \<noteq> 0 \<Longrightarrow> rheight to \<noteq> 0 \<Longrightarrow> point_inside to (scale_point p from to)"
  by (simp add: point_inside_def scale_point_def scale_axis_less)

lemma scale_action_ok:
  assumes "action_executable a" "rwidth from \<noteq> 0" "rheight from \<noteq> 0" "rwidth to \<noteq> 0" "rheight to \<noteq> 0"
  shows "action_executable (scale_action a from to)
    \<and> (\<forall>p \<in> set (action_points (scale_action a from to)). point_inside to p)"
  using assms by (cases a) (auto simp: scale_point_inside scale_radius_nonzero)

lemma scale_binding_ok:
  assumes "binding_ok from b" "rwidth from \<noteq> 0" "rheight from \<noteq> 0" "rwidth to \<noteq> 0" "rheight to \<noteq> 0"
  shows "binding_ok to (b\<lparr>baction := scale_action (baction b) from to\<rparr>)"
  using assms scale_action_ok [of "baction b" "from" to] by (simp add: binding_ok_def)

text \<open>Scaling a valid profile to any non-zero resolution gives a valid profile: no point
  leaves the surface, no joystick radius collapses to zero.\<close>

theorem scale_profile_valid:
  assumes "validate_profile p = Inr ()" and "rwidth r \<noteq> 0" and "rheight r \<noteq> 0"
  shows "validate_profile (scale_profile p r) = Inr ()"
proof -
  note ok = assms(1) [unfolded validate_profile_Inr profile_errors_def]
  have names: "map (\<lambda>b. trim (bname b)) (cp_bindings (scale_profile p r))
      = map (\<lambda>b. trim (bname b)) (cp_bindings p)"
    by (simp add: scale_profile_def)
  from ok names assms(2,3) show ?thesis
    unfolding validate_profile_Inr profile_errors_def
    by (auto simp: validate_bindings_Nil scale_profile_def scale_binding_ok o_def split: if_splits)
qed

definition example_profile :: control_profile where
  "example_profile =
     \<lparr>cp_name = ''Shooter Basic'', cp_package_name = ''com.example.shooter'',
      cp_resolution = \<lparr>rwidth = 1920, rheight = 1080\<rparr>,
      cp_bindings =
        [\<lparr>bname = ''fire'', binput = BKey ''f'', baction = BTap \<lparr>px = 1640, py = 540\<rparr>\<rparr>,
         \<lparr>bname = ''reload'', binput = BKey ''r'', baction = BTap \<lparr>px = 1760, py = 900\<rparr>\<rparr>,
         \<lparr>bname = ''look_right'', binput = BKey ''d'',
          baction = BSwipe \<lparr>px = 960, py = 540\<rparr> \<lparr>px = 1260, py = 540\<rparr> 180\<rparr>]\<rparr>"

lemma trim_example_names:
  "trim ''Shooter Basic'' = ''Shooter Basic''" "trim ''com.example.shooter'' = ''com.example.shooter''"
  "trim ''fire'' = ''fire''" "trim ''reload'' = ''reload''" "trim ''look_right'' = ''look_right''"
  "trim ''f'' = ''f''" "trim ''r'' = ''r''" "trim ''d'' = ''d''"
  by (simp_all add: trim_idI white_space_def)

lemma example_profile_valid: "validate_profile example_profile = Inr ()"
  by (simp add: validate_profile_Inr profile_errors_def example_profile_def Let_def
      trim_example_names validate_point_def)

lemma scale_profile_valid_witness:
  "validate_profile (scale_profile example_profile \<lparr>rwidth = 1280, rheight = 720\<rparr>) = Inr ()"
  by (rule scale_profile_valid) (simp_all add: example_profile_valid)

end
