(* ===== verification/ProfileV2.thy ===== *)
theory ProfileV2
  imports Profile F64
begin

text \<open>
  The version 2 control profile, \<^verbatim>\<open>wroid-core/src/profile_v2.rs\<close>: the data, the validator with its
  error texts, and the materialisation of normalised coordinates to pixels. Loading and saving
  (file I/O and serde) is not modelled; a hash set of the validator is a set.
\<close>

section \<open>Data\<close>

datatype orientation = Landscape | Portrait | AnyOrientation

datatype layer_activation = LHold string | LToggle string

record layer_v2 =
  l2_name :: string
  l2_activation :: layer_activation

datatype input_v2 =
    I2Key string
  | I2KeyCluster string string string string \<comment> \<open>up, left, down, right\<close>
  | I2MouseButton string
  | I2MouseMove

datatype joystick_mode = JHold | JToggle

record normalized_point =
  npx :: f64
  npy :: f64

record normalized_rect =
  nrx :: f64
  nry :: f64
  nrw :: f64
  nrh :: f64

datatype action_v2 =
    A2Tap normalized_point
  | A2Hold normalized_point
  | A2VirtualJoystick normalized_point f64 f64 joystick_mode "u64 option"
      \<comment> \<open>center, radius, \<open>dead_zone\<close>, mode, \<open>reaffirm_ms\<close>\<close>
  | A2MouseAim normalized_rect f64 "string option" f64 u64 "f64 option" "u64 option"
      \<comment> \<open>region, sensitivity, \<open>toggle_key\<close>, \<open>recenter_threshold\<close>, \<open>recenter_gap_ms\<close>, \<open>ads_multiplier\<close>,
        \<open>reaffirm_ms\<close>\<close>
  | A2Macro "action_v2 list"

record binding_v2 =
  b2_name :: string
  b2_layer :: "string option"
  b2_modifier :: "string option"
  b2_input :: input_v2
  b2_action :: action_v2

record profile_v2 =
  p2_schema_version :: u16
  p2_name :: string
  p2_package_name :: string
  p2_orientation :: orientation
  p2_layers :: "layer_v2 list"
  p2_bindings :: "binding_v2 list"

definition PROFILE_SCHEMA_VERSION :: u16 where "PROFILE_SCHEMA_VERSION = 2"
definition EPSILON :: f64 where "EPSILON = f_lit 1 1000000000"

section \<open>Materialisation\<close>

definition materialize_axis :: "f64 \<Rightarrow> u32 \<Rightarrow> u32" where
  "materialize_axis value limit =
     (if limit = 0 then 0
      else let maximum = limit - 1
           in min (f_as_u32 (f_round (f_mul (f_clamp value f_zero f_one) (f_of_u32 maximum)))) maximum)"

definition materialize :: "normalized_point \<Rightarrow> resolution \<Rightarrow> point" where
  "materialize p res =
     \<lparr>px = materialize_axis (npx p) (rwidth res), py = materialize_axis (npy p) (rheight res)\<rparr>"

definition materialize_radius :: "f64 \<Rightarrow> resolution \<Rightarrow> u32" where
  "materialize_radius value res =
     (let base = f_of_u32 (min (rwidth res) (rheight res))
      in f_as_u32 (f_max (f_round (f_mul (f_clamp value f_zero f_one) base)) f_one))"

definition materialize_dead_zone :: "f64 \<Rightarrow> u32 \<Rightarrow> resolution \<Rightarrow> u32" where
  "materialize_dead_zone value radius res =
     (if f_le value f_zero \<or> radius \<le> 1 then 0
      else let base = f_of_u32 (min (rwidth res) (rheight res));
               dead_zone = f_as_u32 (f_round (f_mul (f_clamp value f_zero f_one) base))
           in min dead_zone (radius - 1))"

section \<open>Validation\<close>

definition layer_activation_key :: "layer_activation \<Rightarrow> string" where
  "layer_activation_key a = (case a of LHold key \<Rightarrow> key | LToggle key \<Rightarrow> key)"

definition canonical_key :: "string \<Rightarrow> string" where
  "canonical_key value = to_ascii_lowercase (trim value)"

definition binding_input_keys :: "input_v2 \<Rightarrow> string list" where
  "binding_input_keys inp =
     (case inp of I2Key key \<Rightarrow> [key] | I2KeyCluster up left down right \<Rightarrow> [up, left, down, right] | _ \<Rightarrow> [])"

definition binding_scope_input_keys :: "input_v2 \<Rightarrow> (string \<times> string) list" where
  "binding_scope_input_keys inp =
     (case inp of
        I2Key key \<Rightarrow> [(key, ''key'')]
      | I2KeyCluster up left down right \<Rightarrow>
          [(up, ''key''), (left, ''key''), (down, ''key''), (right, ''key'')]
      | I2MouseButton button \<Rightarrow> [(button, ''mouse_button'')]
      | I2MouseMove \<Rightarrow> [])"

definition known_key_names :: "string list" where
  "known_key_names =
     [''0'', ''1'', ''2'', ''3'', ''4'', ''5'', ''6'', ''7'', ''8'', ''9'', ''a'', ''b'', ''c'', ''d'', ''e'',
      ''f'', ''g'', ''h'', ''i'', ''j'', ''k'', ''l'', ''m'', ''n'', ''o'', ''p'', ''q'', ''r'', ''s'', ''t'',
      ''u'', ''v'', ''w'', ''x'', ''y'', ''z'', ''space'', ''tab'', ''shift'', ''ctrl'', ''alt'', ''up'',
      ''left'', ''down'', ''right'', ''esc'']"

definition known_key_name :: "string \<Rightarrow> bool" where
  "known_key_name value \<longleftrightarrow> to_ascii_lowercase (trim value) \<in> set known_key_names"

definition mouse_button_names :: "string list" where
  "mouse_button_names = [''left'', ''right'', ''middle'', ''side'', ''extra'']"

definition normalized :: "f64 \<Rightarrow> bool" where
  "normalized value \<longleftrightarrow>
     is_finite value \<and> f_le (f_neg EPSILON) value \<and> f_le value (f_add f_one EPSILON)"

definition validate_normalized_point :: "normalized_point \<Rightarrow> string \<Rightarrow> string list" where
  "validate_normalized_point p label =
     (if \<not> normalized (npx p) \<or> \<not> normalized (npy p)
      then [label @ '' must use normalized x/y coordinates within 0.0..=1.0''] else [])"

definition validate_rect :: "normalized_rect \<Rightarrow> string \<Rightarrow> string list" where
  "validate_rect r label =
     (if \<not> normalized (nrx r) \<or> \<not> normalized (nry r) \<or> \<not> is_finite (nrw r) \<or> \<not> is_finite (nrh r)
         \<or> f_le (nrw r) f_zero \<or> f_le (nrh r) f_zero
         \<or> f_lt (f_add f_one EPSILON) (f_add (nrx r) (nrw r))
         \<or> f_lt (f_add f_one EPSILON) (f_add (nry r) (nrh r))
      then [label @ '' must stay inside the normalized viewport with positive w/h''] else [])"

definition validate_input_v2 :: "input_v2 \<Rightarrow> string \<Rightarrow> string list" where
  "validate_input_v2 inp binding =
     (case inp of
        I2Key key \<Rightarrow>
          if trim key = [] then [''binding '' @ binding @ '' has an empty key input'']
          else if \<not> known_key_name key
            then [''binding '' @ binding @ '' uses unsupported key input: '' @ key] else []
      | I2KeyCluster up left down right \<Rightarrow>
          if list_ex (\<lambda>v. trim v = []) [up, left, down, right]
            then [''binding '' @ binding @ '' has an empty key_cluster input'']
          else if list_ex (\<lambda>v. \<not> known_key_name v) [up, left, down, right]
            then [''binding '' @ binding @ '' key_cluster contains an unsupported key''] else []
      | I2MouseButton button \<Rightarrow>
          if trim button = [] then [''binding '' @ binding @ '' has an empty mouse button'']
          else if to_ascii_lowercase (trim button) \<notin> set mouse_button_names
            then [''binding '' @ binding @ '' uses unsupported mouse button: '' @ button] else []
      | I2MouseMove \<Rightarrow> [])"

text \<open>\<open>(0.1..=1.0).contains(x)\<close>\<close>

definition tenth_to_one :: "f64 \<Rightarrow> bool" where
  "tenth_to_one x \<longleftrightarrow> f_le (f_lit 1 10) x \<and> f_le x f_one"

definition joystick_errors ::
  "normalized_point \<Rightarrow> f64 \<Rightarrow> f64 \<Rightarrow> u64 option \<Rightarrow> string \<Rightarrow> string list" where
  "joystick_errors center radius dead_zone reaffirm_ms binding =
     validate_normalized_point center (''binding '' @ binding @ '' virtual_joystick center'')
     @ (if \<not> is_finite radius \<or> f_le radius f_zero \<or> f_lt f_one radius
        then [''binding '' @ binding @ '' virtual_joystick radius must be finite and within 0.0..=1.0''] else [])
     @ (if \<not> is_finite dead_zone \<or> f_lt dead_zone f_zero \<or> f_le f_one dead_zone
        then [''binding '' @ binding @ '' virtual_joystick dead_zone must be finite and within 0.0..1.0'']
        else if is_finite radius \<and> f_le radius dead_zone
        then [''binding '' @ binding @ '' virtual_joystick dead_zone must be smaller than radius''] else [])
     @ (if reaffirm_ms = Some 0
        then [''binding '' @ binding @ '' virtual_joystick reaffirm_ms must be greater than zero''] else [])"

definition mouse_aim_errors ::
  "normalized_rect \<Rightarrow> f64 \<Rightarrow> string option \<Rightarrow> f64 \<Rightarrow> f64 option \<Rightarrow> u64 option \<Rightarrow> string \<Rightarrow> string list" where
  "mouse_aim_errors region sensitivity toggle_key recenter_threshold ads_multiplier reaffirm_ms binding =
     validate_rect region (''binding '' @ binding @ '' mouse_aim region'')
     @ (if \<not> is_finite sensitivity \<or> f_le sensitivity f_zero
        then [''binding '' @ binding @ '' mouse_aim sensitivity must be finite and greater than zero''] else [])
     @ (if (case toggle_key of Some key \<Rightarrow> \<not> known_key_name key | None \<Rightarrow> False)
        then [''binding '' @ binding @ '' mouse_aim toggle_key must be a supported key name''] else [])
     @ (if \<not> is_finite recenter_threshold \<or> \<not> tenth_to_one recenter_threshold
        then [''binding '' @ binding @ '' mouse_aim recenter_threshold must be finite and within 0.1..=1.0'']
        else [])
     @ (if (case ads_multiplier of Some v \<Rightarrow> \<not> is_finite v \<or> \<not> tenth_to_one v | None \<Rightarrow> False)
        then [''binding '' @ binding @ '' mouse_aim ads_multiplier must be finite and within 0.1..=1.0''] else [])
     @ (if reaffirm_ms = Some 0
        then [''binding '' @ binding @ '' mouse_aim reaffirm_ms must be greater than zero''] else [])"

fun validate_action_v2 :: "action_v2 \<Rightarrow> string \<Rightarrow> string list"
  and validate_steps :: "action_v2 list \<Rightarrow> nat \<Rightarrow> string \<Rightarrow> string list" where
  "validate_action_v2 (A2Tap p) binding =
     validate_normalized_point p (''binding '' @ binding @ '' tap point'')"
| "validate_action_v2 (A2Hold p) binding =
     validate_normalized_point p (''binding '' @ binding @ '' hold point'')"
| "validate_action_v2 (A2VirtualJoystick center radius dead_zone mode reaffirm_ms) binding =
     joystick_errors center radius dead_zone reaffirm_ms binding"
| "validate_action_v2 (A2MouseAim region sens toggle thr gap ads reaffirm_ms) binding =
     mouse_aim_errors region sens toggle thr ads reaffirm_ms binding"
| "validate_action_v2 (A2Macro steps) binding =
     (if steps = [] then [''binding '' @ binding @ '' macro must contain at least one step''] else [])
     @ validate_steps steps 0 binding"
| "validate_steps [] index binding = []"
| "validate_steps (step # steps) index binding =
     validate_action_v2 step (binding @ ''.step['' @ show_nat index @ '']'')
     @ validate_steps steps (Suc index) binding"

definition input_kind :: "input_v2 \<Rightarrow> string" where
  "input_kind inp =
     (case inp of I2Key _ \<Rightarrow> ''key'' | I2KeyCluster _ _ _ _ \<Rightarrow> ''key_cluster''
      | I2MouseButton _ \<Rightarrow> ''mouse_button'' | I2MouseMove \<Rightarrow> ''mouse_move'')"

definition action_kind :: "action_v2 \<Rightarrow> string" where
  "action_kind a =
     (case a of A2Tap _ \<Rightarrow> ''tap'' | A2Hold _ \<Rightarrow> ''hold'' | A2VirtualJoystick _ _ _ _ _ \<Rightarrow> ''virtual_joystick''
      | A2MouseAim _ _ _ _ _ _ _ \<Rightarrow> ''mouse_aim'' | A2Macro _ \<Rightarrow> ''macro'')"

definition required_input :: "input_v2 \<Rightarrow> action_v2 \<Rightarrow> string option" where
  "required_input inp a =
     (let keyed = (case inp of I2Key _ \<Rightarrow> True | I2MouseButton _ \<Rightarrow> True | _ \<Rightarrow> False)
      in case a of
           A2Tap _ \<Rightarrow> if keyed then None else Some ''key or mouse_button''
         | A2Hold _ \<Rightarrow> if keyed then None else Some ''key or mouse_button''
         | A2VirtualJoystick _ _ _ _ _ \<Rightarrow>
             (case inp of I2KeyCluster _ _ _ _ \<Rightarrow> None | _ \<Rightarrow> Some ''key_cluster'')
         | A2MouseAim _ _ _ _ _ _ _ \<Rightarrow> (case inp of I2MouseMove \<Rightarrow> None | _ \<Rightarrow> Some ''mouse_move'')
         | A2Macro _ \<Rightarrow> None)"

definition validate_binding_compatibility :: "input_v2 \<Rightarrow> action_v2 \<Rightarrow> string \<Rightarrow> string list" where
  "validate_binding_compatibility inp a binding =
     (case required_input inp a of
        None \<Rightarrow> []
      | Some required \<Rightarrow>
          [''binding '' @ binding @ '' pairs '' @ input_kind inp @ '' input with '' @ action_kind a
           @ '' action; '' @ action_kind a @ '' requires '' @ required])"

definition validate_modifier_input_keys :: "binding_v2 \<Rightarrow> string \<Rightarrow> string list" where
  "validate_modifier_input_keys b modifier =
     (let m = canonical_key modifier
      in case b2_input b of
           I2Key key \<Rightarrow>
             if canonical_key key = m
             then [''binding '' @ b2_name b @ '' modifier must differ from input key: '' @ key] else []
         | I2KeyCluster up left down right \<Rightarrow>
             concat (map (\<lambda>key. if canonical_key key = m
               then [''binding '' @ b2_name b @ '' modifier must differ from key_cluster key: '' @ key] else [])
               [up, left, down, right])
         | _ \<Rightarrow> [])"

text \<open>The passes of \<open>ProfileV2::validate\<close> in order; each returns the errors it pushes.\<close>

definition header_errors :: "profile_v2 \<Rightarrow> string list" where
  "header_errors p =
     (if p2_schema_version p \<noteq> PROFILE_SCHEMA_VERSION
      then [''schema_version must be 2, got '' @ show_nat (unat (p2_schema_version p))] else [])
     @ (if trim (p2_name p) = [] then [''name must not be empty''] else [])
     @ (if trim (p2_package_name p) = [] then [''package_name must not be empty''] else [])"

fun layer_name_errors :: "string set \<Rightarrow> layer_v2 list \<Rightarrow> string list" where
  "layer_name_errors names [] = []"
| "layer_name_errors names (l # ls) =
     (let name = trim (l2_name l)
      in (if name = [] then [''layer name must not be empty'']
          else if name \<in> names then [''duplicate layer name: '' @ l2_name l] else [])
         @ (if eq_ignore_ascii_case name ''base'' then [''layer name base is reserved''] else [])
         @ layer_name_errors (if name = [] then names else insert name names) ls)"

fun activation_errors :: "string set \<Rightarrow> layer_v2 list \<Rightarrow> string list" where
  "activation_errors keys [] = []"
| "activation_errors keys (l # ls) =
     (let key = layer_activation_key (l2_activation l); canonical = canonical_key key
      in (if \<not> known_key_name key
          then [''layer '' @ l2_name l @ '' uses unsupported activation key: '' @ key] else [])
         @ (if canonical \<in> keys then [''duplicate layer activation key: '' @ key] else [])
         @ activation_errors (insert canonical keys) ls)"

definition activation_key_of :: "layer_v2 \<Rightarrow> string" where
  "activation_key_of l = canonical_key (layer_activation_key (l2_activation l))"

definition base_binding_errors :: "string set \<Rightarrow> binding_v2 \<Rightarrow> string list" where
  "base_binding_errors activation_keys b =
     (if b2_layer b = None \<and> b2_modifier b = None
      then concat (map (\<lambda>key. if canonical_key key \<in> activation_keys
             then [''layer activation key '' @ key @ '' cannot be used by a base-layer binding''] else [])
           (binding_input_keys (b2_input b)))
      else [])"

definition modifier_errors :: "binding_v2 \<Rightarrow> string \<Rightarrow> string list" where
  "modifier_errors b modifier =
     (if \<not> known_key_name modifier
      then [''binding '' @ b2_name b @ '' uses unsupported modifier: '' @ modifier] else [])
     @ validate_modifier_input_keys b modifier
     @ (if b2_input b = I2MouseMove
        then [''binding '' @ b2_name b @ '' cannot use a modifier with mouse_move input''] else [])
     @ (if canonical_key modifier = ''ctrl''
        then concat (map (\<lambda>key. let key = canonical_key key
               in if key = ''esc'' \<or> key = ''c''
                  then [''binding '' @ b2_name b @ '' uses ctrl+'' @ key
                        @ '', which is reserved for the session exit hotkey''] else [])
             (binding_input_keys (b2_input b)))
        else [])"

type_synonym scoped_key = "string \<times> string option \<times> string \<times> string"

definition scope_text :: "string option \<Rightarrow> string" where
  "scope_text m = (case m of Some k \<Rightarrow> ''with modifier '' @ k | None \<Rightarrow> ''without a modifier'')"

text \<open>The keys of one binding: its own repetitions are skipped, a key another binding of the same
  scope has taken is an error, and so is an activation key of the binding's own layer.\<close>

fun scope_errors ::
  "binding_v2 \<Rightarrow> (string \<times> string) set \<Rightarrow> (string \<times> string) set \<Rightarrow> scoped_key set
     \<Rightarrow> (string \<times> string) list \<Rightarrow> string list \<times> scoped_key set" where
  "scope_errors b layer_keys own scoped [] = ([], scoped)"
| "scope_errors b layer_keys own scoped ((key, kind) # rest) =
     (let layer = (case b2_layer b of Some l \<Rightarrow> l | None \<Rightarrow> ''base'');
          modifier = map_option canonical_key (b2_modifier b);
          canonical = canonical_key key
      in if (kind, canonical) \<in> own then scope_errors b layer_keys own scoped rest
         else
           let entry = (layer, modifier, kind, canonical);
               taken = (if entry \<in> scoped
                 then [kind @ '' '' @ key @ '' drives multiple bindings in '' @ layer @ '' layer ''
                       @ scope_text modifier] else []);
               activation = (if kind = ''key'' \<and> b2_layer b \<noteq> None \<and> (layer, canonical) \<in> layer_keys
                 then [''layer activation key '' @ key @ '' cannot be used by binding '' @ b2_name b
                       @ '' inside layer '' @ layer] else []);
               (errors, scoped') =
                 scope_errors b layer_keys (insert (kind, canonical) own) (insert entry scoped) rest
           in (taken @ activation @ errors, scoped'))"

definition binding_own_errors :: "string set \<Rightarrow> binding_v2 \<Rightarrow> string list" where
  "binding_own_errors declared b =
     validate_input_v2 (b2_input b) (b2_name b)
     @ validate_action_v2 (b2_action b) (b2_name b)
     @ validate_binding_compatibility (b2_input b) (b2_action b) (b2_name b)
     @ (case b2_layer b of
          Some layer \<Rightarrow>
            if layer \<notin> declared then [''binding '' @ b2_name b @ '' references unknown layer: '' @ layer] else []
        | None \<Rightarrow> [])
     @ (case b2_modifier b of Some modifier \<Rightarrow> modifier_errors b modifier | None \<Rightarrow> [])"

fun binding_errors ::
  "string set \<Rightarrow> (string \<times> string) set \<Rightarrow> string set \<Rightarrow> scoped_key set \<Rightarrow> binding_v2 list \<Rightarrow> string list" where
  "binding_errors declared layer_keys names scoped [] = []"
| "binding_errors declared layer_keys names scoped (b # bs) =
     (let name = trim (b2_name b);
          (errors, scoped') = scope_errors b layer_keys {} scoped (binding_scope_input_keys (b2_input b))
      in (if name = [] then [''binding name must not be empty'']
          else if name \<in> names then [''duplicate binding name: '' @ b2_name b] else [])
         @ binding_own_errors declared b @ errors
         @ binding_errors declared layer_keys (if name = [] then names else insert name names) scoped' bs)"

definition profile_v2_errors :: "profile_v2 \<Rightarrow> string list" where
  "profile_v2_errors p =
     header_errors p
     @ layer_name_errors {} (p2_layers p)
     @ (if 64 < length (p2_layers p) then [''profile may declare at most 64 layers''] else [])
     @ activation_errors {} (p2_layers p)
     @ concat (map (base_binding_errors (set (map activation_key_of (p2_layers p)))) (p2_bindings p))
     @ binding_errors (set (map l2_name (p2_layers p)))
         (set (map (\<lambda>l. (l2_name l, activation_key_of l)) (p2_layers p))) {} {} (p2_bindings p)"

definition validate_profile_v2 :: "profile_v2 \<Rightarrow> string list + unit" where
  "validate_profile_v2 p =
     (let errors = profile_v2_errors p in if errors = [] then Inr () else Inl errors)"

section \<open>What a valid profile is\<close>

text \<open>The inputs a binding claims: the layer and modifier under which it claims them, the device and
  the canonical name.\<close>

definition claims :: "binding_v2 \<Rightarrow> scoped_key set" where
  "claims b =
     (\<lambda>(key, kind). (case b2_layer b of Some l \<Rightarrow> l | None \<Rightarrow> ''base'',
         map_option canonical_key (b2_modifier b), kind, canonical_key key))
     ` set (binding_scope_input_keys (b2_input b))"

definition layer_ok :: "layer_v2 \<Rightarrow> bool" where
  "layer_ok l \<longleftrightarrow> trim (l2_name l) \<noteq> [] \<and> \<not> eq_ignore_ascii_case (trim (l2_name l)) ''base''
     \<and> known_key_name (layer_activation_key (l2_activation l))"

definition uses_own_activation :: "layer_v2 list \<Rightarrow> binding_v2 \<Rightarrow> bool" where
  "uses_own_activation layers b \<longleftrightarrow>
     (\<exists>l \<in> set layers. (b2_layer b = Some (l2_name l) \<or> b2_layer b = None \<and> b2_modifier b = None)
        \<and> activation_key_of l \<in> set (map canonical_key (binding_input_keys (b2_input b))))"

definition profile_v2_ok :: "profile_v2 \<Rightarrow> bool" where
  "profile_v2_ok p \<longleftrightarrow>
     p2_schema_version p = PROFILE_SCHEMA_VERSION \<and> trim (p2_name p) \<noteq> [] \<and> trim (p2_package_name p) \<noteq> []
     \<and> length (p2_layers p) \<le> 64
     \<and> (\<forall>l \<in> set (p2_layers p). layer_ok l)
     \<and> distinct (map (\<lambda>l. trim (l2_name l)) (p2_layers p))
     \<and> distinct (map activation_key_of (p2_layers p))
     \<and> (\<forall>b \<in> set (p2_bindings p). trim (b2_name b) \<noteq> []
          \<and> binding_own_errors (set (map l2_name (p2_layers p))) b = []
          \<and> \<not> uses_own_activation (p2_layers p) b)
     \<and> distinct (map (\<lambda>b. trim (b2_name b)) (p2_bindings p))
     \<and> sorted_wrt (\<lambda>a b. claims a \<inter> claims b = {}) (p2_bindings p)"

lemma layer_name_errors_Nil:
  "layer_name_errors names ls = [] \<longleftrightarrow>
     (\<forall>l \<in> set ls. trim (l2_name l) \<noteq> [] \<and> \<not> eq_ignore_ascii_case (trim (l2_name l)) ''base''
        \<and> trim (l2_name l) \<notin> names)
     \<and> distinct (map (\<lambda>l. trim (l2_name l)) ls)"
  by (induction ls arbitrary: names) (auto simp: Let_def image_iff)

lemma activation_errors_Nil:
  "activation_errors keys ls = [] \<longleftrightarrow>
     (\<forall>l \<in> set ls. known_key_name (layer_activation_key (l2_activation l)) \<and> activation_key_of l \<notin> keys)
     \<and> distinct (map activation_key_of ls)"
  by (induction ls arbitrary: keys) (auto simp: Let_def activation_key_of_def image_iff)

definition claim_of :: "binding_v2 \<Rightarrow> string \<times> string \<Rightarrow> scoped_key" where
  "claim_of b = (\<lambda>(key, kind). (case b2_layer b of Some l \<Rightarrow> l | None \<Rightarrow> ''base'',
     map_option canonical_key (b2_modifier b), kind, canonical_key key))"

definition own_activation :: "binding_v2 \<Rightarrow> (string \<times> string) set \<Rightarrow> string \<times> string \<Rightarrow> bool" where
  "own_activation b layer_keys = (\<lambda>(key, kind). kind = ''key''
     \<and> (case b2_layer b of Some l \<Rightarrow> (l, canonical_key key) \<in> layer_keys | None \<Rightarrow> False))"

lemma scope_errors_spec:
  "fst (scope_errors b layer_keys own scoped ks) = [] \<longleftrightarrow>
     (\<forall>k \<in> set ks. (snd k, canonical_key (fst k)) \<notin> own \<longrightarrow>
        claim_of b k \<notin> scoped \<and> \<not> own_activation b layer_keys k)"
  "snd (scope_errors b layer_keys own scoped ks) =
     scoped \<union> claim_of b ` {k \<in> set ks. (snd k, canonical_key (fst k)) \<notin> own}"
proof (induction b layer_keys own scoped ks rule: scope_errors.induct)
  case (2 b layer_keys own scoped key kind rest)
  let ?c = "(kind, canonical_key key)" and ?e = "claim_of b (key, kind)"
  have same: "claim_of b k = ?e \<longleftrightarrow> (snd k, canonical_key (fst k)) = ?c" for k
    by (cases k) (auto simp: claim_of_def)
  have act: "own_activation b layer_keys k = own_activation b layer_keys (key, kind)"
    if "(snd k, canonical_key (fst k)) = ?c" for k
    using that by (cases k) (auto simp: own_activation_def split: option.splits)
  show "fst (scope_errors b layer_keys own scoped ((key, kind) # rest)) = [] \<longleftrightarrow>
     (\<forall>k \<in> set ((key, kind) # rest). (snd k, canonical_key (fst k)) \<notin> own \<longrightarrow>
        claim_of b k \<notin> scoped \<and> \<not> own_activation b layer_keys k)"
  proof (cases "?c \<in> own")
    case True
    with 2(1) show ?thesis by (simp add: Let_def)
  next
    case False
    have "fst (scope_errors b layer_keys own scoped ((key, kind) # rest)) = [] \<longleftrightarrow>
       ?e \<notin> scoped \<and> \<not> own_activation b layer_keys (key, kind)
       \<and> fst (scope_errors b layer_keys (insert ?c own) (insert ?e scoped) rest) = []"
      using False
      by (auto simp: Let_def claim_of_def own_activation_def split: prod.splits option.splits)
    also have "fst (scope_errors b layer_keys (insert ?c own) (insert ?e scoped) rest) = [] \<longleftrightarrow>
       (\<forall>k \<in> set rest. (snd k, canonical_key (fst k)) \<notin> insert ?c own \<longrightarrow>
        claim_of b k \<notin> insert ?e scoped \<and> \<not> own_activation b layer_keys k)"
      using 2(3) [OF refl refl refl False refl] by (simp add: claim_of_def)
    finally have eq: "fst (scope_errors b layer_keys own scoped ((key, kind) # rest)) = [] \<longleftrightarrow>
       (?e \<notin> scoped \<and> \<not> own_activation b layer_keys (key, kind))
       \<and> (\<forall>k \<in> set rest. (snd k, canonical_key (fst k)) \<notin> insert ?c own \<longrightarrow>
        claim_of b k \<notin> insert ?e scoped \<and> \<not> own_activation b layer_keys k)" by (simp only: conj_assoc)
    have each: "((snd k, canonical_key (fst k)) \<notin> insert ?c own \<longrightarrow>
        claim_of b k \<notin> insert ?e scoped \<and> \<not> own_activation b layer_keys k)
      \<longleftrightarrow> ((snd k, canonical_key (fst k)) \<notin> own \<longrightarrow>
        claim_of b k \<notin> scoped \<and> \<not> own_activation b layer_keys k)"
      if "?e \<notin> scoped \<and> \<not> own_activation b layer_keys (key, kind)" for k
    proof (cases "(snd k, canonical_key (fst k)) = ?c")
      case True
      then have "claim_of b k = ?e" "own_activation b layer_keys k = own_activation b layer_keys (key, kind)"
        using same act by blast+
      with True that show ?thesis by simp
    next
      case False
      then have "claim_of b k \<noteq> ?e" using same by blast
      with False show ?thesis by simp
    qed
    show ?thesis
      unfolding eq list.set ball_simps(7) fst_conv snd_conv using False each by blast
  qed
  show "snd (scope_errors b layer_keys own scoped ((key, kind) # rest)) =
     scoped \<union> claim_of b ` {k \<in> set ((key, kind) # rest). (snd k, canonical_key (fst k)) \<notin> own}"
  proof (cases "?c \<in> own")
    case True
    with 2(2) show ?thesis by (auto simp: Let_def)
  next
    case False
    have "snd (scope_errors b layer_keys own scoped ((key, kind) # rest))
        = snd (scope_errors b layer_keys (insert ?c own) (insert ?e scoped) rest)"
      using False by (auto simp: Let_def claim_of_def split: prod.splits)
    also have "\<dots> = insert ?e scoped
        \<union> claim_of b ` {k \<in> set rest. (snd k, canonical_key (fst k)) \<notin> insert ?c own}"
      using 2(4) [OF refl refl refl False refl] by (simp add: claim_of_def)
    also have "\<dots> = scoped \<union> claim_of b ` {k \<in> set ((key, kind) # rest). (snd k, canonical_key (fst k)) \<notin> own}"
      using False same by (auto simp: image_iff)
    finally show ?thesis .
  qed
qed simp_all

lemma claims_claim_of: "claims b = claim_of b ` set (binding_scope_input_keys (b2_input b))"
  by (simp add: claims_def claim_of_def)

lemma scope_errors_start:
  "fst (scope_errors b layer_keys {} scoped (binding_scope_input_keys (b2_input b))) = [] \<longleftrightarrow>
     claims b \<inter> scoped = {} \<and> (\<forall>k \<in> set (binding_scope_input_keys (b2_input b)). \<not> own_activation b layer_keys k)"
  "snd (scope_errors b layer_keys {} scoped (binding_scope_input_keys (b2_input b))) = scoped \<union> claims b"
  by (auto simp: scope_errors_spec claims_claim_of)

lemma binding_errors_Nil:
  "binding_errors declared layer_keys names scoped bs = [] \<longleftrightarrow>
     (\<forall>b \<in> set bs. trim (b2_name b) \<noteq> [] \<and> trim (b2_name b) \<notin> names
        \<and> binding_own_errors declared b = [] \<and> claims b \<inter> scoped = {}
        \<and> (\<forall>k \<in> set (binding_scope_input_keys (b2_input b)). \<not> own_activation b layer_keys k))
     \<and> distinct (map (\<lambda>b. trim (b2_name b)) bs)
     \<and> sorted_wrt (\<lambda>a b. claims a \<inter> claims b = {}) bs"
proof (induction bs arbitrary: names scoped)
  case (Cons b bs)
  let ?r = "scope_errors b layer_keys {} scoped (binding_scope_input_keys (b2_input b))"
  have "binding_errors declared layer_keys names scoped (b # bs) = [] \<longleftrightarrow>
     trim (b2_name b) \<noteq> [] \<and> trim (b2_name b) \<notin> names \<and> binding_own_errors declared b = []
     \<and> fst ?r = []
     \<and> binding_errors declared layer_keys (insert (trim (b2_name b)) names) (snd ?r) bs = []"
    by (auto simp: Let_def split: prod.split)
  also have "\<dots> \<longleftrightarrow> trim (b2_name b) \<noteq> [] \<and> trim (b2_name b) \<notin> names \<and> binding_own_errors declared b = []
     \<and> claims b \<inter> scoped = {} \<and> (\<forall>k \<in> set (binding_scope_input_keys (b2_input b)). \<not> own_activation b layer_keys k)
     \<and> binding_errors declared layer_keys (insert (trim (b2_name b)) names) (scoped \<union> claims b) bs = []"
    by (simp only: scope_errors_start conj_assoc)
  finally show ?case unfolding Cons.IH by (auto simp: image_iff)
qed simp

lemma scope_keys: 
  "(key, ''key'') \<in> set (binding_scope_input_keys inp) \<longleftrightarrow> key \<in> set (binding_input_keys inp)"
  by (auto simp: binding_scope_input_keys_def binding_input_keys_def split: input_v2.splits)

lemma no_activation_iff:
  "(\<forall>k \<in> set (binding_scope_input_keys (b2_input b)).
       \<not> own_activation b (set (map (\<lambda>l. (l2_name l, activation_key_of l)) layers)) k)
     \<and> base_binding_errors (set (map activation_key_of layers)) b = []
   \<longleftrightarrow> \<not> uses_own_activation layers b"
proof -
  let ?keys = "set (map canonical_key (binding_input_keys (b2_input b)))"
  let ?lk = "set (map (\<lambda>l. (l2_name l, activation_key_of l)) layers)"
  have lk: "(n, c) \<in> ?lk \<longleftrightarrow> (\<exists>l \<in> set layers. l2_name l = n \<and> activation_key_of l = c)" for n c
    by auto
  have "(\<exists>k \<in> set (binding_scope_input_keys (b2_input b)). own_activation b ?lk k)
     \<longleftrightarrow> (\<exists>key \<in> set (binding_input_keys (b2_input b)).
           case b2_layer b of Some n \<Rightarrow> (n, canonical_key key) \<in> ?lk | None \<Rightarrow> False)"
    unfolding own_activation_def Bex_def scope_keys [symmetric] by auto
  also have "\<dots> \<longleftrightarrow> (\<exists>l \<in> set layers. b2_layer b = Some (l2_name l) \<and> activation_key_of l \<in> ?keys)"
    unfolding lk by (cases "b2_layer b") auto
  finally have own: "(\<exists>k \<in> set (binding_scope_input_keys (b2_input b)). own_activation b ?lk k)
     \<longleftrightarrow> (\<exists>l \<in> set layers. b2_layer b = Some (l2_name l) \<and> activation_key_of l \<in> ?keys)" .
  have "base_binding_errors (set (map activation_key_of layers)) b \<noteq> []
     \<longleftrightarrow> b2_layer b = None \<and> b2_modifier b = None
        \<and> (\<exists>key \<in> set (binding_input_keys (b2_input b)). canonical_key key \<in> set (map activation_key_of layers))"
    by (auto simp: base_binding_errors_def)
  also have "\<dots> \<longleftrightarrow> b2_layer b = None \<and> b2_modifier b = None \<and> (\<exists>l \<in> set layers. activation_key_of l \<in> ?keys)"
    unfolding set_map image_iff by metis
  finally have base: "base_binding_errors (set (map activation_key_of layers)) b \<noteq> []
     \<longleftrightarrow> b2_layer b = None \<and> b2_modifier b = None \<and> (\<exists>l \<in> set layers. activation_key_of l \<in> ?keys)" .
  show ?thesis unfolding uses_own_activation_def using own base by blast
qed

lemma validate_profile_v2_ok: "validate_profile_v2 p = Inr () \<longleftrightarrow> profile_v2_ok p"
proof -
  let ?layers = "p2_layers p" and ?bs = "p2_bindings p"
  let ?base = "\<lambda>b. base_binding_errors (set (map activation_key_of ?layers)) b = []"
  let ?own = "\<lambda>b. \<forall>k \<in> set (binding_scope_input_keys (b2_input b)).
      \<not> own_activation b (set (map (\<lambda>l. (l2_name l, activation_key_of l)) ?layers)) k"
  have header: "header_errors p = [] \<longleftrightarrow> p2_schema_version p = PROFILE_SCHEMA_VERSION
      \<and> trim (p2_name p) \<noteq> [] \<and> trim (p2_package_name p) \<noteq> []"
    by (simp add: header_errors_def)
  have "validate_profile_v2 p = Inr () \<longleftrightarrow> header_errors p = [] \<and> layer_name_errors {} ?layers = []
      \<and> length ?layers \<le> 64 \<and> activation_errors {} ?layers = [] \<and> (\<forall>b \<in> set ?bs. ?base b)
      \<and> binding_errors (set (map l2_name ?layers))
          (set (map (\<lambda>l. (l2_name l, activation_key_of l)) ?layers)) {} {} ?bs = []"
    by (simp add: validate_profile_v2_def profile_v2_errors_def Let_def not_less)
  also have "\<dots> \<longleftrightarrow> profile_v2_ok p"
    unfolding profile_v2_ok_def header layer_name_errors_Nil activation_errors_Nil binding_errors_Nil
      layer_ok_def
    using no_activation_iff [where layers = ?layers] by blast
  finally show ?thesis .
qed


section \<open>Materialised coordinates\<close>

lemma f_const:
  "mag f_zero = 0" "mag f_one = 4607182418800017408" "ord f_zero = 0" "ord f_one = 4607182418800017408"
  "\<not> is_nan f_zero" "\<not> is_nan f_one" "\<not> f_neg_bit f_zero" "\<not> f_neg_bit f_one"
  by (simp_all add: f_zero_def f_one_def mag_def ord_def f_neg_bit_def is_nan_def INF_MAG_def bit_iff_odd_drop_bit drop_bit_eq_div)

lemma clamp_unit:
  assumes "\<not> is_nan v"
  shows "f_nonneg (f_clamp v f_zero f_one)" "is_finite (f_clamp v f_zero f_one)"
    "mag (f_clamp v f_zero f_one) \<le> mag f_one"
    "int (mag (f_clamp v f_zero f_one)) = max 0 (min 4607182418800017408 (ord v))"
proof -
  consider "ord v < 0" | "0 \<le> ord v" "ord v \<le> 4607182418800017408" | "4607182418800017408 < ord v" by linarith
  then have all: "f_nonneg (f_clamp v f_zero f_one) \<and> is_finite (f_clamp v f_zero f_one)
    \<and> mag (f_clamp v f_zero f_one) \<le> mag f_one
    \<and> int (mag (f_clamp v f_zero f_one)) = max 0 (min 4607182418800017408 (ord v))"
  proof cases
    case 1
    then have "f_clamp v f_zero f_one = f_zero"
      using assms by (simp add: f_clamp_def f_lt_def f_const)
    with 1 show ?thesis by (simp add: f_nonneg_def f_const is_finite_def INF_MAG_def)
  next
    case 2
    then have nn: "f_nonneg v" using assms by (simp add: f_nonneg_def)
    moreover have "f_clamp v f_zero f_one = v"
      using 2 by (simp add: f_clamp_def f_lt_def f_const)
    ultimately show ?thesis using 2 f_nonneg_ord [OF nn] by (simp add: f_const is_finite_def INF_MAG_def)
  next
    case 3
    then have "f_clamp v f_zero f_one = f_one"
      using assms by (simp add: f_clamp_def f_lt_def f_const)
    with 3 show ?thesis by (simp add: f_nonneg_def f_const is_finite_def INF_MAG_def)
  qed
  then show "f_nonneg (f_clamp v f_zero f_one)" "is_finite (f_clamp v f_zero f_one)"
    "mag (f_clamp v f_zero f_one) \<le> mag f_one"
    "int (mag (f_clamp v f_zero f_one)) = max 0 (min 4607182418800017408 (ord v))" by simp_all
qed

lemma f_one_finite [simp]: "is_finite f_one" "f_nonneg f_one" "is_finite f_zero" "f_nonneg f_zero"
  by (simp_all add: is_finite_def f_nonneg_def f_const INF_MAG_def)

lemma mag_mul_one: "mag (f_mul f_one (f_of_u32 n)) = mag (f_of_u32 n)"
proof -
  have m: "man (mag f_one) = 4503599627370496" "ex (mag f_one) = 1022"
    by (simp_all add: f_const man_def ex_def)
  let ?y = "mag (f_of_u32 n)"
  have "round_dyadic (man (mag f_one) * man ?y) (int (ex (mag f_one)) + int (ex ?y) - 1074) = ?y"
  proof (rule round_dyadic_exact [where d = 52])
    show "?y < INF_MAG" using f_of_u32_finite [of n] by (simp add: is_finite_def)
    show "0 \<le> int (ex (mag f_one)) + int (ex ?y) - 1074 + int 52" by (simp add: m)
    have "nat (int (ex (mag f_one)) + int (ex ?y) - 1074 + int 52) = ex ?y" by (simp add: m)
    then show "man (mag f_one) * man ?y * 2 ^ nat (int (ex (mag f_one)) + int (ex ?y) - 1074 + int 52)
        = units ?y * 2 ^ 52"
      by (simp add: m units_def)
  qed
  then show ?thesis by (simp only: f_mul_nonneg(2) [OF f_one_finite(2,1) f_of_u32_nonneg(1) f_of_u32_finite])
qed

text \<open>The value \<open>round (clamp v 0 1 * n)\<close> and its conversion.\<close>

definition unit_scaled :: "f64 \<Rightarrow> u32 \<Rightarrow> f64" where
  "unit_scaled v n = f_mul (f_clamp v f_zero f_one) (f_of_u32 n)"

lemma unit_scaled_num:
  assumes "\<not> is_nan v"
  shows "f_nonneg (unit_scaled v n)" "is_finite (unit_scaled v n)"
    "nearest_int (mag (unit_scaled v n)) \<le> unat n"
proof -
  show "f_nonneg (unit_scaled v n)"
    unfolding unit_scaled_def by (rule f_mul_nonneg(1) [OF clamp_unit(1,2) [OF assms]]) simp_all
  have le: "mag (unit_scaled v n) \<le> mag (f_of_u32 n)"
    using f_mul_mono [OF clamp_unit(1,2) [OF assms] f_one_finite(2,1) f_of_u32_nonneg(1) f_of_u32_finite
        clamp_unit(3) [OF assms]]
    unfolding unit_scaled_def mag_mul_one .
  then show "is_finite (unit_scaled v n)"
    using f_of_u32_finite [of n] by (simp add: is_finite_def)
  show "nearest_int (mag (unit_scaled v n)) \<le> unat n"
    using nearest_int_mono [OF le] by simp
qed

lemma unat_unit_scaled:
  assumes "\<not> is_nan v"
  shows "unat (f_as_u32 (f_round (unit_scaled v n))) = nearest_int (mag (unit_scaled v n))"
proof -
  note u = unit_scaled_num [OF assms, of n]
  have "unat n \<le> 4294967295" using unsigned_less [of n, where ?'a = nat] by simp
  with u(3) show ?thesis
    by (simp only: unat_f_as_u32 [OF f_round_nonneg(1) [OF u(1,2)]] trunc_mag_f_round [OF u(1,2)])
qed

lemma unit_scaled_mono:
  assumes "f_le a b"
  shows "mag (unit_scaled a n) \<le> mag (unit_scaled b n)"
proof -
  have nan: "\<not> is_nan a" "\<not> is_nan b" and le: "ord a \<le> ord b" using assms by (simp_all add: f_le_def)
  have "mag (f_clamp a f_zero f_one) \<le> mag (f_clamp b f_zero f_one)"
    using clamp_unit(4) [OF nan(1)] clamp_unit(4) [OF nan(2)] le by linarith
  then show ?thesis unfolding unit_scaled_def
    by (rule f_mul_mono [OF clamp_unit(1,2) [OF nan(1)] clamp_unit(1,2) [OF nan(2)]
          f_of_u32_nonneg(1) f_of_u32_finite])
qed

lemma materialize_axis_unat:
  assumes "\<not> is_nan v" "limit \<noteq> 0"
  shows "unat (materialize_axis v limit) = nearest_int (mag (unit_scaled v (limit - 1)))"
proof -
  have "f_as_u32 (f_round (unit_scaled v (limit - 1))) \<le> limit - 1"
    using unit_scaled_num(3) [OF assms(1)] unat_unit_scaled [OF assms(1)] by (simp add: word_le_nat_alt)
  then show ?thesis using assms(2) unat_unit_scaled [OF assms(1)]
    by (simp add: materialize_axis_def Let_def unit_scaled_def min_def)
qed

lemma materialize_axis_mono:
  assumes "f_le a b" shows "materialize_axis a limit \<le> materialize_axis b limit"
proof (cases "limit = 0")
  case False
  have nan: "\<not> is_nan a" "\<not> is_nan b" using assms by (simp_all add: f_le_def)
  have "nearest_int (mag (unit_scaled a (limit - 1))) \<le> nearest_int (mag (unit_scaled b (limit - 1)))"
    by (intro nearest_int_mono unit_scaled_mono assms)
  then show ?thesis by (simp add: word_le_nat_alt materialize_axis_unat nan False)
qed (simp add: materialize_axis_def)

lemma materialize_axis_zero: "materialize_axis f_zero limit = 0"
proof (cases "limit = 0")
  case False
  have "mag (unit_scaled f_zero (limit - 1)) = 0"
    using f_mul_nonneg(2) [OF f_one_finite(4,3) f_of_u32_nonneg(1) f_of_u32_finite, of "limit - 1"]
    by (simp add: unit_scaled_def f_clamp_def f_lt_def f_const)
  then have "unat (materialize_axis f_zero limit) = 0"
    unfolding materialize_axis_unat [OF f_const(5) False] by (simp only:) (simp add: nearest_int_def)
  then show ?thesis by (simp add: unat_eq_zero)
qed (simp add: materialize_axis_def)

text \<open>A coordinate materialises monotonically into the surface: \<open>0\<close> to its first pixel, \<open>1\<close> to
  its last.\<close>

theorem materialize_axis_monotone:
  assumes le: "f_le a b" and limit: "0 < limit"
  shows "materialize_axis a limit \<le> materialize_axis b limit \<and> materialize_axis b limit < limit
    \<and> materialize_axis f_zero limit = 0 \<and> materialize_axis f_one limit = limit - 1"
proof -
  have nan: "\<not> is_nan a" "\<not> is_nan b" using le by (simp_all add: f_le_def)
  have l: "limit \<noteq> 0" using limit by simp
  have last: "unat (limit - 1) < unat limit" using limit by (simp add: word_less_nat_alt unat_sub_if' )
  note val = materialize_axis_unat [OF _ l]
  note 1 = materialize_axis_mono [OF le, of limit]
  have 2: "materialize_axis b limit < limit"
    using unit_scaled_num(3) [OF nan(2), of "limit - 1"] last by (simp add: word_less_nat_alt val nan)
  note 3 = materialize_axis_zero [of limit]
  have "unit_scaled f_one (limit - 1) = f_mul f_one (f_of_u32 (limit - 1))"
    by (simp add: unit_scaled_def f_clamp_def f_lt_def f_const)
  then have "unat (materialize_axis f_one limit) = unat (limit - 1)"
    unfolding val [OF f_const(6)] by (simp only: mag_mul_one nearest_int_f_of_u32)
  then have 4: "materialize_axis f_one limit = limit - 1" by (simp only: word_unat_eq_iff)
  from 1 2 3 4 show ?thesis by blast
qed

lemma materialize_axis_monotone_witness:
  "materialize_axis f_zero 1920 \<le> materialize_axis f_one 1920 \<and> materialize_axis f_one 1920 < 1920"
  using materialize_axis_monotone [of f_zero f_one 1920] by (simp add: f_le_def f_const)

lemma f_max_one:
  assumes "f_nonneg x"
  shows "f_nonneg (f_max x f_one)" "mag f_one \<le> mag (f_max x f_one)"
    "mag (f_max x f_one) = max (mag x) (mag f_one)"
  using assms f_nonneg_ord [OF assms]
  by (auto simp: f_max_def f_nonneg_def f_lt_def f_const)

lemma trunc_mag_one: "trunc_mag (mag f_one) = 1"
  by (simp add: f_const trunc_mag_def man_def ex_def)

lemma joystick_geometry:
  "1 \<le> materialize_radius v res"
  "materialize_dead_zone d (materialize_radius v res) res < materialize_radius v res"
proof -
  let ?n = "min (rwidth res) (rheight res)"
  have pos: "1 \<le> materialize_radius v res"
  proof (cases "is_nan v")
    case True
    then have clamp: "f_clamp v f_zero f_one = v" by (simp add: f_clamp_def f_lt_def)
    have "is_nan f_nan" by (simp add: f_nan_def is_nan_def mk_f64_def mag_def INF_MAG_def)
    then have "\<not> is_finite f_nan" by (simp add: is_nan_def is_finite_def)
    with True \<open>is_nan f_nan\<close> have "materialize_radius v res = f_as_u32 f_one"
      by (simp add: materialize_radius_def Let_def clamp f_mul_def f_round_def f_max_def)
    then have "unat (materialize_radius v res) = 1"
      by (simp add: unat_f_as_u32 trunc_mag_one)
    then show ?thesis by (simp add: word_le_nat_alt)
  next
    case False
    note u = unit_scaled_num [OF False, of ?n]
    let ?x = "f_max (f_round (unit_scaled v ?n)) f_one"
    note mx = f_max_one [OF f_round_nonneg(1) [OF u(1,2)]]
    have "1 \<le> trunc_mag (mag ?x)" using trunc_mag_mono [OF mx(2)] trunc_mag_one by simp
    then have "1 \<le> unat (f_as_u32 ?x)" by (simp add: unat_f_as_u32 [OF mx(1)])
    then show ?thesis by (simp add: materialize_radius_def Let_def unit_scaled_def word_le_nat_alt)
  qed
  have "materialize_dead_zone d r res < r" if "1 \<le> r" for r :: u32
  proof -
    have "r - 1 < r" using that by (simp add: word_less_nat_alt word_le_nat_alt unat_sub_if')
    then show ?thesis using that
      by (auto simp: materialize_dead_zone_def Let_def min_less_iff_disj) (simp add: word_le_nat_alt word_less_nat_alt)
  qed
  with pos show "1 \<le> materialize_radius v res"
    "materialize_dead_zone d (materialize_radius v res) res < materialize_radius v res" by simp_all
qed

text \<open>The geometry of a joystick is sound for any radius and dead zone of the profile, a value that
  is not a number included: the radius is positive and the dead zone strictly inside it.\<close>

theorem joystick_geometry_sound:
  "1 \<le> materialize_radius v res
   \<and> materialize_dead_zone d (materialize_radius v res) res < materialize_radius v res"
  using joystick_geometry by blast

end
