(* ===== verification/Touch.thy ===== *)
theory Touch
  imports Profile
begin

text \<open>
  The touch engine, \<^verbatim>\<open>wroid-runtime/src/lib.rs\<close>: contacts, frames with their inline and heap
  representation, the validator and the in-place commit of a frame, and the engine that
  validates, injects and then commits. The injector behind the engine is a parameter
  \<open>inject\<close>; its contract is the locale \<open>touch_injector\<close>.
\<close>

section \<open>Events and frames\<close>

type_synonym contact_id = u16

datatype touch_phase = Down | Move | Up | Cancel

record touch_event =
  contact :: contact_id
  phase :: touch_phase
  position :: point

definition touch_event_new :: "contact_id \<Rightarrow> touch_phase \<Rightarrow> point \<Rightarrow> touch_event" where
  "touch_event_new c ph p = \<lparr>contact = c, phase = ph, position = p\<rparr>"

definition EMPTY_TOUCH_EVENT :: touch_event where
  "EMPTY_TOUCH_EVENT = touch_event_new 0 Cancel \<lparr>px = 0, py = 0\<rparr>"

datatype touch_frame =
    Inline "touch_event list" nat \<comment> \<open>an array of four events and how many are used\<close>
  | Heap "touch_event list"

text \<open>The filling loop: the next slot takes the next event; an exhausted iterator returns early.\<close>

fun fill_inline :: "nat \<Rightarrow> touch_event list \<Rightarrow> touch_event list \<Rightarrow> touch_frame + touch_event list \<times> touch_event list" where
  "fill_inline index inline it =
     (if index < 4
      then (case it of
              [] \<Rightarrow> Inl (Inline inline index)
            | e # it' \<Rightarrow> fill_inline (Suc index) (inline[index := e]) it')
      else Inr (inline, it))"

declare fill_inline.simps [simp del]

definition frame_new :: "touch_event list \<Rightarrow> touch_frame" where
  "frame_new evs =
     (case fill_inline 0 (replicate 4 EMPTY_TOUCH_EVENT) evs of
        Inl frame \<Rightarrow> frame
      | Inr (inline, []) \<Rightarrow> Inline inline 4
      | Inr (inline, first # rest) \<Rightarrow> Heap (inline @ first # rest))"

definition frame_single :: "touch_event \<Rightarrow> touch_frame" where
  "frame_single e = Inline ((replicate 4 EMPTY_TOUCH_EVENT)[0 := e]) 1"

fun frame_events :: "touch_frame \<Rightarrow> touch_event list" where
  "frame_events (Inline evs len) = take len evs"
| "frame_events (Heap evs) = evs"

definition frame_is_empty :: "touch_frame \<Rightarrow> bool" where
  "frame_is_empty f \<longleftrightarrow> frame_events f = []"

section \<open>The committed state\<close>

datatype touch_state_error =
    EmptyFrame
  | DuplicateContactInFrame contact_id
  | ContactAlreadyActive contact_id
  | ContactNotActive contact_id

record touch_state =
  active_contacts :: "(contact_id, point) rbt"

definition touch_state_default :: touch_state where
  "touch_state_default = \<lparr>active_contacts = RBT.empty\<rparr>"

definition active_contact_count :: "touch_state \<Rightarrow> nat" where
  "active_contact_count s = length (RBT.entries (active_contacts s))"

definition is_active :: "touch_state \<Rightarrow> contact_id \<Rightarrow> bool" where
  "is_active s c \<longleftrightarrow> RBT.lookup (active_contacts s) c \<noteq> None"

definition contact_position :: "touch_state \<Rightarrow> contact_id \<Rightarrow> point option" where
  "contact_position s c = RBT.lookup (active_contacts s) c"

definition validate_event :: "touch_state \<Rightarrow> touch_event \<Rightarrow> touch_state_error + unit" where
  "validate_event s e =
     (case phase e of
        Down \<Rightarrow> if is_active s (contact e) then Inl (ContactAlreadyActive (contact e)) else Inr ()
      | Move \<Rightarrow> if \<not> is_active s (contact e) then Inl (ContactNotActive (contact e)) else Inr ()
      | Up \<Rightarrow> if \<not> is_active s (contact e) then Inl (ContactNotActive (contact e)) else Inr ()
      | Cancel \<Rightarrow> if \<not> is_active s (contact e) then Inl (ContactNotActive (contact e)) else Inr ())"

fun validate_events :: "touch_state \<Rightarrow> touch_event list \<Rightarrow> touch_event list \<Rightarrow> touch_state_error + unit" where
  "validate_events s prev [] = Inr ()"
| "validate_events s prev (e # es) =
     (if list_ex (\<lambda>p. contact p = contact e) prev then Inl (DuplicateContactInFrame (contact e))
      else case validate_event s e of
             Inl err \<Rightarrow> Inl err
           | Inr _ \<Rightarrow> validate_events s (prev @ [e]) es)"

definition validate_frame :: "touch_state \<Rightarrow> touch_frame \<Rightarrow> touch_state_error + unit" where
  "validate_frame s f =
     (if frame_is_empty f then Inl EmptyFrame else validate_events s [] (frame_events f))"

definition apply_event :: "touch_event \<Rightarrow> touch_state \<Rightarrow> touch_state" where
  "apply_event e s =
     (case phase e of
        Down \<Rightarrow> s\<lparr>active_contacts := RBT.insert (contact e) (position e) (active_contacts s)\<rparr>
      | Move \<Rightarrow> s\<lparr>active_contacts := RBT.insert (contact e) (position e) (active_contacts s)\<rparr>
      | Up \<Rightarrow> s\<lparr>active_contacts := RBT.delete (contact e) (active_contacts s)\<rparr>
      | Cancel \<Rightarrow> s\<lparr>active_contacts := RBT.delete (contact e) (active_contacts s)\<rparr>)"

definition apply_frame :: "touch_state \<Rightarrow> touch_frame \<Rightarrow> touch_state" where
  "apply_frame s f = fold apply_event (frame_events f) s"

section \<open>The engine\<close>

datatype 'e touch_engine_error = InvalidState touch_state_error | Injection 'e

record 'i touch_engine =
  injector :: 'i
  engine_state :: touch_state

type_synonym ('i, 'e) inject_fn = "'i \<Rightarrow> touch_frame \<Rightarrow> ('i, 'e, unit) st"
type_synonym ('i, 'e, 'a) engine_st = "('i touch_engine, 'e touch_engine_error, 'a) st"

definition engine_new :: "'i \<Rightarrow> 'i touch_engine" where
  "engine_new i = \<lparr>injector = i, engine_state = touch_state_default\<rparr>"

definition submit :: "('i, 'e) inject_fn \<Rightarrow> 'i touch_engine \<Rightarrow> touch_frame \<Rightarrow> ('i, 'e, unit) engine_st" where
  "submit inject e f =
     (case validate_frame (engine_state e) f of
        Inl err \<Rightarrow> (e, Inl (InvalidState err))
      | Inr _ \<Rightarrow>
          (case inject (injector e) f of
             (i, Inl err) \<Rightarrow> (e\<lparr>injector := i\<rparr>, Inl (Injection err))
           | (i, Inr _) \<Rightarrow>
               (e\<lparr>injector := i, engine_state := apply_frame (engine_state e) f\<rparr>, Inr ())))"

definition begin_contact :: "('i, 'e) inject_fn \<Rightarrow> 'i touch_engine \<Rightarrow> contact_id \<Rightarrow> point \<Rightarrow> ('i, 'e, unit) engine_st" where
  "begin_contact inject e c p = submit inject e (frame_single (touch_event_new c Down p))"

definition move_contact :: "('i, 'e) inject_fn \<Rightarrow> 'i touch_engine \<Rightarrow> contact_id \<Rightarrow> point \<Rightarrow> ('i, 'e, unit) engine_st" where
  "move_contact inject e c p = submit inject e (frame_single (touch_event_new c Move p))"

definition end_contact :: "('i, 'e) inject_fn \<Rightarrow> 'i touch_engine \<Rightarrow> contact_id \<Rightarrow> ('i, 'e, unit) engine_st" where
  "end_contact inject e c =
     (case contact_position (engine_state e) c of
        None \<Rightarrow> (e, Inl (InvalidState (ContactNotActive c)))
      | Some p \<Rightarrow> submit inject e (frame_single (touch_event_new c Up p)))"

definition cancel_all :: "('i, 'e) inject_fn \<Rightarrow> 'i touch_engine \<Rightarrow> ('i, 'e, bool) engine_st" where
  "cancel_all inject e =
     (if active_contact_count (engine_state e) = 0 then (e, Inr False)
      else
        andThen
          (submit inject e
             (frame_new (map (\<lambda>(c, p). touch_event_new c Cancel p)
                           (RBT.entries (active_contacts (engine_state e))))))
          (\<lambda>e' _. (e', Inr True)))"

section \<open>Frames\<close>

lemma touch_event_sel [simp]:
  "contact (touch_event_new c ph p) = c" "phase (touch_event_new c ph p) = ph"
  "position (touch_event_new c ph p) = p"
  by (simp_all add: touch_event_new_def)

lemma fill_inline_spec:
  assumes "length inline = 4" and "index \<le> 4"
  shows "fill_inline index inline it =
     (if length it < 4 - index
      then Inl (Inline (take index inline @ it @ drop (index + length it) inline) (index + length it))
      else Inr (take index inline @ take (4 - index) it, drop (4 - index) it))"
  using assms
proof (induction index inline it rule: fill_inline.induct)
  case (1 index inline it)
  show ?case
  proof (cases "index < 4")
    case False
    with "1.prems" show ?thesis by (simp add: fill_inline.simps)
  next
    case lt: True
    show ?thesis
    proof (cases it)
      case Nil
      with lt "1.prems" show ?thesis by (simp add: fill_inline.simps)
    next
      case (Cons e it')
      have take: "take (Suc index) (inline[index := e]) = take index inline @ [e]"
        using lt "1.prems" by (simp add: take_Suc_conv_app_nth)
      have drop: "drop (Suc index + n) (inline[index := e]) = drop (Suc index + n) inline" for n
        by simp
      have s3: "4 - index = Suc (3 - index)" using lt by simp
      have "fill_inline index inline it = fill_inline (Suc index) (inline[index := e]) it'"
        using lt Cons by (subst fill_inline.simps) simp
      also note "1.IH" [OF lt Cons]
      finally show ?thesis using lt Cons "1.prems" s3
        by (auto simp: take drop)
    qed
  qed
qed

lemma frame_new_events: "frame_events (frame_new evs) = evs"
proof (cases "length evs < 4")
  case True
  then show ?thesis by (simp add: frame_new_def fill_inline_spec)
next
  case False
  then have "evs = take 4 evs @ drop 4 evs" and len: "length (take 4 evs) = 4" by simp_all
  then show ?thesis using False
    by (cases "drop 4 evs") (auto simp: frame_new_def fill_inline_spec)
qed

lemma frame_events_single [simp]: "frame_events (frame_single e) = [e]"
  by (simp add: frame_single_def eval_nat_numeral)

lemma frame_new_inline: "length evs \<le> 4 \<longleftrightarrow> (\<exists>a n. frame_new evs = Inline a n)"
proof (cases "length evs < 4")
  case True
  then show ?thesis by (simp add: frame_new_def fill_inline_spec)
next
  case False
  then show ?thesis
    by (cases "drop 4 evs") (auto simp: frame_new_def fill_inline_spec)
qed

text \<open>The inline and the spilled representation of a frame hold exactly the events it was
  built from, in their order; up to four events are stored inline.\<close>

theorem frame_events_new:
  "frame_events (frame_new evs) = evs \<and> (length evs \<le> 4 \<longleftrightarrow> (\<exists>a n. frame_new evs = Inline a n))"
  using frame_new_events frame_new_inline by blast

section \<open>Validation and commit of a frame\<close>

text \<open>The specification: what one event and a list of events make of the active contacts.\<close>

definition event_effect :: "touch_event \<Rightarrow> (contact_id \<rightharpoonup> point) \<Rightarrow> (contact_id \<rightharpoonup> point)" where
  "event_effect e m =
     (if phase e \<in> {Down, Move} then m(contact e \<mapsto> position e) else m(contact e := None))"

definition frame_effect :: "touch_event list \<Rightarrow> (contact_id \<rightharpoonup> point) \<Rightarrow> (contact_id \<rightharpoonup> point)" where
  "frame_effect evs m = fold event_effect evs m"

definition event_enabled :: "(contact_id \<rightharpoonup> point) \<Rightarrow> touch_event \<Rightarrow> bool" where
  "event_enabled m e \<longleftrightarrow> (if phase e = Down then m (contact e) = None else m (contact e) \<noteq> None)"

definition frame_enabled :: "(contact_id \<rightharpoonup> point) \<Rightarrow> touch_event list \<Rightarrow> bool" where
  "frame_enabled m evs \<longleftrightarrow>
     evs \<noteq> [] \<and> distinct (map contact evs) \<and> (\<forall>e \<in> set evs. event_enabled m e)"

abbreviation contacts_of :: "touch_state \<Rightarrow> contact_id \<rightharpoonup> point" where
  "contacts_of s \<equiv> contact_position s"

abbreviation engine_contacts :: "'i touch_engine \<Rightarrow> contact_id \<rightharpoonup> point" where
  "engine_contacts e \<equiv> contact_position (engine_state e)"

lemma is_active_position: "is_active s c \<longleftrightarrow> contact_position s c \<noteq> None"
  by (simp add: is_active_def contact_position_def)

lemma validate_event_Inr: "validate_event s e = Inr () \<longleftrightarrow> event_enabled (contacts_of s) e"
  by (cases "phase e") (auto simp: validate_event_def event_enabled_def is_active_position)

lemma validate_events_Inr:
  "validate_events s prev evs = Inr () \<longleftrightarrow>
     distinct (map contact evs) \<and> contact ` set prev \<inter> contact ` set evs = {}
     \<and> (\<forall>e \<in> set evs. event_enabled (contacts_of s) e)"
proof (induction evs arbitrary: prev)
  case Nil
  then show ?case by simp
next
  case (Cons e es)
  have "validate_event s e = Inr u \<longleftrightarrow> event_enabled (contacts_of s) e" for u
    using validate_event_Inr [of s e] by simp
  then show ?case
    by (cases "validate_event s e") (auto simp: Cons.IH list_ex_iff intro: rev_image_eqI)
qed

lemma validate_frame_enabled:
  "validate_frame s f = Inr () \<longleftrightarrow> frame_enabled (contacts_of s) (frame_events f)"
  by (auto simp: validate_frame_def frame_is_empty_def validate_events_Inr frame_enabled_def)

text \<open>A frame is accepted exactly when it has an event, names no contact twice, puts down
  only inactive contacts and moves, lifts or cancels only active ones.\<close>

theorem validate_frame_iff:
  "validate_frame s f = Inr () \<longleftrightarrow> frame_enabled (contacts_of s) (frame_events f)"
  by (rule validate_frame_enabled)

lemma contacts_apply_event: "contacts_of (apply_event e s) = event_effect e (contacts_of s)"
  by (cases "phase e")
    (auto simp: apply_event_def event_effect_def contact_position_def RBT.lookup_insert
      RBT.lookup_delete fun_eq_iff)

lemma contacts_fold_apply: "contacts_of (fold apply_event evs s) = frame_effect evs (contacts_of s)"
  by (induction evs arbitrary: s) (simp_all add: frame_effect_def contacts_apply_event)

lemma contacts_apply_frame [simp]:
  "contacts_of (apply_frame s f) = frame_effect (frame_events f) (contacts_of s)"
  by (simp add: apply_frame_def contacts_fold_apply)

lemma frame_effect_other: "c \<notin> contact ` set evs \<Longrightarrow> frame_effect evs m c = m c"
  unfolding frame_effect_def
  by (induction evs arbitrary: m) (auto simp: event_effect_def)

lemma frame_effect_distinct:
  assumes "distinct (map contact evs)" and "e \<in> set evs"
  shows "frame_effect evs m (contact e) = event_effect e m (contact e)"
  using assms
proof (induction evs arbitrary: m)
  case Nil
  then show ?case by simp
next
  case (Cons e' es)
  show ?case
  proof (cases "e = e'")
    case True
    then have "frame_effect es (event_effect e' m) (contact e) = event_effect e' m (contact e)"
      using Cons.prems by (intro frame_effect_other) auto
    with True show ?thesis by (simp add: frame_effect_def)
  next
    case False
    with Cons.prems have "e \<in> set es" and ne: "contact e \<noteq> contact e'" by (auto intro: rev_image_eqI)
    with Cons have "frame_effect es (event_effect e' m) (contact e)
        = event_effect e (event_effect e' m) (contact e)" by simp
    with ne show ?thesis by (simp add: frame_effect_def event_effect_def)
  qed
qed

lemma frame_effect_singleton [simp]: "frame_effect [e] m = event_effect e m"
  by (simp add: frame_effect_def)

section \<open>Submission\<close>

lemma submit_Inl_state:
  "submit inject e f = (e', Inl err) \<Longrightarrow> engine_state e' = engine_state e"
  by (auto simp: submit_def split: sum.splits prod.splits)

text \<open>C8. Submission is atomic: a frame that is rejected or whose injection fails leaves the
  committed contacts as they were; an accepted frame commits exactly its events.\<close>

theorem submit_atomic:
  "case submit inject e f of
     (e', Inl err) \<Rightarrow> engine_state e' = engine_state e
       \<and> (case err of InvalidState v \<Rightarrow> injector e' = injector e | Injection ie \<Rightarrow> True)
   | (e', Inr _) \<Rightarrow> frame_enabled (engine_contacts e) (frame_events f)
       \<and> engine_contacts e' = frame_effect (frame_events f) (engine_contacts e)"
  using validate_frame_enabled [of "engine_state e" f]
  by (auto simp: submit_def split: sum.splits prod.splits)

lemma submit_Inr_iff:
  "submit inject e f = (e', Inr u) \<longleftrightarrow>
     frame_enabled (engine_contacts e) (frame_events f)
     \<and> (\<exists>i. inject (injector e) f = (i, Inr ())
            \<and> e' = e\<lparr>injector := i, engine_state := apply_frame (engine_state e) f\<rparr>)"
proof (cases "validate_frame (engine_state e) f")
  case (Inl err)
  then have "\<not> frame_enabled (engine_contacts e) (frame_events f)"
    by (simp flip: validate_frame_enabled)
  with Inl show ?thesis by (simp add: submit_def)
next
  case (Inr v)
  then have "frame_enabled (engine_contacts e) (frame_events f)"
    by (simp flip: validate_frame_enabled)
  with Inr show ?thesis by (auto simp: submit_def split: sum.splits prod.splits)
qed

lemma submit_contacts:
  "submit inject e f = (e', Inr u) \<Longrightarrow>
     engine_contacts e' = frame_effect (frame_events f) (engine_contacts e)"
  by (auto simp: submit_Inr_iff)

lemma begin_contact_Inr:
  "begin_contact inject e c p = (e', Inr u) \<Longrightarrow>
     engine_contacts e c = None \<and> engine_contacts e' = (engine_contacts e)(c \<mapsto> p)"
  unfolding begin_contact_def
  by (auto simp: submit_Inr_iff frame_enabled_def event_enabled_def event_effect_def)

lemma move_contact_Inr:
  "move_contact inject e c p = (e', Inr u) \<Longrightarrow>
     engine_contacts e c \<noteq> None \<and> engine_contacts e' = (engine_contacts e)(c \<mapsto> p)"
  unfolding move_contact_def
  by (auto simp: submit_Inr_iff frame_enabled_def event_enabled_def event_effect_def)

lemma end_contact_Inr:
  "end_contact inject e c = (e', Inr u) \<Longrightarrow>
     engine_contacts e c \<noteq> None \<and> engine_contacts e' = (engine_contacts e)(c := None)"
  unfolding end_contact_def
  by (auto simp: submit_Inr_iff frame_enabled_def event_enabled_def event_effect_def
      split: option.splits)

lemma engine_op_Inl:
  "begin_contact inject e c p = (e', Inl err) \<Longrightarrow> engine_state e' = engine_state e"
  "move_contact inject e c p = (e', Inl err) \<Longrightarrow> engine_state e' = engine_state e"
  "end_contact inject e c = (e', Inl err) \<Longrightarrow> engine_state e' = engine_state e"
  by (auto simp: begin_contact_def move_contact_def end_contact_def dest: submit_Inl_state
      split: option.splits)

text \<open>Single-contact operations that the committed contacts allow fail only in the injector.\<close>

lemma submit_enabled_Inl:
  "frame_enabled (engine_contacts e) (frame_events f) \<Longrightarrow> submit inject e f = (e', Inl err) \<Longrightarrow>
     \<exists>ie. err = Injection ie"
  using validate_frame_enabled [of "engine_state e" f] by (auto simp: submit_def split: sum.splits prod.splits)

lemma frame_enabled_single:
  "frame_enabled m [touch_event_new c ph p] \<longleftrightarrow>
     (if ph = Down then m c = None else m c \<noteq> None)"
  by (simp add: frame_enabled_def event_enabled_def touch_event_new_def)

lemma engine_op_Injection:
  "begin_contact inject e c p = (e', Inl err) \<Longrightarrow> engine_contacts e c = None \<Longrightarrow> \<exists>ie. err = Injection ie"
  "move_contact inject e c p = (e', Inl err) \<Longrightarrow> engine_contacts e c \<noteq> None \<Longrightarrow> \<exists>ie. err = Injection ie"
  "end_contact inject e c = (e', Inl err) \<Longrightarrow> engine_contacts e c \<noteq> None \<Longrightarrow> \<exists>ie. err = Injection ie"
  unfolding begin_contact_def move_contact_def end_contact_def
  by (auto simp: frame_enabled_single split: option.splits dest!: submit_enabled_Inl [rotated])

text \<open>The events \<open>cancel_all\<close> sends: one per active contact, in contact order.\<close>

definition cancel_events :: "touch_state \<Rightarrow> touch_event list" where
  "cancel_events s = map (\<lambda>(c, p). touch_event_new c Cancel p) (RBT.entries (active_contacts s))"

lemma contact_cancel_events: "map contact (cancel_events s) = map fst (RBT.entries (active_contacts s))"
  by (simp add: cancel_events_def o_def case_prod_unfold)

lemma cancel_events_contacts: "contact ` set (cancel_events s) = dom (contacts_of s)"
proof -
  have "contact ` set (cancel_events s) = set (map contact (cancel_events s))" by simp
  also have "\<dots> = fst ` set (RBT.entries (active_contacts s))" by (simp only: contact_cancel_events set_map)
  also have "\<dots> = dom (map_of (RBT.entries (active_contacts s)))" by (simp only: dom_map_of_conv_image_fst)
  also have "\<dots> = dom (RBT.lookup (active_contacts s))" by (simp only: RBT.map_of_entries)
  finally show ?thesis by (simp add: contact_position_def dom_def)
qed

lemma cancel_events_phase: "e \<in> set (cancel_events s) \<Longrightarrow> phase e = Cancel"
  by (auto simp: cancel_events_def)

lemma active_contact_count_0: "active_contact_count s = 0 \<longleftrightarrow> contacts_of s = Map.empty"
proof -
  have "contacts_of s = map_of (RBT.entries (active_contacts s))"
    by (simp add: contact_position_def fun_eq_iff RBT.map_of_entries)
  then show ?thesis by (simp only: active_contact_count_def length_0_conv map_of_eq_empty_iff)
qed

lemma cancel_events_enabled:
  "contacts_of s \<noteq> Map.empty \<Longrightarrow> frame_enabled (contacts_of s) (cancel_events s)"
proof -
  assume ne: "contacts_of s \<noteq> Map.empty"
  have "cancel_events s \<noteq> []" using ne active_contact_count_0 [of s]
    by (auto simp: cancel_events_def active_contact_count_def)
  moreover have "distinct (map contact (cancel_events s))"
    by (simp add: contact_cancel_events RBT.distinct_entries)
  moreover have "event_enabled (contacts_of s) e" if "e \<in> set (cancel_events s)" for e
    using that cancel_events_contacts [of s] by (auto simp: event_enabled_def cancel_events_phase dom_def)
  ultimately show ?thesis by (simp add: frame_enabled_def)
qed

lemma cancel_events_effect: "frame_effect (cancel_events s) (contacts_of s) = Map.empty"
proof
  fix c
  show "frame_effect (cancel_events s) (contacts_of s) c = None"
  proof (cases "c \<in> dom (contacts_of s)")
    case True
    then obtain e where e: "e \<in> set (cancel_events s)" "c = contact e"
      using cancel_events_contacts [of s] by auto
    then show ?thesis
      using frame_effect_distinct [of "cancel_events s" e] cancel_events_phase [OF e(1)]
      by (simp add: contact_cancel_events RBT.distinct_entries event_effect_def)
  next
    case False
    then show ?thesis using frame_effect_other [of c "cancel_events s"] cancel_events_contacts [of s]
      by auto
  qed
qed

lemma cancel_all_cases:
  "case cancel_all inject e of
     (e', Inl err) \<Rightarrow> (\<exists>ie. err = Injection ie) \<and> engine_state e' = engine_state e
   | (e', Inr cancelled) \<Rightarrow> engine_contacts e' = Map.empty
       \<and> (cancelled \<longleftrightarrow> engine_contacts e \<noteq> Map.empty)"
proof (cases "engine_contacts e = Map.empty")
  case True
  then show ?thesis using active_contact_count_0 [of "engine_state e"]
    by (simp add: cancel_all_def)
next
  case False
  let ?f = "frame_new (cancel_events (engine_state e))"
  have ok: "validate_frame (engine_state e) ?f = Inr ()"
    using cancel_events_enabled [OF False] by (simp add: validate_frame_enabled frame_new_events)
  have "cancel_all inject e = andThen (submit inject e ?f) (\<lambda>e' _. (e', Inr True))"
    using False active_contact_count_0 [of "engine_state e"]
    by (simp add: cancel_all_def cancel_events_def)
  then show ?thesis
    using ok False cancel_events_effect [of "engine_state e"]
    by (auto simp: submit_def frame_new_events split: sum.splits prod.splits)
qed

text \<open>\<open>cancel_all\<close> is never rejected by the validator: it fails only if the injector does, and
  when it returns there is no active contact left; it reports whether there was one.\<close>

theorem cancel_all_spec:
  "case cancel_all inject e of
     (e', Inl err) \<Rightarrow> (\<exists>ie. err = Injection ie) \<and> engine_state e' = engine_state e
   | (e', Inr cancelled) \<Rightarrow> engine_contacts e' = Map.empty
       \<and> (cancelled \<longleftrightarrow> engine_contacts e \<noteq> Map.empty)"
  by (rule cancel_all_cases)

section \<open>The engine and its injector in step\<close>

text \<open>Every operation of the engine, and a client that performs a list of them whatever they
  return.\<close>

datatype engine_op =
    OpSubmit touch_frame
  | OpBegin contact_id point
  | OpMove contact_id point
  | OpEnd contact_id
  | OpCancelAll

fun engine_exec :: "('i, 'e) inject_fn \<Rightarrow> engine_op \<Rightarrow> 'i touch_engine \<Rightarrow> 'i touch_engine" where
  "engine_exec inject (OpSubmit f) e = fst (submit inject e f)"
| "engine_exec inject (OpBegin c p) e = fst (begin_contact inject e c p)"
| "engine_exec inject (OpMove c p) e = fst (move_contact inject e c p)"
| "engine_exec inject (OpEnd c) e = fst (end_contact inject e c)"
| "engine_exec inject OpCancelAll e = fst (cancel_all inject e)"

definition engine_run :: "('i, 'e) inject_fn \<Rightarrow> engine_op list \<Rightarrow> 'i touch_engine \<Rightarrow> 'i touch_engine" where
  "engine_run inject ops e = fold (engine_exec inject) ops e"

text \<open>Engine and injector agree: the injector is well formed and holds the committed contacts.\<close>

definition in_step ::
  "('i \<Rightarrow> contact_id \<rightharpoonup> point) \<Rightarrow> ('i \<Rightarrow> bool) \<Rightarrow> 'i touch_engine \<Rightarrow> bool" where
  "in_step held ok e \<longleftrightarrow> ok (injector e) \<and> held (injector e) = engine_contacts e"

lemma engine_exec_cases:
  assumes "P e" and "\<And>f. P (fst (submit inject e f))"
  shows "P (engine_exec inject op e)"
proof (cases op)
  case OpCancelAll
  have "fst (andThen r (\<lambda>e' _. (e', Inr True))) = fst r" for r :: "('a, 'b, unit) engine_st"
    by (auto split: andThen_split)
  with OpCancelAll assms show ?thesis by (simp add: cancel_all_def)
qed (use assms in \<open>auto simp: begin_contact_def move_contact_def end_contact_def split: option.split\<close>)

text \<open>
  What the engine relies on: an injector (the uinput device, the metrics wrapper) holds
  contacts; a frame enabled in them changes them as it says when its injection succeeds, and
  not at all when it fails.
\<close>

locale touch_injector =
  fixes inject :: "'i \<Rightarrow> touch_frame \<Rightarrow> ('i, 'e, unit) st"
    and held :: "'i \<Rightarrow> contact_id \<rightharpoonup> point"
    and ok :: "'i \<Rightarrow> bool"
  assumes inject_ok: "ok i \<Longrightarrow> frame_enabled (held i) (frame_events f) \<Longrightarrow> ok (fst (inject i f))"
    and inject_success:
      "ok i \<Longrightarrow> frame_enabled (held i) (frame_events f) \<Longrightarrow> inject i f = (i', Inr u) \<Longrightarrow>
       held i' = frame_effect (frame_events f) (held i)"
    and inject_failure:
      "ok i \<Longrightarrow> frame_enabled (held i) (frame_events f) \<Longrightarrow> inject i f = (i', Inl err) \<Longrightarrow>
       held i' = held i"
begin

lemma submit_in_step: "in_step held ok e \<Longrightarrow> in_step held ok (fst (submit inject e f))"
proof (cases "validate_frame (engine_state e) f")
  case (Inr v)
  assume e: "in_step held ok e"
  from Inr have "frame_enabled (engine_contacts e) (frame_events f)"
    by (simp flip: validate_frame_enabled)
  with e Inr inject_ok [of "injector e" f] show ?thesis
    by (auto simp: submit_def in_step_def dest: inject_success inject_failure
        split: sum.split prod.split)
qed (simp add: submit_def)

lemma engine_exec_in_step: "in_step held ok e \<Longrightarrow> in_step held ok (engine_exec inject op e)"
  by (rule engine_exec_cases) (simp_all add: submit_in_step)

lemma engine_run_in_step: "in_step held ok e \<Longrightarrow> in_step held ok (engine_run inject ops e)"
  unfolding engine_run_def by (induction ops arbitrary: e) (simp_all add: engine_exec_in_step)

lemma engine_new_run_in_step:
  "ok i \<Longrightarrow> held i = Map.empty \<Longrightarrow> in_step held ok (engine_run inject ops (engine_new i))"
proof (rule engine_run_in_step)
  assume "ok i" "held i = Map.empty"
  then show "in_step held ok (engine_new i)"
    by (simp add: in_step_def engine_new_def touch_state_default_def contact_position_def fun_eq_iff)
qed

end

end
