(* ===== verification/Joystick.thy ===== *)
theory Joystick
  imports ProfileV2 Touch
begin

text \<open>
  The virtual joystick, \<^verbatim>\<open>wroid-runtime/src/joystick.rs\<close>: directions and analog vectors, the target
  point on the surface, and the operations that hold one persistent contact at that target. The
  platform's \<open>hypot\<close> is a parameter; nothing proved here depends on what it returns.
\<close>

section \<open>Input and configuration\<close>

record directional_input =
  di_up :: bool
  di_left :: bool
  di_down :: bool
  di_right :: bool

definition directional_neutral :: directional_input where
  "directional_neutral = \<lparr>di_up = False, di_left = False, di_down = False, di_right = False\<rparr>"

definition direction_axis :: "bool \<Rightarrow> bool \<Rightarrow> i32" where
  "direction_axis negative positive =
     (case (negative, positive) of (True, False) \<Rightarrow> - 1 | (False, True) \<Rightarrow> 1 | _ \<Rightarrow> 0)"

definition horizontal :: "directional_input \<Rightarrow> i32" where
  "horizontal d = direction_axis (di_left d) (di_right d)"

definition vertical :: "directional_input \<Rightarrow> i32" where
  "vertical d = direction_axis (di_up d) (di_down d)"

record analog_input =
  ai_x :: f64
  ai_y :: f64

definition from_directional :: "directional_input \<Rightarrow> analog_input option" where
  "from_directional d =
     (let x = f_of_i32 (horizontal d); y = f_of_i32 (vertical d)
      in if f_eq x f_zero \<and> f_eq y f_zero then None else Some \<lparr>ai_x = x, ai_y = y\<rparr>)"

datatype joystick_config_error =
    ZeroRadius
  | DeadZoneTooLarge u32 u32
  | JoystickInvalidResolution u32 u32
  | CenterOutOfBounds u32 u32 u32 u32

record virtual_joystick =
  vj_contact_id :: contact_id
  vj_center :: point
  vj_radius :: u32
  vj_dead_zone :: u32
  vj_resolution :: resolution

definition new_with_dead_zone ::
  "contact_id \<Rightarrow> point \<Rightarrow> u32 \<Rightarrow> u32 \<Rightarrow> resolution \<Rightarrow> joystick_config_error + virtual_joystick" where
  "new_with_dead_zone c center radius dead_zone res =
     (if radius = 0 then Inl ZeroRadius
      else if radius \<le> dead_zone then Inl (DeadZoneTooLarge dead_zone radius)
      else if rwidth res = 0 \<or> rheight res = 0
        then Inl (JoystickInvalidResolution (rwidth res) (rheight res))
      else if rwidth res \<le> px center \<or> rheight res \<le> py center
        then Inl (CenterOutOfBounds (px center) (py center) (rwidth res) (rheight res))
      else Inr \<lparr>vj_contact_id = c, vj_center = center, vj_radius = radius, vj_dead_zone = dead_zone,
                vj_resolution = res\<rparr>)"

definition joystick_new ::
  "contact_id \<Rightarrow> point \<Rightarrow> u32 \<Rightarrow> resolution \<Rightarrow> joystick_config_error + virtual_joystick" where
  "joystick_new c center radius res = new_with_dead_zone c center radius 0 res"

definition from_profile_v2_geometry ::
  "contact_id \<Rightarrow> normalized_point \<Rightarrow> f64 \<Rightarrow> f64 \<Rightarrow> resolution \<Rightarrow> joystick_config_error + virtual_joystick" where
  "from_profile_v2_geometry c center radius dead_zone res =
     (let r = materialize_radius radius res; dz = materialize_dead_zone dead_zone r res
      in new_with_dead_zone c (materialize center res) r dz res)"

section \<open>The target point\<close>

definition joystick_offset_axis :: "u32 \<Rightarrow> i64 \<Rightarrow> u32 \<Rightarrow> u32" where
  "joystick_offset_axis origin delta limit =
     of_int (max 0 (min (uint (limit - 1)) (wrap_i64 (uint origin + delta))))"

definition target_analog ::
  "(f64 \<Rightarrow> f64 \<Rightarrow> f64) \<Rightarrow> virtual_joystick \<Rightarrow> analog_input \<Rightarrow> point option" where
  "target_analog hypot j inp =
     (let magnitude = hypot (ai_x inp) (ai_y inp)
      in if \<not> is_finite magnitude \<or> f_eq magnitude f_zero then None
         else let dead_zone = f_div (f_of_u32 (vj_dead_zone j)) (f_of_u32 (vj_radius j))
              in if f_le magnitude dead_zone then None
                 else let clamped = f_min magnitude f_one;
                          effective =
                            (if f_eq dead_zone f_zero then clamped
                             else f_clamp (f_div (f_sub clamped dead_zone) (f_sub f_one dead_zone)) f_zero f_one);
                          x = f_div (ai_x inp) magnitude;
                          y = f_div (ai_y inp) magnitude;
                          radius = f_of_u32 (vj_radius j)
                      in Some
                        \<lparr>px = joystick_offset_axis (px (vj_center j))
                                (f_as_i64 (f_round (f_mul (f_mul x effective) radius))) (rwidth (vj_resolution j)),
                         py = joystick_offset_axis (py (vj_center j))
                                (f_as_i64 (f_round (f_mul (f_mul y effective) radius))) (rheight (vj_resolution j))\<rparr>)"

definition joystick_target ::
  "(f64 \<Rightarrow> f64 \<Rightarrow> f64) \<Rightarrow> virtual_joystick \<Rightarrow> directional_input \<Rightarrow> point option" where
  "joystick_target hypot j d =
     (case from_directional d of None \<Rightarrow> None | Some a \<Rightarrow> target_analog hypot j a)"

section \<open>Operations on the engine\<close>

definition apply_target ::
  "('i, 'e) inject_fn \<Rightarrow> virtual_joystick \<Rightarrow> 'i touch_engine \<Rightarrow> point option \<Rightarrow> ('i, 'e, bool) engine_st" where
  "apply_target inject j e target =
     (case (contact_position (engine_state e) (vj_contact_id j), target) of
        (None, None) \<Rightarrow> (e, Inr False)
      | (None, Some p) \<Rightarrow>
          andThen (begin_contact inject e (vj_contact_id j) p) (\<lambda>e' _. (e', Inr True))
      | (Some _, None) \<Rightarrow>
          andThen (end_contact inject e (vj_contact_id j)) (\<lambda>e' _. (e', Inr True))
      | (Some p, Some t) \<Rightarrow>
          if p = t then (e, Inr False)
          else andThen (move_contact inject e (vj_contact_id j) t) (\<lambda>e' _. (e', Inr True)))"

definition joystick_apply ::
  "(f64 \<Rightarrow> f64 \<Rightarrow> f64) \<Rightarrow> ('i, 'e) inject_fn \<Rightarrow> virtual_joystick \<Rightarrow> 'i touch_engine \<Rightarrow> directional_input
     \<Rightarrow> ('i, 'e, bool) engine_st" where
  "joystick_apply hypot inject j e d = apply_target inject j e (joystick_target hypot j d)"

definition joystick_apply_analog ::
  "(f64 \<Rightarrow> f64 \<Rightarrow> f64) \<Rightarrow> ('i, 'e) inject_fn \<Rightarrow> virtual_joystick \<Rightarrow> 'i touch_engine \<Rightarrow> analog_input
     \<Rightarrow> ('i, 'e, bool) engine_st" where
  "joystick_apply_analog hypot inject j e a = apply_target inject j e (target_analog hypot j a)"

text \<open>Cancelling a single contact; the aim controller uses the same frame.\<close>

definition cancel_contact ::
  "('i, 'e) inject_fn \<Rightarrow> 'i touch_engine \<Rightarrow> contact_id \<Rightarrow> ('i, 'e, bool) engine_st" where
  "cancel_contact inject e c =
     (case contact_position (engine_state e) c of
        None \<Rightarrow> (e, Inr False)
      | Some p \<Rightarrow>
          andThen (submit inject e (frame_single (touch_event_new c Cancel p))) (\<lambda>e' _. (e', Inr True)))"

definition joystick_cancel ::
  "('i, 'e) inject_fn \<Rightarrow> virtual_joystick \<Rightarrow> 'i touch_engine \<Rightarrow> ('i, 'e, bool) engine_st" where
  "joystick_cancel inject j e = cancel_contact inject e (vj_contact_id j)"

section \<open>Properties\<close>

definition on_surface :: "resolution \<Rightarrow> point \<Rightarrow> bool" where
  "on_surface res p \<longleftrightarrow> px p < rwidth res \<and> py p < rheight res"

definition joystick_ok :: "virtual_joystick \<Rightarrow> bool" where
  "joystick_ok j \<longleftrightarrow> vj_dead_zone j < vj_radius j \<and> on_surface (vj_resolution j) (vj_center j)"

lemma new_with_dead_zone_ok: "new_with_dead_zone c p r d res = Inr j \<Longrightarrow> joystick_ok j"
  by (auto simp: new_with_dead_zone_def joystick_ok_def on_surface_def split: if_splits)

lemma materialize_on_surface:
  "rwidth res \<noteq> 0 \<Longrightarrow> rheight res \<noteq> 0 \<Longrightarrow> on_surface res (materialize p res)"
proof -
  have "materialize_axis v limit < limit" if "limit \<noteq> 0" for v limit
  proof -
    have "limit - 1 < limit"
      using that by (simp add: word_less_nat_alt unat_sub_if' unat_eq_zero Suc_le_eq zero_less_iff_neq_zero)
    moreover have "materialize_axis v limit \<le> limit - 1"
      using that by (simp add: materialize_axis_def Let_def)
    ultimately show ?thesis by simp
  qed
  then show "rwidth res \<noteq> 0 \<Longrightarrow> rheight res \<noteq> 0 \<Longrightarrow> ?thesis"
    by (simp add: on_surface_def materialize_def)
qed

lemma joystick_offset_axis_less:
  assumes "limit \<noteq> 0" shows "joystick_offset_axis origin delta limit < limit"
proof -
  let ?v = "max 0 (min (uint (limit - 1)) (wrap_i64 (uint origin + delta)))"
  have lt: "limit - 1 < limit"
    using assms by (simp add: word_less_nat_alt unat_sub_if' unat_eq_zero Suc_le_eq zero_less_iff_neq_zero)
  have v: "0 \<le> ?v" "?v \<le> uint (limit - 1)" by simp_all
  then have "uint (of_int ?v :: u32) = ?v"
    using uint_lt2p [of "limit - 1"] by (intro word_of_int_inverse [OF refl]) simp_all
  then have "joystick_offset_axis origin delta limit \<le> limit - 1"
    using v by (simp add: joystick_offset_axis_def word_le_def)
  with lt show ?thesis by simp
qed

text \<open>C37. A joystick of the profile is always configurable on a surface that is not empty: its centre is
  on the surface and its dead zone inside its radius, whatever the numbers of the profile are.\<close>

theorem from_profile_v2_geometry_total:
  "case from_profile_v2_geometry c center r d res of
     Inr j \<Rightarrow> rwidth res \<noteq> 0 \<and> rheight res \<noteq> 0 \<and> joystick_ok j \<and> vj_contact_id j = c \<and> vj_resolution j = res
   | Inl err \<Rightarrow> (rwidth res = 0 \<or> rheight res = 0) \<and> err = JoystickInvalidResolution (rwidth res) (rheight res)"
proof -
  have geo: "materialize_radius r res \<noteq> 0"
    "materialize_dead_zone d (materialize_radius r res) res < materialize_radius r res"
    using joystick_geometry(1) [of r res] joystick_geometry(2) [of d r res] by auto
  show ?thesis
  proof (cases "rwidth res = 0 \<or> rheight res = 0")
    case True
    with geo show ?thesis
      by (auto simp: from_profile_v2_geometry_def Let_def new_with_dead_zone_def)
  next
    case False
    then have "on_surface res (materialize center res)" by (intro materialize_on_surface) simp_all
    with geo False show ?thesis
      by (auto simp: from_profile_v2_geometry_def Let_def new_with_dead_zone_def joystick_ok_def on_surface_def)
  qed
qed

lemma direction_axis_same [simp]: "direction_axis a a = 0"
  by (cases a) (simp_all add: direction_axis_def)

lemma f_of_i32_0 [simp]: "f_eq (f_of_i32 0) f_zero"
  by (simp add: f_of_i32_def f_of_int_def f_eq_def f_zero_def is_nan_def ord_def mag_def f_neg_bit_def
      mk_f64_def INF_MAG_def)

text \<open>Every target point is on the surface, and opposite directions held together cancel: with up
  and down equal and left and right equal there is no target.\<close>

theorem joystick_target_on_surface:
  assumes "joystick_ok j"
  shows "(case target_analog hypot j a of None \<Rightarrow> True | Some p \<Rightarrow> on_surface (vj_resolution j) p)
    \<and> (case joystick_target hypot j d of None \<Rightarrow> True | Some p \<Rightarrow> on_surface (vj_resolution j) p)
    \<and> joystick_target hypot j \<lparr>di_up = v, di_left = h, di_down = v, di_right = h\<rparr> = None"
proof -
  have "rwidth (vj_resolution j) \<noteq> 0" "rheight (vj_resolution j) \<noteq> 0"
    using assms by (auto simp: joystick_ok_def on_surface_def)
  then have surface: "case target_analog hypot j b of None \<Rightarrow> True | Some p \<Rightarrow> on_surface (vj_resolution j) p" for b
    by (simp add: target_analog_def Let_def on_surface_def joystick_offset_axis_less)
  moreover have "from_directional \<lparr>di_up = v, di_left = h, di_down = v, di_right = h\<rparr> = None"
    by (simp add: from_directional_def horizontal_def vertical_def)
  ultimately show ?thesis by (cases "from_directional d") (simp_all add: joystick_target_def)
qed

definition example_joystick :: virtual_joystick where
  "example_joystick = \<lparr>vj_contact_id = 1, vj_center = \<lparr>px = 300, py = 800\<rparr>, vj_radius = 120, vj_dead_zone = 20,
     vj_resolution = \<lparr>rwidth = 1920, rheight = 1080\<rparr>\<rparr>"

lemma joystick_target_on_surface_witness:
  "case target_analog (\<lambda>x y. f_one) example_joystick \<lparr>ai_x = f_one, ai_y = f_zero\<rparr> of
     None \<Rightarrow> True | Some p \<Rightarrow> on_surface (vj_resolution example_joystick) p"
proof -
  have "joystick_ok example_joystick"
    by (simp add: example_joystick_def joystick_ok_def on_surface_def)
  from joystick_target_on_surface [OF this] show ?thesis by blast
qed

lemma apply_target_cases:
  "case apply_target inject j e target of
     (e', Inr changed) \<Rightarrow> engine_contacts e' = (engine_contacts e)(vj_contact_id j := target)
       \<and> (changed \<longleftrightarrow> engine_contacts e (vj_contact_id j) \<noteq> target)
   | (e', Inl err) \<Rightarrow> engine_contacts e' = engine_contacts e
       \<and> (case err of Injection ie \<Rightarrow> True | InvalidState v \<Rightarrow> False)"
proof -
  let ?c = "vj_contact_id j"
  have keep: "(engine_contacts e)(?c := engine_contacts e ?c) = engine_contacts e" by simp
  consider "engine_contacts e ?c = None" "target = None"
    | p where "engine_contacts e ?c = None" "target = Some p"
    | q where "engine_contacts e ?c = Some q" "target = None"
    | q where "engine_contacts e ?c = Some q" "target = Some q"
    | q p where "engine_contacts e ?c = Some q" "target = Some p" "q \<noteq> p"
    by (cases "engine_contacts e ?c"; cases target) auto
  then show ?thesis
  proof cases
    case 1
    then show ?thesis using keep by (simp add: apply_target_def)
  next
    case 2
    then show ?thesis
      by (auto simp: apply_target_def split: andThen_splits
          dest: begin_contact_Inr engine_op_Inl(1) engine_op_Injection(1))
  next
    case 3
    then show ?thesis
      by (auto simp: apply_target_def split: andThen_splits
          dest: end_contact_Inr engine_op_Inl(3) engine_op_Injection(3))
  next
    case 4
    then show ?thesis using keep by (simp add: apply_target_def)
  next
    case 5
    then show ?thesis
      by (auto simp: apply_target_def split: andThen_splits
          dest: move_contact_Inr engine_op_Inl(2) engine_op_Injection(2))
  qed
qed

text \<open>Applying directions makes the joystick's contact what the directions ask for, and touches no
  other contact: it is down at the target exactly when there is one, and a frame is submitted
  exactly when this is a change. A failure comes from the injector, never from the engine's
  validator, and changes nothing.\<close>

theorem joystick_apply_spec:
  "case joystick_apply hypot inject j e d of
     (e', Inr changed) \<Rightarrow>
       engine_contacts e' = (engine_contacts e)(vj_contact_id j := joystick_target hypot j d)
       \<and> (changed \<longleftrightarrow> engine_contacts e (vj_contact_id j) \<noteq> joystick_target hypot j d)
   | (e', Inl err) \<Rightarrow> engine_contacts e' = engine_contacts e
       \<and> (case err of Injection ie \<Rightarrow> True | InvalidState v \<Rightarrow> False)"
  unfolding joystick_apply_def by (rule apply_target_cases)

lemma cancel_contact_cases:
  "case cancel_contact inject e c of
     (e', Inr changed) \<Rightarrow> engine_contacts e' = (engine_contacts e)(c := None)
       \<and> (changed \<longleftrightarrow> engine_contacts e c \<noteq> None)
   | (e', Inl err) \<Rightarrow> engine_contacts e' = engine_contacts e
       \<and> (case err of Injection ie \<Rightarrow> True | InvalidState v \<Rightarrow> False)"
proof (cases "engine_contacts e c")
  case None
  then show ?thesis by (auto simp: cancel_contact_def)
next
  case (Some p)
  let ?f = "frame_single (touch_event_new c Cancel p)"
  have en: "frame_enabled (engine_contacts e) (frame_events ?f)" using Some by (simp add: frame_enabled_single)
  have "engine_contacts e' = (engine_contacts e)(c := None)" if "submit inject e ?f = (e', Inr u)" for e' u
    using submit_contacts [OF that] by (simp add: event_effect_def touch_event_new_def)
  with Some show ?thesis
    by (auto simp: cancel_contact_def split: andThen_splits
        dest: submit_Inl_state submit_enabled_Inl [OF en])
qed

end
