(* ===== verification/MouseAim.thy ===== *)
theory MouseAim
  imports Joystick
begin

text \<open>
  Mouse aim, \<^verbatim>\<open>wroid-runtime/src/mouse_aim.rs\<close>: scaled mouse motion with its carried remainder, the
  region a touch may move in, the single-contact \<open>MouseAim\<close> and the controller that toggles,
  recenters between two contacts and reaffirms. \<open>Instant\<close>s are durations since the session began,
  passed as the argument \<open>now\<close>.
\<close>

section \<open>Deltas, sensitivity, accumulator\<close>

record mouse_aim_delta =
  ad_dx :: i32
  ad_dy :: i32

definition delta_is_zero :: "mouse_aim_delta \<Rightarrow> bool" where
  "delta_is_zero d \<longleftrightarrow> ad_dx d = 0 \<and> ad_dy d = 0"

record mouse_aim_sensitivity =
  ms_numerator :: u32
  ms_denominator :: u32

datatype mouse_aim_config_error =
    AimInvalidResolution u32 u32
  | InvalidRegion u32 u32 u32 u32 u32 u32
  | OriginOutOfRegion u32 u32 u32 u32 u32 u32
  | InvalidSensitivity u32 u32
  | DuplicateContactId u16
  | InvalidRecenterThreshold u16
  | ZeroReaffirmInterval

definition sensitivity_one_to_one :: mouse_aim_sensitivity where
  "sensitivity_one_to_one = \<lparr>ms_numerator = 1, ms_denominator = 1\<rparr>"

definition sensitivity_new :: "u32 \<Rightarrow> u32 \<Rightarrow> mouse_aim_config_error + mouse_aim_sensitivity" where
  "sensitivity_new n d =
     (if n = 0 \<or> d = 0 then Inl (InvalidSensitivity n d) else Inr \<lparr>ms_numerator = n, ms_denominator = d\<rparr>)"

text \<open>The product of an \<open>i32\<close> and a \<open>u32\<close> is an \<open>i64\<close>.\<close>

definition sensitivity_scale :: "mouse_aim_sensitivity \<Rightarrow> i32 \<Rightarrow> i64" where
  "sensitivity_scale s delta = tdiv (sint delta * uint (ms_numerator s)) (uint (ms_denominator s))"

record scale_accumulator =
  carry_x :: i64
  carry_y :: i64

definition accumulator_default :: scale_accumulator where
  "accumulator_default = \<lparr>carry_x = 0, carry_y = 0\<rparr>"

definition accumulator_step :: "i64 \<Rightarrow> i64 \<Rightarrow> i64 \<Rightarrow> i64 \<Rightarrow> i64 \<times> i64" where
  "accumulator_step carry delta numerator denominator =
     (if denominator = 0 then (carry, 0)
      else let scaled = sat_i64 (sat_i64 (delta * numerator) + carry)
           in (tmod scaled denominator, tdiv scaled denominator))"

definition accumulator_scale ::
  "scale_accumulator \<Rightarrow> mouse_aim_delta \<Rightarrow> i64 \<Rightarrow> i64 \<Rightarrow> scale_accumulator \<times> i64 \<times> i64" where
  "accumulator_scale acc d numerator denominator =
     (let (cx, dx) = accumulator_step (carry_x acc) (sint (ad_dx d)) numerator denominator;
          (cy, dy) = accumulator_step (carry_y acc) (sint (ad_dy d)) numerator denominator
      in (\<lparr>carry_x = cx, carry_y = cy\<rparr>, dx, dy))"

section \<open>The region\<close>

record mouse_aim_region =
  rg_left :: u32
  rg_top :: u32
  rg_right :: u32
  rg_bottom :: u32

definition full_surface :: "resolution \<Rightarrow> mouse_aim_config_error + mouse_aim_region" where
  "full_surface res =
     (if rwidth res = 0 \<or> rheight res = 0 then Inl (AimInvalidResolution (rwidth res) (rheight res))
      else Inr \<lparr>rg_left = 0, rg_top = 0, rg_right = rwidth res - 1, rg_bottom = rheight res - 1\<rparr>)"

definition region_validate :: "mouse_aim_region \<Rightarrow> resolution \<Rightarrow> mouse_aim_config_error + mouse_aim_region" where
  "region_validate g res =
     (if rwidth res = 0 \<or> rheight res = 0 then Inl (AimInvalidResolution (rwidth res) (rheight res))
      else if rg_right g < rg_left g \<or> rg_bottom g < rg_top g
              \<or> rwidth res \<le> rg_right g \<or> rheight res \<le> rg_bottom g
        then Inl (InvalidRegion (rg_left g) (rg_top g) (rg_right g) (rg_bottom g) (rwidth res) (rheight res))
      else Inr g)"

definition region_contains :: "mouse_aim_region \<Rightarrow> point \<Rightarrow> bool" where
  "region_contains g p \<longleftrightarrow>
     rg_left g \<le> px p \<and> px p \<le> rg_right g \<and> rg_top g \<le> py p \<and> py p \<le> rg_bottom g"

definition region_clamp :: "mouse_aim_region \<Rightarrow> point \<Rightarrow> point" where
  "region_clamp g p =
     \<lparr>px = max (rg_left g) (min (rg_right g) (px p)), py = max (rg_top g) (min (rg_bottom g) (py p))\<rparr>"

definition aim_offset_axis :: "u32 \<Rightarrow> i64 \<Rightarrow> u32" where
  "aim_offset_axis v delta =
     (let value = wrap_i64 (uint v + delta)
      in if value \<le> 0 then 0 else if uint (- 1 :: u32) \<le> value then - 1 else of_int value)"

definition offset_point :: "point \<Rightarrow> i64 \<Rightarrow> i64 \<Rightarrow> point" where
  "offset_point p dx dy = \<lparr>px = aim_offset_axis (px p) dx, py = aim_offset_axis (py p) dy\<rparr>"

section \<open>The single-contact aim\<close>

record mouse_aim =
  ma_contact_id :: contact_id
  ma_origin :: point
  ma_region :: mouse_aim_region
  ma_sensitivity :: mouse_aim_sensitivity

definition mouse_aim_new ::
  "contact_id \<Rightarrow> point \<Rightarrow> mouse_aim_region \<Rightarrow> resolution \<Rightarrow> mouse_aim_sensitivity
     \<Rightarrow> mouse_aim_config_error + mouse_aim" where
  "mouse_aim_new c origin region res sens =
     (case region_validate region res of
        Inl err \<Rightarrow> Inl err
      | Inr g \<Rightarrow>
          if \<not> region_contains g origin
          then Inl (OriginOutOfRegion (px origin) (py origin) (rg_left g) (rg_top g) (rg_right g) (rg_bottom g))
          else Inr \<lparr>ma_contact_id = c, ma_origin = origin, ma_region = g, ma_sensitivity = sens\<rparr>)"

definition aim_begin :: "('i, 'e) inject_fn \<Rightarrow> mouse_aim \<Rightarrow> 'i touch_engine \<Rightarrow> ('i, 'e, bool) engine_st" where
  "aim_begin inject a e =
     (if is_active (engine_state e) (ma_contact_id a) then (e, Inr False)
      else andThen (begin_contact inject e (ma_contact_id a) (ma_origin a)) (\<lambda>e' _. (e', Inr True)))"

definition aim_move_by ::
  "('i, 'e) inject_fn \<Rightarrow> mouse_aim \<Rightarrow> 'i touch_engine \<Rightarrow> mouse_aim_delta \<Rightarrow> ('i, 'e, bool) engine_st" where
  "aim_move_by inject a e d =
     (if delta_is_zero d then (e, Inr False)
      else case contact_position (engine_state e) (ma_contact_id a) of
        None \<Rightarrow> (e, Inr False)
      | Some current \<Rightarrow>
          let target = region_clamp (ma_region a)
                (offset_point current (sensitivity_scale (ma_sensitivity a) (ad_dx d))
                   (sensitivity_scale (ma_sensitivity a) (ad_dy d)))
          in if target = current then (e, Inr False)
             else andThen (move_contact inject e (ma_contact_id a) target) (\<lambda>e' _. (e', Inr True)))"

definition aim_end :: "('i, 'e) inject_fn \<Rightarrow> mouse_aim \<Rightarrow> 'i touch_engine \<Rightarrow> ('i, 'e, bool) engine_st" where
  "aim_end inject a e =
     (if \<not> is_active (engine_state e) (ma_contact_id a) then (e, Inr False)
      else andThen (end_contact inject e (ma_contact_id a)) (\<lambda>e' _. (e', Inr True)))"

definition aim_cancel :: "('i, 'e) inject_fn \<Rightarrow> mouse_aim \<Rightarrow> 'i touch_engine \<Rightarrow> ('i, 'e, bool) engine_st" where
  "aim_cancel inject a e = cancel_contact inject e (ma_contact_id a)"

section \<open>The controller\<close>

record mouse_aim_settings =
  st_alternate :: contact_id
  st_toggle_key :: "string option"
  st_threshold_milli :: u16
  st_gap :: duration
  st_ads :: "mouse_aim_sensitivity option"
  st_reaffirm :: "duration option"

definition settings_default :: mouse_aim_settings where
  "settings_default = \<lparr>st_alternate = 2, st_toggle_key = None, st_threshold_milli = 700, st_gap = 0,
     st_ads = None, st_reaffirm = None\<rparr>"

datatype mouse_aim_update = Ignored | Activated | Moved | Recentered | Deactivated | Reaffirmed

record pending_recenter =
  pr_contact :: contact_id
  pr_previous :: contact_id
  pr_ready_at :: duration
  pr_dx :: i64
  pr_dy :: i64

record mouse_aim_controller =
  mc_aim :: mouse_aim
  mc_settings :: mouse_aim_settings
  mc_active :: "contact_id option"
  mc_next :: contact_id
  mc_pending :: "pending_recenter option"
  mc_ads_active :: bool
  mc_recenter_count :: u64
  mc_last_reaffirm :: "duration option"
  mc_accumulator :: scale_accumulator

type_synonym ('i, 'e, 'a) aim_st =
  "(mouse_aim_controller \<times> 'i touch_engine, 'e touch_engine_error, 'a) st"

definition controller_new ::
  "mouse_aim \<Rightarrow> mouse_aim_settings \<Rightarrow> mouse_aim_config_error + mouse_aim_controller" where
  "controller_new a s =
     (if st_alternate s = ma_contact_id a then Inl (DuplicateContactId (ma_contact_id a))
      else if \<not> (100 \<le> st_threshold_milli s \<and> st_threshold_milli s \<le> 1000)
        then Inl (InvalidRecenterThreshold (st_threshold_milli s))
      else if st_reaffirm s = Some 0 then Inl ZeroReaffirmInterval
      else Inr \<lparr>mc_aim = a, mc_settings = s, mc_active = None, mc_next = st_alternate s, mc_pending = None,
                mc_ads_active = False, mc_recenter_count = 0, mc_last_reaffirm = None,
                mc_accumulator = accumulator_default\<rparr>)"

definition controller_is_active :: "mouse_aim_controller \<Rightarrow> bool" where
  "controller_is_active c \<longleftrightarrow> mc_active c \<noteq> None \<or> mc_pending c \<noteq> None"

definition activate ::
  "('i, 'e) inject_fn \<Rightarrow> mouse_aim_controller \<times> 'i touch_engine \<Rightarrow> duration
     \<Rightarrow> ('i, 'e, mouse_aim_update) aim_st" where
  "activate inject = (\<lambda>(c, e) now.
     if controller_is_active c then ((c, e), Inr Ignored)
     else let k = ma_contact_id (mc_aim c)
          in case begin_contact inject e k (ma_origin (mc_aim c)) of
               (e', Inl err) \<Rightarrow> ((c, e'), Inl err)
             | (e', Inr _) \<Rightarrow>
                 ((c\<lparr>mc_active := Some k, mc_next := st_alternate (mc_settings c),
                     mc_last_reaffirm := Some now\<rparr>, e'), Inr Activated))"

definition set_ads_active :: "bool \<Rightarrow> mouse_aim_controller \<Rightarrow> mouse_aim_controller" where
  "set_ads_active active c =
     (if mc_ads_active c \<noteq> active then c\<lparr>mc_accumulator := accumulator_default, mc_ads_active := active\<rparr>
      else c\<lparr>mc_ads_active := active\<rparr>)"

definition scaled_delta :: "mouse_aim_controller \<Rightarrow> mouse_aim_delta \<Rightarrow> mouse_aim_controller \<times> i64 \<times> i64" where
  "scaled_delta c d =
     (let sens = ma_sensitivity (mc_aim c);
          numerator = uint (ms_numerator sens); denominator = uint (ms_denominator sens);
          (n, m) = (case (mc_ads_active c, st_ads (mc_settings c)) of
                      (True, Some ads) \<Rightarrow>
                        (sat_i64 (numerator * uint (ms_numerator ads)),
                         sat_i64 (denominator * uint (ms_denominator ads)))
                    | _ \<Rightarrow> (numerator, denominator));
          (acc, dx, dy) = accumulator_scale (mc_accumulator c) d n m
      in (c\<lparr>mc_accumulator := acc\<rparr>, dx, dy))"

definition past_recenter_threshold :: "mouse_aim_controller \<Rightarrow> point \<Rightarrow> bool" where
  "past_recenter_threshold c target =
     (let g = ma_region (mc_aim c); origin = ma_origin (mc_aim c);
          half_width = (rg_right g - rg_left g) div 2;
          half_height = (rg_bottom g - rg_top g) div 2;
          radius = min (unat (min half_width half_height) * unat (st_threshold_milli (mc_settings c)))
                       (2 ^ 64 - 1) div 1000;
          dx = uint (px target) - uint (px origin);
          dy = uint (py target) - uint (py origin);
          distance_squared = sat_i64 (sat_i64 (dx * dx) + sat_i64 (dy * dy))
      in int (min (radius * radius) (2 ^ 64 - 1)) < distance_squared)"

definition apply_residual ::
  "('i, 'e) inject_fn \<Rightarrow> mouse_aim_controller \<Rightarrow> 'i touch_engine \<Rightarrow> contact_id \<Rightarrow> i64 \<Rightarrow> i64
     \<Rightarrow> ('i, 'e, unit) engine_st" where
  "apply_residual inject c e k dx dy =
     (let target = region_clamp (ma_region (mc_aim c)) (offset_point (ma_origin (mc_aim c)) dx dy)
      in if target \<noteq> ma_origin (mc_aim c) then move_contact inject e k target else (e, Inr ()))"

definition recenter ::
  "('i, 'e) inject_fn \<Rightarrow> mouse_aim_controller \<times> 'i touch_engine \<Rightarrow> contact_id \<Rightarrow> point \<Rightarrow> i64 \<Rightarrow> i64
     \<Rightarrow> duration \<Rightarrow> ('i, 'e, mouse_aim_update) aim_st" where
  "recenter inject = (\<lambda>(c, e) old old_position dx dy now.
     let new = mc_next c
     in if st_gap (mc_settings c) = 0 then
          (case submit inject e
                  (frame_new [touch_event_new new Down (ma_origin (mc_aim c)),
                              touch_event_new old Up old_position]) of
             (e', Inl err) \<Rightarrow> ((c, e'), Inl err)
           | (e', Inr _) \<Rightarrow>
               let c' = c\<lparr>mc_active := Some new, mc_next := old, mc_last_reaffirm := Some now\<rparr>
               in (case apply_residual inject c' e' new dx dy of
                     (e'', Inl err) \<Rightarrow> ((c', e''), Inl err)
                   | (e'', Inr _) \<Rightarrow>
                       ((c'\<lparr>mc_recenter_count := usat_add (mc_recenter_count c') 1\<rparr>, e''), Inr Recentered)))
        else
          (case end_contact inject e old of
             (e', Inl err) \<Rightarrow> ((c, e'), Inl err)
           | (e', Inr _) \<Rightarrow>
               ((c\<lparr>mc_active := None,
                   mc_pending := Some \<lparr>pr_contact = new, pr_previous = old,
                     pr_ready_at = dur_add now (st_gap (mc_settings c)), pr_dx = dx, pr_dy = dy\<rparr>,
                   mc_recenter_count := usat_add (mc_recenter_count c) 1\<rparr>, e'), Inr Recentered)))"

definition aim_tick ::
  "('i, 'e) inject_fn \<Rightarrow> mouse_aim_controller \<times> 'i touch_engine \<Rightarrow> duration
     \<Rightarrow> ('i, 'e, mouse_aim_update) aim_st" where
  "aim_tick inject = (\<lambda>(c, e) now.
     case mc_pending c of
       Some pending \<Rightarrow>
         if now < pr_ready_at pending then ((c, e), Inr Ignored)
         else (case begin_contact inject e (pr_contact pending) (ma_origin (mc_aim c)) of
                 (e', Inl err) \<Rightarrow> ((c, e'), Inl err)
               | (e', Inr _) \<Rightarrow>
                   let c' = c\<lparr>mc_active := Some (pr_contact pending), mc_next := pr_previous pending,
                              mc_pending := None, mc_last_reaffirm := Some now\<rparr>
                   in (case apply_residual inject c' e' (pr_contact pending) (pr_dx pending) (pr_dy pending) of
                         (e'', Inl err) \<Rightarrow> ((c', e''), Inl err)
                       | (e'', Inr _) \<Rightarrow> ((c', e''), Inr Recentered)))
     | None \<Rightarrow>
         (case (st_reaffirm (mc_settings c), mc_active c) of
            (Some interval, Some k) \<Rightarrow>
              if (case mc_last_reaffirm c of Some earlier \<Rightarrow> now - earlier < interval | None \<Rightarrow> False)
              then ((c, e), Inr Ignored)
              else (case contact_position (engine_state e) k of
                      None \<Rightarrow> ((c, e), Inr Ignored)
                    | Some p \<Rightarrow>
                        (case move_contact inject e k p of
                           (e', Inl err) \<Rightarrow> ((c, e'), Inl err)
                         | (e', Inr _) \<Rightarrow> ((c\<lparr>mc_last_reaffirm := Some now\<rparr>, e'), Inr Reaffirmed)))
          | _ \<Rightarrow> ((c, e), Inr Ignored)))"

definition controller_move_by ::
  "('i, 'e) inject_fn \<Rightarrow> mouse_aim_controller \<times> 'i touch_engine \<Rightarrow> mouse_aim_delta \<Rightarrow> duration
     \<Rightarrow> ('i, 'e, mouse_aim_update) aim_st" where
  "controller_move_by inject = (\<lambda>(c, e) d now.
     if delta_is_zero d \<or> \<not> controller_is_active c then ((c, e), Inr Ignored)
     else let (c1, dx, dy) = scaled_delta c d
          in case mc_pending c1 of
               Some pending \<Rightarrow>
                 aim_tick inject
                   (c1\<lparr>mc_pending := Some (pending\<lparr>pr_dx := sat_i64 (pr_dx pending + dx),
                                                    pr_dy := sat_i64 (pr_dy pending + dy)\<rparr>)\<rparr>, e) now
             | None \<Rightarrow>
                 (case mc_active c1 of
                    None \<Rightarrow> ((c1, e), Inr Ignored)
                  | Some k \<Rightarrow>
                      (case contact_position (engine_state e) k of
                         None \<Rightarrow> ((c1, e), Inr Ignored)
                       | Some current \<Rightarrow>
                           let target = region_clamp (ma_region (mc_aim c1)) (offset_point current dx dy)
                           in if target = current then ((c1, e), Inr Ignored)
                              else if past_recenter_threshold c1 target
                                then recenter inject (c1, e) k current dx dy now
                              else (case move_contact inject e k target of
                                      (e', Inl err) \<Rightarrow> ((c1, e'), Inl err)
                                    | (e', Inr _) \<Rightarrow> ((c1\<lparr>mc_last_reaffirm := Some now\<rparr>, e'), Inr Moved)))))"

text \<open>Both ways to stop take the contact before they ask the engine to release it.\<close>

definition aim_reset :: "mouse_aim_controller \<Rightarrow> mouse_aim_controller" where
  "aim_reset c = c\<lparr>mc_ads_active := False, mc_last_reaffirm := None, mc_accumulator := accumulator_default\<rparr>"

definition deactivate ::
  "('i, 'e) inject_fn \<Rightarrow> mouse_aim_controller \<times> 'i touch_engine \<Rightarrow> ('i, 'e, mouse_aim_update) aim_st" where
  "deactivate inject = (\<lambda>(c, e).
     let c1 = c\<lparr>mc_active := None\<rparr>;
         released = (case mc_active c of
             Some k \<Rightarrow> if is_active (engine_state e) k
                        then andThen (end_contact inject e k) (\<lambda>e' _. (e', Inr True)) else (e, Inr False)
           | None \<Rightarrow> (e, Inr False))
     in case released of
          (e', Inl err) \<Rightarrow> ((c1, e'), Inl err)
        | (e', Inr ended) \<Rightarrow>
            ((aim_reset (c1\<lparr>mc_pending := None\<rparr>), e'),
             Inr (if ended \<or> mc_pending c1 \<noteq> None then Deactivated else Ignored)))"

definition controller_cancel ::
  "('i, 'e) inject_fn \<Rightarrow> mouse_aim_controller \<times> 'i touch_engine \<Rightarrow> ('i, 'e, bool) aim_st" where
  "controller_cancel inject = (\<lambda>(c, e).
     let c1 = c\<lparr>mc_pending := None, mc_active := None\<rparr>;
         released = (case mc_active c of Some k \<Rightarrow> cancel_contact inject e k | None \<Rightarrow> (e, Inr False))
     in case released of
          (e', Inl err) \<Rightarrow> ((c1, e'), Inl err)
        | (e', Inr ended) \<Rightarrow> ((aim_reset c1, e'), Inr (mc_pending c \<noteq> None \<or> ended)))"

definition aim_toggle ::
  "('i, 'e) inject_fn \<Rightarrow> mouse_aim_controller \<times> 'i touch_engine \<Rightarrow> duration
     \<Rightarrow> ('i, 'e, mouse_aim_update) aim_st" where
  "aim_toggle inject = (\<lambda>(c, e) now.
     if controller_is_active c then deactivate inject (c, e) else activate inject (c, e) now)"

section \<open>Total travel\<close>

text \<open>One axis over a sequence of deltas: the carry, and the sum of what was moved.\<close>

fun travel :: "i64 \<Rightarrow> i64 \<Rightarrow> i64 list \<Rightarrow> i64 \<Rightarrow> i64 \<times> int" where
  "travel n d [] carry = (carry, 0)"
| "travel n d (x # xs) carry =
     (let (c, moved) = accumulator_step carry x n d; (c', rest) = travel n d xs c in (c', moved + rest))"

definition step_fits :: "i64 \<Rightarrow> i64 \<Rightarrow> i64 \<Rightarrow> bool" where
  "step_fits n d x \<longleftrightarrow> \<bar>x * n\<bar> + d \<le> I64_MAX"

lemma accumulator_step_exact:
  assumes "0 < d" "step_fits n d x" "\<bar>carry\<bar> < d"
  shows "snd (accumulator_step carry x n d) * d + fst (accumulator_step carry x n d) = x * n + carry"
    and "\<bar>fst (accumulator_step carry x n d)\<bar> < d"
proof -
  have "in_i64 (x * n)" "in_i64 (x * n + carry)"
    using assms by (auto simp: step_fits_def i64_defs abs_le_iff abs_less_iff)
  then have step: "accumulator_step carry x n d = (tmod (x * n + carry) d, tdiv (x * n + carry) d)"
    using assms(1) by (simp add: accumulator_step_def Let_def)
  show "snd (accumulator_step carry x n d) * d + fst (accumulator_step carry x n d) = x * n + carry"
    unfolding step by (simp add: tdiv_mult_tmod)
  show "\<bar>fst (accumulator_step carry x n d)\<bar> < d"
    unfolding step using tmod_bound [of d "x * n + carry"] assms(1) by simp
qed

text \<open>No motion is lost to rounding: over any sequence of deltas the pixels moved, times the
  denominator, and the carry that is left add up to the sum of the deltas times the numerator; so
  the total travel is within one pixel of the exact product.\<close>

theorem travel_exact:
  assumes d: "0 < d" and fits: "\<forall>x \<in> set xs. step_fits n d x" and c0: "\<bar>carry\<bar> < d"
  shows "snd (travel n d xs carry) * d + fst (travel n d xs carry) = sum_list xs * n + carry
    \<and> \<bar>fst (travel n d xs carry)\<bar> < d"
  using fits c0
proof (induction xs arbitrary: carry)
  case (Cons x xs)
  note step = accumulator_step_exact [OF d, of n x carry]
  let ?s = "accumulator_step carry x n d" and ?t = "travel n d xs (fst (accumulator_step carry x n d))"
  have "step_fits n d x" using Cons.prems(1) by simp
  note step = accumulator_step_exact [OF d this Cons.prems(2)]
  have "snd ?t * d + fst ?t = sum_list xs * n + fst ?s" "\<bar>fst ?t\<bar> < d"
    using Cons.IH [OF _ step(2)] Cons.prems(1) by simp_all
  moreover have "travel n d (x # xs) carry = (fst ?t, snd ?s + snd ?t)"
    by (simp add: Let_def split_beta)
  ultimately show ?case using step(1) by (simp add: algebra_simps)
qed simp

lemma travel_exact_witness:
  "snd (travel 300 1000 [1, 1, 1, 2, -1] 0) * 1000 + fst (travel 300 1000 [1, 1, 1, 2, -1] 0) = 1200"
  using travel_exact [of 1000 "[1, 1, 1, 2, -1]" 300 0] by (simp add: step_fits_def I64_MAX_def)

section \<open>The controller owns its two contacts\<close>

definition aim_ids :: "mouse_aim_controller \<Rightarrow> contact_id set" where
  "aim_ids c = {ma_contact_id (mc_aim c), st_alternate (mc_settings c)}"

definition region_ok :: "mouse_aim_region \<Rightarrow> bool" where
  "region_ok g \<longleftrightarrow> rg_left g \<le> rg_right g \<and> rg_top g \<le> rg_bottom g"

definition aim_config_ok :: "mouse_aim_controller \<Rightarrow> bool" where
  "aim_config_ok c \<longleftrightarrow> ma_contact_id (mc_aim c) \<noteq> st_alternate (mc_settings c)
     \<and> region_ok (ma_region (mc_aim c)) \<and> region_contains (ma_region (mc_aim c)) (ma_origin (mc_aim c))"

definition aim_phase_ok :: "mouse_aim_controller \<Rightarrow> (contact_id \<rightharpoonup> point) \<Rightarrow> bool" where
  "aim_phase_ok c m =
     (case (mc_active c, mc_pending c) of
        (Some k, None) \<Rightarrow> {k, mc_next c} = aim_ids c \<and> m (mc_next c) = None
          \<and> (case m k of Some p \<Rightarrow> region_contains (ma_region (mc_aim c)) p | None \<Rightarrow> False)
      | (None, Some q) \<Rightarrow> {pr_contact q, pr_previous q} = aim_ids c \<and> (\<forall>k \<in> aim_ids c. m k = None)
      | (None, None) \<Rightarrow> (\<forall>k \<in> aim_ids c. m k = None)
      | (Some _, Some _) \<Rightarrow> False)"

definition aim_inv :: "mouse_aim_controller \<Rightarrow> (contact_id \<rightharpoonup> point) \<Rightarrow> bool" where
  "aim_inv c m \<longleftrightarrow> aim_config_ok c \<and> aim_phase_ok c m"

definition aim_frame ::
  "mouse_aim_controller \<Rightarrow> (contact_id \<rightharpoonup> point) \<Rightarrow> mouse_aim_controller \<Rightarrow> (contact_id \<rightharpoonup> point) \<Rightarrow> bool" where
  "aim_frame c m c' m' \<longleftrightarrow> mc_aim c' = mc_aim c \<and> mc_settings c' = mc_settings c
     \<and> (\<forall>k. k \<notin> aim_ids c \<longrightarrow> m' k = m k)"

lemma aim_frame_refl [simp]: "aim_frame c m c m"
  by (simp add: aim_frame_def)

lemma aim_frame_trans: "aim_frame c m c' m' \<Longrightarrow> aim_frame c' m' c'' m'' \<Longrightarrow> aim_frame c m c'' m''"
  by (simp add: aim_frame_def aim_ids_def)

definition only_injection :: "'e touch_engine_error \<Rightarrow> bool" where
  "only_injection err = (case err of Injection ie \<Rightarrow> True | InvalidState v \<Rightarrow> False)"

lemma only_injection_simps [simp]: "only_injection (Injection ie)" "\<not> only_injection (InvalidState v)"
  by (simp_all add: only_injection_def)

lemma engine_op_only_injection:
  "begin_contact inject e c p = (e', Inl err) \<Longrightarrow> engine_contacts e c = None \<Longrightarrow> only_injection err"
  "move_contact inject e c p = (e', Inl err) \<Longrightarrow> engine_contacts e c \<noteq> None \<Longrightarrow> only_injection err"
  "end_contact inject e c = (e', Inl err) \<Longrightarrow> engine_contacts e c \<noteq> None \<Longrightarrow> only_injection err"
  using engine_op_Injection [of inject e c] by (metis only_injection_simps(1))+

lemma region_clamp_contains: "region_ok g \<Longrightarrow> region_contains g (region_clamp g p)"
  by (auto simp: region_ok_def region_contains_def region_clamp_def max_def min_def)

lemma aim_phase_active:
  "mc_active c = Some k \<Longrightarrow> aim_phase_ok c m \<longleftrightarrow> mc_pending c = None \<and> {k, mc_next c} = aim_ids c
     \<and> m (mc_next c) = None \<and> (\<exists>p. m k = Some p \<and> region_contains (ma_region (mc_aim c)) p)"
  by (auto simp: aim_phase_ok_def split: option.splits)

lemma aim_phase_inactive:
  "mc_active c = None \<Longrightarrow> aim_phase_ok c m \<longleftrightarrow> (\<forall>k \<in> aim_ids c. m k = None)
     \<and> (case mc_pending c of Some q \<Rightarrow> {pr_contact q, pr_previous q} = aim_ids c | None \<Rightarrow> True)"
  by (auto simp: aim_phase_ok_def split: option.splits)

text \<open>Soundness reads the configuration, the phase and the next contact only.\<close>

lemma aim_inv_cong:
  assumes "mc_aim c' = mc_aim c" "mc_settings c' = mc_settings c" "mc_active c' = mc_active c"
    "mc_next c' = mc_next c" "mc_pending c' = mc_pending c"
  shows "aim_inv c' m = aim_inv c m"
  unfolding aim_inv_def aim_config_ok_def aim_phase_ok_def aim_ids_def assms ..

text \<open>What an operation from a sound state may return: it keeps the state sound, touches no other
  contact, and can fail in the injector only. A release that fails has forgotten its contact, so
  soundness is promised on success only.\<close>

definition aim_keeps ::
  "mouse_aim_controller \<times> 'i touch_engine \<Rightarrow> ('i, 'e, 'a) aim_st \<Rightarrow> bool" where
  "aim_keeps s r = (case (s, r) of ((c, e), ((c', e'), res)) \<Rightarrow>
     aim_frame c (engine_contacts e) c' (engine_contacts e')
     \<and> (case res of Inl err \<Rightarrow> only_injection err | Inr _ \<Rightarrow> True)
     \<and> aim_inv c' (engine_contacts e'))"

definition aim_releases ::
  "mouse_aim_controller \<times> 'i touch_engine \<Rightarrow> ('i, 'e, 'a) aim_st \<Rightarrow> bool" where
  "aim_releases s r = (case (s, r) of ((c, e), ((c', e'), res)) \<Rightarrow>
     aim_frame c (engine_contacts e) c' (engine_contacts e')
     \<and> (case res of Inl err \<Rightarrow> only_injection err
        | Inr _ \<Rightarrow> aim_inv c' (engine_contacts e') \<and> \<not> controller_is_active c'
            \<and> (\<forall>k \<in> aim_ids c. engine_contacts e' k = None)))"

lemma activate_keeps:
  assumes "aim_inv c (engine_contacts e)" shows "aim_keeps (c, e) (activate inject (c, e) now)"
proof (cases "controller_is_active c")
  case True
  with assms show ?thesis by (simp add: activate_def aim_keeps_def)
next
  case False
  let ?k = "ma_contact_id (mc_aim c)"
  have act: "mc_active c = None" "mc_pending c = None" using False by (simp_all add: controller_is_active_def)
  have none: "engine_contacts e k = None" if "k \<in> aim_ids c" for k
    using assms act that by (simp add: aim_inv_def aim_phase_inactive)
  have cfg: "aim_config_ok c" using assms by (simp add: aim_inv_def)
  obtain e' r where r: "begin_contact inject e ?k (ma_origin (mc_aim c)) = (e', r)" by fastforce
  show ?thesis
  proof (cases r)
    case (Inl err)
    have "only_injection err" using engine_op_only_injection(1) [OF r [unfolded Inl]] none by (simp add: aim_ids_def)
    with Inl r False assms show ?thesis
      by (simp add: activate_def aim_keeps_def Let_def engine_op_Inl(1) [OF r [unfolded Inl]])
  next
    case (Inr u)
    have "engine_contacts e' = (engine_contacts e)(?k \<mapsto> ma_origin (mc_aim c))"
      using begin_contact_Inr [OF r [unfolded Inr]] by simp
    with Inr r False act cfg none show ?thesis
      by (auto simp: activate_def aim_keeps_def Let_def aim_inv_def aim_phase_active aim_frame_def aim_ids_def
          aim_config_ok_def)
  qed
qed

lemma apply_residual_keeps:
  assumes r: "apply_residual inject c e k dx dy = (e', res)"
    and at: "engine_contacts e k = Some (ma_origin (mc_aim c))"
  shows "case res of
      Inl err \<Rightarrow> engine_contacts e' = engine_contacts e \<and> only_injection err
    | Inr _ \<Rightarrow> engine_contacts e' = (engine_contacts e)
        (k \<mapsto> region_clamp (ma_region (mc_aim c)) (offset_point (ma_origin (mc_aim c)) dx dy))"
proof (cases "region_clamp (ma_region (mc_aim c)) (offset_point (ma_origin (mc_aim c)) dx dy) = ma_origin (mc_aim c)")
  case True
  then have "e' = e" "res = Inr ()" using r by (simp_all add: apply_residual_def)
  with True at show ?thesis by (simp add: fun_upd_idem)
next
  case False
  then have "move_contact inject e k (region_clamp (ma_region (mc_aim c)) (offset_point (ma_origin (mc_aim c)) dx dy))
      = (e', res)"
    using r by (simp add: apply_residual_def Let_def)
  then show ?thesis using at
    by (cases res) (auto dest: move_contact_Inr engine_op_Inl(2) engine_op_only_injection(2))
qed

lemma recenter_frame_cases:
  assumes r: "submit inject e (frame_new [touch_event_new new Down p, touch_event_new old Up q]) = (e', res)"
    and ids: "new \<noteq> old" "engine_contacts e new = None" "engine_contacts e old \<noteq> None"
  shows "case res of Inl err \<Rightarrow> engine_contacts e' = engine_contacts e \<and> only_injection err
    | Inr _ \<Rightarrow> engine_contacts e' = (engine_contacts e)(new \<mapsto> p, old := None)"
proof (cases res)
  case (Inl err)
  have "frame_enabled (engine_contacts e)
      (frame_events (frame_new [touch_event_new new Down p, touch_event_new old Up q]))"
    using ids by (auto simp: frame_new_events frame_enabled_def event_enabled_def touch_event_new_def)
  from submit_enabled_Inl [OF this r [unfolded Inl]] submit_Inl_state [OF r [unfolded Inl]] Inl
  show ?thesis by auto
next
  case (Inr u)
  from submit_contacts [OF r [unfolded Inr]] Inr show ?thesis
    by (simp add: frame_new_events frame_effect_def event_effect_def touch_event_new_def)
qed

text \<open>The residual motion after a recenter leaves the new contact in the region.\<close>

lemma residual_sound:
  assumes cfg: "aim_config_ok c" and act: "mc_active c = Some k" "mc_pending c = None"
    and ids: "{k, mc_next c} = aim_ids c" and m: "engine_contacts e k = Some (ma_origin (mc_aim c))"
      "engine_contacts e (mc_next c) = None"
    and r: "apply_residual inject c e k dx dy = (e', res)"
  shows "aim_inv c (engine_contacts e')" "aim_frame c (engine_contacts e) c (engine_contacts e')"
    "case res of Inl err \<Rightarrow> only_injection err | Inr _ \<Rightarrow> True"
proof -
  have ne: "mc_next c \<noteq> k" using m by auto
  have k: "k \<in> aim_ids c" using ids by blast
  note res = apply_residual_keeps [OF r m(1)]
  have "\<exists>p. engine_contacts e' k = Some p \<and> region_contains (ma_region (mc_aim c)) p"
    "engine_contacts e' (mc_next c) = None" "\<forall>j. j \<noteq> k \<longrightarrow> engine_contacts e' j = engine_contacts e j"
    using res m cfg ne region_clamp_contains [of "ma_region (mc_aim c)"]
    by (cases res; simp add: aim_config_ok_def)+
  then show "aim_inv c (engine_contacts e')" "aim_frame c (engine_contacts e) c (engine_contacts e')"
    using cfg act ids k by (auto simp: aim_inv_def aim_phase_active aim_frame_def)
  show "case res of Inl err \<Rightarrow> only_injection err | Inr _ \<Rightarrow> True"
    using res by (cases res) auto
qed

lemma recenter_keeps:
  assumes inv: "aim_inv c (engine_contacts e)" and act: "mc_active c = Some k" 
  shows "aim_keeps (c, e) (recenter inject (c, e) k p dx dy now)"
proof -
  have cfg: "aim_config_ok c" using inv by (simp add: aim_inv_def)
  have pend: "mc_pending c = None" and ids: "{k, mc_next c} = aim_ids c"
    and nxt: "engine_contacts e (mc_next c) = None" and cur: "engine_contacts e k \<noteq> None"
    using inv act by (auto simp: aim_inv_def aim_phase_active)
  have ne: "mc_next c \<noteq> k" using nxt cur by auto
  have idsk: "k \<in> aim_ids c" "mc_next c \<in> aim_ids c" using ids by blast+
  show ?thesis
  proof (cases "st_gap (mc_settings c) = 0")
    case True
    let ?f = "frame_new [touch_event_new (mc_next c) Down (ma_origin (mc_aim c)), touch_event_new k Up p]"
    obtain e' r where r: "submit inject e ?f = (e', r)" by fastforce
    note fr = recenter_frame_cases [OF r ne nxt cur]
    show ?thesis
    proof (cases r)
      case (Inl err)
      with fr r True inv show ?thesis by (simp add: recenter_def aim_keeps_def Let_def)
    next
      case (Inr u)
      let ?c = "c\<lparr>mc_active := Some (mc_next c), mc_next := k, mc_last_reaffirm := Some now\<rparr>"
      obtain e'' r' where r': "apply_residual inject ?c e' (mc_next c) dx dy = (e'', r')" by fastforce
      have m: "engine_contacts e' = (engine_contacts e)(mc_next c \<mapsto> ma_origin (mc_aim c), k := None)"
        using fr Inr by simp
      have "aim_config_ok ?c" "{mc_next c, mc_next ?c} = aim_ids ?c"
        using cfg ids by (auto simp: aim_config_ok_def aim_ids_def)
      note res = residual_sound [OF this(1) _ _ this(2) _ _ r']
      have s: "aim_inv ?c (engine_contacts e'')" "aim_frame ?c (engine_contacts e') ?c (engine_contacts e'')"
        "case r' of Inl err \<Rightarrow> only_injection err | Inr _ \<Rightarrow> True"
        using res pend m ne by simp_all
      have "aim_frame c (engine_contacts e) ?c (engine_contacts e')"
        using idsk m by (auto simp: aim_frame_def)
      then have fr': "aim_frame c (engine_contacts e) ?c (engine_contacts e'')"
        using s(2) aim_frame_trans by blast
      have "aim_inv (?c\<lparr>mc_recenter_count := n\<rparr>) (engine_contacts e'')" 
        "aim_frame c (engine_contacts e) (?c\<lparr>mc_recenter_count := n\<rparr>) (engine_contacts e'')" for n
        using s(1) fr' aim_inv_cong [of "?c\<lparr>mc_recenter_count := n\<rparr>" ?c] by (simp_all add: aim_frame_def)
      with s fr' r r' Inr True show ?thesis
        by (cases r') (simp_all add: recenter_def aim_keeps_def Let_def)
    qed
  next
    case False
    obtain e' r where r: "end_contact inject e k = (e', r)" by fastforce
    show ?thesis
    proof (cases r)
      case (Inl err)
      with r False inv cur show ?thesis
        using engine_op_Inl(3) [OF r [unfolded Inl]] engine_op_only_injection(3) [OF r [unfolded Inl]]
        by (simp add: recenter_def aim_keeps_def Let_def)
    next
      case (Inr u)
      have "engine_contacts e' = (engine_contacts e)(k := None)" using end_contact_Inr [OF r [unfolded Inr]] by simp
      moreover have "{mc_next c, k} = aim_ids c" using ids by blast
      ultimately show ?thesis using r Inr False cfg nxt idsk
        by (auto simp: recenter_def aim_keeps_def Let_def aim_inv_def aim_config_ok_def aim_phase_inactive
            aim_frame_def aim_ids_def)
    qed
  qed
qed

lemma tick_keeps:
  assumes inv: "aim_inv c (engine_contacts e)" shows "aim_keeps (c, e) (aim_tick inject (c, e) now)"
proof (cases "mc_pending c")
  case pend: (Some q)
  have cfg: "aim_config_ok c" using inv by (simp add: aim_inv_def)
  have act: "mc_active c = None" using inv pend by (cases "mc_active c") (auto simp: aim_inv_def aim_phase_active)
  have ids: "{pr_contact q, pr_previous q} = aim_ids c" and none: "\<forall>k \<in> aim_ids c. engine_contacts e k = None"
    using inv pend act by (simp_all add: aim_inv_def aim_phase_inactive)
  have ne: "pr_contact q \<noteq> pr_previous q"
    using ids cfg by (auto simp: aim_config_ok_def aim_ids_def doubleton_eq_iff)
  have idsq: "pr_contact q \<in> aim_ids c" "pr_previous q \<in> aim_ids c" using ids by blast+
  show ?thesis
  proof (cases "now < pr_ready_at q")
    case True
    with pend inv show ?thesis by (simp add: aim_tick_def aim_keeps_def)
  next
    case False
    obtain e' r where r: "begin_contact inject e (pr_contact q) (ma_origin (mc_aim c)) = (e', r)" by fastforce
    show ?thesis
    proof (cases r)
      case (Inl err)
      with r False pend inv none idsq show ?thesis
        using engine_op_Inl(1) [OF r [unfolded Inl]] engine_op_only_injection(1) [OF r [unfolded Inl]]
        by (simp add: aim_tick_def aim_keeps_def Let_def)
    next
      case (Inr u)
      let ?c = "c\<lparr>mc_active := Some (pr_contact q), mc_next := pr_previous q, mc_pending := None,
          mc_last_reaffirm := Some now\<rparr>"
      obtain e'' r' where r': "apply_residual inject ?c e' (pr_contact q) (pr_dx q) (pr_dy q) = (e'', r')"
        by fastforce
      have m: "engine_contacts e' = (engine_contacts e)(pr_contact q \<mapsto> ma_origin (mc_aim c))"
        using begin_contact_Inr [OF r [unfolded Inr]] by simp
      have "aim_config_ok ?c" "{pr_contact q, mc_next ?c} = aim_ids ?c"
        using cfg ids by (auto simp: aim_config_ok_def aim_ids_def)
      note res = residual_sound [OF this(1) _ _ this(2) _ _ r']
      have s: "aim_inv ?c (engine_contacts e'')" "aim_frame ?c (engine_contacts e') ?c (engine_contacts e'')"
        "case r' of Inl err \<Rightarrow> only_injection err | Inr _ \<Rightarrow> True"
        using res m ne none idsq by simp_all
      have "aim_frame c (engine_contacts e) ?c (engine_contacts e')"
        using idsq m by (auto simp: aim_frame_def)
      then have "aim_frame c (engine_contacts e) ?c (engine_contacts e'')"
        using s(2) aim_frame_trans by blast
      with s r r' Inr False pend show ?thesis
        by (cases r') (simp_all add: aim_tick_def aim_keeps_def Let_def)
    qed
  qed
next
  case pend: None
  show ?thesis
  proof (cases "mc_active c")
    case None
    with pend inv show ?thesis by (simp add: aim_tick_def aim_keeps_def split: option.split)
  next
    case (Some k)
    obtain p where p: "engine_contacts e k = Some p" "region_contains (ma_region (mc_aim c)) p"
      using inv Some by (auto simp: aim_inv_def aim_phase_active)
    obtain e' r where r: "move_contact inject e k p = (e', r)" by fastforce
    have same: "engine_contacts e' = engine_contacts e"
      using r p move_contact_Inr [of inject e k p e'] engine_op_Inl(2) [of inject e k p e']
      by (cases r) (auto simp: fun_upd_idem)
    have "case r of Inl err \<Rightarrow> only_injection err | Inr _ \<Rightarrow> True"
      using engine_op_only_injection(2) [of inject e k p e'] r p by (cases r) auto
    moreover have "aim_inv (c\<lparr>mc_last_reaffirm := Some now\<rparr>) (engine_contacts e)"
      using inv aim_inv_cong [of "c\<lparr>mc_last_reaffirm := Some now\<rparr>" c] by simp
    ultimately show ?thesis using pend Some inv p r same
      by (cases r) (auto simp: aim_tick_def aim_keeps_def aim_frame_def split: option.split)
  qed
qed

lemma scaled_delta_fields:
  assumes "scaled_delta c d = (c1, dx, dy)"
  shows "mc_aim c1 = mc_aim c" "mc_settings c1 = mc_settings c" "mc_active c1 = mc_active c"
    "mc_next c1 = mc_next c" "mc_pending c1 = mc_pending c" "aim_ids c1 = aim_ids c"
  using assms by (auto simp: scaled_delta_def Let_def aim_ids_def split: prod.splits)

lemma aim_keeps_from:
  assumes "aim_frame c m c1 m" "aim_keeps (c1, e) r" "engine_contacts e = m"
  shows "aim_keeps (c, e) r"
  using assms aim_frame_trans unfolding aim_keeps_def by (auto split: prod.splits)

lemma move_keeps:
  assumes inv: "aim_inv c (engine_contacts e)"
  shows "aim_keeps (c, e) (controller_move_by inject (c, e) d now)"
proof (cases "delta_is_zero d \<or> \<not> controller_is_active c")
  case True
  with inv show ?thesis by (simp add: controller_move_by_def aim_keeps_def)
next
  case live: False
  obtain c1 dx dy where sd: "scaled_delta c d = (c1, dx, dy)" using prod_cases3 by blast
  note f = scaled_delta_fields [OF sd]
  have inv1: "aim_inv c1 (engine_contacts e)" using inv aim_inv_cong [OF f(1-5)] by simp
  have fr: "aim_frame c (engine_contacts e) c1 (engine_contacts e)" using f by (simp add: aim_frame_def)
  show ?thesis
  proof (cases "mc_pending c1")
    case (Some q)
    let ?q = "q\<lparr>pr_dx := sat_i64 (pr_dx q + dx), pr_dy := sat_i64 (pr_dy q + dy)\<rparr>"
    let ?c = "c1\<lparr>mc_pending := Some ?q\<rparr>"
    have act: "mc_active c1 = None" using inv1 Some by (cases "mc_active c1") (auto simp: aim_inv_def aim_phase_active)
    then have "aim_inv ?c (engine_contacts e)" using inv1 Some
      by (simp add: aim_inv_def aim_phase_inactive aim_config_ok_def aim_ids_def)
    then have "aim_keeps (?c, e) (aim_tick inject (?c, e) now)" by (rule tick_keeps)
    moreover have "aim_frame c (engine_contacts e) ?c (engine_contacts e)" using f by (simp add: aim_frame_def)
    ultimately have "aim_keeps (c, e) (aim_tick inject (?c, e) now)" using aim_keeps_from by blast
    with live sd Some show ?thesis by (simp add: controller_move_by_def)
  next
    case None
    with live f have "mc_active c1 \<noteq> None" by (simp add: controller_is_active_def)
    then obtain k where k: "mc_active c1 = Some k" by blast
    then obtain p where p: "engine_contacts e k = Some p"
      using inv1 by (auto simp: aim_inv_def aim_phase_active)
    let ?t = "region_clamp (ma_region (mc_aim c1)) (offset_point p dx dy)"
    consider "?t = p" | "?t \<noteq> p" "past_recenter_threshold c1 ?t" | "?t \<noteq> p" "\<not> past_recenter_threshold c1 ?t"
      by blast
    then show ?thesis
    proof cases
      case 1
      with live sd None k p inv1 fr show ?thesis by (simp add: controller_move_by_def aim_keeps_def)
    next
      case 2
      from aim_keeps_from [OF fr recenter_keeps [OF inv1 k] refl] 2 live sd None k p
      show ?thesis by (simp add: controller_move_by_def)
    next
      case 3
      obtain e' r where r: "move_contact inject e k ?t = (e', r)" by fastforce
      have idk: "k \<in> aim_ids c1" "mc_next c1 \<noteq> k" using inv1 k p by (auto simp: aim_inv_def aim_phase_active)
      have eq: "controller_move_by inject (c, e) d now =
         (case r of Inl err \<Rightarrow> ((c1, e'), Inl err) | Inr _ \<Rightarrow> ((c1\<lparr>mc_last_reaffirm := Some now\<rparr>, e'), Inr Moved))"
        using 3 live sd None k p r by (simp add: controller_move_by_def)
      show ?thesis
      proof (cases r)
        case (Inl err)
        with eq fr inv1 p show ?thesis
          using engine_op_Inl(2) [OF r [unfolded Inl]] engine_op_only_injection(2) [OF r [unfolded Inl]]
          by (simp add: aim_keeps_def)
      next
        case (Inr u)
        have m: "engine_contacts e' = (engine_contacts e)(k \<mapsto> ?t)"
          using move_contact_Inr [OF r [unfolded Inr]] by simp
        have "region_contains (ma_region (mc_aim c1)) ?t"
          using inv1 by (intro region_clamp_contains) (simp add: aim_inv_def aim_config_ok_def)
        then have "aim_inv c1 (engine_contacts e')"
          using inv1 k idk m by (auto simp: aim_inv_def aim_phase_active)
        moreover have "aim_frame c (engine_contacts e) c1 (engine_contacts e')"
          using fr idk f m by (auto simp: aim_frame_def)
        ultimately show ?thesis using eq Inr aim_inv_cong [of "c1\<lparr>mc_last_reaffirm := Some now\<rparr>" c1]
          by (simp add: aim_keeps_def aim_frame_def)
      qed
    qed
  qed
qed

lemma released_sound:
  assumes "aim_config_ok c" "\<And>k. k \<in> aim_ids c \<Longrightarrow> m k = None"
    and "mc_aim c' = mc_aim c" "mc_settings c' = mc_settings c" "mc_active c' = None" "mc_pending c' = None"
  shows "aim_inv c' m" "\<not> controller_is_active c'"
  using assms by (simp_all add: aim_inv_def aim_phase_inactive aim_config_ok_def aim_ids_def controller_is_active_def)

lemma aim_releases_success:
  assumes "aim_config_ok c" "\<And>k. k \<in> aim_ids c \<Longrightarrow> engine_contacts e' k = None"
    and "mc_aim c' = mc_aim c" "mc_settings c' = mc_settings c" "mc_active c' = None" "mc_pending c' = None"
    and "\<And>k. k \<notin> aim_ids c \<Longrightarrow> engine_contacts e' k = engine_contacts e k"
  shows "aim_releases (c, e) ((c', e'), Inr x)"
  using assms released_sound [OF assms(1,2) assms(3-6)] by (simp add: aim_releases_def aim_frame_def)

lemma deactivate_releases:
  assumes inv: "aim_inv c (engine_contacts e)" shows "aim_releases (c, e) (deactivate inject (c, e))"
proof (cases "mc_active c")
  case None
  have none: "engine_contacts e k = None" if "k \<in> aim_ids c" for k
    using inv None that by (simp add: aim_inv_def aim_phase_inactive)
  have "aim_config_ok c" using inv by (simp add: aim_inv_def)
  with None show ?thesis
    by (simp add: deactivate_def Let_def aim_reset_def aim_releases_success none)
next
  case (Some k)
  then have k: "engine_contacts e k \<noteq> None" "{k, mc_next c} = aim_ids c" "engine_contacts e (mc_next c) = None"
    using inv by (auto simp: aim_inv_def aim_phase_active)
  have idk: "k \<in> aim_ids c" using k(2) by blast
  have act: "is_active (engine_state e) k" using k(1) by (simp add: is_active_def contact_position_def)
  obtain e' r where r: "end_contact inject e k = (e', r)" by fastforce
  show ?thesis
  proof (cases r)
    case (Inl err)
    with Some act r k show ?thesis
      using engine_op_Inl(3) [OF r [unfolded Inl]] engine_op_only_injection(3) [OF r [unfolded Inl]]
      by (simp add: deactivate_def Let_def aim_releases_def aim_frame_def)
  next
    case (Inr u)
    have m: "engine_contacts e' = (engine_contacts e)(k := None)"
      using end_contact_Inr [OF r [unfolded Inr]] by simp
    have none: "engine_contacts e' j = None" if "j \<in> aim_ids c" for j
    proof -
      have "j = k \<or> j = mc_next c" using that k(2) by blast
      then show ?thesis using m k(3) by auto
    qed
    have other: "engine_contacts e' j = engine_contacts e j" if "j \<notin> aim_ids c" for j
      using that idk unfolding m by (simp add: fun_upd_other) blast
    have cfg: "aim_config_ok c" using inv by (simp add: aim_inv_def)
    have eq: "deactivate inject (c, e)
        = ((aim_reset (c\<lparr>mc_active := None, mc_pending := None\<rparr>), e'), Inr Deactivated)"
      using Inr Some act r by (simp add: deactivate_def Let_def)
    show ?thesis unfolding eq
      by (rule aim_releases_success [OF cfg none _ _ _ _ other]) (simp_all add: aim_reset_def)
  qed
qed

lemma controller_cancel_releases:
  assumes inv: "aim_inv c (engine_contacts e)" shows "aim_releases (c, e) (controller_cancel inject (c, e))"
proof (cases "mc_active c")
  case None
  have none: "engine_contacts e k = None" if "k \<in> aim_ids c" for k
    using inv None that by (simp add: aim_inv_def aim_phase_inactive)
  have "aim_config_ok c" using inv by (simp add: aim_inv_def)
  with None show ?thesis
    by (simp add: controller_cancel_def Let_def aim_reset_def aim_releases_success none)
next
  case (Some k)
  then have k: "{k, mc_next c} = aim_ids c" "engine_contacts e (mc_next c) = None"
    using inv by (auto simp: aim_inv_def aim_phase_active)
  have idk: "k \<in> aim_ids c" using k(1) by blast
  obtain e' r where r: "cancel_contact inject e k = (e', r)" by fastforce
  note cc = cancel_contact_cases [where inject = inject and e = e and c = k, unfolded r]
  show ?thesis
  proof (cases r)
    case (Inl err)
    with Some r cc show ?thesis
      by (simp add: controller_cancel_def Let_def aim_releases_def aim_frame_def only_injection_def)
  next
    case (Inr u)
    have m: "engine_contacts e' = (engine_contacts e)(k := None)" using cc Inr by simp
    have none: "engine_contacts e' j = None" if "j \<in> aim_ids c" for j
    proof -
      have "j = k \<or> j = mc_next c" using that k(1) by blast
      then show ?thesis using m k(2) by auto
    qed
    have other: "engine_contacts e' j = engine_contacts e j" if "j \<notin> aim_ids c" for j
      using that idk unfolding m by (simp add: fun_upd_other) blast
    have cfg: "aim_config_ok c" using inv by (simp add: aim_inv_def)
    have eq: "controller_cancel inject (c, e)
        = ((aim_reset (c\<lparr>mc_pending := None, mc_active := None\<rparr>), e'), Inr (mc_pending c \<noteq> None \<or> u))"
      using Inr Some r by (simp add: controller_cancel_def Let_def)
    show ?thesis unfolding eq
      by (rule aim_releases_success [OF cfg none _ _ _ _ other]) (simp_all add: aim_reset_def)
  qed
qed

text \<open>The calls a session makes on a controller, at the times it makes them.\<close>

datatype aim_call = CallActivate | CallMove mouse_aim_delta | CallTick | CallToggle | CallAds bool
  | CallDeactivate | CallCancel

definition void :: "('s, 'e, 'a) st \<Rightarrow> ('s, 'e, unit) st" where
  "void r = andThen r (\<lambda>s _. (s, Inr ()))"

fun aim_call_exec ::
  "('i, 'e) inject_fn \<Rightarrow> aim_call \<times> duration \<Rightarrow> mouse_aim_controller \<times> 'i touch_engine
     \<Rightarrow> ('i, 'e, unit) aim_st" where
  "aim_call_exec inject (CallActivate, now) s = void (activate inject s now)"
| "aim_call_exec inject (CallMove d, now) s = void (controller_move_by inject s d now)"
| "aim_call_exec inject (CallTick, now) s = void (aim_tick inject s now)"
| "aim_call_exec inject (CallToggle, now) s = void (aim_toggle inject s now)"
| "aim_call_exec inject (CallAds b, now) s = ((set_ads_active b (fst s), snd s), Inr ())"
| "aim_call_exec inject (CallDeactivate, now) s = void (deactivate inject s)"
| "aim_call_exec inject (CallCancel, now) s = void (controller_cancel inject s)"

text \<open>A run stops at the first error, as every caller propagates it.\<close>

fun aim_calls ::
  "('i, 'e) inject_fn \<Rightarrow> (aim_call \<times> duration) list \<Rightarrow> mouse_aim_controller \<times> 'i touch_engine
     \<Rightarrow> ('i, 'e, unit) aim_st" where
  "aim_calls inject [] s = (s, Inr ())"
| "aim_calls inject (x # xs) s = andThen (aim_call_exec inject x s) (\<lambda>s' _. aim_calls inject xs s')"

definition aim_result_ok ::
  "mouse_aim_controller \<times> 'i touch_engine \<Rightarrow> ('i, 'e, unit) aim_st \<Rightarrow> bool" where
  "aim_result_ok s r = (case (s, r) of ((c, e), ((c', e'), res)) \<Rightarrow>
     aim_frame c (engine_contacts e) c' (engine_contacts e')
     \<and> (case res of Inl err \<Rightarrow> only_injection err | Inr _ \<Rightarrow> aim_inv c' (engine_contacts e')))"

lemma keeps_result_ok: "aim_keeps s r \<Longrightarrow> aim_result_ok s (void r)"
  unfolding aim_keeps_def aim_result_ok_def void_def
  by (auto split: prod.splits sum.splits andThen_splits)

lemma releases_result_ok: "aim_releases s r \<Longrightarrow> aim_result_ok s (void r)"
  unfolding aim_releases_def aim_result_ok_def void_def
  by (auto split: prod.splits sum.splits andThen_splits)

lemma aim_call_ok:
  assumes inv: "aim_inv c (engine_contacts e)"
  shows "aim_result_ok (c, e) (aim_call_exec inject (op, now) (c, e))"
proof (cases op)
  case CallToggle
  then show ?thesis
    by (simp add: aim_toggle_def releases_result_ok keeps_result_ok deactivate_releases activate_keeps inv)
next
  case (CallAds b)
  have "aim_inv (set_ads_active b c) (engine_contacts e)"
    using inv aim_inv_cong [of "set_ads_active b c" c] by (simp add: set_ads_active_def)
  with CallAds show ?thesis by (simp add: aim_result_ok_def aim_frame_def set_ads_active_def)
qed (use inv in \<open>simp_all add: keeps_result_ok releases_result_ok activate_keeps move_keeps tick_keeps
       deactivate_releases controller_cancel_releases\<close>)

lemma aim_calls_ok: "aim_inv c (engine_contacts e) \<Longrightarrow> aim_result_ok (c, e) (aim_calls inject calls (c, e))"
proof (induction calls arbitrary: c e)
  case Nil
  then show ?case by (simp add: aim_result_ok_def)
next
  case (Cons x xs)
  obtain op now where x: "x = (op, now)" by fastforce
  obtain c' e' r where r: "aim_call_exec inject (op, now) (c, e) = ((c', e'), r)" by (metis surj_pair)
  note ok = aim_call_ok [OF Cons.prems, of inject op now, unfolded r]
  show ?case
  proof (cases r)
    case (Inl err)
    with ok r x show ?thesis by (simp add: aim_result_ok_def)
  next
    case (Inr u)
    with ok have fr: "aim_frame c (engine_contacts e) c' (engine_contacts e')" and inv: "aim_inv c' (engine_contacts e')"
      by (simp_all add: aim_result_ok_def)
    from Cons.IH [OF inv] fr aim_frame_trans r x Inr show ?thesis
      by (auto simp: aim_result_ok_def split: prod.splits)
  qed
qed

lemma mouse_aim_new_ok:
  "mouse_aim_new k origin region res sens = Inr a \<Longrightarrow>
     ma_contact_id a = k \<and> region_ok (ma_region a) \<and> region_contains (ma_region a) (ma_origin a)"
  by (auto simp: mouse_aim_new_def region_validate_def region_ok_def not_less split: sum.splits if_splits)

lemma controller_new_inv:
  assumes "mouse_aim_new k origin region res sens = Inr a" "controller_new a s = Inr c"
    and "m k = None" "m (st_alternate s) = None"
  shows "aim_inv c m" "aim_ids c = {k, st_alternate s}"
  using mouse_aim_new_ok [OF assms(1)] assms(2-)
  by (auto simp: controller_new_def aim_inv_def aim_phase_inactive aim_config_ok_def aim_ids_def split: if_splits)

text \<open>C38. A validly configured aim controller stays sound under any calls: it has at most one of its two
  contacts down, inside its region; it touches no contact of another control; and a call fails in
  the injector only, never because the engine's validator rejects a frame.\<close>

theorem aim_controller_safe:
  assumes aim: "mouse_aim_new k origin region res sens = Inr a" and ctl: "controller_new a s = Inr c"
    and free: "engine_contacts e k = None" "engine_contacts e (st_alternate s) = None"
  shows "case aim_calls inject calls (c, e) of ((c', e'), r) \<Rightarrow>
      (\<forall>j. j \<notin> {k, st_alternate s} \<longrightarrow> engine_contacts e' j = engine_contacts e j)
      \<and> (case r of Inl err \<Rightarrow> only_injection err | Inr _ \<Rightarrow> aim_inv c' (engine_contacts e'))"
  using aim_calls_ok [OF controller_new_inv(1) [where m = "engine_contacts e", OF aim ctl free], of inject calls]
    controller_new_inv(2) [where m = "engine_contacts e", OF aim ctl free]
  by (auto simp: aim_result_ok_def aim_frame_def split: prod.splits)

definition example_region :: mouse_aim_region where
  "example_region = \<lparr>rg_left = 900, rg_top = 100, rg_right = 1800, rg_bottom = 1000\<rparr>"

definition example_aim :: mouse_aim where
  "example_aim = \<lparr>ma_contact_id = 1, ma_origin = \<lparr>px = 1350, py = 550\<rparr>, ma_region = example_region,
     ma_sensitivity = sensitivity_one_to_one\<rparr>"

lemma aim_controller_safe_witness:
  "\<exists>c. controller_new example_aim settings_default = Inr c
     \<and> (case aim_calls (\<lambda>i f. (i, Inr () :: unit + unit)) [(CallActivate, 0), (CallMove \<lparr>ad_dx = 400, ad_dy = 3\<rparr>, 5)]
            (c, engine_new ()) of ((c', e'), r) \<Rightarrow>
          (case r of Inl err \<Rightarrow> only_injection err | Inr _ \<Rightarrow> aim_inv c' (engine_contacts e')))"
proof -
  have aim: "mouse_aim_new 1 \<lparr>px = 1350, py = 550\<rparr> example_region \<lparr>rwidth = 1920, rheight = 1080\<rparr>
      sensitivity_one_to_one = Inr example_aim"
    by (simp add: mouse_aim_new_def region_validate_def region_contains_def example_region_def example_aim_def)
  obtain c where ctl: "controller_new example_aim settings_default = Inr c"
    by (simp add: controller_new_def settings_default_def example_aim_def)
  have free: "engine_contacts (engine_new ()) j = None" for j
    by (simp add: engine_new_def touch_state_default_def contact_position_def)
  let ?calls = "[(CallActivate, 0), (CallMove \<lparr>ad_dx = 400, ad_dy = 3\<rparr>, 5)]"
  obtain c' e' r where run: "aim_calls (\<lambda>i f. (i, Inr () :: unit + unit)) ?calls (c, engine_new ()) = ((c', e'), r)"
    by (metis surj_pair)
  from aim_controller_safe [OF aim ctl free free, of "\<lambda>i f. (i, Inr () :: unit + unit)" ?calls]
  have "case r of Inl err \<Rightarrow> only_injection err | Inr _ \<Rightarrow> aim_inv c' (engine_contacts e')"
    unfolding run prod.case by (rule conjunct2)
  with ctl show ?thesis by (intro exI [of _ c] conjI) (simp_all only: run prod.case)
qed

lemma residual_engine:
  "apply_residual inject c e k dx dy = (e', Inr u) \<Longrightarrow> engine_contacts e k = Some (ma_origin (mc_aim c)) \<Longrightarrow>
     engine_contacts e' = (engine_contacts e)
        (k \<mapsto> region_clamp (ma_region (mc_aim c)) (offset_point (ma_origin (mc_aim c)) dx dy))"
  using apply_residual_keeps [of inject c e k dx dy e' "Inr u"] by simp


definition example_controller :: mouse_aim_controller where
  "example_controller = \<lparr>mc_aim = example_aim, mc_settings = settings_default, mc_active = Some 1, mc_next = 2,
     mc_pending = None, mc_ads_active = False, mc_recenter_count = 0, mc_last_reaffirm = Some 0,
     mc_accumulator = accumulator_default\<rparr>"

definition example_engine :: "unit touch_engine" where
  "example_engine = \<lparr>injector = (), engine_state =
     \<lparr>active_contacts = RBT.insert 1 \<lparr>px = 1350, py = 550\<rparr> RBT.empty\<rparr>\<rparr>"


end
