(* ===== verification/Controls.thy ===== *)
theory Controls
  imports MouseAim
begin

unbundle bit_operations_syntax

text \<open>
  The runtime plan of a profile, \<^verbatim>\<open>wroid-runtime/src/profile_controls.rs\<close>: key and button names,
  modifier masks, the suppression of plain bindings by modified siblings, and the
  materialisation of a version 2 profile. A panic of the code (an \<open>expect\<close>, an index out of
  bounds) is \<open>None\<close>.
\<close>

section \<open>Keys, masks and buttons\<close>

datatype (plugins del: "quickcheck" size transfer) host_key_name =
    KNum0 | KNum1 | KNum2 | KNum3 | KNum4 | KNum5 | KNum6 | KNum7 | KNum8 | KNum9 | KA | KB | KC | KD
    | KE | KF | KG | KH | KI | KJ | KK | KL | KM | KN | KO | KP | KQ | KR | KS | KT | KU | KV | KW | KX
    | KY | KZ | KSpace | KTab | KShift | KCtrl | KAlt | KUp | KLeft | KDown | KRight | KEsc

primrec key_index :: "host_key_name \<Rightarrow> nat" where
  "key_index KNum0 = 0"
| "key_index KNum1 = 1"
| "key_index KNum2 = 2"
| "key_index KNum3 = 3"
| "key_index KNum4 = 4"
| "key_index KNum5 = 5"
| "key_index KNum6 = 6"
| "key_index KNum7 = 7"
| "key_index KNum8 = 8"
| "key_index KNum9 = 9"
| "key_index KA = 10"
| "key_index KB = 11"
| "key_index KC = 12"
| "key_index KD = 13"
| "key_index KE = 14"
| "key_index KF = 15"
| "key_index KG = 16"
| "key_index KH = 17"
| "key_index KI = 18"
| "key_index KJ = 19"
| "key_index KK = 20"
| "key_index KL = 21"
| "key_index KM = 22"
| "key_index KN = 23"
| "key_index KO = 24"
| "key_index KP = 25"
| "key_index KQ = 26"
| "key_index KR = 27"
| "key_index KS = 28"
| "key_index KT = 29"
| "key_index KU = 30"
| "key_index KV = 31"
| "key_index KW = 32"
| "key_index KX = 33"
| "key_index KY = 34"
| "key_index KZ = 35"
| "key_index KSpace = 36"
| "key_index KTab = 37"
| "key_index KShift = 38"
| "key_index KCtrl = 39"
| "key_index KAlt = 40"
| "key_index KUp = 41"
| "key_index KLeft = 42"
| "key_index KDown = 43"
| "key_index KRight = 44"
| "key_index KEsc = 45"

definition PROFILE_NAMES :: "(string \<times> host_key_name) list" where
  "PROFILE_NAMES =
    [(''0'', KNum0), (''1'', KNum1), (''2'', KNum2), (''3'', KNum3), (''4'', KNum4), (''5'', KNum5),
     (''6'', KNum6), (''7'', KNum7), (''8'', KNum8), (''9'', KNum9), (''a'', KA), (''b'', KB),
     (''c'', KC), (''d'', KD), (''e'', KE), (''f'', KF), (''g'', KG), (''h'', KH), (''i'', KI),
     (''j'', KJ), (''k'', KK), (''l'', KL), (''m'', KM), (''n'', KN), (''o'', KO), (''p'', KP),
     (''q'', KQ), (''r'', KR), (''s'', KS), (''t'', KT), (''u'', KU), (''v'', KV), (''w'', KW),
     (''x'', KX), (''y'', KY), (''z'', KZ), (''space'', KSpace), (''tab'', KTab), (''shift'', KShift),
     (''ctrl'', KCtrl), (''alt'', KAlt), (''up'', KUp), (''left'', KLeft), (''down'', KDown),
     (''right'', KRight), (''esc'', KEsc)]"

definition parse_name :: "(string \<times> 'k) list \<Rightarrow> string \<Rightarrow> 'k option" where
  "parse_name table value =
     find_map (\<lambda>(name, k). if eq_ignore_ascii_case (trim value) name then Some k else None) table"

definition key_parse :: "string \<Rightarrow> host_key_name option" where
  "key_parse = parse_name PROFILE_NAMES"

definition key_bit :: "host_key_name \<Rightarrow> u64" where
  "key_bit k = push_bit (key_index k) 1"

definition profile_name :: "host_key_name \<Rightarrow> string" where
  "profile_name k = fst (PROFILE_NAMES ! key_index k)"

type_synonym modifier_mask = u64

definition MASK_EMPTY :: modifier_mask where "MASK_EMPTY = 0"

definition mask_from_key :: "host_key_name \<Rightarrow> modifier_mask" where
  "mask_from_key k = key_bit k"

definition mask_contains :: "modifier_mask \<Rightarrow> host_key_name \<Rightarrow> bool" where
  "mask_contains m k \<longleftrightarrow> m AND key_bit k \<noteq> 0"

definition mask_insert :: "host_key_name \<Rightarrow> modifier_mask \<Rightarrow> modifier_mask" where
  "mask_insert k m = m OR key_bit k"

definition mask_remove :: "host_key_name \<Rightarrow> modifier_mask \<Rightarrow> modifier_mask" where
  "mask_remove k m = m AND NOT (key_bit k)"

definition mask_intersects :: "modifier_mask \<Rightarrow> modifier_mask \<Rightarrow> bool" where
  "mask_intersects a b \<longleftrightarrow> a AND b \<noteq> 0"

datatype host_mouse_button = MLeft | MRight | MMiddle | MSide | MExtra

primrec button_index :: "host_mouse_button \<Rightarrow> nat" where
  "button_index MLeft = 0"
| "button_index MRight = 1"
| "button_index MMiddle = 2"
| "button_index MSide = 3"
| "button_index MExtra = 4"

definition BUTTON_NAMES :: "(string \<times> host_mouse_button) list" where
  "BUTTON_NAMES = [(''left'', MLeft), (''right'', MRight), (''middle'', MMiddle), (''side'', MSide), (''extra'', MExtra)]"

definition button_parse :: "string \<Rightarrow> host_mouse_button option" where
  "button_parse = parse_name BUTTON_NAMES"

datatype physical_input = PKey host_key_name | PMouseButton host_mouse_button

section \<open>Sibling suppression\<close>

record modifier_sibling =
  sib_input :: physical_input
  sib_modifiers :: modifier_mask

definition EMPTY_MODIFIER_SIBLING :: modifier_sibling where
  "EMPTY_MODIFIER_SIBLING = \<lparr>sib_input = PKey KNum0, sib_modifiers = MASK_EMPTY\<rparr>"

record sibling_suppression =
  sup_entries :: "modifier_sibling list" \<comment> \<open>an array of four\<close>
  sup_len :: nat

definition suppression_new :: sibling_suppression where
  "suppression_new = \<lparr>sup_entries = replicate 4 EMPTY_MODIFIER_SIBLING, sup_len = 0\<rparr>"

text \<open>An update of an entry in place, or a new entry; a fifth one is out of bounds.\<close>

definition suppression_add ::
  "sibling_suppression \<Rightarrow> physical_input \<Rightarrow> host_key_name \<Rightarrow> sibling_suppression option" where
  "suppression_add s inp modifier =
     (case find_position (\<lambda>en. sib_input en = inp) (take (sup_len s) (sup_entries s)) of
        Some i \<Rightarrow>
          Some (s\<lparr>sup_entries := (sup_entries s)
                   [i := (sup_entries s ! i)\<lparr>sib_modifiers := mask_insert modifier (sib_modifiers (sup_entries s ! i))\<rparr>]\<rparr>)
      | None \<Rightarrow>
          if sup_len s < length (sup_entries s)
          then Some (s\<lparr>sup_entries := (sup_entries s)
                         [sup_len s := \<lparr>sib_input = inp, sib_modifiers = mask_from_key modifier\<rparr>],
                       sup_len := sup_len s + 1\<rparr>)
          else None)"

definition suppression_is_suppressed :: "sibling_suppression \<Rightarrow> physical_input \<Rightarrow> modifier_mask \<Rightarrow> bool" where
  "suppression_is_suppressed s inp held \<longleftrightarrow>
     list_ex (\<lambda>en. sib_input en = inp \<and> mask_intersects (sib_modifiers en) held) (take (sup_len s) (sup_entries s))"

section \<open>Names resolve\<close>

text \<open>What the parsers rely on: a table of distinct, trimmed, lower-case names that has every value.\<close>

definition plain_name :: "string \<Rightarrow> bool" where
  "plain_name n \<longleftrightarrow> to_ascii_lowercase n = n \<and> trim n = n"

locale name_table =
  fixes table :: "(string \<times> 'k) list"
  assumes names_plain: "(n, k) \<in> set table \<Longrightarrow> plain_name n"
    and names_distinct: "distinct (map fst table)"
    and values_distinct: "distinct (map snd table)"
    and values_all: "k \<in> snd ` set table"
begin

lemma parse_name_iff: "parse_name table v = Some k \<longleftrightarrow> (to_ascii_lowercase (trim v), k) \<in> set table"
proof -
  have "find_map (\<lambda>(name, k). if eq_ignore_ascii_case (trim v) name then Some k else None) t = Some k
      \<longleftrightarrow> (to_ascii_lowercase (trim v), k) \<in> set t"
    if "\<And>n k. (n, k) \<in> set t \<Longrightarrow> plain_name n" "distinct (map fst t)" for t
    using that
  proof (induction t)
    case (Cons x t)
    obtain n k' where x: "x = (n, k')" by fastforce
    have "to_ascii_lowercase n = n" using Cons.prems(1) x by (auto simp: plain_name_def)
    moreover have "(n, k) \<notin> set t" using Cons.prems(2) x by (auto simp: image_iff)
    ultimately show ?case using Cons x by (auto simp: eq_ignore_ascii_case_def)
  qed simp
  from this [OF names_plain names_distinct] show ?thesis unfolding parse_name_def .
qed

lemma parse_name_None: "parse_name table v = None \<longleftrightarrow> to_ascii_lowercase (trim v) \<notin> fst ` set table"
proof -
  have "parse_name table v \<noteq> None \<longleftrightarrow> (\<exists>k. (to_ascii_lowercase (trim v), k) \<in> set table)"
    using parse_name_iff [of v] by (metis not_Some_eq)
  also have "\<dots> \<longleftrightarrow> to_ascii_lowercase (trim v) \<in> fst ` set table" by force
  finally show ?thesis by blast
qed

lemma parse_name_self: "(n, k) \<in> set table \<Longrightarrow> parse_name table n = Some k"
  using names_plain [of n k] by (simp add: parse_name_iff plain_name_def)

lemma parse_name_canonical: "parse_name table v = parse_name table (to_ascii_lowercase (trim v))"
  if known: "parse_name table v \<noteq> None"
proof -
  from known obtain k where k: "parse_name table v = Some k" by blast
  then have "(to_ascii_lowercase (trim v), k) \<in> set table" by (simp add: parse_name_iff)
  with k show ?thesis by (simp add: parse_name_self)
qed

end

lemma key_names_plain: "list_all (\<lambda>(n, k). plain_name n) PROFILE_NAMES"
  by code_simp

lemma key_names_distinct: "distinct (map fst PROFILE_NAMES)" "distinct (map snd PROFILE_NAMES)"
  by code_simp+

lemma key_index_nth: "snd (PROFILE_NAMES ! key_index k) = k" "key_index k < 46"
  by (cases k; simp add: PROFILE_NAMES_def)+

lemma length_key_names: "length PROFILE_NAMES = 46"
  by (simp add: PROFILE_NAMES_def)

interpretation key_table: name_table PROFILE_NAMES
proof
  show "plain_name n" if "(n, k) \<in> set PROFILE_NAMES" for n k
    using key_names_plain that by (auto simp: list_all_iff)
  show "k \<in> snd ` set PROFILE_NAMES" for k
    using key_index_nth [of k] length_key_names by (metis image_eqI nth_mem)
qed (fact key_names_distinct)+

interpretation button_table: name_table BUTTON_NAMES
proof
  have "list_all (\<lambda>(n, k). plain_name n) BUTTON_NAMES" by code_simp
  then show "plain_name n" if "(n, k) \<in> set BUTTON_NAMES" for n k
    using that by (auto simp: list_all_iff)
  show "distinct (map fst BUTTON_NAMES)" "distinct (map snd BUTTON_NAMES)" by code_simp+
  show "k \<in> snd ` set BUTTON_NAMES" for k by (cases k) (simp_all add: BUTTON_NAMES_def)
qed

lemma known_key_names_eq: "known_key_names = map fst PROFILE_NAMES"
  by (simp add: known_key_names_def PROFILE_NAMES_def)

lemma mouse_button_names_eq: "mouse_button_names = map fst BUTTON_NAMES"
  by (simp add: mouse_button_names_def BUTTON_NAMES_def)

lemma key_parse_known: "known_key_name v \<longleftrightarrow> key_parse v \<noteq> None"
  by (simp add: known_key_name_def known_key_names_eq key_parse_def key_table.parse_name_None)

lemma button_parse_known:
  "to_ascii_lowercase (trim v) \<in> set mouse_button_names \<longleftrightarrow> button_parse v \<noteq> None"
  by (simp add: mouse_button_names_eq button_parse_def button_table.parse_name_None)

text \<open>The runtime resolves exactly the key names the profile validator knows, two spellings to the
  same key only if they are the same name up to case and surrounding white space; the canonical
  spelling of a key resolves to it.\<close>

theorem key_names_resolve:
  "(known_key_name v \<longleftrightarrow> key_parse v \<noteq> None)
   \<and> key_parse (profile_name k) = Some k
   \<and> (key_parse v = Some k \<longleftrightarrow> canonical_key v = profile_name k)"
proof -
  have mem: "(profile_name k, k) \<in> set PROFILE_NAMES" for k
    using key_index_nth [of k] length_key_names unfolding profile_name_def
    by (metis nth_mem prod.collapse)
  have "key_parse v = Some k \<longleftrightarrow> canonical_key v = profile_name k"
  proof
    assume "key_parse v = Some k"
    then have "(canonical_key v, k) \<in> set PROFILE_NAMES"
      by (simp add: key_parse_def key_table.parse_name_iff canonical_key_def)
    with mem [of k] show "canonical_key v = profile_name k"
      using key_names_distinct(2) by (metis eq_key_imp_eq_value [of "map prod.swap PROFILE_NAMES"]
        distinct_map fst_conv inj_on_def prod.inject snd_conv)
  next
    assume "canonical_key v = profile_name k"
    with mem [of k] show "key_parse v = Some k"
      by (simp add: key_parse_def key_table.parse_name_iff canonical_key_def)
  qed
  then show ?thesis using mem [of k] key_parse_known [of v]
    by (simp add: key_parse_def key_table.parse_name_self)
qed

section \<open>Masks are sets of keys\<close>

lemma key_index_inject: "key_index k = key_index k' \<longleftrightarrow> k = k'"
  using key_index_nth(1) by metis

lemma bit_key_bit: "bit (key_bit k) n \<longleftrightarrow> n = key_index k"
proof -
  have "bit (push_bit i 1 :: u64) n \<longleftrightarrow> n = i" if "i < 64" for i
    using that by (auto simp: bit_push_bit_iff bit_1_iff simp del: push_bit_of_1)
  then show ?thesis using key_index_nth(2) [of k] by (simp add: key_bit_def del: push_bit_of_1)
qed

lemma mask_contains_bit: "mask_contains m k \<longleftrightarrow> bit m (key_index k)"
proof -
  have "m AND key_bit k \<noteq> 0 \<longleftrightarrow> (\<exists>n. bit (m AND key_bit k) n)"
    by (metis bit_0_eq bit_eqI bot_apply bot_bool_def)
  also have "\<dots> \<longleftrightarrow> bit m (key_index k)" by (auto simp: bit_and_iff bit_key_bit)
  finally show ?thesis by (simp add: mask_contains_def)
qed

lemma mask_ops [simp]:
  "\<not> mask_contains MASK_EMPTY k"
  "mask_contains (mask_from_key k') k \<longleftrightarrow> k = k'"
  "mask_contains (mask_insert k' m) k \<longleftrightarrow> k = k' \<or> mask_contains m k"
  "mask_contains (mask_remove k' m) k \<longleftrightarrow> k \<noteq> k' \<and> mask_contains m k"
  using key_index_nth(2) [of k]
  by (auto simp: mask_contains_bit MASK_EMPTY_def mask_from_key_def mask_insert_def mask_remove_def bit_key_bit
      bit_or_iff bit_and_iff bit_not_iff key_index_inject)

text \<open>A mask built from keys has no other bits.\<close>

definition mask_ok :: "modifier_mask \<Rightarrow> bool" where
  "mask_ok m \<longleftrightarrow> (\<forall>n. bit m n \<longrightarrow> n < 46)"

lemma mask_ok_ops:
  "mask_ok MASK_EMPTY" "mask_ok (mask_from_key k)" "mask_ok m \<Longrightarrow> mask_ok (mask_insert k m)"
  "mask_ok m \<Longrightarrow> mask_ok (mask_remove k m)"
  using key_index_nth(2) [of k]
  by (auto simp: mask_ok_def MASK_EMPTY_def mask_from_key_def mask_insert_def mask_remove_def bit_key_bit
      bit_or_iff bit_and_iff)

lemma mask_intersects_iff:
  assumes "mask_ok a" shows "mask_intersects a b \<longleftrightarrow> (\<exists>k. mask_contains a k \<and> mask_contains b k)"
proof -
  have "a AND b \<noteq> 0 \<longleftrightarrow> (\<exists>n. bit (a AND b) n)"
    by (metis bit_0_eq bit_eqI bot_apply bot_bool_def)
  also have "\<dots> \<longleftrightarrow> (\<exists>n. bit a n \<and> bit b n)" by (simp add: bit_and_iff)
  also have "\<dots> \<longleftrightarrow> (\<exists>k. bit a (key_index k) \<and> bit b (key_index k))"
  proof
    assume "\<exists>n. bit a n \<and> bit b n"
    then obtain n where n: "bit a n" "bit b n" by blast
    then have "n < 46" using assms by (simp add: mask_ok_def)
    moreover have "key_index (snd (PROFILE_NAMES ! n)) = n" if "n < 46" for n
    proof -
      have "list_all (\<lambda>n. key_index (snd (PROFILE_NAMES ! n)) = n) [0..<46]" by code_simp
      then show ?thesis using that by (simp add: list_all_iff)
    qed
    ultimately show "\<exists>k. bit a (key_index k) \<and> bit b (key_index k)" using n by metis
  qed blast
  finally show ?thesis by (simp add: mask_intersects_def mask_contains_bit)
qed

section \<open>The plan\<close>

type_synonym layer_id = u16

definition LAYER_BASE :: layer_id where "LAYER_BASE = 0"

datatype layer_mode = LmHold | LmToggle

record runtime_layer =
  rl_name :: string
  rl_activation_key :: host_key_name
  rl_mode :: layer_mode
  rl_id :: layer_id

datatype runtime_action =
    RTap point
  | RHold point
  | RVirtualJoystick virtual_joystick joystick_mode "duration option"
  | RMouseAim mouse_aim mouse_aim_settings

record runtime_binding =
  rb_name :: string
  rb_input :: input_v2
  rb_action :: runtime_action
  rb_layer :: layer_id
  rb_modifier :: "host_key_name option"
  rb_suppression :: sibling_suppression

definition binding_is_suppressed :: "runtime_binding \<Rightarrow> physical_input \<Rightarrow> modifier_mask \<Rightarrow> bool" where
  "binding_is_suppressed b inp held \<longleftrightarrow>
     rb_modifier b = None \<and> suppression_is_suppressed (rb_suppression b) inp held"

record control_plan =
  pl_profile_name :: string
  pl_package_name :: string
  pl_resolution :: resolution
  pl_layers :: "runtime_layer list"
  pl_modifier_keys :: modifier_mask
  pl_controls :: "runtime_binding list"

definition plan_control :: "control_plan \<Rightarrow> string \<Rightarrow> runtime_binding option" where
  "plan_control plan name = find (\<lambda>b. rb_name b = name) (pl_controls plan)"

datatype plan_error =
    InvalidProfile "string list"
  | UnknownLayer string string
  | PlanUnsupportedAction string string
  | InvalidVirtualJoystick string joystick_config_error
  | InvalidMouseAim string mouse_aim_config_error
  | InvalidMouseAimSensitivity string f64

definition resolve_layer :: "profile_v2 \<Rightarrow> binding_v2 \<Rightarrow> plan_error + layer_id" where
  "resolve_layer p b =
     (case b2_layer b of
        None \<Rightarrow> Inr LAYER_BASE
      | Some name \<Rightarrow>
          (case find_position (\<lambda>l. l2_name l = name) (p2_layers p) of
             Some i \<Rightarrow> Inr (of_nat i + 1)
           | None \<Rightarrow> Inl (UnknownLayer (b2_name b) name)))"

definition resolve_binding_layers :: "profile_v2 \<Rightarrow> plan_error + layer_id list" where
  "resolve_binding_layers p = collect_results (resolve_layer p) (p2_bindings p)"

text \<open>The four slots of \<open>resolved_physical_inputs\<close>; every use flattens them.\<close>

definition resolved_physical_inputs :: "input_v2 \<Rightarrow> physical_input option list" where
  "resolved_physical_inputs inp =
     (let key = (\<lambda>v. map_option PKey (key_parse v))
      in case inp of
           I2Key v \<Rightarrow> [key v, None, None, None]
         | I2KeyCluster up left down right \<Rightarrow> [key up, key left, key down, key right]
         | I2MouseButton b \<Rightarrow> [map_option PMouseButton (button_parse b), None, None, None]
         | I2MouseMove \<Rightarrow> [None, None, None, None])"

definition flatten :: "'a option list \<Rightarrow> 'a list" where
  "flatten xs = List.map_filter (\<lambda>x. x) xs"

definition binding_modifier :: "binding_v2 \<Rightarrow> host_key_name option" where
  "binding_modifier b = Option.bind (b2_modifier b) key_parse"

definition suppress_by_sibling ::
  "layer_id \<Rightarrow> physical_input \<Rightarrow> binding_v2 \<times> layer_id \<Rightarrow> sibling_suppression \<Rightarrow> sibling_suppression option" where
  "suppress_by_sibling layer inp = (\<lambda>(sibling, sibling_layer) s.
     if sibling_layer \<noteq> layer then Some s
     else (case binding_modifier sibling of
             None \<Rightarrow> Some s
           | Some modifier \<Rightarrow>
               if list_ex (\<lambda>other. other = inp) (flatten (resolved_physical_inputs (b2_input sibling)))
               then suppression_add s inp modifier else Some s))"

fun fold_option :: "('x \<Rightarrow> 's \<Rightarrow> 's option) \<Rightarrow> 'x list \<Rightarrow> 's \<Rightarrow> 's option" where
  "fold_option f [] s = Some s"
| "fold_option f (x # xs) s = Option.bind (f x s) (fold_option f xs)"

definition precompute_sibling_suppression ::
  "binding_v2 \<Rightarrow> layer_id \<Rightarrow> (binding_v2 \<times> layer_id) list \<Rightarrow> sibling_suppression option" where
  "precompute_sibling_suppression b layer siblings =
     (if b2_modifier b \<noteq> None then Some suppression_new
      else fold_option (\<lambda>inp. fold_option (suppress_by_sibling layer inp) siblings)
             (flatten (resolved_physical_inputs (b2_input b))) suppression_new)"

definition allocate_contact_id :: "u16 \<Rightarrow> contact_id \<times> u16" where
  "allocate_contact_id next = (next, usat_add next 1)"

definition materialize_mouse_sensitivity :: "f64 \<Rightarrow> mouse_aim_sensitivity option" where
  "materialize_mouse_sensitivity value =
     (if \<not> is_finite value \<or> f_le value f_zero then None
      else let scaled = f_round (f_mul value (f_of_u32 1000))
           in if f_lt scaled f_one \<or> f_lt (f_of_u32 (- 1)) scaled then None
              else (case sensitivity_new (f_as_u32 scaled) 1000 of Inl _ \<Rightarrow> None | Inr s \<Rightarrow> Some s))"

text \<open>The geometry of a mouse aim region; \<open>left + (right - left) / 2\<close> is a pixel of it.\<close>

definition aim_region_of :: "normalized_rect \<Rightarrow> resolution \<Rightarrow> mouse_aim_region" where
  "aim_region_of r res =
     \<lparr>rg_left = materialize_axis (nrx r) (rwidth res), rg_top = materialize_axis (nry r) (rheight res),
      rg_right = materialize_axis (f_add (nrx r) (nrw r)) (rwidth res),
      rg_bottom = materialize_axis (f_add (nry r) (nrh r)) (rheight res)\<rparr>"

definition region_centre :: "mouse_aim_region \<Rightarrow> point" where
  "region_centre g =
     \<lparr>px = rg_left g + (rg_right g - rg_left g) div 2, py = rg_top g + (rg_bottom g - rg_top g) div 2\<rparr>"

definition materialize_ads ::
  "string \<Rightarrow> f64 option \<Rightarrow> plan_error + mouse_aim_sensitivity option" where
  "materialize_ads name ads =
     (case ads of
        None \<Rightarrow> Inr None
      | Some v \<Rightarrow> (case materialize_mouse_sensitivity v of
                     None \<Rightarrow> Inl (InvalidMouseAimSensitivity name v) | Some s \<Rightarrow> Inr (Some s)))"

definition materialize_action ::
  "binding_v2 \<Rightarrow> resolution \<Rightarrow> u16 \<Rightarrow> (u16, plan_error, runtime_action) st" where
  "materialize_action b res next =
     (case b2_action b of
        A2Tap p \<Rightarrow> (next, Inr (RTap (materialize p res)))
      | A2Hold p \<Rightarrow> (next, Inr (RHold (materialize p res)))
      | A2VirtualJoystick center radius dead_zone mode reaffirm_ms \<Rightarrow>
          let (k, next') = allocate_contact_id next
          in (next', case from_profile_v2_geometry k center radius dead_zone res of
                Inl err \<Rightarrow> Inl (InvalidVirtualJoystick (b2_name b) err)
              | Inr j \<Rightarrow> Inr (RVirtualJoystick j mode (map_option from_millis reaffirm_ms)))
      | A2MouseAim r sens toggle_key threshold gap_ms ads reaffirm_ms \<Rightarrow>
          let (k, next1) = allocate_contact_id next; (alternate, next2) = allocate_contact_id next1;
              region = aim_region_of r res
          in (next2, case materialize_mouse_sensitivity sens of
                None \<Rightarrow> Inl (InvalidMouseAimSensitivity (b2_name b) sens)
              | Some s \<Rightarrow>
                  (case mouse_aim_new k (region_centre region) region res s of
                     Inl err \<Rightarrow> Inl (InvalidMouseAim (b2_name b) err)
                   | Inr aim \<Rightarrow>
                       (case materialize_ads (b2_name b) ads of
                          Inl err \<Rightarrow> Inl err
                        | Inr ads' \<Rightarrow> Inr (RMouseAim aim
                            \<lparr>st_alternate = alternate, st_toggle_key = toggle_key,
                             st_threshold_milli = f_as_u16 (f_round (f_mul threshold (f_of_u32 1000))),
                             st_gap = from_millis gap_ms, st_ads = ads',
                             st_reaffirm = map_option from_millis reaffirm_ms\<rparr>))))
      | A2Macro _ \<Rightarrow> (next, Inl (PlanUnsupportedAction (b2_name b) ''macro'')))"

definition runtime_layer_of :: "nat \<Rightarrow> layer_v2 \<Rightarrow> runtime_layer option" where
  "runtime_layer_of index l =
     (let (key, mode) = (case l2_activation l of LHold k \<Rightarrow> (k, LmHold) | LToggle k \<Rightarrow> (k, LmToggle))
      in map_option (\<lambda>k. \<lparr>rl_name = l2_name l, rl_activation_key = k, rl_mode = mode, rl_id = of_nat index + 1\<rparr>)
           (key_parse key))"

fun runtime_layers :: "nat \<Rightarrow> layer_v2 list \<Rightarrow> runtime_layer list option" where
  "runtime_layers index [] = Some []"
| "runtime_layers index (l # ls) =
     Option.bind (runtime_layer_of index l) (\<lambda>x. map_option (\<lambda>xs. x # xs) (runtime_layers (Suc index) ls))"

fun modifier_keys :: "binding_v2 list \<Rightarrow> modifier_mask \<Rightarrow> modifier_mask option" where
  "modifier_keys [] m = Some m"
| "modifier_keys (b # bs) m =
     (case b2_modifier b of
        None \<Rightarrow> modifier_keys bs m
      | Some name \<Rightarrow> Option.bind (key_parse name) (\<lambda>k. modifier_keys bs (mask_insert k m)))"

fun plan_controls ::
  "(binding_v2 \<times> layer_id) list \<Rightarrow> resolution \<Rightarrow> (binding_v2 \<times> layer_id) list \<Rightarrow> u16
     \<Rightarrow> (plan_error + runtime_binding list) option" where
  "plan_controls siblings res [] next = Some (Inr [])"
| "plan_controls siblings res ((b, layer) # bs) next =
     (case materialize_action b res next of
        (next', Inl err) \<Rightarrow> Some (Inl err)
      | (next', Inr action) \<Rightarrow>
          Option.bind (precompute_sibling_suppression b layer siblings) (\<lambda>sup.
            map_option (\<lambda>rest. case rest of
                Inl err \<Rightarrow> Inl err
              | Inr cs \<Rightarrow> Inr (\<lparr>rb_name = b2_name b, rb_input = b2_input b, rb_action = action, rb_layer = layer,
                                rb_modifier = binding_modifier b, rb_suppression = sup\<rparr> # cs))
              (plan_controls siblings res bs next')))"

definition from_profile_v2 :: "profile_v2 \<Rightarrow> resolution \<Rightarrow> (plan_error + control_plan) option" where
  "from_profile_v2 p res =
     (case resolve_binding_layers p of
        Inl err \<Rightarrow> Some (Inl err)
      | Inr binding_layers \<Rightarrow>
          (case validate_profile_v2 p of
             Inl errors \<Rightarrow> Some (Inl (InvalidProfile errors))
           | Inr _ \<Rightarrow>
               Option.bind (runtime_layers 0 (p2_layers p)) (\<lambda>layers.
                 Option.bind (modifier_keys (p2_bindings p) MASK_EMPTY) (\<lambda>keys.
                   let bs = zip (p2_bindings p) binding_layers
                   in map_option (\<lambda>r. case r of
                          Inl err \<Rightarrow> Inl err
                        | Inr controls \<Rightarrow> Inr \<lparr>pl_profile_name = p2_name p, pl_package_name = p2_package_name p,
                            pl_resolution = res, pl_layers = layers, pl_modifier_keys = keys,
                            pl_controls = controls\<rparr>)
                        (plan_controls bs res bs 1)))))"

section \<open>Suppression is the sharing of an input\<close>

definition sup_used :: "sibling_suppression \<Rightarrow> modifier_sibling list" where
  "sup_used s = take (sup_len s) (sup_entries s)"

definition sup_has :: "sibling_suppression \<Rightarrow> physical_input \<Rightarrow> host_key_name \<Rightarrow> bool" where
  "sup_has s inp k \<longleftrightarrow> (\<exists>en \<in> set (sup_used s). sib_input en = inp \<and> mask_contains (sib_modifiers en) k)"

definition sup_inv :: "physical_input set \<Rightarrow> sibling_suppression \<Rightarrow> bool" where
  "sup_inv X s \<longleftrightarrow> length (sup_entries s) = 4 \<and> sup_len s \<le> 4 \<and> distinct (map sib_input (sup_used s))
     \<and> sib_input ` set (sup_used s) \<subseteq> X \<and> (\<forall>en \<in> set (sup_used s). mask_ok (sib_modifiers en))"

lemma sup_new: "sup_inv X suppression_new" "\<not> sup_has suppression_new inp k"
  by (simp_all add: sup_inv_def sup_has_def sup_used_def suppression_new_def)

lemma suppressed_iff:
  assumes "sup_inv X s"
  shows "suppression_is_suppressed s inp held \<longleftrightarrow> (\<exists>k. sup_has s inp k \<and> mask_contains held k)"
proof -
  have "mask_intersects (sib_modifiers en) held \<longleftrightarrow> (\<exists>k. mask_contains (sib_modifiers en) k \<and> mask_contains held k)"
    if "en \<in> set (sup_used s)" for en
    using assms that by (simp add: sup_inv_def mask_intersects_iff)
  then show ?thesis
    unfolding suppression_is_suppressed_def sup_has_def list_ex_iff sup_used_def [symmetric] by auto
qed

lemma suppression_add_ok:
  assumes inv: "sup_inv X s" and X: "finite X" "card X \<le> 4" and inp: "inp \<in> X"
  shows "\<exists>s'. suppression_add s inp k = Some s' \<and> sup_inv X s'
    \<and> (\<forall>i k'. sup_has s' i k' \<longleftrightarrow> sup_has s i k' \<or> (i = inp \<and> k' = k))"
proof (cases "find_position (\<lambda>en. sib_input en = inp) (sup_used s)")
  case (Some i)
  then have i: "i < length (sup_used s)" "sib_input (sup_used s ! i) = inp"
    by (simp_all add: find_position_Some)
  then have lt: "i < sup_len s" "sup_used s ! i = sup_entries s ! i" by (simp_all add: sup_used_def)
  let ?en = "(sup_entries s ! i)\<lparr>sib_modifiers := mask_insert k (sib_modifiers (sup_entries s ! i))\<rparr>"
  let ?s = "s\<lparr>sup_entries := (sup_entries s)[i := ?en]\<rparr>"
  have used: "sup_used ?s = (sup_used s)[i := ?en]"
    using lt by (simp add: sup_used_def take_update_swap)
  have inp_eq: "map sib_input (sup_used ?s) = map sib_input (sup_used s)"
    using i lt by (simp add: used map_update) (metis length_map list_update_id nth_map)
  have dist: "distinct (sup_used s)" using inv by (simp add: sup_inv_def distinct_map)
  let ?old = "sup_entries s ! i" and ?rest = "set (sup_used s) - {sup_entries s ! i}"
  have old: "?old \<in> set (sup_used s)" "sib_input ?old = inp" using i lt(2) nth_mem by metis+
  have split: "set (sup_used s) = insert ?old ?rest" using old by blast
  have new: "set (sup_used ?s) = insert ?en ?rest"
    using set_update_distinct [OF dist i(1)] by (simp only: used lt(2))
  have "sup_has ?s j k' \<longleftrightarrow> sup_has s j k' \<or> (j = inp \<and> k' = k)" for j k'
  proof -
    have "sup_has ?s j k' \<longleftrightarrow> (j = inp \<and> (k' = k \<or> mask_contains (sib_modifiers ?old) k'))
        \<or> (\<exists>en \<in> ?rest. sib_input en = j \<and> mask_contains (sib_modifiers en) k')"
      unfolding sup_has_def new using old(2) by auto
    moreover have "sup_has s j k' \<longleftrightarrow> (j = inp \<and> mask_contains (sib_modifiers ?old) k')
        \<or> (\<exists>en \<in> ?rest. sib_input en = j \<and> mask_contains (sib_modifiers en) k')"
      unfolding sup_has_def by (subst split) (use old(2) in auto)
    ultimately show ?thesis by blast
  qed
  moreover have "sup_inv X ?s"
    unfolding sup_inv_def inp_eq new
    using inv old mask_ok_ops(3) by (auto simp: sup_inv_def)
  ultimately show ?thesis using Some by (auto simp: suppression_add_def sup_used_def)
next
  case None
  then have new: "inp \<notin> sib_input ` set (sup_used s)"
    by (auto simp: find_position_None)
  have "sib_input ` set (sup_used s) \<subset> X" using inv new inp by (auto simp: sup_inv_def)
  from psubset_card_mono [OF X(1) this] X(2) have "card (sib_input ` set (sup_used s)) < 4" by linarith
  moreover have "card (sib_input ` set (sup_used s)) = length (sup_used s)"
    using inv distinct_card [of "map sib_input (sup_used s)"] by (simp add: sup_inv_def)
  moreover have "length (sup_used s) = sup_len s" using inv by (simp add: sup_inv_def sup_used_def)
  ultimately have len: "sup_len s < 4" by simp
  let ?en = "\<lparr>sib_input = inp, sib_modifiers = mask_from_key k\<rparr>"
  let ?s = "s\<lparr>sup_entries := (sup_entries s)[sup_len s := ?en], sup_len := sup_len s + 1\<rparr>"
  have used: "sup_used ?s = sup_used s @ [?en]"
    using inv len by (simp add: sup_used_def sup_inv_def take_Suc_conv_app_nth)
  have "sup_inv X ?s" using inv len new inp unfolding sup_inv_def used by (simp add: mask_ok_ops)
  moreover have "sup_has ?s i k' \<longleftrightarrow> sup_has s i k' \<or> (i = inp \<and> k' = k)" for i k'
    unfolding sup_has_def used by auto
  ultimately show ?thesis using None inv len by (auto simp: suppression_add_def sup_inv_def sup_used_def)
qed

definition physical_inputs :: "input_v2 \<Rightarrow> physical_input set" where
  "physical_inputs inp = set (flatten (resolved_physical_inputs inp))"

lemma physical_inputs_bound: "finite (physical_inputs inp)" "card (physical_inputs inp) \<le> 4"
proof -
  have "length (resolved_physical_inputs inp) = 4"
    by (simp add: resolved_physical_inputs_def Let_def split: input_v2.split)
  moreover have "length (flatten xs) \<le> length xs" for xs :: "'a option list"
    unfolding flatten_def by (induction xs) (auto simp: map_filter_simps split: option.split)
  ultimately have "length (flatten (resolved_physical_inputs inp)) \<le> 4" by metis
  then show "card (physical_inputs inp) \<le> 4"
    using card_length [of "flatten (resolved_physical_inputs inp)"] by (simp add: physical_inputs_def)
  show "finite (physical_inputs inp)" by (simp add: physical_inputs_def)
qed

text \<open>The siblings that suppress an input: same layer, a modifier, and that input among theirs.\<close>

definition suppressing :: "(binding_v2 \<times> layer_id) list \<Rightarrow> layer_id \<Rightarrow> physical_input \<Rightarrow> host_key_name \<Rightarrow> bool" where
  "suppressing siblings layer inp k \<longleftrightarrow>
     (\<exists>b. (b, layer) \<in> set siblings \<and> binding_modifier b = Some k \<and> inp \<in> physical_inputs (b2_input b))"

lemma suppress_siblings_ok:
  assumes X: "finite X" "card X \<le> 4" "inp \<in> X"
  shows "sup_inv X s \<Longrightarrow> \<exists>s'. fold_option (suppress_by_sibling layer inp) siblings s = Some s' \<and> sup_inv X s'
    \<and> (\<forall>i k. sup_has s' i k \<longleftrightarrow> sup_has s i k \<or> (i = inp \<and> suppressing siblings layer inp k))"
proof (induction siblings arbitrary: s)
  case Nil
  then show ?case by (simp add: suppressing_def)
next
  case (Cons x xs)
  obtain b l where x: "x = (b, l)" by fastforce
  let ?hit = "\<lambda>k. l = layer \<and> binding_modifier b = Some k \<and> inp \<in> physical_inputs (b2_input b)"
  have "\<exists>s1. suppress_by_sibling layer inp x s = Some s1 \<and> sup_inv X s1
      \<and> (\<forall>i k. sup_has s1 i k \<longleftrightarrow> sup_has s i k \<or> (i = inp \<and> ?hit k))"
  proof (cases "\<exists>k. ?hit k")
    case True
    then obtain k where k: "?hit k" by blast
    then have "suppress_by_sibling layer inp x s = suppression_add s inp k"
      by (simp add: x suppress_by_sibling_def list_ex_iff physical_inputs_def)
    with suppression_add_ok [OF Cons.prems X] k show ?thesis by (metis option.inject)
  next
    case False
    then have "suppress_by_sibling layer inp x s = Some s"
      by (auto simp: x suppress_by_sibling_def list_ex_iff physical_inputs_def split: option.split)
    with False Cons.prems show ?thesis by blast
  qed
  then obtain s1 where s1: "suppress_by_sibling layer inp x s = Some s1" "sup_inv X s1"
    "\<And>i k. sup_has s1 i k \<longleftrightarrow> sup_has s i k \<or> (i = inp \<and> ?hit k)" by blast
  from Cons.IH [OF s1(2)] obtain s2 where s2: "fold_option (suppress_by_sibling layer inp) xs s1 = Some s2"
    "sup_inv X s2" "\<And>i k. sup_has s2 i k \<longleftrightarrow> sup_has s1 i k \<or> (i = inp \<and> suppressing xs layer inp k)" by blast
  have "suppressing (x # xs) layer inp k \<longleftrightarrow> ?hit k \<or> suppressing xs layer inp k" for k
    by (auto simp: suppressing_def x)
  with s1 s2 show ?case by auto
qed

lemma suppress_inputs_ok:
  assumes X: "finite X" "card X \<le> 4"
  shows "set inps \<subseteq> X \<Longrightarrow> sup_inv X s \<Longrightarrow>
    \<exists>s'. fold_option (\<lambda>inp. fold_option (suppress_by_sibling layer inp) siblings) inps s = Some s' \<and> sup_inv X s'
    \<and> (\<forall>i k. sup_has s' i k \<longleftrightarrow> sup_has s i k \<or> (i \<in> set inps \<and> suppressing siblings layer i k))"
proof (induction inps arbitrary: s)
  case (Cons inp inps)
  then have "inp \<in> X" "set inps \<subseteq> X" by auto
  from suppress_siblings_ok [OF X this(1) Cons.prems(2), of layer siblings] obtain s1 where
    s1: "fold_option (suppress_by_sibling layer inp) siblings s = Some s1" "sup_inv X s1"
    "\<And>i k. sup_has s1 i k \<longleftrightarrow> sup_has s i k \<or> (i = inp \<and> suppressing siblings layer inp k)" by blast
  from Cons.IH [OF \<open>set inps \<subseteq> X\<close> s1(2)] s1 show ?case by auto
qed simp

lemma precompute_suppression:
  "\<exists>s. precompute_sibling_suppression b layer siblings = Some s
     \<and> (suppression_is_suppressed s inp held \<longleftrightarrow>
          b2_modifier b = None \<and> inp \<in> physical_inputs (b2_input b)
          \<and> (\<exists>k. mask_contains held k \<and> suppressing siblings layer inp k))"
proof (cases "b2_modifier b = None")
  case True
  let ?X = "physical_inputs (b2_input b)"
  have sub: "set (flatten (resolved_physical_inputs (b2_input b))) \<subseteq> ?X" by (simp add: physical_inputs_def)
  from suppress_inputs_ok [OF physical_inputs_bound sub sup_new(1), of layer siblings] obtain s where
    s: "precompute_sibling_suppression b layer siblings = Some s" "sup_inv ?X s"
    "\<And>i k. sup_has s i k \<longleftrightarrow> i \<in> ?X \<and> suppressing siblings layer i k"
    using True sup_new(2) by (auto simp: precompute_sibling_suppression_def physical_inputs_def)
  then show ?thesis using True suppressed_iff [OF s(2)] by auto
next
  case False
  then show ?thesis
    using suppressed_iff [OF sup_new(1)] sup_new(2) by (simp add: precompute_sibling_suppression_def)
qed

text \<open>Suppression is exact: a plain binding's input is suppressed exactly while a modifier is held under
  which another binding of the same layer claims that input; a binding with a modifier is never
  suppressed; and the table of four entries never overflows.\<close>

theorem sibling_suppression_exact:
  "\<exists>s. precompute_sibling_suppression b layer siblings = Some s
     \<and> (suppression_is_suppressed s inp held \<longleftrightarrow>
          b2_modifier b = None \<and> inp \<in> physical_inputs (b2_input b)
          \<and> (\<exists>k. mask_contains held k \<and> suppressing siblings layer inp k))"
  by (rule precompute_suppression)

end
