(* ===== verification/Plan.thy ===== *)
theory Plan
  imports Controls
begin

text \<open>
  What the materialised plan promises to the session: it exists for every valid profile whose
  actions the runtime supports, its points, joysticks and aim regions fit the surface, its inputs
  resolve, its layers have identifiers of the 64-bit layer mask, and its contact identifiers are
  allocated one after the other from 1.
\<close>

section \<open>A valid profile resolves\<close>

definition input_resolves :: "input_v2 \<Rightarrow> bool" where
  "input_resolves inp =
     (case inp of
        I2Key v \<Rightarrow> key_parse v \<noteq> None
      | I2KeyCluster up left down right \<Rightarrow>
          key_parse up \<noteq> None \<and> key_parse left \<noteq> None \<and> key_parse down \<noteq> None \<and> key_parse right \<noteq> None
      | I2MouseButton b \<Rightarrow> button_parse b \<noteq> None
      | I2MouseMove \<Rightarrow> True)"

lemma validate_input_resolves: "validate_input_v2 inp name = [] \<Longrightarrow> input_resolves inp"
  by (cases inp)
    (auto simp: validate_input_v2_def input_resolves_def key_parse_known button_parse_known split: if_splits)

lemma own_errors_Nil:
  assumes "binding_own_errors declared b = []"
  shows "input_resolves (b2_input b)" "validate_action_v2 (b2_action b) (b2_name b) = []"
    "required_input (b2_input b) (b2_action b) = None"
    "b2_layer b = Some l \<Longrightarrow> l \<in> declared"
    "b2_modifier b = Some m \<Longrightarrow> key_parse m \<noteq> None"
  using assms validate_input_resolves [of "b2_input b" "b2_name b"]
  by (auto simp: binding_own_errors_def validate_binding_compatibility_def modifier_errors_def key_parse_known
      split: option.splits if_splits)

lemma profile_layers_resolve: "profile_v2_ok p \<Longrightarrow> \<exists>ids. resolve_binding_layers p = Inr ids"
proof (cases "resolve_binding_layers p")
  case (Inl err)
  assume ok: "profile_v2_ok p"
  from Inl obtain b where b: "b \<in> set (p2_bindings p)" "resolve_layer p b = Inl err"
    unfolding resolve_binding_layers_def by (blast dest: collect_results_Inl)
  then obtain l where "b2_layer b = Some l" "\<forall>x \<in> set (p2_layers p). l2_name x \<noteq> l"
    by (auto simp: resolve_layer_def find_position_None split: option.splits)
  moreover have "binding_own_errors (set (map l2_name (p2_layers p))) b = []"
    using ok b(1) by (simp add: profile_v2_ok_def)
  ultimately show ?thesis using own_errors_Nil(4) by fastforce
qed simp

definition runtime_layer_matches :: "nat \<Rightarrow> layer_v2 \<Rightarrow> runtime_layer \<Rightarrow> bool" where
  "runtime_layer_matches i l r \<longleftrightarrow> rl_name r = l2_name l \<and> rl_id r = of_nat i + 1
     \<and> canonical_key (layer_activation_key (l2_activation l)) = profile_name (rl_activation_key r)"

lemma key_parse_canonical: "key_parse v = Some k \<Longrightarrow> canonical_key v = profile_name k"
proof -
  assume k: "key_parse v = Some k"
  then have "(canonical_key v, k) \<in> set PROFILE_NAMES"
    by (simp add: key_parse_def key_table.parse_name_iff canonical_key_def)
  moreover have "(profile_name k, k) \<in> set PROFILE_NAMES"
    using key_index_nth [of k] length_key_names unfolding profile_name_def by (metis nth_mem prod.collapse)
  ultimately show ?thesis
    using key_names_distinct(2) by (metis eq_key_imp_eq_value [of "map prod.swap PROFILE_NAMES"]
        distinct_map fst_conv inj_on_def prod.inject snd_conv)
qed

lemma runtime_layers_total:
  "(\<forall>l \<in> set ls. layer_ok l) \<Longrightarrow>
     \<exists>rs. runtime_layers i ls = Some rs \<and> length rs = length ls
       \<and> (\<forall>j < length ls. runtime_layer_matches (i + j) (ls ! j) (rs ! j))"
proof (induction ls arbitrary: i)
  case (Cons l ls)
  from Cons.IH [of "Suc i"] Cons.prems obtain rs where
    rs: "runtime_layers (Suc i) ls = Some rs" "length rs = length ls"
      "\<And>j. j < length ls \<Longrightarrow> runtime_layer_matches (Suc i + j) (ls ! j) (rs ! j)" by auto
  from Cons.prems obtain k where "key_parse (layer_activation_key (l2_activation l)) = Some k"
    by (auto simp: layer_ok_def key_parse_known)
  then obtain r where r: "runtime_layer_of i l = Some r" "runtime_layer_matches i l r"
    by (auto simp: runtime_layer_of_def runtime_layer_matches_def layer_activation_key_def key_parse_canonical
        split: layer_activation.splits)
  have "runtime_layer_matches (i + j) ((l # ls) ! j) ((r # rs) ! j)" if "j < length (l # ls)" for j
    using that r(2) rs(3) [of "j - 1"] by (cases j) auto
  with rs r(1) show ?case by auto
qed simp

lemma modifier_keys_total:
  "(\<And>b m. b \<in> set bs \<Longrightarrow> b2_modifier b = Some m \<Longrightarrow> key_parse m \<noteq> None) \<Longrightarrow> \<exists>m. modifier_keys bs m0 = Some m"
proof (induction bs arbitrary: m0)
  case (Cons b bs)
  have "\<exists>m. modifier_keys bs m1 = Some m" for m1 by (intro Cons.IH Cons.prems) auto
  then show ?case using Cons.prems [of b] by (auto split: option.splits)
qed simp

lemma suppression_total: "\<exists>s. precompute_sibling_suppression b layer siblings = Some s"
  using precompute_suppression by blast

lemma plan_controls_total: "\<exists>r. plan_controls siblings res bs n = Some r"
proof (induction bs arbitrary: n)
  case (Cons x bs)
  obtain b layer where x: "x = (b, layer)" by fastforce
  obtain s where s: "precompute_sibling_suppression b layer siblings = Some s" using suppression_total by blast
  show ?case
  proof (cases "materialize_action b res n")
    case (Pair n' r)
    from Cons [of n'] obtain r' where "plan_controls siblings res bs n' = Some r'" by blast
    with Pair s show ?thesis by (cases r) (auto simp: x)
  qed
qed simp

lemma from_profile_v2_cases:
  obtains (layer) err where "from_profile_v2 p res = Some (Inl err)" "resolve_binding_layers p = Inl err"
  | (invalid) errors where "from_profile_v2 p res = Some (Inl (InvalidProfile errors))" "\<not> profile_v2_ok p"
  | (action) ids err where "from_profile_v2 p res = Some (Inl err)" "profile_v2_ok p"
      "resolve_binding_layers p = Inr ids"
      "plan_controls (zip (p2_bindings p) ids) res (zip (p2_bindings p) ids) 1 = Some (Inl err)"
  | (plan) ids layers keys controls where "profile_v2_ok p" "resolve_binding_layers p = Inr ids"
      "runtime_layers 0 (p2_layers p) = Some layers" "modifier_keys (p2_bindings p) MASK_EMPTY = Some keys"
      "plan_controls (zip (p2_bindings p) ids) res (zip (p2_bindings p) ids) 1 = Some (Inr controls)"
      "from_profile_v2 p res = Some (Inr \<lparr>pl_profile_name = p2_name p, pl_package_name = p2_package_name p,
         pl_resolution = res, pl_layers = layers, pl_modifier_keys = keys, pl_controls = controls\<rparr>)"
proof (cases "resolve_binding_layers p")
  case (Inl err)
  then show ?thesis using layer by (simp add: from_profile_v2_def)
next
  case ids: (Inr ids)
  show ?thesis
  proof (cases "validate_profile_v2 p")
    case (Inl errors)
    then have "\<not> profile_v2_ok p" by (simp flip: validate_profile_v2_ok)
    with Inl ids show ?thesis using invalid by (simp add: from_profile_v2_def)
  next
    case valid: (Inr u)
    then have ok: "profile_v2_ok p" by (simp flip: validate_profile_v2_ok)
    then obtain layers where layers: "runtime_layers 0 (p2_layers p) = Some layers"
      using runtime_layers_total [of "p2_layers p" 0] by (auto simp: profile_v2_ok_def)
    have "key_parse m \<noteq> None" if "b \<in> set (p2_bindings p)" "b2_modifier b = Some m" for b m
      using ok that unfolding profile_v2_ok_def by (blast dest: own_errors_Nil(5))
    then obtain keys where keys: "modifier_keys (p2_bindings p) MASK_EMPTY = Some keys"
      using modifier_keys_total by blast
    let ?bs = "zip (p2_bindings p) ids"
    obtain r where r: "plan_controls ?bs res ?bs 1 = Some r" using plan_controls_total by blast
    show ?thesis
    proof (cases r)
      case (Inl err)
      with ids valid layers keys r show ?thesis using action [OF _ ok ids] by (simp add: from_profile_v2_def)
    next
      case (Inr controls)
      with ids valid layers keys r show ?thesis
        using plan [OF ok ids layers keys] by (simp add: from_profile_v2_def Let_def)
    qed
  qed
qed

section \<open>Numbers of a valid action\<close>

lemma materialize_axis_less: "limit \<noteq> 0 \<Longrightarrow> materialize_axis v limit < limit"
  using materialize_on_surface [of "\<lparr>rwidth = limit, rheight = limit\<rparr>" "\<lparr>npx = v, npy = v\<rparr>"]
  by (simp add: on_surface_def materialize_def)

lemma f_tenth: "mag (f_lit 1 10) = 4591870180066957722" "f_nonneg (f_lit 1 10)" "is_finite (f_lit 1 10)"
proof -
  have v: "round_frac 1 10 1074 = 4591870180066957722"
    apply (simp add: round_frac_def)
    apply (simp add: round_dyadic_def)
    apply (simp add: rhe_def)
    apply (simp add: INF_MAG_def)
    done
  show "mag (f_lit 1 10) = 4591870180066957722"
    unfolding f_lit_def v by (rule mag_mk) (simp add: INF_MAG_def)
  show "f_nonneg (f_lit 1 10)"
    unfolding f_lit_def v by (rule nonneg_mk) (simp_all add: INF_MAG_def)
  have "mag (mk_f64 False 4591870180066957722) = 4591870180066957722" by (rule mag_mk) (simp add: INF_MAG_def)
  then show "is_finite (f_lit 1 10)" unfolding f_lit_def v is_finite_def by (simp add: INF_MAG_def)
qed

lemma f_thousand: "mag (f_of_u32 1000) = 4652007308841189376"
proof -
  have v: "round_dyadic 1000 1074 = 4652007308841189376"
    apply (simp add: round_dyadic_def)
    apply (simp add: INF_MAG_def)
    done
  have u: "unat (1000 :: u32) = 1000" by simp
  show ?thesis unfolding f_of_u32_def u v by (rule mag_mk) (simp add: INF_MAG_def)
qed

lemma tenth_times_thousand: "mag (f_mul (f_lit 1 10) (f_of_u32 1000)) = 4636737291354636288"
proof -
  have m: "man 4591870180066957722 = 7205759403792794" "ex 4591870180066957722 = 1018"
    "man 4652007308841189376 = 8796093022208000" "ex 4652007308841189376 = 1031"
    by (simp_all add: man_def ex_def)
  have v: "round_dyadic (7205759403792794 * 8796093022208000) (int 1018 + int 1031 - 1074) = 4636737291354636288"
    apply (simp add: round_dyadic_def)
    apply (simp add: rhe_def)
    apply (simp add: INF_MAG_def)
    done
  show ?thesis
    unfolding f_mul_nonneg(2) [OF f_tenth(2,3) f_of_u32_nonneg(1) f_of_u32_finite] f_tenth(1) f_thousand m
    by (rule v)
qed

lemma nearest_consts: "nearest_int 4636737291354636288 = 100" "nearest_int 4652007308841189376 = 1000"
  by (simp_all add: nearest_int_def units_def man_def ex_def)

text \<open>A value of \<open>0.1..=1.0\<close> times 1000, rounded, is between 100 and 1000.\<close>

lemma tenth_to_one_scaled:
  assumes "tenth_to_one v"
  shows "f_nonneg (f_round (f_mul v (f_of_u32 1000)))" "is_finite v"
    "100 \<le> trunc_mag (mag (f_round (f_mul v (f_of_u32 1000))))"
    "trunc_mag (mag (f_round (f_mul v (f_of_u32 1000)))) \<le> 1000"
proof -
  have o: "ord (f_lit 1 10) \<le> ord v" "ord v \<le> ord f_one" "\<not> is_nan v"
    using assms by (simp_all add: tenth_to_one_def f_le_def)
  have nn: "f_nonneg v" using o f_nonneg_ord [OF f_tenth(2)] by (simp add: f_nonneg_def)
  have bounds: "mag (f_lit 1 10) \<le> mag v" "mag v \<le> mag f_one"
    using o f_nonneg_ord [OF nn] f_nonneg_ord [OF f_tenth(2)] by (simp_all add: f_const)
  show fin: "is_finite v" using bounds(2) f_one_finite(1) by (simp add: is_finite_def)
  let ?p = "f_mul v (f_of_u32 1000)"
  have lo: "4636737291354636288 \<le> mag ?p"
    using f_mul_mono [OF f_tenth(2,3) nn fin f_of_u32_nonneg(1) f_of_u32_finite bounds(1), of 1000]
    unfolding tenth_times_thousand .
  have "mag ?p \<le> mag (f_mul f_one (f_of_u32 1000))"
    by (rule f_mul_mono [OF nn fin f_one_finite(2,1) f_of_u32_nonneg(1) f_of_u32_finite bounds(2)])
  then have hi: "mag ?p \<le> 4652007308841189376" unfolding mag_mul_one f_thousand .
  have pnn: "f_nonneg ?p" by (rule f_mul_nonneg(1) [OF nn fin]) simp_all
  have pfin: "is_finite ?p" using hi by (simp add: is_finite_def INF_MAG_def)
  show "f_nonneg (f_round ?p)" by (rule f_round_nonneg(1) [OF pnn pfin])
  show "100 \<le> trunc_mag (mag (f_round ?p))" "trunc_mag (mag (f_round ?p)) \<le> 1000"
    unfolding trunc_mag_f_round [OF pnn pfin]
    using nearest_int_mono [OF lo] nearest_int_mono [OF hi] by (simp_all add: nearest_consts)
qed

lemma threshold_in_range:
  "tenth_to_one v \<Longrightarrow> 100 \<le> f_as_u16 (f_round (f_mul v (f_of_u32 1000)))
     \<and> f_as_u16 (f_round (f_mul v (f_of_u32 1000))) \<le> 1000"
  using tenth_to_one_scaled [of v] by (simp add: word_le_nat_alt unat_f_as_u16)

lemma trunc_f_of_u32: "trunc_mag (mag (f_of_u32 n)) = unat n"
  unfolding trunc_mag_units f_of_u32_nonneg(2) by simp

lemma tenth_to_one_sensitivity:
  assumes "tenth_to_one v" shows "\<exists>s. materialize_mouse_sensitivity v = Some s"
proof -
  let ?s = "f_round (f_mul v (f_of_u32 1000))"
  note b = tenth_to_one_scaled [OF assms]
  have o: "ord ?s = int (mag ?s)" by (rule f_nonneg_ord [OF b(1)])
  have "\<not> f_le v f_zero"
  proof
    assume "f_le v f_zero"
    then have "ord (f_lit 1 10) \<le> 0" using assms by (simp add: tenth_to_one_def f_le_def f_const)
    then show False unfolding f_nonneg_ord [OF f_tenth(2)] f_tenth(1) by simp
  qed
  moreover have "\<not> f_lt ?s f_one"
  proof
    assume "f_lt ?s f_one"
    then have "mag ?s \<le> mag f_one" by (simp add: f_lt_def o f_const)
    with trunc_mag_mono [OF this] b(3) show False by (simp add: trunc_mag_one)
  qed
  moreover have "\<not> f_lt (f_of_u32 (- 1)) ?s"
  proof
    assume "f_lt (f_of_u32 (- 1)) ?s"
    then have "mag (f_of_u32 (- 1)) \<le> mag ?s"
      by (simp add: f_lt_def o f_nonneg_ord [OF f_of_u32_nonneg(1)])
    from trunc_mag_mono [OF this] b(4) show False
      by (simp add: trunc_f_of_u32 unsigned_minus_1_eq_mask mask_eq_exp_minus_1)
  qed
  moreover have "f_as_u32 ?s \<noteq> 0"
  proof -
    have "unat (f_as_u32 ?s) \<noteq> 0" using b(3) by (simp add: unat_f_as_u32 [OF b(1)])
    then show ?thesis by (metis unat_0)
  qed
  ultimately show ?thesis using b(2) by (simp add: materialize_mouse_sensitivity_def Let_def sensitivity_new_def)
qed

section \<open>The region of a valid mouse aim\<close>

lemma materialize_axis_span:
  assumes "is_finite x" "is_finite w" "\<not> f_le w f_zero"
  shows "materialize_axis x limit \<le> materialize_axis (f_add x w) limit"
proof (cases "ord x < 0")
  case True
  then have "f_le x f_zero" using finite_not_nan [OF assms(1)] by (simp add: f_le_def f_const)
  then have "materialize_axis x limit = 0"
    using materialize_axis_mono [of x f_zero limit] by (simp add: materialize_axis_zero)
  then show ?thesis by simp
next
  case False
  have nn: "f_nonneg x" "f_nonneg w" using False assms finite_not_nan [OF assms(1)] finite_not_nan [OF assms(2)]
    by (auto simp: f_nonneg_def f_le_def f_const)
  note add = f_add_nonneg [OF nn(1) assms(1) nn(2) assms(2)]
  have "f_le x (f_add x w)"
    using add nn(1) by (simp add: f_le_def f_nonneg_ord) (simp add: f_nonneg_def)
  then show ?thesis by (rule materialize_axis_mono)
qed

lemma midpoint:
  fixes a b :: u32 assumes "a \<le> b"
  shows "a \<le> a + (b - a) div 2" "a + (b - a) div 2 \<le> b"
proof -
  have d: "unat (b - a) = unat b - unat a" by (rule unat_sub [OF assms])
  have le: "unat a \<le> unat b" using assms by (simp add: word_le_nat_alt)
  have lt: "unat b < 4294967296" using unsigned_less [of b, where ?'a = nat] by simp
  have "unat (a + (b - a) div 2) = (unat a + (unat b - unat a) div 2) mod 4294967296"
    by (simp add: unat_word_ariths(1) unat_div_distrib d)
  also have "\<dots> = unat a + (unat b - unat a) div 2" using le lt by simp
  finally have "unat (a + (b - a) div 2) = unat a + (unat b - unat a) div 2" .
  then show "a \<le> a + (b - a) div 2" "a + (b - a) div 2 \<le> b" using le by (simp_all add: word_le_nat_alt)
qed

lemma aim_region_ok:
  assumes "validate_rect r label = []" "rwidth res \<noteq> 0" "rheight res \<noteq> 0"
  shows "region_validate (aim_region_of r res) res = Inr (aim_region_of r res)"
    "region_contains (aim_region_of r res) (region_centre (aim_region_of r res))"
proof -
  let ?g = "aim_region_of r res"
  have lr: "rg_left ?g \<le> rg_right ?g" "rg_top ?g \<le> rg_bottom ?g"
    using assms(1) materialize_axis_span [of "nrx r" "nrw r"] materialize_axis_span [of "nry r" "nrh r"]
    by (auto simp: aim_region_of_def validate_rect_def normalized_def split: if_splits)
  have "rg_right ?g < rwidth res" "rg_bottom ?g < rheight res"
    using assms(2,3) by (simp_all add: aim_region_of_def materialize_axis_less)
  with lr assms(2,3) show "region_validate ?g res = Inr ?g" by (simp add: region_validate_def not_le not_less)
  show "region_contains ?g (region_centre ?g)"
    using midpoint [OF lr(1)] midpoint [OF lr(2)] by (simp add: region_contains_def region_centre_def)
qed

section \<open>Every control of a plan is sound\<close>

definition action_contacts :: "runtime_action \<Rightarrow> contact_id list" where
  "action_contacts a =
     (case a of
        RVirtualJoystick j _ _ \<Rightarrow> [vj_contact_id j]
      | RMouseAim aim s \<Rightarrow> [ma_contact_id aim, st_alternate s]
      | _ \<Rightarrow> [])"

definition action_ok :: "resolution \<Rightarrow> runtime_action \<Rightarrow> bool" where
  "action_ok res a =
     (case a of
        RTap p \<Rightarrow> on_surface res p
      | RHold p \<Rightarrow> on_surface res p
      | RVirtualJoystick j _ reaffirm \<Rightarrow> joystick_ok j \<and> vj_resolution j = res \<and> reaffirm \<noteq> Some 0
      | RMouseAim aim s \<Rightarrow>
          region_validate (ma_region aim) res = Inr (ma_region aim)
          \<and> region_contains (ma_region aim) (ma_origin aim)
          \<and> 100 \<le> st_threshold_milli s \<and> st_threshold_milli s \<le> 1000 \<and> st_reaffirm s \<noteq> Some 0)"

text \<open>The identifiers the actions use are the numbers \<open>1\<close>, \<open>2\<close>, \<open>\<dots>\<close> in their order.\<close>

definition plan_contacts :: "runtime_binding list \<Rightarrow> nat list" where
  "plan_contacts cs = map unat (concat (map (\<lambda>c. action_contacts (rb_action c)) cs))"

definition plan_ok :: "control_plan \<Rightarrow> bool" where
  "plan_ok plan \<longleftrightarrow>
     (\<forall>c \<in> set (pl_controls plan). action_ok (pl_resolution plan) (rb_action c) \<and> input_resolves (rb_input c)
        \<and> rb_layer c \<in> insert LAYER_BASE (rl_id ` set (pl_layers plan)))
     \<and> map rl_id (pl_layers plan) = map (\<lambda>i. of_nat i + 1) [0..<length (pl_layers plan)]
     \<and> length (pl_layers plan) \<le> 64
     \<and> distinct (map rl_activation_key (pl_layers plan))
     \<and> (\<exists>n. plan_contacts (pl_controls plan) = [1..<n] \<and> n \<le> 1 + 2 * length (pl_controls plan))"

lemma joystick_of_profile:
  assumes "rwidth res \<noteq> 0" "rheight res \<noteq> 0"
  obtains j where "from_profile_v2_geometry k center r d res = Inr j" "joystick_ok j" "vj_contact_id j = k"
    "vj_resolution j = res"
proof -
  let ?g = "from_profile_v2_geometry k center r d res"
  have geo: "materialize_radius r res \<noteq> 0"
    "materialize_dead_zone d (materialize_radius r res) res < materialize_radius r res"
    using joystick_geometry(1) [of r res] joystick_geometry(2) [of d r res] by auto
  have "on_surface res (materialize center res)" by (intro materialize_on_surface assms)
  then have "\<not> rwidth res \<le> px (materialize center res)" "\<not> rheight res \<le> py (materialize center res)"
    "\<not> materialize_radius r res \<le> materialize_dead_zone d (materialize_radius r res) res"
    using geo by (simp_all add: on_surface_def not_le)
  with geo(1) assms have "?g = Inr \<lparr>vj_contact_id = k, vj_center = materialize center res,
      vj_radius = materialize_radius r res, vj_dead_zone = materialize_dead_zone d (materialize_radius r res) res,
      vj_resolution = res\<rparr>"
    by (simp add: from_profile_v2_geometry_def Let_def new_with_dead_zone_def)
  then obtain j where "?g = Inr j" "vj_contact_id j = k" "vj_resolution j = res" by simp
  moreover from this(1) have "joystick_ok j"
    by (auto simp: from_profile_v2_geometry_def Let_def dest: new_with_dead_zone_ok)
  ultimately show thesis using that by blast
qed

text \<open>The actions the runtime cannot perform: a macro, and a sensitivity below \<open>0.0005\<close> or beyond \<open>u32\<close>.\<close>

definition action_supported :: "action_v2 \<Rightarrow> bool" where
  "action_supported a =
     (case a of
        A2Macro _ \<Rightarrow> False
      | A2MouseAim _ sens _ _ _ _ _ \<Rightarrow> materialize_mouse_sensitivity sens \<noteq> None
      | _ \<Rightarrow> True)"

lemma unat_succ_sat: "unat n < 65535 \<Longrightarrow> unat (usat_add n 1 :: u16) = unat n + 1"
  by (simp add: unat_usat_add)

definition action_result_ok :: "resolution \<Rightarrow> u16 \<Rightarrow> (u16, plan_error, runtime_action) st \<Rightarrow> bool" where
  "action_result_ok res n r =
     (case r of
        (n', Inr a) \<Rightarrow> action_ok res a
          \<and> (unat n + 2 \<le> 65535 \<longrightarrow>
              map unat (action_contacts a) = [unat n..<unat n'] \<and> unat n \<le> unat n' \<and> unat n' \<le> unat n + 2)
      | (n', Inl err) \<Rightarrow> False)"

lemma materialize_aim_ok:
  assumes a: "b2_action b = A2MouseAim r sens toggle thr gap ads reaffirm"
    and v: "validate_action_v2 (b2_action b) (b2_name b) = []"
    and s: "materialize_mouse_sensitivity sens = Some s"
    and dim: "rwidth res \<noteq> 0" "rheight res \<noteq> 0"
  shows "action_result_ok res n (materialize_action b res n)"
proof -
  have errs: "mouse_aim_errors r sens toggle thr ads reaffirm (b2_name b) = []" using v by (simp add: a)
  let ?g = "aim_region_of r res"
  have rect: "validate_rect r (''binding '' @ b2_name b @ '' mouse_aim region'') = []"
    and thr: "tenth_to_one thr" and reaff: "reaffirm \<noteq> Some 0"
    and ads: "\<And>x. ads = Some x \<Longrightarrow> tenth_to_one x"
    using errs by (auto simp: mouse_aim_errors_def split: if_splits)
  note reg = aim_region_ok [OF rect dim]
  obtain aim where aim: "mouse_aim_new n (region_centre ?g) ?g res s = Inr aim" "ma_contact_id aim = n"
    "ma_region aim = ?g" "ma_origin aim = region_centre ?g"
    using reg by (auto simp: mouse_aim_new_def)
  have "\<exists>x. materialize_ads (b2_name b) ads = Inr x"
    using ads tenth_to_one_sensitivity by (cases ads) (fastforce simp: materialize_ads_def)+
  then obtain x where x: "materialize_ads (b2_name b) ads = Inr x" by blast
  have ids: "unat n + 2 \<le> 65535 \<Longrightarrow> [unat n, unat (usat_add n 1)] = [unat n..<unat (usat_add (usat_add n 1) 1)]"
    "unat n + 2 \<le> 65535 \<Longrightarrow> unat (usat_add (usat_add n 1) 1) = unat n + 2"
    using unat_succ_sat [of n] unat_succ_sat [of "usat_add n 1"] by (simp_all add: upt_rec)
  show ?thesis
    using aim reg threshold_in_range [OF thr] reaff ids
    by (simp add: materialize_action_def a allocate_contact_id_def Let_def s x action_result_ok_def action_ok_def
        action_contacts_def)
qed

lemma materialize_action_ok:
  assumes v: "validate_action_v2 (b2_action b) (b2_name b) = []" and sup: "action_supported (b2_action b)"
    and dim: "rwidth res \<noteq> 0" "rheight res \<noteq> 0"
  shows "action_result_ok res n (materialize_action b res n)"
proof (cases "b2_action b")
  case (A2VirtualJoystick center r d mode reaffirm)
  obtain j where "from_profile_v2_geometry n center r d res = Inr j" "joystick_ok j" "vj_contact_id j = n"
    "vj_resolution j = res" using joystick_of_profile [OF dim] .
  moreover have "reaffirm \<noteq> Some 0" using v by (auto simp: A2VirtualJoystick joystick_errors_def split: if_splits)
  moreover have "unat n + 2 \<le> 65535 \<Longrightarrow> [unat n] = [unat n..<unat (usat_add n 1)]"
    using unat_succ_sat [of n] by simp
  ultimately show ?thesis using unat_succ_sat [of n]
    by (simp add: materialize_action_def A2VirtualJoystick allocate_contact_id_def action_result_ok_def
        action_ok_def action_contacts_def)
next
  case (A2MouseAim r sens toggle thr gap ads reaffirm)
  with sup obtain s where "materialize_mouse_sensitivity sens = Some s" by (auto simp: action_supported_def)
  then show ?thesis by (rule materialize_aim_ok [OF A2MouseAim v _ dim])
qed (use sup dim in \<open>auto simp: materialize_action_def action_result_ok_def action_ok_def action_contacts_def
       materialize_on_surface action_supported_def\<close>)

lemma materialize_action_supported:
  "materialize_action b res n = (n', Inr a) \<Longrightarrow> action_supported (b2_action b)"
  by (auto simp: materialize_action_def action_supported_def allocate_contact_id_def Let_def
      split: action_v2.splits option.splits sum.splits)

definition binding_materialised :: "binding_v2 \<times> layer_id \<Rightarrow> runtime_binding \<Rightarrow> bool" where
  "binding_materialised = (\<lambda>(b, layer) c. rb_name c = b2_name b \<and> rb_input c = b2_input b \<and> rb_layer c = layer
     \<and> rb_modifier c = binding_modifier b)"

lemma plan_controls_Cons:
  "plan_controls siblings res ((b, layer) # bs) n = Some (Inr cs) \<longleftrightarrow>
     (\<exists>n' a s cs'. materialize_action b res n = (n', Inr a)
        \<and> precompute_sibling_suppression b layer siblings = Some s
        \<and> plan_controls siblings res bs n' = Some (Inr cs')
        \<and> cs = \<lparr>rb_name = b2_name b, rb_input = b2_input b, rb_action = a, rb_layer = layer,
                 rb_modifier = binding_modifier b, rb_suppression = s\<rparr> # cs')"
proof (cases "materialize_action b res n")
  case (Pair n' r)
  obtain s where s: "precompute_sibling_suppression b layer siblings = Some s" using suppression_total by blast
  obtain rest where "plan_controls siblings res bs n' = Some rest" using plan_controls_total by blast
  with Pair s show ?thesis by (cases r; cases rest) auto
qed

lemma plan_controls_sound:
  assumes dim: "rwidth res \<noteq> 0" "rheight res \<noteq> 0"
  shows "plan_controls siblings res bs n = Some (Inr cs) \<Longrightarrow>
    (\<forall>(b, l) \<in> set bs. validate_action_v2 (b2_action b) (b2_name b) = []) \<Longrightarrow>
    list_all2 (\<lambda>bl c. binding_materialised bl c \<and> action_ok res (rb_action c)) bs cs
    \<and> (\<forall>(b, l) \<in> set bs. action_supported (b2_action b))
    \<and> (unat n + 2 * length bs \<le> 65535 \<longrightarrow>
        (\<exists>n'. plan_contacts cs = [unat n..<n'] \<and> unat n \<le> n' \<and> n' \<le> unat n + 2 * length bs))"
proof (induction bs arbitrary: n cs)
  case Nil
  then show ?case by (auto simp: plan_contacts_def intro: exI [of _ "unat n"])
next
  case (Cons x bs)
  obtain b layer where x: "x = (b, layer)" by fastforce
  from Cons.prems(1) obtain n1 a s cs' where step: "materialize_action b res n = (n1, Inr a)"
    and rest: "plan_controls siblings res bs n1 = Some (Inr cs')"
    and cs: "cs = \<lparr>rb_name = b2_name b, rb_input = b2_input b, rb_action = a, rb_layer = layer,
                 rb_modifier = binding_modifier b, rb_suppression = s\<rparr> # cs'"
    unfolding x plan_controls_Cons by blast
  have sup: "action_supported (b2_action b)" by (rule materialize_action_supported [OF step])
  have "action_result_ok res n (n1, Inr a)"
    using materialize_action_ok [OF _ sup dim, of n] Cons.prems(2) by (auto simp: step x)
  then have a: "action_ok res a" "unat n + 2 \<le> 65535 \<Longrightarrow> map unat (action_contacts a) = [unat n..<unat n1]
      \<and> unat n \<le> unat n1 \<and> unat n1 \<le> unat n + 2"
    by (auto simp: action_result_ok_def)
  note IH = Cons.IH [OF rest] 
  have alloc: "\<exists>n'. plan_contacts cs = [unat n..<n'] \<and> unat n \<le> n' \<and> n' \<le> unat n + 2 * length (x # bs)"
    if le: "unat n + 2 * length (x # bs) \<le> 65535"
  proof -
    from le a(2) have h: "map unat (action_contacts a) = [unat n..<unat n1]" "unat n \<le> unat n1" "unat n1 \<le> unat n + 2"
      by simp_all
    with le IH Cons.prems(2) obtain n' where "plan_contacts cs' = [unat n1..<n']" "unat n1 \<le> n'"
      "n' \<le> unat n1 + 2 * length bs" by auto
    moreover from this have "[unat n..<n'] = [unat n..<unat n1] @ [unat n1..<n']"
      using h(2) upt_add_eq_append [of "unat n" "unat n1" "n' - unat n1"] by simp
    ultimately show ?thesis using h by (intro exI [of _ n']) (simp add: cs plan_contacts_def)
  qed
  with IH Cons.prems(2) a(1) sup show ?case by (simp add: cs x binding_materialised_def)
qed

lemma plan_controls_accepts:
  assumes dim: "rwidth res \<noteq> 0" "rheight res \<noteq> 0"
  shows "(\<forall>(b, l) \<in> set bs. validate_action_v2 (b2_action b) (b2_name b) = [] \<and> action_supported (b2_action b)) \<Longrightarrow>
    \<exists>cs. plan_controls siblings res bs n = Some (Inr cs)"
proof (induction bs arbitrary: n)
  case (Cons x bs)
  obtain b layer where x: "x = (b, layer)" by fastforce
  have "action_result_ok res n (materialize_action b res n)"
    using materialize_action_ok [OF _ _ dim] Cons.prems by (auto simp: x)
  then obtain n1 a where "materialize_action b res n = (n1, Inr a)"
    by (auto simp: action_result_ok_def split: prod.splits sum.splits)
  moreover obtain cs where "plan_controls siblings res bs n1 = Some (Inr cs)" using Cons by auto
  ultimately show ?case using suppression_total [of b layer siblings] unfolding x plan_controls_Cons by blast
qed simp

lemma resolve_layer_ids:
  assumes "resolve_layer p b = Inr i" "length (p2_layers p) \<le> 64"
  shows "i = LAYER_BASE \<or> (\<exists>j < length (p2_layers p). i = of_nat j + 1)"
  using assms by (auto simp: resolve_layer_def find_position_Some split: option.splits)

lemma valid_binding_actions:
  assumes "profile_v2_ok p" "(b, l) \<in> set (zip (p2_bindings p) ids)"
  shows "validate_action_v2 (b2_action b) (b2_name b) = []" "input_resolves (b2_input b)"
proof -
  have "b \<in> set (p2_bindings p)" using assms(2) by (auto dest: set_zip_leftD)
  then have "binding_own_errors (set (map l2_name (p2_layers p))) b = []"
    using assms(1) by (simp add: profile_v2_ok_def)
  then show "validate_action_v2 (b2_action b) (b2_name b) = []" "input_resolves (b2_input b)"
    by (rule own_errors_Nil)+
qed

lemma runtime_layers_ids:
  assumes ok: "profile_v2_ok p" and rs: "runtime_layers 0 (p2_layers p) = Some rs"
  shows "length rs = length (p2_layers p)" "map rl_id rs = map (\<lambda>i. of_nat i + 1) [0..<length rs]"
    "distinct (map rl_activation_key rs)"
proof -
  have "\<forall>l \<in> set (p2_layers p). layer_ok l" using ok by (simp add: profile_v2_ok_def)
  from runtime_layers_total [OF this, of 0] rs show len: "length rs = length (p2_layers p)" by auto
  have m: "runtime_layer_matches j (p2_layers p ! j) (rs ! j)" if "j < length rs" for j
    using runtime_layers_total [OF \<open>\<forall>l \<in> set (p2_layers p). layer_ok l\<close>, of 0] rs that len by auto
  show "map rl_id rs = map (\<lambda>i. of_nat i + 1) [0..<length rs]"
    using m by (intro nth_equalityI) (auto simp: runtime_layer_matches_def)
  have "distinct (map activation_key_of (p2_layers p))" using ok by (simp add: profile_v2_ok_def)
  moreover have "map activation_key_of (p2_layers p) = map (\<lambda>r. profile_name (rl_activation_key r)) rs"
    using m len by (intro nth_equalityI) (auto simp: runtime_layer_matches_def activation_key_of_def)
  ultimately have "distinct (map profile_name (map rl_activation_key rs))" by (simp add: comp_def)
  then show "distinct (map rl_activation_key rs)" by (simp only: distinct_map)
qed

lemma plan_of_valid_profile:
  assumes r: "from_profile_v2 p res = Some (Inr plan)" and dim: "0 < rwidth res" "0 < rheight res"
    and size: "2 * length (p2_bindings p) < 65535"
  shows "plan_ok plan"
  using r
proof (cases rule: from_profile_v2_cases [of p res])
  case (plan ids layers keys controls)
  let ?bs = "zip (p2_bindings p) ids"
  have dim': "rwidth res \<noteq> 0" "rheight res \<noteq> 0" using dim by auto
  have len: "length ids = length (p2_bindings p)" "length (p2_layers p) \<le> 64"
    using collect_results_length plan(1,2) by (auto simp: resolve_binding_layers_def profile_v2_ok_def)
  note layers = runtime_layers_ids [OF plan(1,3)]
  have valid: "\<forall>(b, l) \<in> set ?bs. validate_action_v2 (b2_action b) (b2_name b) = []"
    using valid_binding_actions(1) [OF plan(1)] by auto
  have ids: "i = LAYER_BASE \<or> i \<in> rl_id ` set layers" if "(b, i) \<in> set ?bs" for b i
  proof -
    from that plan(2) have "resolve_layer p b = Inr i"
      by (auto simp: resolve_binding_layers_def collect_results_Inr_iff set_zip list_all2_conv_all_nth)
    then consider "i = LAYER_BASE" | j where "j < length layers" "i = of_nat j + 1"
      using resolve_layer_ids len(2) layers(1) by metis
    then show ?thesis
    proof cases
      case (2 j)
      then have "i = map rl_id layers ! j" by (simp only: layers(2)) simp
      with 2(1) have "i = rl_id (layers ! j)" by simp
      with 2(1) show ?thesis by (metis imageI nth_mem)
    qed simp
  qed
  note sound = plan_controls_sound [OF dim' plan(5) valid]
  have rel: "list_all2 (\<lambda>bl c. binding_materialised bl c \<and> action_ok res (rb_action c)) ?bs controls"
    using sound by blast
  have ctl: "action_ok res (rb_action c) \<and> input_resolves (rb_input c) \<and> rb_layer c \<in> insert LAYER_BASE (rl_id ` set layers)"
    if "c \<in> set controls" for c
  proof -
    from that obtain j where j: "j < length controls" "c = controls ! j" by (auto simp: in_set_conv_nth)
    obtain b i where bi: "?bs ! j = (b, i)" by fastforce
    have "j < length ?bs" using j(1) list_all2_lengthD [OF rel] by simp
    then have "?bs ! j \<in> set ?bs" by (rule nth_mem)
    then have b: "(b, i) \<in> set ?bs" "binding_materialised (b, i) c" "action_ok res (rb_action c)"
      using list_all2_nthD2 [OF rel j(1)] by (simp_all only: bi j(2))
    with ids [OF b(1)] valid_binding_actions(2) [OF plan(1) b(1)] show ?thesis
      by (auto simp: binding_materialised_def)
  qed
  have "length controls = length (p2_bindings p)" using rel len(1) by (auto dest: list_all2_lengthD)
  then have alloc: "\<exists>n. plan_contacts controls = [1..<n] \<and> n \<le> 1 + 2 * length controls"
    using sound size len(1) by auto
  have eqs: "pl_controls plan = controls" "pl_layers plan = layers" "pl_resolution plan = res"
    using r plan(6) by auto
  have le: "length layers \<le> 64" using layers(1) len(2) by simp
  show ?thesis unfolding plan_ok_def eqs
    by (intro conjI ballI) (use ctl in blast, use ctl in blast, use ctl in blast, rule layers(2), rule le, rule layers(3), rule alloc)
qed (use r in auto)

lemma plan_controls_supported:
  "plan_controls siblings res bs n = Some (Inr cs) \<Longrightarrow> list_all (\<lambda>(b, l). action_supported (b2_action b)) bs"
proof (induction bs arbitrary: n cs)
  case (Cons x bs)
  obtain b l where x: "x = (b, l)" by fastforce
  from Cons.prems obtain n1 a cs' where "materialize_action b res n = (n1, Inr a)"
    "plan_controls siblings res bs n1 = Some (Inr cs')"
    unfolding x plan_controls_Cons by blast
  with Cons.IH show ?case by (simp add: x materialize_action_supported)
qed simp

definition profile_supported :: "profile_v2 \<Rightarrow> bool" where
  "profile_supported p \<longleftrightarrow> list_all (\<lambda>b. action_supported (b2_action b)) (p2_bindings p)"

lemma list_all_zip_fst:
  assumes "length ys = length xs" shows "list_all (\<lambda>(x, y). Q x) (zip xs ys) \<longleftrightarrow> list_all Q xs"
  using assms by (induction ys xs rule: list_induct2) auto

lemma profile_supported_zip:
  assumes "resolve_binding_layers p = Inr ids"
  shows "list_all (\<lambda>(b, l). action_supported (b2_action b)) (zip (p2_bindings p) ids) \<longleftrightarrow> profile_supported p"
  unfolding profile_supported_def
  by (rule list_all_zip_fst) (rule collect_results_length [OF assms [unfolded resolve_binding_layers_def]])

lemma from_profile_v2_accepts:
  assumes ok: "profile_v2_ok p" and dim: "0 < rwidth res" "0 < rheight res" and sup: "profile_supported p"
  shows "\<exists>plan. from_profile_v2 p res = Some (Inr plan)"
proof (cases rule: from_profile_v2_cases [of p res])
  case (layer err)
  with profile_layers_resolve [OF ok] show ?thesis by simp
next
  case (action ids err)
  have dim': "rwidth res \<noteq> 0" "rheight res \<noteq> 0" using dim by auto
  have "\<forall>(b, l) \<in> set (zip (p2_bindings p) ids).
      validate_action_v2 (b2_action b) (b2_name b) = [] \<and> action_supported (b2_action b)"
    using valid_binding_actions(1) [OF ok, of _ _ ids] sup
    unfolding profile_supported_zip [OF action(3), symmetric] list_all_iff by blast
  from plan_controls_accepts [OF dim' this] obtain cs
    where "plan_controls (zip (p2_bindings p) ids) res (zip (p2_bindings p) ids) 1 = Some (Inr cs)" by blast
  with action(4) show ?thesis by simp
qed (use ok in auto)

text \<open>C40. The plan of a profile never panics, and on a surface that is not empty it is refused exactly
  for a profile the validator refuses, a macro, or a mouse sensitivity outside the fixed-point range:
  unknown layers, joystick geometry and aim geometry, which have errors of their own, cannot occur
  for a valid profile.\<close>

theorem from_profile_v2_outcome:
  "case from_profile_v2 p res of
     None \<Rightarrow> False
   | Some (Inr plan) \<Rightarrow> profile_v2_ok p \<and> profile_supported p
   | Some (Inl err) \<Rightarrow>
       \<not> (profile_v2_ok p \<and> profile_supported p \<and> rwidth res \<noteq> 0 \<and> rheight res \<noteq> 0)"
proof (cases rule: from_profile_v2_cases [of p res])
  case (layer err)
  with profile_layers_resolve [of p] show ?thesis by auto
next
  case (action ids err)
  with from_profile_v2_accepts [of p res] show ?thesis by (auto simp: word_gt_0)
next
  case (plan ids layers keys controls)
  have "profile_supported p"
    using plan_controls_supported [OF plan(5)] by (simp only: profile_supported_zip [OF plan(2)])
  with plan(1,6) show ?thesis by simp
qed simp

text \<open>C7. The plan of a profile is sound: every point, joystick and aim region fits the surface, every
  input resolves and refers to a declared layer, the layers are numbered from 1 and have distinct
  keys, and the contact identifiers are 1, 2, and so on, no two alike.\<close>

theorem plan_sound:
  assumes "from_profile_v2 p res = Some (Inr plan)" and "0 < rwidth res" "0 < rheight res"
    and "2 * length (p2_bindings p) < 65535"
  shows "plan_ok plan"
  by (rule plan_of_valid_profile [OF assms])

section \<open>An example\<close>

lemma finite_epsilon: "is_finite EPSILON" "f_nonneg EPSILON" "\<not> f_neg_bit EPSILON"
proof -
  have v: "round_frac 1 1000000000 1074 = 4472406533629990549"
    apply (simp add: round_frac_def)
    apply (simp add: round_dyadic_def)
    apply (simp add: rhe_def)
    apply (simp add: INF_MAG_def)
    done
  have m: "mag (mk_f64 False 4472406533629990549) = 4472406533629990549" by (rule mag_mk) (simp add: INF_MAG_def)
  show "is_finite EPSILON" unfolding EPSILON_def f_lit_def v is_finite_def m by (simp add: INF_MAG_def)
  show "f_nonneg EPSILON" unfolding EPSILON_def f_lit_def v by (rule nonneg_mk) (simp_all add: INF_MAG_def)
  have "f_neg_bit (mk_f64 False 4472406533629990549) = False" by (rule neg_bit_mk) (simp add: INF_MAG_def)
  then show "\<not> f_neg_bit EPSILON" unfolding EPSILON_def f_lit_def v by simp
qed

lemma normalized_unit: "normalized f_zero" "normalized f_one"
proof -
  have "\<not> is_nan (f_neg EPSILON) \<and> ord (f_neg EPSILON) \<le> 0"
    using finite_epsilon(1,3) by (simp add: f_neg_def is_finite_def is_nan_def ord_def)
  moreover have "f_nonneg (f_add f_one EPSILON)" "mag f_one \<le> mag (f_add f_one EPSILON)"
    using f_add_nonneg [OF f_one_finite(2,1) finite_epsilon(2,1)] by simp_all
  ultimately show "normalized f_zero" "normalized f_one"
    by (auto simp: normalized_def f_le_def f_const f_nonneg_ord f_nonneg_def)
qed

definition example_layer :: layer_v2 where
  "example_layer = \<lparr>l2_name = ''combat'', l2_activation = LHold ''alt''\<rparr>"

definition example_binding :: "string \<Rightarrow> input_v2 \<Rightarrow> action_v2 \<Rightarrow> string option \<Rightarrow> binding_v2" where
  "example_binding name inp a layer =
     \<lparr>b2_name = name, b2_layer = layer, b2_modifier = None, b2_input = inp, b2_action = a\<rparr>"

definition example_profile_v2 :: profile_v2 where
  "example_profile_v2 = \<lparr>p2_schema_version = 2, p2_name = ''demo'', p2_package_name = ''com.game'',
     p2_orientation = Landscape, p2_layers = [example_layer],
     p2_bindings =
       [example_binding ''fire'' (I2MouseButton ''left'') (A2Hold \<lparr>npx = f_one, npy = f_zero\<rparr>) None,
        example_binding ''jump'' (I2Key ''space'') (A2Tap \<lparr>npx = f_zero, npy = f_one\<rparr>) (Some ''combat''),
        example_binding ''look'' I2MouseMove
          (A2MouseAim \<lparr>nrx = f_zero, nry = f_zero, nrw = f_one, nrh = f_one\<rparr> f_one None f_one 0 None None) None]\<rparr>"

lemma f_add_zero_one: "f_add f_zero f_one = f_one"
proof -
  have m: "man 4607182418800017408 = 4503599627370496" "ex 4607182418800017408 = 1022" "man 0 = 0" "ex 0 = 0"
    by (simp_all add: man_def ex_def)
  have "round_dyadic (4503599627370496 * 2 ^ 1022) 0 = mag f_one"
  proof (rule round_dyadic_exact [where d = 0])
    show "mag f_one < INF_MAG" using f_one_finite(1) by (simp add: is_finite_def)
    show "4503599627370496 * 2 ^ 1022 * 2 ^ nat (0 + int 0) = units (mag f_one) * 2 ^ 0"
      by (simp add: units_def m f_const)
  qed simp
  then have r: "round_dyadic (nat \<bar>int 0 * 2 ^ (0 - 0) + int 4503599627370496 * 2 ^ (1022 - 0)\<bar>) (int 0) = mag f_one"
    by simp
  have "f_add f_zero f_one = mk_f64 False (mag f_one)"
    using finite_not_nan [OF f_one_finite(1)] finite_not_nan [OF f_one_finite(3)] r
    by (simp add: f_add_def Let_def signed_man_def m f_const)
  also have "\<dots> = f_one" unfolding f_const(2) by (simp add: mk_f64_def f_one_def)
  finally show ?thesis .
qed

lemma tenth_to_one_one: "tenth_to_one f_one"
proof -
  have "\<not> is_nan (f_lit 1 10)" using finite_not_nan [OF f_tenth(3)] by simp
  then show ?thesis unfolding tenth_to_one_def f_le_def f_nonneg_ord [OF f_tenth(2)] f_tenth(1) f_const using f_const(6) by simp
qed

lemma example_names:
  "trim ''demo'' = ''demo''" "trim ''com.game'' = ''com.game''" "trim ''combat'' = ''combat''"
  "trim ''fire'' = ''fire''" "trim ''jump'' = ''jump''" "trim ''look'' = ''look''" "trim ''alt'' = ''alt''"
  "trim ''space'' = ''space''" "trim ''left'' = ''left''" "to_ascii_lowercase ''alt'' = ''alt''"
  "to_ascii_lowercase ''space'' = ''space''" "to_ascii_lowercase ''left'' = ''left''"
  "eq_ignore_ascii_case ''combat'' ''base'' = False" "known_key_name ''alt''" "known_key_name ''space''"
  by code_simp+

lemma example_profile_v2_ok: "profile_v2_ok example_profile_v2" "profile_supported example_profile_v2"
proof -
  have one: "\<not> f_le f_one f_zero" by (simp add: f_le_def f_const)
  have "\<not> f_lt (f_add f_one EPSILON) f_one"
    using f_add_nonneg [OF f_one_finite(2,1) finite_epsilon(2,1)] by (auto simp: f_lt_def f_nonneg_ord f_const)
  then have rect: "validate_rect \<lparr>nrx = f_zero, nry = f_zero, nrw = f_one, nrh = f_one\<rparr> l = []" for l
    by (simp add: validate_rect_def normalized_unit f_add_zero_one one)
  show "profile_v2_ok example_profile_v2"
    by (simp add: profile_v2_ok_def example_profile_v2_def PROFILE_SCHEMA_VERSION_def layer_ok_def example_layer_def
        example_names layer_activation_key_def activation_key_of_def canonical_key_def example_binding_def
        uses_own_activation_def binding_input_keys_def claims_def binding_scope_input_keys_def
        binding_own_errors_def validate_input_v2_def validate_normalized_point_def normalized_unit
        mouse_aim_errors_def rect one tenth_to_one_one validate_binding_compatibility_def required_input_def
        mouse_button_names_def)
  have "materialize_mouse_sensitivity f_one \<noteq> None"
    using tenth_to_one_sensitivity [OF tenth_to_one_one] by auto
  then show "profile_supported example_profile_v2"
    by (simp add: profile_supported_def example_profile_v2_def example_binding_def action_supported_def)
qed

lemma plan_sound_witness:
  "\<exists>plan. from_profile_v2 example_profile_v2 \<lparr>rwidth = 1920, rheight = 1080\<rparr> = Some (Inr plan) \<and> plan_ok plan"
proof -
  let ?res = "\<lparr>rwidth = 1920, rheight = 1080\<rparr>"
  obtain plan where p: "from_profile_v2 example_profile_v2 ?res = Some (Inr plan)"
    using from_profile_v2_accepts [OF example_profile_v2_ok(1) _ _ example_profile_v2_ok(2), of ?res] by auto
  then have "plan_ok plan" by (rule plan_sound) (simp_all add: example_profile_v2_def)
  with p show ?thesis by blast
qed

text \<open>A positive sensitivity the validator accepts and the plan cannot represent: the smallest one.\<close>

lemma tiny_sensitivity_gap:
  "mouse_aim_errors r (F64 1) toggle thr ads reaffirm name = mouse_aim_errors r f_one toggle thr ads reaffirm name"
  "materialize_mouse_sensitivity (F64 1) = None"
proof -
  have m: "mag (F64 1) = 1" "\<not> f_neg_bit (F64 1)" by (simp_all add: mag_def f_neg_bit_def)
  have fin: "is_finite (F64 1)" "f_nonneg (F64 1)"
    by (simp_all add: is_finite_def f_nonneg_def is_nan_def ord_def m INF_MAG_def)
  have "\<not> f_le (F64 1) f_zero" "\<not> f_le f_one f_zero" by (simp_all add: f_le_def ord_def m f_const)
  with fin show "mouse_aim_errors r (F64 1) toggle thr ads reaffirm name
      = mouse_aim_errors r f_one toggle thr ads reaffirm name" by (simp add: mouse_aim_errors_def)
  have k: "man 4652007308841189376 = 8796093022208000" "ex 4652007308841189376 = 1031" "man 1 = 1" "ex 1 = 0"
    by (simp_all add: man_def ex_def)
  have "round_dyadic (1 * 8796093022208000) (int 0 + int 1031 - 1074) = 1000"
    apply (simp add: round_dyadic_def)
    apply (simp add: rhe_def INF_MAG_def)
    done
  then have p: "mag (f_mul (F64 1) (f_of_u32 1000)) = 1000"
    unfolding f_mul_nonneg(2) [OF fin(2,1) f_of_u32_nonneg(1) f_of_u32_finite] m(1) f_thousand k .
  have pfin: "is_finite (f_mul (F64 1) (f_of_u32 1000))" by (simp add: is_finite_def p INF_MAG_def)
  have pnn: "f_nonneg (f_mul (F64 1) (f_of_u32 1000))"
    by (rule f_mul_nonneg(1) [OF fin(2,1) f_of_u32_nonneg(1) f_of_u32_finite])
  have "nearest_int 1000 = 0" by (simp add: nearest_int_def units_def man_def ex_def)
  then have "units (mag (f_round (f_mul (F64 1) (f_of_u32 1000)))) = 0"
    using f_round_nonneg(2) [OF pnn pfin] by (simp add: p)
  then have "mag (f_round (f_mul (F64 1) (f_of_u32 1000))) = 0" by (simp add: units_def)
  then have "f_lt (f_round (f_mul (F64 1) (f_of_u32 1000))) f_one"
    using f_nonneg_ord [OF f_round_nonneg(1) [OF pnn pfin]] f_round_nonneg(1) [OF pnn pfin]
    by (simp add: f_lt_def f_const f_nonneg_def)
  then show "materialize_mouse_sensitivity (F64 1) = None"
    by (simp add: materialize_mouse_sensitivity_def Let_def)
qed

end
