(* ===== verification/Input.thy ===== *)
theory Input
  imports Plan
begin

text \<open>
  Normalisation of host input, \<^verbatim>\<open>wroid-input/src/lib.rs\<close> and \<^verbatim>\<open>wroid-input/src/mouse.rs\<close>: key codes to
  profile-visible keys, the movement key state, the mouse report batcher with its \<open>SYN_REPORT\<close> and
  \<open>SYN_DROPPED\<close> handling, the order of discovered devices and the grab state of a device. The
  evdev device is a parameter: what it reports, and whether its grab succeeds.
\<close>

section \<open>Keys\<close>

datatype (plugins del: "quickcheck" size transfer) host_key =
    HNum0 | HNum1 | HNum2 | HNum3 | HNum4 | HNum5 | HNum6 | HNum7 | HNum8 | HNum9 | HA | HB | HC | HW
    | HD | HE | HF | HG | HH | HI | HJ | HK | HL | HM | HN | HO | HP | HQ | HR | HS | HT | HU | HV | HX
    | HY | HZ | HSpace | HTab | HLeftShift | HLeftCtrl | HLeftAlt | HArrowUp | HArrowLeft | HArrowDown
    | HArrowRight | HF12 | HEsc

text \<open>The evdev codes the program names, and the others.\<close>

datatype (plugins del: "quickcheck" size transfer) evdev_key =
    KEY_0 | KEY_1 | KEY_2 | KEY_3 | KEY_4 | KEY_5 | KEY_6 | KEY_7 | KEY_8 | KEY_9 | KEY_A | KEY_B | KEY_C
    | KEY_D | KEY_E | KEY_F | KEY_G | KEY_H | KEY_I | KEY_J | KEY_K | KEY_L | KEY_M | KEY_N | KEY_O
    | KEY_P | KEY_Q | KEY_R | KEY_S | KEY_T | KEY_U | KEY_V | KEY_W | KEY_X | KEY_Y | KEY_Z | KEY_SPACE
    | KEY_TAB | KEY_LEFTSHIFT | KEY_LEFTCTRL | KEY_LEFTALT | KEY_UP | KEY_LEFT | KEY_DOWN | KEY_RIGHT
    | KEY_F12 | KEY_ESC | BTN_LEFT | BTN_RIGHT | BTN_MIDDLE | BTN_SIDE | BTN_EXTRA | KeyCodeOther u16

primrec host_profile_name :: "host_key \<Rightarrow> string" where
  "host_profile_name HNum0 = ''0''"
| "host_profile_name HNum1 = ''1''"
| "host_profile_name HNum2 = ''2''"
| "host_profile_name HNum3 = ''3''"
| "host_profile_name HNum4 = ''4''"
| "host_profile_name HNum5 = ''5''"
| "host_profile_name HNum6 = ''6''"
| "host_profile_name HNum7 = ''7''"
| "host_profile_name HNum8 = ''8''"
| "host_profile_name HNum9 = ''9''"
| "host_profile_name HA = ''a''"
| "host_profile_name HB = ''b''"
| "host_profile_name HC = ''c''"
| "host_profile_name HW = ''w''"
| "host_profile_name HD = ''d''"
| "host_profile_name HE = ''e''"
| "host_profile_name HF = ''f''"
| "host_profile_name HG = ''g''"
| "host_profile_name HH = ''h''"
| "host_profile_name HI = ''i''"
| "host_profile_name HJ = ''j''"
| "host_profile_name HK = ''k''"
| "host_profile_name HL = ''l''"
| "host_profile_name HM = ''m''"
| "host_profile_name HN = ''n''"
| "host_profile_name HO = ''o''"
| "host_profile_name HP = ''p''"
| "host_profile_name HQ = ''q''"
| "host_profile_name HR = ''r''"
| "host_profile_name HS = ''s''"
| "host_profile_name HT = ''t''"
| "host_profile_name HU = ''u''"
| "host_profile_name HV = ''v''"
| "host_profile_name HX = ''x''"
| "host_profile_name HY = ''y''"
| "host_profile_name HZ = ''z''"
| "host_profile_name HSpace = ''space''"
| "host_profile_name HTab = ''tab''"
| "host_profile_name HLeftShift = ''shift''"
| "host_profile_name HLeftCtrl = ''ctrl''"
| "host_profile_name HLeftAlt = ''alt''"
| "host_profile_name HArrowUp = ''up''"
| "host_profile_name HArrowLeft = ''left''"
| "host_profile_name HArrowDown = ''down''"
| "host_profile_name HArrowRight = ''right''"
| "host_profile_name HF12 = ''f12''"
| "host_profile_name HEsc = ''esc''"

datatype movement_key = MvUp | MvLeft | MvDown | MvRight | MvExit

definition movement_key_of :: "host_key \<Rightarrow> movement_key option" where
  "movement_key_of k =
     (case k of HW \<Rightarrow> Some MvUp | HA \<Rightarrow> Some MvLeft | HS \<Rightarrow> Some MvDown | HD \<Rightarrow> Some MvRight | HEsc \<Rightarrow> Some MvExit
      | _ \<Rightarrow> None)"

datatype key_transition = KPressed | KReleased | KRepeated

record host_key_event =
  hk_key :: host_key
  hk_transition :: key_transition

record keyboard_event =
  ke_key :: movement_key
  ke_transition :: key_transition

definition movement_event :: "host_key_event \<Rightarrow> keyboard_event option" where
  "movement_event e =
     map_option (\<lambda>k. \<lparr>ke_key = k, ke_transition = hk_transition e\<rparr>) (movement_key_of (hk_key e))"

text \<open>An evdev event: the summary its \<open>destructure\<close> returns, and its timestamp.\<close>

datatype rel_axis = REL_X | REL_Y | REL_WHEEL | REL_HWHEEL | RelOther u16

datatype sync_code = SYN_REPORT | SYN_DROPPED | SynOther u16

datatype event_summary = EvKey evdev_key i32 | EvRelative rel_axis i32 | EvSync sync_code i32 | EvOther

record input_event =
  ev_time :: duration
  ev_summary :: event_summary

definition transition_of :: "i32 \<Rightarrow> key_transition option" where
  "transition_of v =
     (if v = 0 then Some KReleased else if v = 1 then Some KPressed else if v = 2 then Some KRepeated else None)"

definition normalize_key_code :: "evdev_key \<Rightarrow> host_key option" where
  "normalize_key_code code =
     (case code of
       KEY_0 \<Rightarrow> Some HNum0 | KEY_1 \<Rightarrow> Some HNum1 | KEY_2 \<Rightarrow> Some HNum2
       | KEY_3 \<Rightarrow> Some HNum3 | KEY_4 \<Rightarrow> Some HNum4 | KEY_5 \<Rightarrow> Some HNum5
       | KEY_6 \<Rightarrow> Some HNum6 | KEY_7 \<Rightarrow> Some HNum7 | KEY_8 \<Rightarrow> Some HNum8
       | KEY_9 \<Rightarrow> Some HNum9 | KEY_A \<Rightarrow> Some HA | KEY_B \<Rightarrow> Some HB
       | KEY_C \<Rightarrow> Some HC | KEY_D \<Rightarrow> Some HD | KEY_E \<Rightarrow> Some HE
       | KEY_F \<Rightarrow> Some HF | KEY_G \<Rightarrow> Some HG | KEY_H \<Rightarrow> Some HH
       | KEY_I \<Rightarrow> Some HI | KEY_J \<Rightarrow> Some HJ | KEY_K \<Rightarrow> Some HK
       | KEY_L \<Rightarrow> Some HL | KEY_M \<Rightarrow> Some HM | KEY_N \<Rightarrow> Some HN
       | KEY_O \<Rightarrow> Some HO | KEY_P \<Rightarrow> Some HP | KEY_Q \<Rightarrow> Some HQ
       | KEY_R \<Rightarrow> Some HR | KEY_S \<Rightarrow> Some HS | KEY_T \<Rightarrow> Some HT
       | KEY_U \<Rightarrow> Some HU | KEY_V \<Rightarrow> Some HV | KEY_W \<Rightarrow> Some HW
       | KEY_X \<Rightarrow> Some HX | KEY_Y \<Rightarrow> Some HY | KEY_Z \<Rightarrow> Some HZ
       | KEY_SPACE \<Rightarrow> Some HSpace | KEY_TAB \<Rightarrow> Some HTab
       | KEY_LEFTSHIFT \<Rightarrow> Some HLeftShift | KEY_LEFTCTRL \<Rightarrow> Some HLeftCtrl
       | KEY_LEFTALT \<Rightarrow> Some HLeftAlt | KEY_UP \<Rightarrow> Some HArrowUp
       | KEY_LEFT \<Rightarrow> Some HArrowLeft | KEY_DOWN \<Rightarrow> Some HArrowDown
       | KEY_RIGHT \<Rightarrow> Some HArrowRight | KEY_F12 \<Rightarrow> Some HF12
       | KEY_ESC \<Rightarrow> Some HEsc
     | _ \<Rightarrow> None)"

definition normalize_host_input_event :: "input_event \<Rightarrow> host_key_event option" where
  "normalize_host_input_event e =
     (case ev_summary e of
        EvKey code v \<Rightarrow>
          Option.bind (normalize_key_code code) (\<lambda>k.
            map_option (\<lambda>t. \<lparr>hk_key = k, hk_transition = t\<rparr>) (transition_of v))
      | _ \<Rightarrow> None)"

definition normalize_input_event :: "input_event \<Rightarrow> keyboard_event option" where
  "normalize_input_event e = Option.bind (normalize_host_input_event e) movement_event"

definition oldest_timestamp :: "duration option \<Rightarrow> duration \<Rightarrow> duration option" where
  "oldest_timestamp current t = Some (case current of None \<Rightarrow> t | Some c \<Rightarrow> min c t)"

record host_key_batch =
  hb_events :: "host_key_event list"
  hb_timestamp :: "duration option"

fun key_batch :: "input_event list \<Rightarrow> host_key_batch \<Rightarrow> host_key_batch" where
  "key_batch [] b = b"
| "key_batch (e # es) b =
     (case normalize_host_input_event e of
        None \<Rightarrow> key_batch es b
      | Some k \<Rightarrow> key_batch es \<lparr>hb_events = hb_events b @ [k],
                               hb_timestamp = oldest_timestamp (hb_timestamp b) (ev_time e)\<rparr>)"

text \<open>\<open>next_host_key_batch\<close> and \<open>next_events\<close> on what \<open>fetch_events\<close> returned.\<close>

definition next_host_key_batch :: "'e + input_event list \<Rightarrow> 'e + host_key_batch" where
  "next_host_key_batch fetched =
     map_sum id (\<lambda>es. key_batch es \<lparr>hb_events = [], hb_timestamp = None\<rparr>) fetched"

definition next_host_key_events :: "'e + input_event list \<Rightarrow> 'e + host_key_event list" where
  "next_host_key_events fetched = map_sum id hb_events (next_host_key_batch fetched)"

definition next_keyboard_events :: "'e + input_event list \<Rightarrow> 'e + keyboard_event list" where
  "next_keyboard_events fetched = map_sum id (List.map_filter normalize_input_event) fetched"

text \<open>The key a session acts on, in \<^verbatim>\<open>game_session.rs\<close>; \<open>F12\<close> is the release key of the event loop.\<close>

definition runtime_key :: "host_key \<Rightarrow> host_key_name option" where
  "runtime_key k =
     (case k of
       HNum0 \<Rightarrow> Some KNum0 | HNum1 \<Rightarrow> Some KNum1 | HNum2 \<Rightarrow> Some KNum2
       | HNum3 \<Rightarrow> Some KNum3 | HNum4 \<Rightarrow> Some KNum4 | HNum5 \<Rightarrow> Some KNum5
       | HNum6 \<Rightarrow> Some KNum6 | HNum7 \<Rightarrow> Some KNum7 | HNum8 \<Rightarrow> Some KNum8
       | HNum9 \<Rightarrow> Some KNum9 | HA \<Rightarrow> Some KA | HB \<Rightarrow> Some KB
       | HC \<Rightarrow> Some KC | HD \<Rightarrow> Some KD | HE \<Rightarrow> Some KE
       | HF \<Rightarrow> Some KF | HG \<Rightarrow> Some KG | HH \<Rightarrow> Some KH
       | HI \<Rightarrow> Some KI | HJ \<Rightarrow> Some KJ | HK \<Rightarrow> Some KK
       | HL \<Rightarrow> Some KL | HM \<Rightarrow> Some KM | HN \<Rightarrow> Some KN
       | HO \<Rightarrow> Some KO | HP \<Rightarrow> Some KP | HQ \<Rightarrow> Some KQ
       | HR \<Rightarrow> Some KR | HS \<Rightarrow> Some KS | HT \<Rightarrow> Some KT
       | HU \<Rightarrow> Some KU | HV \<Rightarrow> Some KV | HW \<Rightarrow> Some KW
       | HX \<Rightarrow> Some KX | HY \<Rightarrow> Some KY | HZ \<Rightarrow> Some KZ
       | HSpace \<Rightarrow> Some KSpace | HTab \<Rightarrow> Some KTab
       | HLeftShift \<Rightarrow> Some KShift | HLeftCtrl \<Rightarrow> Some KCtrl
       | HLeftAlt \<Rightarrow> Some KAlt | HArrowUp \<Rightarrow> Some KUp
       | HArrowLeft \<Rightarrow> Some KLeft | HArrowDown \<Rightarrow> Some KDown
       | HArrowRight \<Rightarrow> Some KRight | HEsc \<Rightarrow> Some KEsc | HF12 \<Rightarrow> None)"

section \<open>The movement keys\<close>

datatype keyboard_action = DirectionChanged directional_input | ExitRequested | KIgnored

record key_state =
  ks_current :: directional_input

definition key_state_default :: key_state where
  "key_state_default = \<lparr>ks_current = directional_neutral\<rparr>"

definition direction_held :: "movement_key \<Rightarrow> directional_input \<Rightarrow> bool" where
  "direction_held k d =
     (case k of MvUp \<Rightarrow> di_up d | MvLeft \<Rightarrow> di_left d | MvDown \<Rightarrow> di_down d | MvRight \<Rightarrow> di_right d | MvExit \<Rightarrow> False)"

definition set_direction :: "movement_key \<Rightarrow> bool \<Rightarrow> directional_input \<Rightarrow> directional_input" where
  "set_direction k pressed d =
     (case k of MvUp \<Rightarrow> d\<lparr>di_up := pressed\<rparr> | MvLeft \<Rightarrow> d\<lparr>di_left := pressed\<rparr> | MvDown \<Rightarrow> d\<lparr>di_down := pressed\<rparr>
      | MvRight \<Rightarrow> d\<lparr>di_right := pressed\<rparr> | MvExit \<Rightarrow> d)"

definition key_state_apply :: "keyboard_event \<Rightarrow> key_state \<Rightarrow> key_state \<times> keyboard_action" where
  "key_state_apply e s =
     (if ke_key e = MvExit
      then (s, case ke_transition e of KPressed \<Rightarrow> ExitRequested | _ \<Rightarrow> KIgnored)
      else case ke_transition e of
             KRepeated \<Rightarrow> (s, KIgnored)
           | t \<Rightarrow>
               let pressed = (t = KPressed)
               in if direction_held (ke_key e) (ks_current s) = pressed then (s, KIgnored)
                  else let d = set_direction (ke_key e) pressed (ks_current s)
                       in (s\<lparr>ks_current := d\<rparr>, DirectionChanged d))"

definition key_state_release_all :: "key_state \<Rightarrow> key_state \<times> directional_input option" where
  "key_state_release_all s =
     (if ks_current s = directional_neutral then (s, None)
      else (\<lparr>ks_current = directional_neutral\<rparr>, Some directional_neutral))"

section \<open>Mouse reports\<close>

datatype mouse_button = MbLeft | MbRight | MbMiddle | MbSide | MbExtra

definition mouse_profile_name :: "mouse_button \<Rightarrow> string" where
  "mouse_profile_name b =
     (case b of MbLeft \<Rightarrow> ''left'' | MbRight \<Rightarrow> ''right'' | MbMiddle \<Rightarrow> ''middle'' | MbSide \<Rightarrow> ''side'' | MbExtra \<Rightarrow> ''extra'')"

record mouse_motion =
  mm_dx :: i32
  mm_dy :: i32

record mouse_wheel =
  mw_vertical :: i32
  mw_horizontal :: i32

definition motion_zero :: mouse_motion where "motion_zero = \<lparr>mm_dx = 0, mm_dy = 0\<rparr>"
definition wheel_zero :: mouse_wheel where "wheel_zero = \<lparr>mw_vertical = 0, mw_horizontal = 0\<rparr>"

definition i32_sat_add :: "i32 \<Rightarrow> i32 \<Rightarrow> i32" where
  "i32_sat_add a b = of_int (max (- 2147483648) (min 2147483647 (sint a + sint b)))"

definition motion_add_saturating :: "mouse_motion \<Rightarrow> mouse_motion \<Rightarrow> mouse_motion" where
  "motion_add_saturating a b =
     \<lparr>mm_dx = i32_sat_add (mm_dx a) (mm_dx b), mm_dy = i32_sat_add (mm_dy a) (mm_dy b)\<rparr>"

definition mouse_scale_axis :: "i32 \<Rightarrow> f64 \<Rightarrow> i32" where
  "mouse_scale_axis v sensitivity =
     (let scaled = f_mul (f_of_i32 v) sensitivity
      in if \<not> is_finite scaled then v
         else f_as_i32 (f_clamp (f_round scaled) (f_of_i32 2147483648) (f_of_i32 2147483647)))"

definition motion_scaled :: "mouse_motion \<Rightarrow> f64 \<Rightarrow> mouse_motion" where
  "motion_scaled m sensitivity =
     (if \<not> is_finite sensitivity \<or> f_le sensitivity f_zero then m
      else \<lparr>mm_dx = mouse_scale_axis (mm_dx m) sensitivity, mm_dy = mouse_scale_axis (mm_dy m) sensitivity\<rparr>)"

datatype mouse_event = MMotion mouse_motion | MWheel mouse_wheel | MButton mouse_button key_transition

record mouse_batch =
  mb_events :: "mouse_event list"
  mb_timestamp :: "duration option"

definition button_of_code :: "evdev_key \<Rightarrow> mouse_button option" where
  "button_of_code code =
     (case code of BTN_LEFT \<Rightarrow> Some MbLeft | BTN_RIGHT \<Rightarrow> Some MbRight | BTN_MIDDLE \<Rightarrow> Some MbMiddle
      | BTN_SIDE \<Rightarrow> Some MbSide | BTN_EXTRA \<Rightarrow> Some MbExtra | _ \<Rightarrow> None)"

definition normalize_button_event :: "evdev_key \<Rightarrow> i32 \<Rightarrow> mouse_event option" where
  "normalize_button_event code v =
     Option.bind (button_of_code code) (\<lambda>b. map_option (MButton b) (transition_of v))"

definition normalize_relative_axis :: "rel_axis \<Rightarrow> i32 \<Rightarrow> mouse_event option" where
  "normalize_relative_axis axis v =
     (if v = 0 then None
      else case axis of
             REL_X \<Rightarrow> Some (MMotion \<lparr>mm_dx = v, mm_dy = 0\<rparr>)
           | REL_Y \<Rightarrow> Some (MMotion \<lparr>mm_dx = 0, mm_dy = v\<rparr>)
           | REL_WHEEL \<Rightarrow> Some (MWheel \<lparr>mw_vertical = v, mw_horizontal = 0\<rparr>)
           | REL_HWHEEL \<Rightarrow> Some (MWheel \<lparr>mw_vertical = 0, mw_horizontal = v\<rparr>)
           | RelOther _ \<Rightarrow> None)"

definition normalize_mouse_input_event :: "input_event \<Rightarrow> mouse_event option" where
  "normalize_mouse_input_event e =
     (case ev_summary e of
        EvRelative axis v \<Rightarrow> normalize_relative_axis axis v
      | EvKey code v \<Rightarrow> normalize_button_event code v
      | _ \<Rightarrow> None)"

record batcher =
  bt_pending :: "mouse_event list"
  bt_motion :: mouse_motion
  bt_wheel :: mouse_wheel
  bt_timestamp :: "duration option"

definition batcher_default :: batcher where
  "batcher_default = \<lparr>bt_pending = [], bt_motion = motion_zero, bt_wheel = wheel_zero, bt_timestamp = None\<rparr>"

definition note_timestamp :: "duration \<Rightarrow> batcher \<Rightarrow> batcher" where
  "note_timestamp t b = b\<lparr>bt_timestamp := oldest_timestamp (bt_timestamp b) t\<rparr>"

definition flush_relative :: "batcher \<Rightarrow> batcher" where
  "flush_relative b =
     (let b1 = (if bt_motion b = motion_zero then b
                else b\<lparr>bt_pending := bt_pending b @ [MMotion (bt_motion b)], bt_motion := motion_zero\<rparr>)
      in if bt_wheel b1 = wheel_zero then b1
         else b1\<lparr>bt_pending := bt_pending b1 @ [MWheel (bt_wheel b1)], bt_wheel := wheel_zero\<rparr>)"

definition add_relative :: "rel_axis \<Rightarrow> i32 \<Rightarrow> duration \<Rightarrow> batcher \<Rightarrow> batcher" where
  "add_relative axis v t b =
     (case axis of
        REL_X \<Rightarrow> (note_timestamp t b)\<lparr>bt_motion := (bt_motion b)\<lparr>mm_dx := i32_sat_add (mm_dx (bt_motion b)) v\<rparr>\<rparr>
      | REL_Y \<Rightarrow> (note_timestamp t b)\<lparr>bt_motion := (bt_motion b)\<lparr>mm_dy := i32_sat_add (mm_dy (bt_motion b)) v\<rparr>\<rparr>
      | REL_WHEEL \<Rightarrow>
          (note_timestamp t b)\<lparr>bt_wheel := (bt_wheel b)\<lparr>mw_vertical := i32_sat_add (mw_vertical (bt_wheel b)) v\<rparr>\<rparr>
      | REL_HWHEEL \<Rightarrow>
          (note_timestamp t b)\<lparr>bt_wheel := (bt_wheel b)\<lparr>mw_horizontal := i32_sat_add (mw_horizontal (bt_wheel b)) v\<rparr>\<rparr>
      | RelOther _ \<Rightarrow> b)"

definition finish_report :: "batcher \<times> mouse_batch \<Rightarrow> batcher \<times> mouse_batch" where
  "finish_report = (\<lambda>(b, completed).
     let b1 = flush_relative b
     in if bt_pending b1 = [] then (b1\<lparr>bt_timestamp := None\<rparr>, completed)
        else (b1\<lparr>bt_pending := [], bt_timestamp := None\<rparr>,
              \<lparr>mb_events = mb_events completed @ bt_pending b1,
               mb_timestamp = (case bt_timestamp b1 of
                  None \<Rightarrow> mb_timestamp completed
                | Some t \<Rightarrow> oldest_timestamp (mb_timestamp completed) t)\<rparr>))"

definition batch_step :: "input_event \<Rightarrow> batcher \<times> mouse_batch \<Rightarrow> batcher \<times> mouse_batch" where
  "batch_step e = (\<lambda>(b, completed).
     case ev_summary e of
       EvRelative axis v \<Rightarrow> (add_relative axis v (ev_time e) b, completed)
     | EvKey code v \<Rightarrow>
         (case normalize_button_event code v of
            None \<Rightarrow> (b, completed)
          | Some button \<Rightarrow>
              let b1 = flush_relative (note_timestamp (ev_time e) b)
              in (b1\<lparr>bt_pending := bt_pending b1 @ [button]\<rparr>, completed))
     | EvSync SYN_REPORT _ \<Rightarrow> finish_report (b, completed)
     | EvSync SYN_DROPPED _ \<Rightarrow> (batcher_default, completed)
     | _ \<Rightarrow> (b, completed))"

definition push_event_batch :: "input_event list \<Rightarrow> batcher \<Rightarrow> batcher \<times> mouse_batch" where
  "push_event_batch es b = fold batch_step es (b, \<lparr>mb_events = [], mb_timestamp = None\<rparr>)"

definition mouse_push_events :: "input_event list \<Rightarrow> batcher \<Rightarrow> batcher \<times> mouse_event list" where
  "mouse_push_events es b = map_prod id mb_events (push_event_batch es b)"

definition normalize_mouse_input_events :: "input_event list \<Rightarrow> mouse_event list" where
  "normalize_mouse_input_events es = snd (mouse_push_events es batcher_default)"

text \<open>\<open>next_event_batch\<close> on what \<open>fetch_events\<close> returned; a failed read leaves the batcher.\<close>

definition next_mouse_batch :: "'e + input_event list \<Rightarrow> batcher \<Rightarrow> (batcher, 'e, mouse_batch) st" where
  "next_mouse_batch fetched b =
     (case fetched of
        Inl err \<Rightarrow> (b, Inl err)
      | Inr es \<Rightarrow> (case push_event_batch es b of (b', completed) \<Rightarrow> (b', Inr completed)))"

section \<open>Devices\<close>

text \<open>The candidates under \<^verbatim>\<open>/dev/input/by-id\<close> are file names of one directory; \<open>open_dev\<close> opens one and
  returns the device name. \<open>sort_by\<close> is stable and compares preferences, the larger first, and then
  paths: a stable sort by path and then by preference.\<close>

definition device_preference :: "string \<Rightarrow> string \<Rightarrow> string \<Rightarrow> nat" where
  "device_preference device_name path expected_kind =
     (let name = to_ascii_lowercase device_name; path = to_ascii_lowercase path;
          other_kind = (if expected_kind = ''keyboard'' then ''mouse'' else ''keyboard'')
      in of_bool (str_contains name expected_kind) * 4 + of_bool (\<not> str_contains name other_kind) * 2
         + of_bool (str_contains path expected_kind))"

definition by_id_candidates :: "string \<Rightarrow> string list \<Rightarrow> string list" where
  "by_id_candidates suf names = sort (filter (suffix suf) names)"

record input_device_info =
  dv_path :: string
  dv_name :: string

datatype 'e device_error = DeviceError 'e | NoMatchingDevice string

fun probe_devices ::
  "(string \<Rightarrow> 'e + string) \<Rightarrow> string \<Rightarrow> string list \<Rightarrow> (nat \<times> input_device_info) list \<times> 'e option
     \<Rightarrow> (nat \<times> input_device_info) list \<times> 'e option" where
  "probe_devices open_dev kind [] r = r"
| "probe_devices open_dev kind (path # paths) (found, last_error) =
     (case open_dev path of
        Inr name \<Rightarrow>
          probe_devices open_dev kind paths
            (found @ [(device_preference name path kind, \<lparr>dv_path = path, dv_name = name\<rparr>)], last_error)
      | Inl err \<Rightarrow> probe_devices open_dev kind paths (found, Some err))"

definition discover_devices ::
  "(string \<Rightarrow> 'e + string) \<Rightarrow> string \<Rightarrow> string list \<Rightarrow> 'e device_error + input_device_info list" where
  "discover_devices open_dev kind candidates =
     (let (found, last_error) = probe_devices open_dev kind candidates ([], None);
          sorted = sort_key (\<lambda>(pref, d). - int pref) (sort_key (\<lambda>(pref, d). dv_path d) found)
      in if sorted \<noteq> [] then Inr (map snd sorted)
         else Inl (case last_error of Some err \<Rightarrow> DeviceError err | None \<Rightarrow> NoMatchingDevice kind))"

definition discover_path ::
  "(string \<Rightarrow> 'e + string) \<Rightarrow> string \<Rightarrow> string list \<Rightarrow> 'e device_error + string" where
  "discover_path open_dev kind candidates =
     map_sum id (\<lambda>ds. dv_path (hd ds)) (discover_devices open_dev kind candidates)"

text \<open>The exclusive grab of a keyboard or a mouse: the device's own calls are parameters.\<close>

record 'd grab_device =
  gd_device :: 'd
  gd_grabbed :: bool

definition grab :: "('d \<Rightarrow> 'd \<times> ('e + unit)) \<Rightarrow> 'd grab_device \<Rightarrow> ('d grab_device, 'e, unit) st" where
  "grab dev_grab s =
     (if gd_grabbed s then (s, Inr ())
      else case dev_grab (gd_device s) of
             (d, Inl err) \<Rightarrow> (s\<lparr>gd_device := d\<rparr>, Inl err)
           | (d, Inr _) \<Rightarrow> (s\<lparr>gd_device := d, gd_grabbed := True\<rparr>, Inr ()))"

definition ungrab :: "('d \<Rightarrow> 'd \<times> ('e + unit)) \<Rightarrow> 'd grab_device \<Rightarrow> ('d grab_device, 'e, unit) st" where
  "ungrab dev_ungrab s =
     (if \<not> gd_grabbed s then (s, Inr ())
      else case dev_ungrab (gd_device s) of
             (d, Inl err) \<Rightarrow> (s\<lparr>gd_device := d\<rparr>, Inl err)
           | (d, Inr _) \<Rightarrow> (s\<lparr>gd_device := d, gd_grabbed := False\<rparr>, Inr ()))"

section \<open>Capture and plan name the same keys\<close>

text \<open>A captured key is dispatched under the name profiles give it: parsing the name the capture
  layer uses for a key finds the key the session dispatches, and only \<open>F12\<close>, the release key, has no
  profile name.\<close>

theorem capture_names_agree:
  "key_parse (host_profile_name k) = runtime_key k \<and> (runtime_key k = None \<longleftrightarrow> k = HF12)"
proof
  have name: "case runtime_key k of Some n \<Rightarrow> host_profile_name k = fst (PROFILE_NAMES ! key_index n) | None \<Rightarrow> k = HF12"
    by (cases k; simp add: runtime_key_def PROFILE_NAMES_def)
  show "runtime_key k = None \<longleftrightarrow> k = HF12" by (cases k; simp add: runtime_key_def)
  have mem: "(fst (PROFILE_NAMES ! key_index n), n) \<in> set PROFILE_NAMES" for n
    using key_index_nth [of n] length_key_names by (metis nth_mem prod.collapse)
  show "key_parse (host_profile_name k) = runtime_key k"
  proof (cases "runtime_key k")
    case None
    have "key_parse ''f12'' = None" by code_simp
    with None name show ?thesis by simp
  next
    case (Some n)
    with name mem [of n] show ?thesis by (simp add: key_parse_def key_table.parse_name_self)
  qed
qed

section \<open>The movement keys track what is held\<close>

lemma direction_held_set:
  "direction_held k (set_direction k' pressed d) = (if k = k' \<and> k \<noteq> MvExit then pressed else direction_held k d)"
  by (cases k; cases k') (simp_all add: direction_held_def set_direction_def)

lemma set_direction_idle: "k \<noteq> MvExit \<Longrightarrow> set_direction k pressed d = d \<longleftrightarrow> direction_held k d = pressed"
  by (cases d; cases k) (auto simp: set_direction_def direction_held_def)

text \<open>A movement key counts as held from its press to its release; repeats and duplicates change
  nothing and are not reported, a change is always reported with the new directions, and only a
  press of the exit key asks to exit.\<close>

theorem key_state_apply_spec:
  "case key_state_apply e s of (s', action) \<Rightarrow>
     direction_held k (ks_current s') =
       (if k = ke_key e \<and> k \<noteq> MvExit \<and> ke_transition e \<noteq> KRepeated then ke_transition e = KPressed
        else direction_held k (ks_current s))
     \<and> (action = ExitRequested \<longleftrightarrow> ke_key e = MvExit \<and> ke_transition e = KPressed)
     \<and> (\<forall>d. action = DirectionChanged d \<longleftrightarrow> d = ks_current s' \<and> ks_current s' \<noteq> ks_current s)"
proof (cases "ke_key e = MvExit")
  case True
  then show ?thesis by (auto simp: key_state_apply_def split: key_transition.splits)
next
  case False
  then show ?thesis using set_direction_idle [OF False, of _ "ks_current s"]
    by (auto simp: key_state_apply_def Let_def direction_held_set split: key_transition.splits)
qed

section \<open>Mouse reports are independent of how they are read\<close>

text \<open>The specification of a report: its buttons in order, and between two buttons one motion and one
  wheel event with the saturated sums of what was reported there, unless they are zero.\<close>

definition run_sum :: "rel_axis \<Rightarrow> (rel_axis \<times> i32) list \<Rightarrow> i32" where
  "run_sum axis rels = foldl i32_sat_add 0 (map snd (filter (\<lambda>(a, v). a = axis) rels))"

definition run_events :: "(rel_axis \<times> i32) list \<Rightarrow> mouse_event list" where
  "run_events rels =
     (let m = \<lparr>mm_dx = run_sum REL_X rels, mm_dy = run_sum REL_Y rels\<rparr>;
          w = \<lparr>mw_vertical = run_sum REL_WHEEL rels, mw_horizontal = run_sum REL_HWHEEL rels\<rparr>
      in (if m = motion_zero then [] else [MMotion m]) @ (if w = wheel_zero then [] else [MWheel w]))"

fun report_spec :: "(rel_axis \<times> i32) list \<Rightarrow> event_summary list \<Rightarrow> mouse_event list" where
  "report_spec rels [] = run_events rels"
| "report_spec rels (e # es) =
     (case e of
        EvRelative axis v \<Rightarrow> report_spec (rels @ [(axis, v)]) es
      | EvKey code v \<Rightarrow>
          (case normalize_button_event code v of
             Some b \<Rightarrow> run_events rels @ [b] @ report_spec [] es
           | None \<Rightarrow> report_spec rels es)
      | _ \<Rightarrow> report_spec rels es)"

text \<open>A stream is its reports: one that ends in \<open>SYN_REPORT\<close> is delivered, one that the kernel dropped
  or has not finished is not.\<close>

fun stream_spec :: "event_summary list \<Rightarrow> event_summary list \<Rightarrow> mouse_event list" where
  "stream_spec open_report [] = []"
| "stream_spec open_report (e # es) =
     (case e of
        EvSync SYN_REPORT _ \<Rightarrow> report_spec [] open_report @ stream_spec [] es
      | EvSync SYN_DROPPED _ \<Rightarrow> stream_spec [] es
      | _ \<Rightarrow> stream_spec (open_report @ [e]) es)"

text \<open>The events delivered over a sequence of reads of the device.\<close>

fun deliver :: "batcher \<Rightarrow> input_event list list \<Rightarrow> mouse_event list" where
  "deliver b [] = []"
| "deliver b (es # ess) =
     (case push_event_batch es b of (b', completed) \<Rightarrow> mb_events completed @ deliver b' ess)"

text \<open>What the batcher knows of the open report: what the report gives when it ends now, and how it
  goes on.\<close>

fun open_runs :: "(rel_axis \<times> i32) list \<Rightarrow> event_summary list \<Rightarrow> mouse_event list \<times> (rel_axis \<times> i32) list" where
  "open_runs rels [] = ([], rels)"
| "open_runs rels (e # es) =
     (case e of
        EvRelative axis v \<Rightarrow> open_runs (rels @ [(axis, v)]) es
      | EvKey code v \<Rightarrow>
          (case normalize_button_event code v of
             Some b \<Rightarrow> (case open_runs [] es of (done_events, rels') \<Rightarrow> (run_events rels @ [b] @ done_events, rels'))
           | None \<Rightarrow> open_runs rels es)
      | _ \<Rightarrow> open_runs rels es)"

lemma report_spec_open_runs: "report_spec rels es = fst (open_runs rels es) @ run_events (snd (open_runs rels es))"
  by (induction rels es rule: open_runs.induct) (auto split: event_summary.splits option.splits prod.splits)

lemma open_runs_snoc:
  "open_runs rels (es @ [e]) =
     (case open_runs rels es of (d, r) \<Rightarrow> (case open_runs r [e] of (d', r') \<Rightarrow> (d @ d', r')))"
  by (induction rels es rule: open_runs.induct) (auto split: event_summary.splits option.splits prod.splits)

definition batcher_abs :: "batcher \<Rightarrow> event_summary list \<Rightarrow> bool" where
  "batcher_abs b open_report \<longleftrightarrow>
     (case open_runs [] open_report of (d, rels) \<Rightarrow>
        bt_pending b = d
        \<and> bt_motion b = \<lparr>mm_dx = run_sum REL_X rels, mm_dy = run_sum REL_Y rels\<rparr>
        \<and> bt_wheel b = \<lparr>mw_vertical = run_sum REL_WHEEL rels, mw_horizontal = run_sum REL_HWHEEL rels\<rparr>)"

lemma run_sum_simps [simp]:
  "run_sum a [] = 0"
  "run_sum a (rels @ [(a', v)]) = (if a' = a then i32_sat_add (run_sum a rels) v else run_sum a rels)"
  by (simp_all add: run_sum_def)

lemma batcher_abs_default [simp]: "batcher_abs batcher_default []"
  by (simp add: batcher_abs_def batcher_default_def motion_zero_def wheel_zero_def)

lemma batcher_abs_timestamp [simp]:
  "batcher_abs (note_timestamp t b) r = batcher_abs b r"
  "batcher_abs (b\<lparr>bt_timestamp := t'\<rparr>) r = batcher_abs b r"
  by (simp_all add: batcher_abs_def note_timestamp_def)

lemma flush_relative_abs:
  assumes "batcher_abs b r" "open_runs [] r = (d, rels)"
  shows "bt_pending (flush_relative b) = d @ run_events rels"
    "bt_motion (flush_relative b) = motion_zero" "bt_wheel (flush_relative b) = wheel_zero"
  using assms by (auto simp: batcher_abs_def flush_relative_def run_events_def Let_def)

lemma batch_step_abs:
  assumes abs: "batcher_abs b r" and step: "batch_step e (b, c) = (b', c')"
  shows "\<exists>r' out. batcher_abs b' r' \<and> mb_events c' = mb_events c @ out
    \<and> (\<forall>es. stream_spec r (ev_summary e # es) = out @ stream_spec r' es)"
proof -
  obtain d rels where o: "open_runs [] r = (d, rels)" by fastforce
  note ab = abs [unfolded batcher_abs_def o, simplified]
  have skip: "batcher_abs b (r @ [s])" if "open_runs rels [s] = ([], rels)" for s
    using ab unfolding batcher_abs_def open_runs_snoc o by (simp add: that del: open_runs.simps)
  show ?thesis
  proof (cases "ev_summary e")
    case (EvRelative axis v)
    have "batcher_abs (add_relative axis v (ev_time e) b) (r @ [EvRelative axis v])"
      using ab by (cases axis) (simp_all add: batcher_abs_def open_runs_snoc o add_relative_def note_timestamp_def)
    with EvRelative step show ?thesis by (auto simp: batch_step_def)
  next
    case (EvKey code v)
    show ?thesis
    proof (cases "normalize_button_event code v")
      case None
      with EvKey step skip [of "EvKey code v"] show ?thesis by (auto simp: batch_step_def)
    next
      case (Some button)
      let ?b1 = "flush_relative (note_timestamp (ev_time e) b)"
      have "batcher_abs (note_timestamp (ev_time e) b) r" using abs by simp
      note fl = flush_relative_abs [OF this o]
      have "batcher_abs (?b1\<lparr>bt_pending := bt_pending ?b1 @ [button]\<rparr>) (r @ [EvKey code v])"
        using fl Some by (simp add: batcher_abs_def open_runs_snoc o motion_zero_def wheel_zero_def)
      with EvKey Some step show ?thesis by (auto simp: batch_step_def Let_def)
    qed
  next
    case (EvSync sync v)
    show ?thesis
    proof (cases sync)
      case SYN_REPORT
      note fl = flush_relative_abs [OF abs o]
      have "batcher_abs b' [] \<and> mb_events c' = mb_events c @ report_spec [] r"
        using step fl EvSync SYN_REPORT
        by (auto simp: batch_step_def finish_report_def Let_def batcher_abs_def motion_zero_def wheel_zero_def
            report_spec_open_runs o split: if_splits)
      with EvSync SYN_REPORT show ?thesis by auto
    next
      case SYN_DROPPED
      with EvSync step show ?thesis by (auto simp: batch_step_def intro: exI [of _ "[]"])
    next
      case (SynOther x)
      with EvSync step skip [of "EvSync sync v"] show ?thesis by (auto simp: batch_step_def)
    qed
  next
    case EvOther
    with step skip [of EvOther] show ?thesis by (auto simp: batch_step_def)
  qed
qed

lemma batch_fold_abs:
  assumes "batcher_abs b r" and "fold batch_step es (b, c) = (b', c')"
  shows "\<exists>r' out. batcher_abs b' r' \<and> mb_events c' = mb_events c @ out
    \<and> (\<forall>rest. stream_spec r (map ev_summary es @ rest) = out @ stream_spec r' rest)"
  using assms
proof (induction es arbitrary: b r c)
  case (Cons e es)
  obtain b1 c1 where s: "batch_step e (b, c) = (b1, c1)" by fastforce
  from batch_step_abs [OF Cons.prems(1) s] obtain r1 out1 where
    1: "batcher_abs b1 r1" "mb_events c1 = mb_events c @ out1"
      "\<And>es. stream_spec r (ev_summary e # es) = out1 @ stream_spec r1 es" by blast
  have "fold batch_step es (b1, c1) = (b', c')" using Cons.prems(2) s by simp
  from Cons.IH [OF 1(1) this] obtain r' out where
    2: "batcher_abs b' r'" "mb_events c' = mb_events c1 @ out"
      "\<And>rest. stream_spec r1 (map ev_summary es @ rest) = out @ stream_spec r' rest" by blast
  have "stream_spec r (map ev_summary (e # es) @ rest) = (out1 @ out) @ stream_spec r' rest" for rest
    using 1(3) 2(3) by simp
  with 1(2) 2(1,2) show ?case by (intro exI [of _ r'] exI [of _ "out1 @ out"]) simp
qed auto

lemma deliver_abs: "batcher_abs b r \<Longrightarrow> deliver b ess = stream_spec r (map ev_summary (concat ess))"
proof (induction ess arbitrary: b r)
  case (Cons es ess)
  obtain b' c' where p: "push_event_batch es b = (b', c')" by fastforce
  from batch_fold_abs [OF Cons.prems p [unfolded push_event_batch_def]] obtain r' out where
    "batcher_abs b' r'" "mb_events c' = out"
    "\<And>rest. stream_spec r (map ev_summary es @ rest) = out @ stream_spec r' rest" by auto
  with Cons.IH p show ?case by simp
qed simp

text \<open>C10. However the kernel's event stream is cut into reads, the events delivered are those of its
  completed reports, in order: no report is split or merged, a dropped one delivers nothing, and a
  motion keeps its place between the buttons of its report.\<close>

theorem mouse_stream_refines: "deliver batcher_default ess = stream_spec [] (map ev_summary (concat ess))"
  by (rule deliver_abs) simp

end
