(* ===== verification/Uinput.thy ===== *)
theory Uinput
  imports Touch
begin

text \<open>
  The persistent uinput device, \<^verbatim>\<open>wroid-inject/src\<close>: the device configuration (\<^verbatim>\<open>config.rs\<close>), the
  slot table (\<^verbatim>\<open>state.rs\<close>), the transition of the table by a frame (\<^verbatim>\<open>transition.rs\<close>), and the
  translation of a frame to one batch of multitouch protocol type B events
  (\<^verbatim>\<open>translate.rs\<close>, \<^verbatim>\<open>injector.rs\<close>). The sink that writes the batch is a parameter \<open>emit\<close>; event
  codes of the evdev crate are named by constructors.
\<close>

section \<open>Configuration\<close>

definition MAX_SLOT_COUNT :: u16 where "MAX_SLOT_COUNT = 32"
definition DEFAULT_SLOT_COUNT :: u16 where "DEFAULT_SLOT_COUNT = 10"
definition MAX_DEVICE_NAME_LEN :: nat where "MAX_DEVICE_NAME_LEN = 78"
definition WROID_TOUCHSCREEN_NAME :: string where
  "WROID_TOUCHSCREEN_NAME = ''Wroid Gaming Touchscreen''"

record device_config =
  dc_name :: string
  dc_width :: u32
  dc_height :: u32
  dc_slot_count :: u16

datatype device_config_error =
    EmptyName
  | NameTooLong nat nat
  | InvalidWidth u32
  | InvalidHeight u32
  | InvalidSlotCount u16 u16

definition with_name_and_slots ::
  "string \<Rightarrow> u32 \<Rightarrow> u32 \<Rightarrow> u16 \<Rightarrow> device_config_error + device_config" where
  "with_name_and_slots name width height slot_count =
     (if trim name = [] then Inl EmptyName
      else if MAX_DEVICE_NAME_LEN < length name then Inl (NameTooLong (length name) MAX_DEVICE_NAME_LEN)
      else if width = 0 \<or> 2147483647 < width then Inl (InvalidWidth width)
      else if height = 0 \<or> 2147483647 < height then Inl (InvalidHeight height)
      else if \<not> (1 \<le> slot_count \<and> slot_count \<le> MAX_SLOT_COUNT)
        then Inl (InvalidSlotCount slot_count MAX_SLOT_COUNT)
      else Inr \<lparr>dc_name = name, dc_width = width, dc_height = height, dc_slot_count = slot_count\<rparr>)"

definition device_config_new :: "u32 \<Rightarrow> u32 \<Rightarrow> device_config_error + device_config" where
  "device_config_new width height =
     with_name_and_slots WROID_TOUCHSCREEN_NAME width height DEFAULT_SLOT_COUNT"

definition with_slots :: "u32 \<Rightarrow> u32 \<Rightarrow> u16 \<Rightarrow> device_config_error + device_config" where
  "with_slots width height slot_count =
     with_name_and_slots WROID_TOUCHSCREEN_NAME width height slot_count"

section \<open>Slots\<close>

record slot =
  slot_contact :: "contact_id option"
  slot_x :: u32
  slot_y :: u32

definition slot_default :: slot where
  "slot_default = \<lparr>slot_contact = None, slot_x = 0, slot_y = 0\<rparr>"

record slot_state =
  slots :: "slot list" \<comment> \<open>an array of \<open>MAX_SLOT_COUNT\<close>\<close>
  slot_count :: u16
  active_count :: u16

definition slot_state_new :: "u16 \<Rightarrow> slot_state" where
  "slot_state_new n =
     \<lparr>slots = replicate (unat MAX_SLOT_COUNT) slot_default, slot_count = n, active_count = 0\<rparr>"

definition used_slots :: "slot_state \<Rightarrow> slot list" where
  "used_slots s = take (unat (slot_count s)) (slots s)"

definition active_slot :: "slot_state \<Rightarrow> contact_id \<Rightarrow> nat option" where
  "active_slot s c = find_position (\<lambda>sl. slot_contact sl = Some c) (used_slots s)"

definition free_slot :: "slot_state \<Rightarrow> nat option" where
  "free_slot s = find_position (\<lambda>sl. slot_contact sl = None) (used_slots s)"

definition primary_position :: "slot_state \<Rightarrow> (u32 \<times> u32) option" where
  "primary_position s =
     map_option (\<lambda>sl. (slot_x sl, slot_y sl)) (find (\<lambda>sl. slot_contact sl \<noteq> None) (used_slots s))"

section \<open>Transition\<close>

datatype 'io uinput_frame_error =
    UEmptyFrame
  | UContactAlreadyActive contact_id
  | UContactNotActive contact_id
  | NoFreeSlot contact_id
  | CoordinateOutOfRange contact_id u32 u32 u32 u32
  | Emit 'io

definition validate_position ::
  "device_config \<Rightarrow> contact_id \<Rightarrow> u32 \<Rightarrow> u32 \<Rightarrow> 'io uinput_frame_error + unit" where
  "validate_position cfg c x y =
     (if dc_width cfg \<le> x \<or> dc_height cfg \<le> y
      then Inl (CoordinateOutOfRange c x y (dc_width cfg) (dc_height cfg)) else Inr ())"

fun slot_event :: "device_config \<Rightarrow> touch_event \<Rightarrow> slot_state \<Rightarrow> 'io uinput_frame_error + slot_state" where
  "slot_event cfg e next =
     (let c = contact e; x = px (position e); y = py (position e)
      in case phase e of
           Down \<Rightarrow>
             (case validate_position cfg c x y of
                Inl err \<Rightarrow> Inl err
              | Inr _ \<Rightarrow>
                  if active_slot next c \<noteq> None then Inl (UContactAlreadyActive c)
                  else (case free_slot next of
                          None \<Rightarrow> Inl (NoFreeSlot c)
                        | Some i \<Rightarrow>
                            Inr (next\<lparr>slots := (slots next)
                                        [i := \<lparr>slot_contact = Some c, slot_x = x, slot_y = y\<rparr>],
                                      active_count := active_count next + 1\<rparr>)))
         | Move \<Rightarrow>
             (case validate_position cfg c x y of
                Inl err \<Rightarrow> Inl err
              | Inr _ \<Rightarrow>
                  (case active_slot next c of
                     None \<Rightarrow> Inl (UContactNotActive c)
                   | Some i \<Rightarrow>
                       Inr (next\<lparr>slots := (slots next)
                                   [i := (slots next ! i)\<lparr>slot_x := x, slot_y := y\<rparr>]\<rparr>)))
         | _ \<Rightarrow>
             (case active_slot next c of
                None \<Rightarrow> Inl (UContactNotActive c)
              | Some i \<Rightarrow>
                  Inr (next\<lparr>slots := (slots next)[i := slot_default],
                            active_count := active_count next - 1\<rparr>)))"

fun slot_events :: "device_config \<Rightarrow> touch_event list \<Rightarrow> slot_state \<Rightarrow> 'io uinput_frame_error + slot_state" where
  "slot_events cfg [] next = Inr next"
| "slot_events cfg (e # es) next =
     (case slot_event cfg e next of Inl err \<Rightarrow> Inl err | Inr next' \<Rightarrow> slot_events cfg es next')"

definition next_state :: "device_config \<Rightarrow> slot_state \<Rightarrow> touch_frame \<Rightarrow> 'io uinput_frame_error + slot_state" where
  "next_state cfg s f = slot_events cfg (frame_events f) s"

section \<open>Translation\<close>

datatype abs_axis = ABS_X | ABS_Y | ABS_MT_SLOT | ABS_MT_TRACKING_ID | ABS_MT_POSITION_X | ABS_MT_POSITION_Y

datatype key_code = BTN_TOUCH

datatype linux_input_event = Absolute abs_axis i32 | Key key_code i32

definition mt_position :: "u32 \<Rightarrow> u32 \<Rightarrow> linux_input_event list" where
  "mt_position x y = [Absolute ABS_MT_POSITION_X x, Absolute ABS_MT_POSITION_Y y]"

definition event_slot :: "slot_state \<Rightarrow> slot_state \<Rightarrow> touch_event \<Rightarrow> nat option" where
  "event_slot current next e =
     (case phase e of
        Down \<Rightarrow> active_slot next (contact e)
      | Move \<Rightarrow> (case active_slot current (contact e) of
                   Some i \<Rightarrow> Some i
                 | None \<Rightarrow> active_slot next (contact e))
      | _ \<Rightarrow> active_slot current (contact e))"

definition event_output :: "nat \<Rightarrow> touch_event \<Rightarrow> linux_input_event list" where
  "event_output i e =
     Absolute ABS_MT_SLOT (of_nat i) #
     (case phase e of
        Down \<Rightarrow> Absolute ABS_MT_TRACKING_ID (ucast (contact e)) # mt_position (px (position e)) (py (position e))
      | Move \<Rightarrow> mt_position (px (position e)) (py (position e))
      | _ \<Rightarrow> [Absolute ABS_MT_TRACKING_ID (- 1)])"

text \<open>The loop pushes to the scratch buffer; a failed slot lookup leaves what was pushed.\<close>

fun push_events ::
  "slot_state \<Rightarrow> slot_state \<Rightarrow> touch_event list \<Rightarrow> linux_input_event list
     \<Rightarrow> (linux_input_event list, 'io uinput_frame_error, unit) st" where
  "push_events current next [] scratch = (scratch, Inr ())"
| "push_events current next (e # es) scratch =
     (case event_slot current next e of
        None \<Rightarrow> (scratch, Inl (UContactNotActive (contact e)))
      | Some i \<Rightarrow> push_events current next es (scratch @ event_output i e))"

definition touch_edge :: "slot_state \<Rightarrow> slot_state \<Rightarrow> linux_input_event list" where
  "touch_edge current next =
     (if active_count current = 0 \<and> 0 < active_count next then [Key BTN_TOUCH 1]
      else if 0 < active_count current \<and> active_count next = 0 then [Key BTN_TOUCH 0] else [])"

definition pointer_output :: "slot_state \<Rightarrow> linux_input_event list" where
  "pointer_output next =
     (case primary_position next of
        Some (x, y) \<Rightarrow> [Absolute ABS_X x, Absolute ABS_Y y] | None \<Rightarrow> [])"

record 'snk uinput_injector =
  ui_config :: device_config
  ui_sink :: 'snk
  ui_state :: slot_state
  ui_scratch :: "linux_input_event list"

definition with_sink :: "device_config \<Rightarrow> 'snk \<Rightarrow> 'snk uinput_injector" where
  "with_sink cfg snk =
     \<lparr>ui_config = cfg, ui_sink = snk, ui_state = slot_state_new (dc_slot_count cfg), ui_scratch = []\<rparr>"

type_synonym ('snk, 'io) emit_fn = "'snk \<Rightarrow> linux_input_event list \<Rightarrow> ('snk, 'io, unit) st"

definition inject_frame ::
  "('snk, 'io) emit_fn \<Rightarrow> 'snk uinput_injector \<Rightarrow> touch_frame
     \<Rightarrow> ('snk uinput_injector, 'io uinput_frame_error, unit) st" where
  "inject_frame emit u f =
     (if frame_is_empty f then (u, Inl UEmptyFrame)
      else case next_state (ui_config u) (ui_state u) f of
        Inl err \<Rightarrow> (u, Inl err)
      | Inr next \<Rightarrow>
          (case push_events (ui_state u) next (frame_events f) (touch_edge (ui_state u) next) of
             (scratch, Inl err) \<Rightarrow> (u\<lparr>ui_scratch := scratch\<rparr>, Inl err)
           | (scratch, Inr _) \<Rightarrow>
               let out = scratch @ pointer_output next
               in (case emit (ui_sink u) out of
                     (snk, Inl io) \<Rightarrow> (u\<lparr>ui_scratch := out, ui_sink := snk\<rparr>, Inl (Emit io))
                   | (snk, Inr _) \<Rightarrow>
                       (u\<lparr>ui_scratch := out, ui_sink := snk, ui_state := next\<rparr>, Inr ()))))"

record 'x touch_injection_error =
  tie_message :: string
  tie_source :: "'x option"

text \<open>The \<open>TouchInjector\<close> implementation wraps the frame error.\<close>

definition uinput_inject ::
  "('snk, 'io) emit_fn \<Rightarrow>
     ('snk uinput_injector, 'io uinput_frame_error touch_injection_error) inject_fn" where
  "uinput_inject emit u f =
     (case inject_frame emit u f of
        (u', Inl err) \<Rightarrow>
          (u', Inl \<lparr>tie_message = ''persistent uinput frame submission failed'', tie_source = Some err\<rparr>)
      | (u', Inr _) \<Rightarrow> (u', Inr ()))"

section \<open>The slot table invariant\<close>

definition occupied :: "slot_state \<Rightarrow> nat set" where
  "occupied s = {i. i < unat (slot_count s) \<and> slot_contact (slots s ! i) \<noteq> None}"

definition slot_inv :: "slot_state \<Rightarrow> bool" where
  "slot_inv s \<longleftrightarrow>
     length (slots s) = 32 \<and> unat (slot_count s) \<le> 32
     \<and> (\<forall>i \<in> occupied s. \<forall>j \<in> occupied s. slot_contact (slots s ! i) = slot_contact (slots s ! j) \<longrightarrow> i = j)
     \<and> unat (active_count s) = card (occupied s)"

definition slot_held :: "slot_state \<Rightarrow> contact_id \<rightharpoonup> point" where
  "slot_held s c =
     map_option (\<lambda>i. \<lparr>px = slot_x (slots s ! i), py = slot_y (slots s ! i)\<rparr>) (active_slot s c)"

lemma finite_occupied [simp]: "finite (occupied s)"
  by (simp add: occupied_def)

lemma card_occupied: "card (occupied s) \<le> unat (slot_count s)"
proof -
  have "card (occupied s) \<le> card {..<unat (slot_count s)}"
    by (rule card_mono) (auto simp: occupied_def)
  then show ?thesis by simp
qed

lemma slot_inv_new: "unat n \<le> 32 \<Longrightarrow> slot_inv (slot_state_new n)"
proof -
  assume n: "unat n \<le> 32"
  then have "occupied (slot_state_new n) = {}"
    by (auto simp: occupied_def slot_state_new_def MAX_SLOT_COUNT_def slot_default_def)
  then show ?thesis using n
    by (simp add: slot_inv_def) (simp add: slot_state_new_def MAX_SLOT_COUNT_def)
qed

lemma used_slots_nth:
  "slot_inv s \<Longrightarrow> length (used_slots s) = unat (slot_count s)"
  "i < unat (slot_count s) \<Longrightarrow> used_slots s ! i = slots s ! i"
  by (simp_all add: used_slots_def slot_inv_def)

lemma active_slot_Some:
  assumes "slot_inv s"
  shows "active_slot s c = Some i \<longleftrightarrow> i < unat (slot_count s) \<and> slot_contact (slots s ! i) = Some c"
proof -
  have "slot_contact (slots s ! j) \<noteq> Some c"
    if "i < unat (slot_count s)" "slot_contact (slots s ! i) = Some c" "j < i" for j
    using that assms unfolding slot_inv_def occupied_def
    by (metis (mono_tags, lifting) less_trans mem_Collect_eq nat_neq_iff option.distinct(1))
  then show ?thesis
    by (auto simp: active_slot_def find_position_Some used_slots_nth assms)
qed

lemma active_slot_None:
  "slot_inv s \<Longrightarrow> active_slot s c = None \<longleftrightarrow> (\<forall>i < unat (slot_count s). slot_contact (slots s ! i) \<noteq> Some c)"
  using active_slot_Some [of s c] by (metis not_Some_eq)

lemma free_slot_Some:
  "slot_inv s \<Longrightarrow> free_slot s = Some i \<Longrightarrow> i < unat (slot_count s) \<and> slot_contact (slots s ! i) = None"
  by (auto simp: free_slot_def find_position_Some used_slots_nth)

lemma free_slot_None:
  "slot_inv s \<Longrightarrow> free_slot s = None \<longleftrightarrow> card (occupied s) = unat (slot_count s)"
proof -
  assume inv: "slot_inv s"
  have "free_slot s = None \<longleftrightarrow> (\<forall>i < unat (slot_count s). slot_contact (slots s ! i) \<noteq> None)"
    using inv by (auto simp: free_slot_def find_position_None all_set_conv_all_nth used_slots_nth)
  also have "\<dots> \<longleftrightarrow> occupied s = {..<unat (slot_count s)}"
    by (auto simp: occupied_def)
  also have "\<dots> \<longleftrightarrow> card (occupied s) = unat (slot_count s)"
    by (metis (no_types, lifting) card_lessThan card_subset_eq finite_lessThan lessThan_iff
        mem_Collect_eq occupied_def subsetI)
  finally show ?thesis .
qed

text \<open>One event writes one slot: which one, what it held, and what it holds then.\<close>

definition slot_write :: "nat \<Rightarrow> slot \<Rightarrow> u16 \<Rightarrow> slot_state \<Rightarrow> slot_state" where
  "slot_write i sl k s = s\<lparr>slots := (slots s)[i := sl], active_count := k\<rparr>"

lemma slot_write_sel [simp]:
  "slots (slot_write i sl k s) = (slots s)[i := sl]" "slot_count (slot_write i sl k s) = slot_count s"
  "active_count (slot_write i sl k s) = k"
  by (simp_all add: slot_write_def)

lemma slot_event_Down:
  assumes "phase e = Down" "slot_inv s" "slot_event cfg e s = Inr s'"
  obtains i where "i < unat (slot_count s)" "slot_contact (slots s ! i) = None" "active_slot s (contact e) = None"
    "s' = slot_write i \<lparr>slot_contact = Some (contact e), slot_x = px (position e), slot_y = py (position e)\<rparr>
            (active_count s + 1) s"
  using assms free_slot_Some [OF assms(2)]
  by (auto simp: slot_write_def Let_def split: sum.splits option.splits if_splits)

lemma slot_event_Move:
  assumes "phase e = Move" "slot_inv s" "slot_event cfg e s = Inr s'"
  obtains i where "i < unat (slot_count s)" "slot_contact (slots s ! i) = Some (contact e)"
    "s' = slot_write i \<lparr>slot_contact = Some (contact e), slot_x = px (position e), slot_y = py (position e)\<rparr>
            (active_count s) s"
proof -
  from assms obtain i where "active_slot s (contact e) = Some i"
    and s': "s' = s\<lparr>slots := (slots s)[i := (slots s ! i)\<lparr>slot_x := px (position e), slot_y := py (position e)\<rparr>]\<rparr>"
    by (auto simp: Let_def split: sum.splits option.splits)
  then have i: "i < unat (slot_count s)" "slot_contact (slots s ! i) = Some (contact e)"
    by (simp_all add: active_slot_Some [OF assms(2)])
  have upd: "(slots s ! i)\<lparr>slot_x := px (position e), slot_y := py (position e)\<rparr>
      = \<lparr>slot_contact = Some (contact e), slot_x = px (position e), slot_y = py (position e)\<rparr>"
    using i(2) by (cases "slots s ! i") simp
  have "s' = slot_write i \<lparr>slot_contact = Some (contact e), slot_x = px (position e), slot_y = py (position e)\<rparr>
            (active_count s) s"
    unfolding s' upd slot_write_def by (cases s) simp
  then show thesis by (rule that [OF i])
qed

lemma slot_event_Up:
  assumes "phase e \<in> {Up, Cancel}" "slot_inv s" "slot_event cfg e s = Inr s'"
  obtains i where "i < unat (slot_count s)" "slot_contact (slots s ! i) = Some (contact e)"
    "s' = slot_write i slot_default (active_count s - 1) s"
  using assms
  by (auto simp: slot_write_def Let_def active_slot_Some split: option.splits)

lemma occupied_write:
  "slot_inv s \<Longrightarrow> i < unat (slot_count s) \<Longrightarrow>
   occupied (slot_write i sl k s) = (if slot_contact sl = None then occupied s - {i} else insert i (occupied s))"
  by (auto simp: occupied_def slot_inv_def nth_list_update)

lemma slot_write_nth:
  "slot_inv s \<Longrightarrow> i < unat (slot_count s) \<Longrightarrow> j < unat (slot_count s) \<Longrightarrow>
   (slots s)[i := sl] ! j = (if j = i then sl else slots s ! j)"
  by (auto simp: slot_inv_def nth_list_update)

lemma slot_inv_write:
  assumes inv: "slot_inv s" and i: "i < unat (slot_count s)"
    and fresh: "\<And>c j. slot_contact sl = Some c \<Longrightarrow> j < unat (slot_count s) \<Longrightarrow> j \<noteq> i \<Longrightarrow> slot_contact (slots s ! j) \<noteq> Some c"
    and k: "unat k = card (if slot_contact sl = None then occupied s - {i} else insert i (occupied s))"
  shows "slot_inv (slot_write i sl k s)"
proof -
  let ?s = "slot_write i sl k s"
  have "a = b" if a: "a \<in> occupied ?s" and b: "b \<in> occupied ?s"
    and eq: "slot_contact (slots ?s ! a) = slot_contact (slots ?s ! b)" for a b
  proof -
    have ab: "a < unat (slot_count s)" "b < unat (slot_count s)"
      using a b by (simp_all add: occupied_def)
    have na: "slots ?s ! a = (if a = i then sl else slots s ! a)"
      and nb: "slots ?s ! b = (if b = i then sl else slots s ! b)"
      using ab by (simp_all add: slot_write_nth [OF inv i])
    have live: "slot_contact (slots ?s ! a) \<noteq> None" using a by (simp add: occupied_def)
    consider "a = i" "b = i" | "a = i" "b \<noteq> i" | "a \<noteq> i" "b = i" | "a \<noteq> i" "b \<noteq> i" by blast
    then show ?thesis
    proof cases
      case 2
      then show ?thesis using live eq na nb fresh [OF _ ab(2)] by auto
    next
      case 3
      then show ?thesis using live eq na nb fresh [OF _ ab(1)] by auto
    next
      case 4
      then have "slot_contact (slots s ! a) = slot_contact (slots s ! b)"
        "a \<in> occupied s" "b \<in> occupied s"
        using live eq na nb ab by (auto simp: occupied_def)
      then show ?thesis using inv unfolding slot_inv_def by blast
    qed simp
  qed
  then show ?thesis using inv k unfolding slot_inv_def occupied_write [OF inv i] by simp
qed

lemma option_eqI: "(\<And>j. x = Some j \<longleftrightarrow> y = Some j) \<Longrightarrow> x = y"
  by (cases x; cases y) auto

lemma active_slot_write:
  assumes inv: "slot_inv s" and inv': "slot_inv (slot_write i sl k s)" and i: "i < unat (slot_count s)"
  shows "active_slot (slot_write i sl k s) c =
     (if slot_contact sl = Some c then Some i
      else if slot_contact (slots s ! i) = Some c then None else active_slot s c)"
proof -
  have new: "active_slot (slot_write i sl k s) c = Some j \<longleftrightarrow>
     j < unat (slot_count s) \<and> slot_contact (if j = i then sl else slots s ! j) = Some c" for j
    using slot_write_nth [OF inv i, of j sl] by (auto simp: active_slot_Some [OF inv'])
  have old_i: "slot_contact (slots s ! i) = Some c \<Longrightarrow> active_slot s c = Some i"
    using i by (simp add: active_slot_Some [OF inv])
  have other: "j \<noteq> i \<Longrightarrow> active_slot (slot_write i sl k s) c = Some j \<longleftrightarrow> active_slot s c = Some j" for j
    by (simp add: new active_slot_Some [OF inv])
  consider "slot_contact sl = Some c"
    | "slot_contact sl \<noteq> Some c" "slot_contact (slots s ! i) = Some c"
    | "slot_contact sl \<noteq> Some c" "slot_contact (slots s ! i) \<noteq> Some c" by blast
  then show ?thesis
  proof cases
    case 1
    then show ?thesis using i new [of i] by simp
  next
    case 2
    then have "active_slot (slot_write i sl k s) c \<noteq> Some j" for j
      using new [of i] other [of j] old_i by (cases "j = i") auto
    with 2 show ?thesis by auto
  next
    case 3
    then have "active_slot (slot_write i sl k s) c = Some j \<longleftrightarrow> active_slot s c = Some j" for j
      using new [of i] other [of j] active_slot_Some [OF inv, of c i] by (cases "j = i") auto
    then have "active_slot (slot_write i sl k s) c = active_slot s c" by (rule option_eqI)
    with 3 show ?thesis by simp
  qed
qed

lemma slot_held_write:
  assumes "slot_inv s" "slot_inv (slot_write i sl k s)" "i < unat (slot_count s)"
  shows "slot_held (slot_write i sl k s) c =
     (if slot_contact sl = Some c then Some \<lparr>px = slot_x sl, py = slot_y sl\<rparr>
      else if slot_contact (slots s ! i) = Some c then None else slot_held s c)"
proof -
  have nth: "(slots s)[i := sl] ! j = (if j = i then sl else slots s ! j)" for j
    using assms(1,3) by (auto simp: slot_inv_def nth_list_update)
  have "active_slot s c = Some i \<Longrightarrow> slot_contact (slots s ! i) = Some c"
    by (simp add: active_slot_Some [OF assms(1)])
  then show ?thesis
    unfolding slot_held_def active_slot_write [OF assms] slot_write_sel nth
    by (cases "active_slot s c") auto
qed

text \<open>Occupied slots after each event, with the count of active contacts in step: it never wraps.\<close>

lemma slot_unique:
  "slot_inv s \<Longrightarrow> i < unat (slot_count s) \<Longrightarrow> slot_contact (slots s ! i) = Some c \<Longrightarrow>
   j < unat (slot_count s) \<Longrightarrow> j \<noteq> i \<Longrightarrow> slot_contact (slots s ! j) \<noteq> Some c"
  using active_slot_Some [of s c i] active_slot_Some [of s c j] by auto

lemma slot_event_step:
  assumes inv: "slot_inv s" and ev: "slot_event cfg e s = Inr s'"
  shows "slot_inv s'" "slot_count s' = slot_count s" "slot_held s' = event_effect e (slot_held s)"
    "event_enabled (slot_held s) e"
proof -
  have le: "card (occupied s) \<le> 32" using inv card_occupied [of s] by (simp add: slot_inv_def)
  have cnt: "unat (active_count s) = card (occupied s)" using inv by (simp add: slot_inv_def)
  have ends: "slot_inv s' \<and> slot_count s' = slot_count s \<and> slot_held s' = event_effect e (slot_held s)
      \<and> event_enabled (slot_held s) e" if ph: "phase e \<in> {Up, Cancel}"
  proof -
    from slot_event_Up [OF ph inv ev] obtain i where i: "i < unat (slot_count s)"
      "slot_contact (slots s ! i) = Some (contact e)"
      "s' = slot_write i slot_default (active_count s - 1) s" .
    have act: "active_slot s (contact e) = Some i" using i by (simp add: active_slot_Some [OF inv])
    have mem: "i \<in> occupied s" using i by (simp add: occupied_def)
    then have "0 < unat (active_count s)" using cnt card_gt_0_iff [of "occupied s"] by auto
    then have "unat (active_count s - 1) = unat (active_count s) - 1"
      by (simp add: unat_sub_if' Suc_leI)
    then have inv': "slot_inv s'" unfolding i(3)
      using mem cnt by (intro slot_inv_write [OF inv i(1)]) (auto simp: slot_default_def)
    have "slot_held s' c = (if c = contact e then None else slot_held s c)" for c
      using i(2) slot_held_write [OF inv inv' [unfolded i(3)] i(1), of c]
      by (auto simp: i(3) slot_default_def)
    then show ?thesis
      using inv' i(3) act ph by (auto simp: event_effect_def event_enabled_def fun_eq_iff slot_held_def [of s "contact e"])
  qed
  have "slot_inv s' \<and> slot_count s' = slot_count s \<and> slot_held s' = event_effect e (slot_held s)
      \<and> event_enabled (slot_held s) e"
  proof (cases "phase e")
    case Down
    from slot_event_Down [OF this inv ev] obtain i where i: "i < unat (slot_count s)"
      "slot_contact (slots s ! i) = None" "active_slot s (contact e) = None"
      "s' = slot_write i \<lparr>slot_contact = Some (contact e), slot_x = px (position e), slot_y = py (position e)\<rparr>
            (active_count s + 1) s" .
    have "i \<notin> occupied s" using i(2) by (simp add: occupied_def)
    moreover have "unat (active_count s + 1) = unat (active_count s) + 1"
      using le cnt by (simp add: unat_plus_if')
    ultimately have "slot_inv s'" unfolding i(4)
      using i(3) cnt by (intro slot_inv_write [OF inv i(1)]) (auto simp: active_slot_None [OF inv])
    then show ?thesis
      using i slot_held_write [OF inv _ i(1)] Down
      by (auto simp: event_effect_def event_enabled_def fun_eq_iff slot_held_def [of s])
  next
    case Move
    from slot_event_Move [OF this inv ev] obtain i where i: "i < unat (slot_count s)"
      "slot_contact (slots s ! i) = Some (contact e)"
      "s' = slot_write i \<lparr>slot_contact = Some (contact e), slot_x = px (position e), slot_y = py (position e)\<rparr>
            (active_count s) s" .
    have act: "active_slot s (contact e) = Some i" using i by (simp add: active_slot_Some [OF inv])
    have "insert i (occupied s) = occupied s" using i by (auto simp: occupied_def)
    then have "slot_inv s'" unfolding i(3)
      using i(2) slot_unique [OF inv i(1)] cnt by (intro slot_inv_write [OF inv i(1)]) auto
    then show ?thesis
      using i act slot_held_write [OF inv _ i(1)] Move
      by (auto simp: event_effect_def event_enabled_def fun_eq_iff slot_held_def [of s "contact e"])
  next
    case Up
    then show ?thesis using ends by simp
  next
    case Cancel
    then show ?thesis using ends by simp
  qed
  then show "slot_inv s'" "slot_count s' = slot_count s" "slot_held s' = event_effect e (slot_held s)"
    "event_enabled (slot_held s) e" by simp_all
qed

text \<open>The three shapes of an event as one write.\<close>

lemma slot_event_write:
  assumes inv: "slot_inv s" and ev: "slot_event cfg e s = Inr s'"
  obtains i sl k where "i < unat (slot_count s)" "s' = slot_write i sl k s"
    "slot_contact sl = (if phase e \<in> {Down, Move} then Some (contact e) else None)"
    "phase e \<in> {Down, Move} \<Longrightarrow> slot_x sl = px (position e) \<and> slot_y sl = py (position e)"
    "slot_contact (slots s ! i) = (if phase e = Down then None else Some (contact e))"
proof -
  consider "phase e = Down" | "phase e = Move" | "phase e \<in> {Up, Cancel}" by (cases "phase e") simp_all
  then show thesis
  proof cases
    case 1
    from slot_event_Down [OF 1 inv ev] obtain i where w: "i < unat (slot_count s)"
      "slot_contact (slots s ! i) = None"
      "s' = slot_write i \<lparr>slot_contact = Some (contact e), slot_x = px (position e), slot_y = py (position e)\<rparr>
            (active_count s + 1) s" .
    with 1 w show thesis by (intro that [OF w(1) w(3)]) simp_all
  next
    case 2
    from slot_event_Move [OF 2 inv ev] obtain i where w: "i < unat (slot_count s)"
      "slot_contact (slots s ! i) = Some (contact e)"
      "s' = slot_write i \<lparr>slot_contact = Some (contact e), slot_x = px (position e), slot_y = py (position e)\<rparr>
            (active_count s) s" .
    with 2 w show thesis by (intro that [OF w(1) w(3)]) simp_all
  next
    case 3
    from slot_event_Up [OF 3 inv ev] obtain i where w: "i < unat (slot_count s)"
      "slot_contact (slots s ! i) = Some (contact e)"
      "s' = slot_write i slot_default (active_count s - 1) s" .
    with 3 w show thesis by (intro that [OF w(1) w(3)]) (simp_all add: slot_default_def, auto)
  qed
qed

lemma slot_event_other:
  assumes inv: "slot_inv s" and ev: "slot_event cfg e s = Inr s'" and c: "c \<noteq> contact e"
  shows "active_slot s' c = active_slot s c"
proof -
  from slot_event_write [OF inv ev] obtain i sl k where i: "i < unat (slot_count s)"
    and s': "s' = slot_write i sl k s"
    and sl: "slot_contact sl = (if phase e \<in> {Down, Move} then Some (contact e) else None)"
    and old: "slot_contact (slots s ! i) = (if phase e = Down then None else Some (contact e))" .
  have "slot_inv (slot_write i sl k s)" using slot_event_step [OF inv ev] s' by simp
  from active_slot_write [OF inv this i, of c] c sl old show ?thesis
    by (simp add: s' split: if_splits)
qed

lemma slot_events_Cons:
  "(slot_events cfg (e # es) s :: 'io uinput_frame_error + slot_state) = Inr s' \<longleftrightarrow>
     (\<exists>m. (slot_event cfg e s :: 'io uinput_frame_error + slot_state) = Inr m
        \<and> (slot_events cfg es m :: 'io uinput_frame_error + slot_state) = Inr s')"
  by (simp del: slot_event.simps split: sum.split)

lemma slot_events_step:
  "slot_inv s \<Longrightarrow> (slot_events cfg es s :: 'io uinput_frame_error + slot_state) = Inr s' \<Longrightarrow>
     slot_inv s' \<and> slot_count s' = slot_count s \<and> slot_held s' = frame_effect es (slot_held s)"
proof (induction es arbitrary: s)
  case (Cons e es)
  from Cons.prems(2) [unfolded slot_events_Cons]
  obtain m where m: "(slot_event cfg e s :: 'io uinput_frame_error + slot_state) = Inr m"
    "(slot_events cfg es m :: 'io uinput_frame_error + slot_state) = Inr s'" by blast
  with Cons.IH [of m] slot_event_step [OF Cons.prems(1) m(1)] show ?case
    by (simp add: frame_effect_def)
qed (simp add: frame_effect_def)

lemma slot_events_other:
  "slot_inv s \<Longrightarrow> (slot_events cfg es s :: 'io uinput_frame_error + slot_state) = Inr s' \<Longrightarrow>
     c \<notin> contact ` set es \<Longrightarrow> active_slot s' c = active_slot s c"
proof (induction es arbitrary: s)
  case (Cons e es)
  from Cons.prems(2) [unfolded slot_events_Cons]
  obtain m where m: "(slot_event cfg e s :: 'io uinput_frame_error + slot_state) = Inr m"
    "(slot_events cfg es m :: 'io uinput_frame_error + slot_state) = Inr s'" by blast
  have "active_slot s' c = active_slot m c"
    using Cons.IH [OF _ m(2)] slot_event_step(1) [OF Cons.prems(1) m(1)] Cons.prems(3) by simp
  also have "\<dots> = active_slot s c"
    using slot_event_other [OF Cons.prems(1) m(1)] Cons.prems(3) by simp
  finally show ?case .
qed simp

lemma next_state_step:
  "slot_inv s \<Longrightarrow> next_state cfg s f = Inr s' \<Longrightarrow>
     slot_inv s' \<and> slot_count s' = slot_count s \<and> slot_held s' = frame_effect (frame_events f) (slot_held s)"
  unfolding next_state_def by (rule slot_events_step)

section \<open>What a multitouch receiver reads\<close>

text \<open>
  The kernel side of protocol type B: a current slot, a tracking identifier and a position per
  slot (\<open>-1\<close> ends the contact), and the touch key.
\<close>

record mt_receiver =
  mt_current :: nat
  mt_track :: "nat \<Rightarrow> i32"
  mt_x :: "nat \<Rightarrow> i32"
  mt_y :: "nat \<Rightarrow> i32"
  mt_touch :: bool

definition mt_idle :: mt_receiver where
  "mt_idle = \<lparr>mt_current = 0, mt_track = (\<lambda>_. - 1), mt_x = (\<lambda>_. 0), mt_y = (\<lambda>_. 0), mt_touch = False\<rparr>"

fun mt_read :: "linux_input_event \<Rightarrow> mt_receiver \<Rightarrow> mt_receiver" where
  "mt_read (Absolute ABS_MT_SLOT v) r = r\<lparr>mt_current := unat v\<rparr>"
| "mt_read (Absolute ABS_MT_TRACKING_ID v) r = r\<lparr>mt_track := (mt_track r)(mt_current r := v)\<rparr>"
| "mt_read (Absolute ABS_MT_POSITION_X v) r = r\<lparr>mt_x := (mt_x r)(mt_current r := v)\<rparr>"
| "mt_read (Absolute ABS_MT_POSITION_Y v) r = r\<lparr>mt_y := (mt_y r)(mt_current r := v)\<rparr>"
| "mt_read (Key BTN_TOUCH v) r = r\<lparr>mt_touch := (v \<noteq> 0)\<rparr>"
| "mt_read _ r = r"

definition mt_run :: "linux_input_event list \<Rightarrow> mt_receiver \<Rightarrow> mt_receiver" where
  "mt_run evs r = fold mt_read evs r"

text \<open>A sink that delivers the whole batch to the receiver or, as \<open>accept\<close> decides, none of it.\<close>

definition mt_emit ::
  "(mt_receiver \<Rightarrow> linux_input_event list \<Rightarrow> bool) \<Rightarrow> (mt_receiver, unit) emit_fn" where
  "mt_emit accept r evs = (if accept r evs then (mt_run evs r, Inr ()) else (r, Inl ()))"

definition shows_slot :: "mt_receiver \<Rightarrow> nat \<Rightarrow> slot \<Rightarrow> bool" where
  "shows_slot r i sl \<longleftrightarrow>
     (case slot_contact sl of
        None \<Rightarrow> mt_track r i = - 1
      | Some c \<Rightarrow> mt_track r i = ucast c \<and> mt_x r i = slot_x sl \<and> mt_y r i = slot_y sl)"

definition shows_slots :: "mt_receiver \<Rightarrow> slot_state \<Rightarrow> bool" where
  "shows_slots r s \<longleftrightarrow> (\<forall>i < unat (slot_count s). shows_slot r i (slots s ! i))"

definition receiver_shows :: "mt_receiver \<Rightarrow> slot_state \<Rightarrow> bool" where
  "receiver_shows r s \<longleftrightarrow> shows_slots r s \<and> (mt_touch r \<longleftrightarrow> 0 < active_count s)"

lemma mt_run_simps [simp]:
  "mt_run [] r = r" "mt_run (e # es) r = mt_run es (mt_read e r)"
  "mt_run (as @ bs) r = mt_run bs (mt_run as r)"
  by (simp_all add: mt_run_def)

lemma shows_slots_write:
  assumes "slot_inv s" "shows_slots r s" "i < unat (slot_count s)"
    and "shows_slot r' i sl"
    and "\<And>j. j \<noteq> i \<Longrightarrow> mt_track r' j = mt_track r j \<and> mt_x r' j = mt_x r j \<and> mt_y r' j = mt_y r j"
  shows "shows_slots r' (slot_write i sl k s)"
  unfolding shows_slots_def slot_write_sel
proof (intro allI impI)
  fix j
  assume j: "j < unat (slot_count s)"
  show "shows_slot r' j ((slots s)[i := sl] ! j)"
  proof (cases "j = i")
    case True
    then show ?thesis using assms(1,3,4) by (simp add: slot_inv_def)
  next
    case False
    then have "shows_slot r' j sl' = shows_slot r j sl'" for sl'
      using assms(5) [of j] by (simp add: shows_slot_def split: option.split)
    with False assms(2) j show ?thesis by (simp add: shows_slots_def)
  qed
qed

text \<open>One event: the slot the translation names is the one the transition wrote, and reading its
  output shows that slot as written.\<close>

lemma event_output_shows:
  assumes inv: "slot_inv s" and ev: "slot_event cfg e s = Inr s'"
    and cur: "active_slot s (contact e) = active_slot current (contact e)"
    and nxt: "active_slot s' (contact e) = active_slot next (contact e)"
    and sh: "shows_slots r s"
  obtains i where "event_slot current next e = Some i" "shows_slots (mt_run (event_output i e) r) s'"
    "mt_touch (mt_run (event_output i e) r) = mt_touch r"
proof -
  obtain i sl k where i: "i < unat (slot_count s)"
    and s': "s' = slot_write i sl k s"
    and sl: "slot_contact sl = (if phase e \<in> {Down, Move} then Some (contact e) else None)"
    and pos: "phase e \<in> {Down, Move} \<Longrightarrow> slot_x sl = px (position e) \<and> slot_y sl = py (position e)"
    and old: "slot_contact (slots s ! i) = (if phase e = Down then None else Some (contact e))"
    using slot_event_write [OF inv ev] by metis
  have inv': "slot_inv (slot_write i sl k s)" using slot_event_step [OF inv ev] s' by simp
  have slot: "event_slot current next e = Some i"
    using i sl old inv active_slot_write [OF inv inv' i, of "contact e"] cur nxt active_slot_Some [OF inv, of "contact e" i]
    by (cases "phase e") (simp_all add: event_slot_def s' split: if_splits option.split)
  have i32: "i < 32" using i inv by (simp add: slot_inv_def)
  then have idx: "unat (of_nat i :: i32) = i" by (simp add: unat_of_nat)
  let ?r = "mt_run (event_output i e) r"
  have "shows_slot r i (slots s ! i)" using sh i by (simp add: shows_slots_def)
  then have "shows_slot ?r i sl"
    using sl old pos idx
    by (cases "phase e") (simp_all add: shows_slot_def event_output_def mt_position_def)
  moreover have "mt_track ?r j = mt_track r j \<and> mt_x ?r j = mt_x r j \<and> mt_y ?r j = mt_y r j" if "j \<noteq> i" for j
    using that idx by (cases "phase e") (simp_all add: event_output_def mt_position_def)
  ultimately have "shows_slots ?r s'"
    unfolding s' by (rule shows_slots_write [OF inv sh i])
  moreover have "mt_touch ?r = mt_touch r"
    by (cases "phase e") (simp_all add: event_output_def mt_position_def)
  ultimately show thesis using slot that by blast
qed

lemma push_events_shows:
  "slot_inv s \<Longrightarrow> (slot_events cfg es s :: 'io uinput_frame_error + slot_state) = Inr next \<Longrightarrow>
   distinct (map contact es) \<Longrightarrow>
   (\<And>e. e \<in> set es \<Longrightarrow> active_slot s (contact e) = active_slot current (contact e)) \<Longrightarrow>
   shows_slots r s \<Longrightarrow>
   \<exists>out. (push_events current next es scratch :: (_, 'io uinput_frame_error, unit) st) = (scratch @ out, Inr ())
      \<and> shows_slots (mt_run out r) next \<and> mt_touch (mt_run out r) = mt_touch r"
proof (induction es arbitrary: s scratch r)
  case Nil
  then show ?case by simp
next
  case (Cons e es)
  from Cons.prems(2) [unfolded slot_events_Cons]
  obtain m where m: "(slot_event cfg e s :: 'io uinput_frame_error + slot_state) = Inr m"
    "(slot_events cfg es m :: 'io uinput_frame_error + slot_state) = Inr next" by blast
  have inv: "slot_inv m" using slot_event_step(1) [OF Cons.prems(1) m(1)] .
  have fresh: "contact e \<notin> contact ` set es" using Cons.prems(3) by simp
  have "active_slot m (contact e) = active_slot next (contact e)"
    using slot_events_other [OF inv m(2) fresh] by simp
  from event_output_shows [OF Cons.prems(1) m(1) Cons.prems(4) this Cons.prems(5)]
  obtain i where i: "event_slot current next e = Some i" "shows_slots (mt_run (event_output i e) r) m"
    "mt_touch (mt_run (event_output i e) r) = mt_touch r" by auto
  have "active_slot m (contact e') = active_slot current (contact e')" if "e' \<in> set es" for e'
    using that fresh slot_event_other [OF Cons.prems(1) m(1), of "contact e'"] Cons.prems(4) [of e']
    by (metis image_eqI list.set_intros(2))
  from Cons.IH [OF inv m(2) _ this i(2), of "scratch @ event_output i e"] Cons.prems(3) i
  show ?case by auto
qed

section \<open>The device keeps the receiver in step\<close>

lemma touch_edge_shows:
  "mt_touch r \<longleftrightarrow> 0 < active_count current \<Longrightarrow> 
     mt_touch (mt_run (touch_edge current next) r) \<longleftrightarrow> 0 < active_count next"
  by (auto simp: touch_edge_def word_gt_0)

lemma shows_slots_cong:
  "mt_track r' = mt_track r \<Longrightarrow> mt_x r' = mt_x r \<Longrightarrow> mt_y r' = mt_y r \<Longrightarrow> shows_slots r' s = shows_slots r s"
  by (simp add: shows_slots_def shows_slot_def cong: option.case_cong)

lemma touch_edge_slots: "shows_slots (mt_run (touch_edge current next) r) s = shows_slots r s"
  by (rule shows_slots_cong) (simp_all add: touch_edge_def)

lemma pointer_output_shows: "receiver_shows (mt_run (pointer_output next) r) s = receiver_shows r s"
  unfolding receiver_shows_def pointer_output_def
  by (auto simp: shows_slots_def shows_slot_def split: option.splits)

text \<open>An accepted frame is translated to one batch: the slots of its events, the touch edge, the
  pointer axes. The lookup the translation does never fails.\<close>

lemma inject_frame_shows:
  assumes inv: "slot_inv (ui_state u)" and dist: "distinct (map contact (frame_events f))"
    and nxt: "(next_state (ui_config u) (ui_state u) f :: 'io uinput_frame_error + slot_state) = Inr s'"
    and sh: "receiver_shows r (ui_state u)"
  obtains out where
    "push_events (ui_state u) s' (frame_events f) (touch_edge (ui_state u) s') = 
       (out, Inr () :: 'io uinput_frame_error + unit)"
    "receiver_shows (mt_run (out @ pointer_output s') r) s'"
proof -
  let ?edge = "touch_edge (ui_state u) s'" and ?r = "mt_run (touch_edge (ui_state u) s') r"
  from push_events_shows [OF inv nxt [unfolded next_state_def] dist refl, of ?r ?edge]
  obtain out where out: "push_events (ui_state u) s' (frame_events f) ?edge
        = (?edge @ out, Inr () :: 'io uinput_frame_error + unit)"
    "shows_slots (mt_run out ?r) s'" "mt_touch (mt_run out ?r) = mt_touch ?r"
    using sh touch_edge_slots by (auto simp: receiver_shows_def)
  have "receiver_shows (mt_run (?edge @ out) r) s'"
    using out(2,3) sh touch_edge_shows by (auto simp: receiver_shows_def)
  then have "receiver_shows (mt_run ((?edge @ out) @ pointer_output s') r) s'"
    using pointer_output_shows by simp
  with out(1) show thesis by (rule that)
qed

text \<open>The well-formed devices: the slot table is sound, its size the configured one.\<close>

definition device_ok :: "'snk uinput_injector \<Rightarrow> bool" where
  "device_ok u \<longleftrightarrow> slot_inv (ui_state u)"

definition mt_device_ok :: "mt_receiver uinput_injector \<Rightarrow> bool" where
  "mt_device_ok u \<longleftrightarrow> slot_inv (ui_state u) \<and> receiver_shows (ui_sink u) (ui_state u)"

definition device_held :: "'snk uinput_injector \<Rightarrow> contact_id \<rightharpoonup> point" where
  "device_held u = slot_held (ui_state u)"

lemma inject_frame_state:
  "inject_frame emit u f = (u', res) \<Longrightarrow>
     (case res of Inl _ \<Rightarrow> ui_state u' = ui_state u
      | Inr _ \<Rightarrow> (next_state (ui_config u) (ui_state u) f :: 'io uinput_frame_error + slot_state) = Inr (ui_state u'))"
  for emit :: "('snk, 'io) emit_fn"
  by (auto simp: inject_frame_def Let_def split: if_splits sum.splits prod.splits)

lemma uinput_inject_state:
  "uinput_inject emit u f = (u', res) \<Longrightarrow>
     (case res of Inl _ \<Rightarrow> ui_state u' = ui_state u
      | Inr _ \<Rightarrow> (next_state (ui_config u) (ui_state u) f :: 'io uinput_frame_error + slot_state) = Inr (ui_state u'))"
  for emit :: "('snk, 'io) emit_fn"
  by (auto simp: uinput_inject_def split: prod.splits sum.splits dest: inject_frame_state)

interpretation uinput: touch_injector "uinput_inject emit" device_held device_ok
  for emit :: "('snk, 'io) emit_fn"
proof
  fix i :: "'snk uinput_injector" and i' f u err
  assume ok: "device_ok i"
  show "device_ok (fst (uinput_inject emit i f))"
    using uinput_inject_state [of emit i f] ok
    by (cases "uinput_inject emit i f"; cases "snd (uinput_inject emit i f)")
      (auto simp: device_ok_def dest: next_state_step)
  show "device_held i' = frame_effect (frame_events f) (device_held i)" if "uinput_inject emit i f = (i', Inr u)"
    using uinput_inject_state [OF that] ok by (auto simp: device_ok_def device_held_def dest: next_state_step)
  show "device_held i' = device_held i" if "uinput_inject emit i f = (i', Inl err)"
    using uinput_inject_state [OF that] by (simp add: device_held_def)
qed

lemma mt_inject_shows:
  assumes ok: "mt_device_ok u" and dist: "distinct (map contact (frame_events f))"
  shows "mt_device_ok (fst (uinput_inject (mt_emit accept) u f))"
proof (cases "next_state (ui_config u) (ui_state u) f :: unit uinput_frame_error + slot_state")
  case (Inl err)
  then show ?thesis using ok by (simp add: uinput_inject_def inject_frame_def)
next
  case (Inr s')
  from ok have inv: "slot_inv (ui_state u)" and sh: "receiver_shows (ui_sink u) (ui_state u)"
    by (simp_all add: mt_device_ok_def)
  from inject_frame_shows [OF inv dist Inr sh] obtain out where out:
    "push_events (ui_state u) s' (frame_events f) (touch_edge (ui_state u) s') = 
       (out, Inr () :: unit uinput_frame_error + unit)"
    "receiver_shows (mt_run (out @ pointer_output s') (ui_sink u)) s'" by blast
  have "slot_inv s'" using next_state_step [OF inv Inr] by simp
  then show ?thesis using ok out Inr
    by (simp add: uinput_inject_def inject_frame_def mt_emit_def mt_device_ok_def Let_def split: if_split)
qed

interpretation mt_uinput: touch_injector "uinput_inject (mt_emit accept)" device_held mt_device_ok
  for accept
proof
  fix i :: "mt_receiver uinput_injector" and i' f u err
  assume ok: "mt_device_ok i" and en: "frame_enabled (device_held i) (frame_events f)"
  then have "device_ok i" by (simp add: mt_device_ok_def device_ok_def)
  from uinput.inject_success [OF this en] uinput.inject_failure [OF this en]
  show "uinput_inject (mt_emit accept) i f = (i', Inr u) \<Longrightarrow>
      device_held i' = frame_effect (frame_events f) (device_held i)"
    "uinput_inject (mt_emit accept) i f = (i', Inl err) \<Longrightarrow> device_held i' = device_held i" by blast+
  show "mt_device_ok (fst (uinput_inject (mt_emit accept) i f))"
    using mt_inject_shows [OF ok] en by (simp add: frame_enabled_def)
qed

lemma mt_device_ok_new:
  "unat (dc_slot_count cfg) \<le> 32 \<Longrightarrow> mt_device_ok (with_sink cfg mt_idle)"
  by (simp add: mt_device_ok_def with_sink_def slot_inv_new receiver_shows_def shows_slots_def shows_slot_def)
    (simp add: slot_state_new_def mt_idle_def slot_default_def MAX_SLOT_COUNT_def)

lemma device_held_new: "unat (dc_slot_count cfg) \<le> 32 \<Longrightarrow> device_held (with_sink cfg snk) = Map.empty"
proof
  fix c
  assume n: "unat (dc_slot_count cfg) \<le> 32"
  then have "active_slot (slot_state_new (dc_slot_count cfg)) c = None"
    by (simp add: active_slot_None slot_inv_new)
      (simp add: slot_state_new_def slot_default_def MAX_SLOT_COUNT_def)
  then show "device_held (with_sink cfg snk) c = None"
    by (simp add: device_held_def with_sink_def slot_held_def)
qed

lemma slot_held_Some:
  "slot_inv s \<Longrightarrow> slot_held s c = Some p \<longleftrightarrow>
     (\<exists>i < unat (slot_count s). slot_contact (slots s ! i) = Some c
        \<and> slot_x (slots s ! i) = px p \<and> slot_y (slots s ! i) = py p)"
  by (auto simp: slot_held_def active_slot_Some)

lemma ucast_contact [simp]:
  "(ucast (c :: u16) :: i32) = ucast (d :: u16) \<longleftrightarrow> c = d" "(ucast (c :: u16) :: i32) \<noteq> - 1"
proof -
  have up: "unat (ucast c :: i32) = unat c" for c :: u16 
  proof -
    have "unat c < 2 ^ 16" using unsigned_less [of c, where ?'a = nat] by simp
    then have "unat c < 2 ^ 32" by simp
    then show ?thesis by (simp only: unsigned_ucast_eq take_bit_nat_eq_self_iff) simp
  qed
  show "(ucast c :: i32) = ucast d \<longleftrightarrow> c = d" using up [of c] up [of d] by (metis word_unat_eq_iff)
  note up [of c]
  moreover have "unat c < 2 ^ 16" using unsigned_less [of c] by simp
  moreover have "unat (- 1 :: i32) = 2 ^ 32 - 1"
    by (simp add: unsigned_minus_1_eq_mask mask_eq_exp_minus_1)
  ultimately show "(ucast c :: i32) \<noteq> - 1" by fastforce
qed

lemma slot_held_empty: "slot_inv s \<Longrightarrow> slot_held s = Map.empty \<longleftrightarrow> active_count s = 0"
proof -
  assume inv: "slot_inv s"
  then have "slot_held s = Map.empty \<longleftrightarrow> occupied s = {}"
    by (auto simp: fun_eq_iff slot_held_def active_slot_None occupied_def) (metis option.exhaust)
  also have "\<dots> \<longleftrightarrow> active_count s = 0"
    using inv by (simp add: slot_inv_def unat_eq_zero [symmetric])
  finally show ?thesis .
qed

definition mt_contacts :: "mt_receiver uinput_injector \<Rightarrow> contact_id \<Rightarrow> point \<Rightarrow> bool" where
  "mt_contacts u c p \<longleftrightarrow>
     (\<exists>i < unat (slot_count (ui_state u)). mt_track (ui_sink u) i = ucast c
        \<and> mt_x (ui_sink u) i = px p \<and> mt_y (ui_sink u) i = py p)"

lemma mt_contacts_held:
  assumes "mt_device_ok u" shows "mt_contacts u c p \<longleftrightarrow> device_held u c = Some p"
proof -
  have inv: "slot_inv (ui_state u)" and sh: "shows_slots (ui_sink u) (ui_state u)"
    using assms by (simp_all add: mt_device_ok_def receiver_shows_def)
  have shows_i: "shows_slot (ui_sink u) i (slots (ui_state u) ! i)" if "i < unat (slot_count (ui_state u))" for i
    using sh that by (simp add: shows_slots_def)
  have "mt_track (ui_sink u) i = ucast c \<and> mt_x (ui_sink u) i = px p \<and> mt_y (ui_sink u) i = py p \<longleftrightarrow>
      slot_contact (slots (ui_state u) ! i) = Some c \<and> slot_x (slots (ui_state u) ! i) = px p
      \<and> slot_y (slots (ui_state u) ! i) = py p"
    if "i < unat (slot_count (ui_state u))" for i
    using shows_i [OF that]
    by (cases "slot_contact (slots (ui_state u) ! i)")
      (auto simp: shows_slot_def ucast_contact(2) [symmetric] simp del: ucast_contact(2))
  then show ?thesis by (auto simp: mt_contacts_def device_held_def slot_held_Some [OF inv])
qed

text \<open>C2. Whatever a client does with the engine of a validly configured uinput device, and whichever
  batches the kernel refuses, the contacts a multitouch receiver reads from the device are the
  contacts the engine has committed, with their positions, and its touch key is down exactly
  when there is one.\<close>

theorem engine_receiver_in_step:
  assumes cfg: "with_name_and_slots name width height n = Inr cfg"
    and e: "e = engine_run (uinput_inject (mt_emit accept)) ops (engine_new (with_sink cfg mt_idle))"
  shows "(engine_contacts e c = Some p \<longleftrightarrow> mt_contacts (injector e) c p)
    \<and> (mt_touch (ui_sink (injector e)) \<longleftrightarrow> engine_contacts e \<noteq> Map.empty)"
proof -
  have n: "unat (dc_slot_count cfg) \<le> 32"
    using cfg by (auto simp: with_name_and_slots_def MAX_SLOT_COUNT_def word_le_nat_alt split: if_splits)
  have "in_step device_held mt_device_ok e" unfolding e
    by (rule mt_uinput.engine_new_run_in_step [OF mt_device_ok_new [OF n] device_held_new [OF n]])
  then have ok: "mt_device_ok (injector e)" and held: "device_held (injector e) = engine_contacts e"
    by (simp_all add: in_step_def)
  moreover have "mt_touch (ui_sink (injector e)) \<longleftrightarrow> device_held (injector e) \<noteq> Map.empty"
    using ok slot_held_empty [of "ui_state (injector e)"]
    by (simp add: mt_device_ok_def receiver_shows_def device_held_def word_gt_0)
  ultimately show ?thesis using mt_contacts_held [OF ok] by simp
qed

lemma engine_receiver_in_step_witness:
  "\<exists>cfg e. device_config_new 1920 1080 = Inr cfg
     \<and> e = engine_run (uinput_inject (mt_emit (\<lambda>_ _. True)))
             [OpBegin 7 \<lparr>px = 100, py = 200\<rparr>, OpMove 7 \<lparr>px = 110, py = 190\<rparr>]
             (engine_new (with_sink cfg mt_idle))
     \<and> (engine_contacts e 7 = Some \<lparr>px = 110, py = 190\<rparr> \<longleftrightarrow> mt_contacts (injector e) 7 \<lparr>px = 110, py = 190\<rparr>)"
proof -
  have "trim WROID_TOUCHSCREEN_NAME \<noteq> []" by code_simp
  then obtain cfg where cfg: "device_config_new 1920 1080 = Inr cfg"
    by (simp add: device_config_new_def with_name_and_slots_def DEFAULT_SLOT_COUNT_def
        MAX_SLOT_COUNT_def MAX_DEVICE_NAME_LEN_def) (simp add: WROID_TOUCHSCREEN_NAME_def MAX_SLOT_COUNT_def)
  then show ?thesis using engine_receiver_in_step [OF cfg [unfolded device_config_new_def] refl] by blast
qed

section \<open>Which frames the device accepts\<close>

definition event_in_range :: "device_config \<Rightarrow> touch_event \<Rightarrow> bool" where
  "event_in_range cfg e \<longleftrightarrow>
     (phase e \<in> {Down, Move} \<longrightarrow> px (position e) < dc_width cfg \<and> py (position e) < dc_height cfg)"

lemma dom_slot_held:
  assumes inv: "slot_inv s"
  shows "dom (slot_held s) = (\<lambda>i. the (slot_contact (slots s ! i))) ` occupied s"
proof (rule set_eqI)
  fix c
  have "c \<in> dom (slot_held s) \<longleftrightarrow> (\<exists>i < unat (slot_count s). slot_contact (slots s ! i) = Some c)"
    by (auto simp: slot_held_def dom_def active_slot_Some [OF inv])
  also have "\<dots> \<longleftrightarrow> (\<exists>i \<in> occupied s. the (slot_contact (slots s ! i)) = c)"
    by (force simp: occupied_def)
  finally show "c \<in> dom (slot_held s) \<longleftrightarrow> c \<in> (\<lambda>i. the (slot_contact (slots s ! i))) ` occupied s"
    by blast
qed

lemma card_dom_held: "slot_inv s \<Longrightarrow> card (dom (slot_held s)) = card (occupied s)"
proof -
  assume inv: "slot_inv s"
  note dom_slot_held [OF inv]
  moreover have "inj_on (\<lambda>i. the (slot_contact (slots s ! i))) (occupied s)"
    using inv by (auto simp: inj_on_def slot_inv_def occupied_def)
  ultimately show ?thesis by (simp add: card_image)
qed

lemma slot_event_accepts:
  assumes inv: "slot_inv s" and en: "event_enabled (slot_held s) e" and range: "event_in_range cfg e"
    and free: "phase e = Down \<Longrightarrow> card (dom (slot_held s)) < unat (slot_count s)"
  shows "\<exists>s'. slot_event cfg e s = Inr s'"
proof -
  have act: "active_slot s (contact e) = None \<longleftrightarrow> slot_held s (contact e) = None"
    by (simp add: slot_held_def)
  have "phase e = Down \<Longrightarrow> free_slot s \<noteq> None"
    using free free_slot_None [OF inv] card_dom_held [OF inv] by simp
  then show ?thesis using en range act
    by (cases "phase e") (auto simp: event_enabled_def event_in_range_def validate_position_def Let_def not_le
        split: option.splits)
qed

definition downs :: "touch_event list \<Rightarrow> nat" where
  "downs es = length (filter (\<lambda>e. phase e = Down) es)"

lemma card_dom_event: 
  "finite (dom m) \<Longrightarrow> card (dom (event_effect e m)) \<le> card (dom m) + (if phase e = Down then 1 else 0)"
  if "event_enabled m e"
  using that by (cases "phase e")
    (auto simp: event_effect_def event_enabled_def card_insert_if dom_def [symmetric] insert_absorb
      intro: card_Diff1_le)

lemma slot_events_accepts:
  "slot_inv s \<Longrightarrow> distinct (map contact es) \<Longrightarrow> (\<And>e. e \<in> set es \<Longrightarrow> event_enabled (slot_held s) e) \<Longrightarrow>
   (\<And>e. e \<in> set es \<Longrightarrow> event_in_range cfg e) \<Longrightarrow>
   card (dom (slot_held s)) + downs es \<le> unat (slot_count s) \<Longrightarrow>
   \<exists>s'. (slot_events cfg es s :: 'io uinput_frame_error + slot_state) = Inr s'"
proof (induction es arbitrary: s)
  case (Cons e es)
  have "phase e = Down \<Longrightarrow> card (dom (slot_held s)) < unat (slot_count s)"
    using Cons.prems(5) by (simp add: downs_def)
  with slot_event_accepts [OF Cons.prems(1), of e cfg] Cons.prems(3,4) obtain m where
    m: "(slot_event cfg e s :: 'io uinput_frame_error + slot_state) = Inr m" by auto
  note step = slot_event_step [OF Cons.prems(1) m]
  have "finite (dom (slot_held s))" by (simp add: dom_slot_held [OF Cons.prems(1)])
  then have "card (dom (slot_held m)) + downs es \<le> unat (slot_count m)"
    using Cons.prems(5) card_dom_event [OF step(4)] step(2,3) by (auto simp: downs_def split: if_splits)
  moreover have "event_enabled (slot_held m) e'" if "e' \<in> set es" for e'
  proof -
    have "contact e' \<noteq> contact e" using that Cons.prems(2) by (auto intro: rev_image_eqI)
    then have "slot_held m (contact e') = slot_held s (contact e')" by (simp add: step(3) event_effect_def)
    then show ?thesis using Cons.prems(3) [of e'] that by (simp add: event_enabled_def)
  qed
  ultimately have "\<exists>s'. (slot_events cfg es m :: 'io uinput_frame_error + slot_state) = Inr s'"
    using Cons.IH [OF step(1)] Cons.prems(2,4) by simp
  with m show ?case by (simp del: slot_event.simps)
qed simp

text \<open>Every sound slot table is one a receiver can show.\<close>

lemma receiver_exists: "\<exists>r. receiver_shows r s"
proof -
  let ?r = "\<lparr>mt_current = 0,
      mt_track = (\<lambda>i. case slot_contact (slots s ! i) of None \<Rightarrow> - 1 | Some c \<Rightarrow> ucast c),
      mt_x = (\<lambda>i. slot_x (slots s ! i)), mt_y = (\<lambda>i. slot_y (slots s ! i)), mt_touch = 0 < active_count s\<rparr>"
  have "receiver_shows ?r s"
    by (simp add: receiver_shows_def shows_slots_def shows_slot_def split: option.split)
  then show ?thesis by blast
qed

text \<open>The device accepts every frame the engine may send it whose positions are on the
  configured surface and whose new contacts fit in the free slots: nothing but the sink can then
  fail, neither the slot allocation nor the lookups of the translation.\<close>

theorem uinput_inject_accepts:
  assumes ok: "device_ok u"
    and en: "frame_enabled (device_held u) (frame_events f)"
    and range: "\<forall>e \<in> set (frame_events f). event_in_range (ui_config u) e"
    and room: "card (dom (device_held u)) + downs (frame_events f) \<le> unat (slot_count (ui_state u))"
    and sink: "\<forall>snk evs. \<exists>snk'. emit snk evs = (snk', Inr ())"
  shows "\<exists>u'. uinput_inject emit u f = (u', Inr ())
    \<and> device_held u' = frame_effect (frame_events f) (device_held u)"
proof -
  have inv: "slot_inv (ui_state u)" using ok by (simp add: device_ok_def)
  have dist: "distinct (map contact (frame_events f))" and ne: "frame_events f \<noteq> []"
    using en by (simp_all add: frame_enabled_def)
  obtain s' where s': "(next_state (ui_config u) (ui_state u) f :: 'b uinput_frame_error + slot_state) = Inr s'"
    using slot_events_accepts [OF inv dist] en range room
    unfolding next_state_def frame_enabled_def device_held_def by blast
  obtain r where "receiver_shows r (ui_state u)" using receiver_exists by blast
  from inject_frame_shows [OF inv dist s' this] obtain out where
    out: "push_events (ui_state u) s' (frame_events f) (touch_edge (ui_state u) s') =
       (out, Inr () :: 'b uinput_frame_error + unit)" by blast
  obtain snk' where "emit (ui_sink u) (out @ pointer_output s') = (snk', Inr ())" using sink by blast
  then obtain u' where "uinput_inject emit u f = (u', Inr ())"
    using s' out ne by (simp add: uinput_inject_def inject_frame_def frame_is_empty_def Let_def)
  with uinput.inject_success [OF ok en this] show ?thesis by blast
qed

definition example_config :: device_config where
  "example_config = \<lparr>dc_name = WROID_TOUCHSCREEN_NAME, dc_width = 1920, dc_height = 1080, dc_slot_count = 1\<rparr>"

lemma uinput_inject_accepts_witness:
  "\<exists>u'. uinput_inject (mt_emit (\<lambda>_ _. True)) (with_sink example_config mt_idle)
      (frame_single (touch_event_new 3 Down \<lparr>px = 1919, py = 0\<rparr>)) = (u', Inr ())"
proof -
  let ?u = "with_sink example_config mt_idle"
  let ?f = "frame_single (touch_event_new 3 Down \<lparr>px = 1919, py = 0\<rparr>)"
  have n: "unat (dc_slot_count example_config) \<le> 32" by (simp add: example_config_def)
  have evs: "frame_events ?f = [touch_event_new 3 Down \<lparr>px = 1919, py = 0\<rparr>]"
    by (simp add: frame_single_def numeral_eq_Suc)
  note held = device_held_new [OF n, where snk = mt_idle]
  have "device_ok ?u" using mt_device_ok_new [OF n] by (simp add: mt_device_ok_def device_ok_def)
  moreover have "frame_enabled (device_held ?u) (frame_events ?f)"
    unfolding held evs by (simp add: frame_enabled_def event_enabled_def touch_event_new_def)
  moreover have "\<forall>e \<in> set (frame_events ?f). event_in_range (ui_config ?u) e"
    unfolding evs by (simp add: event_in_range_def touch_event_new_def with_sink_def example_config_def)
  moreover have "card (dom (device_held ?u)) + downs (frame_events ?f) \<le> unat (slot_count (ui_state ?u))"
    unfolding held evs
    by (simp add: downs_def touch_event_new_def with_sink_def slot_state_new_def example_config_def)
  moreover have "\<forall>snk evs. \<exists>snk'. mt_emit (\<lambda>_ _. True) snk evs = (snk', Inr ())"
    by (simp add: mt_emit_def)
  ultimately show ?thesis using uinput_inject_accepts by blast
qed

end
