(* ===== verification/Metrics.thy ===== *)
theory Metrics
  imports Uinput
begin

text \<open>
  The measuring parts of a game session (\<^verbatim>\<open>wroid-inject/src/game_session.rs\<close>): the injector
  wrapper \<open>SessionMetricsInjector\<close> that counts frames and contacts, and the latency percentiles of
  the session report.
\<close>

section \<open>The measuring injector\<close>

record 'i metrics_injector =
  sm_inner :: 'i
  sm_active :: "(contact_id, unit) rbt" \<comment> \<open>a \<open>BTreeSet\<close>\<close>
  sm_frames_submitted :: u64
  sm_peak_contacts :: nat

definition metrics_new :: "'i \<Rightarrow> 'i metrics_injector" where
  "metrics_new i = \<lparr>sm_inner = i, sm_active = RBT.empty, sm_frames_submitted = 0, sm_peak_contacts = 0\<rparr>"

definition metrics_event :: "touch_event \<Rightarrow> (contact_id, unit) rbt \<Rightarrow> (contact_id, unit) rbt" where
  "metrics_event e act =
     (case phase e of
        Down \<Rightarrow> RBT.insert (contact e) () act
      | Up \<Rightarrow> RBT.delete (contact e) act
      | Cancel \<Rightarrow> RBT.delete (contact e) act
      | Move \<Rightarrow> act)"

definition metrics_inject :: "('i, 'e) inject_fn \<Rightarrow> ('i metrics_injector, 'e) inject_fn" where
  "metrics_inject inject m f =
     (case inject (sm_inner m) f of
        (i, Inl err) \<Rightarrow> (m\<lparr>sm_inner := i\<rparr>, Inl err)
      | (i, Inr _) \<Rightarrow>
          let act = fold metrics_event (frame_events f) (sm_active m)
          in (m\<lparr>sm_inner := i, sm_active := act,
                sm_frames_submitted := usat_add (sm_frames_submitted m) 1,
                sm_peak_contacts := max (sm_peak_contacts m) (length (RBT.entries act))\<rparr>, Inr ()))"

text \<open>The wrapper is sound when the injector inside is, its set holds the contacts the inner
  injector holds, and its peak is at least their number.\<close>

definition metrics_ok ::
  "('i \<Rightarrow> contact_id \<rightharpoonup> point) \<Rightarrow> ('i \<Rightarrow> bool) \<Rightarrow> 'i metrics_injector \<Rightarrow> bool" where
  "metrics_ok held ok m \<longleftrightarrow> ok (sm_inner m) \<and> dom (RBT.lookup (sm_active m)) = dom (held (sm_inner m))
     \<and> card (dom (held (sm_inner m))) \<le> sm_peak_contacts m"

definition metrics_held :: "('i \<Rightarrow> contact_id \<rightharpoonup> point) \<Rightarrow> 'i metrics_injector \<Rightarrow> contact_id \<rightharpoonup> point" where
  "metrics_held held m = held (sm_inner m)"

lemma length_entries_card: "length (RBT.entries t) = card (dom (RBT.lookup t))"
proof -
  have "dom (RBT.lookup t) = set (map fst (RBT.entries t))"
    by (simp only: RBT.map_of_entries [symmetric] dom_map_of_conv_image_fst set_map)
  then show ?thesis using distinct_card [OF RBT.distinct_entries [of t]] by simp
qed

lemma metrics_event_dom:
  "event_enabled m e \<Longrightarrow> dom (RBT.lookup act) = dom m \<Longrightarrow>
     dom (RBT.lookup (metrics_event e act)) = dom (event_effect e m)"
  by (cases "phase e")
    (auto simp: metrics_event_def event_effect_def event_enabled_def RBT.lookup_insert RBT.lookup_delete
      split: if_splits)

lemma metrics_events_dom:
  "distinct (map contact es) \<Longrightarrow> (\<And>e. e \<in> set es \<Longrightarrow> event_enabled m e) \<Longrightarrow>
   dom (RBT.lookup act) = dom m \<Longrightarrow>
     dom (RBT.lookup (fold metrics_event es act)) = dom (frame_effect es m)"
proof (induction es arbitrary: m act)
  case (Cons e es)
  have "event_enabled (event_effect e m) e'" if "e' \<in> set es" for e'
  proof -
    have "contact e' \<noteq> contact e" using that Cons.prems(1) by (auto intro: rev_image_eqI)
    then have "event_effect e m (contact e') = m (contact e')" by (simp add: event_effect_def)
    with Cons.prems(2) [of e'] that show ?thesis by (simp add: event_enabled_def)
  qed
  then have "dom (RBT.lookup (fold metrics_event es (metrics_event e act)))
      = dom (frame_effect es (event_effect e m))"
    using Cons.prems by (intro Cons.IH) (simp_all add: metrics_event_dom)
  then show ?case by (simp add: frame_effect_def)
qed (simp add: frame_effect_def)

context touch_injector
begin

lemma metrics_inject_ok:
  assumes ok: "metrics_ok held ok m" and en: "frame_enabled (metrics_held held m) (frame_events f)"
  shows "metrics_ok held ok (fst (metrics_inject inject m f))"
proof -
  have ok': "ok (sm_inner m)" and dom: "dom (RBT.lookup (sm_active m)) = dom (held (sm_inner m))"
    and peak: "card (dom (held (sm_inner m))) \<le> sm_peak_contacts m"
    using ok by (simp_all add: metrics_ok_def)
  note en' = en [unfolded metrics_held_def]
  obtain i r where r: "inject (sm_inner m) f = (i, r)" by fastforce
  have oki: "ok i" using inject_ok [OF ok' en'] r by simp
  show ?thesis
  proof (cases r)
    case (Inl err)
    with r inject_failure [OF ok' en'] oki dom peak show ?thesis
      by (simp add: metrics_inject_def metrics_ok_def)
  next
    case (Inr u)
    have held: "held i = frame_effect (frame_events f) (held (sm_inner m))"
      using inject_success [OF ok' en'] r Inr by blast
    have "dom (RBT.lookup (fold metrics_event (frame_events f) (sm_active m))) = dom (held i)"
      unfolding held using metrics_events_dom [OF _ _ dom] en' by (simp add: frame_enabled_def)
    with r Inr oki show ?thesis
      by (simp add: metrics_inject_def metrics_ok_def Let_def length_entries_card)
  qed
qed

text \<open>A wrapped injector keeps the contract of the injector inside.\<close>

lemma metrics_touch_injector: 
  "touch_injector (metrics_inject inject) (metrics_held held) (metrics_ok held ok)"
proof
  fix m m' :: "'i metrics_injector" and f u err
  assume ok: "metrics_ok held ok m" and en: "frame_enabled (metrics_held held m) (frame_events f)"
  show "metrics_ok held ok (fst (metrics_inject inject m f))" by (rule metrics_inject_ok [OF ok en])
  have ok': "ok (sm_inner m)" and en': "frame_enabled (held (sm_inner m)) (frame_events f)"
    using ok en by (simp_all add: metrics_ok_def metrics_held_def)
  show "metrics_held held m' = frame_effect (frame_events f) (metrics_held held m)"
    if "metrics_inject inject m f = (m', Inr u)"
    using that inject_success [OF ok' en']
    by (auto simp: metrics_inject_def metrics_held_def Let_def split: prod.splits sum.splits)
  show "metrics_held held m' = metrics_held held m" if "metrics_inject inject m f = (m', Inl err)"
    using that inject_failure [OF ok' en']
    by (auto simp: metrics_inject_def metrics_held_def Let_def split: prod.splits sum.splits)
qed

end

interpretation metrics_uinput: touch_injector
    "metrics_inject (uinput_inject emit)" "metrics_held device_held" "metrics_ok device_held device_ok"
  for emit :: "('snk, 'io) emit_fn"
  by (rule uinput.metrics_touch_injector)

text \<open>In a session that has run any operations on the measured device, the set of contacts the
  report counts is the set of contacts the engine has committed, and the reported peak is at least
  the number of contacts that are down.\<close>

theorem metrics_in_step:
  assumes cfg: "with_name_and_slots name width height n = Inr cfg"
    and e: "e = engine_run (metrics_inject (uinput_inject emit)) ops
                  (engine_new (metrics_new (with_sink cfg snk)))"
  shows "dom (RBT.lookup (sm_active (injector e))) = dom (engine_contacts e)
    \<and> card (dom (engine_contacts e)) \<le> sm_peak_contacts (injector e)"
proof -
  have n: "unat (dc_slot_count cfg) \<le> 32"
    using cfg by (auto simp: with_name_and_slots_def MAX_SLOT_COUNT_def word_le_nat_alt split: if_splits)
  have "device_ok (with_sink cfg snk)"
    using n by (simp add: device_ok_def with_sink_def slot_inv_new)
  then have "metrics_ok device_held device_ok (metrics_new (with_sink cfg snk))"
    by (simp add: metrics_ok_def metrics_new_def device_held_new [OF n])
  then have "in_step (metrics_held device_held) (metrics_ok device_held device_ok) e" unfolding e
    by (rule metrics_uinput.engine_new_run_in_step)
      (simp add: metrics_held_def metrics_new_def device_held_new [OF n])
  then show ?thesis by (auto simp: in_step_def metrics_ok_def metrics_held_def)
qed

lemma metrics_in_step_witness:
  "\<exists>cfg e. with_name_and_slots ''pad'' 1280 720 2 = Inr cfg
     \<and> e = engine_run (metrics_inject (uinput_inject (mt_emit (\<lambda>_ _. True))))
             [OpBegin 7 \<lparr>px = 100, py = 200\<rparr>, OpBegin 8 \<lparr>px = 10, py = 20\<rparr>, OpEnd 7]
             (engine_new (metrics_new (with_sink cfg mt_idle)))
     \<and> dom (RBT.lookup (sm_active (injector e))) = dom (engine_contacts e)"
proof -
  have "trim ''pad'' \<noteq> []" by code_simp
  then obtain cfg where cfg: "with_name_and_slots ''pad'' 1280 720 2 = Inr cfg"
    by (simp add: with_name_and_slots_def MAX_SLOT_COUNT_def MAX_DEVICE_NAME_LEN_def)
  let ?e = "engine_run (metrics_inject (uinput_inject (mt_emit (\<lambda>_ _. True))))
             [OpBegin 7 \<lparr>px = 100, py = 200\<rparr>, OpBegin 8 \<lparr>px = 10, py = 20\<rparr>, OpEnd 7]
             (engine_new (metrics_new (with_sink cfg mt_idle)))"
  from metrics_in_step [OF cfg, of ?e] have "dom (RBT.lookup (sm_active (injector ?e))) = dom (engine_contacts ?e)"
    by blast
  with cfg show ?thesis by blast
qed

section \<open>Latency percentiles\<close>

definition USIZE_MAX :: nat where "USIZE_MAX = 2 ^ 64 - 1"

record latency_summary =
  ls_samples :: nat
  ls_p50 :: nat
  ls_p95 :: nat
  ls_p99 :: nat
  ls_max :: nat

definition latency_summary_default :: latency_summary where
  "latency_summary_default = \<lparr>ls_samples = 0, ls_p50 = 0, ls_p95 = 0, ls_p99 = 0, ls_max = 0\<rparr>"

record latency_metrics_data =
  lm_samples :: u64
  lm_p50_micros :: u64
  lm_p95_micros :: u64
  lm_p99_micros :: u64
  lm_max_micros :: u64

definition as_micros :: "duration \<Rightarrow> nat" where
  "as_micros d = d div 1000"

definition percentile_from_sorted :: "nat list \<Rightarrow> nat \<Rightarrow> nat" where
  "percentile_from_sorted micros percentile =
     (let rank = min (min (length micros * percentile) USIZE_MAX + 99) USIZE_MAX div 100;
          index = min (rank - 1) (length micros - 1)
      in micros ! index)"

definition latency_summary_micros :: "duration list \<Rightarrow> latency_summary" where
  "latency_summary_micros samples =
     (if samples = [] then latency_summary_default
      else let micros = sort (map as_micros samples)
           in \<lparr>ls_samples = length micros,
               ls_p50 = percentile_from_sorted micros 50,
               ls_p95 = percentile_from_sorted micros 95,
               ls_p99 = percentile_from_sorted micros 99,
               ls_max = last micros\<rparr>)"

text \<open>\<open>try_into().unwrap_or(u64::MAX)\<close>\<close>

definition to_u64 :: "nat \<Rightarrow> u64" where
  "to_u64 n = (if n < 2 ^ 64 then of_nat n else - 1)"

definition latency_metrics :: "duration list \<Rightarrow> latency_metrics_data" where
  "latency_metrics samples =
     (let s = latency_summary_micros samples
      in \<lparr>lm_samples = to_u64 (ls_samples s), lm_p50_micros = to_u64 (ls_p50 s),
          lm_p95_micros = to_u64 (ls_p95 s), lm_p99_micros = to_u64 (ls_p99 s),
          lm_max_micros = to_u64 (ls_max s)\<rparr>)"

definition MAX_REASONABLE_AGE :: duration where
  "MAX_REASONABLE_AGE = from_millis 60000"

text \<open>Both clocks as times since the same epoch; \<open>duration_since\<close> fails on a later timestamp.\<close>

definition kernel_event_age :: "duration \<Rightarrow> duration \<Rightarrow> duration option" where
  "kernel_event_age now timestamp =
     (if timestamp \<le> now
      then (if now - timestamp \<le> MAX_REASONABLE_AGE then Some (now - timestamp) else None)
      else None)"

lemma percentile_index_less:
  "xs \<noteq> [] \<Longrightarrow> min r (length xs - 1) < length xs"
  by (cases xs) auto

lemma percentile_rank_mono:
  "p \<le> q \<Longrightarrow> min (min (n * p) m + 99) m div 100 \<le> min (min (n * q) m + 99) m div (100::nat)"
  by (intro div_le_mono min.mono add_le_mono mult_le_mono) simp_all

lemma percentile_mono:
  assumes "sorted xs" "xs \<noteq> []" "p \<le> q"
  shows "percentile_from_sorted xs p \<le> percentile_from_sorted xs q"
  unfolding percentile_from_sorted_def Let_def
proof (rule sorted_nth_mono [OF assms(1) _ percentile_index_less [OF assms(2)]])
  show "min (min (min (length xs * p) USIZE_MAX + 99) USIZE_MAX div 100 - 1) (length xs - 1)
      \<le> min (min (min (length xs * q) USIZE_MAX + 99) USIZE_MAX div 100 - 1) (length xs - 1)"
    by (intro min.mono diff_le_mono percentile_rank_mono assms(3)) simp
qed

lemma percentile_le_last:
  "sorted xs \<Longrightarrow> xs \<noteq> [] \<Longrightarrow> percentile_from_sorted xs p \<le> last xs"
  unfolding percentile_from_sorted_def Let_def
  by (simp add: last_conv_nth) (rule sorted_nth_mono, auto)

lemma percentile_in_set: "xs \<noteq> [] \<Longrightarrow> percentile_from_sorted xs p \<in> set xs"
  unfolding percentile_from_sorted_def Let_def by (rule nth_mem) (cases xs, auto)

text \<open>The reported percentiles are ordered and bounded by the reported maximum, for every list of
  samples, the empty one included; so are the saturated numbers of the report.\<close>

theorem latency_summary_ordered:
  "ls_samples (latency_summary_micros samples) = length samples
   \<and> ls_p50 (latency_summary_micros samples) \<le> ls_p95 (latency_summary_micros samples)
   \<and> ls_p95 (latency_summary_micros samples) \<le> ls_p99 (latency_summary_micros samples)
   \<and> ls_p99 (latency_summary_micros samples) \<le> ls_max (latency_summary_micros samples)
   \<and> lm_p50_micros (latency_metrics samples) \<le> lm_p95_micros (latency_metrics samples)
   \<and> lm_p95_micros (latency_metrics samples) \<le> lm_p99_micros (latency_metrics samples)
   \<and> lm_p99_micros (latency_metrics samples) \<le> lm_max_micros (latency_metrics samples)"
proof -
  have u64: "to_u64 a \<le> to_u64 b" if "a \<le> b" for a b
  proof -
    have "unat (to_u64 n) = min n (2 ^ 64 - 1)" for n
      by (simp add: to_u64_def unat_of_nat unsigned_minus_1_eq_mask mask_eq_exp_minus_1)
    then show ?thesis using that by (simp add: word_le_nat_alt)
  qed
  have "sort (map as_micros samples) \<noteq> []" if "samples \<noteq> []"
    using that by (metis length_0_conv length_map length_sort)
  then show ?thesis
    by (simp add: latency_metrics_def Let_def u64 latency_summary_micros_def latency_summary_default_def
        percentile_mono percentile_le_last)
qed

lemma sorted_count_le:
  assumes "sorted xs" "i < length xs"
  shows "Suc i \<le> length (filter (\<lambda>x. x \<le> xs ! i) xs)"
proof -
  have "filter (\<lambda>x. x \<le> xs ! i) (take (Suc i) xs) = take (Suc i) xs"
    using assms by (intro filter_True) (auto simp: in_set_conv_nth sorted_nth_mono)
  then have "Suc i \<le> length (filter (\<lambda>x. x \<le> xs ! i) (take (Suc i) xs))"
    using assms(2) by simp
  also have "\<dots> \<le> length (filter (\<lambda>x. x \<le> xs ! i) (take (Suc i) xs @ drop (Suc i) xs))"
    by (simp only: filter_append length_append)
  finally show ?thesis by simp
qed

lemma sorted_count_less:
  assumes "sorted xs" "i < length xs"
  shows "length (filter (\<lambda>x. x < xs ! i) xs) \<le> i"
proof -
  have "filter (\<lambda>x. x < xs ! i) (drop i xs) = []"
    using assms by (auto simp: filter_empty_conv in_set_conv_nth not_less sorted_nth_mono)
  then have "filter (\<lambda>x. x < xs ! i) xs = filter (\<lambda>x. x < xs ! i) (take i xs)"
    by (metis append_Nil2 append_take_drop_id filter_append)
  then show ?thesis
    by (metis le_trans length_filter_le length_take min.cobounded2)
qed

text \<open>A percentile is the nearest rank: at least \<open>p\<close> percent of the samples do not exceed it, and
  fewer than \<open>p\<close> percent lie strictly below it. The bound keeps the rank computation from saturating.\<close>

theorem percentile_nearest_rank:
  assumes sorted: "sorted xs" and ne: "xs \<noteq> []" and p: "0 < p" "p \<le> 100"
    and small: "length xs * 100 + 99 \<le> USIZE_MAX"
  shows "p * length xs \<le> 100 * length (filter (\<lambda>x. x \<le> percentile_from_sorted xs p) xs)
    \<and> 100 * length (filter (\<lambda>x. x < percentile_from_sorted xs p) xs) < p * length xs"
proof -
  let ?n = "length xs" and ?i = "(length xs * p + 99) div 100 - 1"
  have n: "0 < ?n" using ne by simp
  have le: "?n * p \<le> ?n * 100" using p by simp
  then have "?n * p + 99 \<le> USIZE_MAX" using small by (rule order_trans [OF add_right_mono])
  then have nosat: "min (min (?n * p) USIZE_MAX + 99) USIZE_MAX = ?n * p + 99" by (simp add: min_def)
  have pos: "0 < ?n * p" using n p by simp
  have rank: "(m + 99) div 100 - 1 < n \<and> m \<le> 100 * Suc ((m + 99) div 100 - 1) \<and> 100 * ((m + 99) div 100 - 1) < m"
    if "0 < m" "m \<le> n * 100" for m n :: nat
  proof -
    define q r where "q = (m + 99) div 100" and "r = (m + 99) mod 100"
    have e: "m + 99 = 100 * q + r" "r < 100" by (simp_all add: q_def r_def)
    with that have "q \<noteq> 0" by auto
    then obtain k where "q = Suc k" using not0_implies_Suc by blast
    with e that have "q - 1 < n \<and> m \<le> 100 * Suc (q - 1) \<and> 100 * (q - 1) < m" by simp
    then show ?thesis unfolding q_def .
  qed
  from rank [OF pos le] have i: "?i < ?n" "?n * p \<le> 100 * Suc ?i" "100 * ?i < ?n * p" by blast+
  then have val: "percentile_from_sorted xs p = xs ! ?i"
    unfolding percentile_from_sorted_def Let_def nosat by (simp add: min_def)
  have "?n * p \<le> 100 * length (filter (\<lambda>x. x \<le> xs ! ?i) xs)"
    using i(2) sorted_count_le [OF sorted i(1)] by linarith
  moreover have "100 * length (filter (\<lambda>x. x < xs ! ?i) xs) < ?n * p"
    using i(3) sorted_count_less [OF sorted i(1)] by linarith
  ultimately show ?thesis unfolding val by (simp only: mult.commute [of p])
qed

lemma percentile_nearest_rank_witness:
  "95 * length [3, 5, 8, 13 :: nat]
     \<le> 100 * length (filter (\<lambda>x. x \<le> percentile_from_sorted [3, 5, 8, 13] 95) [3, 5, 8, 13])"
proof -
  have "length [3, 5, 8, 13 :: nat] * 100 + 99 \<le> USIZE_MAX" by (simp add: USIZE_MAX_def)
  then show ?thesis using percentile_nearest_rank [of "[3, 5, 8, 13]" 95] by simp
qed

end
