(* ===== verification/Session.thy ===== *)
theory Session
  imports Input Metrics
begin

unbundle bit_operations_syntax

text \<open>
  The unified runtime of a game session, \<^verbatim>\<open>UnifiedRuntime\<close> of \<^verbatim>\<open>wroid-inject/src/game_session.rs\<close>: it
  owns the plan, the touch engine, one aim controller per mouse-aim binding and the state of every
  binding, and turns keyboard and mouse events into touch frames. The injector and the platform's
  \<open>hypot\<close> are parameters, \<open>self.now()\<close> is the argument \<open>now\<close>; trace output is not modelled. An array
  is a list of its length; a panic of the code is the error \<open>SessPanic\<close>.
\<close>

section \<open>Inputs and masks\<close>

datatype control_input =
    CiKey host_key_name
  | CiKeyCluster host_key_name host_key_name host_key_name host_key_name \<comment> \<open>up, left, down, right\<close>
  | CiMouseButton host_mouse_button
  | CiMouseMove

definition session_parse_mouse_button :: "string \<Rightarrow> host_mouse_button option" where
  "session_parse_mouse_button button =
     (let button = trim button
      in if eq_ignore_ascii_case button ''left'' then Some MLeft
         else if eq_ignore_ascii_case button ''right'' then Some MRight
         else if eq_ignore_ascii_case button ''middle'' then Some MMiddle
         else if eq_ignore_ascii_case button ''side'' then Some MSide
         else if eq_ignore_ascii_case button ''extra'' then Some MExtra
         else None)"

definition control_input_of :: "input_v2 \<Rightarrow> control_input option" where
  "control_input_of inp =
     (case inp of
        I2Key v \<Rightarrow> map_option CiKey (key_parse v)
      | I2KeyCluster up left down right \<Rightarrow>
          Option.bind (key_parse up) (\<lambda>u. Option.bind (key_parse left) (\<lambda>l.
            Option.bind (key_parse down) (\<lambda>d. Option.bind (key_parse right) (\<lambda>r. Some (CiKeyCluster u l d r)))))
      | I2MouseButton b \<Rightarrow> map_option CiMouseButton (session_parse_mouse_button b)
      | I2MouseMove \<Rightarrow> Some CiMouseMove)"

definition runtime_mouse_button :: "mouse_button \<Rightarrow> host_mouse_button" where
  "runtime_mouse_button b =
     (case b of MbLeft \<Rightarrow> MLeft | MbRight \<Rightarrow> MRight | MbMiddle \<Rightarrow> MMiddle | MbSide \<Rightarrow> MSide | MbExtra \<Rightarrow> MExtra)"

definition mouse_button_mask :: "host_mouse_button \<Rightarrow> u8" where
  "mouse_button_mask b = push_bit (button_index b) 1"

definition mouse_button_held :: "u8 \<Rightarrow> host_mouse_button \<Rightarrow> bool" where
  "mouse_button_held held b \<longleftrightarrow> held AND mouse_button_mask b \<noteq> 0"

definition set_mouse_button_held :: "u8 \<Rightarrow> host_mouse_button \<Rightarrow> bool \<Rightarrow> u8" where
  "set_mouse_button_held held b pressed =
     (if pressed then held OR mouse_button_mask b else held AND NOT (mouse_button_mask b))"

definition layer_mask_bit :: "layer_id \<Rightarrow> u64 option" where
  "layer_mask_bit layer =
     (if layer = 0 then None
      else let index = unat layer - 1 in if index < 64 then Some (push_bit index 1) else None)"

definition PHYSICAL_INPUT_COUNT :: nat where "PHYSICAL_INPUT_COUNT = 51"

definition physical_input_index :: "physical_input \<Rightarrow> nat" where
  "physical_input_index inp = (case inp of PKey k \<Rightarrow> key_index k | PMouseButton b \<Rightarrow> 46 + button_index b)"

section \<open>Which binding an input drives\<close>

definition layer_is_active :: "u64 \<Rightarrow> layer_id \<Rightarrow> bool" where
  "layer_is_active active_layers layer =
     (case layer_mask_bit layer of None \<Rightarrow> False | Some bits \<Rightarrow> active_layers AND bits \<noteq> 0)"

definition binding_condition_available :: "runtime_binding \<Rightarrow> physical_input \<Rightarrow> u64 \<Rightarrow> modifier_mask \<Rightarrow> bool" where
  "binding_condition_available c inp active_layers held_modifiers \<longleftrightarrow>
     (rb_layer c = LAYER_BASE \<or> layer_is_active active_layers (rb_layer c))
     \<and> (case rb_modifier c of None \<Rightarrow> True | Some m \<Rightarrow> mask_contains held_modifiers m)
     \<and> \<not> binding_is_suppressed c inp held_modifiers"

definition binding_available ::
  "runtime_binding \<Rightarrow> physical_input \<Rightarrow> u64 \<Rightarrow> modifier_mask \<Rightarrow> layer_id option list \<Rightarrow> bool" where
  "binding_available c inp active_layers held_modifiers selected \<longleftrightarrow>
     \<not> (case selected ! physical_input_index inp of
           None \<Rightarrow> False | Some layer \<Rightarrow> rb_layer c = LAYER_BASE \<or> rb_layer c < layer)
     \<and> binding_condition_available c inp active_layers held_modifiers"

definition select_input_layer ::
  "runtime_binding \<Rightarrow> u64 \<Rightarrow> physical_input \<Rightarrow> layer_id option list \<Rightarrow> layer_id option list" where
  "select_input_layer c active_layers inp selected =
     (if \<not> layer_is_active active_layers (rb_layer c) then selected
      else let i = physical_input_index inp
           in if (case selected ! i of None \<Rightarrow> True | Some layer \<Rightarrow> layer < rb_layer c)
              then selected[i := Some (rb_layer c)] else selected)"

definition control_input_physical :: "control_input \<Rightarrow> physical_input list" where
  "control_input_physical ci =
     (case ci of
        CiKey k \<Rightarrow> [PKey k]
      | CiKeyCluster up left down right \<Rightarrow> map PKey [up, left, down, right]
      | CiMouseButton b \<Rightarrow> [PMouseButton b]
      | CiMouseMove \<Rightarrow> [])"

definition select_control ::
  "u64 \<Rightarrow> runtime_binding \<times> control_input \<Rightarrow> layer_id option list \<Rightarrow> layer_id option list" where
  "select_control active_layers = (\<lambda>(c, ci) selected.
     if rb_layer c = LAYER_BASE then selected
     else fold (select_input_layer c active_layers) (control_input_physical ci) selected)"

section \<open>The runtime\<close>

record layer_control =
  lc_mask :: u64
  lc_mode :: layer_mode

datatype 'e session_error =
    SessEngine "'e touch_engine_error"
  | SessAim mouse_aim_config_error
  | SessOther string
  | SessPanic string

record 'i unified_runtime =
  ur_plan :: control_plan
  ur_engine :: "'i touch_engine"
  ur_inputs :: "control_input list"
  ur_layer_controls :: "layer_control option list"
  ur_directions :: "directional_input list"
  ur_desired_directions :: "directional_input list"
  ur_active :: "bool list"
  ur_desired :: "bool list"
  ur_selected :: "layer_id option list"
  ur_points :: "contact_id option list"
  ur_cursor_contact :: contact_id
  ur_aims :: "mouse_aim_controller option list"
  ur_toggle_keys :: "host_key_name option list"
  ur_last_frame :: "duration option list"
  ur_active_layers :: u64
  ur_held_keys :: modifier_mask
  ur_held_modifiers :: modifier_mask
  ur_held_buttons :: u8
  ur_pipeline :: "duration list"
  ur_kernel :: "duration list"
  ur_rejected :: u64

type_synonym ('i, 'e, 'a) session_st = "('i unified_runtime, 'e session_error, 'a) st"

text \<open>The first identifier above those of the plan, for taps, holds and the cursor.\<close>

definition first_free_contact :: "runtime_binding list \<Rightarrow> u16" where
  "first_free_contact cs =
     usat_add (foldl max 0 (List.map_filter (\<lambda>c. case rb_action c of
         RVirtualJoystick j _ _ \<Rightarrow> Some (vj_contact_id j)
       | RMouseAim a s \<Rightarrow> Some (max (ma_contact_id a) (st_alternate s))
       | _ \<Rightarrow> None) cs)) 1"

fun new_controls ::
  "runtime_binding list \<Rightarrow> u16 \<Rightarrow> 'e session_error +
     (control_input \<times> contact_id option \<times> mouse_aim_controller option \<times> host_key_name option) list \<times> u16" where
  "new_controls [] n = Inr ([], n)"
| "new_controls (c # cs) n =
     (case control_input_of (rb_input c) of
        None \<Rightarrow> Inl (SessOther ''validated control input did not resolve at runtime'')
      | Some ci \<Rightarrow>
          let (contact, n') = (case rb_action c of
                  RTap _ \<Rightarrow> (Some n, usat_add n 1) | RHold _ \<Rightarrow> (Some n, usat_add n 1) | _ \<Rightarrow> (None, n))
          in case (case rb_action c of
                     RMouseAim a s \<Rightarrow>
                       (case controller_new a s of
                          Inl err \<Rightarrow> Inl (SessAim err)
                        | Inr ctl \<Rightarrow> Inr (Some ctl, Option.bind (st_toggle_key s) key_parse))
                   | _ \<Rightarrow> Inr (None, None)) of
               Inl err \<Rightarrow> Inl err
             | Inr (ctl, toggle) \<Rightarrow>
                 (case new_controls cs n' of
                    Inl err \<Rightarrow> Inl err
                  | Inr (rest, n'') \<Rightarrow> Inr ((ci, contact, ctl, toggle) # rest, n'')))"

fun new_layers :: "runtime_layer list \<Rightarrow> layer_control option list \<Rightarrow> 'e session_error + layer_control option list" where
  "new_layers [] table = Inr table"
| "new_layers (l # ls) table =
     (case layer_mask_bit (rl_id l) of
        None \<Rightarrow> Inl (SessOther ''declared runtime layer id is out of range'')
      | Some bits \<Rightarrow>
          new_layers ls (table[key_index (rl_activation_key l) := Some \<lparr>lc_mask = bits, lc_mode = rl_mode l\<rparr>]))"

definition runtime_new :: "control_plan \<Rightarrow> 'i \<Rightarrow> 'e session_error + 'i unified_runtime" where
  "runtime_new plan device =
     (case new_controls (pl_controls plan) (first_free_contact (pl_controls plan)) of
        Inl err \<Rightarrow> Inl err
      | Inr (controls, cursor) \<Rightarrow>
          (case new_layers (pl_layers plan) (replicate 46 None) of
             Inl err \<Rightarrow> Inl err
           | Inr table \<Rightarrow>
               let n = length (pl_controls plan)
               in Inr \<lparr>ur_plan = plan, ur_engine = engine_new device, ur_inputs = map fst controls,
                       ur_layer_controls = table, ur_directions = replicate n directional_neutral,
                       ur_desired_directions = replicate n directional_neutral, ur_active = replicate n False,
                       ur_desired = replicate n False, ur_selected = replicate PHYSICAL_INPUT_COUNT None,
                       ur_points = map (\<lambda>(_, contact, _, _). contact) controls, ur_cursor_contact = cursor,
                       ur_aims = map (\<lambda>(_, _, ctl, _). ctl) controls,
                       ur_toggle_keys = map (\<lambda>(_, _, _, toggle). toggle) controls,
                       ur_last_frame = replicate n None, ur_active_layers = 0, ur_held_keys = MASK_EMPTY,
                       ur_held_modifiers = MASK_EMPTY, ur_held_buttons = 0, ur_pipeline = [], ur_kernel = [],
                       ur_rejected = 0\<rparr>))"

definition control_count :: "'i unified_runtime \<Rightarrow> nat" where
  "control_count r = length (pl_controls (ur_plan r))"

definition control_at :: "'i unified_runtime \<Rightarrow> nat \<Rightarrow> runtime_binding" where
  "control_at r i = pl_controls (ur_plan r) ! i"

definition action_at :: "'i unified_runtime \<Rightarrow> nat \<Rightarrow> runtime_action" where
  "action_at r i = rb_action (control_at r i)"

section \<open>The aim controllers\<close>

text \<open>One call on the controller of a binding and the engine; the loops run over the controllers there
  are.\<close>

definition on_aim ::
  "(mouse_aim_controller \<times> 'i touch_engine \<Rightarrow> ('i, 'e, mouse_aim_update) aim_st) \<Rightarrow> nat \<Rightarrow> 'i unified_runtime
     \<Rightarrow> ('i, 'e, bool) session_st" where
  "on_aim f i r =
     (case ur_aims r ! i of
        None \<Rightarrow> (r, Inr False)
      | Some c \<Rightarrow>
          (case f (c, ur_engine r) of
             ((c', e'), Inl err) \<Rightarrow> (r\<lparr>ur_aims := (ur_aims r)[i := Some c'], ur_engine := e'\<rparr>, Inl (SessEngine err))
           | ((c', e'), Inr update) \<Rightarrow>
               (r\<lparr>ur_aims := (ur_aims r)[i := Some c'], ur_engine := e'\<rparr>, Inr (update \<noteq> Ignored))))"

definition for_aims ::
  "(mouse_aim_controller \<times> 'i touch_engine \<Rightarrow> ('i, 'e, mouse_aim_update) aim_st) \<Rightarrow> 'i unified_runtime
     \<Rightarrow> ('i, 'e, bool) session_st" where
  "for_aims f r = for_each (on_aim f) [0..<length (ur_aims r)] r"

definition runtime_start :: "('i, 'e) inject_fn \<Rightarrow> duration \<Rightarrow> 'i unified_runtime \<Rightarrow> ('i, 'e, unit) session_st" where
  "runtime_start inject now r =
     void (for_aims (\<lambda>s. if st_toggle_key (mc_settings (fst s)) = None then activate inject s now
                         else (s, Inr Ignored)) r)"

definition aim_controllers :: "'i unified_runtime \<Rightarrow> mouse_aim_controller list" where
  "aim_controllers r = List.map_filter id (ur_aims r)"

definition has_toggle_key_aim :: "'i unified_runtime \<Rightarrow> bool" where
  "has_toggle_key_aim r = list_ex (\<lambda>c. st_toggle_key (mc_settings c) \<noteq> None) (aim_controllers r)"

definition has_always_on_aim :: "'i unified_runtime \<Rightarrow> bool" where
  "has_always_on_aim r = list_ex (\<lambda>c. st_toggle_key (mc_settings c) = None) (aim_controllers r)"

definition aim_active :: "'i unified_runtime \<Rightarrow> bool" where
  "aim_active r = list_ex controller_is_active (aim_controllers r)"

definition restore_aim ::
  "('i, 'e) inject_fn \<Rightarrow> duration \<Rightarrow> bool \<Rightarrow> 'i unified_runtime \<Rightarrow> ('i, 'e, unit) session_st" where
  "restore_aim inject now reactivate r =
     void (for_aims (\<lambda>s.
       if (st_toggle_key (mc_settings (fst s)) = None \<or> reactivate) \<and> \<not> controller_is_active (fst s)
       then activate inject s now else (s, Inr Ignored)) r)"

definition set_aim_enabled ::
  "('i, 'e) inject_fn \<Rightarrow> duration \<Rightarrow> bool \<Rightarrow> 'i unified_runtime \<Rightarrow> ('i, 'e, unit) session_st" where
  "set_aim_enabled inject now enabled r =
     (if enabled then restore_aim inject now True r
      else void (for_aims (\<lambda>s. if controller_is_active (fst s) then deactivate inject s else (s, Inr Ignored)) r))"

definition set_all_ads :: "bool \<Rightarrow> 'i unified_runtime \<Rightarrow> 'i unified_runtime" where
  "set_all_ads active r = r\<lparr>ur_aims := map (map_option (set_ads_active active)) (ur_aims r)\<rparr>"

section \<open>The cursor\<close>

definition cursor_point :: "'i unified_runtime \<Rightarrow> f64 \<Rightarrow> f64 \<Rightarrow> u32 \<Rightarrow> u32 \<Rightarrow> point option" where
  "cursor_point r x y surface_width surface_height =
     (let res = pl_resolution (ur_plan r)
      in if surface_width = 0 \<or> surface_height = 0 \<or> rwidth res = 0 \<or> rheight res = 0 then None
         else
           let axis = (\<lambda>v size limit.
                 min (f_as_u32 (f_floor (f_div (f_mul (f_clamp v f_zero (f_of_u32 (size - 1))) (f_of_u32 limit))
                                               (f_of_u32 size)))) (limit - 1))
           in Some \<lparr>px = axis x surface_width (rwidth res), py = axis y surface_height (rheight res)\<rparr>)"

definition engine_call :: "('i, 'e, 'a) engine_st \<Rightarrow> 'i unified_runtime \<Rightarrow> ('i, 'e, 'a) session_st" where
  "engine_call result r =
     (case result of
        (e, Inl err) \<Rightarrow> (r\<lparr>ur_engine := e\<rparr>, Inl (SessEngine err))
      | (e, Inr a) \<Rightarrow> (r\<lparr>ur_engine := e\<rparr>, Inr a))"

definition cursor_down :: "('i, 'e) inject_fn \<Rightarrow> point \<Rightarrow> 'i unified_runtime \<Rightarrow> ('i, 'e, unit) session_st" where
  "cursor_down inject p r =
     (if is_active (engine_state (ur_engine r)) (ur_cursor_contact r)
      then engine_call (move_contact inject (ur_engine r) (ur_cursor_contact r) p) r
      else engine_call (begin_contact inject (ur_engine r) (ur_cursor_contact r) p) r)"

definition cursor_move :: "('i, 'e) inject_fn \<Rightarrow> point \<Rightarrow> 'i unified_runtime \<Rightarrow> ('i, 'e, unit) session_st" where
  "cursor_move inject p r =
     (if is_active (engine_state (ur_engine r)) (ur_cursor_contact r)
      then engine_call (move_contact inject (ur_engine r) (ur_cursor_contact r) p) r else (r, Inr ()))"

definition cursor_up :: "('i, 'e) inject_fn \<Rightarrow> 'i unified_runtime \<Rightarrow> ('i, 'e, unit) session_st" where
  "cursor_up inject r =
     (if is_active (engine_state (ur_engine r)) (ur_cursor_contact r)
      then engine_call (end_contact inject (ur_engine r) (ur_cursor_contact r)) r else (r, Inr ()))"

section \<open>What the held inputs ask for\<close>

definition direction_intersection :: "directional_input \<Rightarrow> directional_input \<Rightarrow> directional_input" where
  "direction_intersection a b =
     \<lparr>di_up = di_up a \<and> di_up b, di_left = di_left a \<and> di_left b, di_down = di_down a \<and> di_down b,
      di_right = di_right a \<and> di_right b\<rparr>"

definition available :: "'i unified_runtime \<Rightarrow> nat \<Rightarrow> physical_input \<Rightarrow> bool" where
  "available r i inp \<longleftrightarrow>
     binding_available (control_at r i) inp (ur_active_layers r) (ur_held_modifiers r) (ur_selected r)"

text \<open>A held key drives a continuous binding unless it activates a layer.\<close>

definition key_desired :: "'i unified_runtime \<Rightarrow> nat \<Rightarrow> host_key_name \<Rightarrow> bool" where
  "key_desired r i k \<longleftrightarrow>
     ur_layer_controls r ! key_index k = None \<and> mask_contains (ur_held_keys r) k \<and> available r i (PKey k)"

definition desired_state :: "'i unified_runtime \<Rightarrow> nat \<Rightarrow> bool \<times> directional_input" where
  "desired_state r i =
     (case (action_at r i, ur_inputs r ! i) of
        (RHold _, CiKey k) \<Rightarrow> (key_desired r i k, directional_neutral)
      | (RHold _, CiMouseButton b) \<Rightarrow>
          (mouse_button_held (ur_held_buttons r) b \<and> available r i (PMouseButton b), directional_neutral)
      | (RVirtualJoystick _ JHold _, CiKeyCluster up left down right) \<Rightarrow>
          let d = \<lparr>di_up = key_desired r i up, di_left = key_desired r i left, di_down = key_desired r i down,
                   di_right = key_desired r i right\<rparr>
          in (d \<noteq> directional_neutral, d)
      | (RVirtualJoystick _ JToggle _, CiKeyCluster up left down right) \<Rightarrow>
          let c = ur_directions r ! i;
              d = \<lparr>di_up = di_up c \<and> available r i (PKey up), di_left = di_left c \<and> available r i (PKey left),
                   di_down = di_down c \<and> available r i (PKey down),
                   di_right = di_right c \<and> available r i (PKey right)\<rparr>
          in (d \<noteq> directional_neutral, d)
      | _ \<Rightarrow> (False, directional_neutral))"

definition refresh_selected :: "'i unified_runtime \<Rightarrow> 'i unified_runtime" where
  "refresh_selected r =
     r\<lparr>ur_selected := fold (select_control (ur_active_layers r)) (zip (pl_controls (ur_plan r)) (ur_inputs r))
                        (replicate (length (ur_selected r)) None)\<rparr>"

definition compute_desired :: "'i unified_runtime \<Rightarrow> 'i unified_runtime" where
  "compute_desired r =
     r\<lparr>ur_desired := map (\<lambda>i. fst (desired_state r i)) [0..<control_count r],
       ur_desired_directions := map (\<lambda>i. snd (desired_state r i)) [0..<control_count r]\<rparr>"

section \<open>Reconciling the bindings\<close>

text \<open>One joystick frame and its bookkeeping.\<close>

definition direct_joystick ::
  "(f64 \<Rightarrow> f64 \<Rightarrow> f64) \<Rightarrow> ('i, 'e) inject_fn \<Rightarrow> duration \<Rightarrow> nat \<Rightarrow> virtual_joystick \<Rightarrow> directional_input
     \<Rightarrow> 'i unified_runtime \<Rightarrow> ('i, 'e, bool) session_st" where
  "direct_joystick hypot inject now i j d r =
     (case joystick_apply hypot inject j (ur_engine r) d of
        (e, Inl err) \<Rightarrow> (r\<lparr>ur_engine := e\<rparr>, Inl (SessEngine err))
      | (e, Inr submitted) \<Rightarrow>
          (r\<lparr>ur_engine := e,
             ur_last_frame := (if submitted then (ur_last_frame r)[i := Some now] else ur_last_frame r),
             ur_directions := (ur_directions r)[i := d],
             ur_active := (ur_active r)[i := (d \<noteq> directional_neutral)]\<rparr>, Inr submitted))"

definition point_contact :: "contact_id option \<Rightarrow> 'e session_error + contact_id" where
  "point_contact c = (case c of Some k \<Rightarrow> Inr k | None \<Rightarrow> Inl (SessOther ''point binding is missing its contact id''))"

definition tap_binding ::
  "('i, 'e) inject_fn \<Rightarrow> 'i touch_engine \<Rightarrow> contact_id \<Rightarrow> point \<Rightarrow> ('i, 'e, unit) engine_st" where
  "tap_binding inject e c p =
     andThen (submit inject e (frame_single (touch_event_new c Down p)))
       (\<lambda>e' _. submit inject e' (frame_single (touch_event_new c Up p)))"

definition set_hold_binding ::
  "('i, 'e) inject_fn \<Rightarrow> 'i touch_engine \<Rightarrow> contact_id \<Rightarrow> point \<Rightarrow> bool \<Rightarrow> ('i, 'e, bool) engine_st" where
  "set_hold_binding inject e c p pressed =
     (if (contact_position (engine_state e) c \<noteq> None) = pressed then (e, Inr False)
      else andThen (submit inject e (frame_single (touch_event_new c (if pressed then Down else Up) p)))
             (\<lambda>e' _. (e', Inr True)))"

text \<open>A call on the engine with the contact of a point binding.\<close>

definition with_point ::
  "nat \<Rightarrow> ('i touch_engine \<Rightarrow> contact_id \<Rightarrow> ('i, 'e, 'a) engine_st) \<Rightarrow> 'i unified_runtime \<Rightarrow> ('i, 'e, 'a) session_st" where
  "with_point i f r =
     (case point_contact (ur_points r ! i) of
        Inl err \<Rightarrow> (r, Inl err)
      | Inr c \<Rightarrow> engine_call (f (ur_engine r) c) r)"

definition switch_hold ::
  "('i, 'e) inject_fn \<Rightarrow> nat \<Rightarrow> point \<Rightarrow> bool \<Rightarrow> 'i unified_runtime \<Rightarrow> ('i, 'e, bool) session_st" where
  "switch_hold inject i p pressed r =
     andThen (with_point i (\<lambda>e c. set_hold_binding inject e c p pressed) r)
       (\<lambda>r' submitted. (r'\<lparr>ur_active := (ur_active r')[i := pressed]\<rparr>, Inr submitted))"

definition release_joystick ::
  "(f64 \<Rightarrow> f64 \<Rightarrow> f64) \<Rightarrow> ('i, 'e) inject_fn \<Rightarrow> duration \<Rightarrow> nat \<Rightarrow> 'i unified_runtime \<Rightarrow> ('i, 'e, bool) session_st" where
  "release_joystick hypot inject now i r =
     (case action_at r i of
        RVirtualJoystick j _ _ \<Rightarrow>
          let retained = direction_intersection (ur_directions r ! i) (ur_desired_directions r ! i)
          in if ur_directions r ! i = retained then (r, Inr False)
             else direct_joystick hypot inject now i j retained r
      | _ \<Rightarrow> (r, Inr False))"

definition release_hold ::
  "('i, 'e) inject_fn \<Rightarrow> nat \<Rightarrow> 'i unified_runtime \<Rightarrow> ('i, 'e, bool) session_st" where
  "release_hold inject i r =
     (case action_at r i of
        RHold p \<Rightarrow>
          if ur_active r ! i \<and> \<not> ur_desired r ! i then switch_hold inject i p False r else (r, Inr False)
      | _ \<Rightarrow> (r, Inr False))"

definition press_control ::
  "(f64 \<Rightarrow> f64 \<Rightarrow> f64) \<Rightarrow> ('i, 'e) inject_fn \<Rightarrow> duration \<Rightarrow> nat \<Rightarrow> 'i unified_runtime \<Rightarrow> ('i, 'e, bool) session_st" where
  "press_control hypot inject now i r =
     (case action_at r i of
        RHold p \<Rightarrow>
          if \<not> ur_active r ! i \<and> ur_desired r ! i then switch_hold inject i p True r else (r, Inr False)
      | RVirtualJoystick j _ _ \<Rightarrow>
          if ur_directions r ! i \<noteq> ur_desired_directions r ! i
          then direct_joystick hypot inject now i j (ur_desired_directions r ! i) r else (r, Inr False)
      | _ \<Rightarrow> (r, Inr False))"

text \<open>Everything released before anything is pressed.\<close>

definition reconcile_continuous ::
  "(f64 \<Rightarrow> f64 \<Rightarrow> f64) \<Rightarrow> ('i, 'e) inject_fn \<Rightarrow> duration \<Rightarrow> 'i unified_runtime \<Rightarrow> ('i, 'e, bool) session_st" where
  "reconcile_continuous hypot inject now r =
     (let r0 = compute_desired (refresh_selected r); indices = [0..<control_count r]
      in andThen (for_each (release_joystick hypot inject now) indices r0) (\<lambda>r1 a.
           andThen (for_each (release_hold inject) indices r1) (\<lambda>r2 b.
             andThen (for_each (press_control hypot inject now) indices r2) (\<lambda>r3 c.
               (r3, Inr (a \<or> b \<or> c))))))"

definition release_mouse_buttons ::
  "(f64 \<Rightarrow> f64 \<Rightarrow> f64) \<Rightarrow> ('i, 'e) inject_fn \<Rightarrow> duration \<Rightarrow> 'i unified_runtime \<Rightarrow> ('i, 'e, unit) session_st" where
  "release_mouse_buttons hypot inject now r =
     (if ur_held_buttons r = 0 then (r, Inr ())
      else void (reconcile_continuous hypot inject now (set_all_ads False (r\<lparr>ur_held_buttons := 0\<rparr>))))"

section \<open>Keyboard and mouse events\<close>

definition dispatch_tap :: "('i, 'e) inject_fn \<Rightarrow> nat \<Rightarrow> point \<Rightarrow> 'i unified_runtime \<Rightarrow> ('i, 'e, bool) session_st" where
  "dispatch_tap inject i p r =
     andThen (with_point i (\<lambda>e c. tap_binding inject e c p) r) (\<lambda>r' _. (r', Inr True))"

definition toggle_direction ::
  "'i unified_runtime \<Rightarrow> nat \<Rightarrow> host_key_name \<Rightarrow> host_key_name \<times> host_key_name \<times> host_key_name \<times> host_key_name
     \<Rightarrow> directional_input \<times> bool" where
  "toggle_direction r i k = (\<lambda>(up, left, down, right).
     let d = ur_directions r ! i; hit = (\<lambda>b. b = k \<and> available r i (PKey k))
     in (\<lparr>di_up = (di_up d \<noteq> hit up), di_left = (di_left d \<noteq> hit left), di_down = (di_down d \<noteq> hit down),
          di_right = (di_right d \<noteq> hit right)\<rparr>,
         hit up \<or> hit left \<or> hit down \<or> hit right))"

definition dispatch_key_to ::
  "(f64 \<Rightarrow> f64 \<Rightarrow> f64) \<Rightarrow> ('i, 'e) inject_fn \<Rightarrow> duration \<Rightarrow> host_key_name \<Rightarrow> nat \<Rightarrow> 'i unified_runtime
     \<Rightarrow> ('i, 'e, bool) session_st" where
  "dispatch_key_to hypot inject now k i r =
     (case (ur_inputs r ! i, action_at r i) of
        (CiKey b, RTap p) \<Rightarrow> if b = k \<and> available r i (PKey k) then dispatch_tap inject i p r else (r, Inr False)
      | (CiKeyCluster up left down right, RVirtualJoystick j JToggle _) \<Rightarrow>
          let (d, changed) = toggle_direction r i k (up, left, down, right)
          in if changed then direct_joystick hypot inject now i j d r else (r, Inr False)
      | _ \<Rightarrow> (r, Inr False))"

definition dispatch_keyboard_press ::
  "(f64 \<Rightarrow> f64 \<Rightarrow> f64) \<Rightarrow> ('i, 'e) inject_fn \<Rightarrow> duration \<Rightarrow> host_key_name \<Rightarrow> 'i unified_runtime
     \<Rightarrow> ('i, 'e, bool) session_st" where
  "dispatch_keyboard_press hypot inject now k r =
     for_each (dispatch_key_to hypot inject now k) [0..<control_count r] r"

definition dispatch_button_to ::
  "('i, 'e) inject_fn \<Rightarrow> host_mouse_button \<Rightarrow> nat \<Rightarrow> 'i unified_runtime \<Rightarrow> ('i, 'e, bool) session_st" where
  "dispatch_button_to inject b i r =
     (if ur_inputs r ! i \<noteq> CiMouseButton b \<or> \<not> available r i (PMouseButton b) then (r, Inr False)
      else case action_at r i of RTap p \<Rightarrow> dispatch_tap inject i p r | _ \<Rightarrow> (r, Inr False))"

definition dispatch_mouse_press ::
  "('i, 'e) inject_fn \<Rightarrow> host_mouse_button \<Rightarrow> 'i unified_runtime \<Rightarrow> ('i, 'e, bool) session_st" where
  "dispatch_mouse_press inject b r = for_each (dispatch_button_to inject b) [0..<control_count r] r"

definition toggle_aim_at ::
  "('i, 'e) inject_fn \<Rightarrow> duration \<Rightarrow> host_key_name \<Rightarrow> nat \<Rightarrow> 'i unified_runtime \<Rightarrow> ('i, 'e, bool) session_st" where
  "toggle_aim_at inject now k i r =
     (if ur_toggle_keys r ! i \<noteq> Some k then (r, Inr False)
      else if ur_aims r ! i = None then (r, Inl (SessPanic ''aim toggle keys belong to aim controllers''))
      else on_aim (\<lambda>s. aim_toggle inject s now) i r)"

definition key_transitioned :: "host_key_name \<Rightarrow> bool \<Rightarrow> 'i unified_runtime \<Rightarrow> 'i unified_runtime" where
  "key_transitioned k pressed r =
     (let held = (if pressed then mask_insert k else mask_remove k);
          r1 = r\<lparr>ur_held_keys := held (ur_held_keys r)\<rparr>;
          r2 = (case ur_layer_controls r ! key_index k of
                  None \<Rightarrow> r1
                | Some l \<Rightarrow>
                    r1\<lparr>ur_active_layers :=
                         (case (lc_mode l, pressed) of
                            (LmHold, True) \<Rightarrow> ur_active_layers r1 OR lc_mask l
                          | (LmHold, False) \<Rightarrow> ur_active_layers r1 AND NOT (lc_mask l)
                          | (LmToggle, True) \<Rightarrow> ur_active_layers r1 XOR lc_mask l
                          | (LmToggle, False) \<Rightarrow> ur_active_layers r1)\<rparr>)
      in if mask_contains (pl_modifier_keys (ur_plan r)) k
         then r2\<lparr>ur_held_modifiers := held (ur_held_modifiers r2)\<rparr> else r2)"

definition handle_keyboard ::
  "(f64 \<Rightarrow> f64 \<Rightarrow> f64) \<Rightarrow> ('i, 'e) inject_fn \<Rightarrow> duration \<Rightarrow> host_key_event \<Rightarrow> 'i unified_runtime
     \<Rightarrow> ('i, 'e, bool) session_st" where
  "handle_keyboard hypot inject now ev r =
     (case (hk_transition ev, runtime_key (hk_key ev)) of
        (KRepeated, _) \<Rightarrow> (r, Inr False)
      | (_, None) \<Rightarrow> (r, Inr False)
      | (t, Some k) \<Rightarrow>
          let pressed = (t = KPressed); consumed = (ur_layer_controls r ! key_index k \<noteq> None)
          in andThen (reconcile_continuous hypot inject now (key_transitioned k pressed r)) (\<lambda>r1 submitted.
               if consumed \<or> \<not> pressed then (r1, Inr submitted)
               else andThen (for_each (toggle_aim_at inject now k) [0..<length (ur_aims r1)] r1) (\<lambda>r2 toggled.
                      andThen (dispatch_keyboard_press hypot inject now k r2) (\<lambda>r3 dispatched.
                        (r3, Inr (submitted \<or> toggled \<or> dispatched))))))"

definition handle_mouse ::
  "(f64 \<Rightarrow> f64 \<Rightarrow> f64) \<Rightarrow> ('i, 'e) inject_fn \<Rightarrow> duration \<Rightarrow> mouse_event \<Rightarrow> 'i unified_runtime
     \<Rightarrow> ('i, 'e, bool) session_st" where
  "handle_mouse hypot inject now ev r =
     (case ev of
        MMotion m \<Rightarrow>
          if mm_dx m \<noteq> 0 \<or> mm_dy m \<noteq> 0
          then for_aims (\<lambda>s. controller_move_by inject s \<lparr>ad_dx = mm_dx m, ad_dy = mm_dy m\<rparr> now) r
          else (r, Inr False)
      | MButton button t \<Rightarrow>
          if t = KRepeated then (r, Inr False)
          else
            let pressed = (t = KPressed); b = runtime_mouse_button button;
                r1 = r\<lparr>ur_held_buttons := set_mouse_button_held (ur_held_buttons r) b pressed\<rparr>;
                r2 = (if b = MRight then set_all_ads pressed r1 else r1)
            in andThen (reconcile_continuous hypot inject now r2) (\<lambda>r3 submitted.
                 if pressed
                 then andThen (dispatch_mouse_press inject b r3) (\<lambda>r4 dispatched. (r4, Inr (submitted \<or> dispatched)))
                 else (r3, Inr submitted))
      | MWheel _ \<Rightarrow> (r, Inr False))"

section \<open>Time, suspension and latencies\<close>

definition reaffirm_joystick ::
  "('i, 'e) inject_fn \<Rightarrow> duration \<Rightarrow> nat \<Rightarrow> 'i unified_runtime \<Rightarrow> ('i, 'e, bool) session_st" where
  "reaffirm_joystick inject now i r =
     (case action_at r i of
        RVirtualJoystick j _ (Some interval) \<Rightarrow>
          (case contact_position (engine_state (ur_engine r)) (vj_contact_id j) of
             None \<Rightarrow> (r, Inr False)
           | Some p \<Rightarrow>
               if (case ur_last_frame r ! i of Some earlier \<Rightarrow> now - earlier < interval | None \<Rightarrow> False)
               then (r, Inr False)
               else andThen (engine_call (move_contact inject (ur_engine r) (vj_contact_id j) p) r)
                      (\<lambda>r' _. (r'\<lparr>ur_last_frame := (ur_last_frame r')[i := Some now]\<rparr>, Inr True)))
      | _ \<Rightarrow> (r, Inr False))"

definition runtime_tick :: "('i, 'e) inject_fn \<Rightarrow> duration \<Rightarrow> 'i unified_runtime \<Rightarrow> ('i, 'e, unit) session_st" where
  "runtime_tick inject now r =
     andThen (for_aims (\<lambda>s. aim_tick inject s now) r) (\<lambda>r1 _.
       void (for_each (reaffirm_joystick inject now) [0..<control_count r1] r1))"

text \<open>\<open>suspend\<close> goes on after an error and returns the first one.\<close>

definition keep_first :: "'a option \<Rightarrow> 'a \<Rightarrow> 'a option" where
  "keep_first err e = (case err of None \<Rightarrow> Some e | Some f \<Rightarrow> Some f)"

definition cancel_aim ::
  "('i, 'e) inject_fn \<Rightarrow> nat \<Rightarrow> 'i unified_runtime \<times> 'e touch_engine_error option
     \<Rightarrow> 'i unified_runtime \<times> 'e touch_engine_error option" where
  "cancel_aim inject i = (\<lambda>(r, err).
     case ur_aims r ! i of
       None \<Rightarrow> (r, err)
     | Some c \<Rightarrow>
         (case controller_cancel inject (c, ur_engine r) of
            ((c1, e1), Inr _) \<Rightarrow> (r\<lparr>ur_aims := (ur_aims r)[i := Some c1], ur_engine := e1\<rparr>, err)
          | ((c1, e1), Inl err1) \<Rightarrow>
              (case controller_cancel inject (c1, e1) of
                 ((c2, e2), res) \<Rightarrow>
                   (r\<lparr>ur_aims := (ur_aims r)[i := Some c2], ur_engine := e2\<rparr>,
                    case res of Inr _ \<Rightarrow> keep_first err err1
                    | Inl err2 \<Rightarrow> keep_first (keep_first err err1) err2))))"

definition clear_runtime :: "'i unified_runtime \<Rightarrow> 'i unified_runtime" where
  "clear_runtime r =
     r\<lparr>ur_active_layers := 0, ur_held_keys := MASK_EMPTY, ur_held_modifiers := MASK_EMPTY,
           ur_held_buttons := 0, ur_directions := replicate (length (ur_directions r)) directional_neutral,
           ur_desired_directions := replicate (length (ur_desired_directions r)) directional_neutral,
           ur_active := replicate (length (ur_active r)) False,
           ur_desired := replicate (length (ur_desired r)) False,
           ur_selected := replicate (length (ur_selected r)) None,
           ur_last_frame := replicate (length (ur_last_frame r)) None\<rparr>"

definition runtime_suspend :: "('i, 'e) inject_fn \<Rightarrow> 'i unified_runtime \<Rightarrow> ('i, 'e, unit) session_st" where
  "runtime_suspend inject r =
     (let (r1, err1) = fold (cancel_aim inject) [0..<length (ur_aims r)] (r, None);
          (e2, res) = cancel_all inject (ur_engine r1);
          err2 = (case res of Inr _ \<Rightarrow> err1 | Inl err \<Rightarrow> keep_first err1 err);
          r2 = clear_runtime (r1\<lparr>ur_engine := e2\<rparr>)
      in (r2, case err2 of None \<Rightarrow> Inr () | Some err \<Rightarrow> Inl (SessEngine err)))"

definition MAX_LATENCY_SAMPLES :: nat where "MAX_LATENCY_SAMPLES = 100000"

text \<open>The reader latency of an event, and its kernel timestamp with the time of the clock it is read against.\<close>

definition record_pipeline_latency ::
  "duration \<Rightarrow> (duration \<times> duration) option \<Rightarrow> 'i unified_runtime \<Rightarrow> 'i unified_runtime" where
  "record_pipeline_latency reader_latency stamp r =
     (let r1 = (if length (ur_pipeline r) < MAX_LATENCY_SAMPLES
                then r\<lparr>ur_pipeline := ur_pipeline r @ [reader_latency]\<rparr> else r)
      in case stamp of
           None \<Rightarrow> r1
         | Some (clock, t) \<Rightarrow>
             (case kernel_event_age clock t of
                Some latency \<Rightarrow>
                  if length (ur_kernel r1) < MAX_LATENCY_SAMPLES
                  then r1\<lparr>ur_kernel := ur_kernel r1 @ [latency]\<rparr> else r1
              | None \<Rightarrow> r1\<lparr>ur_rejected := usat_add (ur_rejected r1) 1\<rparr>))"

end
