(* ===== verification/SessionSafe.thy ===== *)
theory SessionSafe
  imports Session
begin

text \<open>
  The invariant of the unified runtime: every binding owns its contacts and no other binding
  touches them; a tap's contact is up between events, a hold's is down exactly while the binding is
  active, a joystick's is at the target of its directions, an aim controller is sound. Every
  operation keeps it, and can fail in the injector only.
\<close>

section \<open>Ownership and the invariant\<close>

abbreviation down :: "'i unified_runtime \<Rightarrow> contact_id \<rightharpoonup> point" where
  "down r \<equiv> engine_contacts (ur_engine r)"

definition owned :: "'i unified_runtime \<Rightarrow> nat \<Rightarrow> contact_id set" where
  "owned r i = (case ur_points r ! i of None \<Rightarrow> {} | Some c \<Rightarrow> {c}) \<union> set (action_contacts (action_at r i))"

definition control_inv :: "(f64 \<Rightarrow> f64 \<Rightarrow> f64) \<Rightarrow> 'i unified_runtime \<Rightarrow> nat \<Rightarrow> bool" where
  "control_inv hypot r i \<longleftrightarrow>
     (case action_at r i of
        RTap p \<Rightarrow> (\<exists>c. ur_points r ! i = Some c \<and> down r c = None) \<and> ur_aims r ! i = None
      | RHold p \<Rightarrow> (\<exists>c. ur_points r ! i = Some c \<and> down r c = (if ur_active r ! i then Some p else None))
          \<and> ur_aims r ! i = None
      | RVirtualJoystick j _ _ \<Rightarrow> down r (vj_contact_id j) = joystick_target hypot j (ur_directions r ! i)
          \<and> ur_aims r ! i = None
      | RMouseAim a s \<Rightarrow> \<exists>c. ur_aims r ! i = Some c \<and> mc_aim c = a \<and> mc_settings c = s \<and> aim_inv c (down r))"

definition session_shape :: "'i unified_runtime \<Rightarrow> bool" where
  "session_shape r \<longleftrightarrow>
     (let n = control_count r
      in length (ur_inputs r) = n \<and> length (ur_directions r) = n \<and> length (ur_desired_directions r) = n
         \<and> length (ur_active r) = n \<and> length (ur_desired r) = n \<and> length (ur_points r) = n
         \<and> length (ur_aims r) = n \<and> length (ur_toggle_keys r) = n \<and> length (ur_last_frame r) = n
         \<and> length (ur_selected r) = PHYSICAL_INPUT_COUNT
         \<and> (\<forall>i < n. \<forall>j < n. i \<noteq> j \<longrightarrow> owned r i \<inter> owned r j = {})
         \<and> (\<forall>i < n. ur_cursor_contact r \<notin> owned r i)
         \<and> (\<forall>i < n. ur_toggle_keys r ! i \<noteq> None \<longrightarrow> (\<exists>a s. action_at r i = RMouseAim a s)))"

definition no_stray_contact :: "'i unified_runtime \<Rightarrow> bool" where
  "no_stray_contact r \<longleftrightarrow>
     (\<forall>k. down r k \<noteq> None \<longrightarrow> k = ur_cursor_contact r \<or> (\<exists>i < control_count r. k \<in> owned r i))"

definition session_inv :: "(f64 \<Rightarrow> f64 \<Rightarrow> f64) \<Rightarrow> 'i unified_runtime \<Rightarrow> bool" where
  "session_inv hypot r \<longleftrightarrow> session_shape r \<and> no_stray_contact r \<and> (\<forall>i < control_count r. control_inv hypot r i)"

definition session_only_injection :: "'e session_error \<Rightarrow> bool" where
  "session_only_injection err = (case err of SessEngine e \<Rightarrow> only_injection e | _ \<Rightarrow> False)"

lemma session_only_injection_simps [simp]:
  "session_only_injection (SessEngine e) = only_injection e" "\<not> session_only_injection (SessAim a)"
  "\<not> session_only_injection (SessOther s)" "\<not> session_only_injection (SessPanic s)"
  by (simp_all add: session_only_injection_def)

section \<open>What an operation on one binding may change\<close>

text \<open>The configuration is fixed; so are the held inputs, the layers and what was computed from them.\<close>

definition same_config :: "'i unified_runtime \<Rightarrow> 'i unified_runtime \<Rightarrow> bool" where
  "same_config r r' \<longleftrightarrow>
     ur_plan r' = ur_plan r \<and> ur_inputs r' = ur_inputs r \<and> ur_layer_controls r' = ur_layer_controls r
     \<and> ur_points r' = ur_points r \<and> ur_cursor_contact r' = ur_cursor_contact r
     \<and> ur_toggle_keys r' = ur_toggle_keys r
     \<and> length (ur_directions r') = length (ur_directions r)
     \<and> length (ur_desired_directions r') = length (ur_desired_directions r)
     \<and> length (ur_active r') = length (ur_active r) \<and> length (ur_desired r') = length (ur_desired r)
     \<and> length (ur_aims r') = length (ur_aims r) \<and> length (ur_last_frame r') = length (ur_last_frame r)
     \<and> length (ur_selected r') = length (ur_selected r)"

definition same_held :: "'i unified_runtime \<Rightarrow> 'i unified_runtime \<Rightarrow> bool" where
  "same_held r r' \<longleftrightarrow>
     ur_active_layers r' = ur_active_layers r \<and> ur_held_keys r' = ur_held_keys r
     \<and> ur_held_modifiers r' = ur_held_modifiers r \<and> ur_held_buttons r' = ur_held_buttons r
     \<and> ur_selected r' = ur_selected r \<and> ur_desired r' = ur_desired r
     \<and> ur_desired_directions r' = ur_desired_directions r"

definition same_binding :: "nat \<Rightarrow> 'i unified_runtime \<Rightarrow> 'i unified_runtime \<Rightarrow> bool" where
  "same_binding i r r' \<longleftrightarrow>
     ur_directions r' ! i = ur_directions r ! i \<and> ur_active r' ! i = ur_active r ! i
     \<and> ur_aims r' ! i = ur_aims r ! i \<and> (\<forall>k \<in> owned r i. down r' k = down r k)"

definition touches :: "nat \<Rightarrow> 'i unified_runtime \<Rightarrow> 'i unified_runtime \<Rightarrow> bool" where
  "touches i r r' \<longleftrightarrow> same_config r r' \<and> same_held r r' \<and> (\<forall>k. k \<notin> owned r i \<longrightarrow> down r' k = down r k)
     \<and> (\<forall>j. j \<noteq> i \<longrightarrow> ur_directions r' ! j = ur_directions r ! j \<and> ur_active r' ! j = ur_active r ! j
          \<and> ur_aims r' ! j = ur_aims r ! j)"

definition op_ok :: "(f64 \<Rightarrow> f64 \<Rightarrow> f64) \<Rightarrow> nat \<Rightarrow> 'i unified_runtime \<Rightarrow> ('i, 'e, 'a) session_st \<Rightarrow> bool" where
  "op_ok hypot i r result \<longleftrightarrow>
     (case result of
        (r', Inr _) \<Rightarrow> touches i r r' \<and> control_inv hypot r' i
      | (r', Inl err) \<Rightarrow> touches i r r' \<and> session_only_injection err)"

lemma same_config_refl [simp]: "same_config r r" by (simp add: same_config_def)
lemma same_held_refl [simp]: "same_held r r" by (simp add: same_held_def)
lemma same_binding_refl [simp]: "same_binding i r r" by (simp add: same_binding_def)
lemma touches_refl [simp]: "touches i r r" by (simp add: touches_def)

lemma same_config_trans: "same_config r s \<Longrightarrow> same_config s t \<Longrightarrow> same_config r t"
  by (simp add: same_config_def)

lemma same_held_trans: "same_held r s \<Longrightarrow> same_held s t \<Longrightarrow> same_held r t"
  by (simp add: same_held_def)

lemma same_config_simps:
  assumes "same_config r r'"
  shows "control_count r' = control_count r" "control_at r' i = control_at r i" "action_at r' i = action_at r i"
    "owned r' i = owned r i" "ur_cursor_contact r' = ur_cursor_contact r"
  using assms by (simp_all add: same_config_def control_count_def control_at_def action_at_def owned_def)

lemma same_binding_trans:
  "same_config r s \<Longrightarrow> same_binding i r s \<Longrightarrow> same_binding i s t \<Longrightarrow> same_binding i r t"
  by (simp add: same_binding_def same_config_simps)

lemma same_config_shape: "same_config r r' \<Longrightarrow> session_shape r' = session_shape r"
  unfolding session_shape_def Let_def same_config_simps by (simp add: same_config_def)

text \<open>The soundness of a controller is about its own contacts.\<close>

lemma aim_inv_local:
  assumes "\<And>k. k \<in> aim_ids c \<Longrightarrow> m' k = m k" shows "aim_inv c m' = aim_inv c m"
proof (cases "mc_active c")
  case None
  then show ?thesis using assms by (auto simp: aim_inv_def aim_phase_inactive)
next
  case (Some k)
  show ?thesis
  proof (cases "{k, mc_next c} = aim_ids c")
    case True
    then have "k \<in> aim_ids c" "mc_next c \<in> aim_ids c" by blast+
    with assms show ?thesis by (simp add: aim_inv_def aim_phase_active [OF Some])
  next
    case False
    then show ?thesis by (simp add: aim_inv_def aim_phase_active [OF Some])
  qed
qed

lemma control_inv_binding:
  assumes cfg: "same_config r r'" and same: "same_binding i r r'" and inv: "control_inv hypot r i"
  shows "control_inv hypot r' i"
proof -
  have down: "down r' k = down r k" if "k \<in> owned r i" for k using same that by (simp add: same_binding_def)
  have pts: "ur_points r' = ur_points r" using cfg by (simp add: same_config_def)
  show ?thesis
  proof (cases "action_at r i")
    case (RMouseAim a s)
    with inv obtain c where c: "ur_aims r ! i = Some c" "mc_aim c = a" "mc_settings c = s" "aim_inv c (down r)"
      by (auto simp: control_inv_def)
    have "aim_ids c \<subseteq> owned r i" using c RMouseAim by (simp add: aim_ids_def owned_def action_contacts_def)
    then have "aim_inv c (down r') = aim_inv c (down r)" by (intro aim_inv_local down) blast
    with c RMouseAim same show ?thesis by (simp add: control_inv_def same_config_simps [OF cfg] same_binding_def)
  next
    case (RVirtualJoystick j m rf)
    then have "vj_contact_id j \<in> owned r i" by (simp add: owned_def action_contacts_def)
    with RVirtualJoystick inv same show ?thesis
      by (simp add: control_inv_def same_config_simps [OF cfg] same_binding_def)
  next
    case (RTap p)
    with inv obtain c where c: "ur_points r ! i = Some c" by (auto simp: control_inv_def)
    then have "c \<in> owned r i" by (simp add: owned_def)
    with RTap c inv same pts show ?thesis by (simp add: control_inv_def same_config_simps [OF cfg] same_binding_def)
  next
    case (RHold p)
    with inv obtain c where c: "ur_points r ! i = Some c" by (auto simp: control_inv_def)
    then have "c \<in> owned r i" by (simp add: owned_def)
    with RHold c inv same pts show ?thesis by (simp add: control_inv_def same_config_simps [OF cfg] same_binding_def)
  qed
qed

lemma touches_other:
  assumes "session_shape r" "touches i r r'" "i < control_count r" "j < control_count r" "j \<noteq> i"
  shows "same_binding j r r'"
proof -
  have "owned r i \<inter> owned r j = {}" using assms by (simp add: session_shape_def Let_def)
  with assms(2,5) show ?thesis by (auto simp: touches_def same_binding_def)
qed

lemma touches_no_stray: "no_stray_contact r \<Longrightarrow> touches i r r' \<Longrightarrow> i < control_count r \<Longrightarrow> no_stray_contact r'"
  unfolding no_stray_contact_def touches_def by (metis same_config_simps(1,4,5))

lemma op_ok_inv:
  assumes inv: "session_inv hypot r" and ok: "op_ok hypot i r (r', Inr x)" and i: "i < control_count r"
  shows "session_inv hypot r'"
proof -
  have t: "touches i r r'" and ci: "control_inv hypot r' i" using ok by (simp_all add: op_ok_def)
  have cfg: "same_config r r'" using t by (simp add: touches_def)
  have "control_inv hypot r' j" if "j < control_count r" for j
  proof (cases "j = i")
    case False
    with that inv i t have "same_binding j r r'" by (intro touches_other) (simp_all add: session_inv_def)
    with inv that show ?thesis by (intro control_inv_binding [OF cfg]) (simp_all add: session_inv_def)
  qed (use ci in simp)
  with inv t i cfg show ?thesis
    unfolding session_inv_def
    by (simp add: same_config_simps same_config_shape touches_no_stray [of r i])
qed

section \<open>Loops over the bindings\<close>

text \<open>What a loop of operations returns: the invariant, or an error of the injector; and what became of
  each binding: its own operation ran on it as it was, and no other operation changed it.\<close>

definition cursor_touch :: "'i unified_runtime \<Rightarrow> point option" where
  "cursor_touch r = down r (ur_cursor_contact r)"

definition same_setting :: "'i unified_runtime \<Rightarrow> 'i unified_runtime \<Rightarrow> bool" where
  "same_setting r r' \<longleftrightarrow> same_config r r' \<and> cursor_touch r' = cursor_touch r"

lemma same_setting_trans: "same_setting r s \<Longrightarrow> same_setting s t \<Longrightarrow> same_setting r t"
  by (auto simp: same_setting_def intro: same_config_trans)

lemma same_setting_config: "same_setting r r' \<Longrightarrow> same_config r r'" by (simp add: same_setting_def)

lemma same_setting_refl [simp]: "same_setting r r" by (simp add: same_setting_def)

lemma same_setting_count: "same_setting r r' \<Longrightarrow> control_count r' = control_count r"
  by (simp add: same_setting_def same_config_simps)

lemma same_settingI:
  "same_config r r' \<Longrightarrow> down r' = down r \<Longrightarrow> same_setting r r'"
  by (simp add: same_setting_def cursor_touch_def same_config_simps)

definition bindings_ok :: "(f64 \<Rightarrow> f64 \<Rightarrow> f64) \<Rightarrow> 'i unified_runtime \<Rightarrow> ('i, 'e, 'a) session_st \<Rightarrow> bool" where
  "bindings_ok hypot r result \<longleftrightarrow>
     (case result of
        (r', Inr _) \<Rightarrow> same_setting r r' \<and> session_inv hypot r'
      | (r', Inl err) \<Rightarrow> same_setting r r' \<and> session_only_injection err)"

definition ran_at ::
  "(nat \<Rightarrow> 'i unified_runtime \<Rightarrow> ('i, 'e, bool) session_st) \<Rightarrow> nat \<Rightarrow> 'i unified_runtime \<Rightarrow> 'i unified_runtime \<Rightarrow> bool" where
  "ran_at body i r r' \<longleftrightarrow>
     (\<exists>r1 r2 x. same_config r r1 \<and> same_held r r1 \<and> same_binding i r r1 \<and> body i r1 = (r2, Inr x)
        \<and> same_config r2 r' \<and> same_held r2 r' \<and> same_binding i r2 r')"

definition safe_ops ::
  "(f64 \<Rightarrow> f64 \<Rightarrow> f64) \<Rightarrow> nat \<Rightarrow> (nat \<Rightarrow> 'i unified_runtime \<Rightarrow> ('i, 'e, bool) session_st) \<Rightarrow> bool" where
  "safe_ops hypot n body \<longleftrightarrow>
     (\<forall>i r. i < n \<longrightarrow> control_count r = n \<longrightarrow> session_inv hypot r \<longrightarrow> op_ok hypot i r (body i r))"

lemma op_ok_touches: "op_ok hypot i r (r', res) \<Longrightarrow> touches i r r'"
  by (auto simp: op_ok_def split: sum.splits)

lemma touches_setting:
  assumes "session_shape r" "touches i r r'" "i < control_count r"
  shows "same_setting r r'"
proof -
  have "ur_cursor_contact r \<notin> owned r i" using assms by (simp add: session_shape_def Let_def)
  moreover have cfg: "same_config r r'" using assms(2) by (simp add: touches_def)
  ultimately show ?thesis using assms(2) by (simp add: touches_def cursor_touch_def same_setting_def same_config_simps [OF cfg])
qed

lemma ran_at_later:
  assumes "same_config r s" "same_held r s" "same_binding i r s" "ran_at body i s t"
  shows "ran_at body i r t"
  using assms unfolding ran_at_def by (meson same_binding_trans same_config_trans same_held_trans)

lemma for_each_safe:
  assumes ops: "safe_ops hypot n body"
  shows "set xs \<subseteq> {..<n} \<Longrightarrow> distinct xs \<Longrightarrow> control_count r = n \<Longrightarrow> session_inv hypot r \<Longrightarrow>
    case for_each body xs r of
      (r', Inl err) \<Rightarrow> same_setting r r' \<and> session_only_injection err
    | (r', Inr b) \<Rightarrow> same_setting r r' \<and> same_held r r' \<and> session_inv hypot r'
        \<and> (\<forall>i < n. if i \<in> set xs then ran_at body i r r' else same_binding i r r')"
proof (induction xs arbitrary: r)
  case (Cons x xs)
  obtain r1 res where step: "body x r = (r1, res)" by fastforce
  have x: "x < n" using Cons.prems by simp
  with ops Cons.prems step have ok: "op_ok hypot x r (r1, res)" unfolding safe_ops_def by metis
  note t = op_ok_touches [OF ok]
  have cfg: "same_config r r1" and held: "same_held r r1" using t by (simp_all add: touches_def)
  have cur: "same_setting r r1" using touches_setting [OF _ t] x Cons.prems by (simp add: session_inv_def)
  have other: "same_binding i r r1" if "i < n" "i \<noteq> x" for i
    using touches_other [OF _ t] x that Cons.prems by (simp add: session_inv_def)
  show ?case
  proof (cases res)
    case (Inl err)
    with step ok cfg cur show ?thesis by (simp add: op_ok_def)
  next
    case (Inr b)
    have inv1: "session_inv hypot r1" using op_ok_inv [OF Cons.prems(4) ok [unfolded Inr]] x Cons.prems(3) by simp
    have n1: "control_count r1 = n" using cfg Cons.prems(3) by (simp add: same_config_simps)
    obtain r' res' where rest: "for_each body xs r1 = (r', res')" by fastforce
    note IH = Cons.IH [of r1, OF _ _ n1 inv1, unfolded rest]
    show ?thesis
    proof (cases res')
      case (Inl err)
      with IH Cons.prems step Inr rest cfg cur show ?thesis by (auto intro: same_setting_trans)
    next
      case res': (Inr b')
      have IH': "same_setting r1 r'" "same_held r1 r'" "session_inv hypot r'"
        "\<And>i. i < n \<Longrightarrow> if i \<in> set xs then ran_at body i r1 r' else same_binding i r1 r'"
        using IH Cons.prems res' by auto
      have "if i \<in> set (x # xs) then ran_at body i r r' else same_binding i r r'" if i: "i < n" for i
      proof (cases "i = x")
        case True
        then have "same_binding i r1 r'" using IH'(4) [OF i] Cons.prems(2) by simp
        with True step Inr IH' same_setting_config [OF IH'(1)] have "ran_at body i r r'"
          unfolding ran_at_def by (intro exI [of _ r] exI [of _ r1] exI [of _ b]) simp
        with True show ?thesis by simp
      next
        case False
        note o = other [OF i False]
        show ?thesis
          using IH'(4) [OF i] False ran_at_later [OF cfg held o] same_binding_trans [OF cfg o] by auto
      qed
      with IH' step Inr rest res' cfg held cur show ?thesis by (auto intro: same_setting_trans same_held_trans same_setting_config)
    qed
  qed
qed simp

text \<open>The loop over all bindings, as the code writes it.\<close>

lemma for_all_safe:
  assumes "safe_ops hypot (control_count r) body" "session_inv hypot r"
  shows "bindings_ok hypot r (for_each body [0..<control_count r] r)"
    and "for_each body [0..<control_count r] r = (r', Inr b) \<Longrightarrow>
      same_config r r' \<and> same_held r r' \<and> session_inv hypot r' \<and> (\<forall>i < control_count r. ran_at body i r r')"
proof -
  have "set [0..<control_count r] \<subseteq> {..<control_count r}" by auto
  note all = for_each_safe [OF assms(1) this distinct_upt refl assms(2)]
  show "bindings_ok hypot r (for_each body [0..<control_count r] r)"
    using all by (auto simp: bindings_ok_def split: prod.splits sum.splits)
  show "for_each body [0..<control_count r] r = (r', Inr b) \<Longrightarrow>
      same_config r r' \<and> same_held r r' \<and> session_inv hypot r' \<and> (\<forall>i < control_count r. ran_at body i r r')"
    using all by (auto dest: same_setting_config)
qed

lemma bindings_ok_andThen:
  assumes "bindings_ok hypot r first"
    and "\<And>r1 x. first = (r1, Inr x) \<Longrightarrow> same_setting r r1 \<Longrightarrow> session_inv hypot r1 \<Longrightarrow> bindings_ok hypot r1 (rest r1 x)"
  shows "bindings_ok hypot r (andThen first rest)"
proof -
  obtain r1 res where f: "first = (r1, res)" by fastforce
  show ?thesis
  proof (cases res)
    case (Inl err)
    with assms(1) f show ?thesis by (simp add: bindings_ok_def)
  next
    case (Inr x)
    with assms(1) f have "same_setting r r1" "session_inv hypot r1" by (simp_all add: bindings_ok_def)
    with assms(2) [of r1 x] f Inr show ?thesis
      by (auto simp: bindings_ok_def intro: same_setting_trans split: prod.splits sum.splits)
  qed
qed

lemma bindings_ok_return: "session_inv hypot r \<Longrightarrow> bindings_ok hypot r (r, Inr x)"
  by (simp add: bindings_ok_def)

lemma bindings_ok_void: "bindings_ok hypot r result \<Longrightarrow> bindings_ok hypot r (void result)"
  unfolding void_def by (rule bindings_ok_andThen) (auto intro: bindings_ok_return)

section \<open>The operations of one binding are safe\<close>

lemma op_ok_idle: "session_inv hypot r \<Longrightarrow> i < control_count r \<Longrightarrow> op_ok hypot i r (r, Inr x)"
  by (simp add: op_ok_def session_inv_def)

lemma shape_lengths:
  assumes "session_inv hypot r"
  shows "length (ur_directions r) = control_count r" "length (ur_active r) = control_count r"
    "length (ur_aims r) = control_count r" "length (ur_inputs r) = control_count r"
    "length (ur_points r) = control_count r" "length (ur_toggle_keys r) = control_count r"
    "length (ur_desired r) = control_count r" "length (ur_desired_directions r) = control_count r"
  using assms by (simp_all add: session_inv_def session_shape_def Let_def)

lemma joystick_apply_cases:
  assumes "joystick_apply hypot inject j e d = (e', res)"
  shows "case res of Inr changed \<Rightarrow> engine_contacts e' = (engine_contacts e)(vj_contact_id j := joystick_target hypot j d)
    | Inl err \<Rightarrow> engine_contacts e' = engine_contacts e \<and> only_injection err"
  using apply_target_cases [where inject = inject and j = j and e = e and target = "joystick_target hypot j d"] assms
  by (auto simp: joystick_apply_def only_injection_def split: sum.splits)

lemma direct_joystick_ok:
  assumes inv: "session_inv hypot r" and i: "i < control_count r" and a: "action_at r i = RVirtualJoystick j m rf"
  shows "op_ok hypot i r (direct_joystick hypot inject now i j d r)"
    and "direct_joystick hypot inject now i j d r = (r', Inr x) \<Longrightarrow> ur_directions r' ! i = d"
proof -
  obtain e' res where app: "joystick_apply hypot inject j (ur_engine r) d = (e', res)" by fastforce
  note c = joystick_apply_cases [OF app]
  have own: "vj_contact_id j \<in> owned r i" using a by (simp add: owned_def action_contacts_def)
  have ci: "control_inv hypot r i" using inv i by (simp add: session_inv_def)
  show "op_ok hypot i r (direct_joystick hypot inject now i j d r)"
  proof (cases res)
    case (Inl err)
    with app c show ?thesis
      by (simp add: direct_joystick_def op_ok_def touches_def same_config_def same_held_def)
  next
    case (Inr changed)
    have "action_at (r\<lparr>ur_engine := e', ur_last_frame := lf, ur_directions := ds, ur_active := as\<rparr>) i = action_at r i"
      for lf ds as by (simp add: action_at_def control_at_def)
    with Inr app c own a ci i shape_lengths [OF inv] show ?thesis
      by (auto simp: direct_joystick_def op_ok_def touches_def same_config_def same_held_def control_inv_def)
  qed
  show "ur_directions r' ! i = d" if "direct_joystick hypot inject now i j d r = (r', Inr x)"
    using that app shape_lengths [OF inv] i by (cases res) (auto simp: direct_joystick_def)
qed

lemma submit_single_cases:
  assumes "submit inject e (frame_single (touch_event_new c ph p)) = (e', res)"
    and "(ph = Down) = (engine_contacts e c = None)"
  shows "case res of
      Inr _ \<Rightarrow> engine_contacts e' = (engine_contacts e)(c := if ph \<in> {Down, Move} then Some p else None)
    | Inl err \<Rightarrow> engine_contacts e' = engine_contacts e \<and> only_injection err"
proof (cases res)
  case (Inl err)
  have "frame_enabled (engine_contacts e) (frame_events (frame_single (touch_event_new c ph p)))"
    using assms(2) by (simp add: frame_enabled_single)
  from submit_enabled_Inl [OF this assms(1) [unfolded Inl]] submit_Inl_state [OF assms(1) [unfolded Inl]]
  show ?thesis using Inl by auto
next
  case (Inr u)
  then show ?thesis using submit_contacts [OF assms(1) [unfolded Inr]]
    by (auto simp: event_effect_def touch_event_new_def)
qed

lemma set_hold_cases:
  assumes "set_hold_binding inject e c p pressed = (e', res)"
    and "engine_contacts e c = (if active then Some p else None)"
  shows "case res of Inr _ \<Rightarrow> engine_contacts e' = (engine_contacts e)(c := if pressed then Some p else None)
    | Inl err \<Rightarrow> engine_contacts e' = engine_contacts e \<and> only_injection err"
proof (cases "active = pressed")
  case True
  then have "e' = e" "res = Inr False" using assms by (auto simp: set_hold_binding_def split: if_splits)
  with True assms(2) show ?thesis by (auto simp: fun_upd_idem)
next
  case False
  obtain e1 res1 where sub: "submit inject e (frame_single (touch_event_new c (if pressed then Down else Up) p)) = (e1, res1)"
    by fastforce
  have "set_hold_binding inject e c p pressed = andThen (e1, res1) (\<lambda>e' _. (e', Inr True))"
    using False assms(2) sub by (simp add: set_hold_binding_def)
  with submit_single_cases [OF sub] False assms show ?thesis by (cases res1) (auto split: if_splits)
qed

lemma switch_hold_ok:
  assumes inv: "session_inv hypot r" and i: "i < control_count r" and a: "action_at r i = RHold p"
  shows "op_ok hypot i r (switch_hold inject i p pressed r)"
    and "switch_hold inject i p pressed r = (r', Inr x) \<Longrightarrow> ur_active r' ! i = pressed"
proof -
  have "control_inv hypot r i" using inv i by (simp add: session_inv_def)
  then obtain c where c: "ur_points r ! i = Some c" "down r c = (if ur_active r ! i then Some p else None)"
    "ur_aims r ! i = None" by (auto simp: control_inv_def a)
  obtain e' res where sh: "set_hold_binding inject (ur_engine r) c p pressed = (e', res)" by fastforce
  note cases = set_hold_cases [OF sh c(2)]
  have own: "c \<in> owned r i" using c(1) by (simp add: owned_def)
  have act: "action_at (r\<lparr>ur_engine := e', ur_active := as\<rparr>) i = action_at r i"
    for as by (simp add: action_at_def control_at_def)
  show "op_ok hypot i r (switch_hold inject i p pressed r)"
  proof (cases res)
    case (Inl err)
    with sh cases c show ?thesis
      by (simp add: switch_hold_def with_point_def point_contact_def engine_call_def op_ok_def touches_def
          same_config_def same_held_def)
  next
    case (Inr b)
    with sh cases c own a act i shape_lengths [OF inv] show ?thesis
      by (auto simp: switch_hold_def with_point_def point_contact_def engine_call_def op_ok_def touches_def
          same_config_def same_held_def control_inv_def)
  qed
  show "ur_active r' ! i = pressed" if "switch_hold inject i p pressed r = (r', Inr x)"
    using that sh c(1) i shape_lengths [OF inv]
    by (cases res) (auto simp: switch_hold_def with_point_def point_contact_def engine_call_def)
qed

lemma tap_cases:
  assumes "tap_binding inject e c p = (e', res)" and free: "engine_contacts e c = None"
  shows "(\<forall>k. k \<noteq> c \<longrightarrow> engine_contacts e' k = engine_contacts e k)
    \<and> (case res of Inr _ \<Rightarrow> engine_contacts e' c = None | Inl err \<Rightarrow> only_injection err)"
proof -
  obtain e1 res1 where d: "submit inject e (frame_single (touch_event_new c Down p)) = (e1, res1)" by fastforce
  have dc: "case res1 of Inr _ \<Rightarrow> engine_contacts e1 = (engine_contacts e)(c \<mapsto> p)
    | Inl err \<Rightarrow> engine_contacts e1 = engine_contacts e \<and> only_injection err"
    using submit_single_cases [OF d] free by (auto split: sum.splits)
  show ?thesis
  proof (cases res1)
    case (Inl err)
    with assms(1) d dc show ?thesis by (auto simp: tap_binding_def)
  next
    case (Inr u)
    with assms(1) d have up: "submit inject e1 (frame_single (touch_event_new c Up p)) = (e', res)"
      by (simp add: tap_binding_def)
    from submit_single_cases [OF up] dc Inr show ?thesis by (auto split: sum.splits)
  qed
qed

lemma dispatch_tap_ok:
  assumes inv: "session_inv hypot r" and i: "i < control_count r" and a: "action_at r i = RTap p"
  shows "op_ok hypot i r (dispatch_tap inject i p r)"
proof -
  have "control_inv hypot r i" using inv i by (simp add: session_inv_def)
  then obtain c where c: "ur_points r ! i = Some c" "down r c = None" "ur_aims r ! i = None"
    by (auto simp: control_inv_def a)
  obtain e' res where t: "tap_binding inject (ur_engine r) c p = (e', res)" by fastforce
  have own: "c \<in> owned r i" using c(1) by (simp add: owned_def)
  have act: "action_at (r\<lparr>ur_engine := e'\<rparr>) i = action_at r i" by (simp add: action_at_def control_at_def)
  show ?thesis using tap_cases [OF t c(2)] t c own a act
    by (cases res) (auto simp: dispatch_tap_def with_point_def point_contact_def engine_call_def op_ok_def
        touches_def same_config_def same_held_def control_inv_def)
qed

text \<open>A call on an aim controller that keeps it sound, or releases it.\<close>

definition safe_aim_call ::
  "(mouse_aim_controller \<times> 'i touch_engine \<Rightarrow> ('i, 'e, mouse_aim_update) aim_st) \<Rightarrow> bool" where
  "safe_aim_call f \<longleftrightarrow> (\<forall>c e. aim_inv c (engine_contacts e) \<longrightarrow> aim_result_ok (c, e) (void (f (c, e))))"

lemma safe_aim_callI:
  assumes "\<And>c e. aim_inv c (engine_contacts e) \<Longrightarrow> aim_keeps (c, e) (f (c, e)) \<or> aim_releases (c, e) (f (c, e))"
  shows "safe_aim_call f"
  unfolding safe_aim_call_def using assms keeps_result_ok releases_result_ok by blast

lemma on_aim_ok:
  assumes f: "safe_aim_call f" and inv: "session_inv hypot r" and i: "i < control_count r"
  shows "op_ok hypot i r (on_aim f i r)"
proof (cases "ur_aims r ! i")
  case None
  then show ?thesis using op_ok_idle [OF inv i] by (simp add: on_aim_def)
next
  case (Some c)
  have ci: "control_inv hypot r i" using inv i by (simp add: session_inv_def)
  with Some obtain a s where a: "action_at r i = RMouseAim a s" "mc_aim c = a" "mc_settings c = s" "aim_inv c (down r)"
    by (auto simp: control_inv_def split: runtime_action.splits)
  obtain c' e' res where r: "f (c, ur_engine r) = ((c', e'), res)" by (metis surj_pair)
  have ok: "aim_frame c (down r) c' (engine_contacts e')"
    "case res of Inl err \<Rightarrow> only_injection err | Inr _ \<Rightarrow> aim_inv c' (engine_contacts e')"
    using f a(4) r unfolding safe_aim_call_def aim_result_ok_def void_def by (cases res; fastforce)+
  have ids: "aim_ids c \<subseteq> owned r i" using a by (simp add: aim_ids_def owned_def action_contacts_def)
  have act: "action_at (r\<lparr>ur_aims := as, ur_engine := e'\<rparr>) i = action_at r i" for as
    by (simp add: action_at_def control_at_def)
  show ?thesis using r Some ok ids a act i shape_lengths [OF inv]
    by (cases res) (auto simp: on_aim_def op_ok_def touches_def same_config_def same_held_def control_inv_def
        aim_frame_def)
qed

section \<open>The loop bodies are safe\<close>

lemma safe_opsI:
  assumes "\<And>i r. i < n \<Longrightarrow> control_count r = n \<Longrightarrow> session_inv hypot r \<Longrightarrow> op_ok hypot i r (body i r)"
  shows "safe_ops hypot n body"
  using assms by (simp add: safe_ops_def)

lemma safe_release_joystick: "safe_ops hypot n (release_joystick hypot inject now)"
  by (rule safe_opsI)
    (auto simp: release_joystick_def Let_def op_ok_idle direct_joystick_ok split: runtime_action.splits)

lemma safe_release_hold: "safe_ops hypot n (release_hold inject)"
  by (rule safe_opsI) (auto simp: release_hold_def op_ok_idle switch_hold_ok split: runtime_action.splits)

lemma safe_press_control: "safe_ops hypot n (press_control hypot inject now)"
  by (rule safe_opsI)
    (auto simp: press_control_def op_ok_idle switch_hold_ok direct_joystick_ok split: runtime_action.splits)

lemma safe_dispatch_key: "safe_ops hypot n (dispatch_key_to hypot inject now k)"
  by (rule safe_opsI)
    (auto simp: dispatch_key_to_def op_ok_idle dispatch_tap_ok direct_joystick_ok
      split: runtime_action.splits control_input.splits joystick_mode.splits prod.splits)

lemma safe_dispatch_button: "safe_ops hypot n (dispatch_button_to inject b)"
  by (rule safe_opsI) (auto simp: dispatch_button_to_def op_ok_idle dispatch_tap_ok split: runtime_action.splits)

lemma safe_on_aim: "safe_aim_call f \<Longrightarrow> safe_ops hypot n (on_aim f)"
  by (rule safe_opsI) (simp add: on_aim_ok)

lemma safe_idle_call: "safe_aim_call (\<lambda>s. if P s then f s else (s, Inr Ignored))" if "safe_aim_call f"
  using that by (auto simp: safe_aim_call_def aim_result_ok_def void_def)

lemma safe_activate: "safe_aim_call (\<lambda>s. activate inject s now)"
  by (rule safe_aim_callI) (simp add: activate_keeps)

lemma safe_deactivate: "safe_aim_call (deactivate inject)"
  by (rule safe_aim_callI) (simp add: deactivate_releases)

lemma safe_move: "safe_aim_call (\<lambda>s. controller_move_by inject s d now)"
  by (rule safe_aim_callI) (simp add: move_keeps)

lemma safe_tick: "safe_aim_call (\<lambda>s. aim_tick inject s now)"
  by (rule safe_aim_callI) (simp add: tick_keeps)

lemma safe_toggle: "safe_aim_call (\<lambda>s. aim_toggle inject s now)"
  by (rule safe_aim_callI) (auto simp: aim_toggle_def activate_keeps deactivate_releases)

lemma safe_toggle_aim: "safe_ops hypot n (toggle_aim_at inject now k)"
proof (rule safe_opsI)
  fix i and r :: "'a unified_runtime"
  assume i: "i < n" "control_count r = n" and inv: "session_inv hypot r"
  show "op_ok hypot i r (toggle_aim_at inject now k i r)"
  proof (cases "ur_toggle_keys r ! i = Some k")
    case True
    with inv i obtain a s where "action_at r i = RMouseAim a s" by (auto simp: session_inv_def session_shape_def)
    moreover have "control_inv hypot r i" using inv i by (simp add: session_inv_def)
    ultimately have "ur_aims r ! i \<noteq> None" by (auto simp: control_inv_def)
    with True i inv show ?thesis by (auto simp: toggle_aim_at_def on_aim_ok safe_toggle)
  qed (use inv i in \<open>simp add: toggle_aim_at_def op_ok_idle\<close>)
qed

lemma reaffirm_joystick_ok:
  assumes inv: "session_inv hypot r" and i: "i < control_count r"
  shows "op_ok hypot i r (reaffirm_joystick inject now i r)"
proof (cases "\<exists>j m interval p. action_at r i = RVirtualJoystick j m (Some interval) \<and> down r (vj_contact_id j) = Some p
    \<and> \<not> (case ur_last_frame r ! i of Some earlier \<Rightarrow> now - earlier < interval | None \<Rightarrow> False)")
  case False
  then have "reaffirm_joystick inject now i r = (r, Inr False)"
    by (auto simp: reaffirm_joystick_def split: runtime_action.splits option.splits)
  with op_ok_idle [OF inv i] show ?thesis by simp
next
  case True
  then obtain j m interval p where a: "action_at r i = RVirtualJoystick j m (Some interval)"
    and p: "down r (vj_contact_id j) = Some p"
    and due: "\<not> (case ur_last_frame r ! i of Some earlier \<Rightarrow> now - earlier < interval | None \<Rightarrow> False)" by blast
  obtain e' res where mv: "move_contact inject (ur_engine r) (vj_contact_id j) p = (e', res)" by fastforce
  have eq: "engine_contacts e' = down r \<and> (case res of Inl err \<Rightarrow> only_injection err | Inr _ \<Rightarrow> True)"
  proof (cases res)
    case (Inl err)
    with mv p show ?thesis using engine_op_Inl(2) engine_op_only_injection(2) by fastforce
  next
    case (Inr u)
    with mv p show ?thesis using move_contact_Inr [of inject "ur_engine r"] by (simp add: fun_upd_idem)
  qed
  have ci: "control_inv hypot r i" using inv i by (simp add: session_inv_def)
  have act: "action_at (r\<lparr>ur_engine := e', ur_last_frame := lf\<rparr>) i = action_at r i" for lf
    by (simp add: action_at_def control_at_def)
  have tgt: "joystick_target hypot j (ur_directions r ! i) = Some p" "ur_aims r ! i = None"
    using ci p by (auto simp: control_inv_def a)
  have "reaffirm_joystick inject now i r = andThen (engine_call (e', res) r)
      (\<lambda>r' _. (r'\<lparr>ur_last_frame := (ur_last_frame r')[i := Some now]\<rparr>, Inr True))"
    using a p due mv by (simp add: reaffirm_joystick_def)
  then show ?thesis using eq act p tgt
    by (cases res) (simp_all add: a engine_call_def op_ok_def touches_def same_config_def same_held_def control_inv_def)
qed

lemma safe_reaffirm: "safe_ops hypot n (reaffirm_joystick inject now)"
  by (rule safe_opsI) (simp add: reaffirm_joystick_ok)

section \<open>The operations of the runtime are safe\<close>

text \<open>Fields the invariant does not read.\<close>

lemma session_inv_cong:
  assumes "ur_plan r' = ur_plan r" "down r' = down r" "ur_points r' = ur_points r" "ur_inputs r' = ur_inputs r"
    "ur_directions r' = ur_directions r" "ur_active r' = ur_active r" "ur_aims r' = ur_aims r"
    "ur_cursor_contact r' = ur_cursor_contact r" "ur_toggle_keys r' = ur_toggle_keys r"
    "length (ur_desired r') = length (ur_desired r)"
    "length (ur_desired_directions r') = length (ur_desired_directions r)"
    "length (ur_last_frame r') = length (ur_last_frame r)" "length (ur_selected r') = length (ur_selected r)"
  shows "session_inv hypot r' = session_inv hypot r"
proof -
  have own: "owned r' i = owned r i" "action_at r' i = action_at r i" "control_count r' = control_count r" for i
    using assms(1,3) by (simp_all add: owned_def action_at_def control_at_def control_count_def)
  have "control_inv hypot r' i = control_inv hypot r i" for i unfolding control_inv_def own assms ..
  then show ?thesis
    unfolding session_inv_def session_shape_def no_stray_contact_def own assms by simp
qed

lemma fold_select_length: "length (fold (select_input_layer c l) inps sel) = length sel"
  by (induction inps arbitrary: sel) (auto simp: select_input_layer_def Let_def)

lemma fold_select_control_length: "length (fold (select_control l) cs sel) = length sel"
proof (induction cs arbitrary: sel)
  case (Cons x cs)
  have "length (select_control l x sel) = length sel"
    by (cases x) (simp add: select_control_def fold_select_length)
  with Cons show ?case by simp
qed simp

lemma refresh_inv:
  assumes "session_inv hypot r"
  shows "session_inv hypot (compute_desired (refresh_selected r))"
    "same_setting r (compute_desired (refresh_selected r))"
    "control_count (compute_desired (refresh_selected r)) = control_count r"
proof -
  have n: "control_count (refresh_selected r) = control_count r" by (simp add: refresh_selected_def control_count_def)
  show "control_count (compute_desired (refresh_selected r)) = control_count r"
    by (simp add: compute_desired_def refresh_selected_def control_count_def)
  show "same_setting r (compute_desired (refresh_selected r))"
    using shape_lengths [OF assms] n
    by (intro same_settingI) (simp_all add: same_config_def compute_desired_def refresh_selected_def fold_select_control_length)
  show "session_inv hypot (compute_desired (refresh_selected r))"
    using assms shape_lengths [OF assms] n
    by (subst session_inv_cong [where r = r])
      (simp_all add: compute_desired_def refresh_selected_def fold_select_control_length)
qed

lemma bindings_ok_from:
  "same_setting r r0 \<Longrightarrow> bindings_ok hypot r0 result \<Longrightarrow> bindings_ok hypot r result"
  by (auto simp: bindings_ok_def intro: same_setting_trans split: prod.splits sum.splits)

lemma bindings_ok_loop:
  "safe_ops hypot (control_count r) body \<Longrightarrow> session_inv hypot r \<Longrightarrow> n = control_count r \<Longrightarrow>
     bindings_ok hypot r (for_each body [0..<n] r)"
  using for_all_safe(1) by blast

lemma reconcile_bindings:
  assumes inv: "session_inv hypot r" shows "bindings_ok hypot r (reconcile_continuous hypot inject now r)"
proof -
  let ?r0 = "compute_desired (refresh_selected r)"
  note r0 = refresh_inv [OF inv]
  show ?thesis unfolding reconcile_continuous_def Let_def
    by (rule bindings_ok_from [OF r0(2)])
      (intro bindings_ok_andThen bindings_ok_loop bindings_ok_return safe_release_joystick safe_release_hold
        safe_press_control r0; simp add: r0 same_setting_count)
qed

lemma for_aims_bindings:
  assumes "safe_aim_call f" "session_inv hypot r" shows "bindings_ok hypot r (for_aims f r)"
  unfolding for_aims_def
  by (rule bindings_ok_loop) (use assms shape_lengths [OF assms(2)] in \<open>simp_all add: safe_on_aim\<close>)

lemma set_all_ads_inv:
  assumes inv: "session_inv hypot r"
  shows "session_inv hypot (set_all_ads b r)" "same_setting r (set_all_ads b r)"
proof -
  let ?r = "set_all_ads b r"
  have cfg: "same_config r ?r" by (simp add: same_config_def set_all_ads_def)
  have down: "down ?r = down r" by (simp add: set_all_ads_def)
  show "same_setting r ?r" by (rule same_settingI [OF cfg down])
  have ads: "aim_inv (set_ads_active b c) m = aim_inv c m" "mc_aim (set_ads_active b c) = mc_aim c"
    "mc_settings (set_ads_active b c) = mc_settings c" for c m
    by (rule aim_inv_cong; simp add: set_ads_active_def) (simp_all add: set_ads_active_def)
  have "control_inv hypot ?r i" if i: "i < control_count r" for i
  proof -
    have ci: "control_inv hypot r i" using inv i by (simp add: session_inv_def)
    have "ur_aims ?r ! i = map_option (set_ads_active b) (ur_aims r ! i)"
      using i shape_lengths [OF inv] by (simp add: set_all_ads_def)
    moreover have "ur_points ?r = ur_points r" "ur_active ?r = ur_active r" "ur_directions ?r = ur_directions r"
      by (simp_all add: set_all_ads_def)
    ultimately show ?thesis using ci
      unfolding control_inv_def same_config_simps [OF cfg] down by (auto simp: ads split: runtime_action.splits)
  qed
  then show "session_inv hypot ?r"
    using inv by (simp add: session_inv_def same_config_simps [OF cfg] same_config_shape [OF cfg] no_stray_contact_def down)
qed

lemma key_transitioned_inv:
  assumes "session_inv hypot r"
  shows "session_inv hypot (key_transitioned k pressed r)" "same_setting r (key_transitioned k pressed r)"
proof -
  show "session_inv hypot (key_transitioned k pressed r)"
    using assms by (subst session_inv_cong [where r = r])
      (auto simp: key_transitioned_def Let_def split: option.splits)
  show "same_setting r (key_transitioned k pressed r)"
    by (intro same_settingI) (auto simp: key_transitioned_def Let_def same_config_def split: option.splits)
qed

lemma held_buttons_inv:
  assumes "session_inv hypot r"
  shows "session_inv hypot (r\<lparr>ur_held_buttons := b\<rparr>)" "same_setting r (r\<lparr>ur_held_buttons := b\<rparr>)"
  using assms by (subst session_inv_cong [where r = r]; simp) (simp add: same_config_def same_settingI)

lemma handle_keyboard_bindings:
  assumes inv: "session_inv hypot r" shows "bindings_ok hypot r (handle_keyboard hypot inject now ev r)"
proof (cases "hk_transition ev = KRepeated \<or> runtime_key (hk_key ev) = None")
  case True
  then have "handle_keyboard hypot inject now ev r = (r, Inr False)"
    by (auto simp: handle_keyboard_def split: key_transition.splits)
  then show ?thesis using inv by (simp add: bindings_ok_return)
next
  case False
  then obtain k where k: "runtime_key (hk_key ev) = Some k" "hk_transition ev \<noteq> KRepeated" by auto
  let ?p = "hk_transition ev = KPressed"
  note t = key_transitioned_inv [OF inv, of k ?p]
  have tail: "bindings_ok hypot r1 (if ur_layer_controls r ! key_index k \<noteq> None \<or> \<not> ?p then (r1, Inr submitted)
      else andThen (for_each (toggle_aim_at inject now k) [0..<length (ur_aims r1)] r1) (\<lambda>r2 toggled.
             andThen (dispatch_keyboard_press hypot inject now k r2) (\<lambda>r3 dispatched.
               (r3, Inr (submitted \<or> toggled \<or> dispatched)))))" if "session_inv hypot r1" for r1 submitted
    unfolding dispatch_keyboard_press_def
    by (simp add: bindings_ok_return that)
      (intro impI conjI bindings_ok_andThen bindings_ok_loop bindings_ok_return safe_toggle_aim safe_dispatch_key that;
        simp add: shape_lengths [OF that])
  have "handle_keyboard hypot inject now ev r =
      andThen (reconcile_continuous hypot inject now (key_transitioned k ?p r)) (\<lambda>r1 submitted.
        if ur_layer_controls r ! key_index k \<noteq> None \<or> \<not> ?p then (r1, Inr submitted)
        else andThen (for_each (toggle_aim_at inject now k) [0..<length (ur_aims r1)] r1) (\<lambda>r2 toggled.
               andThen (dispatch_keyboard_press hypot inject now k r2) (\<lambda>r3 dispatched.
                 (r3, Inr (submitted \<or> toggled \<or> dispatched)))))"
    using k by (cases "hk_transition ev") (simp_all add: handle_keyboard_def Let_def)
  also have "bindings_ok hypot r \<dots>"
    by (rule bindings_ok_from [OF t(2)]) (rule bindings_ok_andThen [OF reconcile_bindings [OF t(1)] tail])
  finally show ?thesis .
qed

lemma handle_mouse_bindings:
  assumes inv: "session_inv hypot r" shows "bindings_ok hypot r (handle_mouse hypot inject now ev r)"
proof (cases ev)
  case (MMotion m)
  then show ?thesis using inv by (auto simp: handle_mouse_def bindings_ok_return intro: for_aims_bindings safe_move)
next
  case (MWheel w)
  then show ?thesis using inv by (simp add: handle_mouse_def bindings_ok_return)
next
  case (MButton button t)
  let ?p = "t = KPressed" and ?b = "runtime_mouse_button button"
  let ?r1 = "r\<lparr>ur_held_buttons := set_mouse_button_held (ur_held_buttons r) ?b ?p\<rparr>"
  let ?r2 = "if ?b = MRight then set_all_ads ?p ?r1 else ?r1"
  note h = held_buttons_inv [OF inv, of "set_mouse_button_held (ur_held_buttons r) ?b ?p"]
  have 2: "session_inv hypot ?r2" "same_setting r ?r2"
    using h set_all_ads_inv [OF h(1), of ?p] same_setting_trans by auto
  have "bindings_ok hypot ?r2 (andThen (reconcile_continuous hypot inject now ?r2) (\<lambda>r3 submitted.
      if ?p then andThen (dispatch_mouse_press inject ?b r3) (\<lambda>r4 dispatched. (r4, Inr (submitted \<or> dispatched)))
      else (r3, Inr submitted)))"
    unfolding dispatch_mouse_press_def
    by (rule bindings_ok_andThen [OF reconcile_bindings [OF 2(1)]])
      (auto intro!: bindings_ok_andThen bindings_ok_loop bindings_ok_return safe_dispatch_button)
  with bindings_ok_from [OF 2(2) this] MButton inv show ?thesis
    by (simp add: handle_mouse_def Let_def bindings_ok_return)
qed

lemma runtime_tick_bindings: "session_inv hypot r \<Longrightarrow> bindings_ok hypot r (runtime_tick inject now r)"
  unfolding runtime_tick_def
  by (intro bindings_ok_andThen bindings_ok_void bindings_ok_loop for_aims_bindings safe_tick safe_reaffirm) simp_all

lemma release_mouse_buttons_bindings:
  assumes inv: "session_inv hypot r" shows "bindings_ok hypot r (release_mouse_buttons hypot inject now r)"
proof -
  note h = held_buttons_inv [OF inv, of 0]
  note a = set_all_ads_inv [OF h(1), of False]
  show ?thesis using inv
    by (auto simp: release_mouse_buttons_def bindings_ok_return
        intro: bindings_ok_void bindings_ok_from [OF same_setting_trans [OF h(2) a(2)]] reconcile_bindings a(1))
qed

lemma runtime_start_bindings: "session_inv hypot r \<Longrightarrow> bindings_ok hypot r (runtime_start inject now r)"
  unfolding runtime_start_def by (intro bindings_ok_void for_aims_bindings safe_idle_call safe_activate)

lemma restore_aim_bindings: "session_inv hypot r \<Longrightarrow> bindings_ok hypot r (restore_aim inject now b r)"
  unfolding restore_aim_def by (intro bindings_ok_void for_aims_bindings safe_idle_call safe_activate)

lemma set_aim_enabled_bindings: "session_inv hypot r \<Longrightarrow> bindings_ok hypot r (set_aim_enabled inject now b r)"
  unfolding set_aim_enabled_def
  by (simp add: restore_aim_bindings) (intro impI bindings_ok_void for_aims_bindings safe_idle_call safe_deactivate)

section \<open>Calls on the runtime\<close>

text \<open>What any call on the runtime keeps, the cursor's own calls included: the configuration and the
  invariant. The events and ticks above keep the cursor's contact besides.\<close>

definition session_ok :: "(f64 \<Rightarrow> f64 \<Rightarrow> f64) \<Rightarrow> 'i unified_runtime \<Rightarrow> ('i, 'e, 'a) session_st \<Rightarrow> bool" where
  "session_ok hypot r result \<longleftrightarrow>
     (case result of
        (r', Inr _) \<Rightarrow> same_config r r' \<and> session_inv hypot r'
      | (r', Inl err) \<Rightarrow> same_config r r' \<and> session_only_injection err)"

lemma bindings_session: "bindings_ok hypot r result \<Longrightarrow> session_ok hypot r result"
  by (auto simp: bindings_ok_def session_ok_def same_setting_def split: prod.splits sum.splits)

lemma session_ok_andThen:
  assumes "session_ok hypot r first"
    and "\<And>r1 x. first = (r1, Inr x) \<Longrightarrow> same_config r r1 \<Longrightarrow> session_inv hypot r1 \<Longrightarrow> session_ok hypot r1 (rest r1 x)"
  shows "session_ok hypot r (andThen first rest)"
proof -
  obtain r1 res where f: "first = (r1, res)" by fastforce
  show ?thesis
  proof (cases res)
    case (Inl err)
    with assms(1) f show ?thesis by (simp add: session_ok_def)
  next
    case (Inr x)
    with assms(1) f have "same_config r r1" "session_inv hypot r1" by (simp_all add: session_ok_def)
    with assms(2) [of r1 x] f Inr show ?thesis
      by (auto simp: session_ok_def intro: same_config_trans split: prod.splits sum.splits)
  qed
qed

lemma session_ok_return: "session_inv hypot r \<Longrightarrow> session_ok hypot r (r, Inr x)"
  by (simp add: session_ok_def)

lemma session_ok_void: "session_ok hypot r result \<Longrightarrow> session_ok hypot r (void result)"
  unfolding void_def by (rule session_ok_andThen) (auto intro: session_ok_return)

lemmas handle_keyboard_ok = handle_keyboard_bindings [THEN bindings_session]
lemmas handle_mouse_ok = handle_mouse_bindings [THEN bindings_session]
lemmas runtime_tick_ok = runtime_tick_bindings [THEN bindings_session]
lemmas release_mouse_buttons_ok = release_mouse_buttons_bindings [THEN bindings_session]
lemmas runtime_start_ok = runtime_start_bindings [THEN bindings_session]
lemmas restore_aim_ok = restore_aim_bindings [THEN bindings_session]
lemmas set_aim_enabled_ok = set_aim_enabled_bindings [THEN bindings_session]

end
