(* ===== verification/SessionRun.thy ===== *)
theory SessionRun
  imports SessionSafe
begin

text \<open>
  The runtime as a whole: it can be built from every sound plan, suspension releases everything
  whatever happened before, and any sequence of calls keeps the invariant until the injector fails.
\<close>

section \<open>The cursor\<close>

lemma cursor_change_inv:
  assumes inv: "session_inv hypot r" and m: "engine_contacts e' = (down r)(ur_cursor_contact r := p)"
  shows "session_inv hypot (r\<lparr>ur_engine := e'\<rparr>)" "same_config r (r\<lparr>ur_engine := e'\<rparr>)"
proof -
  let ?r = "r\<lparr>ur_engine := e'\<rparr>"
  show cfg: "same_config r ?r" by (simp add: same_config_def)
  have "control_inv hypot ?r i" if i: "i < control_count r" for i
  proof (rule control_inv_binding [OF cfg])
    show "control_inv hypot r i" using inv i by (simp add: session_inv_def)
    have "ur_cursor_contact r \<notin> owned r i" using inv i by (simp add: session_inv_def session_shape_def Let_def)
    then show "same_binding i r ?r" using m by (auto simp: same_binding_def)
  qed
  moreover have "no_stray_contact ?r"
    using inv m unfolding session_inv_def no_stray_contact_def same_config_simps [OF cfg] by auto
  ultimately show "session_inv hypot ?r"
    using inv by (simp add: session_inv_def same_config_simps [OF cfg] same_config_shape [OF cfg])
qed

lemma cursor_call_ok:
  assumes inv: "session_inv hypot r"
    and res: "case result of (e', Inl err) \<Rightarrow> engine_contacts e' = down r \<and> only_injection err
      | (e', Inr _) \<Rightarrow> \<exists>p. engine_contacts e' = (down r)(ur_cursor_contact r := p)"
  shows "session_ok hypot r (engine_call result r)"
  using res cursor_change_inv [OF inv]
  by (auto simp: session_ok_def engine_call_def same_config_def split: prod.splits sum.splits)

lemma engine_op_cases:
  assumes "engine_contacts e c = None \<Longrightarrow> begin_contact inject e c p = (e', res)"
    and "engine_contacts e c \<noteq> None \<Longrightarrow> move_contact inject e c p = (e', res)"
  shows "case res of Inl err \<Rightarrow> engine_contacts e' = engine_contacts e \<and> only_injection err
    | Inr _ \<Rightarrow> engine_contacts e' = (engine_contacts e)(c \<mapsto> p)"
proof (cases "engine_contacts e c = None")
  case True
  with assms(1) show ?thesis using begin_contact_Inr [of inject e c p e'] engine_op_Inl(1) [of inject e c p e']
      engine_op_only_injection(1) [of inject e c p e'] by (cases res) auto
next
  case False
  with assms(2) show ?thesis using move_contact_Inr [of inject e c p e'] engine_op_Inl(2) [of inject e c p e']
      engine_op_only_injection(2) [of inject e c p e'] by (cases res) auto
qed

lemma is_active_contact: "is_active (engine_state e) c \<longleftrightarrow> engine_contacts e c \<noteq> None"
  by (simp add: is_active_def contact_position_def)

lemma cursor_down_ok: assumes inv: "session_inv hypot r" shows "session_ok hypot r (cursor_down inject p r)"
proof -
  let ?e = "ur_engine r" and ?c = "ur_cursor_contact r"
  obtain e' res where r: "(if down r ?c = None then begin_contact inject ?e ?c p else move_contact inject ?e ?c p) = (e', res)"
    by fastforce
  have "cursor_down inject p r = engine_call (e', res) r"
    unfolding r [symmetric] by (auto simp: cursor_down_def is_active_contact)
  moreover have "session_ok hypot r (engine_call (e', res) r)"
    using engine_op_cases [of ?e ?c inject p e' res] r
    by (intro cursor_call_ok [OF inv]) (auto split: sum.splits if_splits)
  ultimately show ?thesis by simp
qed

lemma cursor_move_ok: assumes inv: "session_inv hypot r" shows "session_ok hypot r (cursor_move inject p r)"
proof (cases "down r (ur_cursor_contact r) = None")
  case True
  with inv show ?thesis by (simp add: cursor_move_def is_active_contact session_ok_return)
next
  case False
  obtain e' res where mv: "move_contact inject (ur_engine r) (ur_cursor_contact r) p = (e', res)" by fastforce
  have "session_ok hypot r (engine_call (e', res) r)"
    using engine_op_cases [of "ur_engine r" "ur_cursor_contact r" inject p e' res] mv False
    by (intro cursor_call_ok [OF inv]) (auto split: sum.splits)
  with False mv show ?thesis by (simp add: cursor_move_def is_active_contact)
qed

lemma cursor_up_ok: assumes inv: "session_inv hypot r" shows "session_ok hypot r (cursor_up inject r)"
proof (cases "down r (ur_cursor_contact r) = None")
  case True
  with inv show ?thesis by (simp add: cursor_up_def is_active_contact session_ok_return)
next
  case False
  obtain e' res where up: "end_contact inject (ur_engine r) (ur_cursor_contact r) = (e', res)" by fastforce
  have "case res of Inl err \<Rightarrow> engine_contacts e' = down r \<and> only_injection err
      | Inr _ \<Rightarrow> engine_contacts e' = (down r)(ur_cursor_contact r := None)"
    using up False end_contact_Inr [of inject "ur_engine r"] engine_op_Inl(3) [of inject "ur_engine r"]
      engine_op_only_injection(3) [of inject "ur_engine r"] by (cases res) auto
  then have "session_ok hypot r (engine_call (e', res) r)"
    by (intro cursor_call_ok [OF inv]) (auto split: sum.splits)
  with False up show ?thesis by (simp add: cursor_up_def is_active_contact)
qed

section \<open>Suspension\<close>

definition idle_version :: "mouse_aim_controller \<Rightarrow> mouse_aim_controller \<Rightarrow> bool" where
  "idle_version c c' \<longleftrightarrow> mc_active c' = None \<and> mc_pending c' = None \<and> mc_aim c' = mc_aim c
     \<and> mc_settings c' = mc_settings c"

lemma controller_cancel_resets:
  assumes "controller_cancel inject (c, e) = ((c', e'), res)"
  shows "idle_version c c'" "case res of Inl err \<Rightarrow> only_injection err | Inr _ \<Rightarrow> True"
proof -
  have err: "only_injection er" if "cancel_contact inject e k = (e1, Inl er)" for k e1 er
    using cancel_contact_cases [where inject = inject and e = e and c = k] that by (simp add: only_injection_def)
  show "idle_version c c'"
    using assms by (auto simp: controller_cancel_def Let_def aim_reset_def idle_version_def
        split: prod.splits sum.splits option.splits)
  show "case res of Inl err \<Rightarrow> only_injection err | Inr _ \<Rightarrow> True"
    using assms err by (auto simp: controller_cancel_def Let_def split: prod.splits sum.splits option.splits)
qed

lemma idle_version_trans: "idle_version c c1 \<Longrightarrow> idle_version c1 c2 \<Longrightarrow> idle_version c c2"
  by (simp add: idle_version_def)

definition injection_if_any :: "'e touch_engine_error option \<Rightarrow> bool" where
  "injection_if_any err = (case err of None \<Rightarrow> True | Some e \<Rightarrow> only_injection e)"

lemma keep_first_injection: "injection_if_any err \<Longrightarrow> only_injection e \<Longrightarrow> injection_if_any (keep_first err e)"
  by (cases err) (simp_all add: injection_if_any_def keep_first_def)

text \<open>Only the engine and the controller of the binding change, and the controller is idle afterwards.\<close>

lemma cancel_aim_effect:
  assumes "cancel_aim inject i (r, err) = (r', err')"
  shows "\<exists>e c'. r' = r\<lparr>ur_aims := (ur_aims r)[i := c'], ur_engine := e\<rparr> \<and> rel_option idle_version (ur_aims r ! i) c'"
    and "injection_if_any err \<Longrightarrow> injection_if_any err'"
proof -
  have both: "(\<exists>e c'. r' = r\<lparr>ur_aims := (ur_aims r)[i := c'], ur_engine := e\<rparr>
        \<and> rel_option idle_version (ur_aims r ! i) c')
    \<and> (injection_if_any err \<longrightarrow> injection_if_any err')"
  proof (cases "ur_aims r ! i")
    case None
    then have "r' = r" "err' = err" using assms by (simp_all add: cancel_aim_def)
    moreover have "r = r\<lparr>ur_aims := (ur_aims r)[i := None], ur_engine := ur_engine r\<rparr>"
      using None by (metis (no_types, lifting) list_update_id unified_runtime.surjective unified_runtime.update_convs(2,12))
    ultimately show ?thesis using None by (metis option.rel_intros(1))
  next
    case (Some c)
    obtain c1 e1 res1 where 1: "controller_cancel inject (c, ur_engine r) = ((c1, e1), res1)" by (metis surj_pair)
    note f1 = controller_cancel_resets [OF 1]
    show ?thesis
    proof (cases res1)
      case (Inr b)
      with assms Some 1 have "r' = r\<lparr>ur_aims := (ur_aims r)[i := Some c1], ur_engine := e1\<rparr>" "err' = err"
        by (simp_all add: cancel_aim_def)
      with Some f1 show ?thesis by (metis option.rel_intros(2))
    next
      case (Inl er1)
      obtain c2 e2 res2 where 2: "controller_cancel inject (c1, e1) = ((c2, e2), res2)" by (metis surj_pair)
      note f2 = controller_cancel_resets [OF 2]
      have "idle_version c c2" using f1(1) f2(1) by (rule idle_version_trans)
      moreover have "r' = r\<lparr>ur_aims := (ur_aims r)[i := Some c2], ur_engine := e2\<rparr>"
        using assms Some 1 2 Inl by (simp add: cancel_aim_def)
      moreover have "injection_if_any err \<longrightarrow> injection_if_any err'"
        using assms Some 1 2 f1(2) f2(2) Inl by (cases res2) (auto simp: cancel_aim_def intro!: keep_first_injection)
      ultimately show ?thesis using Some by (metis option.rel_intros(2))
    qed
  qed
  then show "\<exists>e c'. r' = r\<lparr>ur_aims := (ur_aims r)[i := c'], ur_engine := e\<rparr> \<and> rel_option idle_version (ur_aims r ! i) c'"
    and "injection_if_any err \<Longrightarrow> injection_if_any err'" by blast+
qed

lemma cancel_aims_effect:
  assumes "fold (cancel_aim inject) is (r, err) = (r', err')"
  shows "\<exists>e as. r' = r\<lparr>ur_aims := as, ur_engine := e\<rparr> \<and> length as = length (ur_aims r)
      \<and> (\<forall>i < length as. if i \<in> set is then rel_option idle_version (ur_aims r ! i) (as ! i) else as ! i = ur_aims r ! i)"
    and "injection_if_any err \<Longrightarrow> injection_if_any err'"
proof -
  have "(\<exists>e as. r' = r\<lparr>ur_aims := as, ur_engine := e\<rparr> \<and> length as = length (ur_aims r)
      \<and> (\<forall>i < length as. if i \<in> set is then rel_option idle_version (ur_aims r ! i) (as ! i) else as ! i = ur_aims r ! i))
    \<and> (injection_if_any err \<longrightarrow> injection_if_any err')"
    using assms
  proof (induction "is" arbitrary: r err)
    case Nil
    then have "r' = r" "err' = err" by simp_all
    then show ?case by (auto intro!: exI [of _ "ur_engine r"] exI [of _ "ur_aims r"])
  next
    case (Cons x xs)
    obtain r1 err1 where s: "cancel_aim inject x (r, err) = (r1, err1)" by fastforce
    obtain e1 c1 where 1: "r1 = r\<lparr>ur_aims := (ur_aims r)[x := c1], ur_engine := e1\<rparr>"
      "rel_option idle_version (ur_aims r ! x) c1" using cancel_aim_effect(1) [OF s] by blast
    have "fold (cancel_aim inject) xs (r1, err1) = (r', err')" using Cons.prems s by simp
    from Cons.IH [OF this] obtain e as where 2: "r' = r1\<lparr>ur_aims := as, ur_engine := e\<rparr>"
      "length as = length (ur_aims r1)"
      "\<And>i. i < length as \<Longrightarrow> if i \<in> set xs then rel_option idle_version (ur_aims r1 ! i) (as ! i) else as ! i = ur_aims r1 ! i"
      "injection_if_any err1 \<longrightarrow> injection_if_any err'" by blast
    have "if i \<in> set (x # xs) then rel_option idle_version (ur_aims r ! i) (as ! i) else as ! i = ur_aims r ! i"
      if i: "i < length as" for i
    proof (cases "i = x")
      case True
      then have c: "ur_aims r1 ! i = c1" using i 1(1) 2(2) by simp
      have "rel_option idle_version (ur_aims r ! i) (as ! i)"
      proof (cases "i \<in> set xs")
        case True
        then have "rel_option idle_version c1 (as ! i)" using 2(3) [OF i] c by simp
        with 1(2) \<open>i = x\<close> show ?thesis
          by (auto simp: option_rel_Some1 option_rel_Some2 elim!: option.rel_cases intro: idle_version_trans)
      next
        case False
        then show ?thesis using 2(3) [OF i] c 1(2) \<open>i = x\<close> by simp
      qed
      with True show ?thesis by simp
    next
      case False
      then have "ur_aims r1 ! i = ur_aims r ! i" using 1(1) by simp
      with 2(3) [OF i] False show ?thesis by (simp split: if_splits)
    qed
    moreover have "r' = r\<lparr>ur_aims := as, ur_engine := e\<rparr>" "length as = length (ur_aims r)"
      using 1(1) 2(1,2) by simp_all
    moreover have "injection_if_any err \<longrightarrow> injection_if_any err'" using cancel_aim_effect(2) [OF s] 2(4) by blast
    ultimately show ?case by blast
  qed
  then show "\<exists>e as. r' = r\<lparr>ur_aims := as, ur_engine := e\<rparr> \<and> length as = length (ur_aims r)
      \<and> (\<forall>i < length as. if i \<in> set is then rel_option idle_version (ur_aims r ! i) (as ! i) else as ! i = ur_aims r ! i)"
    and "injection_if_any err \<Longrightarrow> injection_if_any err'" by blast+
qed

text \<open>The state after suspension, in terms of the state before.\<close>

lemma runtime_suspend_effect:
  assumes "runtime_suspend inject r = (r', res)"
  obtains e as where "r' = clear_runtime (r\<lparr>ur_aims := as, ur_engine := e\<rparr>)" "list_all2 (rel_option idle_version) (ur_aims r) as"
    "case res of Inr _ \<Rightarrow> engine_contacts e = Map.empty | Inl err \<Rightarrow> session_only_injection err"
proof -
  obtain r1 err1 where f: "fold (cancel_aim inject) [0..<length (ur_aims r)] (r, None) = (r1, err1)" by fastforce
  obtain e2 res2 where c: "cancel_all inject (ur_engine r1) = (e2, res2)" by fastforce
  from cancel_aims_effect(1) [OF f] obtain e as where r1: "r1 = r\<lparr>ur_aims := as, ur_engine := e\<rparr>"
    "length as = length (ur_aims r)" "\<And>i. i < length as \<Longrightarrow> rel_option idle_version (ur_aims r ! i) (as ! i)"
    by fastforce
  have err1: "injection_if_any err1" using cancel_aims_effect(2) [OF f] by (simp add: injection_if_any_def)
  note all = cancel_all_cases [where inject = inject and e = "ur_engine r1", unfolded c, simplified]
  have "r' = clear_runtime (r\<lparr>ur_aims := as, ur_engine := e2\<rparr>)"
    using assms f c r1(1) by (simp add: runtime_suspend_def)
  moreover have "list_all2 (rel_option idle_version) (ur_aims r) as"
    using r1(2,3) by (simp add: list_all2_conv_all_nth)
  moreover have "case res of Inr _ \<Rightarrow> engine_contacts e2 = Map.empty | Inl err \<Rightarrow> session_only_injection err"
    using assms f c all err1
    by (cases res2; cases err1) (auto simp: runtime_suspend_def injection_if_any_def keep_first_def)
  ultimately show thesis using that by blast
qed

lemma clear_runtime_fields [simp]:
  "down (clear_runtime r) = down r" "ur_aims (clear_runtime r) = ur_aims r" "ur_plan (clear_runtime r) = ur_plan r"
  "ur_points (clear_runtime r) = ur_points r" "ur_inputs (clear_runtime r) = ur_inputs r"
  "same_config r (clear_runtime r)"
  by (simp_all add: clear_runtime_def same_config_def)

lemma joystick_target_neutral: "joystick_target hypot j directional_neutral = None"
  by (simp add: joystick_target_def from_directional_def horizontal_def vertical_def directional_neutral_def)

lemma idle_version_inv: "idle_version c c' \<Longrightarrow> aim_inv c m \<Longrightarrow> aim_inv c' Map.empty"
  by (simp add: idle_version_def aim_inv_def aim_phase_inactive aim_config_ok_def)

lemma runtime_suspend_ok:
  assumes inv: "session_inv hypot r" shows "session_ok hypot r (runtime_suspend inject r)"
proof -
  obtain r' res where r: "runtime_suspend inject r = (r', res)" by fastforce
  obtain e as where s: "r' = clear_runtime (r\<lparr>ur_aims := as, ur_engine := e\<rparr>)"
    "list_all2 (rel_option idle_version) (ur_aims r) as"
    "case res of Inr _ \<Rightarrow> engine_contacts e = Map.empty | Inl err \<Rightarrow> session_only_injection err"
    using runtime_suspend_effect [OF r] .
  let ?s = "r\<lparr>ur_aims := as, ur_engine := e\<rparr>"
  have "same_config r ?s" using list_all2_lengthD [OF s(2)] by (simp add: same_config_def)
  then have cfg: "same_config r r'" unfolding s(1) by (rule same_config_trans) simp
  show ?thesis
  proof (cases res)
    case (Inl err)
    with r cfg s(3) show ?thesis by (simp add: session_ok_def)
  next
    case (Inr u)
    then have down: "down r' = Map.empty" using s by simp
    have "control_inv hypot r' i" if i: "i < control_count r" for i
    proof -
      have ci: "control_inv hypot r i" using inv i by (simp add: session_inv_def)
      have aim: "rel_option idle_version (ur_aims r ! i) (ur_aims r' ! i)"
        using list_all2_nthD [OF s(2)] i shape_lengths [OF inv] by (simp add: s(1))
      have dirs: "ur_directions r' ! i = directional_neutral" "\<not> ur_active r' ! i" "ur_points r' = ur_points r"
        using i shape_lengths [OF inv] by (simp_all add: s(1) clear_runtime_def)
      show ?thesis
      proof (cases "action_at r i")
        case (RMouseAim a b)
        with ci obtain c where c: "ur_aims r ! i = Some c" "mc_aim c = a" "mc_settings c = b" "aim_inv c (down r)"
          by (auto simp: control_inv_def)
        with aim obtain c' where c': "ur_aims r' ! i = Some c'" "idle_version c c'" by (auto simp: option_rel_Some1)
        have "aim_inv c' (\<lambda>x. None)" by (rule idle_version_inv [OF c'(2) c(4)])
        with c c' RMouseAim show ?thesis
          by (simp add: control_inv_def same_config_simps [OF cfg] down idle_version_def)
      qed (use ci aim dirs in \<open>auto simp: control_inv_def same_config_simps [OF cfg] down joystick_target_neutral\<close>)
    qed
    with inv r cfg Inr down show ?thesis
      by (simp add: session_ok_def session_inv_def same_config_simps same_config_shape no_stray_contact_def)
  qed
qed

text \<open>C5. Suspension, whatever state the session is in: every controller ends up idle, every held input,
  layer and direction is forgotten, and either no contact is left on the surface or the injector has
  failed.\<close>

theorem suspend_releases_everything:
  "case runtime_suspend inject r of
     (r', res) \<Rightarrow>
       ur_active_layers r' = 0 \<and> ur_held_keys r' = MASK_EMPTY \<and> ur_held_modifiers r' = MASK_EMPTY
       \<and> ur_held_buttons r' = 0 \<and> list_all (\<lambda>d. d = directional_neutral) (ur_directions r')
       \<and> list_all (\<lambda>a. \<not> a) (ur_active r') \<and> \<not> aim_active r'
       \<and> (case res of Inr _ \<Rightarrow> down r' = Map.empty | Inl err \<Rightarrow> session_only_injection err)"
proof -
  obtain r' res where r: "runtime_suspend inject r = (r', res)" by fastforce
  obtain e as where s: "r' = clear_runtime (r\<lparr>ur_aims := as, ur_engine := e\<rparr>)"
    "list_all2 (rel_option idle_version) (ur_aims r) as"
    "case res of Inr _ \<Rightarrow> engine_contacts e = Map.empty | Inl err \<Rightarrow> session_only_injection err"
    using runtime_suspend_effect [OF r] .
  have "\<not> controller_is_active c" if c: "Some c \<in> set as" for c
  proof -
    from c obtain i where "i < length as" "as ! i = Some c" by (auto simp: in_set_conv_nth)
    with s(2) have "rel_option idle_version (ur_aims r ! i) (Some c)" by (metis list_all2_nthD2)
    then show ?thesis by (auto simp: option_rel_Some2 idle_version_def controller_is_active_def)
  qed
  then have "\<not> aim_active r'"
    by (auto simp: s(1) aim_active_def aim_controllers_def list_ex_iff List.map_filter_def)
  moreover have "case res of Inr _ \<Rightarrow> down r' = Map.empty | Inl err \<Rightarrow> session_only_injection err"
    using s(3) by (cases res) (simp_all add: s(1))
  moreover have "ur_active_layers r' = 0" "ur_held_keys r' = MASK_EMPTY" "ur_held_modifiers r' = MASK_EMPTY"
    "ur_held_buttons r' = 0" "list_all (\<lambda>d. d = directional_neutral) (ur_directions r')"
    "list_all (\<lambda>a. \<not> a) (ur_active r')"
    by (simp_all add: s(1) clear_runtime_def list_all_iff)
  ultimately show ?thesis unfolding r by simp
qed

section \<open>Construction from a sound plan\<close>

lemma session_button_parse: "session_parse_mouse_button v = button_parse v"
  by (simp add: session_parse_mouse_button_def button_parse_def parse_name_def BUTTON_NAMES_def Let_def)

lemma control_input_of_resolves: "input_resolves inp \<Longrightarrow> \<exists>ci. control_input_of inp = Some ci"
  by (cases inp) (auto simp: input_resolves_def control_input_of_def session_button_parse)

lemma layer_mask_bit_nat: "i < 64 \<Longrightarrow> layer_mask_bit (of_nat i + 1) = Some (push_bit i 1)"
proof -
  assume i: "i < 64"
  then have "unat (of_nat i + 1 :: u16) = i + 1"
    by (simp add: unat_word_ariths unsigned_of_nat take_bit_nat_eq_self)
  moreover from this have "(of_nat i + 1 :: u16) \<noteq> 0" by (metis add_eq_0_iff_both_eq_0 unat_0 zero_neq_one)
  ultimately show ?thesis using i by (simp add: layer_mask_bit_def)
qed

lemma new_layers_total:
  "(\<And>l. l \<in> set ls \<Longrightarrow> layer_mask_bit (rl_id l) \<noteq> None) \<Longrightarrow> \<exists>table'. new_layers ls table = Inr table'"
proof (induction ls arbitrary: table)
  case (Cons l ls)
  from Cons.prems [of l] obtain bits where "layer_mask_bit (rl_id l) = Some bits" by auto
  with Cons.IH Cons.prems show ?case by simp
qed simp

text \<open>What the construction makes of one control.\<close>

type_synonym new_control = "control_input \<times> contact_id option \<times> mouse_aim_controller option \<times> host_key_name option"

definition new_control_ok :: "runtime_binding \<Rightarrow> new_control \<Rightarrow> bool" where
  "new_control_ok c = (\<lambda>(ci, contact, ctl, toggle).
     control_input_of (rb_input c) = Some ci
     \<and> (case rb_action c of
          RTap _ \<Rightarrow> contact \<noteq> None \<and> ctl = None \<and> toggle = None
        | RHold _ \<Rightarrow> contact \<noteq> None \<and> ctl = None \<and> toggle = None
        | RVirtualJoystick _ _ _ \<Rightarrow> contact = None \<and> ctl = None \<and> toggle = None
        | RMouseAim a s \<Rightarrow> contact = None \<and> (\<exists>k. ctl = Some k \<and> controller_new a s = Inr k)))"

definition point_list :: "new_control \<Rightarrow> nat list" where
  "point_list = (\<lambda>(_, contact, _, _). case contact of None \<Rightarrow> [] | Some c \<Rightarrow> [unat c])"

lemma new_controls_total:
  assumes "\<forall>c \<in> set cs. action_ok res (rb_action c) \<and> input_resolves (rb_input c) \<and> distinct (action_contacts (rb_action c))"
    and "unat n + length cs \<le> 65535"
  shows "\<exists>xs n'. (new_controls cs n :: 'e session_error + _) = Inr (xs, n') \<and> list_all2 new_control_ok cs xs
    \<and> concat (map point_list xs) = [unat n..<unat n'] \<and> unat n \<le> unat n' \<and> unat n' \<le> unat n + length cs"
  using assms
proof (induction cs arbitrary: n)
  case (Cons c cs)
  obtain ci where ci: "control_input_of (rb_input c) = Some ci" using Cons.prems(1) control_input_of_resolves by auto
  have ok: "action_ok res (rb_action c)" "distinct (action_contacts (rb_action c))" using Cons.prems(1) by auto
  let ?point = "case rb_action c of RTap _ \<Rightarrow> True | RHold _ \<Rightarrow> True | _ \<Rightarrow> False"
  define m where "m = (if ?point then usat_add n 1 else n)"
  have n1: "unat m = (if ?point then unat n + 1 else unat n)"
    using Cons.prems(2) by (simp add: unat_usat_add m_def)
  have le: "unat m + length cs \<le> 65535" using n1 Cons.prems(2) by (simp split: if_splits)
  have "\<forall>c \<in> set cs. action_ok res (rb_action c) \<and> input_resolves (rb_input c) \<and> distinct (action_contacts (rb_action c))"
    using Cons.prems(1) by simp
  from Cons.IH [OF this le] obtain xs n' where IH: "(new_controls cs m :: 'e session_error + _) = Inr (xs, n')"
    "list_all2 new_control_ok cs xs" "concat (map point_list xs) = [unat m..<unat n']"
    "unat m \<le> unat n'" "unat n' \<le> unat m + length cs" by blast
  have "\<exists>k. controller_new a s = Inr k" if "rb_action c = RMouseAim a s" for a s
    using ok that by (auto simp: action_ok_def action_contacts_def controller_new_def)
  then have "\<exists>x. (new_controls (c # cs) n :: 'e session_error + _) = Inr (x # xs, n') \<and> new_control_ok c x
      \<and> point_list x = (if ?point then [unat n] else [])"
    using ci IH(1) by (cases "rb_action c") (fastforce simp: m_def new_control_ok_def point_list_def)+
  then obtain x where x: "(new_controls (c # cs) n :: 'e session_error + _) = Inr (x # xs, n')" "new_control_ok c x"
    "point_list x = (if ?point then [unat n] else [])" by blast
  have "concat (map point_list (x # xs)) = [unat n..<unat n']"
    using x(3) IH(3,4) n1 by (auto simp: upt_conv_Cons)
  moreover have "list_all2 new_control_ok (c # cs) (x # xs)" using x(2) IH(2) by simp
  moreover have "unat n \<le> unat n'" "unat n' \<le> unat n + length (c # cs)" using IH(4,5) n1 by (auto split: if_splits)
  ultimately show ?case using x(1) by blast
qed simp

lemma distinct_concat_nth:
  "distinct (concat xss) \<Longrightarrow> i < j \<Longrightarrow> j < length xss \<Longrightarrow> set (xss ! i) \<inter> set (xss ! j) = {}"
proof (induction xss arbitrary: i j)
  case (Cons xs xss)
  obtain j' where j: "j = Suc j'" using Cons.prems(2) by (cases j) auto
  show ?case
  proof (cases i)
    case 0
    have "xss ! j' \<in> set xss" using Cons.prems(3) j by simp
    then have "set (xss ! j') \<subseteq> set (concat xss)" by auto
    with Cons.prems(1) 0 j show ?thesis by auto
  next
    case (Suc i')
    with Cons j show ?thesis by simp
  qed
qed simp

lemma distinct_concat_disjoint:
  assumes "distinct (concat xss)" "i < length xss" "j < length xss" "i \<noteq> j"
  shows "set (xss ! i) \<inter> set (xss ! j) = {}"
  using assms distinct_concat_nth [of xss i j] distinct_concat_nth [of xss j i]
  by (metis inf_commute linorder_neqE_nat)

lemma foldl_max: "(x \<in> insert a (set xs) \<longrightarrow> x \<le> foldl max a xs) \<and> foldl max a xs \<in> insert a (set xs)"
  for a :: "'a::linorder"
proof (induction xs arbitrary: a x)
  case (Cons y ys)
  from Cons [of x "max a y"] Cons [of "max a y" "max a y"] show ?case by (auto simp: max_def split: if_splits)
qed simp

lemma first_free_above:
  assumes "\<forall>c \<in> set cs. \<forall>k \<in> set (action_contacts (rb_action c)). unat k < N" "1 \<le> N" "N \<le> 65535"
  shows "\<forall>c \<in> set cs. \<forall>k \<in> set (action_contacts (rb_action c)). unat k < unat (first_free_contact cs)"
    and "1 \<le> unat (first_free_contact cs)" "unat (first_free_contact cs) \<le> N"
proof -
  let ?f = "\<lambda>c. case rb_action c of RVirtualJoystick j _ _ \<Rightarrow> Some (vj_contact_id j)
      | RMouseAim a s \<Rightarrow> Some (max (ma_contact_id a) (st_alternate s)) | _ \<Rightarrow> None"
  define m where "m = foldl max 0 (List.map_filter ?f cs)"
  have mem: "m \<in> insert 0 (set (List.map_filter ?f cs))" and ge: "\<And>x. x \<in> set (List.map_filter ?f cs) \<Longrightarrow> x \<le> m"
    unfolding m_def using foldl_max [of _ 0 "List.map_filter ?f cs"] by auto
  have "\<exists>c \<in> set cs. x \<in> set (action_contacts (rb_action c))" if "x \<in> set (List.map_filter ?f cs)" for x
  proof -
    from that obtain c where "c \<in> set cs" "?f c = Some x" by (auto simp: List.map_filter_def)
    then show ?thesis
      by (intro bexI [of _ c]) (auto simp: action_contacts_def max_def split: runtime_action.splits if_splits)
  qed
  with mem assms have "unat m < N" by fastforce
  with assms(3) have free: "unat (first_free_contact cs) = unat m + 1"
    unfolding first_free_contact_def m_def [symmetric] by (simp add: unat_usat_add)
  show "\<forall>c \<in> set cs. \<forall>k \<in> set (action_contacts (rb_action c)). unat k < unat (first_free_contact cs)"
  proof (intro ballI)
    fix c k assume c: "c \<in> set cs" "k \<in> set (action_contacts (rb_action c))"
    then obtain x where x: "?f c = Some x" "k \<le> x"
      by (auto simp: action_contacts_def split: runtime_action.splits)
    then have "x \<in> set (List.map_filter ?f cs)" using c(1) by (force simp: List.map_filter_def)
    then have "k \<le> m" using ge x(2) by fastforce
    then show "unat k < unat (first_free_contact cs)" using free by (simp add: word_le_nat_alt)
  qed
  show "1 \<le> unat (first_free_contact cs)" "unat (first_free_contact cs) \<le> N" using free \<open>unat m < N\<close> by simp_all
qed

lemma controller_new_sound:
  assumes "action_ok res (RMouseAim a s)" "controller_new a s = Inr c"
  shows "aim_inv c Map.empty" "mc_aim c = a" "mc_settings c = s"
  using assms by (auto simp: controller_new_def action_ok_def aim_inv_def aim_phase_inactive aim_config_ok_def
      region_validate_def region_ok_def not_less split: if_splits)

text \<open>The runtime of a sound plan exists and satisfies the invariant, with nothing on the surface.\<close>

lemma runtime_new_sound:
  assumes ok: "plan_ok plan" and size: "3 * length (pl_controls plan) < 65535"
  shows "\<exists>r. (runtime_new plan device :: 'e session_error + _) = Inr r \<and> session_inv hypot r \<and> down r = Map.empty
    \<and> ur_plan r = plan"
proof -
  let ?cs = "pl_controls plan" and ?len = "length (pl_controls plan)"
  obtain n where n: "plan_contacts ?cs = [1..<n]" "n \<le> 1 + 2 * ?len" using ok by (auto simp: plan_ok_def)
  define lists where "lists = map (\<lambda>c. map unat (action_contacts (rb_action c))) ?cs"
  have concat: "concat lists = [1..<n]" using n(1) by (simp add: plan_contacts_def lists_def map_concat comp_def)
  have below: "\<forall>c \<in> set ?cs. \<forall>k \<in> set (action_contacts (rb_action c)). unat k < max n 1"
  proof (intro ballI)
    fix c k assume "c \<in> set ?cs" "k \<in> set (action_contacts (rb_action c))"
    then have "unat k \<in> set (concat lists)" by (auto simp: lists_def)
    then show "unat k < max n 1" using concat by simp
  qed
  have "1 \<le> max n 1" "max n 1 \<le> 65535" using n(2) size by simp_all
  note free = first_free_above [OF below this]
  define N where "N = first_free_contact ?cs"
  have N: "1 \<le> unat N" "unat N \<le> 1 + 2 * ?len" using free(2,3) n(2) size by (simp_all add: N_def)
  have "distinct (action_contacts (rb_action c))" if "c \<in> set ?cs" for c
  proof -
    have "distinct (concat lists)" by (simp add: concat)
    moreover from that have "map unat (action_contacts (rb_action c)) \<in> set lists" by (simp add: lists_def)
    ultimately have "distinct (map unat (action_contacts (rb_action c)))" by (simp add: distinct_concat_iff)
    then show ?thesis by (simp add: distinct_map)
  qed
  then have pre: "\<forall>c \<in> set ?cs. action_ok (pl_resolution plan) (rb_action c) \<and> input_resolves (rb_input c)
      \<and> distinct (action_contacts (rb_action c))"
    using ok by (simp add: plan_ok_def)
  have "unat N + ?len \<le> 65535" using N size by simp
  from new_controls_total [OF pre this] obtain xs m where xs:
    "(new_controls ?cs N :: 'e session_error + _) = Inr (xs, m)" "list_all2 new_control_ok ?cs xs"
    "concat (map point_list xs) = [unat N..<unat m]" "unat N \<le> unat m" by blast
  have "layer_mask_bit (rl_id l) \<noteq> None" if l: "l \<in> set (pl_layers plan)" for l
  proof -
    have "rl_id l \<in> set (map rl_id (pl_layers plan))" using l by simp
    also have "map rl_id (pl_layers plan) = map (\<lambda>i. of_nat i + 1) [0..<length (pl_layers plan)]"
      using ok by (simp add: plan_ok_def)
    finally obtain i where "i < length (pl_layers plan)" "rl_id l = of_nat i + 1" by auto
    then show ?thesis using ok layer_mask_bit_nat [of i] by (simp add: plan_ok_def)
  qed
  then obtain table where table:
    "(new_layers (pl_layers plan) (replicate 46 None) :: 'e session_error + _) = Inr table"
    using new_layers_total by blast
  obtain r where r: "(runtime_new plan device :: 'e session_error + _) = Inr r" and plan: "ur_plan r = plan"
    and inputs: "ur_inputs r = map fst xs" and points: "ur_points r = map (\<lambda>(_, contact, _, _). contact) xs"
    and aims: "ur_aims r = map (\<lambda>(_, _, ctl, _). ctl) xs" and cursor: "ur_cursor_contact r = m"
    and toggles: "ur_toggle_keys r = map (\<lambda>(_, _, _, toggle). toggle) xs"
    and engine: "ur_engine r = engine_new device"
    and lens: "length (ur_directions r) = ?len" "length (ur_desired_directions r) = ?len"
      "length (ur_active r) = ?len" "length (ur_desired r) = ?len" "length (ur_last_frame r) = ?len"
      "length (ur_selected r) = PHYSICAL_INPUT_COUNT"
    and dirs: "\<And>i. i < ?len \<Longrightarrow> ur_directions r ! i = directional_neutral \<and> \<not> ur_active r ! i"
    using xs(1) table by (auto simp: runtime_new_def N_def [symmetric] Let_def)
  have len: "length xs = ?len" using xs(2) by (auto dest: list_all2_lengthD)
  have cnt: "control_count r = ?len" by (simp add: control_count_def plan)
  have down: "down r = Map.empty"
    by (simp add: engine engine_new_def touch_state_default_def contact_position_def fun_eq_iff)
  have at: "new_control_ok (?cs ! i) (xs ! i)" if "i < ?len" for i
    using list_all2_nthD [OF xs(2)] that by simp
  have act: "action_at r i = rb_action (?cs ! i)" for i by (simp add: action_at_def control_at_def plan)
  have own: "unat ` owned r i = set (lists ! i) \<union> set (map point_list xs ! i)" if "i < ?len" for i
    using that len by (cases "xs ! i") (auto simp: owned_def act lists_def points point_list_def split: option.splits)
  have lowhigh: "x < unat N" if "x \<in> set (lists ! i)" "i < ?len" for x i
    using that free(1) by (auto simp: lists_def N_def)
  have high: "unat N \<le> x \<and> x < unat m" if "x \<in> set (map point_list xs ! i)" "i < ?len" for x i
  proof -
    have "x \<in> set (concat (map point_list xs))" using that len by auto
    then show ?thesis by (simp add: xs(3))
  qed
  have disj: "owned r i \<inter> owned r j = {}" if ij: "i < ?len" "j < ?len" "i \<noteq> j" for i j
  proof -
    have "set (lists ! i) \<inter> set (lists ! j) = {}"
      using ij concat by (intro distinct_concat_disjoint) (simp_all add: lists_def)
    moreover have "set (map point_list xs ! i) \<inter> set (map point_list xs ! j) = {}"
      using ij len xs(3) by (intro distinct_concat_disjoint) simp_all
    moreover have "set (lists ! i) \<inter> set (map point_list xs ! j) = {}" "set (lists ! j) \<inter> set (map point_list xs ! i) = {}"
      using lowhigh high ij by fastforce+
    ultimately have "unat ` owned r i \<inter> unat ` owned r j = {}" unfolding own [OF ij(1)] own [OF ij(2)] by blast
    then show ?thesis by blast
  qed
  have cur: "m \<notin> owned r i" if i: "i < ?len" for i
  proof
    assume "m \<in> owned r i"
    then have "unat m \<in> unat ` owned r i" by (rule imageI)
    then show False using own [OF i] lowhigh [OF _ i] high [OF _ i] xs(4) by fastforce
  qed
  have ctl: "control_inv hypot r i" if i: "i < ?len" for i
  proof -
    obtain ci contact ctl toggle where x: "xs ! i = (ci, contact, ctl, toggle)" by (metis surj_pair)
    have fields: "ur_points r ! i = contact" "ur_aims r ! i = ctl" using i len x by (simp_all add: points aims)
    have "action_ok (pl_resolution plan) (rb_action (?cs ! i))" using pre i by simp
    with at [OF i] x fields dirs [OF i] show ?thesis
      by (cases "rb_action (?cs ! i)")
        (auto simp: new_control_ok_def control_inv_def act down joystick_target_neutral dest: controller_new_sound)
  qed
  have tog: "\<exists>a s. action_at r i = RMouseAim a s" if i: "i < ?len" "ur_toggle_keys r ! i \<noteq> None" for i
  proof -
    obtain ci contact ctl toggle where x: "xs ! i = (ci, contact, ctl, toggle)" by (metis surj_pair)
    with at [OF i(1)] i len show ?thesis
      by (cases "rb_action (?cs ! i)") (auto simp: new_control_ok_def act toggles)
  qed
  have "session_inv hypot r"
    unfolding session_inv_def session_shape_def Let_def cnt no_stray_contact_def
    using lens len disj cur ctl tog by (simp add: inputs points aims toggles cursor down)
  with r down plan show ?thesis by blast
qed

section \<open>Any session\<close>

text \<open>The calls the event loop makes on the runtime, with the time at which it makes them. A run stops
  at the first error, as the event loop does.\<close>

datatype session_call =
    ScStart | ScKey host_key_event | ScMouse mouse_event | ScTick | ScSuspend | ScRestoreAim bool
  | ScAimEnabled bool | ScReleaseButtons | ScCursorDown point | ScCursorMove point | ScCursorUp

fun session_call_exec ::
  "(f64 \<Rightarrow> f64 \<Rightarrow> f64) \<Rightarrow> ('i, 'e) inject_fn \<Rightarrow> session_call \<times> duration \<Rightarrow> 'i unified_runtime
     \<Rightarrow> ('i, 'e, unit) session_st" where
  "session_call_exec hypot inject (ScStart, now) r = runtime_start inject now r"
| "session_call_exec hypot inject (ScKey ev, now) r = void (handle_keyboard hypot inject now ev r)"
| "session_call_exec hypot inject (ScMouse ev, now) r = void (handle_mouse hypot inject now ev r)"
| "session_call_exec hypot inject (ScTick, now) r = runtime_tick inject now r"
| "session_call_exec hypot inject (ScSuspend, now) r = runtime_suspend inject r"
| "session_call_exec hypot inject (ScRestoreAim b, now) r = restore_aim inject now b r"
| "session_call_exec hypot inject (ScAimEnabled b, now) r = set_aim_enabled inject now b r"
| "session_call_exec hypot inject (ScReleaseButtons, now) r = release_mouse_buttons hypot inject now r"
| "session_call_exec hypot inject (ScCursorDown p, now) r = cursor_down inject p r"
| "session_call_exec hypot inject (ScCursorMove p, now) r = cursor_move inject p r"
| "session_call_exec hypot inject (ScCursorUp, now) r = cursor_up inject r"

fun session_calls ::
  "(f64 \<Rightarrow> f64 \<Rightarrow> f64) \<Rightarrow> ('i, 'e) inject_fn \<Rightarrow> (session_call \<times> duration) list \<Rightarrow> 'i unified_runtime
     \<Rightarrow> ('i, 'e, unit) session_st" where
  "session_calls hypot inject [] r = (r, Inr ())"
| "session_calls hypot inject (x # xs) r =
     andThen (session_call_exec hypot inject x r) (\<lambda>r' _. session_calls hypot inject xs r')"

lemma session_call_ok: "session_inv hypot r \<Longrightarrow> session_ok hypot r (session_call_exec hypot inject (call, now) r)"
  by (cases call)
    (simp_all add: session_ok_void runtime_start_ok handle_keyboard_ok handle_mouse_ok runtime_tick_ok
      runtime_suspend_ok restore_aim_ok set_aim_enabled_ok release_mouse_buttons_ok cursor_down_ok
      cursor_move_ok cursor_up_ok)

lemma session_calls_ok: "session_inv hypot r \<Longrightarrow> session_ok hypot r (session_calls hypot inject calls r)"
proof (induction calls arbitrary: r)
  case (Cons x xs)
  obtain call now where x: "x = (call, now)" by fastforce
  show ?case unfolding x session_calls.simps
    by (rule session_ok_andThen [OF session_call_ok [OF Cons.prems]]) (rule Cons.IH)
qed (simp add: session_ok_return)

lemma plan_controls_length: "plan_controls siblings res bs n = Some (Inr cs) \<Longrightarrow> length cs = length bs"
proof (induction bs arbitrary: n cs)
  case (Cons x bs)
  obtain b l where x: "x = (b, l)" by fastforce
  from Cons.prems obtain n1 cs' c where "plan_controls siblings res bs n1 = Some (Inr cs')" "cs = c # cs'"
    unfolding x plan_controls_Cons by blast
  with Cons.IH show ?case by simp
qed simp

lemma plan_length:
  assumes "from_profile_v2 p res = Some (Inr plan)" shows "length (pl_controls plan) = length (p2_bindings p)"
proof (cases rule: from_profile_v2_cases [of p res])
  case (plan ids layers keys controls)
  have "length controls = length (zip (p2_bindings p) ids)" by (rule plan_controls_length [OF plan(5)])
  also have "\<dots> = length (p2_bindings p)"
    using collect_results_length [OF plan(2) [unfolded resolve_binding_layers_def]] by simp
  finally show ?thesis using plan(6) assms by auto
qed (use assms in auto)

text \<open>C12. From profile to touch: a session on any plan the profile gives can be built, and whatever
  keyboard, mouse, cursor, tick, mode and suspension calls follow, every binding keeps to its own
  contacts with its own state, and the only error there is is a failure of the injector.\<close>

theorem session_safe:
  assumes plan: "from_profile_v2 p res = Some (Inr plan)" and dim: "0 < rwidth res" "0 < rheight res"
    and size: "3 * length (p2_bindings p) < 65535"
  shows "case runtime_new plan device :: 'e session_error + 'i unified_runtime of
      Inl err \<Rightarrow> False
    | Inr r \<Rightarrow>
        (case session_calls hypot (inject :: ('i, 'e) inject_fn) calls r of
           (r', Inr _) \<Rightarrow> session_inv hypot r'
         | (r', Inl err) \<Rightarrow> session_only_injection err)"
proof -
  have "plan_ok plan" by (rule plan_of_valid_profile [OF plan dim]) (use size in simp)
  then obtain r where r: "(runtime_new plan device :: 'e session_error + _) = Inr r" "session_inv hypot r"
    using runtime_new_sound [of plan device hypot] size plan_length [OF plan] by auto
  show ?thesis using session_calls_ok [OF r(2), of inject calls]
    by (auto simp: r(1) session_ok_def split: prod.splits sum.splits)
qed

lemma session_safe_witness:
  "\<exists>plan r. from_profile_v2 example_profile_v2 \<lparr>rwidth = 1920, rheight = 1080\<rparr> = Some (Inr plan)
     \<and> (runtime_new plan () :: unit session_error + unit unified_runtime) = Inr r
     \<and> (case session_calls (\<lambda>x y. f_one) (\<lambda>i f. (i, Inr () :: unit + unit))
            [(ScStart, 0), (ScMouse (MButton MbLeft KPressed), 7), (ScTick, 9), (ScSuspend, 12)] r of
          (r', Inr _) \<Rightarrow> session_inv (\<lambda>x y. f_one) r' | (r', Inl err) \<Rightarrow> session_only_injection err)"
proof -
  let ?res = "\<lparr>rwidth = 1920, rheight = 1080\<rparr>"
  obtain plan where p: "from_profile_v2 example_profile_v2 ?res = Some (Inr plan)"
    using from_profile_v2_accepts [OF example_profile_v2_ok(1) _ _ example_profile_v2_ok(2), of ?res] by auto
  have "3 * length (p2_bindings example_profile_v2) < 65535" by (simp add: example_profile_v2_def)
  note safe = session_safe [OF p _ _ this, where device = "()" and 'e = unit and inject = "\<lambda>i f. (i, Inr ())"
      and hypot = "\<lambda>x y. f_one"
      and calls = "[(ScStart, 0), (ScMouse (MButton MbLeft KPressed), 7), (ScTick, 9), (ScSuspend, 12)]", simplified]
  show ?thesis
  proof (cases "runtime_new plan () :: unit session_error + unit unified_runtime")
    case (Inr r)
    with p safe show ?thesis by (intro exI [of _ plan] exI [of _ r]) simp
  qed (use safe in simp)
qed

end
