(* ===== verification/SessionSpec.thy ===== *)
theory SessionSpec
  imports SessionRun
begin

text \<open>
  What the held inputs amount to on the touch surface: which binding a shared input drives, and the
  contacts after a reconciliation.
\<close>

section \<open>What reconciliation achieves\<close>

lemma ran_at_idle:
  assumes "ran_at body i r r'" and "\<And>r1. same_config r r1 \<Longrightarrow> body i r1 = (r1, Inr False)"
  shows "same_binding i r r'" "same_held r r'"
proof -
  from assms(1) obtain r1 r2 x where 1: "same_config r r1" "same_held r r1" "same_binding i r r1" "body i r1 = (r2, Inr x)"
    "same_config r2 r'" "same_held r2 r'" "same_binding i r2 r'" unfolding ran_at_def by blast
  with assms(2) have "r2 = r1" by simp
  with 1 show "same_binding i r r'" "same_held r r'"
    using same_binding_trans [OF 1(1)] same_held_trans by blast+
qed

lemma switch_hold_active:
  "switch_hold inject i p pressed r = (r', Inr x) \<Longrightarrow> i < length (ur_active r) \<Longrightarrow> ur_active r' ! i = pressed"
  by (auto simp: switch_hold_def with_point_def engine_call_def andThen_Inr_iff split: sum.splits prod.splits)

lemma direct_joystick_directions:
  "direct_joystick hypot inject now i j d r = (r', Inr x) \<Longrightarrow> i < length (ur_directions r) \<Longrightarrow> ur_directions r' ! i = d"
  by (auto simp: direct_joystick_def split: sum.splits prod.splits)

lemma ran_release_hold:
  assumes ran: "ran_at (release_hold inject) i r r'" and a: "action_at r i = RHold p" and i: "i < length (ur_active r)"
  shows "ur_active r' ! i = (ur_active r ! i \<and> ur_desired r ! i)"
proof -
  from ran obtain r1 r2 x where 1: "same_config r r1" "same_held r r1" "same_binding i r r1"
    "release_hold inject i r1 = (r2, Inr x)" "same_binding i r2 r'" unfolding ran_at_def by blast
  have "action_at r1 i = RHold p" "ur_active r1 ! i = ur_active r ! i" "ur_desired r1 = ur_desired r"
    "i < length (ur_active r1)"
    using 1 a i by (simp_all add: same_config_simps same_binding_def same_held_def) (simp add: same_config_def)
  then have "ur_active r2 ! i = (ur_active r ! i \<and> ur_desired r ! i)"
    using 1(4) by (auto simp: release_hold_def dest: switch_hold_active split: if_splits)
  then show ?thesis using 1(5) by (simp add: same_binding_def)
qed

lemma ran_press_hold:
  assumes ran: "ran_at (press_control hypot inject now) i r r'" and a: "action_at r i = RHold p"
    and i: "i < length (ur_active r)"
  shows "ur_active r' ! i = (ur_active r ! i \<or> ur_desired r ! i)"
proof -
  from ran obtain r1 r2 x where 1: "same_config r r1" "same_held r r1" "same_binding i r r1"
    "press_control hypot inject now i r1 = (r2, Inr x)" "same_binding i r2 r'" unfolding ran_at_def by blast
  have "action_at r1 i = RHold p" "ur_active r1 ! i = ur_active r ! i" "ur_desired r1 = ur_desired r"
    "i < length (ur_active r1)"
    using 1 a i by (simp_all add: same_config_simps same_binding_def same_held_def) (simp add: same_config_def)
  then have "ur_active r2 ! i = (ur_active r ! i \<or> ur_desired r ! i)"
    using 1(4) by (auto simp: press_control_def dest: switch_hold_active split: if_splits)
  then show ?thesis using 1(5) by (simp add: same_binding_def)
qed

lemma ran_press_joystick:
  assumes ran: "ran_at (press_control hypot inject now) i r r'" and a: "action_at r i = RVirtualJoystick j m rf"
    and i: "i < length (ur_directions r)"
  shows "ur_directions r' ! i = ur_desired_directions r ! i"
proof -
  from ran obtain r1 r2 x where 1: "same_config r r1" "same_held r r1" "same_binding i r r1"
    "press_control hypot inject now i r1 = (r2, Inr x)" "same_binding i r2 r'" unfolding ran_at_def by blast
  have "action_at r1 i = RVirtualJoystick j m rf" "ur_desired_directions r1 = ur_desired_directions r"
    "i < length (ur_directions r1)"
    using 1 a i by (simp_all add: same_config_simps same_held_def) (simp add: same_config_def)
  then have "ur_directions r2 ! i = ur_desired_directions r ! i"
    using 1(4) by (auto simp: press_control_def dest: direct_joystick_directions split: if_splits)
  then show ?thesis using 1(5) by (simp add: same_binding_def)
qed

text \<open>The three passes, seen from one binding.\<close>

lemma reconcile_passes:
  assumes inv: "session_inv hypot r" and res: "reconcile_continuous hypot inject now r = (r', Inr s)"
    and i: "i < control_count r"
  obtains r0 r1 r2 where "r0 = compute_desired (refresh_selected r)" "same_config r r0" "same_config r r'"
    "session_inv hypot r'" "same_config r r1" "same_config r r2" "same_held r0 r1" "same_held r1 r2"
    "ran_at (release_joystick hypot inject now) i r0 r1" "ran_at (release_hold inject) i r1 r2"
    "ran_at (press_control hypot inject now) i r2 r'"
proof -
  define r0 where "r0 = compute_desired (refresh_selected r)"
  note r0 = refresh_inv(1) [OF inv, folded r0_def] same_setting_config [OF refresh_inv(2) [OF inv, folded r0_def]]
    refresh_inv(3) [OF inv, folded r0_def]
  let ?is = "[0..<control_count r]"
  from res obtain r1 a where 1: "for_each (release_joystick hypot inject now) ?is r0 = (r1, Inr a)"
    by (auto simp: reconcile_continuous_def Let_def andThen_Inr_iff r0_def)
  from res 1 obtain r2 b where 2: "for_each (release_hold inject) ?is r1 = (r2, Inr b)"
    by (auto simp: reconcile_continuous_def Let_def andThen_Inr_iff r0_def)
  from res 1 2 obtain c where 3: "for_each (press_control hypot inject now) ?is r2 = (r', Inr c)"
    by (auto simp: reconcile_continuous_def Let_def andThen_Inr_iff r0_def)
  have s1: "same_config r0 r1" "same_held r0 r1" "session_inv hypot r1" "ran_at (release_joystick hypot inject now) i r0 r1"
    using for_all_safe(2) [OF safe_release_joystick r0(1), unfolded r0(3), OF 1] i by blast+
  have n1: "control_count r1 = control_count r" using r0(3) same_config_simps(1) [OF s1(1)] by simp
  have s2: "same_config r1 r2" "same_held r1 r2" "session_inv hypot r2" "ran_at (release_hold inject) i r1 r2"
    using for_all_safe(2) [OF safe_release_hold s1(3), unfolded n1, OF 2] i by blast+
  have n2: "control_count r2 = control_count r" using n1 same_config_simps(1) [OF s2(1)] by simp
  have s3: "same_config r2 r'" "session_inv hypot r'" "ran_at (press_control hypot inject now) i r2 r'"
    using for_all_safe(2) [OF safe_press_control s2(3), unfolded n2, OF 3] i by blast+
  have cfg: "same_config r r1" "same_config r r2" "same_config r r'"
    using r0(2) s1(1) s2(1) s3(1) same_config_trans by blast+
  show thesis by (rule that [OF r0_def r0(2) cfg(3) s3(2) cfg(1,2) s1(2) s2(2) s1(4) s2(4) s3(3)])
qed

lemma desired_at:
  assumes "i < control_count r"
  shows "ur_desired (compute_desired (refresh_selected r)) ! i = fst (desired_state (refresh_selected r) i)"
    "ur_desired_directions (compute_desired (refresh_selected r)) ! i = snd (desired_state (refresh_selected r) i)"
  using assms by (simp_all add: compute_desired_def refresh_selected_def control_count_def)

lemma reconcile_hold:
  assumes inv: "session_inv hypot r" and res: "reconcile_continuous hypot inject now r = (r', Inr s)"
    and i: "i < control_count r" and a: "action_at r i = RHold p"
  obtains c where "ur_points r ! i = Some c"
    "down r' c = (if fst (desired_state (refresh_selected r) i) then Some p else None)"
proof (rule reconcile_passes [OF inv res i])
  fix r0 r1 r2
  assume r0: "r0 = compute_desired (refresh_selected r)" and cfg: "same_config r r0" "same_config r r'"
    and inv': "session_inv hypot r'" and cfg1: "same_config r r1" "same_config r r2"
    and held: "same_held r0 r1" "same_held r1 r2"
    and ran: "ran_at (release_joystick hypot inject now) i r0 r1" "ran_at (release_hold inject) i r1 r2"
      "ran_at (press_control hypot inject now) i r2 r'"
  have len: "length (ur_active s) = control_count r" if "same_config r s" for s
    using shape_lengths [OF inv] that by (simp add: same_config_def)
  have "ur_active r2 ! i = (ur_active r1 ! i \<and> ur_desired r1 ! i)"
    using ran_release_hold [OF ran(2)] a i len [OF cfg1(1)] by (simp add: same_config_simps [OF cfg1(1)])
  moreover have "ur_active r' ! i = (ur_active r2 ! i \<or> ur_desired r2 ! i)"
    using ran_press_hold [OF ran(3)] a i len [OF cfg1(2)] by (simp add: same_config_simps [OF cfg1(2)])
  moreover have "ur_desired r1 = ur_desired r0" "ur_desired r2 = ur_desired r0"
    using held by (simp_all add: same_held_def)
  ultimately have act: "ur_active r' ! i = fst (desired_state (refresh_selected r) i)"
    using desired_at [OF i] r0 by auto
  have pts: "ur_points r' = ur_points r" using cfg(2) by (simp add: same_config_def)
  have "control_inv hypot r' i" using inv' i by (simp add: session_inv_def same_config_simps [OF cfg(2)])
  then show thesis using that a act pts by (auto simp: control_inv_def same_config_simps [OF cfg(2)])
qed

lemma reconcile_joystick:
  assumes inv: "session_inv hypot r" and res: "reconcile_continuous hypot inject now r = (r', Inr s)"
    and i: "i < control_count r" and a: "action_at r i = RVirtualJoystick j m rf"
  shows "down r' (vj_contact_id j) = joystick_target hypot j (snd (desired_state (refresh_selected r) i))"
proof (rule reconcile_passes [OF inv res i])
  fix r0 r1 r2
  assume r0: "r0 = compute_desired (refresh_selected r)" and cfg: "same_config r r0" "same_config r r'"
    and inv': "session_inv hypot r'" and cfg1: "same_config r r1" "same_config r r2"
    and held: "same_held r0 r1" "same_held r1 r2"
    and ran: "ran_at (release_joystick hypot inject now) i r0 r1" "ran_at (release_hold inject) i r1 r2"
      "ran_at (press_control hypot inject now) i r2 r'"
  have "length (ur_directions r2) = control_count r"
    using shape_lengths [OF inv] cfg1(2) by (simp add: same_config_def)
  then have "ur_directions r' ! i = ur_desired_directions r2 ! i"
    using ran_press_joystick [OF ran(3)] a i by (simp add: same_config_simps [OF cfg1(2)])
  also have "ur_desired_directions r2 = ur_desired_directions r0" using held by (simp add: same_held_def)
  finally have "ur_directions r' ! i = snd (desired_state (refresh_selected r) i)" using desired_at [OF i] r0 by simp
  moreover have "control_inv hypot r' i" using inv' i by (simp add: session_inv_def same_config_simps [OF cfg(2)])
  ultimately show ?thesis using a by (simp add: control_inv_def same_config_simps [OF cfg(2)])
qed

lemma reconcile_idle_binding:
  assumes inv: "session_inv hypot r" and res: "reconcile_continuous hypot inject now r = (r', Inr s)"
    and i: "i < control_count r" and a: "case action_at r i of RTap _ \<Rightarrow> True | RMouseAim _ _ \<Rightarrow> True | _ \<Rightarrow> False"
  shows "\<forall>k \<in> owned r i. down r' k = down r k"
proof (rule reconcile_passes [OF inv res i])
  fix r0 r1 r2
  assume r0: "r0 = compute_desired (refresh_selected r)" and cfg: "same_config r r0" "same_config r r'"
    and cfg1: "same_config r r1" "same_config r r2"
    and ran: "ran_at (release_joystick hypot inject now) i r0 r1" "ran_at (release_hold inject) i r1 r2"
      "ran_at (press_control hypot inject now) i r2 r'"
  have idle: "release_joystick hypot inject now i u = (u, Inr False)" "release_hold inject i u = (u, Inr False)"
    "press_control hypot inject now i u = (u, Inr False)" if "same_config r u" for u
    using a by (auto simp: release_joystick_def release_hold_def press_control_def same_config_simps [OF that]
        split: runtime_action.splits)
  have "down r0 = down r" by (simp add: r0 compute_desired_def refresh_selected_def)
  moreover have "same_binding i r0 r1"
    by (rule ran_at_idle(1) [OF ran(1)]) (use idle(1) cfg(1) same_config_trans in blast)
  moreover have "same_binding i r1 r2"
    by (rule ran_at_idle(1) [OF ran(2)]) (use idle(2) cfg1(1) same_config_trans in blast)
  moreover have "same_binding i r2 r'"
    by (rule ran_at_idle(1) [OF ran(3)]) (use idle(3) cfg1(2) same_config_trans in blast)
  ultimately show ?thesis
    by (simp add: same_binding_def same_config_simps [OF cfg(1)] same_config_simps [OF cfg1(1)]
        same_config_simps [OF cfg1(2)])
qed

section \<open>A session with one binding\<close>

definition example_hold :: runtime_binding where
  "example_hold =
     \<lparr>rb_name = ''crouch'', rb_input = I2Key ''C'', rb_action = RHold \<lparr>px = 300, py = 900\<rparr>, rb_layer = LAYER_BASE,
      rb_modifier = None, rb_suppression = suppression_new\<rparr>"

definition example_plan :: control_plan where
  "example_plan =
     \<lparr>pl_profile_name = ''demo'', pl_package_name = ''com.example'', pl_resolution = \<lparr>rwidth = 1920, rheight = 1080\<rparr>,
      pl_layers = [], pl_modifier_keys = MASK_EMPTY, pl_controls = [example_hold]\<rparr>"

definition no_libm :: "f64 \<Rightarrow> f64 \<Rightarrow> f64" where "no_libm x y = x"

definition quiet_injector :: "(unit, unit) inject_fn" where "quiet_injector i f = (i, Inr ())"

definition hold_session :: "bool \<Rightarrow> modifier_mask \<Rightarrow> unit unified_runtime" where
  "hold_session active held =
     \<lparr>ur_plan = example_plan,
      ur_engine = \<lparr>injector = (), engine_state = \<lparr>active_contacts =
        (if active then RBT.insert 1 \<lparr>px = 300, py = 900\<rparr> RBT.empty else RBT.empty)\<rparr>\<rparr>,
      ur_inputs = [CiKey KC], ur_layer_controls = replicate 46 None, ur_directions = [directional_neutral],
      ur_desired_directions = [directional_neutral], ur_active = [active], ur_desired = [active],
      ur_selected = replicate PHYSICAL_INPUT_COUNT None, ur_points = [Some 1], ur_cursor_contact = 2,
      ur_aims = [None], ur_toggle_keys = [None], ur_last_frame = [None], ur_active_layers = 0,
      ur_held_keys = held, ur_held_modifiers = MASK_EMPTY, ur_held_buttons = 0, ur_pipeline = [], ur_kernel = [],
      ur_rejected = 0\<rparr>"

lemma hold_session_fields [simp]:
  "control_count (hold_session a h) = 1" "action_at (hold_session a h) 0 = RHold \<lparr>px = 300, py = 900\<rparr>"
  "ur_points (hold_session a h) = [Some 1]" "ur_held_keys (hold_session a h) = h"
  "ur_held_buttons (hold_session a h) = 0"
  by (simp_all add: hold_session_def control_count_def action_at_def control_at_def example_plan_def example_hold_def)

lemma hold_session_down: "down (hold_session a h) = (if a then [1 \<mapsto> \<lparr>px = 300, py = 900\<rparr>] else Map.empty)"
  by (auto simp: hold_session_def contact_position_def fun_eq_iff)

lemma hold_session_inv: "session_inv hypot (hold_session a h)"
proof -
  have own: "owned (hold_session a h) 0 = {1}"
    by (simp add: owned_def action_contacts_def)
  have "session_shape (hold_session a h)"
    unfolding session_shape_def Let_def hold_session_fields
    by (simp add: own) (simp add: hold_session_def)
  moreover have "no_stray_contact (hold_session a h)"
    by (simp add: no_stray_contact_def hold_session_down own)
  moreover have "control_inv hypot (hold_session a h) 0"
    by (simp add: control_inv_def hold_session_down) (simp add: hold_session_def)
  ultimately show ?thesis by (simp add: session_inv_def)
qed

abbreviation key_down_session :: "unit unified_runtime" where
  "key_down_session \<equiv> hold_session False (mask_from_key KC)"

abbreviation key_up_session :: "unit unified_runtime" where "key_up_session \<equiv> hold_session True MASK_EMPTY"

lemma key_down_eval: "snd (reconcile_continuous no_libm quiet_injector 5 key_down_session) = Inr True"
  by code_simp

lemma key_up_eval: "snd (reconcile_continuous no_libm quiet_injector 9 key_up_session) = Inr True"
  by code_simp

text \<open>C3. A reconciliation that returns has put every binding where the held inputs want it: a hold's
  contact is down at its point exactly when its input is held, available and no layer key; a joystick's
  contact is at the target of its wanted directions, or up when there are none; taps and the mouse aim are
  left alone.\<close>

theorem reconcile_spec:
  assumes inv: "session_inv hypot r" and res: "reconcile_continuous hypot inject now r = (r', Inr s)"
    and i: "i < control_count r"
  shows "case action_at r i of
      RHold p \<Rightarrow> \<exists>c. ur_points r ! i = Some c
        \<and> down r' c = (if fst (desired_state (refresh_selected r) i) then Some p else None)
    | RVirtualJoystick j _ _ \<Rightarrow>
        down r' (vj_contact_id j) = joystick_target hypot j (snd (desired_state (refresh_selected r) i))
    | _ \<Rightarrow> \<forall>k \<in> owned r i. down r' k = down r k"
proof (cases "action_at r i")
  case (RHold p)
  obtain c where "ur_points r ! i = Some c"
      "down r' c = (if fst (desired_state (refresh_selected r) i) then Some p else None)"
    by (rule reconcile_hold [OF inv res i RHold])
  then have "\<exists>c. ur_points r ! i = Some c
      \<and> down r' c = (if fst (desired_state (refresh_selected r) i) then Some p else None)" by (intro exI conjI)
  then show ?thesis by (simp only: RHold runtime_action.case)
next
  case (RVirtualJoystick j m rf)
  with reconcile_joystick [OF inv res i RVirtualJoystick] show ?thesis by simp
next
  case (RTap p)
  then show ?thesis using reconcile_idle_binding [OF inv res i] by simp
next
  case (RMouseAim a s)
  then show ?thesis using reconcile_idle_binding [OF inv res i] by simp
qed

lemma reconcile_spec_witness:
  "\<exists>r'. reconcile_continuous no_libm quiet_injector 5 key_down_session = (r', Inr True)
     \<and> down r' 1 = Some \<lparr>px = 300, py = 900\<rparr>"
proof -
  obtain r' where r': "reconcile_continuous no_libm quiet_injector 5 key_down_session = (r', Inr True)"
    using key_down_eval by (metis prod.collapse)
  have "fst (desired_state (refresh_selected key_down_session) 0)" by code_simp
  with reconcile_spec [OF hold_session_inv r', of 0] r' show ?thesis by simp
qed

section \<open>Which binding a shared input drives\<close>

lemma physical_input_index_lt: "physical_input_index inp < PHYSICAL_INPUT_COUNT"
proof (cases inp)
  case (PKey k)
  then show ?thesis using key_index_nth(2) [of k] by (simp add: physical_input_index_def PHYSICAL_INPUT_COUNT_def)
next
  case (PMouseButton b)
  then show ?thesis by (cases b) (simp_all add: physical_input_index_def PHYSICAL_INPUT_COUNT_def)
qed

lemma physical_input_index_inject: "physical_input_index a = physical_input_index b \<longleftrightarrow> a = b"
proof -
  have "button_index x = button_index y \<longleftrightarrow> x = y" for x y by (cases x; cases y) simp_all
  moreover have "key_index k \<noteq> 46 + n" "46 + n \<noteq> key_index k" for k n using key_index_nth(2) [of k] by linarith+
  ultimately show ?thesis by (cases a; cases b) (simp_all add: physical_input_index_def key_index_inject)
qed

definition outranked :: "layer_id option list \<Rightarrow> physical_input \<Rightarrow> layer_id \<Rightarrow> bool" where
  "outranked selected inp layer \<longleftrightarrow>
     (case selected ! physical_input_index inp of None \<Rightarrow> False | Some l \<Rightarrow> layer = LAYER_BASE \<or> layer < l)"

lemma active_not_base: "layer_is_active active l \<Longrightarrow> l \<noteq> 0"
  by (auto simp: layer_is_active_def layer_mask_bit_def)

lemma select_input_outranked:
  assumes "length sel = PHYSICAL_INPUT_COUNT"
  shows "outranked (select_input_layer c active x sel) inp l \<longleftrightarrow>
    outranked sel inp l \<or> (layer_is_active active (rb_layer c) \<and> inp = x \<and> l < rb_layer c)"
proof -
  have "l = 0 \<Longrightarrow> layer_is_active active (rb_layer c) \<Longrightarrow> l < rb_layer c"
    using active_not_base [of active "rb_layer c"] by (simp add: word_neq_0_conv)
  then show ?thesis
    using assms physical_input_index_lt [of x] physical_input_index_inject [of inp x]
    by (cases "inp = x")
      (auto simp: outranked_def select_input_layer_def Let_def LAYER_BASE_def nth_list_update split: option.splits)
qed

lemma fold_select_input_outranked:
  "length sel = PHYSICAL_INPUT_COUNT \<Longrightarrow>
    outranked (fold (select_input_layer c active) xs sel) inp l \<longleftrightarrow>
      outranked sel inp l \<or> (layer_is_active active (rb_layer c) \<and> inp \<in> set xs \<and> l < rb_layer c)"
proof (induction xs arbitrary: sel)
  case (Cons x xs)
  have "length (select_input_layer c active x sel) = PHYSICAL_INPUT_COUNT"
    using Cons.prems fold_select_length [of c active "[x]" sel] by simp
  from Cons.IH [OF this] show ?case by (auto simp: select_input_outranked [OF Cons.prems])
qed simp

lemma fold_select_control_outranked:
  "length sel = PHYSICAL_INPUT_COUNT \<Longrightarrow>
    outranked (fold (select_control active) cs sel) inp l \<longleftrightarrow>
      outranked sel inp l \<or> (\<exists>(c, ci) \<in> set cs. layer_is_active active (rb_layer c)
        \<and> inp \<in> set (control_input_physical ci) \<and> l < rb_layer c)"
proof (induction cs arbitrary: sel)
  case (Cons x cs)
  obtain c ci where x: "x = (c, ci)" by fastforce
  have len: "length (select_control active x sel) = PHYSICAL_INPUT_COUNT"
    using Cons.prems fold_select_control_length [of active "[x]" sel] by simp
  have "outranked (select_control active x sel) inp l \<longleftrightarrow> outranked sel inp l \<or>
      (layer_is_active active (rb_layer c) \<and> inp \<in> set (control_input_physical ci) \<and> l < rb_layer c)"
    using fold_select_input_outranked [OF Cons.prems] active_not_base
    by (auto simp: x select_control_def LAYER_BASE_def)
  with Cons.IH [OF len] show ?case by (auto simp: x)
qed simp

lemma outranked_none: "\<not> outranked (replicate PHYSICAL_INPUT_COUNT None) inp l"
  using physical_input_index_lt [of inp] by (simp add: outranked_def)

text \<open>C9. Layer precedence: once the layers are selected, an input drives a binding exactly when the
  binding's own conditions hold (its layer is the base or active, its modifier is held, no modifier of a
  sibling binding is) and no binding on a higher active layer uses the same input.\<close>

theorem layer_precedence:
  assumes inv: "session_inv hypot r"
  shows "available (refresh_selected r) i inp \<longleftrightarrow>
    binding_condition_available (control_at r i) inp (ur_active_layers r) (ur_held_modifiers r)
    \<and> \<not> (\<exists>j < control_count r. layer_is_active (ur_active_layers r) (rb_layer (control_at r j))
          \<and> inp \<in> set (control_input_physical (ur_inputs r ! j))
          \<and> rb_layer (control_at r i) < rb_layer (control_at r j))"
proof -
  let ?r = "refresh_selected r" and ?l = "rb_layer (control_at r i)"
  have sel: "length (ur_selected r) = PHYSICAL_INPUT_COUNT" and inputs: "length (ur_inputs r) = control_count r"
    using inv by (simp_all add: session_inv_def session_shape_def Let_def)
  have fields: "control_at ?r i = control_at r i" "ur_active_layers ?r = ur_active_layers r"
    "ur_held_modifiers ?r = ur_held_modifiers r"
    by (simp_all add: refresh_selected_def control_at_def)
  have "outranked (ur_selected ?r) inp ?l \<longleftrightarrow>
      (\<exists>(c, ci) \<in> set (zip (pl_controls (ur_plan r)) (ur_inputs r)). layer_is_active (ur_active_layers r) (rb_layer c)
        \<and> inp \<in> set (control_input_physical ci) \<and> ?l < rb_layer c)"
    by (simp add: refresh_selected_def sel fold_select_control_outranked outranked_none)
  also have "\<dots> \<longleftrightarrow> (\<exists>j < control_count r. layer_is_active (ur_active_layers r) (rb_layer (control_at r j))
          \<and> inp \<in> set (control_input_physical (ur_inputs r ! j)) \<and> ?l < rb_layer (control_at r j))"
    using inputs by (force simp: set_zip control_count_def control_at_def)
  finally show ?thesis
    unfolding available_def binding_available_def fields outranked_def [symmetric] by blast
qed

lemma layer_precedence_witness: "available (refresh_selected key_down_session) 0 (PKey KC)"
proof -
  have "binding_condition_available (control_at key_down_session 0) (PKey KC) (ur_active_layers key_down_session)
      (ur_held_modifiers key_down_session)" "rb_layer (control_at key_down_session 0) = LAYER_BASE"
    by code_simp+
  then show ?thesis
    using layer_precedence [OF hold_session_inv, of False "mask_from_key KC" 0 "PKey KC"] by simp
qed

text \<open>C6. No stuck input: after every key and button is released, a reconciliation that returns has every
  hold's contact up and the contact of every joystick that follows held keys up.\<close>

theorem no_stuck_input:
  assumes inv: "session_inv hypot r" and res: "reconcile_continuous hypot inject now r = (r', Inr s)"
    and i: "i < control_count r" and keys: "ur_held_keys r = MASK_EMPTY" and buttons: "ur_held_buttons r = 0"
  shows "case action_at r i of
      RHold p \<Rightarrow> \<exists>c. ur_points r ! i = Some c \<and> down r' c = None
    | RVirtualJoystick j JHold _ \<Rightarrow> down r' (vj_contact_id j) = None
    | _ \<Rightarrow> True"
proof -
  let ?r = "refresh_selected r"
  have key: "\<not> key_desired ?r i k" for k
    by (simp add: key_desired_def refresh_selected_def keys mask_contains_bit MASK_EMPTY_def)
  have button: "\<not> mouse_button_held (ur_held_buttons ?r) b" for b
    by (simp add: mouse_button_held_def refresh_selected_def buttons)
  have act: "action_at ?r i = action_at r i" by (simp add: refresh_selected_def action_at_def control_at_def)
  show ?thesis
  proof (cases "action_at r i")
    case (RHold p)
    then have "\<not> fst (desired_state ?r i)"
      by (auto simp: desired_state_def act key button split: control_input.splits)
    moreover obtain c where "ur_points r ! i = Some c" "down r' c = (if fst (desired_state ?r i) then Some p else None)"
      by (rule reconcile_hold [OF inv res i RHold])
    ultimately show ?thesis by (simp add: RHold)
  next
    case (RVirtualJoystick j m rf)
    then have "m = JHold \<Longrightarrow> snd (desired_state ?r i) = directional_neutral"
      by (auto simp: desired_state_def act key directional_neutral_def split: control_input.splits)
    with RVirtualJoystick reconcile_joystick [OF inv res i RVirtualJoystick] show ?thesis
      by (cases m) (simp_all add: joystick_target_neutral)
  qed simp_all
qed

lemma no_stuck_input_witness:
  "\<exists>r'. reconcile_continuous no_libm quiet_injector 9 key_up_session = (r', Inr True) \<and> down r' 1 = None"
proof -
  obtain r' where r': "reconcile_continuous no_libm quiet_injector 9 key_up_session = (r', Inr True)"
    using key_up_eval by (metis prod.collapse)
  from no_stuck_input [OF hold_session_inv r', of 0] r' show ?thesis by simp
qed

end
