(* ===== verification/EventLoop.thy ===== *)
theory EventLoop
  imports SessionSpec
begin

text \<open>
  The event loop of a game session, \<^verbatim>\<open>run_event_loop\<close> of \<^verbatim>\<open>wroid-inject/src/game_session.rs\<close>: who owns the
  host input (Android or the desktop), the aim and cursor modes, focus protection and the F12 hand-over,
  around the unified runtime. The input devices, the overlay, the focus relay and the clock are given;
  one turn reads the clock once. Messages to the user and warp requests are not modelled.
\<close>

section \<open>Who reads the devices\<close>

record 'd mouse_reader =
  mr_device :: "'d grab_device"
  mr_forwarding :: bool
  mr_grabbed :: bool

record 'd input_readers =
  ir_keyboard :: "'d grab_device"
  ir_captured :: bool
  ir_mouse :: "'d mouse_reader option"

text \<open>What the world answers during a turn. A reader or the overlay that does not reply has an error.\<close>

datatype poll_result = PollEvents | PollWouldBlock | PollFailed string

record ('i, 'd, 'e) loop_env =
  le_inject :: "('i, 'e) inject_fn"
  le_poll :: "'d \<Rightarrow> 'd \<times> poll_result" \<comment> \<open>reads a batch of the device and drops it\<close>
  le_clear :: "'d \<Rightarrow> 'd" \<comment> \<open>drops a mouse report read in part\<close>
  le_grab :: "'d \<Rightarrow> 'd \<times> (string + unit)"
  le_ungrab :: "'d \<Rightarrow> 'd \<times> (string + unit)"
  le_grab_allowed :: bool
  le_keyboard_reply :: "string option"
  le_mouse_reply :: "string option"
  le_overlay_reply :: "string option"
  le_warp_ok :: bool
  le_now :: duration

datatype cursor_event =
    CeMotion f64 f64 u32 u32 \<comment> \<open>position, surface size\<close>
  | CeLeftButton bool f64 f64 u32 u32

datatype host_event =
    HeKeyboard "host_key_event list" "(duration \<times> duration) option"
  | HeMouse "mouse_event list" "(duration \<times> duration) option"
  | HeCursor cursor_event
  | HeReaderFailed string string

text \<open>A reader hands on every key while it is captured, and F12 alone otherwise.\<close>

definition keyboard_events_for_capture :: "host_key_event list \<Rightarrow> bool \<Rightarrow> host_key_event list" where
  "keyboard_events_for_capture events captured =
     (if captured then events else filter (\<lambda>ev. hk_key ev = HF12) events)"

text \<open>What a reader makes of a batch, \<^verbatim>\<open>None\<close> when the device has nothing to read: the event it sends
  and whether it goes on.\<close>

definition keyboard_reader_poll ::
  "bool \<Rightarrow> (string + host_key_event list \<times> (duration \<times> duration) option) option \<Rightarrow> host_event option \<times> bool" where
  "keyboard_reader_poll captured batch =
     (case batch of
        None \<Rightarrow> (None, True)
      | Some (Inl message) \<Rightarrow> (Some (HeReaderFailed ''keyboard'' message), False)
      | Some (Inr (events, stamp)) \<Rightarrow>
          let forwarded = keyboard_events_for_capture events captured
          in (if forwarded = [] then None else Some (HeKeyboard forwarded stamp), True))"

definition mouse_reader_poll ::
  "bool \<Rightarrow> (string + mouse_event list \<times> (duration \<times> duration) option) option \<Rightarrow> host_event option \<times> bool" where
  "mouse_reader_poll forwarding batch =
     (case batch of
        None \<Rightarrow> (None, True)
      | Some (Inl message) \<Rightarrow> (Some (HeReaderFailed ''mouse'' message), False)
      | Some (Inr (events, stamp)) \<Rightarrow>
          (if forwarding \<and> events \<noteq> [] then Some (HeMouse events stamp) else None, True))"

text \<open>What waits in the device before a capture is dropped, at most 64 batches of it.\<close>

fun drain_keyboard :: "('d \<Rightarrow> 'd \<times> poll_result) \<Rightarrow> nat \<Rightarrow> 'd \<Rightarrow> 'd \<times> (string + unit)" where
  "drain_keyboard poll 0 d = (d, Inr ())"
| "drain_keyboard poll (Suc n) d =
     (case poll d of
        (d', PollEvents) \<Rightarrow> drain_keyboard poll n d'
      | (d', PollWouldBlock) \<Rightarrow> (d', Inr ())
      | (d', PollFailed err) \<Rightarrow> (d', Inl err))"

fun drain_mouse :: "('d \<Rightarrow> 'd \<times> poll_result) \<Rightarrow> ('d \<Rightarrow> 'd) \<Rightarrow> nat \<Rightarrow> 'd \<Rightarrow> 'd \<times> (string + unit)" where
  "drain_mouse poll clear 0 d = (clear d, Inr ())"
| "drain_mouse poll clear (Suc n) d =
     (case poll d of
        (d', PollEvents) \<Rightarrow> drain_mouse poll clear n d'
      | (d', PollWouldBlock) \<Rightarrow> (clear d', Inr ())
      | (d', PollFailed err) \<Rightarrow> (d', Inl err))"

definition drain_device :: "('d \<Rightarrow> 'd \<times> (string + unit)) \<Rightarrow> 'd grab_device \<Rightarrow> ('d grab_device, string, unit) st" where
  "drain_device drain dev = (case drain (gd_device dev) of (d, res) \<Rightarrow> (dev\<lparr>gd_device := d\<rparr>, res))"

definition update_keyboard_capture ::
  "('i, 'd, 'e) loop_env \<Rightarrow> bool \<Rightarrow> 'd grab_device \<Rightarrow> ('d grab_device, string, unit) st" where
  "update_keyboard_capture env enabled dev =
     (if enabled then andThen (drain_device (drain_keyboard (le_poll env) 64) dev) (\<lambda>dev' _. grab (le_grab env) dev')
      else ungrab (le_ungrab env) dev)"

definition set_keyboard_capture ::
  "('i, 'd, 'e) loop_env \<Rightarrow> bool \<Rightarrow> 'd input_readers \<Rightarrow> ('d input_readers, string, unit) st" where
  "set_keyboard_capture env enabled rd =
     (case le_keyboard_reply env of
        Some err \<Rightarrow> (rd, Inl err)
      | None \<Rightarrow>
          (case update_keyboard_capture env enabled (ir_keyboard rd) of
             (dev, Inl err) \<Rightarrow> (rd\<lparr>ir_keyboard := dev\<rparr>, Inl err)
           | (dev, Inr _) \<Rightarrow> (rd\<lparr>ir_keyboard := dev, ir_captured := enabled\<rparr>, Inr ())))"

text \<open>The outcome of draining the mouse before a grab is ignored.\<close>

definition update_mouse_mode ::
  "('i, 'd, 'e) loop_env \<Rightarrow> bool \<Rightarrow> bool \<Rightarrow> 'd mouse_reader \<Rightarrow> ('d mouse_reader, string, unit) st" where
  "update_mouse_mode env forward grabbing mr =
     (case (if grabbing = mr_grabbed mr then (mr_device mr, Inr ())
            else if grabbing then grab (le_grab env) (fst (drain_device (drain_mouse (le_poll env) (le_clear env) 64) (mr_device mr)))
            else ungrab (le_ungrab env) (mr_device mr)) of
        (dev, Inl err) \<Rightarrow> (mr\<lparr>mr_device := dev\<rparr>, Inl err)
      | (dev, Inr _) \<Rightarrow> (mr\<lparr>mr_device := dev, mr_forwarding := forward, mr_grabbed := grabbing\<rparr>, Inr ()))"

definition set_mouse_mode ::
  "('i, 'd, 'e) loop_env \<Rightarrow> bool \<Rightarrow> bool \<Rightarrow> 'd input_readers \<Rightarrow> ('d input_readers, string, unit) st" where
  "set_mouse_mode env forward grabbing rd =
     (case ir_mouse rd of
        None \<Rightarrow> (rd, Inr ())
      | Some mr \<Rightarrow>
          (case le_mouse_reply env of
             Some err \<Rightarrow> (rd, Inl err)
           | None \<Rightarrow>
               (case update_mouse_mode env forward grabbing mr of
                  (mr', res) \<Rightarrow> (rd\<lparr>ir_mouse := Some mr'\<rparr>, res))))"

section \<open>The state of the loop\<close>

record virtual_cursor =
  vc_x :: f64
  vc_y :: f64
  vc_pressed :: bool

definition cursor_centered :: "u32 \<Rightarrow> u32 \<Rightarrow> virtual_cursor" where
  "cursor_centered width height =
     \<lparr>vc_x = f_div (f_of_u32 width) (f_of_u32 2), vc_y = f_div (f_of_u32 height) (f_of_u32 2), vc_pressed = False\<rparr>"

definition cursor_move_by :: "virtual_cursor \<Rightarrow> i32 \<Rightarrow> i32 \<Rightarrow> u32 \<Rightarrow> u32 \<Rightarrow> virtual_cursor" where
  "cursor_move_by c dx dy width height =
     c\<lparr>vc_x := f_clamp (f_add (vc_x c) (f_of_i32 dx)) f_zero (f_of_u32 (if width = 0 then 0 else width - 1)),
       vc_y := f_clamp (f_add (vc_y c) (f_of_i32 dy)) f_zero (f_of_u32 (if height = 0 then 0 else height - 1))\<rparr>"

definition virtual_cursor_point :: "virtual_cursor \<Rightarrow> point" where
  "virtual_cursor_point c =
     \<lparr>px = f_as_u32 (f_clamp (f_floor (vc_x c)) f_zero (f_of_u32 0xFFFFFFFF)),
      py = f_as_u32 (f_clamp (f_floor (vc_y c)) f_zero (f_of_u32 0xFFFFFFFF))\<rparr>"

datatype input_mode = AimMode | UiMode

record overlay =
  ov_enabled :: bool
  ov_sprite :: "(f64 \<times> f64) option"

record ('i, 'd) event_loop =
  el_runtime :: "'i unified_runtime"
  el_readers :: "'d input_readers"
  el_overlay :: "overlay option"
  el_warp :: bool
  el_focus_protected :: bool
  el_waydroid_focused :: bool
  el_input_active :: bool
  el_manually_released :: bool
  el_saw_focus_event :: bool
  el_mode :: input_mode
  el_toggle_aim_before :: bool
  el_control_pressed :: bool
  el_cursor :: virtual_cursor

datatype 'e loop_error = LeSession "'e session_error" | LeIo string

type_synonym ('i, 'd, 'e, 'a) loop_st = "(('i, 'd) event_loop, 'e loop_error, 'a) st"

definition session_step :: "('i, 'e, 'a) session_st \<Rightarrow> ('i, 'd) event_loop \<Rightarrow> ('i, 'd, 'e, 'a) loop_st" where
  "session_step result el =
     (case result of
        (r, Inl err) \<Rightarrow> (el\<lparr>el_runtime := r\<rparr>, Inl (LeSession err))
      | (r, Inr a) \<Rightarrow> (el\<lparr>el_runtime := r\<rparr>, Inr a))"

definition reader_step ::
  "('d input_readers, string, unit) st \<Rightarrow> ('i, 'd) event_loop \<Rightarrow> ('i, 'd, 'e, unit) loop_st" where
  "reader_step result el =
     (case result of
        (rd, Inl err) \<Rightarrow> (el\<lparr>el_readers := rd\<rparr>, Inl (LeIo err))
      | (rd, Inr _) \<Rightarrow> (el\<lparr>el_readers := rd\<rparr>, Inr ()))"

definition set_overlay ::
  "('i, 'd, 'e) loop_env \<Rightarrow> bool \<Rightarrow> (f64 \<times> f64) option \<Rightarrow> ('i, 'd) event_loop \<Rightarrow> ('i, 'd, 'e, unit) loop_st" where
  "set_overlay env enabled sprite el =
     (case el_overlay el of
        None \<Rightarrow> (el, Inr ())
      | Some _ \<Rightarrow>
          (case le_overlay_reply env of
             Some err \<Rightarrow> (el, Inl (LeIo (''cursor overlay: '' @ err)))
           | None \<Rightarrow> (el\<lparr>el_overlay := Some \<lparr>ov_enabled = enabled, ov_sprite = sprite\<rparr>\<rparr>, Inr ())))"

definition request_cursor_warp :: "('i, 'd, 'e) loop_env \<Rightarrow> ('i, 'd) event_loop \<Rightarrow> ('i, 'd) event_loop" where
  "request_cursor_warp env el = el\<lparr>el_warp := el_warp el \<and> le_warp_ok env\<rparr>"

section \<open>Taking and giving back the input\<close>

definition apply_input_mode ::
  "(f64 \<Rightarrow> f64 \<Rightarrow> f64) \<Rightarrow> ('i, 'd, 'e) loop_env \<Rightarrow> input_mode \<Rightarrow> bool \<Rightarrow> ('i, 'd) event_loop \<Rightarrow> ('i, 'd, 'e, unit) loop_st" where
  "apply_input_mode hypot env mode reactivate el =
     andThen
       (case mode of
          AimMode \<Rightarrow>
            andThen (reader_step (set_mouse_mode env True (le_grab_allowed env) (el_readers el)) el) (\<lambda>el1 _.
              andThen (set_overlay env False None el1) (\<lambda>el2 _.
                session_step (restore_aim (le_inject env) (le_now env) reactivate (el_runtime el2)) el2))
        | UiMode \<Rightarrow>
            andThen (session_step (set_aim_enabled (le_inject env) (le_now env) False (el_runtime el)) el) (\<lambda>el1 _.
              andThen (session_step (release_mouse_buttons hypot (le_inject env) (le_now env) (el_runtime el1))
                         el1) (\<lambda>el2 _.
                andThen (reader_step (set_mouse_mode env True (le_grab_allowed env) (el_readers el2)) el2) (\<lambda>el3 _.
                  set_overlay env True (Some (vc_x (el_cursor el3), vc_y (el_cursor el3))) el3))))
       (\<lambda>el' _. (request_cursor_warp env el', Inr ()))"

definition release_input_to_os ::
  "('i, 'd, 'e) loop_env \<Rightarrow> ('i, 'd) event_loop \<Rightarrow> ('i, 'd, 'e, unit) loop_st" where
  "release_input_to_os env el =
     andThen (reader_step (set_keyboard_capture env False (el_readers el)) el) (\<lambda>el1 _.
       andThen (reader_step (set_mouse_mode env False False (el_readers el1)) el1) (\<lambda>el2 _.
         andThen (set_overlay env False None el2) (\<lambda>el3 _.
           let el4 = request_cursor_warp env el3
           in session_step (runtime_suspend (le_inject env) (el_runtime el4)) el4)))"

definition desired_mode :: "('i, 'd) event_loop \<Rightarrow> input_mode" where
  "desired_mode el =
     (if aim_active (el_runtime el) \<or> \<not> has_toggle_key_aim (el_runtime el) \<or> el_overlay el = None
      then AimMode else UiMode)"

text \<open>The steps common to every release, and to every recapture.\<close>

definition release_input :: "('i, 'd, 'e) loop_env \<Rightarrow> ('i, 'd) event_loop \<Rightarrow> ('i, 'd, 'e, unit) loop_st" where
  "release_input env el =
     release_input_to_os env
       (el\<lparr>el_input_active := False, el_mode := desired_mode el, el_toggle_aim_before := aim_active (el_runtime el)\<rparr>)"

definition recapture_input :: "(f64 \<Rightarrow> f64 \<Rightarrow> f64) \<Rightarrow> ('i, 'd, 'e) loop_env \<Rightarrow> ('i, 'd) event_loop \<Rightarrow> ('i, 'd, 'e, unit) loop_st" where
  "recapture_input hypot env el =
     andThen (reader_step (set_keyboard_capture env True (el_readers el)) el) (\<lambda>el1 _.
       andThen (apply_input_mode hypot env (el_mode el1) (el_toggle_aim_before el1) el1) (\<lambda>el2 _.
         (el2\<lparr>el_input_active := True\<rparr>, Inr ())))"

section \<open>Focus\<close>

datatype focus_event = FocusChanged bool | FocusUnavailable string

definition parse_focus_state :: "string \<Rightarrow> string + bool" where
  "parse_focus_state state =
     (let v = trim state
      in if v = ''focused'' then Inr True else if v = ''unfocused'' then Inr False
         else Inl (''invalid focus relay state: '' @ v))"

text \<open>The relay's lines: connecting reads the first, then a reader hands on one event per line until the
  relay is gone or says something else. An empty line is the end of the stream.\<close>

definition focus_connect :: "string + string \<Rightarrow> string + bool" where
  "focus_connect line =
     (case line of
        Inl err \<Rightarrow> Inl err
      | Inr state \<Rightarrow> if state = [] then Inl ''focus relay closed before reporting initial state''
                     else parse_focus_state state)"

definition focus_reader_step :: "string + string \<Rightarrow> focus_event \<times> bool" where
  "focus_reader_step line =
     (case line of
        Inl err \<Rightarrow> (FocusUnavailable (''desktop focus relay failed: '' @ err), False)
      | Inr state \<Rightarrow>
          if state = [] then (FocusUnavailable ''desktop focus relay disconnected'', False)
          else (case parse_focus_state state of
                  Inr focused \<Rightarrow> (FocusChanged focused, True)
                | Inl err \<Rightarrow> (FocusUnavailable err, False)))"

fun focus_reader :: "(string + string) list \<Rightarrow> focus_event list" where
  "focus_reader [] = []"
| "focus_reader (line # rest) =
     (case focus_reader_step line of (ev, continues) \<Rightarrow> ev # (if continues then focus_reader rest else []))"

definition focus_step ::
  "(f64 \<Rightarrow> f64 \<Rightarrow> f64) \<Rightarrow> ('i, 'd, 'e) loop_env \<Rightarrow> focus_event \<Rightarrow> ('i, 'd) event_loop \<Rightarrow> ('i, 'd, 'e, unit) loop_st" where
  "focus_step hypot env ev el =
     (case ev of
        FocusChanged next_focused \<Rightarrow>
          if el_focus_protected el
          then
            let el1 = el\<lparr>el_saw_focus_event := True, el_waydroid_focused := next_focused, el_control_pressed := False\<rparr>
            in if next_focused
               then if el_manually_released el1 \<or> el_input_active el1 then (el1, Inr ()) else recapture_input hypot env el1
               else if el_input_active el1 then release_input env el1 else (el1, Inr ())
          else (el\<lparr>el_saw_focus_event := True, el_waydroid_focused := next_focused\<rparr>, Inr ())
      | FocusUnavailable _ \<Rightarrow>
          if el_focus_protected el
          then
            let el1 = el\<lparr>el_focus_protected := False, el_waydroid_focused := False, el_manually_released := True,
                         el_control_pressed := False\<rparr>
            in if el_input_active el1 then release_input env el1 else (el1, Inr ())
          else (el, Inr ()))"

fun focus_steps ::
  "(f64 \<Rightarrow> f64 \<Rightarrow> f64) \<Rightarrow> ('i, 'd, 'e) loop_env \<Rightarrow> focus_event list \<Rightarrow> ('i, 'd) event_loop \<Rightarrow> ('i, 'd, 'e, unit) loop_st" where
  "focus_steps hypot env [] el = (el, Inr ())"
| "focus_steps hypot env (ev # evs) el = andThen (focus_step hypot env ev el) (\<lambda>el' _. focus_steps hypot env evs el')"

definition FOCUS_FALLBACK_AFTER :: duration where "FOCUS_FALLBACK_AFTER = 10000000000"

definition focus_fallback :: "duration \<Rightarrow> ('i, 'd) event_loop \<Rightarrow> ('i, 'd) event_loop" where
  "focus_fallback elapsed el =
     (if el_focus_protected el \<and> \<not> el_input_active el \<and> \<not> el_manually_released el
         \<and> \<not> el_saw_focus_event el \<and> FOCUS_FALLBACK_AFTER \<le> elapsed
      then el\<lparr>el_focus_protected := False, el_manually_released := True\<rparr> else el)"

section \<open>Host events\<close>

datatype event_loop_exit = ExitHotkeyRequested | InterruptRequested | TimeLimitReached

text \<open>A key either submitted touches or not, or ends the loop.\<close>

datatype key_outcome = Submitted bool | LeaveLoop event_loop_exit

definition f12_pressed :: "(f64 \<Rightarrow> f64 \<Rightarrow> f64) \<Rightarrow> ('i, 'd, 'e) loop_env \<Rightarrow> ('i, 'd) event_loop \<Rightarrow> ('i, 'd, 'e, unit) loop_st" where
  "f12_pressed hypot env el =
     (let el1 = el\<lparr>el_control_pressed := False\<rparr>
      in if el_input_active el1 then release_input env (el1\<lparr>el_manually_released := True\<rparr>)
         else if el_manually_released el1 \<and> (el_waydroid_focused el1 \<or> \<not> el_focus_protected el1)
         then andThen (recapture_input hypot env el1) (\<lambda>el2 _. (el2\<lparr>el_manually_released := False\<rparr>, Inr ()))
         else (el1, Inr ()))"

definition keyboard_step ::
  "(f64 \<Rightarrow> f64 \<Rightarrow> f64) \<Rightarrow> ('i, 'd, 'e) loop_env \<Rightarrow> host_key_event \<Rightarrow> ('i, 'd) event_loop \<Rightarrow> ('i, 'd, 'e, key_outcome) loop_st" where
  "keyboard_step hypot env ev el =
     (if hk_key ev = HF12
      then if hk_transition ev = KPressed then andThen (f12_pressed hypot env el) (\<lambda>el' _. (el', Inr (Submitted False)))
           else (el, Inr (Submitted False))
      else if \<not> el_input_active el then (el, Inr (Submitted False))
      else
        let name = host_profile_name (hk_key ev);
            el1 = (if name = ''ctrl'' then el\<lparr>el_control_pressed := (hk_transition ev \<noteq> KReleased)\<rparr> else el)
        in if el_control_pressed el1 \<and> name = ''esc'' \<and> hk_transition ev = KPressed
           then (el1, Inr (LeaveLoop ExitHotkeyRequested))
           else if el_control_pressed el1 \<and> name = ''c'' \<and> hk_transition ev = KPressed
           then (el1, Inr (LeaveLoop InterruptRequested))
           else andThen (session_step (handle_keyboard hypot (le_inject env) (le_now env) ev (el_runtime el1)) el1)
                  (\<lambda>el2 submitted. (el2, Inr (Submitted submitted))))"

fun keyboard_steps ::
  "(f64 \<Rightarrow> f64 \<Rightarrow> f64) \<Rightarrow> ('i, 'd, 'e) loop_env \<Rightarrow> host_key_event list \<Rightarrow> bool \<Rightarrow> ('i, 'd) event_loop \<Rightarrow> ('i, 'd, 'e, key_outcome) loop_st" where
  "keyboard_steps hypot env [] submitted el = (el, Inr (Submitted submitted))"
| "keyboard_steps hypot env (ev # evs) submitted el =
     andThen (keyboard_step hypot env ev el) (\<lambda>el' outcome.
       case outcome of
         LeaveLoop e \<Rightarrow> (el', Inr (LeaveLoop e))
       | Submitted s \<Rightarrow> keyboard_steps hypot env evs (submitted \<or> s) el')"

definition record_latency ::
  "bool \<Rightarrow> duration \<Rightarrow> (duration \<times> duration) option \<Rightarrow> ('i, 'd) event_loop \<Rightarrow> ('i, 'd) event_loop" where
  "record_latency submitted latency stamp el =
     (if submitted then el\<lparr>el_runtime := record_pipeline_latency latency stamp (el_runtime el)\<rparr> else el)"

text \<open>After keys, the mode follows the state of the aim.\<close>

definition sync_mode :: "(f64 \<Rightarrow> f64 \<Rightarrow> f64) \<Rightarrow> ('i, 'd, 'e) loop_env \<Rightarrow> ('i, 'd) event_loop \<Rightarrow> ('i, 'd, 'e, unit) loop_st" where
  "sync_mode hypot env el =
     (if el_input_active el \<and> desired_mode el \<noteq> el_mode el
      then let next_mode = desired_mode el
           in andThen (apply_input_mode hypot env next_mode True el) (\<lambda>el' _. (el'\<lparr>el_mode := next_mode\<rparr>, Inr ()))
      else (el, Inr ()))"

definition aim_mouse_step ::
  "(f64 \<Rightarrow> f64 \<Rightarrow> f64) \<Rightarrow> ('i, 'd, 'e) loop_env \<Rightarrow> mouse_event \<Rightarrow> ('i, 'd) event_loop \<Rightarrow> ('i, 'd, 'e, bool) loop_st" where
  "aim_mouse_step hypot env ev el =
     session_step (handle_mouse hypot (le_inject env) (le_now env) ev (el_runtime el)) el"

definition ui_mouse_step ::
  "('i, 'd, 'e) loop_env \<Rightarrow> mouse_event \<Rightarrow> ('i, 'd) event_loop \<Rightarrow> ('i, 'd, 'e, bool) loop_st" where
  "ui_mouse_step env ev el =
     (let res = pl_resolution (ur_plan (el_runtime el))
      in case ev of
           MMotion m \<Rightarrow>
             let el1 = el\<lparr>el_cursor := cursor_move_by (el_cursor el) (mm_dx m) (mm_dy m) (rwidth res) (rheight res)\<rparr>
             in if vc_pressed (el_cursor el1)
                then andThen (session_step (cursor_move (le_inject env) (virtual_cursor_point (el_cursor el1))
                                              (el_runtime el1)) el1) (\<lambda>el2 _. (el2, Inr True))
                else (el1, Inr False)
         | MButton b t \<Rightarrow>
             if b \<noteq> MbLeft then (el, Inr False)
             else (case t of
                     KPressed \<Rightarrow>
                       let el1 = el\<lparr>el_cursor := (el_cursor el)\<lparr>vc_pressed := True\<rparr>\<rparr>
                       in andThen (session_step (cursor_down (le_inject env) (virtual_cursor_point (el_cursor el1))
                                                   (el_runtime el1)) el1) (\<lambda>el2 _. (el2, Inr True))
                   | KReleased \<Rightarrow>
                       let el1 = el\<lparr>el_cursor := (el_cursor el)\<lparr>vc_pressed := False\<rparr>\<rparr>
                       in andThen (session_step (cursor_up (le_inject env) (el_runtime el1)) el1) (\<lambda>el2 _. (el2, Inr True))
                   | KRepeated \<Rightarrow> (el, Inr False))
         | MWheel _ \<Rightarrow> (el, Inr False))"

definition is_motion :: "mouse_event \<Rightarrow> bool" where
  "is_motion ev = (case ev of MMotion _ \<Rightarrow> True | _ \<Rightarrow> False)"

text \<open>A sprite that cannot be moved is only reported.\<close>

definition update_sprite :: "('i, 'd, 'e) loop_env \<Rightarrow> bool \<Rightarrow> ('i, 'd) event_loop \<Rightarrow> ('i, 'd) event_loop" where
  "update_sprite env dirty el =
     (case (dirty, el_overlay el, le_overlay_reply env) of
        (True, Some ov, None) \<Rightarrow>
          el\<lparr>el_overlay := Some (ov\<lparr>ov_sprite := Some (vc_x (el_cursor el), vc_y (el_cursor el))\<rparr>)\<rparr>
      | _ \<Rightarrow> el)"

definition mouse_steps ::
  "(f64 \<Rightarrow> f64 \<Rightarrow> f64) \<Rightarrow> ('i, 'd, 'e) loop_env \<Rightarrow> duration \<Rightarrow> mouse_event list \<Rightarrow> (duration \<times> duration) option \<Rightarrow> ('i, 'd) event_loop
     \<Rightarrow> ('i, 'd, 'e, unit) loop_st" where
  "mouse_steps hypot env latency events stamp el =
     (if \<not> el_input_active el then (el, Inr ())
      else if el_mode el = AimMode
      then andThen (for_each (aim_mouse_step hypot env) events el) (\<lambda>el1 submitted.
             (record_latency submitted latency stamp el1, Inr ()))
      else andThen (for_each (ui_mouse_step env) events el) (\<lambda>el1 submitted.
             (record_latency submitted latency stamp (update_sprite env (list_ex is_motion events) el1), Inr ())))"

definition cursor_step ::
  "('i, 'd, 'e) loop_env \<Rightarrow> duration \<Rightarrow> cursor_event \<Rightarrow> ('i, 'd) event_loop \<Rightarrow> ('i, 'd, 'e, unit) loop_st" where
  "cursor_step env latency ev el =
     (if el_input_active el \<and> el_mode el = UiMode
      then
        andThen
          (case ev of
             CeMotion x y w h \<Rightarrow>
               (case cursor_point (el_runtime el) x y w h of
                  None \<Rightarrow> (el, Inr False)
                | Some p \<Rightarrow>
                    andThen (session_step (cursor_move (le_inject env) p (el_runtime el)) el) (\<lambda>el1 _.
                      (el1, Inr (is_active (engine_state (ur_engine (el_runtime el1)))
                                   (ur_cursor_contact (el_runtime el1))))))
           | CeLeftButton pressed x y w h \<Rightarrow>
               (case cursor_point (el_runtime el) x y w h of
                  None \<Rightarrow> (el, Inr False)
                | Some p \<Rightarrow>
                    andThen (session_step (if pressed then cursor_down (le_inject env) p (el_runtime el)
                                           else cursor_up (le_inject env) (el_runtime el)) el) (\<lambda>el1 _. (el1, Inr True))))
          (\<lambda>el' submitted. (record_latency submitted latency None el', Inr ()))
      else (el, Inr ()))"

section \<open>Turns\<close>

datatype received = Received host_event | RecvTimeout | RecvDisconnected

text \<open>What a turn finds: an interrupt, the focus events that are there, the time since the loop began
  before and after the event, the event and how long ago it was read.\<close>

record ('i, 'd, 'e) loop_turn =
  lt_env :: "('i, 'd, 'e) loop_env"
  lt_interrupted :: bool
  lt_focus :: "focus_event list option" \<comment> \<open>\<open>None\<close>: there is no relay\<close>
  lt_elapsed :: duration
  lt_received :: received
  lt_latency :: duration
  lt_elapsed_after :: duration

definition host_step ::
  "(f64 \<Rightarrow> f64 \<Rightarrow> f64) \<Rightarrow> ('i, 'd, 'e) loop_env \<Rightarrow> duration \<Rightarrow> host_event \<Rightarrow> ('i, 'd) event_loop \<Rightarrow> ('i, 'd, 'e, event_loop_exit option) loop_st" where
  "host_step hypot env latency ev el =
     (case ev of
        HeKeyboard events stamp \<Rightarrow>
          andThen (keyboard_steps hypot env events False el) (\<lambda>el1 outcome.
            case outcome of
              LeaveLoop e \<Rightarrow> (el1, Inr (Some e))
            | Submitted s \<Rightarrow>
                andThen (sync_mode hypot env (record_latency s latency stamp el1)) (\<lambda>el2 _. (el2, Inr None)))
      | HeMouse events stamp \<Rightarrow> andThen (mouse_steps hypot env latency events stamp el) (\<lambda>el1 _. (el1, Inr None))
      | HeCursor c \<Rightarrow> andThen (cursor_step env latency c el) (\<lambda>el1 _. (el1, Inr None))
      | HeReaderFailed reader message \<Rightarrow> (el, Inl (LeIo (reader @ '' input reader failed: '' @ message))))"

definition turn_focus :: "(f64 \<Rightarrow> f64 \<Rightarrow> f64) \<Rightarrow> ('i, 'd, 'e) loop_turn \<Rightarrow> ('i, 'd) event_loop \<Rightarrow> ('i, 'd, 'e, unit) loop_st" where
  "turn_focus hypot t el =
     (case lt_focus t of
        None \<Rightarrow> (el, Inr ())
      | Some events \<Rightarrow>
          andThen (focus_steps hypot (lt_env t) events el) (\<lambda>el' _. (focus_fallback (lt_elapsed t) el', Inr ())))"

definition turn_tick :: "('i, 'd, 'e) loop_env \<Rightarrow> ('i, 'd) event_loop \<Rightarrow> ('i, 'd, 'e, unit) loop_st" where
  "turn_tick env el =
     (if el_input_active el then session_step (runtime_tick (le_inject env) (le_now env) (el_runtime el)) el
      else (el, Inr ()))"

definition loop_turn_step ::
  "(f64 \<Rightarrow> f64 \<Rightarrow> f64) \<Rightarrow> duration option \<Rightarrow> ('i, 'd, 'e) loop_turn \<Rightarrow> ('i, 'd) event_loop \<Rightarrow> ('i, 'd, 'e, event_loop_exit option) loop_st" where
  "loop_turn_step hypot exit_after t el =
     (if lt_interrupted t then (el, Inr (Some InterruptRequested))
      else
        andThen (turn_focus hypot t el) (\<lambda>el1 _.
          andThen
            (case lt_received t of
               Received ev \<Rightarrow> host_step hypot (lt_env t) (lt_latency t) ev el1
             | RecvTimeout \<Rightarrow> (el1, Inr None)
             | RecvDisconnected \<Rightarrow>
                 (el1, Inl (LeIo
                    ''all input readers disconnected unexpectedly while the game session was running'')))
            (\<lambda>el2 exit_now.
               case exit_now of
                 Some e \<Rightarrow> (el2, Inr (Some e))
               | None \<Rightarrow>
                   andThen (turn_tick (lt_env t) el2) (\<lambda>el3 _.
                     (el3, Inr (case exit_after of
                                  Some limit \<Rightarrow> if limit \<le> lt_elapsed_after t then Some TimeLimitReached else None
                                | None \<Rightarrow> None))))))"

fun event_loop_run ::
  "(f64 \<Rightarrow> f64 \<Rightarrow> f64) \<Rightarrow> duration option \<Rightarrow> ('i, 'd, 'e) loop_turn list \<Rightarrow> ('i, 'd) event_loop \<Rightarrow> ('i, 'd, 'e, event_loop_exit option) loop_st" where
  "event_loop_run hypot exit_after [] el = (el, Inr None)"
| "event_loop_run hypot exit_after (t # ts) el =
     andThen (loop_turn_step hypot exit_after t el) (\<lambda>el' exit_now.
       case exit_now of Some e \<Rightarrow> (el', Inr (Some e)) | None \<Rightarrow> event_loop_run hypot exit_after ts el')"

section \<open>How a session starts\<close>

text \<open>The relay, when there is one, says whether the game window is focused; without one the session starts
  focused and unprotected. The devices are grabbed beforehand when that is allowed.\<close>

definition session_loop ::
  "bool option \<Rightarrow> bool \<Rightarrow> 'd grab_device \<Rightarrow> 'd grab_device option \<Rightarrow> bool \<Rightarrow> 'i unified_runtime \<Rightarrow> ('i, 'd) event_loop" where
  "session_loop relay warp keyboard mouse with_overlay r =
     (let focus_protected = (relay \<noteq> None);
          initially_focused = (case relay of None \<Rightarrow> True | Some focused \<Rightarrow> focused);
          captured = (\<not> focus_protected \<or> initially_focused);
          mode = (if \<not> has_always_on_aim r \<and> has_toggle_key_aim r \<and> with_overlay then UiMode else AimMode)
      in \<lparr>el_runtime = r,
          el_readers = \<lparr>ir_keyboard = keyboard, ir_captured = captured,
                        ir_mouse = map_option (\<lambda>d. \<lparr>mr_device = d, mr_forwarding = captured, mr_grabbed = captured\<rparr>) mouse\<rparr>,
          el_overlay = (if with_overlay then Some \<lparr>ov_enabled = False, ov_sprite = None\<rparr> else None), el_warp = warp,
          el_focus_protected = focus_protected, el_waydroid_focused = initially_focused,
          el_input_active = initially_focused, el_manually_released = False, el_saw_focus_event = False,
          el_mode = mode, el_toggle_aim_before = False, el_control_pressed = False,
          el_cursor = cursor_centered (rwidth (pl_resolution (ur_plan r))) (rheight (pl_resolution (ur_plan r)))\<rparr>)"

text \<open>The keyboard and the mouse are grabbed before their readers start, when grabbing is allowed and the
  game has the focus.\<close>

definition capture_devices ::
  "('i, 'd, 'e) loop_env \<Rightarrow> bool \<Rightarrow> 'd grab_device \<Rightarrow> 'd grab_device option
     \<Rightarrow> ('d grab_device \<times> 'd grab_device option, string, unit) st" where
  "capture_devices env focused keyboard mouse =
     (if le_grab_allowed env \<and> focused
      then case grab (le_grab env) keyboard of
             (keyboard', Inl err) \<Rightarrow> ((keyboard', mouse), Inl err)
           | (keyboard', Inr _) \<Rightarrow>
               (case mouse of
                  None \<Rightarrow> ((keyboard', None), Inr ())
                | Some m \<Rightarrow> (case grab (le_grab env) m of (m', res) \<Rightarrow> ((keyboard', Some m'), res)))
      else ((keyboard, mouse), Inr ()))"

definition event_loop_begin ::
  "(f64 \<Rightarrow> f64 \<Rightarrow> f64) \<Rightarrow> ('i, 'd, 'e) loop_env \<Rightarrow> ('i, 'd) event_loop \<Rightarrow> ('i, 'd, 'e, unit) loop_st" where
  "event_loop_begin hypot env el =
     (if el_input_active el \<and> el_mode el = UiMode then apply_input_mode hypot env UiMode False el else (el, Inr ()))"

definition run_event_loop ::
  "(f64 \<Rightarrow> f64 \<Rightarrow> f64) \<Rightarrow> duration option \<Rightarrow> ('i, 'd, 'e) loop_env \<Rightarrow> ('i, 'd, 'e) loop_turn list \<Rightarrow> ('i, 'd) event_loop
     \<Rightarrow> ('i, 'd, 'e, event_loop_exit option) loop_st" where
  "run_event_loop hypot exit_after env turns el =
     andThen (event_loop_begin hypot env el) (\<lambda>el' _. event_loop_run hypot exit_after turns el')"

text \<open>When the loop has ended the runtime is stopped, whatever ended it; the loop's own error comes first.
  A loop that has used up its turns goes on (\<^verbatim>\<open>None\<close>).\<close>

definition finish_session ::
  "('i, 'd, 'e) loop_env \<Rightarrow> ('i, 'd, 'e, event_loop_exit option) loop_st \<Rightarrow> ('i, 'd, 'e, event_loop_exit option) loop_st" where
  "finish_session env result =
     (case result of
        (el, Inr None) \<Rightarrow> (el, Inr None)
      | (el, loop_result) \<Rightarrow>
          (case runtime_suspend (le_inject env) (el_runtime el) of
             (r, cleanup) \<Rightarrow>
               (el\<lparr>el_runtime := r\<rparr>,
                case loop_result of
                  Inl err \<Rightarrow> Inl err
                | Inr exit \<Rightarrow> (case cleanup of Inl err \<Rightarrow> Inl (LeSession err) | Inr _ \<Rightarrow> Inr exit))))"

text \<open>The session once its devices and its bridge are open: \<^verbatim>\<open>relay\<close> is what connecting to the focus relay
  gives. There is no loop when the devices or the runtime fail.\<close>

definition game_session ::
  "(f64 \<Rightarrow> f64 \<Rightarrow> f64) \<Rightarrow> duration option \<Rightarrow> ('i, 'd, 'e) loop_env \<Rightarrow> ('i, 'd, 'e) loop_env \<Rightarrow> bool option \<Rightarrow> bool
     \<Rightarrow> 'd grab_device \<Rightarrow> 'd grab_device option \<Rightarrow> bool \<Rightarrow> control_plan \<Rightarrow> 'i \<Rightarrow> ('i, 'd, 'e) loop_turn list
     \<Rightarrow> (('i, 'd) event_loop option, 'e loop_error, event_loop_exit option) st" where
  "game_session hypot exit_after env env_end socket warp keyboard mouse with_overlay plan device turns =
     (let relay = (if le_grab_allowed env then socket else None);
          initially_focused = (case relay of None \<Rightarrow> True | Some focused \<Rightarrow> focused)
      in case capture_devices env initially_focused keyboard mouse of
           (_, Inl err) \<Rightarrow> (None, Inl (LeIo err))
         | ((keyboard', mouse'), Inr _) \<Rightarrow>
             (case runtime_new plan device of
                Inl err \<Rightarrow> (None, Inl (LeSession err))
              | Inr r \<Rightarrow>
                  let el = session_loop relay warp keyboard' mouse' with_overlay r
                  in case (if initially_focused
                           then session_step (runtime_start (le_inject env) (le_now env) (el_runtime el)) el
                           else (el, Inr ())) of
                       (el1, Inl err) \<Rightarrow> (Some el1, Inl err)
                     | (el1, Inr _) \<Rightarrow>
                         (case finish_session env_end (run_event_loop hypot exit_after env turns el1) of
                            (el2, result) \<Rightarrow> (Some el2, result))))"

end
