(* ===== verification/EventLoopSafe.thy ===== *)
theory EventLoopSafe
  imports EventLoop
begin

text \<open>
  What the event loop keeps: while the desktop owns the input no touch is down, no key is held and no
  device is grabbed; input released can always be taken back.
\<close>

section \<open>Released input\<close>

definition mouse_released :: "'d mouse_reader \<Rightarrow> bool" where
  "mouse_released mr \<longleftrightarrow> \<not> mr_forwarding mr \<and> \<not> mr_grabbed mr \<and> \<not> gd_grabbed (mr_device mr)"

definition released :: "('i, 'd) event_loop \<Rightarrow> bool" where
  "released el \<longleftrightarrow>
     down (el_runtime el) = Map.empty \<and> ur_held_keys (el_runtime el) = MASK_EMPTY
     \<and> ur_held_buttons (el_runtime el) = 0
     \<and> \<not> ir_captured (el_readers el) \<and> \<not> gd_grabbed (ir_keyboard (el_readers el))
     \<and> pred_option mouse_released (ir_mouse (el_readers el))"

text \<open>A grabbed mouse is known to be grabbed.\<close>

definition readers_ok :: "'d input_readers \<Rightarrow> bool" where
  "readers_ok rd \<longleftrightarrow> pred_option (\<lambda>mr. gd_grabbed (mr_device mr) \<longrightarrow> mr_grabbed mr) (ir_mouse rd)"

definition loop_ok :: "(f64 \<Rightarrow> f64 \<Rightarrow> f64) \<Rightarrow> ('i, 'd) event_loop \<Rightarrow> bool" where
  "loop_ok hypot el \<longleftrightarrow> session_inv hypot (el_runtime el) \<and> readers_ok (el_readers el)"

definition loop_inv :: "(f64 \<Rightarrow> f64 \<Rightarrow> f64) \<Rightarrow> ('i, 'd) event_loop \<Rightarrow> bool" where
  "loop_inv hypot el \<longleftrightarrow>
     loop_ok hypot el
     \<and> (el_input_active el \<or> released el \<and> (el_manually_released el \<or> el_focus_protected el))"

text \<open>The only errors: a device or the overlay does not answer, or the injector fails.\<close>

definition outside_error :: "'e loop_error \<Rightarrow> bool" where
  "outside_error err = (case err of LeSession e \<Rightarrow> session_only_injection e | LeIo _ \<Rightarrow> True)"

definition same_flags :: "('i, 'd) event_loop \<Rightarrow> ('i, 'd) event_loop \<Rightarrow> bool" where
  "same_flags el el' \<longleftrightarrow>
     el_input_active el' = el_input_active el \<and> el_manually_released el' = el_manually_released el
     \<and> el_focus_protected el' = el_focus_protected el"

definition step_ok ::
  "(f64 \<Rightarrow> f64 \<Rightarrow> f64) \<Rightarrow> ('i, 'd) event_loop \<Rightarrow> ('i, 'd, 'e, 'a) loop_st \<Rightarrow> bool" where
  "step_ok hypot el result \<longleftrightarrow>
     (case result of
        (el', Inr _) \<Rightarrow> loop_ok hypot el' \<and> same_flags el el'
      | (_, Inl err) \<Rightarrow> outside_error err)"

definition keeps_inv :: "(f64 \<Rightarrow> f64 \<Rightarrow> f64) \<Rightarrow> ('i, 'd, 'e, 'a) loop_st \<Rightarrow> bool" where
  "keeps_inv hypot result \<longleftrightarrow>
     (case result of (el', Inr _) \<Rightarrow> loop_inv hypot el' | (_, Inl err) \<Rightarrow> outside_error err)"

lemma same_flags_refl [simp]: "same_flags el el" by (simp add: same_flags_def)

lemma same_flags_trans: "same_flags a b \<Longrightarrow> same_flags b c \<Longrightarrow> same_flags a c" by (simp add: same_flags_def)

lemma step_ok_andThen:
  assumes "step_ok hypot el result" and "\<And>el' a. result = (el', Inr a) \<Longrightarrow> loop_ok hypot el' \<Longrightarrow> step_ok hypot el' (f el' a)"
  shows "step_ok hypot el (andThen result f)"
proof -
  obtain el' res where r: "result = (el', res)" by fastforce
  show ?thesis
  proof (cases res)
    case (Inl err)
    with assms(1) r show ?thesis by (simp add: step_ok_def)
  next
    case (Inr a)
    with assms(1) r have ok: "loop_ok hypot el'" "same_flags el el'" by (simp_all add: step_ok_def)
    with assms(2) r Inr have "step_ok hypot el' (f el' a)" by blast
    with ok(2) show ?thesis by (auto simp: r Inr step_ok_def intro: same_flags_trans split: prod.splits sum.splits)
  qed
qed

lemma keeps_inv_andThen:
  assumes "keeps_inv hypot result" and "\<And>el' a. result = (el', Inr a) \<Longrightarrow> loop_inv hypot el' \<Longrightarrow> keeps_inv hypot (f el' a)"
  shows "keeps_inv hypot (andThen result f)"
  using assms by (cases result; cases "snd result") (auto simp: keeps_inv_def)

lemma andThen_assoc: "andThen (andThen result f) g = andThen result (\<lambda>s a. andThen (f s a) g)"
proof -
  obtain s res where "result = (s, res)" by fastforce
  then show ?thesis by (cases res) simp_all
qed

lemma step_ok_return: "loop_ok hypot el' \<Longrightarrow> same_flags el el' \<Longrightarrow> step_ok hypot el (el', Inr a)"
  by (simp add: step_ok_def)

lemma step_ok_fail: "step_ok hypot el (el', Inl (LeIo s))"
  by (simp add: step_ok_def outside_error_def)

lemma keeps_inv_return: "loop_inv hypot el \<Longrightarrow> keeps_inv hypot (el, Inr a)"
  by (simp add: keeps_inv_def)

text \<open>While the input is active, a step that leaves the flags alone keeps the invariant.\<close>

lemma active_keeps: "el_input_active el \<Longrightarrow> step_ok hypot el result \<Longrightarrow> keeps_inv hypot result"
  by (auto simp: step_ok_def keeps_inv_def loop_inv_def same_flags_def split: prod.splits sum.splits)

lemma loop_ok_cong:
  "el_runtime el' = el_runtime el \<Longrightarrow> el_readers el' = el_readers el \<Longrightarrow> loop_ok hypot el' = loop_ok hypot el"
  by (simp add: loop_ok_def)

lemma session_step_ok:
  assumes "loop_ok hypot el" and "session_ok hypot (el_runtime el) result"
  shows "step_ok hypot el (session_step result el)"
  using assms
  by (auto simp: session_step_def step_ok_def session_ok_def loop_ok_def same_flags_def outside_error_def
      split: prod.splits sum.splits)

lemma grab_grabbed: "grab f dev = (dev', Inr u) \<Longrightarrow> gd_grabbed dev'"
  by (auto simp: grab_def split: if_splits prod.splits sum.splits)

lemma ungrab_released: "ungrab f dev = (dev', Inr u) \<Longrightarrow> \<not> gd_grabbed dev'"
  by (auto simp: ungrab_def split: if_splits prod.splits sum.splits)

lemma reader_step_cases:
  assumes "reader_step result el = (el', res)"
  obtains (failed) rd err where "result = (rd, Inl err)" "res = Inl (LeIo err)"
  | (replied) rd u where "result = (rd, Inr u)" "el' = el\<lparr>el_readers := rd\<rparr>" "res = Inr ()"
  using assms by (auto simp: reader_step_def split: prod.splits sum.splits)

lemma keyboard_capture_effect:
  assumes "set_keyboard_capture env enabled rd = (rd', Inr u)"
  shows "ir_captured rd' = enabled" "gd_grabbed (ir_keyboard rd') = enabled" "ir_mouse rd' = ir_mouse rd"
proof -
  from assms obtain dev w where d: "update_keyboard_capture env enabled (ir_keyboard rd) = (dev, Inr w)"
    "rd' = rd\<lparr>ir_keyboard := dev, ir_captured := enabled\<rparr>"
    by (auto simp: set_keyboard_capture_def split: option.splits prod.splits sum.splits)
  then show "ir_captured rd' = enabled" "ir_mouse rd' = ir_mouse rd" by simp_all
  from d show "gd_grabbed (ir_keyboard rd') = enabled"
    by (cases enabled) (auto simp: update_keyboard_capture_def andThen_Inr_iff dest: grab_grabbed ungrab_released)
qed

lemma mouse_mode_effect:
  assumes "set_mouse_mode env forward grabbing rd = (rd', Inr u)" and ok: "readers_ok rd"
  shows "readers_ok rd'" "ir_keyboard rd' = ir_keyboard rd" "ir_captured rd' = ir_captured rd"
    "\<not> forward \<Longrightarrow> \<not> grabbing \<Longrightarrow> pred_option mouse_released (ir_mouse rd')"
proof -
  have "readers_ok rd' \<and> ir_keyboard rd' = ir_keyboard rd \<and> ir_captured rd' = ir_captured rd
      \<and> (\<not> forward \<longrightarrow> \<not> grabbing \<longrightarrow> pred_option mouse_released (ir_mouse rd'))"
  proof (cases "ir_mouse rd")
    case None
    with assms show ?thesis by (simp add: set_mouse_mode_def)
  next
    case (Some mr)
    with assms(1) obtain mr' where m: "update_mouse_mode env forward grabbing mr = (mr', Inr u)"
      "rd' = rd\<lparr>ir_mouse := Some mr'\<rparr>"
      by (auto simp: set_mouse_mode_def split: option.splits prod.splits)
    from ok Some have dev: "gd_grabbed (mr_device mr) \<Longrightarrow> mr_grabbed mr" by (simp add: readers_ok_def)
    have "gd_grabbed (mr_device mr') \<longrightarrow> mr_grabbed mr'" "mr_forwarding mr' = forward" "mr_grabbed mr' = grabbing"
      using m(1) dev
      by (auto simp: update_mouse_mode_def split: if_splits prod.splits sum.splits dest: ungrab_released)
    with m(2) show ?thesis by (auto simp: readers_ok_def mouse_released_def)
  qed
  then show "readers_ok rd'" "ir_keyboard rd' = ir_keyboard rd" "ir_captured rd' = ir_captured rd"
    "\<not> forward \<Longrightarrow> \<not> grabbing \<Longrightarrow> pred_option mouse_released (ir_mouse rd')" by blast+
qed

lemma reader_step_ok:
  assumes ok: "loop_ok hypot el" and "\<And>rd u. result = (rd, Inr u) \<Longrightarrow> readers_ok rd"
  shows "step_ok hypot el (reader_step result el :: ('i, 'd, 'e, unit) loop_st)"
proof -
  obtain el' res where r: "(reader_step result el :: ('i, 'd, 'e, unit) loop_st) = (el', res)" by fastforce
  from r show ?thesis
  proof (cases rule: reader_step_cases)
    case (failed rd err)
    show ?thesis unfolding r failed(2) by (rule step_ok_fail)
  next
    case (replied rd u)
    with r assms show ?thesis by (auto intro!: step_ok_return simp: loop_ok_def same_flags_def)
  qed
qed

lemma mouse_mode_ok:
  "loop_ok hypot el \<Longrightarrow> step_ok hypot el (reader_step (set_mouse_mode env forward grabbing (el_readers el)) el)"
  by (rule reader_step_ok) (auto simp: loop_ok_def dest: mouse_mode_effect(1))

lemma keyboard_capture_ok:
  "loop_ok hypot el \<Longrightarrow> step_ok hypot el (reader_step (set_keyboard_capture env enabled (el_readers el)) el)"
  by (rule reader_step_ok) (auto simp: loop_ok_def readers_ok_def dest: keyboard_capture_effect(3))

lemma set_overlay_ok: "loop_ok hypot el \<Longrightarrow> step_ok hypot el (set_overlay env enabled sprite el)"
  by (auto simp: set_overlay_def step_ok_def loop_ok_def same_flags_def outside_error_def split: option.splits)

lemma warp_ok: "loop_ok hypot (request_cursor_warp env el) = loop_ok hypot el" "same_flags el (request_cursor_warp env el)"
  by (simp_all add: request_cursor_warp_def loop_ok_def same_flags_def)

lemma loop_session: "loop_ok hypot el \<Longrightarrow> session_inv hypot (el_runtime el)" by (simp add: loop_ok_def)

lemma apply_input_mode_ok:
  assumes "loop_ok hypot el" shows "step_ok hypot el (apply_input_mode hypot env mode reactivate el)"
  unfolding apply_input_mode_def
proof (rule step_ok_andThen)
  show "step_ok hypot el (case mode of
      AimMode \<Rightarrow>
        andThen (reader_step (set_mouse_mode env True (le_grab_allowed env) (el_readers el)) el) (\<lambda>el1 _.
          andThen (set_overlay env False None el1) (\<lambda>el2 _.
            session_step (restore_aim (le_inject env) (le_now env) reactivate (el_runtime el2)) el2))
    | UiMode \<Rightarrow>
        andThen (session_step (set_aim_enabled (le_inject env) (le_now env) False (el_runtime el)) el) (\<lambda>el1 _.
          andThen (session_step (release_mouse_buttons hypot (le_inject env) (le_now env) (el_runtime el1)) el1)
            (\<lambda>el2 _.
              andThen (reader_step (set_mouse_mode env True (le_grab_allowed env) (el_readers el2)) el2) (\<lambda>el3 _.
                set_overlay env True (Some (vc_x (el_cursor el3), vc_y (el_cursor el3))) el3))))"
    using assms
    by (cases mode)
      (auto intro!: step_ok_andThen mouse_mode_ok set_overlay_ok session_step_ok restore_aim_ok set_aim_enabled_ok
        release_mouse_buttons_ok loop_session)
qed (simp add: step_ok_return warp_ok)

text \<open>Recapturing.\<close>

lemma recapture_ok:
  assumes "loop_ok hypot el"
  shows "case recapture_input hypot env el of
      (el', Inr _) \<Rightarrow> loop_ok hypot el' \<and> el_input_active el' | (_, Inl err) \<Rightarrow> outside_error err"
proof -
  let ?body = "andThen (reader_step (set_keyboard_capture env True (el_readers el)) el) (\<lambda>el1 _.
      apply_input_mode hypot env (el_mode el1) (el_toggle_aim_before el1) el1)"
  have "step_ok hypot el ?body"
    by (intro step_ok_andThen keyboard_capture_ok apply_input_mode_ok assms)
  moreover have "recapture_input hypot env el = andThen ?body (\<lambda>el2 _. (el2\<lparr>el_input_active := True\<rparr>, Inr ()))"
    by (simp only: recapture_input_def andThen_assoc)
  ultimately show ?thesis
    by (cases ?body; cases "snd ?body") (auto simp: step_ok_def loop_ok_def)
qed

lemma recapture_keeps: "loop_ok hypot el \<Longrightarrow> keeps_inv hypot (recapture_input hypot env el)"
  using recapture_ok [of hypot el env]
  by (auto simp: keeps_inv_def loop_inv_def split: prod.splits sum.splits)

text \<open>Releasing.\<close>

lemma release_to_os_releases:
  fixes env :: "('i, 'd, 'e) loop_env"
  assumes ok: "loop_ok hypot el" and r: "release_input_to_os env el = (el', Inr u)"
  shows "released el'"
proof -
  from r obtain el1 el2 el3 a b c
    where 1: "(reader_step (set_keyboard_capture env False (el_readers el)) el :: ('i, 'd, 'e, unit) loop_st) = (el1, Inr a)"
    and 2: "(reader_step (set_mouse_mode env False False (el_readers el1)) el1 :: ('i, 'd, 'e, unit) loop_st) = (el2, Inr b)"
    and 3: "(set_overlay env False None el2 :: ('i, 'd, 'e, unit) loop_st) = (el3, Inr c)"
    and 4: "session_step (runtime_suspend (le_inject env) (el_runtime (request_cursor_warp env el3)))
        (request_cursor_warp env el3) = (el', Inr u)"
    unfolding release_input_to_os_def Let_def andThen_Inr_iff by blast
  from 1 obtain rd1 w1 where k: "set_keyboard_capture env False (el_readers el) = (rd1, Inr w1)" "el_readers el1 = rd1"
    by (cases rule: reader_step_cases) auto
  from 2 obtain rd2 w2 where m: "set_mouse_mode env False False (el_readers el1) = (rd2, Inr w2)" "el_readers el2 = rd2"
    by (cases rule: reader_step_cases) auto
  have "readers_ok rd1"
    using ok keyboard_capture_effect(3) [OF k(1)] by (simp add: loop_ok_def readers_ok_def)
  with m k have "readers_ok (el_readers el1)" by simp
  note mouse = mouse_mode_effect [OF m(1) this]
  have readers: "el_readers el' = rd2"
    using 3 4 m(2)
    by (auto simp: set_overlay_def session_step_def request_cursor_warp_def split: option.splits prod.splits sum.splits)
  from 4 obtain s where s: "runtime_suspend (le_inject env) (el_runtime (request_cursor_warp env el3)) = (el_runtime el', Inr s)"
    by (auto simp: session_step_def split: prod.splits sum.splits)
  from s obtain e as where "el_runtime el' = clear_runtime (el_runtime (request_cursor_warp env el3)\<lparr>ur_aims := as, ur_engine := e\<rparr>)"
    "engine_contacts e = Map.empty"
    by (cases rule: runtime_suspend_effect) auto
  then have "down (el_runtime el') = Map.empty" "ur_held_keys (el_runtime el') = MASK_EMPTY"
    "ur_held_buttons (el_runtime el') = 0"
    by (simp_all add: clear_runtime_def)
  with mouse keyboard_capture_effect [OF k(1)] k(2) readers show ?thesis by (simp add: released_def)
qed

lemma release_to_os_ok:
  fixes el :: "('a, 'b) event_loop"
  assumes "loop_ok hypot el" shows "step_ok hypot el (release_input_to_os env el)"
  unfolding release_input_to_os_def Let_def
proof (intro step_ok_andThen)
  fix el1 el2 el3 :: "('a, 'b) event_loop" and a b c
  assume "loop_ok hypot el3"
  then have "step_ok hypot (request_cursor_warp env el3)
      (session_step (runtime_suspend (le_inject env) (el_runtime (request_cursor_warp env el3))) (request_cursor_warp env el3))"
    by (intro session_step_ok runtime_suspend_ok loop_session) (simp_all add: warp_ok)
  then show "step_ok hypot el3
      (session_step (runtime_suspend (le_inject env) (el_runtime (request_cursor_warp env el3))) (request_cursor_warp env el3))"
    using warp_ok(2) [of el3 env] by (auto simp: step_ok_def same_flags_def split: prod.splits sum.splits)
qed (use assms in \<open>simp_all add: keyboard_capture_ok mouse_mode_ok set_overlay_ok\<close>)

lemma release_keeps:
  assumes ok: "loop_ok hypot el" and way_back: "el_manually_released el \<or> el_focus_protected el"
  shows "keeps_inv hypot (release_input env el)"
proof -
  let ?el = "el\<lparr>el_input_active := False, el_mode := desired_mode el, el_toggle_aim_before := aim_active (el_runtime el)\<rparr>"
  obtain el' res where r: "release_input_to_os env ?el = (el', res)" by fastforce
  have "loop_ok hypot ?el" using ok by (simp add: loop_ok_def)
  with release_to_os_ok [of hypot ?el env] release_to_os_releases [of hypot ?el env] r way_back show ?thesis
    by (cases res) (auto simp: release_input_def keeps_inv_def step_ok_def loop_inv_def same_flags_def)
qed

section \<open>Every step of a turn\<close>

text \<open>Updates of the fields the invariant does not read.\<close>

lemma loop_ok_fields [simp]:
  "loop_ok hypot (el\<lparr>el_control_pressed := b\<rparr>) = loop_ok hypot el"
  "loop_ok hypot (el\<lparr>el_waydroid_focused := b\<rparr>) = loop_ok hypot el"
  "loop_ok hypot (el\<lparr>el_saw_focus_event := b\<rparr>) = loop_ok hypot el"
  "loop_ok hypot (el\<lparr>el_manually_released := b\<rparr>) = loop_ok hypot el"
  "loop_ok hypot (el\<lparr>el_focus_protected := b\<rparr>) = loop_ok hypot el"
  "loop_ok hypot (el\<lparr>el_input_active := b\<rparr>) = loop_ok hypot el"
  "loop_ok hypot (el\<lparr>el_mode := mode\<rparr>) = loop_ok hypot el"
  "loop_ok hypot (el\<lparr>el_cursor := c\<rparr>) = loop_ok hypot el"
  "loop_ok hypot (el\<lparr>el_overlay := ov\<rparr>) = loop_ok hypot el"
  by (simp_all add: loop_ok_def)

lemma released_fields [simp]:
  "released (el\<lparr>el_control_pressed := b\<rparr>) = released el" "released (el\<lparr>el_waydroid_focused := b\<rparr>) = released el"
  "released (el\<lparr>el_saw_focus_event := b\<rparr>) = released el" "released (el\<lparr>el_manually_released := b\<rparr>) = released el"
  "released (el\<lparr>el_focus_protected := b\<rparr>) = released el"
  by (simp_all add: released_def)

lemma loop_inv_ok: "loop_inv hypot el \<Longrightarrow> loop_ok hypot el" by (simp add: loop_inv_def)

lemma focus_step_keeps:
  fixes env :: "('i, 'd, 'e) loop_env"
  assumes inv: "loop_inv hypot el" shows "keeps_inv hypot (focus_step hypot env ev el)"
proof (cases ev)
  case (FocusChanged focused)
  show ?thesis
  proof (cases "el_focus_protected el")
    case True
    let ?el = "el\<lparr>el_saw_focus_event := True, el_waydroid_focused := focused, el_control_pressed := False\<rparr>"
    have ok: "loop_ok hypot ?el" using inv by (simp add: loop_inv_def)
    have idle: "keeps_inv hypot ((?el, Inr ()) :: ('i, 'd, 'e, unit) loop_st)"
      using inv by (intro keeps_inv_return) (auto simp: loop_inv_def)
    have rel: "keeps_inv hypot (release_input env ?el)" by (rule release_keeps [OF ok]) (use True in simp)
    have rec: "keeps_inv hypot (recapture_input hypot env ?el)" by (rule recapture_keeps [OF ok])
    show ?thesis
    proof (cases focused)
      case True
      with \<open>el_focus_protected el\<close> idle rec show ?thesis by (simp add: FocusChanged focus_step_def Let_def)
    next
      case False
      with \<open>el_focus_protected el\<close> idle rel show ?thesis by (simp add: FocusChanged focus_step_def Let_def)
    qed
  next
    case False
    with inv show ?thesis by (auto simp: FocusChanged focus_step_def keeps_inv_def loop_inv_def)
  qed
next
  case (FocusUnavailable message)
  let ?el = "el\<lparr>el_focus_protected := False, el_waydroid_focused := False, el_manually_released := True,
      el_control_pressed := False\<rparr>"
  have ok: "loop_ok hypot ?el" using inv by (simp add: loop_inv_def)
  have idle: "keeps_inv hypot ((?el, Inr ()) :: ('i, 'd, 'e, unit) loop_st)"
    using inv by (intro keeps_inv_return) (auto simp: loop_inv_def)
  have rel: "keeps_inv hypot (release_input env ?el)" by (rule release_keeps [OF ok]) simp
  have same: "keeps_inv hypot ((el, Inr ()) :: ('i, 'd, 'e, unit) loop_st)" using inv by (rule keeps_inv_return)
  show ?thesis using rel idle same by (simp add: FocusUnavailable focus_step_def Let_def)
qed

lemma focus_steps_keep: "loop_inv hypot el \<Longrightarrow> keeps_inv hypot (focus_steps hypot env evs el)"
  by (induction evs arbitrary: el) (auto intro!: keeps_inv_andThen focus_step_keeps keeps_inv_return)

lemma focus_fallback_keeps: "loop_inv hypot el \<Longrightarrow> loop_inv hypot (focus_fallback elapsed el)"
  by (auto simp: focus_fallback_def loop_inv_def)

lemma f12_keeps:
  fixes env :: "('i, 'd, 'e) loop_env"
  assumes inv: "loop_inv hypot el" shows "keeps_inv hypot (f12_pressed hypot env el)"
proof -
  let ?el = "el\<lparr>el_control_pressed := False\<rparr>"
  have ok: "loop_ok hypot ?el" "loop_ok hypot (?el\<lparr>el_manually_released := True\<rparr>)" using inv by (simp_all add: loop_inv_def)
  have idle: "keeps_inv hypot ((?el, Inr ()) :: ('i, 'd, 'e, unit) loop_st)"
    using inv by (intro keeps_inv_return) (auto simp: loop_inv_def)
  have taken: "keeps_inv hypot (andThen (recapture_input hypot env ?el)
      (\<lambda>el2 _. (el2\<lparr>el_manually_released := False\<rparr>, Inr ())))"
    using recapture_ok [OF ok(1), of env]
    by (cases "recapture_input hypot env ?el"; cases "snd (recapture_input hypot env ?el)")
      (auto simp: keeps_inv_def loop_inv_def)
  have rel: "keeps_inv hypot (release_input env (?el\<lparr>el_manually_released := True\<rparr>))"
    by (rule release_keeps [OF ok(2)]) simp
  show ?thesis using rel taken idle by (simp add: f12_pressed_def Let_def)
qed

lemma keyboard_step_keeps:
  fixes env :: "('i, 'd, 'e) loop_env"
  assumes inv: "loop_inv hypot el" shows "keeps_inv hypot (keyboard_step hypot env ev el)"
proof (cases "hk_key ev = HF12")
  case True
  with inv show ?thesis
    by (auto simp: keyboard_step_def intro!: keeps_inv_andThen f12_keeps keeps_inv_return)
next
  case key: False
  show ?thesis
  proof (cases "el_input_active el")
    case False
    with key inv show ?thesis by (simp add: keyboard_step_def keeps_inv_return)
  next
    case active: True
    let ?name = "host_profile_name (hk_key ev)"
    let ?el = "if ?name = ''ctrl'' then el\<lparr>el_control_pressed := (hk_transition ev \<noteq> KReleased)\<rparr> else el"
    have ok: "loop_ok hypot ?el" "el_input_active ?el" using loop_inv_ok [OF inv] active by simp_all
    then have inv1: "loop_inv hypot ?el" by (simp add: loop_inv_def)
    have "step_ok hypot ?el (session_step (handle_keyboard hypot (le_inject env) (le_now env) ev (el_runtime ?el)) ?el)"
      by (intro session_step_ok handle_keyboard_ok loop_session ok)
    from active_keeps [OF ok(2) this] have "keeps_inv hypot (andThen
        (session_step (handle_keyboard hypot (le_inject env) (le_now env) ev (el_runtime ?el)) ?el)
        (\<lambda>el2 submitted. (el2, Inr (Submitted submitted))))"
      by (rule keeps_inv_andThen) (rule keeps_inv_return)
    moreover have "keeps_inv hypot ((?el, Inr outcome) :: ('i, 'd, 'e, key_outcome) loop_st)" for outcome
      using inv1 by (rule keeps_inv_return)
    ultimately show ?thesis using key active
      by (simp only: keyboard_step_def Let_def if_False if_True not_True_eq_False) (simp split: if_split_asm)
  qed
qed

lemma keyboard_steps_keep:
  fixes env :: "('i, 'd, 'e) loop_env"
  shows "loop_inv hypot el \<Longrightarrow> keeps_inv hypot (keyboard_steps hypot env evs submitted el)"
proof (induction evs arbitrary: el submitted)
  case (Cons ev evs)
  show ?case unfolding keyboard_steps.simps
  proof (rule keeps_inv_andThen [OF keyboard_step_keeps [OF Cons.prems]])
    fix el' :: "('i, 'd) event_loop" and outcome
    assume "loop_inv hypot el'"
    then show "keeps_inv hypot (case outcome of LeaveLoop e \<Rightarrow> (el', Inr (LeaveLoop e))
        | Submitted s \<Rightarrow> keyboard_steps hypot env evs (submitted \<or> s) el')"
      by (cases outcome) (simp_all add: Cons.IH keeps_inv_return)
  qed
qed (simp add: keeps_inv_return)

lemma record_latency_inv: "loop_inv hypot el \<Longrightarrow> loop_inv hypot (record_latency submitted latency stamp el)"
proof -
  assume inv: "loop_inv hypot el"
  let ?r = "record_pipeline_latency latency stamp (el_runtime el)"
  have "session_inv hypot ?r = session_inv hypot (el_runtime el)"
    by (rule session_inv_cong) (simp_all add: record_pipeline_latency_def Let_def split: option.split)
  moreover have "down ?r = down (el_runtime el)" "ur_held_keys ?r = ur_held_keys (el_runtime el)"
    "ur_held_buttons ?r = ur_held_buttons (el_runtime el)"
    by (simp_all add: record_pipeline_latency_def Let_def split: option.split)
  ultimately show ?thesis using inv by (auto simp: record_latency_def loop_inv_def loop_ok_def released_def)
qed

lemma sync_mode_keeps:
  assumes inv: "loop_inv hypot el" shows "keeps_inv hypot (sync_mode hypot env el)"
proof (cases "el_input_active el \<and> desired_mode el \<noteq> el_mode el")
  case True
  have "step_ok hypot el (andThen (apply_input_mode hypot env (desired_mode el) True el)
      (\<lambda>el' _. (el'\<lparr>el_mode := desired_mode el\<rparr>, Inr ())))"
    by (rule step_ok_andThen [OF apply_input_mode_ok [OF loop_inv_ok [OF inv]]])
      (auto intro!: step_ok_return simp: same_flags_def)
  with True have "keeps_inv hypot (andThen (apply_input_mode hypot env (desired_mode el) True el)
      (\<lambda>el' _. (el'\<lparr>el_mode := desired_mode el\<rparr>, Inr ())))"
    by (intro active_keeps) simp_all
  with True show ?thesis by (simp add: sync_mode_def Let_def)
next
  case False
  with inv show ?thesis by (auto simp: sync_mode_def keeps_inv_return)
qed

text \<open>The loops over mouse events run while the input is active.\<close>

lemma for_each_step_ok:
  assumes "\<And>x el. loop_ok hypot el \<Longrightarrow> step_ok hypot el (body x el)"
  shows "loop_ok hypot el \<Longrightarrow> step_ok hypot el (for_each body xs el)"
proof (induction xs arbitrary: el)
  case (Cons x xs)
  show ?case unfolding for_each.simps
    by (intro step_ok_andThen assms Cons.prems Cons.IH step_ok_return same_flags_refl)
qed (simp add: step_ok_return)

text \<open>A cursor call of the runtime, after the position has changed.\<close>

lemma cursor_position_ok:
  assumes "loop_ok hypot el" and "el1 = el\<lparr>el_cursor := c\<rparr>"
    and "session_ok hypot (el_runtime el1) result"
  shows "step_ok hypot el (andThen (session_step result el1) (\<lambda>el2 _. (el2, Inr submitted)))"
proof -
  have "loop_ok hypot el1" using assms(1,2) by simp
  then have "step_ok hypot el1 (andThen (session_step result el1) (\<lambda>el2 _. (el2, Inr submitted)))"
    by (intro step_ok_andThen session_step_ok assms(3) step_ok_return same_flags_refl)
  then show ?thesis using assms(2) by (auto simp: step_ok_def same_flags_def split: prod.splits sum.splits)
qed

lemma ui_mouse_step_ok:
  fixes env :: "('i, 'd, 'e) loop_env"
  assumes ok: "loop_ok hypot el" shows "step_ok hypot el (ui_mouse_step env ev el)"
proof -
  have inv: "session_inv hypot (el_runtime el)" using ok by (rule loop_session)
  have stay: "step_ok hypot el ((el\<lparr>el_cursor := c\<rparr>, Inr b) :: ('i, 'd, 'e, bool) loop_st)" for c b
    using ok by (auto intro!: step_ok_return simp: same_flags_def)
  have same: "step_ok hypot el ((el, Inr b) :: ('i, 'd, 'e, bool) loop_st)" for b
    using ok by (auto intro!: step_ok_return)
  show ?thesis
  proof (cases ev)
    case (MMotion m)
    let ?c = "cursor_move_by (el_cursor el) (mm_dx m) (mm_dy m) (rwidth (pl_resolution (ur_plan (el_runtime el))))
        (rheight (pl_resolution (ur_plan (el_runtime el))))"
    have "step_ok hypot el (andThen (session_step (cursor_move (le_inject env) (virtual_cursor_point ?c) (el_runtime el))
        (el\<lparr>el_cursor := ?c\<rparr>)) (\<lambda>el2 _. (el2, Inr True)))"
      by (rule cursor_position_ok [OF ok refl]) (simp add: cursor_move_ok [OF inv])
    with stay [of ?c] show ?thesis by (simp add: MMotion ui_mouse_step_def Let_def)
  next
    case (MButton b t)
    let ?c = "\<lambda>pressed. (el_cursor el)\<lparr>vc_pressed := pressed\<rparr>"
    have "step_ok hypot el (andThen (session_step (cursor_down (le_inject env) (virtual_cursor_point (?c True)) (el_runtime el))
        (el\<lparr>el_cursor := ?c True\<rparr>)) (\<lambda>el2 _. (el2, Inr True)))"
      by (rule cursor_position_ok [OF ok refl]) (simp add: cursor_down_ok [OF inv])
    moreover have "step_ok hypot el (andThen (session_step (cursor_up (le_inject env) (el_runtime el))
        (el\<lparr>el_cursor := ?c False\<rparr>)) (\<lambda>el2 _. (el2, Inr True)))"
      by (rule cursor_position_ok [OF ok refl]) (simp add: cursor_up_ok [OF inv])
    ultimately show ?thesis using same by (cases t) (simp_all add: MButton ui_mouse_step_def Let_def)
  qed (simp add: ui_mouse_step_def same)
qed

lemma update_sprite_inv: "loop_inv hypot el \<Longrightarrow> loop_inv hypot (update_sprite env dirty el)"
  by (auto simp: update_sprite_def loop_inv_def released_def split: option.split bool.split)

lemma mouse_steps_keep:
  assumes inv: "loop_inv hypot el" shows "keeps_inv hypot (mouse_steps hypot env latency events stamp el)"
proof (cases "el_input_active el")
  case False
  with inv show ?thesis by (simp add: mouse_steps_def keeps_inv_return)
next
  case True
  have aim: "step_ok hypot el' (aim_mouse_step hypot env ev el')" if "loop_ok hypot el'" for ev and el'
    unfolding aim_mouse_step_def using that by (intro session_step_ok handle_mouse_ok loop_session)
  have k1: "keeps_inv hypot (for_each (aim_mouse_step hypot env) events el)"
    by (rule active_keeps [OF True for_each_step_ok [OF aim loop_inv_ok [OF inv]]])
  have "step_ok hypot el (for_each (ui_mouse_step env) events el)"
    by (rule for_each_step_ok [OF ui_mouse_step_ok loop_inv_ok [OF inv]])
  from active_keeps [OF True this] have k2: "keeps_inv hypot (andThen (for_each (ui_mouse_step env) events el) (\<lambda>el1 submitted.
      (record_latency submitted latency stamp (update_sprite env (list_ex is_motion events) el1), Inr ())))"
    by (rule keeps_inv_andThen) (intro keeps_inv_return record_latency_inv update_sprite_inv)
  show ?thesis unfolding mouse_steps_def
    using k2 True by (auto intro!: keeps_inv_andThen k1 keeps_inv_return record_latency_inv)
qed

lemma cursor_step_keeps:
  assumes inv: "loop_inv hypot el" shows "keeps_inv hypot (cursor_step env latency ev el)"
proof (cases "el_input_active el \<and> el_mode el = UiMode")
  case True
  note ok = loop_inv_ok [OF inv]
  have step: "step_ok hypot el (case ev of
       CeMotion x y w h \<Rightarrow>
         (case cursor_point (el_runtime el) x y w h of
            None \<Rightarrow> (el, Inr False)
          | Some p \<Rightarrow>
              andThen (session_step (cursor_move (le_inject env) p (el_runtime el)) el) (\<lambda>el1 _.
                (el1, Inr (is_active (engine_state (ur_engine (el_runtime el1))) (ur_cursor_contact (el_runtime el1))))))
     | CeLeftButton pressed x y w h \<Rightarrow>
         (case cursor_point (el_runtime el) x y w h of
            None \<Rightarrow> (el, Inr False)
          | Some p \<Rightarrow>
              andThen (session_step (if pressed then cursor_down (le_inject env) p (el_runtime el)
                                     else cursor_up (le_inject env) (el_runtime el)) el) (\<lambda>el1 _. (el1, Inr True))))"
    using ok
    by (auto intro!: step_ok_andThen session_step_ok step_ok_return cursor_move_ok cursor_down_ok cursor_up_ok loop_session
        split: cursor_event.split option.split)
  have "keeps_inv hypot (cursor_step env latency ev el)"
    unfolding cursor_step_def using True
    by (simp only: if_True simp_thms)
      (intro keeps_inv_andThen [OF active_keeps [OF _ step]] keeps_inv_return record_latency_inv; simp)
  then show ?thesis .
qed (use inv in \<open>auto simp: cursor_step_def keeps_inv_return\<close>)

lemma host_step_keeps:
  fixes env :: "('i, 'd, 'e) loop_env"
  assumes inv: "loop_inv hypot el" shows "keeps_inv hypot (host_step hypot env latency ev el)"
proof (cases ev)
  case (HeKeyboard events stamp)
  have "keeps_inv hypot (andThen (keyboard_steps hypot env events False el) (\<lambda>el1 outcome.
      case outcome of LeaveLoop e \<Rightarrow> (el1, Inr (Some e))
      | Submitted s \<Rightarrow> andThen (sync_mode hypot env (record_latency s latency stamp el1)) (\<lambda>el2 _. (el2, Inr None))))"
  proof (rule keeps_inv_andThen [OF keyboard_steps_keep [OF inv]])
    fix el1 :: "('i, 'd) event_loop" and outcome
    assume "loop_inv hypot el1"
    then show "keeps_inv hypot (case outcome of LeaveLoop e \<Rightarrow> (el1, Inr (Some e))
      | Submitted s \<Rightarrow> andThen (sync_mode hypot env (record_latency s latency stamp el1)) (\<lambda>el2 _. (el2, Inr None)))"
      by (cases outcome) (auto intro!: keeps_inv_return keeps_inv_andThen sync_mode_keeps record_latency_inv)
  qed
  then show ?thesis by (simp add: HeKeyboard host_step_def)
next
  case (HeMouse events stamp)
  show ?thesis unfolding HeMouse host_step_def host_event.case
    by (rule keeps_inv_andThen [OF mouse_steps_keep [OF inv]]) (rule keeps_inv_return)
next
  case (HeCursor c)
  show ?thesis unfolding HeCursor host_step_def host_event.case
    by (rule keeps_inv_andThen [OF cursor_step_keeps [OF inv]]) (rule keeps_inv_return)
qed (simp add: host_step_def keeps_inv_def outside_error_def)

lemma turn_tick_keeps:
  assumes inv: "loop_inv hypot el" shows "keeps_inv hypot (turn_tick env el)"
proof (cases "el_input_active el")
  case True
  have "step_ok hypot el (session_step (runtime_tick (le_inject env) (le_now env) (el_runtime el)) el)"
    by (intro session_step_ok runtime_tick_ok loop_session loop_inv_ok inv)
  with True show ?thesis by (simp add: turn_tick_def active_keeps)
qed (simp add: turn_tick_def keeps_inv_return inv)

lemma loop_turn_keeps:
  assumes inv: "loop_inv hypot el" shows "keeps_inv hypot (loop_turn_step hypot exit_after t el)"
proof -
  have focus: "keeps_inv hypot (turn_focus hypot t el)"
    using inv by (auto simp: turn_focus_def
        intro!: keeps_inv_return keeps_inv_andThen focus_steps_keep focus_fallback_keeps split: option.split)
  have received: "keeps_inv hypot (case lt_received t of
       Received ev \<Rightarrow> host_step hypot (lt_env t) (lt_latency t) ev el1
     | RecvTimeout \<Rightarrow> (el1, Inr None)
     | RecvDisconnected \<Rightarrow>
         (el1, Inl (LeIo ''all input readers disconnected unexpectedly while the game session was running'')))"
    if "loop_inv hypot el1" for el1
    using that by (simp add: host_step_keeps keeps_inv_return split: received.split)
      (simp add: keeps_inv_def outside_error_def)
  show ?thesis unfolding loop_turn_step_def
    by (auto intro!: keeps_inv_return inv keeps_inv_andThen [OF focus] keeps_inv_andThen [OF received]
        keeps_inv_andThen [OF turn_tick_keeps] split: option.split)
qed

lemma event_loop_run_keeps: "loop_inv hypot el \<Longrightarrow> keeps_inv hypot (event_loop_run hypot exit_after ts el)"
proof (induction ts arbitrary: el)
  case (Cons t ts)
  show ?case unfolding event_loop_run.simps
    by (rule keeps_inv_andThen [OF loop_turn_keeps [OF Cons.prems]])
      (auto intro!: keeps_inv_return Cons.IH split: option.split)
qed (simp add: keeps_inv_return)

section \<open>A whole session\<close>

text \<open>What a new runtime starts with.\<close>

lemma runtime_new_idle:
  assumes "runtime_new plan device = Inr r"
  shows "down r = Map.empty" "ur_held_keys r = MASK_EMPTY" "ur_held_buttons r = 0"
  using assms by (auto simp: runtime_new_def engine_new_def touch_state_default_def contact_position_def fun_eq_iff Let_def split: sum.splits prod.splits)

lemma capture_devices_ok:
  assumes c: "capture_devices env focused keyboard mouse = ((keyboard', mouse'), Inr u)"
    and "\<not> gd_grabbed keyboard" "pred_option (\<lambda>m. \<not> gd_grabbed m) mouse" and "\<not> focused"
  shows "\<not> gd_grabbed keyboard'" "pred_option (\<lambda>m. \<not> gd_grabbed m) mouse'"
  using assms by (auto simp: capture_devices_def)

text \<open>The loop a session starts with: without the focus, nothing is captured yet.\<close>

lemma session_loop_inv:
  assumes inv: "session_inv hypot r" and idle: "down r = Map.empty" "ur_held_keys r = MASK_EMPTY" "ur_held_buttons r = 0"
    and devices: "relay = Some False \<Longrightarrow> \<not> gd_grabbed keyboard \<and> pred_option (\<lambda>m. \<not> gd_grabbed m) mouse"
  shows "loop_inv hypot (session_loop relay warp keyboard mouse with_overlay r)"
    "el_input_active (session_loop relay warp keyboard mouse with_overlay r) \<longleftrightarrow> relay \<noteq> Some False"
  using assms
  by (cases relay; cases mouse;
      auto simp: session_loop_def Let_def loop_inv_def loop_ok_def readers_ok_def released_def mouse_released_def)+

lemma event_loop_begin_keeps:
  assumes inv: "loop_inv hypot el" shows "keeps_inv hypot (event_loop_begin hypot env el)"
proof (cases "el_input_active el \<and> el_mode el = UiMode")
  case True
  with active_keeps [OF _ apply_input_mode_ok [OF loop_inv_ok [OF inv], of env UiMode False]] show ?thesis
    by (simp add: event_loop_begin_def)
next
  case False
  with inv show ?thesis by (auto simp: event_loop_begin_def keeps_inv_return)
qed

lemma run_event_loop_keeps: "loop_inv hypot el \<Longrightarrow> keeps_inv hypot (run_event_loop hypot exit_after env turns el)"
  unfolding run_event_loop_def by (intro keeps_inv_andThen event_loop_begin_keeps event_loop_run_keeps)

lemma session_start_keeps:
  assumes inv: "loop_inv hypot el" and "el_input_active el"
  shows "keeps_inv hypot (session_step (runtime_start inject now (el_runtime el)) el)"
  by (rule active_keeps [OF assms(2) session_step_ok [OF loop_inv_ok [OF inv] runtime_start_ok]])
    (rule loop_session [OF loop_inv_ok [OF inv]])

text \<open>A session that ends has no touch left.\<close>

lemma finish_session_idle:
  assumes keeps: "keeps_inv hypot result"
  shows "case finish_session env result of
      (el, Inr None) \<Rightarrow> loop_inv hypot el
    | (el, Inr (Some e)) \<Rightarrow> down (el_runtime el) = Map.empty
    | (el, Inl err) \<Rightarrow> outside_error err"
proof -
  obtain el res where r: "result = (el, res)" by fastforce
  obtain r' cleanup where s: "runtime_suspend (le_inject env) (el_runtime el) = (r', cleanup)" by fastforce
  from s obtain e as where "r' = clear_runtime (el_runtime el\<lparr>ur_aims := as, ur_engine := e\<rparr>)"
    "case cleanup of Inr _ \<Rightarrow> engine_contacts e = Map.empty | Inl err \<Rightarrow> session_only_injection err"
    by (rule runtime_suspend_effect)
  then have "case cleanup of Inr _ \<Rightarrow> down r' = Map.empty | Inl err \<Rightarrow> session_only_injection err"
    by (simp add: clear_runtime_def split: sum.split_asm)
  with keeps r s show ?thesis
    by (cases res; cases cleanup)
      (auto simp: finish_session_def keeps_inv_def outside_error_def split: option.split sum.split)
qed

text \<open>Of input that is released only \<open>F12\<close> reaches the loop.\<close>

lemma released_reads_nothing:
  "keyboard_reader_poll False batch = (Some (HeKeyboard events stamp), continues) \<Longrightarrow> list_all (\<lambda>ev. hk_key ev = HF12) events"
  "mouse_reader_poll False batch' \<noteq> (Some (HeMouse moves stamp), continues)"
  by (auto simp: keyboard_reader_poll_def mouse_reader_poll_def keyboard_events_for_capture_def Let_def list_all_iff
      split: option.splits sum.splits if_splits)

text \<open>Draining stops at the first batch that is not there.\<close>

lemma drain_keyboard_silent: "poll d = (d', PollWouldBlock) \<Longrightarrow> 0 < n \<Longrightarrow> drain_keyboard poll n d = (d', Inr ())"
  by (cases n) simp_all

text \<open>A world that answers everything, and a turn in which nothing happens.\<close>

definition quiet_env :: "duration \<Rightarrow> (unit, unit, unit) loop_env" where
  "quiet_env now =
     \<lparr>le_inject = quiet_injector, le_poll = (\<lambda>d. (d, PollWouldBlock)), le_clear = id, le_grab = (\<lambda>d. (d, Inr ())), le_ungrab = (\<lambda>d. (d, Inr ())),
      le_grab_allowed = True, le_keyboard_reply = None, le_mouse_reply = None, le_overlay_reply = None, le_warp_ok = True,
      le_now = now\<rparr>"

definition quiet_turn :: "duration \<Rightarrow> (unit, unit, unit) loop_turn" where
  "quiet_turn now =
     \<lparr>lt_env = quiet_env now, lt_interrupted = False, lt_focus = Some [FocusChanged True], lt_elapsed = now,
      lt_received = Received (HeKeyboard [\<lparr>hk_key = HF12, hk_transition = KPressed\<rparr>] None), lt_latency = 0,
      lt_elapsed_after = now\<rparr>"

text \<open>C1. A game session from end to end: whatever the profile, the focus relay, the events and the
  interrupts are, the runtime and its loop start, the only error is that a device, the overlay or the injector
  fails, while the session runs the input the desktop owns has no touch down, no key held and no device grabbed,
  and a session that ends by itself leaves no touch down.\<close>

theorem game_session_safe:
  fixes env :: "('i, 'd, 'e) loop_env"
  assumes plan: "from_profile_v2 p res = Some (Inr plan)" and dim: "0 < rwidth res" "0 < rheight res"
    and size: "3 * length (p2_bindings p) < 65535"
    and devices: "\<not> gd_grabbed keyboard" "pred_option (\<lambda>m. \<not> gd_grabbed m) mouse"
  shows "case game_session hypot exit_after env env_end socket warp keyboard mouse with_overlay plan device turns of
      (_, Inl err) \<Rightarrow> outside_error err
    | (None, Inr _) \<Rightarrow> False
    | (Some el, Inr None) \<Rightarrow> loop_inv hypot el
    | (Some el, Inr (Some e)) \<Rightarrow> down (el_runtime el) = Map.empty"
proof -
  define relay where "relay = (if le_grab_allowed env then socket else None)"
  define focused where "focused = (case relay of None \<Rightarrow> True | Some focused \<Rightarrow> focused)"
  have "plan_ok plan" by (rule plan_of_valid_profile [OF plan dim]) (use size in simp)
  then obtain r where r: "(runtime_new plan device :: 'e session_error + _) = Inr r" "session_inv hypot r"
    using runtime_new_sound [of plan device hypot] size plan_length [OF plan] by auto
  obtain keyboard' mouse' cap where c: "capture_devices env focused keyboard mouse = ((keyboard', mouse'), cap)"
    by (metis prod.collapse)
  show ?thesis
  proof (cases cap)
    case (Inl err)
    with c show ?thesis
      by (simp add: game_session_def relay_def [symmetric] focused_def [symmetric] Let_def outside_error_def)
  next
    case (Inr u)
    have away: "relay = Some False \<longleftrightarrow> \<not> focused" by (auto simp: focused_def split: option.splits)
    define el where "el = session_loop relay warp keyboard' mouse' with_overlay r"
    have loose: "relay = Some False \<Longrightarrow> \<not> gd_grabbed keyboard' \<and> pred_option (\<lambda>m. \<not> gd_grabbed m) mouse'"
      using capture_devices_ok [OF c [unfolded Inr] devices] away by blast
    have el: "loop_inv hypot el" "el_input_active el \<longleftrightarrow> relay \<noteq> Some False"
      unfolding el_def by (rule session_loop_inv [OF r(2) runtime_new_idle [OF r(1)]]; rule loose; assumption)+
    define start :: "('i, 'd, 'e, unit) loop_st" where
      "start = (if focused then session_step (runtime_start (le_inject env) (le_now env) (el_runtime el)) el else (el, Inr ()))"
    obtain el1 sres where st: "start = (el1, sres)" by fastforce
    have "keeps_inv hypot start"
    proof (cases focused)
      case True
      with el away show ?thesis unfolding start_def by (simp only: if_True) (rule session_start_keeps; simp)
    qed (simp add: start_def keeps_inv_return el(1))
    with st have start: "case sres of Inr _ \<Rightarrow> loop_inv hypot el1 | Inl err \<Rightarrow> outside_error err"
      by (simp add: keeps_inv_def)
    have game: "game_session hypot exit_after env env_end socket warp keyboard mouse with_overlay plan device turns =
        (case start of (el1, Inl err) \<Rightarrow> (Some el1, Inl err)
         | (el1, Inr _) \<Rightarrow> (case finish_session env_end (run_event_loop hypot exit_after env turns el1) of
             (el2, result) \<Rightarrow> (Some el2, result)))"
      using c Inr r(1)
      by (simp add: game_session_def relay_def [symmetric] focused_def [symmetric] el_def [symmetric] Let_def start_def)
    show ?thesis
    proof (cases sres)
      case (Inl err)
      with game st start show ?thesis by simp
    next
      case (Inr u)
      with start have "loop_inv hypot el1" by simp
      from finish_session_idle [OF run_event_loop_keeps [OF this], of env_end exit_after env turns] show ?thesis
        by (simp add: game st Inr split: prod.splits sum.splits option.splits)
    qed
  qed
qed

lemma game_session_safe_witness:
  "\<exists>plan. from_profile_v2 example_profile_v2 \<lparr>rwidth = 1920, rheight = 1080\<rparr> = Some (Inr plan)
     \<and> (case game_session no_libm None (quiet_env 5) (quiet_env 9) (Some False) True \<lparr>gd_device = (), gd_grabbed = False\<rparr> None
             True plan () [quiet_turn 7] of
           (_, Inl err) \<Rightarrow> outside_error err
         | (None, Inr _) \<Rightarrow> False
         | (Some el, Inr None) \<Rightarrow> loop_inv no_libm el
         | (Some el, Inr (Some e)) \<Rightarrow> down (el_runtime el) = Map.empty)"
proof -
  let ?res = "\<lparr>rwidth = 1920, rheight = 1080\<rparr>"
  obtain plan where p: "from_profile_v2 example_profile_v2 ?res = Some (Inr plan)"
    using from_profile_v2_accepts [OF example_profile_v2_ok(1) _ _ example_profile_v2_ok(2), of ?res] by auto
  have "3 * length (p2_bindings example_profile_v2) < 65535" by (simp add: example_profile_v2_def)
  from game_session_safe [OF p _ _ this, of "\<lparr>gd_device = (), gd_grabbed = False\<rparr>" None no_libm None "quiet_env 5"
      "quiet_env 9" "Some False" True True "()" "[quiet_turn 7]"] p
  show ?thesis by simp
qed

text \<open>C13. The session is never dead: whatever has happened to the focus relay and to the input, once the game
  window is reported focused the input is captured, or a press of \<open>F12\<close> captures it, unless a device, the
  overlay or the injector fails.\<close>

theorem session_never_dead:
  fixes env :: "('i, 'd, 'e) loop_env"
  assumes inv: "loop_inv hypot el"
  shows "case andThen (focus_step hypot env (FocusChanged True) el)
        (\<lambda>el' _. if el_input_active el' then (el', Inr ()) else f12_pressed hypot env el') of
      (el', Inr _) \<Rightarrow> el_input_active el' | (_, Inl err) \<Rightarrow> outside_error err"
proof -
  have taken: "case andThen (recapture_input hypot env el1) (\<lambda>el2 _. (el2\<lparr>el_manually_released := False\<rparr>, Inr ())) of
      (el', Inr _) \<Rightarrow> el_input_active el' | (_, Inl err) \<Rightarrow> outside_error err" if "loop_ok hypot el1" for el1
    using recapture_ok [OF that, of env]
    by (cases "recapture_input hypot env el1"; cases "snd (recapture_input hypot env el1)") auto
  have key: "case f12_pressed hypot env el1 of (el', Inr _) \<Rightarrow> el_input_active el' | (_, Inl err) \<Rightarrow> outside_error err"
    if "loop_ok hypot el1" "\<not> el_input_active el1" "el_manually_released el1"
      "el_waydroid_focused el1 \<or> \<not> el_focus_protected el1" for el1
    using that taken [of "el1\<lparr>el_control_pressed := False\<rparr>"] by (simp add: f12_pressed_def Let_def)
  let ?on = "el\<lparr>el_saw_focus_event := True, el_waydroid_focused := True, el_control_pressed := False\<rparr>"
  have ok: "loop_ok hypot ?on" "loop_ok hypot (el\<lparr>el_saw_focus_event := True, el_waydroid_focused := True\<rparr>)"
    using inv by (simp_all add: loop_inv_def)
  show ?thesis
  proof (cases "el_focus_protected el \<and> \<not> el_manually_released el \<and> \<not> el_input_active el")
    case True
    then have step: "focus_step hypot env (FocusChanged True) el = recapture_input hypot env ?on"
      by (simp add: focus_step_def Let_def)
    show ?thesis unfolding step using recapture_ok [OF ok(1), of env]
      by (cases "recapture_input hypot env ?on"; cases "snd (recapture_input hypot env ?on)") auto
  next
    case False
    with inv have "el_input_active el \<or> el_manually_released el" by (auto simp: loop_inv_def)
    with False show ?thesis using key [OF ok(1)] key [OF ok(2)] by (auto simp: focus_step_def Let_def)
  qed
qed

text \<open>Without the focus, an idle runtime has nothing captured.\<close>

definition idle_loop :: "(unit, unit) event_loop" where
  "idle_loop = session_loop (Some False) True \<lparr>gd_device = (), gd_grabbed = False\<rparr> None True (hold_session False MASK_EMPTY)"

lemma idle_loop_inv: "loop_inv hypot idle_loop"
  unfolding idle_loop_def
  by (rule session_loop_inv [OF hold_session_inv]) (simp_all add: hold_session_down)

lemma session_never_dead_witness:
  "case andThen (focus_step no_libm (quiet_env 5) (FocusChanged True) idle_loop)
      (\<lambda>el' _. if el_input_active el' then (el', Inr ()) else f12_pressed no_libm (quiet_env 5) el') of
    (el', Inr _) \<Rightarrow> el_input_active el' | (_, Inl err) \<Rightarrow> outside_error err"
  by (rule session_never_dead [OF idle_loop_inv])

end
