(* ===== verification/CursorTouch.thy ===== *)
theory CursorTouch
  imports EventLoopSafe
begin

text \<open>
  The cursor's own contact across the modes of the event loop: no key and, in aim mode, no mouse event
  moves or lifts it. A click of the UI cursor that the aim key interrupts therefore never ends.
\<close>

section \<open>Steps that keep the cursor's contact\<close>

definition cursor_kept ::
  "(f64 \<Rightarrow> f64 \<Rightarrow> f64) \<Rightarrow> ('i, 'd) event_loop \<Rightarrow> ('i, 'd, 'e, 'a) loop_st \<Rightarrow> bool" where
  "cursor_kept hypot el result \<longleftrightarrow>
     (case result of
        (el', Inr _) \<Rightarrow> loop_ok hypot el' \<and> cursor_touch (el_runtime el') = cursor_touch (el_runtime el)
      | (_, Inl _) \<Rightarrow> True)"

lemma cursor_kept_andThen:
  assumes "cursor_kept hypot el result" and "\<And>el' a. result = (el', Inr a) \<Longrightarrow> loop_ok hypot el' \<Longrightarrow> cursor_kept hypot el' (f el' a)"
  shows "cursor_kept hypot el (andThen result f)"
proof -
  obtain el' res where r: "result = (el', res)" by fastforce
  show ?thesis
  proof (cases res)
    case (Inr a)
    with assms(1) r have el': "loop_ok hypot el'" "cursor_touch (el_runtime el') = cursor_touch (el_runtime el)"
      by (simp_all add: cursor_kept_def)
    from assms(2) [of el' a] r Inr el' have "cursor_kept hypot el' (f el' a)" by simp
    then have "cursor_kept hypot el (f el' a)" unfolding cursor_kept_def el'(2) .
    then show ?thesis by (simp add: r Inr)
  qed (simp add: r cursor_kept_def)
qed

lemma cursor_kept_return: "loop_ok hypot el \<Longrightarrow> cursor_kept hypot el (el, Inr a)" by (simp add: cursor_kept_def)

lemma cursor_kept_session:
  "loop_ok hypot el \<Longrightarrow> bindings_ok hypot (el_runtime el) result \<Longrightarrow> cursor_kept hypot el (session_step result el)"
  by (auto simp: cursor_kept_def session_step_def bindings_ok_def same_setting_def loop_ok_def split: prod.splits sum.splits)

lemma cursor_kept_reader:
  assumes "step_ok hypot el (reader_step result el :: ('i, 'd, 'e, unit) loop_st)"
  shows "cursor_kept hypot el (reader_step result el :: ('i, 'd, 'e, unit) loop_st)"
  using assms by (auto simp: cursor_kept_def step_ok_def reader_step_def split: prod.splits sum.splits)

lemma cursor_kept_overlay: "loop_ok hypot el \<Longrightarrow> cursor_kept hypot el (set_overlay env enabled sprite el)"
  by (auto simp: set_overlay_def cursor_kept_def split: option.splits)

lemma cursor_kept_mode:
  assumes ok: "loop_ok hypot el" shows "cursor_kept hypot el (apply_input_mode hypot env mode reactivate el)"
  unfolding apply_input_mode_def
proof (rule cursor_kept_andThen)
  show "cursor_kept hypot el (case mode of
      AimMode \<Rightarrow>
        andThen (reader_step (set_mouse_mode env True (le_grab_allowed env) (el_readers el)) el) (\<lambda>el1 _.
          andThen (set_overlay env False None el1) (\<lambda>el2 _.
            session_step (restore_aim (le_inject env) (le_now env) reactivate (el_runtime el2)) el2))
    | UiMode \<Rightarrow>
        andThen (session_step (set_aim_enabled (le_inject env) (le_now env) False (el_runtime el)) el) (\<lambda>el1 _.
          andThen (session_step (release_mouse_buttons hypot (le_inject env) (le_now env) (el_runtime el1)) el1)
            (\<lambda>el2 _.
              andThen (reader_step (set_mouse_mode env True (le_grab_allowed env) (el_readers el2)) el2) (\<lambda>el3 _.
                set_overlay env True (Some (vc_x (el_cursor el3), vc_y (el_cursor el3))) el3))))"
    using ok
    by (cases mode)
      (auto intro!: cursor_kept_andThen cursor_kept_reader mouse_mode_ok cursor_kept_overlay cursor_kept_session
        restore_aim_bindings set_aim_enabled_bindings release_mouse_buttons_bindings loop_session)
qed (simp add: cursor_kept_def warp_ok, simp add: request_cursor_warp_def)

lemma latency_cursor:
  "loop_ok hypot el \<Longrightarrow> loop_ok hypot (record_latency submitted latency stamp el)"
  "cursor_touch (el_runtime (record_latency submitted latency stamp el)) = cursor_touch (el_runtime el)"
proof -
  let ?r = "record_pipeline_latency latency stamp (el_runtime el)"
  have "session_inv hypot ?r = session_inv hypot (el_runtime el)"
    by (rule session_inv_cong) (simp_all add: record_pipeline_latency_def Let_def split: option.split)
  then show "loop_ok hypot el \<Longrightarrow> loop_ok hypot (record_latency submitted latency stamp el)"
    by (simp add: record_latency_def loop_ok_def)
  show "cursor_touch (el_runtime (record_latency submitted latency stamp el)) = cursor_touch (el_runtime el)"
    by (simp add: record_latency_def cursor_touch_def record_pipeline_latency_def Let_def split: option.split)
qed

lemma cursor_kept_sync:
  assumes ok: "loop_ok hypot el" shows "cursor_kept hypot el (sync_mode hypot env el)"
proof (cases "el_input_active el \<and> desired_mode el \<noteq> el_mode el")
  case True
  have "cursor_kept hypot el (andThen (apply_input_mode hypot env (desired_mode el) True el)
      (\<lambda>el' _. (el'\<lparr>el_mode := desired_mode el\<rparr>, Inr ())))"
    by (rule cursor_kept_andThen [OF cursor_kept_mode [OF ok]]) (simp add: cursor_kept_def)
  with True show ?thesis by (simp add: sync_mode_def Let_def)
next
  case False
  with ok show ?thesis by (auto simp: sync_mode_def cursor_kept_return)
qed

lemma cursor_kept_key:
  fixes env :: "('i, 'd, 'e) loop_env"
  assumes ok: "loop_ok hypot el" and key: "hk_key ev \<noteq> HF12"
  shows "cursor_kept hypot el (keyboard_step hypot env ev el)"
proof -
  let ?el = "if host_profile_name (hk_key ev) = ''ctrl''
    then el\<lparr>el_control_pressed := (hk_transition ev \<noteq> KReleased)\<rparr> else el"
  have el: "loop_ok hypot ?el" "el_runtime ?el = el_runtime el" using ok by simp_all
  have "cursor_kept hypot ?el (andThen
      (session_step (handle_keyboard hypot (le_inject env) (le_now env) ev (el_runtime ?el)) ?el)
      (\<lambda>el2 submitted. (el2, Inr (Submitted submitted))))"
    by (intro cursor_kept_andThen cursor_kept_session handle_keyboard_bindings loop_session el(1) cursor_kept_return)
  moreover have "cursor_kept hypot ?el ((?el, Inr outcome) :: ('i, 'd, 'e, key_outcome) loop_st)" for outcome
    using el(1) by (rule cursor_kept_return)
  ultimately have "cursor_kept hypot el (andThen
      (session_step (handle_keyboard hypot (le_inject env) (le_now env) ev (el_runtime ?el)) ?el)
      (\<lambda>el2 submitted. (el2, Inr (Submitted submitted))))"
    "cursor_kept hypot el ((?el, Inr outcome) :: ('i, 'd, 'e, key_outcome) loop_st)" for outcome
    unfolding cursor_kept_def el(2) by blast+
  moreover have "cursor_kept hypot el ((el, Inr outcome) :: ('i, 'd, 'e, key_outcome) loop_st)" for outcome
    using ok by (rule cursor_kept_return)
  ultimately show ?thesis using key
    by (simp only: keyboard_step_def Let_def if_False) (simp split: if_split_asm)
qed

lemma cursor_kept_mouse:
  fixes env :: "('i, 'd, 'e) loop_env"
  assumes ok: "loop_ok hypot el" and aim: "el_mode el = AimMode"
  shows "cursor_kept hypot el (mouse_steps hypot env latency events stamp el)"
proof -
  have step: "cursor_kept hypot el' (aim_mouse_step hypot env ev el')" if "loop_ok hypot el'" for ev and el' :: "('i, 'd) event_loop"
    unfolding aim_mouse_step_def using that by (intro cursor_kept_session handle_mouse_bindings loop_session)
  have "cursor_kept hypot el' (for_each (aim_mouse_step hypot env) evs el')" if "loop_ok hypot el'" for evs and el' :: "('i, 'd) event_loop"
    using that
  proof (induction evs arbitrary: el')
    case (Cons ev evs)
    show ?case unfolding for_each.simps
      by (intro cursor_kept_andThen step Cons.prems Cons.IH cursor_kept_return)
  qed (simp add: cursor_kept_return)
  with ok have "cursor_kept hypot el (for_each (aim_mouse_step hypot env) events el)" by blast
  then have "cursor_kept hypot el (andThen (for_each (aim_mouse_step hypot env) events el)
      (\<lambda>el1 submitted. (record_latency submitted latency stamp el1, Inr ())))"
    by (rule cursor_kept_andThen) (simp add: cursor_kept_def latency_cursor)
  with ok aim show ?thesis by (simp add: mouse_steps_def cursor_kept_return)
qed

text \<open>C14. A click of the UI cursor that a key interrupts by switching to aim mode does not end: neither the
  key, nor the switch, nor any mouse event that follows in aim mode - the release of the button among them -
  lifts or moves the cursor's contact, so Android keeps the touch although no button is held.\<close>

theorem cursor_contact_stuck:
  assumes inv: "loop_inv hypot el" and key: "hk_key ev \<noteq> HF12"
    and pressed: "host_step hypot env latency (HeKeyboard [ev] stamp) el = (el1, Inr None)"
    and aim: "el_mode el1 = AimMode"
    and mouse: "host_step hypot env' latency' (HeMouse events stamp') el1 = (el2, Inr None)"
  shows "cursor_touch (el_runtime el2) = cursor_touch (el_runtime el)"
proof -
  have ok: "loop_ok hypot el" using inv by (rule loop_inv_ok)
  obtain el0 key_out where s: "keyboard_step hypot env ev el = (el0, Inr key_out)"
    and "andThen (case key_out of LeaveLoop e \<Rightarrow> (el0, Inr (LeaveLoop e)) | Submitted s \<Rightarrow> (el0, Inr (Submitted s)))
      (\<lambda>el1 outcome. case outcome of LeaveLoop e \<Rightarrow> (el1, Inr (Some e))
       | Submitted s \<Rightarrow> andThen (sync_mode hypot env (record_latency s latency stamp el1)) (\<lambda>el2 _. (el2, Inr None))) =
      (el1, Inr None)"
    using pressed by (auto simp: host_step_def andThen_Inr_iff)
  then obtain outcome where k: "sync_mode hypot env (record_latency outcome latency stamp el0) = (el1, Inr ())"
    by (cases key_out) (auto simp: andThen_Inr_iff)
  have 0: "loop_ok hypot el0" "cursor_touch (el_runtime el0) = cursor_touch (el_runtime el)"
    using cursor_kept_key [OF ok key, of env] by (simp_all add: s cursor_kept_def)
  have 1: "loop_ok hypot el1" "cursor_touch (el_runtime el1) = cursor_touch (el_runtime el0)"
    using cursor_kept_sync [OF latency_cursor(1) [OF 0(1)], of outcome latency stamp env]
    by (simp_all add: k cursor_kept_def latency_cursor)
  have "cursor_touch (el_runtime el2) = cursor_touch (el_runtime el1)"
    using cursor_kept_mouse [OF 1(1) aim, of env' latency' events stamp'] mouse
    by (auto simp: host_step_def andThen_Inr_iff cursor_kept_def)
  with 0 1 show ?thesis by simp
qed

text \<open>A profile whose only binding is a mouse aim that the key \<open>Q\<close> toggles, in UI mode with the left button down.\<close>

definition toggle_settings :: mouse_aim_settings where
  "toggle_settings = settings_default\<lparr>st_toggle_key := Some ''Q''\<rparr>"

definition toggle_plan :: control_plan where
  "toggle_plan =
     \<lparr>pl_profile_name = ''demo'', pl_package_name = ''com.example'', pl_resolution = \<lparr>rwidth = 1920, rheight = 1080\<rparr>,
      pl_layers = [], pl_modifier_keys = MASK_EMPTY,
      pl_controls = [\<lparr>rb_name = ''aim'', rb_input = I2MouseMove, rb_action = RMouseAim example_aim toggle_settings,
        rb_layer = LAYER_BASE, rb_modifier = None, rb_suppression = suppression_new\<rparr>]\<rparr>"

definition clicked_session :: "unit unified_runtime" where
  "clicked_session =
     \<lparr>ur_plan = toggle_plan,
      ur_engine = \<lparr>injector = (), engine_state = \<lparr>active_contacts = RBT.insert 3 \<lparr>px = 960, py = 540\<rparr> RBT.empty\<rparr>\<rparr>,
      ur_inputs = [CiMouseMove], ur_layer_controls = replicate 46 None, ur_directions = [directional_neutral],
      ur_desired_directions = [directional_neutral], ur_active = [False], ur_desired = [False],
      ur_selected = replicate PHYSICAL_INPUT_COUNT None, ur_points = [None], ur_cursor_contact = 3,
      ur_aims = [Some \<lparr>mc_aim = example_aim, mc_settings = toggle_settings, mc_active = None, mc_next = 2, mc_pending = None,
        mc_ads_active = False, mc_recenter_count = 0, mc_last_reaffirm = None, mc_accumulator = accumulator_default\<rparr>],
      ur_toggle_keys = [Some KQ], ur_last_frame = [None], ur_active_layers = 0, ur_held_keys = MASK_EMPTY,
      ur_held_modifiers = MASK_EMPTY, ur_held_buttons = 0, ur_pipeline = [], ur_kernel = [], ur_rejected = 0\<rparr>"

definition clicked_loop :: "(unit, unit) event_loop" where
  "clicked_loop =
     \<lparr>el_runtime = clicked_session,
      el_readers = \<lparr>ir_keyboard = \<lparr>gd_device = (), gd_grabbed = True\<rparr>, ir_captured = True,
        ir_mouse = Some \<lparr>mr_device = \<lparr>gd_device = (), gd_grabbed = True\<rparr>, mr_forwarding = True, mr_grabbed = True\<rparr>\<rparr>,
      el_overlay = Some \<lparr>ov_enabled = True, ov_sprite = None\<rparr>, el_warp = True, el_focus_protected = False,
      el_waydroid_focused = True, el_input_active = True, el_manually_released = False, el_saw_focus_event = False,
      el_mode = UiMode, el_toggle_aim_before = False, el_control_pressed = False,
      el_cursor = \<lparr>vc_x = F64 0x408E000000000000, vc_y = F64 0x4080E00000000000, vc_pressed = True\<rparr>\<rparr>"

lemma clicked_session_inv: "session_inv hypot clicked_session"
proof -
  have fields: "control_count clicked_session = 1" "action_at clicked_session 0 = RMouseAim example_aim toggle_settings"
    "ur_points clicked_session = [None]"
    by (simp_all add: clicked_session_def control_count_def action_at_def control_at_def toggle_plan_def)
  have own: "owned clicked_session 0 = {1, 2}"
    by (simp add: owned_def fields action_contacts_def example_aim_def toggle_settings_def settings_default_def)
  have down: "down clicked_session = [3 \<mapsto> \<lparr>px = 960, py = 540\<rparr>]"
    by (simp add: clicked_session_def contact_position_def fun_eq_iff)
  have "session_shape clicked_session"
    unfolding session_shape_def Let_def fields by (simp add: own) (use fields(2) in \<open>simp add: clicked_session_def\<close>)
  moreover have "no_stray_contact clicked_session"
    by (auto simp: no_stray_contact_def down) (simp add: clicked_session_def)
  moreover have "control_inv hypot clicked_session 0"
    unfolding control_inv_def fields down
    by (simp add: clicked_session_def aim_inv_def aim_phase_inactive aim_config_ok_def aim_ids_def toggle_settings_def
        settings_default_def example_aim_def example_region_def region_ok_def region_contains_def)
  ultimately show ?thesis by (simp add: session_inv_def fields)
qed

lemma clicked_loop_inv: "loop_inv hypot clicked_loop"
  by (simp add: loop_inv_def loop_ok_def clicked_loop_def readers_ok_def clicked_session_inv)

lemma release_eval:
  "case host_step no_libm (quiet_env 2) 0 (HeKeyboard [\<lparr>hk_key = HQ, hk_transition = KPressed\<rparr>] None) clicked_loop of
     (el1, r1) \<Rightarrow> r1 = Inr None \<and> el_mode el1 = AimMode
       \<and> snd (host_step no_libm (quiet_env 4) 0 (HeMouse [MButton MbLeft KReleased] None) el1) = Inr None"
  by code_simp

lemma cursor_contact_stuck_witness:
  "\<exists>el1 el2.
     host_step no_libm (quiet_env 2) 0 (HeKeyboard [\<lparr>hk_key = HQ, hk_transition = KPressed\<rparr>] None) clicked_loop = (el1, Inr None)
     \<and> host_step no_libm (quiet_env 4) 0 (HeMouse [MButton MbLeft KReleased] None) el1 = (el2, Inr None)
     \<and> cursor_touch (el_runtime el2) = Some \<lparr>px = 960, py = 540\<rparr>"
proof -
  obtain el1 el2 where k: "host_step no_libm (quiet_env 2) 0 (HeKeyboard [\<lparr>hk_key = HQ, hk_transition = KPressed\<rparr>] None)
      clicked_loop = (el1, Inr None)" "el_mode el1 = AimMode"
    and m: "host_step no_libm (quiet_env 4) 0 (HeMouse [MButton MbLeft KReleased] None) el1 = (el2, Inr None)"
    using release_eval by (auto simp: snd_def split: prod.splits)
  have "cursor_touch (el_runtime el2) = cursor_touch (el_runtime clicked_loop)"
    by (rule cursor_contact_stuck [OF clicked_loop_inv _ k m]) simp
  moreover have "cursor_touch (el_runtime clicked_loop) = Some \<lparr>px = 960, py = 540\<rparr>"
    by (simp add: cursor_touch_def clicked_loop_def clicked_session_def contact_position_def)
  ultimately show ?thesis using k m by (intro exI [of _ el1] exI [of _ el2]) simp
qed

end
