(* ===== verification/Daemon.thy ===== *)
theory Daemon
  imports Plan "HOL-Library.Char_ord" "HOL-Library.List_Lexorder"
begin

text \<open>
  The session bookkeeping of the daemon: the lifecycle contract of \<^verbatim>\<open>wroid-runtime/src/services.rs\<close> and
  \<^verbatim>\<open>DaemonSessionManager\<close> of \<^verbatim>\<open>wroid-daemon/src/lib.rs\<close>, which implements it. A \<^verbatim>\<open>SessionId\<close> is its
  string; the \<^verbatim>\<open>BTreeMap\<close> of sessions is a red-black tree in the order of the strings.
\<close>

section \<open>The contract's types\<close>

datatype display_orientation = DoLandscape | DoPortrait | DoUnknown

record viewport =
  vw_x :: u32
  vw_y :: u32
  vw_width :: u32
  vw_height :: u32

definition viewport_full_surface :: "resolution \<Rightarrow> viewport" where
  "viewport_full_surface res = \<lparr>vw_x = 0, vw_y = 0, vw_width = rwidth res, vw_height = rheight res\<rparr>"

record display_info =
  ds_resolution :: resolution
  ds_density_dpi :: "u32 option"
  ds_refresh_rate_millihz :: "u32 option"
  ds_orientation :: display_orientation
  ds_viewport :: viewport

definition display_info_new :: "resolution \<Rightarrow> display_info" where
  "display_info_new res =
     \<lparr>ds_resolution = res, ds_density_dpi = None, ds_refresh_rate_millihz = None, ds_orientation = DoUnknown,
      ds_viewport = viewport_full_surface res\<rparr>"

type_synonym session_id = string

datatype session_id_error = SessionIdEmpty

definition session_id_new :: "string \<Rightarrow> session_id_error + session_id" where
  "session_id_new v = (if trim v = [] then Inl SessionIdEmpty else Inr v)"

datatype session_state = StStopped | StPreparing | StRunning | StStopping | StFailed

datatype stop_reason = UserRequested | FocusLost | BackendFailed | ClientDisconnected | RuntimeShutdown

record session_request =
  sq_session_id :: session_id
  sq_profile :: control_profile
  sq_display :: display_info
  sq_launch_package :: bool

record prepared_session =
  ps_session_id :: session_id
  ps_state :: session_state
  ps_active_package :: string

record stop_report =
  sp_contacts_cancelled :: nat
  sp_leases_released :: nat
  sp_settings_restored :: bool

definition stop_report_default :: stop_report where
  "stop_report_default = \<lparr>sp_contacts_cancelled = 0, sp_leases_released = 0, sp_settings_restored = False\<rparr>"

section \<open>The session manager\<close>

record runtime_session =
  rs_session_id :: session_id
  rs_state :: session_state
  rs_active_package :: string
  rs_launch_package :: bool
  rs_control_plan :: "control_plan option"
  rs_process_id :: "u32 option"
  rs_detail :: "string option"

definition session_prepared :: "runtime_session \<Rightarrow> prepared_session" where
  "session_prepared s =
     \<lparr>ps_session_id = rs_session_id s, ps_state = rs_state s, ps_active_package = rs_active_package s\<rparr>"

type_synonym session_manager = "(session_id, runtime_session) rbt"

text \<open>\<open>PlanPanicked\<close> is a panic of the plan, which there is none of.\<close>

datatype daemon_error =
    InvalidProfile "validation_error list"
  | InvalidRuntimeControls plan_error
  | SessionAlreadyExists session_id
  | SessionNotFound session_id
  | InvalidTransition session_id session_state session_state
  | PlanPanicked

type_synonym 'a manager_st = "(session_manager, daemon_error, 'a) st"

definition manager_new :: session_manager where "manager_new = RBT.empty"

definition manager_session :: "session_manager \<Rightarrow> session_id \<Rightarrow> runtime_session option" where
  "manager_session m i = RBT.lookup m i"

definition session_count :: "session_manager \<Rightarrow> nat" where "session_count m = length (RBT.entries m)"

definition manager_sessions :: "session_manager \<Rightarrow> runtime_session list" where
  "manager_sessions m = map snd (RBT.entries m)"

definition prepare_profile_v2 ::
  "session_manager \<Rightarrow> session_id \<Rightarrow> profile_v2 \<Rightarrow> display_info \<Rightarrow> bool \<Rightarrow> prepared_session manager_st" where
  "prepare_profile_v2 m i p display launch_package =
     (if manager_session m i \<noteq> None then (m, Inl (SessionAlreadyExists i))
      else case from_profile_v2 p (ds_resolution display) of
             None \<Rightarrow> (m, Inl PlanPanicked)
           | Some (Inl err) \<Rightarrow> (m, Inl (InvalidRuntimeControls err))
           | Some (Inr plan) \<Rightarrow>
               let s = \<lparr>rs_session_id = i, rs_state = StPreparing, rs_active_package = pl_package_name plan,
                        rs_launch_package = launch_package, rs_control_plan = Some plan, rs_process_id = None,
                        rs_detail = None\<rparr>
               in (RBT.insert i s m, Inr (session_prepared s)))"

text \<open>A session looked up, checked and changed in place.\<close>

definition with_session ::
  "session_manager \<Rightarrow> session_id \<Rightarrow> (runtime_session \<Rightarrow> daemon_error + runtime_session \<times> 'a) \<Rightarrow> 'a manager_st" where
  "with_session m i f =
     (case manager_session m i of
        None \<Rightarrow> (m, Inl (SessionNotFound i))
      | Some s \<Rightarrow>
          (case f s of
             Inl err \<Rightarrow> (m, Inl err)
           | Inr (s', a) \<Rightarrow> (RBT.insert i s' m, Inr a)))"

definition mark_running :: "session_manager \<Rightarrow> session_id \<Rightarrow> u32 \<Rightarrow> unit manager_st" where
  "mark_running m i pid =
     with_session m i (\<lambda>s.
       if rs_state s \<noteq> StPreparing then Inl (InvalidTransition (rs_session_id s) (rs_state s) StRunning)
       else Inr (s\<lparr>rs_state := StRunning, rs_process_id := Some pid, rs_detail := None\<rparr>, ()))"

definition mark_stopping :: "session_manager \<Rightarrow> session_id \<Rightarrow> unit manager_st" where
  "mark_stopping m i =
     with_session m i (\<lambda>s.
       if rs_state s \<noteq> StRunning then Inl (InvalidTransition (rs_session_id s) (rs_state s) StStopping)
       else Inr (s\<lparr>rs_state := StStopping\<rparr>, ()))"

definition SESSION_DETAIL_CHARS :: nat where "SESSION_DETAIL_CHARS = 4096"

text \<open>The first \<open>n\<close> characters of a UTF-8 string: a byte \<open>10xxxxxx\<close> continues a character.\<close>

definition continues_char :: "char \<Rightarrow> bool" where
  "continues_char c \<longleftrightarrow> (of_char c :: nat) div 64 = 2"

fun take_chars :: "nat \<Rightarrow> string \<Rightarrow> string" where
  "take_chars n [] = []"
| "take_chars n (c # cs) =
     (if continues_char c then c # take_chars n cs
      else case n of 0 \<Rightarrow> [] | Suc k \<Rightarrow> c # take_chars k cs)"

definition bounded_detail :: "string \<Rightarrow> string" where
  "bounded_detail detail = take_chars SESSION_DETAIL_CHARS detail"

definition mark_exited :: "session_manager \<Rightarrow> session_id \<Rightarrow> bool \<Rightarrow> string \<Rightarrow> unit manager_st" where
  "mark_exited m i success detail =
     (let target = (if success then StStopped else StFailed)
      in with_session m i (\<lambda>s.
           if rs_state s \<noteq> StRunning \<and> rs_state s \<noteq> StStopping
           then Inl (InvalidTransition (rs_session_id s) (rs_state s) target)
           else Inr (s\<lparr>rs_state := target, rs_process_id := None, rs_detail := Some (bounded_detail detail)\<rparr>, ())))"

definition mark_failed :: "session_manager \<Rightarrow> session_id \<Rightarrow> string \<Rightarrow> unit manager_st" where
  "mark_failed m i detail =
     with_session m i (\<lambda>s.
       if rs_state s \<noteq> StPreparing then Inl (InvalidTransition (rs_session_id s) (rs_state s) StFailed)
       else Inr (s\<lparr>rs_state := StFailed, rs_process_id := None, rs_detail := Some (bounded_detail detail)\<rparr>, ()))"

definition manager_prepare :: "session_manager \<Rightarrow> session_request \<Rightarrow> prepared_session manager_st" where
  "manager_prepare m q =
     (case validate_profile (sq_profile q) of
        Inl errs \<Rightarrow> (m, Inl (InvalidProfile errs))
      | Inr _ \<Rightarrow>
          if manager_session m (sq_session_id q) \<noteq> None then (m, Inl (SessionAlreadyExists (sq_session_id q)))
          else
            let s = \<lparr>rs_session_id = sq_session_id q, rs_state = StPreparing,
                     rs_active_package = cp_package_name (sq_profile q), rs_launch_package = sq_launch_package q,
                     rs_control_plan = None, rs_process_id = None, rs_detail = None\<rparr>
            in (RBT.insert (sq_session_id q) s m, Inr (session_prepared s)))"

definition manager_start :: "session_manager \<Rightarrow> session_id \<Rightarrow> unit manager_st" where
  "manager_start m i =
     with_session m i (\<lambda>s.
       case rs_state s of
         StPreparing \<Rightarrow> Inr (s\<lparr>rs_state := StRunning\<rparr>, ())
       | other \<Rightarrow> Inl (InvalidTransition i other StRunning))"

definition stop_report_for_reason :: "stop_reason \<Rightarrow> stop_report" where
  "stop_report_for_reason reason =
     \<lparr>sp_contacts_cancelled = 0, sp_leases_released = 0, sp_settings_restored = True\<rparr>"

definition manager_stop :: "session_manager \<Rightarrow> session_id \<Rightarrow> stop_reason \<Rightarrow> stop_report manager_st" where
  "manager_stop m i reason =
     with_session m i (\<lambda>s.
       case rs_state s of
         StStopped \<Rightarrow> Inr (s, stop_report_default)
       | StStopping \<Rightarrow> Inl (InvalidTransition i StStopping StStopped)
       | _ \<Rightarrow> Inr (s\<lparr>rs_state := StStopped\<rparr>, stop_report_for_reason reason))"

definition manager_state :: "session_manager \<Rightarrow> session_id \<Rightarrow> daemon_error + session_state" where
  "manager_state m i =
     (case manager_session m i of None \<Rightarrow> Inl (SessionNotFound i) | Some s \<Rightarrow> Inr (rs_state s))"

section \<open>The lifecycle\<close>

definition state_of :: "session_manager \<Rightarrow> session_id \<Rightarrow> session_state option" where
  "state_of m i = map_option rs_state (manager_session m i)"

text \<open>One move of a session.\<close>

inductive lifecycle_step :: "session_state option \<Rightarrow> session_state option \<Rightarrow> bool" where
  prepared: "lifecycle_step None (Some StPreparing)"
| started: "lifecycle_step (Some StPreparing) (Some StRunning)"
| refused: "lifecycle_step (Some StPreparing) (Some StFailed)"
| abandoned: "lifecycle_step (Some StPreparing) (Some StStopped)"
| stopping: "lifecycle_step (Some StRunning) (Some StStopping)"
| exited: "st = StRunning \<or> st = StStopping \<Longrightarrow> st' = StStopped \<or> st' = StFailed \<Longrightarrow>
    lifecycle_step (Some st) (Some st')"
| acknowledged: "lifecycle_step (Some StFailed) (Some StStopped)"

inductive_cases lifecycle_stopped: "lifecycle_step (Some StStopped) st"
inductive_cases lifecycle_vanished: "lifecycle_step st None"

lemma manager_session_insert [simp]:
  "manager_session (RBT.insert i s m) j = (if j = i then Some s else manager_session m j)"
  by (simp add: manager_session_def)

lemma with_session_cases:
  assumes "with_session m i f = (m', res)"
  obtains (missing) "manager_session m i = None" "m' = m" "res = Inl (SessionNotFound i)"
  | (refused) s err where "manager_session m i = Some s" "f s = Inl err" "m' = m" "res = Inl err"
  | (changed) s s' a where "manager_session m i = Some s" "f s = Inr (s', a)" "m' = RBT.insert i s' m" "res = Inr a"
  using assms by (auto simp: with_session_def split: option.splits sum.splits prod.splits)

text \<open>What an operation on one session may do.\<close>

definition moves :: "session_id \<Rightarrow> session_manager \<Rightarrow> (session_manager, 'e, 'a) st \<Rightarrow> bool" where
  "moves i m result \<longleftrightarrow>
     (case result of
        (m', Inl _) \<Rightarrow> m' = m
      | (m', Inr _) \<Rightarrow> (\<forall>j. j \<noteq> i \<longrightarrow> manager_session m' j = manager_session m j)
          \<and> (state_of m' i = state_of m i \<or> lifecycle_step (state_of m i) (state_of m' i)))"

lemma moves_with_session:
  assumes "\<And>s s' a. manager_session m i = Some s \<Longrightarrow> f s = Inr (s', a) \<Longrightarrow>
      rs_state s' = rs_state s \<or> lifecycle_step (Some (rs_state s)) (Some (rs_state s'))"
  shows "moves i m (with_session m i f)"
proof -
  obtain m' res where r: "with_session m i f = (m', res)" by fastforce
  from r show ?thesis
    by (cases rule: with_session_cases) (use assms r in \<open>auto simp: moves_def state_of_def\<close>)
qed

lemma manager_moves:
  "moves i m (prepare_profile_v2 m i p d b)" "moves (sq_session_id q) m (manager_prepare m q)"
  "moves i m (mark_running m i pid)" "moves i m (mark_stopping m i)" "moves i m (mark_exited m i success detail)"
  "moves i m (mark_failed m i detail)" "moves i m (manager_start m i)" "moves i m (manager_stop m i reason)"
proof -
  show "moves i m (prepare_profile_v2 m i p d b)"
    by (auto simp: prepare_profile_v2_def moves_def Let_def state_of_def prepared split: option.splits sum.splits)
  show "moves (sq_session_id q) m (manager_prepare m q)"
    by (auto simp: manager_prepare_def moves_def Let_def state_of_def prepared split: sum.splits)
  show "moves i m (mark_running m i pid)" unfolding mark_running_def
    by (rule moves_with_session) (auto split: if_splits intro: lifecycle_step.intros)
  show "moves i m (mark_stopping m i)" unfolding mark_stopping_def
    by (rule moves_with_session) (auto split: if_splits intro: lifecycle_step.intros)
  show "moves i m (mark_exited m i success detail)" unfolding mark_exited_def Let_def
    by (rule moves_with_session) (auto split: if_splits intro: lifecycle_step.intros)
  show "moves i m (mark_failed m i detail)" unfolding mark_failed_def
    by (rule moves_with_session) (auto split: if_splits intro: lifecycle_step.intros)
  show "moves i m (manager_start m i)" unfolding manager_start_def
    by (rule moves_with_session) (auto split: session_state.splits intro: lifecycle_step.intros)
  show "moves i m (manager_stop m i reason)" unfolding manager_stop_def
    by (rule moves_with_session) (auto split: session_state.splits intro: lifecycle_step.intros)
qed

section \<open>The contract\<close>

text \<open>What a client may rely on: the state of a session after each call, and nothing changed by an error.\<close>

locale session_lifecycle =
  fixes lc_state :: "'m \<Rightarrow> session_id \<Rightarrow> session_state option"
    and lc_prepare :: "'m \<Rightarrow> 'q \<Rightarrow> ('m, 'e, 'p) st"
    and lc_request_id :: "'q \<Rightarrow> session_id"
    and lc_start :: "'m \<Rightarrow> session_id \<Rightarrow> ('m, 'e, unit) st"
    and lc_stop :: "'m \<Rightarrow> session_id \<Rightarrow> stop_reason \<Rightarrow> ('m, 'e, stop_report) st"
  assumes prepare_law: "lc_prepare m q = (m', Inr p) \<Longrightarrow>
      lc_state m (lc_request_id q) = None \<and> lc_state m' = (lc_state m)(lc_request_id q \<mapsto> StPreparing)"
    and start_law: "lc_start m i = (m', Inr u) \<Longrightarrow>
      lc_state m i = Some StPreparing \<and> lc_state m' = (lc_state m)(i \<mapsto> StRunning)"
    and stop_law: "lc_stop m i r = (m', Inr rep) \<Longrightarrow> lc_state m' = (lc_state m)(i \<mapsto> StStopped)"
    and stop_ready: "lc_state m i = Some st \<Longrightarrow> st \<noteq> StStopping \<Longrightarrow> \<exists>m' rep. lc_stop m i r = (m', Inr rep)"
    and start_error: "lc_start m i = (m', Inl err) \<Longrightarrow> m' = m"
begin

lemma start_refused: "lc_state m i \<noteq> Some StPreparing \<Longrightarrow> \<exists>err. lc_start m i = (m, Inl err)"
  by (metis old.sum.exhaust start_error start_law surj_pair)

text \<open>A session is started once and a stopped one stays stopped.\<close>

lemma start_once: "lc_start m i = (m', Inr u) \<Longrightarrow> \<exists>err. lc_start m' i = (m', Inl err)"
  by (rule start_refused) (auto dest!: start_law)

lemma stop_then_start: "lc_stop m i r = (m', Inr rep) \<Longrightarrow> \<exists>err. lc_start m' i = (m', Inl err)"
  by (rule start_refused) (auto dest!: stop_law)

lemma stop_again:
  assumes "lc_stop m i r = (m', Inr rep)"
  shows "\<exists>m'' rep'. lc_stop m' i r' = (m'', Inr rep') \<and> lc_state m'' = lc_state m'"
proof -
  have st: "lc_state m' i = Some StStopped" using stop_law [OF assms] by simp
  then obtain m'' rep' where again: "lc_stop m' i r' = (m'', Inr rep')" using stop_ready by blast
  from stop_law [OF again] st have "lc_state m'' = lc_state m'" by (auto simp: fun_eq_iff)
  with again show ?thesis by blast
qed

end

interpretation manager: session_lifecycle state_of manager_prepare sq_session_id manager_start manager_stop
proof
  fix m m' :: session_manager and q p i u st r rep err
  show "manager_prepare m q = (m', Inr p) \<Longrightarrow>
      state_of m (sq_session_id q) = None \<and> state_of m' = (state_of m)(sq_session_id q \<mapsto> StPreparing)"
    by (auto simp: manager_prepare_def Let_def state_of_def fun_eq_iff split: sum.splits if_splits)
  show "manager_start m i = (m', Inr u) \<Longrightarrow>
      state_of m i = Some StPreparing \<and> state_of m' = (state_of m)(i \<mapsto> StRunning)"
    by (auto simp: manager_start_def state_of_def fun_eq_iff elim!: with_session_cases split: session_state.splits)
  show "manager_stop m i r = (m', Inr rep) \<Longrightarrow> state_of m' = (state_of m)(i \<mapsto> StStopped)"
    by (auto simp: manager_stop_def state_of_def fun_eq_iff elim!: with_session_cases split: session_state.splits)
  show "state_of m i = Some st \<Longrightarrow> st \<noteq> StStopping \<Longrightarrow> \<exists>m' rep. manager_stop m i r = (m', Inr rep)"
    by (cases st) (auto simp: manager_stop_def state_of_def with_session_def)
  show "manager_start m i = (m', Inl err) \<Longrightarrow> m' = m"
    by (auto simp: manager_start_def elim!: with_session_cases split: session_state.splits)
qed

end
