(* ===== verification/Paths.thy ===== *)
theory Paths
  imports Prelude
begin

text \<open>
  The parts of Rust's \<^verbatim>\<open>std::path\<close>, \<^verbatim>\<open>std::io\<close> and \<^verbatim>\<open>str\<close> that the daemon, the helper and the bridge share:
  lexical paths as lists of components, I/O results, lines of a text and the parsing of small numbers.
\<close>

section \<open>Paths\<close>

datatype path_component = RootDir | CurDir | ParentDir | NormalName string

fun split_slash :: "string \<Rightarrow> string list" where
  "split_slash [] = [[]]"
| "split_slash (c # cs) =
     (if c = CHR ''/'' then [] # split_slash cs
      else case split_slash cs of [] \<Rightarrow> [[c]] | part # parts \<Rightarrow> (c # part) # parts)"

definition path_part :: "string \<Rightarrow> path_component list" where
  "path_part s = (if s = [] \<or> s = ''.'' then [] else if s = ''..'' then [ParentDir] else [NormalName s])"

definition is_absolute :: "string \<Rightarrow> bool" where
  "is_absolute p \<longleftrightarrow> p \<noteq> [] \<and> hd p = CHR ''/''"

text \<open>\<open>Path::components\<close>: repeated separators and inner \<open>.\<close> parts vanish, \<open>..\<close> stays.\<close>

definition path_components :: "string \<Rightarrow> path_component list" where
  "path_components p =
     (if is_absolute p then [RootDir] else if hd (split_slash p) = ''.'' then [CurDir] else [])
     @ concat (map path_part (split_slash p))"

definition path_starts_with :: "string \<Rightarrow> string \<Rightarrow> bool" where
  "path_starts_with p q \<longleftrightarrow> prefix (path_components q) (path_components p)"

definition component_text :: "path_component \<Rightarrow> string" where
  "component_text c = (case c of RootDir \<Rightarrow> [] | CurDir \<Rightarrow> ''.'' | ParentDir \<Rightarrow> ''..'' | NormalName s \<Rightarrow> s)"

fun path_text :: "path_component list \<Rightarrow> string" where
  "path_text [] = []"
| "path_text [c] = (if c = RootDir then ''/'' else component_text c)"
| "path_text (c # cs) = component_text c @ ''/'' @ path_text cs"

text \<open>\<open>Path::parent\<close> and \<open>Path::file_name\<close>; paths are compared by their components.\<close>

definition path_parent :: "string \<Rightarrow> path_component list option" where
  "path_parent p =
     (case rev (path_components p) of [] \<Rightarrow> None | RootDir # _ \<Rightarrow> None | _ # cs \<Rightarrow> Some (rev cs))"

definition path_file_name :: "string \<Rightarrow> string option" where
  "path_file_name p = (case rev (path_components p) of NormalName n # _ \<Rightarrow> Some n | _ \<Rightarrow> None)"

section \<open>Results\<close>

definition bind_result :: "'e + 'a \<Rightarrow> ('a \<Rightarrow> 'e + 'b) \<Rightarrow> 'e + 'b" where
  "bind_result r f = (case r of Inl e \<Rightarrow> Inl e | Inr a \<Rightarrow> f a)"

section \<open>Lines and numbers\<close>

definition LF :: char where "LF = CHR 0x0A"
definition CR :: char where "CR = CHR 0x0D"

lemma LF_CR [simp]: "LF \<noteq> CR" "CR \<noteq> LF" by (simp_all add: LF_def CR_def)

fun split_inclusive :: "string \<Rightarrow> string list" where
  "split_inclusive [] = []"
| "split_inclusive (c # cs) =
     (if c = LF then [c] # split_inclusive cs
      else case split_inclusive cs of [] \<Rightarrow> [[c]] | line # rest \<Rightarrow> (c # line) # rest)"

definition strip_line :: "string \<Rightarrow> string" where
  "strip_line l =
     (if l \<noteq> [] \<and> last l = LF
      then let m = butlast l in if m \<noteq> [] \<and> last m = CR then butlast m else m
      else l)"

text \<open>\<open>str::lines\<close> and \<open>join\<close>.\<close>

definition str_lines :: "string \<Rightarrow> string list" where "str_lines s = map strip_line (split_inclusive s)"

fun join_lines :: "string list \<Rightarrow> string" where
  "join_lines [] = []"
| "join_lines [l] = l"
| "join_lines (l # ls) = l @ LF # join_lines ls"

definition strip_prefix :: "string \<Rightarrow> string \<Rightarrow> string option" where
  "strip_prefix p s = (if prefix p s then Some (drop (length p) s) else None)"

definition trim_end_char :: "char \<Rightarrow> string \<Rightarrow> string" where
  "trim_end_char c s = rev (dropWhile (\<lambda>x. x = c) (rev s))"

text \<open>\<open>str::parse\<close> to an unsigned integer: an optional plus sign, then at least one digit, below the bound.\<close>

definition digit_value :: "char \<Rightarrow> nat option" where
  "digit_value c = (if 48 \<le> (of_char c :: nat) \<and> (of_char c :: nat) \<le> 57 then Some (of_char c - 48) else None)"

fun digits_value :: "nat \<Rightarrow> string \<Rightarrow> nat option" where
  "digits_value n [] = Some n"
| "digits_value n (c # cs) = (case digit_value c of None \<Rightarrow> None | Some d \<Rightarrow> digits_value (10 * n + d) cs)"

definition parse_unsigned :: "nat \<Rightarrow> string \<Rightarrow> nat option" where
  "parse_unsigned bound s =
     (let digits = (case s of c # cs \<Rightarrow> if c = CHR ''+'' then cs else s | [] \<Rightarrow> [])
      in if digits = [] then None
         else case digits_value 0 digits of Some n \<Rightarrow> if n < bound then Some n else None | None \<Rightarrow> None)"

section \<open>Searching and splitting\<close>

text \<open>\<open>split_once\<close>, \<open>split(..).nth(1)\<close>, \<open>strip_suffix\<close>, \<open>split_whitespace\<close> and \<open>chars\<close> of \<^verbatim>\<open>str\<close>.\<close>

fun split_once :: "string \<Rightarrow> string \<Rightarrow> (string \<times> string) option" where
  "split_once p [] = (if p = [] then Some ([], []) else None)"
| "split_once p (c # cs) =
     (if prefix p (c # cs) then Some ([], drop (length p) (c # cs))
      else map_option (\<lambda>(a, b). (c # a, b)) (split_once p cs))"

definition second_part :: "string \<Rightarrow> string \<Rightarrow> string option" where
  "second_part p s =
     map_option (\<lambda>(_, rest). case split_once p rest of None \<Rightarrow> rest | Some (a, _) \<Rightarrow> a) (split_once p s)"

definition strip_suffix :: "string \<Rightarrow> string \<Rightarrow> string option" where
  "strip_suffix p s = (if suffix p s then Some (take (length s - length p) s) else None)"

definition trim_end :: "string \<Rightarrow> string" where
  "trim_end s = rev (strip_front (map rev white_space) (rev s))"

fun take_token :: "string \<Rightarrow> string \<times> string" where
  "take_token [] = ([], [])"
| "take_token (c # cs) =
     (case strip_first white_space (c # cs) of
        Some _ \<Rightarrow> ([], c # cs)
      | None \<Rightarrow> (case take_token cs of (a, b) \<Rightarrow> (c # a, b)))"

lemma take_token_length: "take_token s = (a, b) \<Longrightarrow> length a + length b = length s"
  by (induction s arbitrary: a b) (auto split: option.splits prod.splits)

lemma strip_front_length: "length (strip_front ws s) \<le> length s"
proof (induction ws s rule: strip_front.induct)
  case (1 ws s)
  then show ?case
    by (subst strip_front.simps) (fastforce split: option.split dest: strip_first_length)
qed

function split_whitespace :: "string \<Rightarrow> string list" where
  "split_whitespace s =
     (case take_token (strip_front white_space s) of (w, rest) \<Rightarrow> if w = [] then [] else w # split_whitespace rest)"
  by pat_completeness auto
termination
proof (relation "measure length")
  fix s w rest :: string
  assume "(w, rest) = take_token (strip_front white_space s)" "w \<noteq> []"
  then have "length rest < length (strip_front white_space s)"
    by (metis take_token_length add_less_same_cancel2 length_greater_0_conv less_add_same_cancel2)
  with strip_front_length [of white_space s] show "(rest, s) \<in> measure length" by simp
qed simp

declare split_whitespace.simps [simp del]

definition continuation_byte :: "char \<Rightarrow> bool" where
  "continuation_byte c \<longleftrightarrow> (of_char c :: nat) div 64 = 2"

fun str_chars :: "string \<Rightarrow> string list" where
  "str_chars [] = []"
| "str_chars (c # cs) =
     (case str_chars cs of
        [] \<Rightarrow> [[c]]
      | g # gs \<Rightarrow> if g \<noteq> [] \<and> continuation_byte (hd g) then (c # g) # gs else [c] # g # gs)"

lemma concat_str_chars [simp]: "concat (str_chars s) = s"
  by (induction s) (auto split: list.split)

section \<open>Lemmas on lines\<close>

lemma split_inclusive_append: "split_inclusive (xs @ LF # ys) = split_inclusive (xs @ [LF]) @ split_inclusive ys"
proof (induction xs)
  case (Cons c xs)
  have "split_inclusive (xs @ [LF]) \<noteq> []" by (cases xs) (auto split: list.split)
  with Cons show ?case by (auto split: list.split)
qed simp

lemma split_inclusive_ended:
  "split_inclusive (xs @ [LF]) \<noteq> []"
  "l \<in> set (split_inclusive (xs @ [LF])) \<Longrightarrow> l \<noteq> [] \<and> last l = LF"
proof -
  show ne: "split_inclusive (xs @ [LF]) \<noteq> []" by (cases xs) (auto split: list.split)
  show "l \<in> set (split_inclusive (xs @ [LF])) \<Longrightarrow> l \<noteq> [] \<and> last l = LF"
  proof (induction xs arbitrary: l)
    case (Cons c xs)
    have "split_inclusive (xs @ [LF]) \<noteq> []" by (cases xs) (auto split: list.split)
    with Cons show ?case by (auto split: list.splits if_splits)
  qed simp
qed

lemma split_inclusive_concat: "concat (split_inclusive xs) = xs"
  by (induction xs) (auto split: list.split)

lemma strip_line_no_CR: "CR \<notin> set l \<Longrightarrow> strip_line l = (if l \<noteq> [] \<and> last l = LF then butlast l else l)"
  by (auto simp: strip_line_def Let_def) (metis in_set_butlastD last_in_set)

lemma join_butlast:
  "ls \<noteq> [] \<Longrightarrow> (\<And>l. l \<in> set ls \<Longrightarrow> l \<noteq> [] \<and> last l = LF) \<Longrightarrow> join_lines (map butlast ls) @ [LF] = concat ls"
proof (induction ls rule: join_lines.induct)
  case (2 l)
  then show ?case by (metis append_butlast_last_id concat.simps list.simps(8,9) append_Nil2 join_lines.simps(2) list.set_intros(1))
next
  case (3 l l' ls)
  have "join_lines (map butlast (l' # ls)) @ [LF] = concat (l' # ls)" by (rule "3.IH") (use "3.prems" in auto)
  moreover have "butlast l @ LF # rest = l @ rest" for rest
    using "3.prems"(2) [of l] append_butlast_last_id [of l] by (metis append.assoc append_Cons append_Nil list.set_intros(1))
  ultimately show ?case by simp
qed simp

text \<open>The lines of a text with its final line break, joined again.\<close>

lemma join_str_lines: "CR \<notin> set t \<Longrightarrow> join_lines (str_lines (t @ [LF])) = t"
proof -
  assume cr: "CR \<notin> set t"
  let ?ls = "split_inclusive (t @ [LF])"
  have "CR \<notin> set (concat ?ls)" using cr by (simp add: split_inclusive_concat LF_def CR_def)
  then have "CR \<notin> set l" if "l \<in> set ?ls" for l using that by auto
  then have "str_lines (t @ [LF]) = map butlast ?ls"
    using split_inclusive_ended(2) [of _ t] by (auto simp: str_lines_def strip_line_no_CR)
  moreover have "join_lines (map butlast ?ls) @ [LF] = concat ?ls"
    by (rule join_butlast) (use split_inclusive_ended in blast)+
  ultimately show ?thesis by (simp add: split_inclusive_concat)
qed

lemma str_lines_append: "str_lines (t @ LF # u) = str_lines (t @ [LF]) @ str_lines u"
  unfolding str_lines_def by (subst split_inclusive_append) simp

lemma str_lines_single: "l \<noteq> [] \<Longrightarrow> LF \<notin> set l \<Longrightarrow> CR \<notin> set l \<Longrightarrow> str_lines (l @ [LF]) = [l]"
proof -
  assume l: "l \<noteq> []" "LF \<notin> set l" "CR \<notin> set l"
  have "split_inclusive (l @ [LF]) = [l @ [LF]]" using l(2) by (induction l) auto
  with l show ?thesis by (simp add: str_lines_def strip_line_def Let_def) (metis last_in_set)
qed

end
