(* ===== verification/Worker.thy ===== *)
theory Worker
  imports Daemon Paths
begin

text \<open>
  The daemon's child processes, \<^verbatim>\<open>wroid-daemon/src/process.rs\<close>: what a launch request must satisfy, the
  command line of the worker, stopping and reaping. What the operating system answers is the
  record \<open>worker_os\<close>; a path handed to it is its string, and its lexical structure is that of \<open>Paths\<close>.
\<close>

section \<open>The operating system\<close>

type_synonym io_error = string

record file_metadata =
  fm_is_file :: bool
  fm_is_dir :: bool
  fm_uid :: u32
  fm_mode :: u32

datatype process_error =
    PeAlreadyActive
  | PeUnsafeRequest string
  | PeIo io_error

definition process_error_text :: "process_error \<Rightarrow> string" where
  "process_error_text err =
     (case err of
        PeAlreadyActive \<Rightarrow> ''another daemon-managed game session is already active''
      | PeUnsafeRequest s \<Rightarrow> ''unsafe game launch request: '' @ s
      | PeIo s \<Rightarrow> ''game process I/O failed: '' @ s)"

definition from_io :: "io_error + 'a \<Rightarrow> process_error + 'a" where
  "from_io r = (case r of Inl e \<Rightarrow> Inl (PeIo e) | Inr a \<Rightarrow> Inr a)"

record launch_program =
  lp_executable :: string
  lp_arguments :: "string list"
  lp_game_mode_active :: bool

datatype exit_status = Exited nat | Signalled nat

text \<open>\<open>wo_plumbing\<close> is the socket pair and the broker thread, \<open>wo_log\<close> the private log file, \<open>wo_join\<close> the
  end of a broker thread; a failed \<open>wo_kill\<close> has an errno and a text.\<close>

record worker_os =
  wo_read_link :: "string \<Rightarrow> io_error + string"
  wo_metadata :: "string \<Rightarrow> io_error + file_metadata"
  wo_symlink_metadata :: "string \<Rightarrow> io_error + file_metadata"
  wo_canonicalize :: "string \<Rightarrow> io_error + string"
  wo_bridge_factory :: "process_error + unit"
  wo_plumbing :: "io_error + unit"
  wo_log :: "process_error + unit"
  wo_spawn :: "launch_program \<Rightarrow> io_error + u32"
  wo_pid :: u32
  wo_kill :: "u32 \<Rightarrow> (nat \<times> io_error) option"
  wo_try_wait :: "u32 \<Rightarrow> io_error + exit_status option"
  wo_join :: "u32 option \<Rightarrow> io_error + unit"

section \<open>Launch requests\<close>

definition BRIDGE_WORKER_PROTOCOL_GENERATION :: u32 where "BRIDGE_WORKER_PROTOCOL_GENERATION = 1"
definition BRIDGE_WORKER_FD :: nat where "BRIDGE_WORKER_FD = 198"

record game_launch_request =
  gl_session_id :: string
  gl_profile_path :: string
  gl_profile :: profile_v2
  gl_width :: u32
  gl_height :: u32
  gl_keyboard :: "string option"
  gl_mouse :: "string option"
  gl_game_mode :: bool
  gl_worker_protocol_generation :: u32
  gl_grab :: bool
  gl_show_ui :: bool
  gl_launch_package :: bool
  gl_trace_input :: bool
  gl_trace_android_input :: bool
  gl_exit_after_millis :: "u64 option"

definition launch_arguments :: "string \<Rightarrow> game_launch_request \<Rightarrow> u32 \<Rightarrow> string list" where
  "launch_arguments profile_path q daemon_pid =
     [''launch-v2'', profile_path, ''--daemon-worker'', ''--bridge-fd'', show_nat BRIDGE_WORKER_FD,
      ''--daemon-parent-pid'', show_nat (unat daemon_pid), ''--width'', show_nat (unat (gl_width q)),
      ''--height'', show_nat (unat (gl_height q))]
     @ (case gl_keyboard q of None \<Rightarrow> [] | Some p \<Rightarrow> [''--keyboard'', p])
     @ (case gl_mouse q of None \<Rightarrow> [] | Some p \<Rightarrow> [''--mouse'', p])
     @ (if gl_grab q then [] else [''--no-grab''])
     @ (if gl_show_ui q then [] else [''--no-ui''])
     @ (if gl_launch_package q then [] else [''--no-launch''])
     @ (if gl_trace_input q then [''--trace-input''] else [])
     @ (if gl_trace_android_input q then [''--trace-android-input''] else [])
     @ (case gl_exit_after_millis q of None \<Rightarrow> [] | Some ms \<Rightarrow> [''--exit-after-ms'', show_nat (unat ms)])"

definition launch_program_for :: "string \<Rightarrow> string list \<Rightarrow> bool \<Rightarrow> string option \<Rightarrow> launch_program" where
  "launch_program_for worker arguments requested wrapper =
     (case (requested, wrapper) of
        (True, Some w) \<Rightarrow> \<lparr>lp_executable = w, lp_arguments = worker # arguments, lp_game_mode_active = True\<rparr>
      | _ \<Rightarrow> \<lparr>lp_executable = worker, lp_arguments = arguments, lp_game_mode_active = False\<rparr>)"

definition GAME_MODE_WRAPPER_PATHS :: "string list" where
  "GAME_MODE_WRAPPER_PATHS = [''/usr/local/bin/gamemoderun'', ''/usr/bin/gamemoderun'']"

definition has_bits :: "u32 \<Rightarrow> u32 \<Rightarrow> bool" where
  "has_bits mode bits \<longleftrightarrow> and mode bits \<noteq> 0"

text \<open>The directories above the wrapper, innermost first: each must be protected, up to the anchor.\<close>

fun protected_chain :: "worker_os \<Rightarrow> u32 \<Rightarrow> path_component list \<Rightarrow> path_component list \<Rightarrow> process_error + unit" where
  "protected_chain os uid anchor [] = Inl (PeUnsafeRequest ''GameMode wrapper is outside its trust anchor'')"
| "protected_chain os uid anchor (c # up) =
     (let dir = rev (c # up)
      in bind_result (from_io (wo_symlink_metadata os (path_text dir))) (\<lambda>md.
           if \<not> fm_is_dir md \<or> fm_uid md \<noteq> uid \<or> has_bits (fm_mode md) 0x12
           then Inl (PeUnsafeRequest ''GameMode wrapper directory chain is not protected'')
           else if dir = anchor then Inr () else protected_chain os uid anchor up))"

definition validate_game_mode_wrapper :: "worker_os \<Rightarrow> string \<Rightarrow> u32 \<Rightarrow> string \<Rightarrow> process_error + unit" where
  "validate_game_mode_wrapper os path uid trust_anchor =
     bind_result (from_io (wo_canonicalize os path)) (\<lambda>canonical.
       bind_result (from_io (wo_symlink_metadata os path)) (\<lambda>md.
         bind_result (from_io (wo_canonicalize os trust_anchor)) (\<lambda>anchor.
           if path_components canonical \<noteq> path_components path \<or> \<not> path_starts_with path anchor
              \<or> \<not> fm_is_file md \<or> fm_uid md \<noteq> uid \<or> \<not> has_bits (fm_mode md) 0x49 \<or> has_bits (fm_mode md) 0x12
           then Inl (PeUnsafeRequest ''GameMode wrapper is not a protected canonical executable'')
           else protected_chain os uid (path_components anchor) (tl (rev (path_components path))))))"

definition trusted_game_mode_wrapper :: "worker_os \<Rightarrow> string option" where
  "trusted_game_mode_wrapper os =
     find (\<lambda>path. validate_game_mode_wrapper os path 0 ''/'' = Inr ()) GAME_MODE_WRAPPER_PATHS"

definition peer_executable :: "worker_os \<Rightarrow> i32 \<Rightarrow> u32 \<Rightarrow> process_error + string" where
  "peer_executable os peer_pid uid =
     (if sint peer_pid \<le> 0 then Inl (PeUnsafeRequest ''peer PID is unavailable'')
      else
        let proc = ''/proc/'' @ show_nat (unat peer_pid) @ ''/exe''
        in bind_result (from_io (wo_read_link os proc)) (\<lambda>executable.
             bind_result (from_io (wo_metadata os proc)) (\<lambda>md.
               if \<not> fm_is_file md \<or> fm_uid md \<noteq> uid \<or> \<not> has_bits (fm_mode md) 0x49 \<or> has_bits (fm_mode md) 0x12
               then Inl (PeUnsafeRequest
                      (''peer executable is not a protected current-user executable: '' @ executable))
               else Inr executable)))"

definition validated_profile_path :: "worker_os \<Rightarrow> string \<Rightarrow> u32 \<Rightarrow> process_error + string" where
  "validated_profile_path os path uid =
     (if \<not> is_absolute path then Inl (PeUnsafeRequest ''profile path must be absolute'')
      else
        bind_result (from_io (wo_canonicalize os path)) (\<lambda>canonical.
          bind_result (from_io (wo_metadata os canonical)) (\<lambda>md.
            if path_components canonical \<noteq> path_components path \<or> \<not> fm_is_file md \<or> fm_uid md \<noteq> uid
            then Inl (PeUnsafeRequest ''profile must be a canonical current-user regular file'')
            else Inr canonical)))"

definition validate_input_path :: "string option \<Rightarrow> string \<Rightarrow> process_error + unit" where
  "validate_input_path path label =
     (case path of
        None \<Rightarrow> Inr ()
      | Some p \<Rightarrow>
          if is_absolute p \<and> path_starts_with p ''/dev/input'' \<and> ParentDir \<notin> set (path_components p) then Inr ()
          else Inl (PeUnsafeRequest (label @ '' path must be an absolute /dev/input path'')))"

section \<open>The managed processes\<close>

record managed_process =
  mp_pid :: u32
  mp_stop_requested :: bool

type_synonym managed_processes = "(session_id, managed_process) rbt"

definition processes_new :: managed_processes where "processes_new = RBT.empty"

text \<open>Everything a launch does before the child is recorded.\<close>

definition start_worker :: "worker_os \<Rightarrow> game_launch_request \<Rightarrow> i32 \<Rightarrow> u32 \<Rightarrow> process_error + u32" where
  "start_worker os q peer_pid uid =
     bind_result (peer_executable os peer_pid uid) (\<lambda>executable.
       bind_result (validated_profile_path os (gl_profile_path q) uid) (\<lambda>profile_path.
         bind_result (validate_input_path (gl_keyboard q) ''keyboard'') (\<lambda>_.
           bind_result (validate_input_path (gl_mouse q) ''mouse'') (\<lambda>_.
             bind_result (wo_bridge_factory os) (\<lambda>_.
               bind_result (from_io (wo_plumbing os)) (\<lambda>_.
                 let program = launch_program_for executable (launch_arguments profile_path q (wo_pid os))
                                 (gl_game_mode q) (trusted_game_mode_wrapper os)
                 in bind_result (wo_log os) (\<lambda>_.
                      case wo_spawn os program of
                        Inr pid \<Rightarrow> Inr pid
                      | Inl spawn_error \<Rightarrow>
                          (case wo_join os None of
                             Inr _ \<Rightarrow> Inl (PeIo spawn_error)
                           | Inl broker_error \<Rightarrow>
                               Inl (PeIo (''worker spawn failed: '' @ spawn_error
                                      @ ''; bridge broker also failed: '' @ broker_error))))))))))"

definition launch ::
  "worker_os \<Rightarrow> managed_processes \<Rightarrow> session_id \<Rightarrow> game_launch_request \<Rightarrow> i32 \<Rightarrow> u32
     \<Rightarrow> (managed_processes, process_error, u32) st" where
  "launch os children i q peer_pid uid =
     (if \<not> RBT.is_empty children then (children, Inl PeAlreadyActive)
      else if gl_worker_protocol_generation q \<noteq> BRIDGE_WORKER_PROTOCOL_GENERATION
      then (children, Inl (PeUnsafeRequest
             (''worker protocol generation '' @ show_nat (unat (gl_worker_protocol_generation q))
              @ '' does not match '' @ show_nat (unat BRIDGE_WORKER_PROTOCOL_GENERATION))))
      else case start_worker os q peer_pid uid of
             Inl err \<Rightarrow> (children, Inl err)
           | Inr pid \<Rightarrow> (RBT.insert i \<lparr>mp_pid = pid, mp_stop_requested = False\<rparr> children, Inr pid))"

definition ESRCH :: nat where "ESRCH = 3"

definition request_stop ::
  "worker_os \<Rightarrow> managed_processes \<Rightarrow> session_id \<Rightarrow> (managed_processes, process_error, bool) st" where
  "request_stop os children i =
     (case RBT.lookup children i of
        None \<Rightarrow> (children, Inr False)
      | Some p \<Rightarrow>
          if 2 ^ 31 \<le> unat (mp_pid p) then (children, Inl (PeUnsafeRequest ''child PID is out of range''))
          else case wo_kill os (mp_pid p) of
                 Some (errno, err) \<Rightarrow>
                   if errno \<noteq> ESRCH then (children, Inl (PeIo err))
                   else (RBT.insert i (p\<lparr>mp_stop_requested := True\<rparr>) children, Inr True)
               | None \<Rightarrow> (RBT.insert i (p\<lparr>mp_stop_requested := True\<rparr>) children, Inr True))"

definition SIGTERM :: nat where "SIGTERM = 15"

definition combine_reaped_detail :: "exit_status \<Rightarrow> io_error + unit \<Rightarrow> bool \<Rightarrow> bool \<times> string" where
  "combine_reaped_detail status broker_result stop_requested =
     (let detail = (case status of
              Signalled sig \<Rightarrow> ''game worker terminated by signal '' @ show_nat sig
            | Exited code \<Rightarrow> ''game worker exited with exit status: '' @ show_nat code);
          expected_stop = (stop_requested \<and> status = Signalled SIGTERM)
      in case broker_result of
           Inr _ \<Rightarrow> (status = Exited 0 \<or> expected_stop, detail)
         | Inl err \<Rightarrow> (False, detail @ ''; bridge broker cleanup failed: '' @ err))"

record reaped_process =
  rp_session_id :: session_id
  rp_success :: bool
  rp_detail :: string

definition reap_one ::
  "worker_os \<Rightarrow> session_id \<times> exit_status \<Rightarrow> managed_processes \<times> reaped_process list
     \<Rightarrow> managed_processes \<times> reaped_process list" where
  "reap_one os = (\<lambda>(i, status) (children, completed).
     case RBT.lookup children i of
       None \<Rightarrow> (children, completed)
     | Some p \<Rightarrow>
         let (success, detail) = combine_reaped_detail status (wo_join os (Some (mp_pid p))) (mp_stop_requested p)
         in (RBT.delete i children,
             completed @ [\<lparr>rp_session_id = i, rp_success = success, rp_detail = detail\<rparr>]))"

text \<open>All children are polled before any is removed; an error of a poll removes none.\<close>

definition reap :: "worker_os \<Rightarrow> managed_processes \<Rightarrow> (managed_processes, process_error, reaped_process list) st" where
  "reap os children =
     (case collect_results (\<lambda>(i, p). from_io (wo_try_wait os (mp_pid p))) (RBT.entries children) of
        Inl err \<Rightarrow> (children, Inl err)
      | Inr polls \<Rightarrow>
          let exited = List.map_filter (\<lambda>((i, p), status). map_option (Pair i) status)
                         (zip (RBT.entries children) polls);
              (children', completed) = fold (reap_one os) exited (children, [])
          in (children', Inr completed))"

section \<open>Which device paths a launch may name\<close>

definition plain_part :: "string \<Rightarrow> bool" where
  "plain_part s \<longleftrightarrow> s \<noteq> [] \<and> s \<noteq> ''.'' \<and> s \<noteq> ''..'' \<and> CHR ''/'' \<notin> set s"

lemma split_slash_no_slash: "part \<in> set (split_slash p) \<Longrightarrow> CHR ''/'' \<notin> set part"
  by (induction p arbitrary: part rule: split_slash.induct) (auto split: list.splits if_splits)

lemma path_part_cases: "c \<in> set (path_part s) \<Longrightarrow> CHR ''/'' \<notin> set s \<Longrightarrow>
    c = ParentDir \<or> (\<exists>n. c = NormalName n \<and> plain_part n)"
  by (auto simp: path_part_def plain_part_def split: if_splits)

lemma path_components_tail:
  assumes "path_components p = RootDir # cs" and "ParentDir \<notin> set cs"
  shows "is_absolute p" "\<exists>names. cs = map NormalName names \<and> list_all plain_part names"
proof -
  have parts: "c = ParentDir \<or> (\<exists>n. c = NormalName n \<and> plain_part n)"
    if "c \<in> set (concat (map path_part (split_slash p)))" for c
    using that path_part_cases split_slash_no_slash by fastforce
  show abs: "is_absolute p"
  proof (rule ccontr)
    assume "\<not> is_absolute p"
    with assms(1) have "concat (map path_part (split_slash p)) = RootDir # cs"
      by (simp add: path_components_def split: if_splits)
    then have "RootDir \<in> set (concat (map path_part (split_slash p)))" by (simp only: list.set_intros)
    with parts show False by blast
  qed
  with assms(1) have "cs = concat (map path_part (split_slash p))" by (simp add: path_components_def)
  with parts assms(2) have "\<forall>c \<in> set cs. \<exists>n. c = NormalName n \<and> plain_part n" by blast
  then show "\<exists>names. cs = map NormalName names \<and> list_all plain_part names"
  proof (induction cs)
    case (Cons c cs)
    then obtain n names where "c = NormalName n" "plain_part n" "cs = map NormalName names" "list_all plain_part names"
      by auto
    then show ?case by (intro exI [of _ "n # names"]) simp
  qed simp
qed


end
