(* ===== verification/Ipc.thy ===== *)
theory Ipc
  imports Worker
begin

text \<open>
  The daemon behind its socket, \<^verbatim>\<open>wroid-daemon/src/ipc.rs\<close>: the requests and what they do to the
  sessions and processes, the framing of messages and the server loop. JSON (serde) is the parameters
  that print and parse messages; the socket and the operating system are what a step of the loop is
  given. The text of an error is left as the error it renders.
\<close>

section \<open>Messages\<close>

definition PROTOCOL_VERSION :: u32 where "PROTOCOL_VERSION = 2"
definition MAX_MESSAGE_BYTES :: nat where "MAX_MESSAGE_BYTES = 1024 * 1024"

datatype stop_reason_wire =
    SwUserRequested | SwFocusLost | SwBackendFailed | SwClientDisconnected | SwRuntimeShutdown

definition stop_reason_of :: "stop_reason_wire \<Rightarrow> stop_reason" where
  "stop_reason_of r =
     (case r of SwUserRequested \<Rightarrow> UserRequested | SwFocusLost \<Rightarrow> FocusLost | SwBackendFailed \<Rightarrow> BackendFailed
      | SwClientDisconnected \<Rightarrow> ClientDisconnected | SwRuntimeShutdown \<Rightarrow> RuntimeShutdown)"

datatype daemon_request =
    ReqPing
  | ReqPrepare string profile_v2 u32 u32 bool \<comment> \<open>session, profile, width, height, launch the package\<close>
  | ReqLaunch game_launch_request
  | ReqStart string
  | ReqState string
  | ReqStop string stop_reason_wire
  | ReqList

record protocol_request =
  pq_version :: u32
  pq_request :: daemon_request

definition protocol_request_new :: "daemon_request \<Rightarrow> protocol_request" where
  "protocol_request_new q = \<lparr>pq_version = PROTOCOL_VERSION, pq_request = q\<rparr>"

datatype session_state_wire = SsStopped | SsPreparing | SsRunning | SsStopping | SsFailed

definition state_wire :: "session_state \<Rightarrow> session_state_wire" where
  "state_wire st =
     (case st of StStopped \<Rightarrow> SsStopped | StPreparing \<Rightarrow> SsPreparing | StRunning \<Rightarrow> SsRunning
      | StStopping \<Rightarrow> SsStopping | StFailed \<Rightarrow> SsFailed)"

record session_snapshot =
  sn_session_id :: string
  sn_state :: session_state_wire
  sn_package_name :: string
  sn_launch_package :: bool
  sn_control_count :: nat
  sn_process_id :: "u32 option"
  sn_detail :: "string option"

definition snapshot_of :: "runtime_session \<Rightarrow> session_snapshot" where
  "snapshot_of s =
     \<lparr>sn_session_id = rs_session_id s, sn_state = state_wire (rs_state s), sn_package_name = rs_active_package s,
      sn_launch_package = rs_launch_package s,
      sn_control_count = (case rs_control_plan s of None \<Rightarrow> 0 | Some plan \<Rightarrow> length (pl_controls plan)),
      sn_process_id = rs_process_id s, sn_detail = rs_detail s\<rparr>"

datatype daemon_result =
    ResPong u32 nat
  | ResSession session_snapshot
  | ResSessions "session_snapshot list"
  | ResStopped session_snapshot nat nat bool

datatype dispatch_error = DeText string | DeDaemon daemon_error

datatype io_failure = WouldBlock | OtherIo io_error

datatype ipc_error =
    IpcIo io_failure
  | IpcProtocol string
  | IpcReap process_error \<comment> \<open>\<open>Protocol\<close> with the text of the error\<close>
  | IpcState daemon_error \<comment> \<open>likewise\<close>
  | IpcRejected string failure
and failure =
    FailIpc ipc_error
  | FailIo io_error
  | FailJson string
  | FailVersion u32
  | FailDispatch dispatch_error

record protocol_error =
  pe_code :: string
  pe_message :: failure

record protocol_response =
  pr_version :: u32
  pr_result :: "daemon_result option"
  pr_error :: "protocol_error option"

definition response_success :: "daemon_result \<Rightarrow> protocol_response" where
  "response_success r = \<lparr>pr_version = PROTOCOL_VERSION, pr_result = Some r, pr_error = None\<rparr>"

definition response_failure :: "string \<Rightarrow> failure \<Rightarrow> protocol_response" where
  "response_failure code message =
     \<lparr>pr_version = PROTOCOL_VERSION, pr_result = None, pr_error = Some \<lparr>pe_code = code, pe_message = message\<rparr>\<rparr>"

section \<open>Framing\<close>

abbreviation newline :: char where "newline \<equiv> CHR 0x0A"

text \<open>What a reader finds: the bytes that arrive, and how they end (an error, or the end of the stream).\<close>

record byte_stream =
  bs_bytes :: string
  bs_end :: "io_error option"

definition read_until_newline :: "nat \<Rightarrow> byte_stream \<Rightarrow> io_error + string" where
  "read_until_newline limit s =
     (let window = take limit (bs_bytes s); line = takeWhile (\<lambda>c. c \<noteq> newline) window
      in if length line < length window then Inr (line @ [newline])
         else if limit \<le> length (bs_bytes s) then Inr window
         else case bs_end s of None \<Rightarrow> Inr window | Some err \<Rightarrow> Inl err)"

definition read_bounded_message :: "byte_stream \<Rightarrow> io_error + string" where
  "read_bounded_message s =
     (case read_until_newline (MAX_MESSAGE_BYTES + 1) s of
        Inl err \<Rightarrow> Inl err
      | Inr bytes \<Rightarrow>
          if length bytes > MAX_MESSAGE_BYTES then Inl ''IPC message exceeds the 1 MiB limit''
          else if \<not> suffix [newline] bytes then Inl ''IPC message must end with a newline''
          else Inr (butlast bytes))"

definition framed :: "('a \<Rightarrow> string) \<Rightarrow> 'a \<Rightarrow> string" where
  "framed print a = print a @ [newline]"

section \<open>Requests\<close>

record daemon_server =
  sv_manager :: session_manager
  sv_processes :: managed_processes
  sv_expected_uid :: u32

type_synonym 'a server_st = "(daemon_server, dispatch_error, 'a) st"

definition on_manager :: "'a manager_st \<Rightarrow> daemon_server \<Rightarrow> 'a server_st" where
  "on_manager result sv =
     (case result of
        (m, Inl err) \<Rightarrow> (sv\<lparr>sv_manager := m\<rparr>, Inl (DeDaemon err))
      | (m, Inr a) \<Rightarrow> (sv\<lparr>sv_manager := m\<rparr>, Inr a))"

definition id_byte :: "char \<Rightarrow> bool" where
  "id_byte c \<longleftrightarrow>
     (let n = of_char c :: nat
      in 48 \<le> n \<and> n \<le> 57 \<or> 65 \<le> n \<and> n \<le> 90 \<or> 97 \<le> n \<and> n \<le> 122 \<or> c \<in> {CHR ''-'', CHR ''_'', CHR ''.''})"

definition validated_session_id :: "string \<Rightarrow> dispatch_error + session_id" where
  "validated_session_id v =
     (if \<not> (v \<noteq> [] \<and> length v \<le> 128 \<and> list_all id_byte v)
      then Inl (DeText ''session id must be 1-128 ASCII letters, digits, dots, dashes, or underscores'')
      else case session_id_new v of Inl SessionIdEmpty \<Rightarrow> Inl (DeText ''session id must not be empty'') | Inr i \<Rightarrow> Inr i)"

definition valid_dimension :: "u32 \<Rightarrow> bool" where
  "valid_dimension n \<longleftrightarrow> 1 \<le> n \<and> n \<le> 8192"

definition dimension_error :: dispatch_error where
  "dimension_error = DeText ''resolution dimensions must each be between 1 and 8192''"

text \<open>The session a request was about, as it is now.\<close>

definition answer_session :: "session_id \<Rightarrow> string \<Rightarrow> (session_snapshot \<Rightarrow> daemon_result) \<Rightarrow> daemon_server \<Rightarrow> daemon_result server_st" where
  "answer_session i missing wrap sv =
     (case manager_session (sv_manager sv) i of
        None \<Rightarrow> (sv, Inl (DeText missing))
      | Some s \<Rightarrow> (sv, Inr (wrap (snapshot_of s))))"

definition with_id :: "string \<Rightarrow> (session_id \<Rightarrow> daemon_result server_st) \<Rightarrow> daemon_server \<Rightarrow> daemon_result server_st" where
  "with_id v f sv = (case validated_session_id v of Inl err \<Rightarrow> (sv, Inl err) | Inr i \<Rightarrow> f i)"

definition dispatch_prepare :: "string \<Rightarrow> profile_v2 \<Rightarrow> u32 \<Rightarrow> u32 \<Rightarrow> bool \<Rightarrow> daemon_server \<Rightarrow> daemon_result server_st" where
  "dispatch_prepare v p width height launch_package sv =
     with_id v (\<lambda>i.
       if \<not> valid_dimension width \<or> \<not> valid_dimension height then (sv, Inl dimension_error)
       else
         andThen (on_manager (prepare_profile_v2 (sv_manager sv) i p
                    (display_info_new \<lparr>rwidth = width, rheight = height\<rparr>) launch_package) sv)
           (\<lambda>sv' _. answer_session i ''prepared session disappeared'' ResSession sv')) sv"

definition dispatch_launch :: "worker_os \<Rightarrow> i32 \<Rightarrow> game_launch_request \<Rightarrow> daemon_server \<Rightarrow> daemon_result server_st" where
  "dispatch_launch os peer_pid q sv =
     with_id (gl_session_id q) (\<lambda>i.
       if gl_worker_protocol_generation q \<noteq> BRIDGE_WORKER_PROTOCOL_GENERATION
       then (sv, Inl (DeText
              (''worker protocol generation '' @ show_nat (unat (gl_worker_protocol_generation q))
               @ '' is incompatible with daemon generation '' @ show_nat (unat BRIDGE_WORKER_PROTOCOL_GENERATION))))
       else if \<not> valid_dimension (gl_width q) \<or> \<not> valid_dimension (gl_height q) then (sv, Inl dimension_error)
       else if (case gl_exit_after_millis q of None \<Rightarrow> False | Some ms \<Rightarrow> \<not> (1 \<le> ms \<and> ms \<le> 3600000))
       then (sv, Inl (DeText ''diagnostic timeout must be between 1 and 3600000 milliseconds''))
       else
         andThen (on_manager (prepare_profile_v2 (sv_manager sv) i (gl_profile q)
                    (display_info_new \<lparr>rwidth = gl_width q, rheight = gl_height q\<rparr>) (gl_launch_package q)) sv)
           (\<lambda>sv1 _.
              case launch os (sv_processes sv1) i q peer_pid (sv_expected_uid sv1) of
                (children, Inl err) \<Rightarrow>
                  andThen (on_manager (mark_failed (sv_manager sv1) i (process_error_text err))
                             (sv1\<lparr>sv_processes := children\<rparr>))
                    (\<lambda>sv2 _. (sv2, Inl (DeText (process_error_text err))))
              | (children, Inr pid) \<Rightarrow>
                  andThen (on_manager (mark_running (sv_manager sv1) i pid) (sv1\<lparr>sv_processes := children\<rparr>))
                    (\<lambda>sv2 _. answer_session i ''launched session disappeared'' ResSession sv2))) sv"

definition dispatch_start :: "string \<Rightarrow> daemon_server \<Rightarrow> daemon_result server_st" where
  "dispatch_start v sv =
     with_id v (\<lambda>i.
       andThen (on_manager (manager_start (sv_manager sv) i) sv)
         (\<lambda>sv' _. answer_session i ''started session disappeared'' ResSession sv')) sv"

definition dispatch_state :: "string \<Rightarrow> daemon_server \<Rightarrow> daemon_result server_st" where
  "dispatch_state v sv =
     with_id v (\<lambda>i.
       case manager_state (sv_manager sv) i of
         Inl err \<Rightarrow> (sv, Inl (DeDaemon err))
       | Inr _ \<Rightarrow> answer_session i ''session disappeared'' ResSession sv) sv"

definition dispatch_stop :: "worker_os \<Rightarrow> string \<Rightarrow> stop_reason_wire \<Rightarrow> daemon_server \<Rightarrow> daemon_result server_st" where
  "dispatch_stop os v reason sv =
     with_id v (\<lambda>i.
       case request_stop os (sv_processes sv) i of
         (children, Inl err) \<Rightarrow> (sv\<lparr>sv_processes := children\<rparr>, Inl (DeText (process_error_text err)))
       | (children, Inr True) \<Rightarrow>
           andThen (on_manager (mark_stopping (sv_manager sv) i) (sv\<lparr>sv_processes := children\<rparr>))
             (\<lambda>sv' _. answer_session i ''stopping session disappeared'' (\<lambda>s. ResStopped s 0 0 False) sv')
       | (children, Inr False) \<Rightarrow>
           andThen (on_manager (manager_stop (sv_manager sv) i (stop_reason_of reason)) (sv\<lparr>sv_processes := children\<rparr>))
             (\<lambda>sv' report. answer_session i ''stopped session disappeared''
                (\<lambda>s. ResStopped s (sp_contacts_cancelled report) (sp_leases_released report)
                       (sp_settings_restored report)) sv')) sv"

definition dispatch :: "worker_os \<Rightarrow> i32 \<Rightarrow> daemon_request \<Rightarrow> daemon_server \<Rightarrow> daemon_result server_st" where
  "dispatch os peer_pid q sv =
     (case q of
        ReqPing \<Rightarrow> (sv, Inr (ResPong (wo_pid os) (session_count (sv_manager sv))))
      | ReqPrepare v p width height launch_package \<Rightarrow> dispatch_prepare v p width height launch_package sv
      | ReqLaunch l \<Rightarrow> dispatch_launch os peer_pid l sv
      | ReqStart v \<Rightarrow> dispatch_start v sv
      | ReqState v \<Rightarrow> dispatch_state v sv
      | ReqStop v reason \<Rightarrow> dispatch_stop os v reason sv
      | ReqList \<Rightarrow> (sv, Inr (ResSessions (map snapshot_of (manager_sessions (sv_manager sv))))))"

section \<open>The server loop\<close>

record peer_answer =
  pa_error :: "io_error option"
  pa_length_ok :: bool
  pa_uid :: u32
  pa_pid :: i32

definition peer_credentials :: "peer_answer \<Rightarrow> u32 \<Rightarrow> ipc_error + i32" where
  "peer_credentials a uid =
     (case pa_error a of
        Some err \<Rightarrow> Inl (IpcIo (OtherIo err))
      | None \<Rightarrow>
          if \<not> pa_length_ok a \<or> pa_uid a \<noteq> uid
          then Inl (IpcProtocol (''peer UID '' @ show_nat (unat (pa_uid a)) @ '' does not match current UID ''
                                 @ show_nat (unat uid)))
          else if sint (pa_pid a) \<le> 0 then Inl (IpcProtocol ''peer credentials did not include a valid PID'')
          else Inr (pa_pid a))"

datatype write_failure = WriteIo io_failure | WriteJson string

text \<open>\<open>serde_json::to_writer\<close> fails with any error of the socket, whose kind is then lost.\<close>

definition write_error :: "write_failure \<Rightarrow> ipc_error" where
  "write_error w = (case w of WriteIo err \<Rightarrow> IpcIo err | WriteJson s \<Rightarrow> IpcProtocol s)"

record connection =
  co_peer :: peer_answer
  co_read_timeout :: "io_error option"
  co_stream :: byte_stream
  co_written :: "write_failure option" \<comment> \<open>what writing the response ends with\<close>

datatype accepted = AcceptFailed io_failure | Accepted connection

record serve_env =
  se_os :: worker_os
  se_accept :: accepted

definition record_exit :: "reaped_process \<Rightarrow> daemon_server \<Rightarrow> (daemon_server, ipc_error, unit) st" where
  "record_exit p sv =
     (case mark_exited (sv_manager sv) (rp_session_id p) (rp_success p) (rp_detail p) of
        (m, Inl err) \<Rightarrow> (sv\<lparr>sv_manager := m\<rparr>, Inl (IpcState err))
      | (m, Inr _) \<Rightarrow> (sv\<lparr>sv_manager := m\<rparr>, Inr ()))"

fun record_exits :: "reaped_process list \<Rightarrow> daemon_server \<Rightarrow> (daemon_server, ipc_error, unit) st" where
  "record_exits [] sv = (sv, Inr ())"
| "record_exits (p # ps) sv = andThen (record_exit p sv) (\<lambda>sv' _. record_exits ps sv')"

definition reap_managed_processes :: "worker_os \<Rightarrow> daemon_server \<Rightarrow> (daemon_server, ipc_error, unit) st" where
  "reap_managed_processes os sv =
     (case reap os (sv_processes sv) of
        (children, Inl err) \<Rightarrow> (sv\<lparr>sv_processes := children\<rparr>, Inl (IpcReap err))
      | (children, Inr completed) \<Rightarrow> record_exits completed (sv\<lparr>sv_processes := children\<rparr>))"

definition read_and_dispatch ::
  "(string \<Rightarrow> string + protocol_request) \<Rightarrow> worker_os \<Rightarrow> connection \<Rightarrow> i32 \<Rightarrow> daemon_server
     \<Rightarrow> daemon_server \<times> protocol_response" where
  "read_and_dispatch parse os conn peer_pid sv =
     (case co_read_timeout conn of
        Some err \<Rightarrow> (sv, response_failure ''io_error'' (FailIo err))
      | None \<Rightarrow>
          (case read_bounded_message (co_stream conn) of
             Inl err \<Rightarrow> (sv, response_failure ''invalid_request'' (FailIo err))
           | Inr bytes \<Rightarrow>
               (case parse bytes of
                  Inl err \<Rightarrow> (sv, response_failure ''invalid_request'' (FailJson err))
                | Inr q \<Rightarrow>
                    if pq_version q \<noteq> PROTOCOL_VERSION
                    then (sv, response_failure ''version_mismatch'' (FailVersion (pq_version q)))
                    else case dispatch os peer_pid (pq_request q) sv of
                           (sv', Inl err) \<Rightarrow> (sv', response_failure ''session_error'' (FailDispatch err))
                         | (sv', Inr r) \<Rightarrow> (sv', response_success r))))"

text \<open>One turn; on success its value is the response that was written.\<close>

definition serve_once ::
  "(string \<Rightarrow> string + protocol_request) \<Rightarrow> serve_env \<Rightarrow> daemon_server \<Rightarrow> (daemon_server, ipc_error, protocol_response) st" where
  "serve_once parse env sv =
     andThen (reap_managed_processes (se_os env) sv) (\<lambda>sv1 _.
       case se_accept env of
         AcceptFailed err \<Rightarrow> (sv1, Inl (IpcIo err))
       | Accepted conn \<Rightarrow>
           let (sv2, response) =
                 (case peer_credentials (co_peer conn) (sv_expected_uid sv1) of
                    Inr pid \<Rightarrow> read_and_dispatch parse (se_os env) conn pid sv1
                  | Inl err \<Rightarrow> (sv1, response_failure ''unauthorized'' (FailIpc err)))
           in case co_written conn of None \<Rightarrow> (sv2, Inr response) | Some w \<Rightarrow> (sv2, Inl (write_error w)))"

text \<open>The turns until the stop flag is seen; the environment of each is given.\<close>

fun serve_until ::
  "(string \<Rightarrow> string + protocol_request) \<Rightarrow> serve_env list \<Rightarrow> daemon_server \<Rightarrow> (daemon_server, ipc_error, unit) st" where
  "serve_until parse [] sv = (sv, Inr ())"
| "serve_until parse (env # envs) sv =
     (case serve_once parse env sv of
        (sv', Inr _) \<Rightarrow> serve_until parse envs sv'
      | (sv', Inl err) \<Rightarrow>
          if err = IpcIo WouldBlock then serve_until parse envs sv' else (sv', Inl err))"

definition server_new :: "u32 \<Rightarrow> daemon_server" where
  "server_new uid = \<lparr>sv_manager = manager_new, sv_processes = processes_new, sv_expected_uid = uid\<rparr>"

section \<open>The client\<close>

text \<open>What a client makes of the bytes it reads back.\<close>

definition client_outcome ::
  "(string \<Rightarrow> string + protocol_response) \<Rightarrow> byte_stream \<Rightarrow> ipc_error + daemon_result" where
  "client_outcome parse s =
     (case read_bounded_message s of
        Inl err \<Rightarrow> Inl (IpcIo (OtherIo err))
      | Inr bytes \<Rightarrow>
          (case parse bytes of
             Inl err \<Rightarrow> Inl (IpcProtocol (''invalid server response: '' @ err))
           | Inr r \<Rightarrow>
               if pr_version r \<noteq> PROTOCOL_VERSION
               then Inl (IpcProtocol (''server protocol '' @ show_nat (unat (pr_version r))
                      @ '' is incompatible with client protocol '' @ show_nat (unat PROTOCOL_VERSION)))
               else case (pr_result r, pr_error r) of
                      (Some result, None) \<Rightarrow> Inr result
                    | (None, Some err) \<Rightarrow> Inl (IpcRejected (pe_code err) (pe_message err))
                    | _ \<Rightarrow> Inl (IpcProtocol ''server response must contain exactly one result or error'')))"

end
