(* ===== verification/IpcSafe.thy ===== *)
theory IpcSafe
  imports Ipc
begin

text \<open>
  What the daemon keeps, whatever its clients send and the system answers: the sessions and the child
  processes stay in step, every session lives one life, and messages are cut at their newlines.
\<close>

section \<open>Sessions and processes in step\<close>

text \<open>A session with a child is running or stopping and knows its process; one without has none and is
  not waiting for an exit. There is one child at most.\<close>

definition tracked :: "runtime_session option \<Rightarrow> managed_process option \<Rightarrow> bool" where
  "tracked session child \<longleftrightarrow>
     (case (session, child) of
        (None, None) \<Rightarrow> True
      | (None, Some _) \<Rightarrow> False
      | (Some s, None) \<Rightarrow> rs_process_id s = None \<and> rs_state s \<noteq> StStopping
      | (Some s, Some p) \<Rightarrow> rs_process_id s = Some (mp_pid p) \<and> (rs_state s = StRunning \<or> rs_state s = StStopping))"

definition server_inv :: "daemon_server \<Rightarrow> bool" where
  "server_inv sv \<longleftrightarrow>
     (\<forall>i. tracked (manager_session (sv_manager sv) i) (RBT.lookup (sv_processes sv) i))
     \<and> (\<forall>i j. RBT.lookup (sv_processes sv) i \<noteq> None \<longrightarrow> RBT.lookup (sv_processes sv) j \<noteq> None \<longrightarrow> i = j)"

lemma tracked_simps [simp]:
  "tracked None None" "\<not> tracked None (Some p)"
  "tracked (Some s) None \<longleftrightarrow> rs_process_id s = None \<and> rs_state s \<noteq> StStopping"
  "tracked (Some s) (Some p) \<longleftrightarrow>
     rs_process_id s = Some (mp_pid p) \<and> (rs_state s = StRunning \<or> rs_state s = StStopping)"
  by (simp_all add: tracked_def)

lemma server_inv_new: "server_inv (server_new uid)"
  by (simp add: server_inv_def server_new_def manager_new_def processes_new_def manager_session_def)

text \<open>One session and its child replaced.\<close>

lemma server_inv_update:
  assumes inv: "server_inv sv"
    and m: "manager_session (sv_manager sv') = (manager_session (sv_manager sv))(i := s)"
    and c: "RBT.lookup (sv_processes sv') = (RBT.lookup (sv_processes sv))(i := p)"
    and ok: "tracked s p" and one: "p \<noteq> None \<Longrightarrow> \<forall>j. j \<noteq> i \<longrightarrow> RBT.lookup (sv_processes sv) j = None"
  shows "server_inv sv'"
proof -
  have all: "tracked (manager_session (sv_manager sv) j) (RBT.lookup (sv_processes sv) j)" for j
    using inv by (simp add: server_inv_def)
  have "tracked (manager_session (sv_manager sv') j) (RBT.lookup (sv_processes sv') j)" for j
    using all [of j] ok by (simp add: m c)
  moreover have "j = k" if "RBT.lookup (sv_processes sv') j \<noteq> None" "RBT.lookup (sv_processes sv') k \<noteq> None" for j k
    using that inv one by (auto simp: c server_inv_def split: if_splits)
  ultimately show ?thesis by (simp add: server_inv_def)
qed

lemma on_manager_cases:
  assumes "on_manager result sv = (sv', res)"
  obtains (error) m err where "result = (m, Inl err)" "sv' = sv\<lparr>sv_manager := m\<rparr>" "res = Inl (DeDaemon err)"
  | (ok) m a where "result = (m, Inr a)" "sv' = sv\<lparr>sv_manager := m\<rparr>" "res = Inr a"
  using assms by (auto simp: on_manager_def split: prod.splits sum.splits)

lemma answer_session_server [simp]: "fst (answer_session i missing wrap sv) = sv"
  by (simp add: answer_session_def split: option.splits)

definition keeps :: "(daemon_server, 'e, 'a) st \<Rightarrow> bool" where "keeps result \<longleftrightarrow> server_inv (fst result)"

lemma keeps_andThen:
  assumes "keeps result" and "\<And>sv a. result = (sv, Inr a) \<Longrightarrow> server_inv sv \<Longrightarrow> keeps (f sv a)"
  shows "keeps (andThen result f)"
  using assms by (cases result; cases "snd result") (auto simp: keeps_def)

lemma keeps_answer: "server_inv sv \<Longrightarrow> keeps (answer_session i missing wrap sv)"
  by (simp add: keeps_def)

lemma keeps_with_id: "server_inv sv \<Longrightarrow> (\<And>i. keeps (f i)) \<Longrightarrow> keeps (with_id v f sv)"
  by (auto simp: with_id_def keeps_def split: sum.splits)

lemma same_manager [simp]: "sv\<lparr>sv_manager := sv_manager sv\<rparr> = sv" by simp

lemma fun_upd_manager: "manager_session (RBT.insert i s m) = (manager_session m)(i := Some s)"
  by (auto simp: fun_eq_iff)

text \<open>A new session.\<close>

lemma prepare_cases:
  assumes "prepare_profile_v2 m i p d b = (m', res)"
  obtains (refused) err where "m' = m" "res = Inl err"
  | (new) s where "manager_session m i = None" "m' = RBT.insert i s m" "rs_state s = StPreparing"
      "rs_process_id s = None" "res = Inr (session_prepared s)"
  using assms by (auto simp: prepare_profile_v2_def Let_def split: if_splits option.splits sum.splits)

lemma prepare_keeps:
  assumes "server_inv sv" shows "keeps (on_manager (prepare_profile_v2 (sv_manager sv) i p d b) sv)"
proof -
  obtain m' res where r: "prepare_profile_v2 (sv_manager sv) i p d b = (m', res)" by fastforce
  from r show ?thesis
  proof (cases rule: prepare_cases)
    case refused
    with assms r show ?thesis by (simp add: keeps_def on_manager_def)
  next
    case (new s)
    have "tracked (manager_session (sv_manager sv) i) (RBT.lookup (sv_processes sv) i)"
      using assms by (simp add: server_inv_def)
    then have "RBT.lookup (sv_processes sv) i = None" using new(1) by (cases "RBT.lookup (sv_processes sv) i") auto
    then have "server_inv (sv\<lparr>sv_manager := m'\<rparr>)"
      by (intro server_inv_update [OF assms, of _ i "Some s" None]) (simp_all add: new fun_upd_manager fun_upd_idem)
    with r new show ?thesis by (simp add: keeps_def on_manager_def)
  qed
qed

text \<open>A change of a session without a child.\<close>

lemma idle_change_keeps:
  assumes inv: "server_inv sv"
    and f: "\<And>s s' a. manager_session (sv_manager sv) i = Some s \<Longrightarrow> f s = Inr (s', a) \<Longrightarrow>
      tracked (Some s') (RBT.lookup (sv_processes sv) i)"
  shows "keeps (on_manager (with_session (sv_manager sv) i f) sv)"
proof -
  obtain m' res where r: "with_session (sv_manager sv) i f = (m', res)" by fastforce
  from r show ?thesis
  proof (cases rule: with_session_cases)
    case (changed s s' a)
    have "server_inv (sv\<lparr>sv_manager := m'\<rparr>)"
    proof (rule server_inv_update [OF inv, of _ i "Some s'" "RBT.lookup (sv_processes sv) i"])
      show "tracked (Some s') (RBT.lookup (sv_processes sv) i)" by (rule f [OF changed(1,2)])
      show "\<forall>j. j \<noteq> i \<longrightarrow> RBT.lookup (sv_processes sv) j = None" if "RBT.lookup (sv_processes sv) i \<noteq> None"
        using inv that by (auto simp: server_inv_def)
    qed (simp_all add: changed fun_upd_manager)
    with r changed show ?thesis by (simp add: keeps_def on_manager_def)
  qed (use inv r in \<open>simp_all add: keeps_def on_manager_def\<close>)
qed

lemma tracked_at: "server_inv sv \<Longrightarrow> tracked (manager_session (sv_manager sv) i) (RBT.lookup (sv_processes sv) i)"
  by (simp add: server_inv_def)

lemma start_keeps:
  assumes "server_inv sv" shows "keeps (on_manager (manager_start (sv_manager sv) i) sv)"
  unfolding manager_start_def
  by (rule idle_change_keeps [OF assms])
    (use tracked_at [OF assms, of i] in \<open>auto simp: tracked_def split: session_state.splits option.splits\<close>)

lemma stop_keeps:
  assumes "server_inv sv" "RBT.lookup (sv_processes sv) i = None"
  shows "keeps (on_manager (manager_stop (sv_manager sv) i reason) sv)"
  unfolding manager_stop_def
  by (rule idle_change_keeps [OF assms(1)])
    (use tracked_at [OF assms(1), of i] assms(2) in \<open>auto split: session_state.splits\<close>)

lemma failed_keeps:
  assumes "server_inv sv" shows "keeps (on_manager (mark_failed (sv_manager sv) i detail) sv)"
  unfolding mark_failed_def
  by (rule idle_change_keeps [OF assms])
    (use tracked_at [OF assms, of i] in \<open>auto simp: tracked_def split: if_splits option.splits\<close>)

lemma stopping_keeps:
  assumes "server_inv sv" "RBT.lookup (sv_processes sv) i \<noteq> None"
  shows "keeps (on_manager (mark_stopping (sv_manager sv) i) sv)"
  unfolding mark_stopping_def
  by (rule idle_change_keeps [OF assms(1)])
    (use tracked_at [OF assms(1), of i] assms(2) in \<open>auto split: if_splits\<close>)


section \<open>Launching, stopping and reaping\<close>

lemma launch_cases:
  assumes "launch os children i q peer_pid uid = (children', res)"
  obtains (failed) err where "children' = children" "res = Inl err"
  | (spawned) pid where "RBT.is_empty children"
      "children' = RBT.insert i \<lparr>mp_pid = pid, mp_stop_requested = False\<rparr> children" "res = Inr pid"
proof (cases "RBT.is_empty children")
  case True
  show thesis
  proof (cases "gl_worker_protocol_generation q = BRIDGE_WORKER_PROTOCOL_GENERATION")
    case generation: True
    show thesis
    proof (cases "start_worker os q peer_pid uid")
      case (Inl err)
      show thesis by (rule that(1) [of err]) (use assms True generation Inl in \<open>auto simp: launch_def\<close>)
    next
      case (Inr pid)
      show thesis by (rule that(2) [of pid]) (use assms True generation Inr in \<open>auto simp: launch_def\<close>)
    qed
  next
    case False
    show thesis by (rule that(1)) (use assms True False in \<open>auto simp: launch_def\<close>)
  qed
next
  case False
  show thesis by (rule that(1)) (use assms False in \<open>auto simp: launch_def\<close>)
qed

lemma request_stop_cases:
  assumes "request_stop os children i = (children', res)"
  obtains (unknown) "RBT.lookup children i = None" "children' = children" "res = Inr False"
  | (failed) err where "RBT.lookup children i \<noteq> None" "children' = children" "res = Inl err"
  | (signalled) p where "RBT.lookup children i = Some p"
      "children' = RBT.insert i (p\<lparr>mp_stop_requested := True\<rparr>) children" "res = Inr True"
  using assms by (auto simp: request_stop_def split: option.splits if_splits prod.splits)

lemma launched_keeps:
  assumes inv: "server_inv sv" and empty: "RBT.is_empty (sv_processes sv)"
    and s: "manager_session (sv_manager sv) i = Some s" "rs_state s = StPreparing"
  shows "keeps (on_manager (mark_running (sv_manager sv) i pid)
    (sv\<lparr>sv_processes := RBT.insert i \<lparr>mp_pid = pid, mp_stop_requested = False\<rparr> (sv_processes sv)\<rparr>))"
proof -
  have none: "RBT.lookup (sv_processes sv) j = None" for j using empty by simp
  have "server_inv (sv\<lparr>sv_processes := RBT.insert i \<lparr>mp_pid = pid, mp_stop_requested = False\<rparr> (sv_processes sv),
      sv_manager := RBT.insert i (s\<lparr>rs_state := StRunning, rs_process_id := Some pid, rs_detail := None\<rparr>)
        (sv_manager sv)\<rparr>)"
    by (rule server_inv_update [OF inv, of _ i _ "Some \<lparr>mp_pid = pid, mp_stop_requested = False\<rparr>"])
      (auto simp: fun_upd_manager fun_eq_iff none)
  with s show ?thesis by (simp add: keeps_def on_manager_def mark_running_def with_session_def)
qed

lemma dispatch_launch_keeps: "server_inv sv \<Longrightarrow> keeps (dispatch_launch os peer_pid q sv)"
  unfolding dispatch_launch_def
proof (rule keeps_with_id)
  fix i assume inv: "server_inv sv"
  let ?prepared = "on_manager (prepare_profile_v2 (sv_manager sv) i (gl_profile q)
      (display_info_new \<lparr>rwidth = gl_width q, rheight = gl_height q\<rparr>) (gl_launch_package q)) sv"
  let ?run = "\<lambda>sv1. case launch os (sv_processes sv1) i q peer_pid (sv_expected_uid sv1) of
      (children, Inl err) \<Rightarrow>
        andThen (on_manager (mark_failed (sv_manager sv1) i (process_error_text err)) (sv1\<lparr>sv_processes := children\<rparr>))
          (\<lambda>sv2 _. (sv2, Inl (DeText (process_error_text err))))
    | (children, Inr pid) \<Rightarrow>
        andThen (on_manager (mark_running (sv_manager sv1) i pid) (sv1\<lparr>sv_processes := children\<rparr>))
          (\<lambda>sv2 _. answer_session i ''launched session disappeared'' ResSession sv2)"
  have "keeps (andThen ?prepared (\<lambda>sv1 _. ?run sv1))"
  proof (rule keeps_andThen [OF prepare_keeps [OF inv]])
    fix sv1 a assume r: "?prepared = (sv1, Inr a)" and inv1: "server_inv sv1"
    obtain m1 res1 where p: "prepare_profile_v2 (sv_manager sv) i (gl_profile q)
        (display_info_new \<lparr>rwidth = gl_width q, rheight = gl_height q\<rparr>) (gl_launch_package q) = (m1, res1)" by fastforce
    from p obtain s where s: "manager_session (sv_manager sv1) i = Some s" "rs_state s = StPreparing"
    proof (cases rule: prepare_cases)
      case (new s)
      with r p have "manager_session (sv_manager sv1) i = Some s" by (auto simp: on_manager_def)
      with new(3) show ?thesis using that by blast
    qed (use r p in \<open>simp add: on_manager_def\<close>)
    obtain children res where l: "launch os (sv_processes sv1) i q peer_pid (sv_expected_uid sv1) = (children, res)"
      by fastforce
    from l show "keeps (?run sv1)"
    proof (cases rule: launch_cases)
      case (failed err)
      have "keeps (andThen (on_manager (mark_failed (sv_manager sv1) i (process_error_text err)) sv1)
          (\<lambda>sv2 _. (sv2, Inl (DeText (process_error_text err)) :: dispatch_error + daemon_result)))"
        by (rule keeps_andThen [OF failed_keeps [OF inv1]]) (simp add: keeps_def)
      with l failed show ?thesis by simp
    next
      case (spawned pid)
      have "keeps (on_manager (mark_running (sv_manager sv1) i pid) (sv1\<lparr>sv_processes := children\<rparr>))"
        using launched_keeps [OF inv1 spawned(1) s] by (simp add: spawned(2))
      then have "keeps (andThen (on_manager (mark_running (sv_manager sv1) i pid) (sv1\<lparr>sv_processes := children\<rparr>))
          (\<lambda>sv2 _. answer_session i ''launched session disappeared'' ResSession sv2))"
        by (rule keeps_andThen) (rule keeps_answer)
      with l spawned show ?thesis by simp
    qed
  qed
  then show "keeps (if gl_worker_protocol_generation q \<noteq> BRIDGE_WORKER_PROTOCOL_GENERATION
       then (sv, Inl (DeText
              (''worker protocol generation '' @ show_nat (unat (gl_worker_protocol_generation q))
               @ '' is incompatible with daemon generation '' @ show_nat (unat BRIDGE_WORKER_PROTOCOL_GENERATION))))
       else if \<not> valid_dimension (gl_width q) \<or> \<not> valid_dimension (gl_height q) then (sv, Inl dimension_error)
       else if (case gl_exit_after_millis q of None \<Rightarrow> False | Some ms \<Rightarrow> \<not> (1 \<le> ms \<and> ms \<le> 3600000))
       then (sv, Inl (DeText ''diagnostic timeout must be between 1 and 3600000 milliseconds''))
       else andThen ?prepared (\<lambda>sv1 _. ?run sv1))"
    using inv by (simp add: keeps_def)
qed


lemma dispatch_stop_keeps: "server_inv sv \<Longrightarrow> keeps (dispatch_stop os v reason sv)"
  unfolding dispatch_stop_def
proof (rule keeps_with_id)
  fix i assume inv: "server_inv sv"
  obtain children res where r: "request_stop os (sv_processes sv) i = (children, res)" by fastforce
  from r show "keeps (case request_stop os (sv_processes sv) i of
       (children, Inl err) \<Rightarrow> (sv\<lparr>sv_processes := children\<rparr>, Inl (DeText (process_error_text err)))
     | (children, Inr True) \<Rightarrow>
         andThen (on_manager (mark_stopping (sv_manager sv) i) (sv\<lparr>sv_processes := children\<rparr>))
           (\<lambda>sv' _. answer_session i ''stopping session disappeared'' (\<lambda>s. ResStopped s 0 0 False) sv')
     | (children, Inr False) \<Rightarrow>
         andThen (on_manager (manager_stop (sv_manager sv) i (stop_reason_of reason)) (sv\<lparr>sv_processes := children\<rparr>))
           (\<lambda>sv' report. answer_session i ''stopped session disappeared''
              (\<lambda>s. ResStopped s (sp_contacts_cancelled report) (sp_leases_released report)
                     (sp_settings_restored report)) sv'))"
  proof (cases rule: request_stop_cases)
    case unknown
    have "keeps (andThen (on_manager (manager_stop (sv_manager sv) i (stop_reason_of reason)) sv)
       (\<lambda>sv' report. answer_session i ''stopped session disappeared''
          (\<lambda>s. ResStopped s (sp_contacts_cancelled report) (sp_leases_released report)
                 (sp_settings_restored report)) sv'))"
      by (rule keeps_andThen [OF stop_keeps [OF inv unknown(1)]]) (rule keeps_answer)
    with r unknown show ?thesis by simp
  next
    case failed
    with r inv show ?thesis by (simp add: keeps_def)
  next
    case (signalled p)
    obtain s where s: "manager_session (sv_manager sv) i = Some s" "tracked (Some s) (Some p)"
      using tracked_at [OF inv, of i] signalled(1) by (cases "manager_session (sv_manager sv) i") auto
    have inv': "server_inv (sv\<lparr>sv_processes := children\<rparr>)"
      by (rule server_inv_update [OF inv, of _ i "Some s" "Some (p\<lparr>mp_stop_requested := True\<rparr>)"])
        (use s signalled inv in \<open>auto simp: fun_eq_iff server_inv_def\<close>)
    have "keeps (andThen (on_manager (mark_stopping (sv_manager sv) i) (sv\<lparr>sv_processes := children\<rparr>))
       (\<lambda>sv' _. answer_session i ''stopping session disappeared'' (\<lambda>s. ResStopped s 0 0 False) sv'))"
      by (rule keeps_andThen [OF stopping_keeps [OF inv', of i, simplified]])
        (simp_all add: signalled keeps_answer)
    with r signalled show ?thesis by simp
  qed
qed

lemma dispatch_keeps: "server_inv sv \<Longrightarrow> keeps (dispatch os peer_pid q sv)"
proof (cases q)
  case (ReqPrepare v p w h b)
  show "server_inv sv \<Longrightarrow> keeps (dispatch os peer_pid q sv)"
    unfolding ReqPrepare dispatch_def daemon_request.case dispatch_prepare_def
    by (rule keeps_with_id, assumption) (simp add: keeps_andThen prepare_keeps keeps_answer, simp add: keeps_def)
next
  case (ReqStart v)
  show "server_inv sv \<Longrightarrow> keeps (dispatch os peer_pid q sv)"
    unfolding ReqStart dispatch_def daemon_request.case dispatch_start_def
    by (rule keeps_with_id, assumption) (simp add: keeps_andThen start_keeps keeps_answer)
next
  case (ReqState v)
  show "server_inv sv \<Longrightarrow> keeps (dispatch os peer_pid q sv)"
    unfolding ReqState dispatch_def daemon_request.case dispatch_state_def
    by (rule keeps_with_id, assumption) (simp add: keeps_answer keeps_def split: sum.splits)
qed (simp_all add: dispatch_def dispatch_launch_keeps dispatch_stop_keeps, simp_all add: keeps_def)

lemma reap_one_entries:
  assumes "distinct (map fst xs)" and "\<forall>x \<in> set xs. RBT.lookup children (fst x) \<noteq> None"
  shows "\<exists>children' completed'. fold (reap_one os) xs (children, completed) = (children', completed @ completed')
    \<and> RBT.lookup children' = RBT.lookup children |` (- (fst ` set xs)) \<and> map rp_session_id completed' = map fst xs"
  using assms
proof (induction xs arbitrary: children completed)
  case Nil
  then show ?case by (simp add: restrict_map_def)
next
  case (Cons x xs)
  obtain i status where x: "x = (i, status)" by fastforce
  from Cons.prems obtain p where p: "RBT.lookup children i = Some p" by (auto simp: x)
  obtain success detail where d: "combine_reaped_detail status (wo_join os (Some (mp_pid p))) (mp_stop_requested p)
      = (success, detail)" by fastforce
  let ?r = "\<lparr>rp_session_id = i, rp_success = success, rp_detail = detail\<rparr>"
  have step: "reap_one os x (children, completed) = (RBT.delete i children, completed @ [?r])"
    by (simp add: reap_one_def x p d)
  have "\<forall>y \<in> set xs. RBT.lookup (RBT.delete i children) (fst y) \<noteq> None"
    using Cons.prems by (auto simp: x restrict_map_def image_iff)
  moreover have "distinct (map fst xs)" using Cons.prems(1) by simp
  ultimately obtain children' completed' where rest:
    "fold (reap_one os) xs (RBT.delete i children, completed @ [?r]) = (children', (completed @ [?r]) @ completed')"
    "RBT.lookup children' = RBT.lookup (RBT.delete i children) |` (- (fst ` set xs))"
    "map rp_session_id completed' = map fst xs"
    using Cons.IH [of "RBT.delete i children" "completed @ [?r]"] by blast
  have "RBT.lookup children' = RBT.lookup children |` (- (fst ` set (x # xs)))"
    by (auto simp: rest(2) x restrict_map_def fun_eq_iff)
  with rest step show ?case
    by (intro exI [of _ children'] exI [of _ "?r # completed'"] conjI) (simp_all add: x)
qed

lemma exited_entries:
  "distinct (map fst es) \<Longrightarrow> distinct (map fst (List.map_filter (\<lambda>((i, p), status). map_option (Pair i) status) (zip es polls)))
    \<and> fst ` set (List.map_filter (\<lambda>((i, p), status). map_option (Pair i) status) (zip es polls)) \<subseteq> fst ` set es"
proof (induction es arbitrary: polls)
  case (Cons e es)
  show ?case
  proof (cases polls)
    case (Cons st sts)
    with Cons.IH [of sts] Cons.prems show ?thesis
      by (cases e; cases st) (auto simp: map_filter_simps)
  qed (simp add: map_filter_simps)
qed (simp add: map_filter_simps)

lemma reap_cases:
  assumes "reap os children = (children', res)"
  obtains (failed) err where "children' = children" "res = Inl err"
  | (reaped) completed where "res = Inr completed" "distinct (map rp_session_id completed)"
      "RBT.lookup children' = RBT.lookup children |` (- (rp_session_id ` set completed))"
      "\<forall>p \<in> set completed. RBT.lookup children (rp_session_id p) \<noteq> None"
proof (cases "collect_results (\<lambda>(i, p). from_io (wo_try_wait os (mp_pid p))) (RBT.entries children)")
  case (Inl err)
  show thesis by (rule that(1) [of err]) (use assms Inl in \<open>auto simp: reap_def\<close>)
next
  case (Inr polls)
  let ?xs = "List.map_filter (\<lambda>((i, p), status). map_option (Pair i) status) (zip (RBT.entries children) polls)"
  have xs: "distinct (map fst ?xs)" "fst ` set ?xs \<subseteq> fst ` set (RBT.entries children)"
    using exited_entries [OF RBT.distinct_entries] by blast+
  have found: "\<forall>x \<in> set ?xs. RBT.lookup children (fst x) \<noteq> None"
  proof
    fix x assume "x \<in> set ?xs"
    with xs(2) have "fst x \<in> fst ` set (RBT.entries children)" by blast
    then show "RBT.lookup children (fst x) \<noteq> None" by (metis dom_map_of_conv_image_fst domIff map_of_entries)
  qed
  obtain children'' completed where f: "fold (reap_one os) ?xs (children, []) = (children'', completed)"
    "RBT.lookup children'' = RBT.lookup children |` (- (fst ` set ?xs))" "map rp_session_id completed = map fst ?xs"
    using reap_one_entries [OF xs(1) found, of os "[]"] by auto
  have ids: "rp_session_id ` set completed = fst ` set ?xs" using f(3) by (metis list.set_map)
  have "children' = children''" "res = Inr completed" using assms f(1) by (simp_all add: reap_def Inr Let_def)
  moreover have "\<forall>p \<in> set completed. RBT.lookup children (rp_session_id p) \<noteq> None"
  proof
    fix p assume "p \<in> set completed"
    then have "rp_session_id p \<in> fst ` set ?xs" unfolding ids [symmetric] by (rule imageI)
    then obtain x where "x \<in> set ?xs" "rp_session_id p = fst x" by (elim imageE)
    then show "RBT.lookup children (rp_session_id p) \<noteq> None" using found by simp
  qed
  moreover have "distinct (map rp_session_id completed)" by (simp only: f(3) xs(1))
  moreover have "RBT.lookup children'' = RBT.lookup children |` (- (rp_session_id ` set completed))"
    by (simp only: f(2) ids)
  ultimately show thesis by (intro that(2)) simp_all
qed


lemma record_exits_ok:
  assumes "distinct (map rp_session_id ps)"
    and "\<forall>p \<in> set ps. \<exists>s. manager_session (sv_manager sv) (rp_session_id p) = Some s
      \<and> (rs_state s = StRunning \<or> rs_state s = StStopping)"
  shows "\<exists>sv'. record_exits ps sv = (sv', Inr ()) \<and> sv_processes sv' = sv_processes sv
    \<and> (\<forall>j. if j \<in> rp_session_id ` set ps then tracked (manager_session (sv_manager sv') j) None
          else manager_session (sv_manager sv') j = manager_session (sv_manager sv) j)"
  using assms
proof (induction ps arbitrary: sv)
  case (Cons p ps)
  let ?i = "rp_session_id p" and ?to = "if rp_success p then StStopped else StFailed"
  from Cons.prems obtain s where s: "manager_session (sv_manager sv) ?i = Some s"
    "rs_state s = StRunning \<or> rs_state s = StStopping" by auto
  let ?s = "s\<lparr>rs_state := ?to, rs_process_id := None, rs_detail := Some (bounded_detail (rp_detail p))\<rparr>"
  let ?sv = "sv\<lparr>sv_manager := RBT.insert ?i ?s (sv_manager sv)\<rparr>"
  have step: "record_exit p sv = (?sv, Inr ())"
    using s by (auto simp: record_exit_def mark_exited_def with_session_def Let_def)
  have "\<forall>q \<in> set ps. \<exists>s. manager_session (sv_manager ?sv) (rp_session_id q) = Some s
      \<and> (rs_state s = StRunning \<or> rs_state s = StStopping)"
    using Cons.prems by (auto simp: image_iff)
  moreover have "distinct (map rp_session_id ps)" using Cons.prems(1) by simp
  ultimately obtain sv' where rest: "record_exits ps ?sv = (sv', Inr ())" "sv_processes sv' = sv_processes ?sv"
    "\<forall>j. if j \<in> rp_session_id ` set ps then tracked (manager_session (sv_manager sv') j) None
        else manager_session (sv_manager sv') j = manager_session (sv_manager ?sv) j"
    using Cons.IH [of ?sv] by blast
  have "?i \<notin> rp_session_id ` set ps" using Cons.prems(1) by auto
  with rest(3) have "tracked (manager_session (sv_manager sv') ?i) None" by simp
  moreover have "tracked (manager_session (sv_manager sv') j) None" if "j \<in> rp_session_id ` set ps" for j
    using rest(3) that by presburger
  moreover have "manager_session (sv_manager sv') j = manager_session (sv_manager sv) j"
    if "j \<notin> rp_session_id ` set (p # ps)" for j
    using rest(3) that by (auto simp: image_iff)
  ultimately have "\<forall>j. if j \<in> rp_session_id ` set (p # ps) then tracked (manager_session (sv_manager sv') j) None
      else manager_session (sv_manager sv') j = manager_session (sv_manager sv) j"
    by auto
  with rest(1,2) step show ?case by (intro exI [of _ sv']) simp
qed simp

text \<open>Only a failed poll can stop the reaping; the bookkeeping never refuses an exit.\<close>

lemma reap_keeps:
  assumes inv: "server_inv sv"
  shows "case reap_managed_processes os sv of
      (sv', Inr _) \<Rightarrow> server_inv sv' | (sv', Inl err) \<Rightarrow> server_inv sv' \<and> (\<exists>e. err = IpcReap e)"
proof -
  obtain children res where r: "reap os (sv_processes sv) = (children, res)" by fastforce
  from r show ?thesis
  proof (cases rule: reap_cases)
    case (failed err)
    with r inv show ?thesis by (simp add: reap_managed_processes_def)
  next
    case (reaped completed)
    let ?ids = "rp_session_id ` set completed" and ?sv = "sv\<lparr>sv_processes := children\<rparr>"
    have "\<forall>p \<in> set completed. \<exists>s. manager_session (sv_manager ?sv) (rp_session_id p) = Some s
        \<and> (rs_state s = StRunning \<or> rs_state s = StStopping)"
    proof
      fix p assume "p \<in> set completed"
      with reaped(4) obtain c where "RBT.lookup (sv_processes sv) (rp_session_id p) = Some c" by auto
      with tracked_at [OF inv, of "rp_session_id p"] show "\<exists>s. manager_session (sv_manager ?sv) (rp_session_id p) = Some s
          \<and> (rs_state s = StRunning \<or> rs_state s = StStopping)"
        by (cases "manager_session (sv_manager sv) (rp_session_id p)") auto
    qed
    then obtain sv' where e: "record_exits completed ?sv = (sv', Inr ())" "sv_processes sv' = children"
      "\<forall>j. if j \<in> ?ids then tracked (manager_session (sv_manager sv') j) None
          else manager_session (sv_manager sv') j = manager_session (sv_manager sv) j"
      using record_exits_ok [OF reaped(2), of ?sv] by auto
    have "tracked (manager_session (sv_manager sv') j) (RBT.lookup (sv_processes sv') j)" for j
      using e(3) tracked_at [OF inv, of j] by (cases "j \<in> ?ids") (auto simp: e(2) reaped(3) restrict_map_def)
    moreover have "j = k" if "RBT.lookup (sv_processes sv') j \<noteq> None" "RBT.lookup (sv_processes sv') k \<noteq> None" for j k
      using that inv by (auto simp: e(2) reaped(3) restrict_map_def server_inv_def split: if_splits)
    ultimately have "server_inv sv'" by (simp add: server_inv_def)
    with r reaped e(1) show ?thesis by (simp add: reap_managed_processes_def)
  qed
qed

section \<open>The server loop\<close>

lemma read_and_dispatch_keeps: "server_inv sv \<Longrightarrow> server_inv (fst (read_and_dispatch parse os conn pid sv))"
  using dispatch_keeps [of sv os pid]
  by (auto simp: read_and_dispatch_def keeps_def split: option.splits sum.splits prod.splits) (metis fst_conv)+

definition honest_error :: "ipc_error \<Rightarrow> bool" where
  "honest_error err = (case err of IpcState _ \<Rightarrow> False | _ \<Rightarrow> True)"

lemma serve_once_keeps:
  assumes inv: "server_inv sv"
  shows "case serve_once parse env sv of
      (sv', Inr _) \<Rightarrow> server_inv sv' | (sv', Inl err) \<Rightarrow> server_inv sv' \<and> honest_error err"
proof -
  obtain sv1 res where r: "reap_managed_processes (se_os env) sv = (sv1, res)" by fastforce
  with reap_keeps [OF inv, of "se_os env"] have inv1: "server_inv sv1" by (cases res) auto
  show ?thesis
  proof (cases res)
    case (Inl err)
    with r reap_keeps [OF inv, of "se_os env"] show ?thesis by (auto simp: serve_once_def honest_error_def)
  next
    case (Inr u)
    show ?thesis
    proof (cases "se_accept env")
      case (AcceptFailed err)
      with r Inr inv1 show ?thesis by (simp add: serve_once_def honest_error_def)
    next
      case (Accepted conn)
      let ?answer = "case peer_credentials (co_peer conn) (sv_expected_uid sv1) of
          Inr pid \<Rightarrow> read_and_dispatch parse (se_os env) conn pid sv1
        | Inl err \<Rightarrow> (sv1, response_failure ''unauthorized'' (FailIpc err))"
      have "server_inv (fst ?answer)" using inv1 by (auto simp: read_and_dispatch_keeps split: sum.splits)
      then show ?thesis using r Inr Accepted
        by (auto simp: serve_once_def Let_def write_error_def honest_error_def split: prod.splits option.splits
            write_failure.splits)
    qed
  qed
qed

lemma serve_until_keeps:
  "server_inv sv \<Longrightarrow> case serve_until parse envs sv of
      (sv', Inr _) \<Rightarrow> server_inv sv' | (sv', Inl err) \<Rightarrow> server_inv sv' \<and> honest_error err"
proof (induction envs arbitrary: sv)
  case (Cons env envs)
  obtain sv' res where r: "serve_once parse env sv = (sv', res)" by fastforce
  note step = serve_once_keeps [OF Cons.prems, of parse env, unfolded r]
  from step have inv': "server_inv sv'" by (cases res) auto
  from Cons.IH [OF inv'] step r show ?case by (cases res) auto
qed simp

text \<open>C4. The daemon never loses track: from its start, whatever connects, whatever is asked and whatever the
  system answers, a session has a child exactly while it is running or stopping with that process, no
  session is left stopping without one, there is one child at most, and the exit of a child is never
  refused by the bookkeeping.\<close>

theorem daemon_in_step:
  "case serve_until parse envs (server_new uid) of
     (sv, Inr _) \<Rightarrow> server_inv sv
   | (sv, Inl err) \<Rightarrow> server_inv sv \<and> honest_error err"
  by (rule serve_until_keeps [OF server_inv_new])

text \<open>A response that cannot be written (the client has gone) is not a reason to go on: it ends the loop, and
  with it the daemon and its worker.\<close>

lemma write_failure_stops_daemon:
  assumes "reap_managed_processes (se_os env) sv = (sv1, Inr ())" and "se_accept env = Accepted conn"
    and "co_written conn = Some (WriteJson text)"
  shows "\<exists>sv'. serve_until parse (env # envs) sv = (sv', Inl (IpcProtocol text))"
  using assms by (auto simp: serve_once_def Let_def write_error_def split: prod.splits sum.splits)

section \<open>The life of a session\<close>

definition advances :: "daemon_server \<Rightarrow> (daemon_server, 'e, 'a) st \<Rightarrow> bool" where
  "advances sv result \<longleftrightarrow>
     (\<forall>i. lifecycle_step\<^sup>*\<^sup>* (state_of (sv_manager sv) i) (state_of (sv_manager (fst result)) i))"

lemma advances_same: "sv_manager (fst result) = sv_manager sv \<Longrightarrow> advances sv result"
  by (simp add: advances_def)

lemma advances_from: "advances sv (sv', x) \<Longrightarrow> advances sv' result \<Longrightarrow> advances sv result"
  by (auto simp: advances_def intro: rtranclp_trans)

lemma advances_andThen:
  assumes "advances sv result" and "\<And>sv' a. advances sv' (f sv' a)" shows "advances sv (andThen result f)"
proof -
  obtain sv' res where r: "result = (sv', res)" by fastforce
  show ?thesis
  proof (cases res)
    case (Inl err)
    with assms(1) r show ?thesis by (simp add: advances_def)
  next
    case (Inr a)
    with assms r show ?thesis by (simp add: advances_from [OF assms(1) [unfolded r]])
  qed
qed

lemma moves_advances:
  assumes "moves i (sv_manager sv) result" and "sv_manager sv' = sv_manager sv"
  shows "advances sv (on_manager result sv')"
proof -
  obtain m res where r: "result = (m, res)" by fastforce
  have "lifecycle_step\<^sup>*\<^sup>* (state_of (sv_manager sv) j) (state_of m j)" for j
  proof (cases res)
    case (Inl err)
    with assms r show ?thesis by (simp add: moves_def)
  next
    case (Inr a)
    with assms r show ?thesis by (cases "j = i") (auto simp: moves_def state_of_def)
  qed
  with r show ?thesis by (cases res) (simp_all add: advances_def on_manager_def)
qed

lemma advances_with_id: "(\<And>i. advances sv (f i)) \<Longrightarrow> advances sv (with_id v f sv)"
  by (simp add: with_id_def advances_same split: sum.splits)

lemma advances_answer: "advances sv (answer_session i missing wrap sv)"
  by (simp add: advances_same)

lemmas request_advances = moves_advances [OF manager_moves(1)] moves_advances [OF manager_moves(3)]
  moves_advances [OF manager_moves(4)] moves_advances [OF manager_moves(6)] moves_advances [OF manager_moves(7)]
  moves_advances [OF manager_moves(8)]

lemma dispatch_advances: "advances sv (dispatch os pid q sv)"
proof (cases q)
  case (ReqPrepare v p w h b)
  show ?thesis unfolding ReqPrepare dispatch_def daemon_request.case dispatch_prepare_def
    by (rule advances_with_id) (simp add: advances_andThen request_advances advances_answer, simp add: advances_same)
next
  case (ReqLaunch l)
  have launched: "advances sv1 (case launch os (sv_processes sv1) i l pid (sv_expected_uid sv1) of
      (children, Inl err) \<Rightarrow>
        andThen (on_manager (mark_failed (sv_manager sv1) i (process_error_text err)) (sv1\<lparr>sv_processes := children\<rparr>))
          (\<lambda>sv2 _. (sv2, Inl (DeText (process_error_text err))))
    | (children, Inr p) \<Rightarrow>
        andThen (on_manager (mark_running (sv_manager sv1) i p) (sv1\<lparr>sv_processes := children\<rparr>))
          (\<lambda>sv2 _. answer_session i ''launched session disappeared'' ResSession sv2))" for i sv1
    by (auto intro!: advances_andThen request_advances advances_answer simp: advances_same split: prod.split sum.split)
  show ?thesis unfolding ReqLaunch dispatch_def daemon_request.case dispatch_launch_def
    by (rule advances_with_id) (simp add: advances_andThen request_advances launched, simp add: advances_same)
next
  case (ReqStart v)
  show ?thesis unfolding ReqStart dispatch_def daemon_request.case dispatch_start_def
    by (rule advances_with_id) (simp add: advances_andThen request_advances advances_answer)
next
  case (ReqState v)
  show ?thesis unfolding ReqState dispatch_def daemon_request.case dispatch_state_def
    by (rule advances_with_id) (simp add: advances_same split: sum.split)
next
  case (ReqStop v reason)
  show ?thesis unfolding ReqStop dispatch_def daemon_request.case dispatch_stop_def
    by (rule advances_with_id)
      (auto intro!: advances_andThen request_advances advances_answer simp: advances_same
        split: prod.split sum.split bool.split)
qed (simp_all add: dispatch_def advances_same)

lemma record_exits_advances: "advances sv (record_exits ps sv)"
proof (induction ps arbitrary: sv)
  case (Cons p ps)
  have "advances sv (record_exit p sv)"
    using moves_advances [OF manager_moves(5) [of "rp_session_id p" "sv_manager sv" "rp_success p" "rp_detail p"] refl]
    by (auto simp: record_exit_def advances_def on_manager_def split: prod.splits sum.splits)
  then show ?case by (simp add: advances_andThen Cons.IH)
qed (simp add: advances_same)

lemma serve_once_advances: "advances sv (serve_once parse env sv)"
proof -
  have reap: "advances sv (reap_managed_processes os sv)" for os
  proof -
    obtain children res where r: "reap os (sv_processes sv) = (children, res)" by fastforce
    have "advances sv (sv\<lparr>sv_processes := children\<rparr>, Inr ())" by (simp add: advances_same)
    from advances_from [OF this record_exits_advances] r show ?thesis
      by (cases res) (simp_all add: reap_managed_processes_def advances_same)
  qed
  have answered: "advances sv1 (fst (read_and_dispatch parse os conn pid sv1), x)" for sv1 os conn pid x
    using dispatch_advances [of sv1 os pid]
    by (auto simp: read_and_dispatch_def advances_def split: option.splits sum.splits prod.splits) (metis fst_conv)+
  show ?thesis unfolding serve_once_def
  proof (rule advances_andThen [OF reap])
    fix sv1 :: daemon_server and u
    show "advances sv1 (case se_accept env of
         AcceptFailed err \<Rightarrow> (sv1, Inl (IpcIo err))
       | Accepted conn \<Rightarrow>
           let (sv2, response) =
                 (case peer_credentials (co_peer conn) (sv_expected_uid sv1) of
                    Inr pid \<Rightarrow> read_and_dispatch parse (se_os env) conn pid sv1
                  | Inl err \<Rightarrow> (sv1, response_failure ''unauthorized'' (FailIpc err)))
           in case co_written conn of None \<Rightarrow> (sv2, Inr response) | Some err \<Rightarrow> (sv2, Inl (write_error err)))"
    proof (cases "se_accept env")
      case (Accepted conn)
      show ?thesis
      proof (cases "peer_credentials (co_peer conn) (sv_expected_uid sv1)")
        case (Inr pid)
        with Accepted answered [of sv1 "se_os env" conn pid] show ?thesis
          by (auto simp: Let_def advances_def split: prod.split option.split)
      qed (auto simp: Accepted Let_def advances_same split: option.split)
    qed (simp add: advances_same)
  qed
qed

lemma serve_until_advances: "advances sv (serve_until parse envs sv)"
proof (induction envs arbitrary: sv)
  case (Cons env envs)
  obtain sv' res where r: "serve_once parse env sv = (sv', res)" by fastforce
  note step = serve_once_advances [of sv parse env, unfolded r]
  from advances_from [OF step Cons.IH] step r show ?case by (cases res) (auto simp: advances_def)
qed (simp add: advances_same)

text \<open>C15. Every session lives one life: prepared, then started, refused or abandoned, then stopping, then
  stopped or failed. It is never forgotten, and once stopped it stays stopped: its identifier is not
  used again.\<close>

theorem session_lives_once:
  "lifecycle_step\<^sup>*\<^sup>* (state_of (sv_manager sv) i) (state_of (sv_manager (fst (serve_until parse envs sv))) i)"
  using serve_until_advances [of sv parse envs] by (simp add: advances_def)

lemma stopped_is_final: "lifecycle_step\<^sup>*\<^sup>* (Some StStopped) st \<Longrightarrow> st = Some StStopped"
  by (induction rule: rtranclp_induct) (auto elim: lifecycle_stopped)

section \<open>Framing\<close>

lemma takeWhile_newline:
  "takeWhile (\<lambda>c. c \<noteq> newline) xs = ys \<and> length ys < length xs \<longleftrightarrow>
     (\<exists>rest. xs = ys @ newline # rest) \<and> newline \<notin> set ys"
proof (induction xs arbitrary: ys)
  case (Cons x xs)
  show ?case using Cons.IH [of "tl ys"] by (cases ys) auto
qed simp

lemma read_until_found:
  "length (takeWhile (\<lambda>c. c \<noteq> newline) (take n (bs_bytes s))) < length (take n (bs_bytes s)) \<Longrightarrow>
     read_until_newline n s = Inr (takeWhile (\<lambda>c. c \<noteq> newline) (take n (bs_bytes s)) @ [newline])"
  by (simp only: read_until_newline_def Let_def if_True)

lemma read_until_missing:
  assumes "\<not> length (takeWhile (\<lambda>c. c \<noteq> newline) (take n (bs_bytes s))) < length (take n (bs_bytes s))"
    and "read_until_newline n s = Inr bytes"
  shows "newline \<notin> set bytes"
proof -
  let ?w = "take n (bs_bytes s)"
  have "length (takeWhile (\<lambda>c. c \<noteq> newline) ?w) = length ?w"
    using assms(1) length_takeWhile_le [of "\<lambda>c. c \<noteq> newline" ?w] by linarith
  then have "takeWhile (\<lambda>c. c \<noteq> newline) ?w = ?w" by (metis takeWhile_eq_take take_all_iff order_refl)
  then have "newline \<notin> set ?w" by (metis set_takeWhileD)
  moreover have "bytes = ?w"
    using assms unfolding read_until_newline_def Let_def by (simp only: if_False split: if_splits option.splits) simp_all
  ultimately show ?thesis by simp
qed

text \<open>A message is read exactly when it is there: the reader returns a payload if and only if the bytes
  that arrive begin with it and a newline, it holds no newline itself, and with the newline it is no longer
  than the limit.\<close>

theorem message_framing:
  "read_bounded_message s = Inr payload \<longleftrightarrow>
     (\<exists>rest. bs_bytes s = framed (\<lambda>x. x) payload @ rest) \<and> newline \<notin> set payload
     \<and> length payload < MAX_MESSAGE_BYTES"
proof -
  let ?n = "MAX_MESSAGE_BYTES + 1" and ?bs = "bs_bytes s"
  let ?w = "take ?n ?bs" and ?l = "takeWhile (\<lambda>c. c \<noteq> newline) (take ?n ?bs)"
  have "read_bounded_message s = Inr payload \<longleftrightarrow> (?l = payload \<and> length payload < length ?w) \<and> length payload < MAX_MESSAGE_BYTES"
  proof (cases "length ?l < length ?w")
    case True
    then have "read_bounded_message s =
        (if length ?l < MAX_MESSAGE_BYTES then Inr ?l else Inl ''IPC message exceeds the 1 MiB limit'')"
      by (simp only: read_bounded_message_def read_until_found [OF True]) simp
    with True show ?thesis by auto
  next
    case False
    then have "read_bounded_message s \<noteq> Inr payload"
      using read_until_missing [OF False] by (auto simp: read_bounded_message_def suffix_def split: sum.splits if_splits)
    with False show ?thesis by auto
  qed
  also have "\<dots> \<longleftrightarrow> ((\<exists>rest. ?w = payload @ newline # rest) \<and> newline \<notin> set payload) \<and> length payload < MAX_MESSAGE_BYTES"
    by (simp only: takeWhile_newline)
  also have "\<dots> \<longleftrightarrow> ((\<exists>rest. ?bs = payload @ newline # rest) \<and> newline \<notin> set payload) \<and> length payload < MAX_MESSAGE_BYTES"
  proof -
    have "(\<exists>rest. ?w = payload @ newline # rest) \<longleftrightarrow> (\<exists>rest. ?bs = payload @ newline # rest)"
      if "length payload < MAX_MESSAGE_BYTES"
    proof
      assume "\<exists>rest. ?w = payload @ newline # rest"
      then obtain rest where "?w = payload @ newline # rest" by blast
      then have "?bs = payload @ newline # rest @ drop ?n ?bs" by (metis append.assoc append_Cons append_take_drop_id)
      then show "\<exists>rest. ?bs = payload @ newline # rest" by blast
    next
      assume "\<exists>rest. ?bs = payload @ newline # rest"
      with that show "\<exists>rest. ?w = payload @ newline # rest" by (auto simp: take_Cons')
    qed
    then show ?thesis by blast
  qed
  finally show ?thesis by (simp add: framed_def)
qed

end
