(* ===== verification/BridgeConfig.thy ===== *)
theory BridgeConfig
  imports Paths Uinput
begin

text \<open>
  The Waydroid side of the input bridge, \<^verbatim>\<open>wroid-inject/src/waydroid_bridge.rs\<close>: which event node may be
  bridged, the LXC configuration it is written to, and the lease. The disk is a map from paths to contents and
  modes, and any call on it may fail: \<open>dk_faults\<close> is what the next calls answer, in order, then none fails.
\<close>

section \<open>The disk\<close>

datatype io_kind =
    NotFound | PermissionDenied | AlreadyExists | InvalidInput | InvalidData | WouldBlockKind | BrokenPipe
  | UnexpectedEof | ConnectionReset | TimedOut | OtherKind

datatype os_error = OsError (err_kind: io_kind) (err_text: string)

record disk =
  dk_files :: "string \<rightharpoonup> string \<times> u32" \<comment> \<open>contents and mode\<close>
  dk_faults :: "os_error option list"

type_synonym 'a disk_st = "(disk, os_error, 'a) st"

definition disk_call :: "(disk \<Rightarrow> 'a disk_st) \<Rightarrow> disk \<Rightarrow> 'a disk_st" where
  "disk_call f dk =
     (case dk_faults dk of
        [] \<Rightarrow> f dk
      | None # rest \<Rightarrow> f (dk\<lparr>dk_faults := rest\<rparr>)
      | Some err # rest \<Rightarrow> (dk\<lparr>dk_faults := rest\<rparr>, Inl err))"

definition file_at :: "string \<Rightarrow> disk \<Rightarrow> os_error + string \<times> u32" where
  "file_at p dk = (case dk_files dk p of None \<Rightarrow> Inl (OsError NotFound ''No such file or directory'') | Some f \<Rightarrow> Inr f)"

definition disk_read :: "string \<Rightarrow> disk \<Rightarrow> string disk_st" where
  "disk_read p = disk_call (\<lambda>dk. (dk, map_sum id fst (file_at p dk)))"

definition disk_mode :: "string \<Rightarrow> disk \<Rightarrow> u32 disk_st" where
  "disk_mode p = disk_call (\<lambda>dk. (dk, map_sum id (\<lambda>f. and (snd f) 511) (file_at p dk)))"

text \<open>A new file gets the mode the umask leaves, \<^verbatim>\<open>0o644\<close> (420).\<close>

definition disk_write :: "string \<Rightarrow> string \<Rightarrow> disk \<Rightarrow> unit disk_st" where
  "disk_write p contents =
     disk_call (\<lambda>dk. (dk\<lparr>dk_files := (dk_files dk)(p \<mapsto>
       (contents, case dk_files dk p of None \<Rightarrow> 420 | Some (_, mode) \<Rightarrow> mode))\<rparr>, Inr ()))"

definition disk_set_mode :: "string \<Rightarrow> u32 \<Rightarrow> disk \<Rightarrow> unit disk_st" where
  "disk_set_mode p mode =
     disk_call (\<lambda>dk. case file_at p dk of
       Inl err \<Rightarrow> (dk, Inl err)
     | Inr (contents, _) \<Rightarrow> (dk\<lparr>dk_files := (dk_files dk)(p \<mapsto> (contents, mode))\<rparr>, Inr ()))"

definition disk_rename :: "string \<Rightarrow> string \<Rightarrow> disk \<Rightarrow> unit disk_st" where
  "disk_rename p q =
     disk_call (\<lambda>dk. case file_at p dk of
       Inl err \<Rightarrow> (dk, Inl err)
     | Inr f \<Rightarrow> (dk\<lparr>dk_files := (dk_files dk)(p := None, q \<mapsto> f)\<rparr>, Inr ()))"

definition disk_remove :: "string \<Rightarrow> disk \<Rightarrow> unit disk_st" where
  "disk_remove p =
     disk_call (\<lambda>dk. case file_at p dk of
       Inl err \<Rightarrow> (dk, Inl err)
     | Inr f \<Rightarrow> (dk\<lparr>dk_files := (dk_files dk)(p := None)\<rparr>, Inr ()))"

definition disk_create_dirs :: "path_component list \<Rightarrow> disk \<Rightarrow> unit disk_st" where
  "disk_create_dirs dir = disk_call (\<lambda>dk. (dk, Inr ()))"

section \<open>Event nodes\<close>

datatype cgroup_mode = CgroupV1 | CgroupV2

text \<open>\<open>unified\<close>: whether \<^verbatim>\<open>/sys/fs/cgroup/cgroup.controllers\<close> is a file.\<close>

definition cgroup_detect :: "bool \<Rightarrow> cgroup_mode" where
  "cgroup_detect unified = (if unified then CgroupV2 else CgroupV1)"

definition cgroup_label :: "cgroup_mode \<Rightarrow> string" where
  "cgroup_label m = (case m of CgroupV1 \<Rightarrow> ''v1'' | CgroupV2 \<Rightarrow> ''v2'')"

record input_device_node =
  nd_path :: string
  nd_major :: u64
  nd_minor :: u64

definition linux_major :: "u64 \<Rightarrow> u64" where
  "linux_major device = or (and (drop_bit 8 device) 0xfff) (and (drop_bit 32 device) 0xfffff000)"

definition linux_minor :: "u64 \<Rightarrow> u64" where
  "linux_minor device = or (and device 0xff) (and (drop_bit 12 device) 0xffffff00)"

text \<open>\<open>stat\<close> is what \<^verbatim>\<open>fs::metadata\<close> answers: whether the file is a character device, and its device number.\<close>

definition node_from_path :: "(string \<Rightarrow> os_error + bool \<times> u64) \<Rightarrow> string \<Rightarrow> os_error + input_device_node" where
  "node_from_path stat path =
     (if \<not> is_absolute path \<or> path_parent path \<noteq> Some (path_components ''/dev/input'')
      then Inl (OsError InvalidInput (''input device must be an absolute /dev/input/event* path; got '' @ path))
      else
        let file_name = (case path_file_name path of None \<Rightarrow> [] | Some n \<Rightarrow> n)
        in if \<not> prefix ''event'' file_name
           then Inl (OsError InvalidInput (''input device must be an event node; got '' @ path))
           else (case stat path of
                   Inl err \<Rightarrow> Inl err
                 | Inr (char_device, device) \<Rightarrow>
                     if \<not> char_device
                     then Inl (OsError InvalidInput (''input device is not a character device: '' @ path))
                     else Inr \<lparr>nd_path = path, nd_major = linux_major device, nd_minor = linux_minor device\<rparr>))"

definition BUS_VIRTUAL :: u16 where "BUS_VIRTUAL = 6"
definition WROID_TOUCHSCREEN_VENDOR :: u16 where "WROID_TOUCHSCREEN_VENDOR = 0x5752"
definition WROID_TOUCHSCREEN_PRODUCT :: u16 where "WROID_TOUCHSCREEN_PRODUCT = 0x0001"

definition validate_touchscreen_identity ::
  "string option \<Rightarrow> u16 \<Rightarrow> u16 \<Rightarrow> u16 \<Rightarrow> string \<Rightarrow> os_error + unit" where
  "validate_touchscreen_identity name bus vendor product sysfs_path =
     (if name \<noteq> Some WROID_TOUCHSCREEN_NAME \<or> bus \<noteq> BUS_VIRTUAL \<or> vendor \<noteq> WROID_TOUCHSCREEN_VENDOR
         \<or> product \<noteq> WROID_TOUCHSCREEN_PRODUCT \<or> \<not> path_starts_with sysfs_path ''/sys/devices/virtual/input''
      then Inl (OsError PermissionDenied
                  ''refusing to bridge an input node that is not the Wroid virtual touchscreen'')
      else Inr ())"

section \<open>The configuration text\<close>

definition MANAGED_HEADER :: string where "MANAGED_HEADER = ''# Managed by Wroid Gaming Hub input bridge''"

definition render_bridge_config :: "input_device_node \<Rightarrow> cgroup_mode \<Rightarrow> os_error + string" where
  "render_bridge_config node mode =
     (let source = nd_path node; destination = dropWhile (\<lambda>c. c = CHR ''/'') source
      in if LF \<in> set source \<or> CR \<in> set source
         then Inl (OsError InvalidInput ''input device path contains a line break'')
         else Inr (MANAGED_HEADER @ [LF] @ ''# Host cgroup mode: '' @ cgroup_label mode
                   @ ''; Waydroid device policy is intentionally unchanged'' @ [LF]
                   @ ''lxc.mount.entry = '' @ source @ '' '' @ destination @ '' none bind,create=file 0 0'' @ [LF]))"

definition include_line :: "string \<Rightarrow> string" where
  "include_line managed_config = ''lxc.include = '' @ managed_config"

definition add_include :: "string \<Rightarrow> string \<Rightarrow> string" where
  "add_include config include =
     (if list_ex (\<lambda>l. trim l = include) (str_lines config) then config
      else trim_end_char LF config @ [LF] @ include @ [LF])"

definition remove_include :: "string \<Rightarrow> string \<Rightarrow> string" where
  "remove_include config include =
     (let updated = join_lines (filter (\<lambda>l. trim l \<noteq> include) (str_lines config))
      in if config \<noteq> [] \<and> last config = LF \<or> updated \<noteq> [] then updated @ [LF] else updated)"

section \<open>Writing the configuration\<close>

record bridge_paths =
  main_config :: string
  managed_config :: string

definition default_bridge_paths :: bridge_paths where
  "default_bridge_paths =
     \<lparr>main_config = ''/var/lib/waydroid/lxc/waydroid/config'',
      managed_config = ''/var/lib/waydroid/lxc/waydroid/config_wroid_input''\<rparr>"

text \<open>\<open>pid\<close> is the decimal text of the process identifier.\<close>

definition atomic_temporary_path :: "string \<Rightarrow> string \<Rightarrow> path_component list \<Rightarrow> string" where
  "atomic_temporary_path pid path parent =
     path_text (parent @ [NormalName (''.'' @ (case path_file_name path of None \<Rightarrow> ''config'' | Some n \<Rightarrow> n)
                                      @ ''.wroid-'' @ pid @ ''-tmp'')])"

definition atomic_write :: "string \<Rightarrow> string \<Rightarrow> string \<Rightarrow> u32 \<Rightarrow> disk \<Rightarrow> unit disk_st" where
  "atomic_write pid path contents mode dk =
     (case path_parent path of
        None \<Rightarrow> (dk, Inl (OsError InvalidInput (''path has no parent directory: '' @ path)))
      | Some parent \<Rightarrow>
          andThen (disk_create_dirs parent dk) (\<lambda>dk1 _.
            let temporary = atomic_temporary_path pid path parent
            in case andThen (disk_write temporary contents dk1) (\<lambda>dk2 _.
                      andThen (disk_set_mode temporary mode dk2) (\<lambda>dk3 _. disk_rename temporary path dk3)) of
                 (dk', Inr _) \<Rightarrow> (dk', Inr ())
               | (dk', Inl err) \<Rightarrow> (fst (disk_remove temporary dk'), Inl err)))"

definition remove_file_if_exists :: "string \<Rightarrow> disk \<Rightarrow> unit disk_st" where
  "remove_file_if_exists path dk =
     (case disk_remove path dk of
        (dk', Inr _) \<Rightarrow> (dk', Inr ())
      | (dk', Inl err) \<Rightarrow> (dk', if err_kind err = NotFound then Inr () else Inl err))"

definition restore_managed_file ::
  "string \<Rightarrow> string \<Rightarrow> string option \<Rightarrow> u32 option \<Rightarrow> disk \<Rightarrow> unit disk_st" where
  "restore_managed_file pid path original original_mode =
     (case original of
        Some contents \<Rightarrow> atomic_write pid path contents (case original_mode of None \<Rightarrow> 420 | Some m \<Rightarrow> m)
      | None \<Rightarrow> remove_file_if_exists path)"

definition combine_io_errors :: "string \<Rightarrow> os_error \<Rightarrow> os_error option \<Rightarrow> os_error" where
  "combine_io_errors context primary rollback =
     (case rollback of
        Some r \<Rightarrow> OsError OtherKind (context @ '': '' @ err_text primary @ ''; rollback also failed: '' @ err_text r)
      | None \<Rightarrow> OsError (err_kind primary) (context @ '': '' @ err_text primary))"

text \<open>Reading a file as text fails when it is not UTF-8.\<close>

definition disk_read_text :: "(string \<Rightarrow> bool) \<Rightarrow> string \<Rightarrow> disk \<Rightarrow> string disk_st" where
  "disk_read_text utf8 p dk =
     andThen (disk_read p dk) (\<lambda>dk1 contents.
       (dk1, if utf8 contents then Inr contents else Inl (OsError InvalidData ''stream did not contain valid UTF-8'')))"

definition remove_managed_include :: "(string \<Rightarrow> bool) \<Rightarrow> string \<Rightarrow> bridge_paths \<Rightarrow> disk \<Rightarrow> unit disk_st" where
  "remove_managed_include utf8 pid paths dk =
     andThen (disk_read_text utf8 (main_config paths) dk) (\<lambda>dk1 main.
       let updated = remove_include main (include_line (managed_config paths))
       in andThen (disk_mode (main_config paths) dk1) (\<lambda>dk2 mode.
            if updated \<noteq> main then atomic_write pid (main_config paths) updated mode dk2 else (dk2, Inr ())))"

definition remove_bridge :: "(string \<Rightarrow> bool) \<Rightarrow> string \<Rightarrow> bridge_paths \<Rightarrow> disk \<Rightarrow> unit disk_st" where
  "remove_bridge utf8 pid paths dk =
     andThen (remove_managed_include utf8 pid paths dk) (\<lambda>dk1 _. remove_file_if_exists (managed_config paths) dk1)"

section \<open>The installed bridge\<close>

record installed_bridge =
  ib_paths :: bridge_paths
  ib_original_managed :: "string option"
  ib_original_mode :: "u32 option"
  ib_include_added :: bool
  ib_active :: bool

definition read_optional :: "string \<Rightarrow> disk \<Rightarrow> string option disk_st" where
  "read_optional p dk =
     (case disk_read p dk of
        (dk', Inr contents) \<Rightarrow> (dk', Inr (Some contents))
      | (dk', Inl err) \<Rightarrow> (dk', if err_kind err = NotFound then Inr None else Inl err))"

definition mode_if_any :: "string \<Rightarrow> string option \<Rightarrow> disk \<Rightarrow> u32 option disk_st" where
  "mode_if_any p contents dk =
     (case contents of
        None \<Rightarrow> (dk, Inr None)
      | Some _ \<Rightarrow> andThen (disk_mode p dk) (\<lambda>dk' mode. (dk', Inr (Some mode))))"

text \<open>Everything is read and rendered before anything is written.\<close>

record install_inputs =
  in_main :: string
  in_original :: "string option"
  in_original_mode :: "u32 option"
  in_managed :: string
  in_main_mode :: u32

definition read_for_install ::
  "(string \<Rightarrow> bool) \<Rightarrow> bridge_paths \<Rightarrow> input_device_node \<Rightarrow> cgroup_mode \<Rightarrow> disk \<Rightarrow> install_inputs disk_st" where
  "read_for_install utf8 paths node cgroup dk =
     andThen (disk_read (main_config paths) dk) (\<lambda>dk1 main.
     andThen (read_optional (managed_config paths) dk1) (\<lambda>dk2 original.
     andThen (mode_if_any (managed_config paths) original dk2) (\<lambda>dk3 original_mode.
       if \<not> utf8 main then (dk3, Inl (OsError InvalidData ''Waydroid LXC config is not UTF-8''))
       else case render_bridge_config node cgroup of
              Inl err \<Rightarrow> (dk3, Inl err)
            | Inr managed \<Rightarrow>
                andThen (disk_mode (main_config paths) dk3) (\<lambda>dk4 main_mode.
                  (dk4, Inr \<lparr>in_main = main, in_original = original, in_original_mode = original_mode,
                             in_managed = managed, in_main_mode = main_mode\<rparr>)))))"

definition write_install :: "string \<Rightarrow> bridge_paths \<Rightarrow> install_inputs \<Rightarrow> disk \<Rightarrow> installed_bridge disk_st" where
  "write_install pid paths inp dk =
     (let updated = add_include (in_main inp) (include_line (managed_config paths));
          include_added = (updated \<noteq> in_main inp);
          bridge = \<lparr>ib_paths = paths, ib_original_managed = in_original inp, ib_original_mode = in_original_mode inp,
                    ib_include_added = include_added, ib_active = True\<rparr>
      in andThen (atomic_write pid (managed_config paths) (in_managed inp)
                    (case in_original_mode inp of None \<Rightarrow> 420 | Some m \<Rightarrow> m) dk) (\<lambda>dk1 _.
           if \<not> include_added then (dk1, Inr bridge)
           else case atomic_write pid (main_config paths) updated (in_main_mode inp) dk1 of
                  (dk2, Inr _) \<Rightarrow> (dk2, Inr bridge)
                | (dk2, Inl install_error) \<Rightarrow>
                    (case restore_managed_file pid (managed_config paths) (in_original inp) (in_original_mode inp) dk2 of
                       (dk3, rollback) \<Rightarrow>
                         (dk3, Inl (combine_io_errors ''failed to add the Wroid bridge include'' install_error
                           (case rollback of Inl err \<Rightarrow> Some err | Inr _ \<Rightarrow> None))))))"

definition install_bridge ::
  "(string \<Rightarrow> bool) \<Rightarrow> string \<Rightarrow> bridge_paths \<Rightarrow> input_device_node \<Rightarrow> cgroup_mode \<Rightarrow> disk \<Rightarrow> installed_bridge disk_st" where
  "install_bridge utf8 pid paths node cgroup dk =
     andThen (read_for_install utf8 paths node cgroup dk) (\<lambda>dk' inp. write_install pid paths inp dk')"

text \<open>What two cleanups that both run amount to.\<close>

definition both_results :: "(string \<Rightarrow> string \<Rightarrow> string) \<Rightarrow> os_error + unit \<Rightarrow> os_error + unit \<Rightarrow> os_error + unit" where
  "both_results text a b =
     (case (a, b) of
        (Inr _, Inr _) \<Rightarrow> Inr ()
      | (Inl e, Inr _) \<Rightarrow> Inl e
      | (Inr _, Inl e) \<Rightarrow> Inl e
      | (Inl e, Inl f) \<Rightarrow> Inl (OsError OtherKind (text (err_text e) (err_text f))))"

definition restore_bridge :: "(string \<Rightarrow> bool) \<Rightarrow> string \<Rightarrow> installed_bridge \<Rightarrow> disk \<Rightarrow> unit disk_st" where
  "restore_bridge utf8 pid ib dk =
     (case (if ib_include_added ib then remove_managed_include utf8 pid (ib_paths ib) dk else (dk, Inr ())) of
        (dk1, main_result) \<Rightarrow>
          (case restore_managed_file pid (managed_config (ib_paths ib)) (ib_original_managed ib) (ib_original_mode ib) dk1 of
             (dk2, managed_result) \<Rightarrow>
               (dk2, both_results (\<lambda>a b. ''failed to restore the Waydroid main config: '' @ a
                                    @ ''; managed config restore also failed: '' @ b) main_result managed_result)))"

text \<open>\<open>cleanup\<close> restores; when it fails the bridge is dropped while still active, and restored once more.\<close>

definition cleanup_bridge :: "(string \<Rightarrow> bool) \<Rightarrow> string \<Rightarrow> installed_bridge \<Rightarrow> disk \<Rightarrow> unit disk_st" where
  "cleanup_bridge utf8 pid ib dk =
     (case restore_bridge utf8 pid ib dk of
        (dk1, Inr _) \<Rightarrow> (dk1, Inr ())
      | (dk1, Inl err) \<Rightarrow> ((if ib_active ib then fst (restore_bridge utf8 pid ib dk1) else dk1), Inl err))"

section \<open>The lease\<close>

text \<open>The lock file: who holds the kernel's lock, and the text in it.\<close>

record lease_file =
  lf_holder :: "u32 option"
  lf_text :: string

definition bridge_owner_metadata :: "string \<Rightarrow> string" where
  "bridge_owner_metadata metadata =
     (let find = (\<lambda>key. case List.map_filter (\<lambda>l. strip_prefix key (trim l)) (str_lines metadata) of
                          [] \<Rightarrow> None | x # _ \<Rightarrow> Some x)
      in case (find ''pid='', find ''owner='') of
           (Some pid, Some owner) \<Rightarrow> ''PID '' @ pid @ '' '' @ [CHR 0xC2, CHR 0xB7] @ '' '' @ owner
         | (Some pid, None) \<Rightarrow> ''PID '' @ pid
         | (None, Some owner) \<Rightarrow> owner
         | (None, None) \<Rightarrow> ''owner details unavailable'')"

definition acquire_lease ::
  "string \<Rightarrow> (u32 \<Rightarrow> string) \<Rightarrow> u32 \<Rightarrow> string \<Rightarrow> lease_file \<Rightarrow> (lease_file, os_error, unit) st" where
  "acquire_lease resource decimal pid owner lf =
     (case lf_holder lf of
        Some _ \<Rightarrow>
          (lf, Inl (OsError WouldBlockKind (''another Wroid process already owns '' @ resource @ '' (''
                 @ bridge_owner_metadata (lf_text lf) @ '')'')))
      | None \<Rightarrow>
          let owner' = map (\<lambda>c. if c = LF \<or> c = CR then CHR '' '' else c) owner
          in (\<lparr>lf_holder = Some pid,
               lf_text = ''pid='' @ decimal pid @ [LF] @ ''owner='' @ owner' @ [LF]\<rparr>, Inr ()))"

definition release_lease :: "lease_file \<Rightarrow> lease_file" where
  "release_lease lf = lf\<lparr>lf_holder := None\<rparr>"

definition active_lease_owner :: "lease_file \<Rightarrow> string option" where
  "active_lease_owner lf = (case lf_holder lf of None \<Rightarrow> None | Some _ \<Rightarrow> Some (bridge_owner_metadata (lf_text lf)))"

end
