(* ===== verification/BridgeSafe.thy ===== *)
theory BridgeSafe
  imports BridgeConfig
begin

text \<open>
  What the bridge leaves behind: adding and removing the include line, and installing and cleaning up the
  bridge on a disk whose calls may fail.
\<close>

section \<open>The include line\<close>

lemma strip_line_Cons: "l \<noteq> [] \<Longrightarrow> CR \<notin> set (c # l) \<Longrightarrow> strip_line (c # l) = c # strip_line l"
  by (simp add: strip_line_no_CR)

lemma split_inclusive_Nil: "split_inclusive s = [] \<longleftrightarrow> s = []"
  by (cases s) (auto split: list.split)

lemma split_inclusive_hd: "split_inclusive s = l # ls \<Longrightarrow> l \<noteq> []"
  by (cases s) (auto split: list.splits if_splits)

lemma split_inclusive_set: "split_inclusive s = l # ls \<Longrightarrow> set l \<subseteq> set s"
  using split_inclusive_concat [of s] by auto

text \<open>A text that does not end with a line break has the lines it has with one.\<close>

lemma str_lines_unended: "t \<noteq> [] \<Longrightarrow> last t \<noteq> LF \<Longrightarrow> CR \<notin> set t \<Longrightarrow> str_lines (t @ [LF]) = str_lines t"
proof (induction t)
  case (Cons c t)
  show ?case
  proof (cases "t = []")
    case True
    with Cons.prems show ?thesis by (simp add: str_lines_def strip_line_no_CR)
  next
    case False
    with Cons.prems have IH: "str_lines (t @ [LF]) = str_lines t" by (intro Cons.IH) auto
    obtain l ls where l: "split_inclusive (t @ [LF]) = l # ls" using split_inclusive_ended(1) [of t] by (cases "split_inclusive (t @ [LF])") auto
    obtain m ms where m: "split_inclusive t = m # ms" using False split_inclusive_Nil [of t] by (cases "split_inclusive t") auto
    have cr: "CR \<notin> set (c # l)" "CR \<notin> set (c # m)"
      using split_inclusive_set [OF l] split_inclusive_set [OF m] Cons.prems(3) by (auto simp: LF_def CR_def)
    have "strip_line (c # l) = strip_line (c # m)" "map strip_line ls = map strip_line ms"
      using IH l m strip_line_Cons [OF split_inclusive_hd [OF l] cr(1)] strip_line_Cons [OF split_inclusive_hd [OF m] cr(2)]
      by (simp_all add: str_lines_def)
    with IH l m show ?thesis by (simp add: str_lines_def)
  qed
qed simp

lemma trim_end_char_split: "\<exists>k. c = trim_end_char x c @ replicate k x \<and> (trim_end_char x c = [] \<or> last (trim_end_char x c) \<noteq> x)"
proof (induction c rule: rev_induct)
  case (snoc y ys)
  then obtain k where k: "ys = trim_end_char x ys @ replicate k x" "trim_end_char x ys = [] \<or> last (trim_end_char x ys) \<noteq> x" by blast
  show ?case
  proof (cases "y = x")
    case True
    then have "trim_end_char x (ys @ [y]) = trim_end_char x ys" by (simp add: trim_end_char_def)
    moreover from True k(1) have "ys @ [y] = trim_end_char x ys @ replicate (Suc k) x"
      by (metis append.assoc replicate_append_same replicate_Suc)
    ultimately show ?thesis using k(2) by metis
  next
    case False
    then have "trim_end_char x (ys @ [y]) = ys @ [y]" by (simp add: trim_end_char_def)
    with False show ?thesis by (intro exI [of _ 0]) simp
  qed
qed (simp add: trim_end_char_def)

definition plain_line :: "string \<Rightarrow> bool" where
  "plain_line l \<longleftrightarrow> l \<noteq> [] \<and> trim l = l \<and> LF \<notin> set l \<and> CR \<notin> set l"

lemma trim_Nil [simp]: "trim [] = []" by code_simp

lemma remove_add_include:
  assumes line: "plain_line i" and cr: "CR \<notin> set c" and new: "\<not> list_ex (\<lambda>l. trim l = i) (str_lines c)"
  shows "remove_include (add_include c i) i = trim_end_char LF c @ [LF]"
proof -
  let ?t = "trim_end_char LF c"
  obtain k where k: "c = ?t @ replicate k LF" "?t = [] \<or> last ?t \<noteq> LF" using trim_end_char_split by blast
  have crt: "CR \<notin> set ?t" using cr by (metis UnCI k(1) set_append)
  have lines: "set (str_lines (?t @ [LF])) \<subseteq> insert [] (set (str_lines c))"
  proof (cases k)
    case 0
    show ?thesis
    proof (cases "?t = []")
      case True
      then show ?thesis by (simp add: str_lines_def strip_line_def Let_def)
    next
      case False
      with k(2) crt have "str_lines (?t @ [LF]) = str_lines ?t" by (intro str_lines_unended) auto
      with k(1) 0 show ?thesis by (metis append_Nil2 replicate_0 subset_insertI)
    qed
  next
    case (Suc j)
    with k(1) have "c = ?t @ LF # replicate j LF" by simp
    then have "str_lines c = str_lines (?t @ [LF]) @ str_lines (replicate j LF)" by (metis str_lines_append)
    then show ?thesis by auto
  qed
  have keep: "filter (\<lambda>l. trim l \<noteq> i) (str_lines (?t @ [LF])) = str_lines (?t @ [LF])"
    using lines new line by (auto simp: filter_id_conv list_ex_iff plain_line_def)
  have "add_include c i = (?t @ [LF]) @ i @ [LF]" using new by (simp add: add_include_def)
  moreover have "str_lines ((?t @ [LF]) @ i @ [LF]) = str_lines (?t @ [LF]) @ [i]"
    using str_lines_append [of ?t "i @ [LF]"] line by (simp add: str_lines_single plain_line_def)
  ultimately show ?thesis using keep line join_str_lines [OF crt]
    by (simp add: remove_include_def Let_def plain_line_def)
qed

lemma add_include_present: "list_ex (\<lambda>l. trim l = i) (str_lines c) \<Longrightarrow> add_include c i = c"
  by (simp add: add_include_def)

text \<open>Adding gives a configuration that includes the line, and adding again changes nothing.\<close>

lemma add_include_has:
  assumes "plain_line i" shows "list_ex (\<lambda>l. trim l = i) (str_lines (add_include c i))"
proof (cases "list_ex (\<lambda>l. trim l = i) (str_lines c)")
  case False
  have "str_lines (trim_end_char LF c @ LF # i @ [LF]) = str_lines (trim_end_char LF c @ [LF]) @ [i]"
    using str_lines_append [of "trim_end_char LF c" "i @ [LF]"] assms by (simp add: str_lines_single plain_line_def)
  with False assms show ?thesis by (simp add: add_include_def plain_line_def)
qed (simp add: add_include_def)

lemma add_include_idem: "plain_line i \<Longrightarrow> add_include (add_include c i) i = add_include c i"
  by (rule add_include_present [OF add_include_has])

section \<open>Writing a file\<close>

definition temporary_of :: "string \<Rightarrow> string \<Rightarrow> string" where
  "temporary_of pid p = atomic_temporary_path pid p (case path_parent p of None \<Rightarrow> [] | Some parent \<Rightarrow> parent)"

text \<open>A call fails and changes nothing, or runs; on a disk without faults it runs.\<close>

lemma disk_call_cases:
  assumes "disk_call f dk = (dk', res)"
  obtains (fault) err where "dk_files dk' = dk_files dk" "res = Inl err" "dk_faults dk \<noteq> []"
  | (ran) rest where "f (dk\<lparr>dk_faults := rest\<rparr>) = (dk', res)" "dk_faults dk = [] \<longrightarrow> rest = []"
proof (cases "dk_faults dk")
  case Nil
  then have "dk\<lparr>dk_faults := []\<rparr> = dk" by simp
  with assms Nil ran [of "[]"] show thesis by (simp add: disk_call_def)
next
  case (Cons f0 rest)
  with assms fault ran [of rest] show thesis by (cases f0) (auto simp: disk_call_def)
qed

lemma disk_write_cases:
  assumes "disk_write p contents dk = (dk', res)"
  shows "case res of
      Inr _ \<Rightarrow> (\<exists>mode. dk_files dk' = (dk_files dk)(p \<mapsto> (contents, mode))) | Inl _ \<Rightarrow> dk_files dk' = dk_files dk"
    "dk_faults dk = [] \<Longrightarrow> res = Inr () \<and> dk_faults dk' = []"
  using assms unfolding disk_write_def by (cases rule: disk_call_cases; fastforce)+

lemma disk_set_mode_cases:
  assumes "disk_set_mode p mode dk = (dk', res)" and "dk_files dk p = Some (contents, old)"
  shows "case res of Inr _ \<Rightarrow> dk_files dk' = (dk_files dk)(p \<mapsto> (contents, mode)) | Inl _ \<Rightarrow> dk_files dk' = dk_files dk"
    "dk_faults dk = [] \<Longrightarrow> res = Inr () \<and> dk_faults dk' = []"
  using assms unfolding disk_set_mode_def by (cases rule: disk_call_cases; fastforce simp: file_at_def)+

lemma disk_rename_cases:
  assumes "disk_rename p q dk = (dk', res)" and "dk_files dk p = Some f"
  shows "case res of Inr _ \<Rightarrow> dk_files dk' = (dk_files dk)(p := None, q \<mapsto> f) | Inl _ \<Rightarrow> dk_files dk' = dk_files dk"
    "dk_faults dk = [] \<Longrightarrow> res = Inr () \<and> dk_faults dk' = []"
  using assms unfolding disk_rename_def by (cases rule: disk_call_cases; fastforce simp: file_at_def)+

lemma disk_remove_cases:
  assumes "disk_remove p dk = (dk', res)"
  shows "\<And>q. q \<noteq> p \<Longrightarrow> dk_files dk' q = dk_files dk q"
    "case res of Inr _ \<Rightarrow> dk_files dk' p = None | Inl err \<Rightarrow> dk_files dk' = dk_files dk"
    "dk_faults dk = [] \<Longrightarrow> dk_faults dk' = []
       \<and> (case res of Inr _ \<Rightarrow> True | Inl err \<Rightarrow> err_kind err = NotFound \<and> dk_files dk p = None)"
  using assms unfolding disk_remove_def by (cases rule: disk_call_cases; auto simp: file_at_def split: option.splits)+

text \<open>The three calls that make a temporary file the file.\<close>

lemma atomic_steps:
  assumes steps: "andThen (disk_write t contents dk1) (\<lambda>dk2 _.
      andThen (disk_set_mode t mode dk2) (\<lambda>dk3 _. disk_rename t p dk3)) = (dk', res)"
    and tmp: "t \<noteq> p" and same: "dk_files dk1 = dk_files dk" and faults: "dk_faults dk = [] \<longrightarrow> dk_faults dk1 = []"
  shows "(\<forall>q. q \<noteq> p \<longrightarrow> q \<noteq> t \<longrightarrow> dk_files dk' q = dk_files dk q)
      \<and> (case res of Inr _ \<Rightarrow> dk_files dk' p = Some (contents, mode) | Inl _ \<Rightarrow> dk_files dk' p = dk_files dk p)
      \<and> (dk_faults dk = [] \<longrightarrow> res = Inr () \<and> dk_faults dk' = [])"
proof -
  obtain dk2 r2 where 2: "disk_write t contents dk1 = (dk2, r2)" by fastforce
  note w = disk_write_cases [OF 2]
  show ?thesis
  proof (cases r2)
    case (Inl err)
    with steps 2 w same faults show ?thesis by auto
  next
    case (Inr u)
    with w(1) obtain old where f2: "dk_files dk2 = (dk_files dk)(t \<mapsto> (contents, old))" by (auto simp: same)
    obtain dk3 r3 where 3: "disk_set_mode t mode dk2 = (dk3, r3)" by fastforce
    note m = disk_set_mode_cases [OF 3, of contents old]
    show ?thesis
    proof (cases r3)
      case (Inl err)
      with steps 2 3 \<open>r2 = Inr u\<close> w(2) m f2 tmp faults show ?thesis by auto
    next
      case (Inr v)
      with m f2 have f3: "dk_files dk3 = (dk_files dk)(t \<mapsto> (contents, mode))" by simp
      have last: "disk_rename t p dk3 = (dk', res)" using steps 2 3 Inr \<open>r2 = Inr u\<close> by simp
      note r = disk_rename_cases [OF last, of "(contents, mode)"]
      show ?thesis
        using r f3 tmp w(2) m(2) faults f2 Inr \<open>r2 = Inr u\<close> by (cases res) auto
    qed
  qed
qed

text \<open>A file is replaced as a whole or not at all, whatever fails; nothing but the temporary file is touched besides.\<close>

lemma atomic_write_spec:
  assumes w: "atomic_write pid p contents mode dk = (dk', res)" and tmp: "temporary_of pid p \<noteq> p"
  shows "\<And>q. q \<noteq> p \<Longrightarrow> q \<noteq> temporary_of pid p \<Longrightarrow> dk_files dk' q = dk_files dk q"
    "case res of Inr _ \<Rightarrow> dk_files dk' p = Some (contents, mode) | Inl _ \<Rightarrow> dk_files dk' p = dk_files dk p"
    "dk_faults dk = [] \<Longrightarrow> path_parent p \<noteq> None \<Longrightarrow> res = Inr () \<and> dk_faults dk' = []"
proof -
  let ?t = "temporary_of pid p"
  have "(\<forall>q. q \<noteq> p \<longrightarrow> q \<noteq> ?t \<longrightarrow> dk_files dk' q = dk_files dk q)
      \<and> (case res of Inr _ \<Rightarrow> dk_files dk' p = Some (contents, mode) | Inl _ \<Rightarrow> dk_files dk' p = dk_files dk p)
      \<and> (dk_faults dk = [] \<longrightarrow> path_parent p \<noteq> None \<longrightarrow> res = Inr () \<and> dk_faults dk' = [])"
  proof (cases "path_parent p")
    case None
    with w show ?thesis by (auto simp: atomic_write_def)
  next
    case (Some parent)
    then have t: "atomic_temporary_path pid p parent = ?t" by (simp add: temporary_of_def)
    obtain dk1 r1 where 1: "disk_create_dirs parent dk = (dk1, r1)" by fastforce
    then have f1: "dk_files dk1 = dk_files dk" "dk_faults dk = [] \<longrightarrow> r1 = Inr () \<and> dk_faults dk1 = []"
      unfolding disk_create_dirs_def by (cases rule: disk_call_cases; auto)+
    show ?thesis
    proof (cases r1)
      case (Inl err)
      with w Some 1 f1 show ?thesis by (auto simp: atomic_write_def)
    next
      case (Inr u)
      obtain dk2 r2 where 2: "andThen (disk_write ?t contents dk1) (\<lambda>dk2 _.
          andThen (disk_set_mode ?t mode dk2) (\<lambda>dk3 _. disk_rename ?t p dk3)) = (dk2, r2)" by fastforce
      have out: "(\<forall>q. q \<noteq> p \<longrightarrow> q \<noteq> ?t \<longrightarrow> dk_files dk2 q = dk_files dk q)
          \<and> (case r2 of Inr _ \<Rightarrow> dk_files dk2 p = Some (contents, mode) | Inl _ \<Rightarrow> dk_files dk2 p = dk_files dk p)
          \<and> (dk_faults dk = [] \<longrightarrow> r2 = Inr () \<and> dk_faults dk2 = [])"
        by (rule atomic_steps [OF 2 tmp f1(1)]) (use f1(2) in blast)
      show ?thesis
      proof (cases r2)
        case (Inl err)
        obtain dk3 r3 where 3: "disk_remove ?t dk2 = (dk3, r3)" by fastforce
        from w have "dk' = dk3" "res = Inl err" by (simp_all add: atomic_write_def Some 1 Inr t 2 Inl 3 Let_def)
        with out Inl disk_remove_cases(1) [OF 3] tmp show ?thesis by auto
      next
        case (Inr v)
        with w have "dk' = dk2" "res = Inr ()" by (simp_all add: atomic_write_def Some 1 \<open>r1 = Inr u\<close> t 2 Let_def)
        with out Inr show ?thesis by auto
      qed
    qed
  qed
  then show "\<And>q. q \<noteq> p \<Longrightarrow> q \<noteq> ?t \<Longrightarrow> dk_files dk' q = dk_files dk q"
    "case res of Inr _ \<Rightarrow> dk_files dk' p = Some (contents, mode) | Inl _ \<Rightarrow> dk_files dk' p = dk_files dk p"
    "dk_faults dk = [] \<Longrightarrow> path_parent p \<noteq> None \<Longrightarrow> res = Inr () \<and> dk_faults dk' = []"
    by blast+
qed

section \<open>Installing and cleaning up\<close>

definition paths_ok :: "string \<Rightarrow> bridge_paths \<Rightarrow> bool" where
  "paths_ok pid paths \<longleftrightarrow>
     main_config paths \<noteq> managed_config paths
     \<and> path_parent (main_config paths) \<noteq> None \<and> path_parent (managed_config paths) \<noteq> None
     \<and> temporary_of pid (main_config paths) \<notin> {main_config paths, managed_config paths}
     \<and> temporary_of pid (managed_config paths) \<notin> {main_config paths, managed_config paths}
     \<and> plain_line (include_line (managed_config paths))"

lemma disk_read_cases:
  assumes "disk_read p dk = (dk', res)"
  shows "dk_files dk' = dk_files dk"
    "case res of Inr c \<Rightarrow> \<exists>m. dk_files dk p = Some (c, m) | Inl _ \<Rightarrow> True"
    "dk_faults dk = [] \<Longrightarrow> dk_faults dk' = [] \<and> (case dk_files dk p of
        Some (c, m) \<Rightarrow> res = Inr c | None \<Rightarrow> \<exists>err. res = Inl err \<and> err_kind err = NotFound)"
  using assms unfolding disk_read_def by (cases rule: disk_call_cases; force simp: file_at_def split: option.splits)+

lemma disk_mode_cases:
  assumes "disk_mode p dk = (dk', res)"
  shows "dk_files dk' = dk_files dk"
    "case res of Inr mode \<Rightarrow> \<exists>c m. dk_files dk p = Some (c, m) \<and> mode = and m 511 | Inl _ \<Rightarrow> True"
    "dk_faults dk = [] \<Longrightarrow> dk_files dk p = Some (c, m) \<Longrightarrow> res = Inr (and m 511) \<and> dk_faults dk' = []"
  using assms unfolding disk_mode_def by (cases rule: disk_call_cases; fastforce simp: file_at_def split: option.splits)+

lemma read_optional_cases:
  assumes "read_optional p dk = (dk', res)"
  shows "dk_files dk' = dk_files dk"
    "dk_faults dk = [] \<Longrightarrow> dk_faults dk' = [] \<and> res = Inr (map_option fst (dk_files dk p))"
proof -
  obtain dk1 r where r: "disk_read p dk = (dk1, r)" by fastforce
  note c = disk_read_cases [OF r]
  show "dk_files dk' = dk_files dk" using assms r c(1) by (auto simp: read_optional_def split: sum.splits)
  show "dk_faults dk = [] \<Longrightarrow> dk_faults dk' = [] \<and> res = Inr (map_option fst (dk_files dk p))"
    using assms r c(3) by (auto simp: read_optional_def split: sum.splits option.splits)
qed

lemma mode_if_any_cases:
  assumes "mode_if_any p contents dk = (dk', res)"
  shows "dk_files dk' = dk_files dk"
    "dk_faults dk = [] \<Longrightarrow> contents = map_option fst (dk_files dk p) \<Longrightarrow>
      dk_faults dk' = [] \<and> res = Inr (map_option (\<lambda>f. and (snd f) 511) (dk_files dk p))"
proof -
  obtain dk1 r where r: "disk_mode p dk = (dk1, r)" by fastforce
  note c = disk_mode_cases [OF r]
  show "dk_files dk' = dk_files dk"
    using assms r c(1) by (cases r) (auto simp: mode_if_any_def split: option.splits)
  assume "dk_faults dk = []" "contents = map_option fst (dk_files dk p)"
  with assms r c(3) show "dk_faults dk' = [] \<and> res = Inr (map_option (\<lambda>f. and (snd f) 511) (dk_files dk p))"
    by (cases "dk_files dk p") (auto simp: mode_if_any_def)
qed

lemma remove_file_cases:
  assumes "remove_file_if_exists p dk = (dk', res)"
  shows "\<And>q. q \<noteq> p \<Longrightarrow> dk_files dk' q = dk_files dk q"
    "dk_faults dk = [] \<Longrightarrow> res = Inr () \<and> dk_faults dk' = [] \<and> dk_files dk' p = None"
proof -
  obtain dk1 r where r: "disk_remove p dk = (dk1, r)" by fastforce
  note c = disk_remove_cases [OF r]
  show "\<And>q. q \<noteq> p \<Longrightarrow> dk_files dk' q = dk_files dk q"
    using assms r c(1) by (auto simp: remove_file_if_exists_def split: sum.splits)
  show "dk_faults dk = [] \<Longrightarrow> res = Inr () \<and> dk_faults dk' = [] \<and> dk_files dk' p = None"
    using assms r c(2,3) by (cases r) (auto simp: remove_file_if_exists_def)
qed

lemma restore_managed_cases:
  assumes "restore_managed_file pid p original original_mode dk = (dk', res)" and tmp: "temporary_of pid p \<noteq> p"
  shows "\<And>q. q \<noteq> p \<Longrightarrow> q \<noteq> temporary_of pid p \<Longrightarrow> dk_files dk' q = dk_files dk q"
    "dk_faults dk = [] \<Longrightarrow> path_parent p \<noteq> None \<Longrightarrow> res = Inr () \<and> dk_faults dk' = []
      \<and> dk_files dk' p = map_option (\<lambda>c. (c, case original_mode of None \<Rightarrow> 420 | Some m \<Rightarrow> m)) original"
proof -
  have "(\<forall>q. q \<noteq> p \<longrightarrow> q \<noteq> temporary_of pid p \<longrightarrow> dk_files dk' q = dk_files dk q)
    \<and> (dk_faults dk = [] \<longrightarrow> path_parent p \<noteq> None \<longrightarrow> res = Inr () \<and> dk_faults dk' = []
      \<and> dk_files dk' p = map_option (\<lambda>c. (c, case original_mode of None \<Rightarrow> 420 | Some m \<Rightarrow> m)) original)"
  proof (cases original)
    case None
    then have "remove_file_if_exists p dk = (dk', res)" using assms by (simp add: restore_managed_file_def)
    note c = remove_file_cases [OF this]
    show ?thesis using c None by simp
  next
    case (Some contents)
    then have "atomic_write pid p contents (case original_mode of None \<Rightarrow> 420 | Some m \<Rightarrow> m) dk = (dk', res)"
      using assms by (simp add: restore_managed_file_def)
    note c = atomic_write_spec [OF this tmp]
    show ?thesis using c Some by auto
  qed
  then show "\<And>q. q \<noteq> p \<Longrightarrow> q \<noteq> temporary_of pid p \<Longrightarrow> dk_files dk' q = dk_files dk q"
    "dk_faults dk = [] \<Longrightarrow> path_parent p \<noteq> None \<Longrightarrow> res = Inr () \<and> dk_faults dk' = []
      \<and> dk_files dk' p = map_option (\<lambda>c. (c, case original_mode of None \<Rightarrow> 420 | Some m \<Rightarrow> m)) original"
    by blast+
qed

lemma default_paths_ok: "paths_ok pid default_bridge_paths"
proof -
  have parents: "path_parent (main_config default_bridge_paths) =
      Some [RootDir, NormalName ''var'', NormalName ''lib'', NormalName ''waydroid'', NormalName ''lxc'', NormalName ''waydroid'']"
    "path_parent (managed_config default_bridge_paths) =
      Some [RootDir, NormalName ''var'', NormalName ''lib'', NormalName ''waydroid'', NormalName ''lxc'', NormalName ''waydroid'']"
    "path_file_name (main_config default_bridge_paths) = Some ''config''"
    "path_file_name (managed_config default_bridge_paths) = Some ''config_wroid_input''"
    "plain_line (include_line (managed_config default_bridge_paths))"
    by code_simp+
  then show ?thesis
    by (simp add: paths_ok_def temporary_of_def atomic_temporary_path_def component_text_def)
      (simp add: default_bridge_paths_def)
qed

text \<open>Reading writes nothing.\<close>

definition reads_only :: "'a disk_st \<Rightarrow> disk \<Rightarrow> bool" where
  "reads_only result dk \<longleftrightarrow> dk_files (fst result) = dk_files dk"

lemma reads_only_andThen:
  assumes "reads_only result dk" and "\<And>dk' a. reads_only (f dk' a) dk'"
  shows "reads_only (andThen result f) dk"
proof (cases "snd result")
  case (Inr a)
  with assms(1) assms(2) [of "fst result" a] show ?thesis
    by (cases result) (auto simp: reads_only_def)
qed (use assms(1) in \<open>cases result; simp add: reads_only_def\<close>)

lemma reads_only_return: "reads_only (dk, r) dk" by (simp add: reads_only_def)

lemma reads_only_calls:
  "reads_only (disk_read p dk) dk" "reads_only (disk_mode p dk) dk" "reads_only (read_optional p dk) dk"
  "reads_only (mode_if_any p c dk) dk"
  unfolding reads_only_def using disk_read_cases(1) disk_mode_cases(1) read_optional_cases(1) mode_if_any_cases(1)
  by (metis prod.collapse)+

lemma read_for_install_reads: "reads_only (read_for_install utf8 paths node cgroup dk) dk"
proof -
  have tail: "reads_only (if \<not> utf8 main then (dk3, Inl (OsError InvalidData ''Waydroid LXC config is not UTF-8''))
       else case render_bridge_config node cgroup of Inl err \<Rightarrow> (dk3, Inl err)
       | Inr managed \<Rightarrow> andThen (disk_mode (main_config paths) dk3) (\<lambda>dk4 main_mode.
            (dk4, Inr \<lparr>in_main = main, in_original = original, in_original_mode = original_mode,
                             in_managed = managed, in_main_mode = main_mode\<rparr>))) dk3" for main original original_mode dk3
    by (auto intro!: reads_only_andThen reads_only_return reads_only_calls split: sum.split)
  show ?thesis unfolding read_for_install_def by (intro reads_only_andThen reads_only_calls tail)
qed

lemma read_for_install_ok:
  assumes "read_for_install utf8 paths node cgroup dk = (dk', Inr inp)"
  obtains m where "dk_files dk' = dk_files dk" "dk_files dk (main_config paths) = Some (in_main inp, m)" "utf8 (in_main inp)"
    "render_bridge_config node cgroup = Inr (in_managed inp)" "in_main_mode inp = and m 511"
    "dk_faults dk = [] \<Longrightarrow> dk_faults dk' = [] \<and> in_original inp = map_option fst (dk_files dk (managed_config paths))
      \<and> in_original_mode inp = map_option (\<lambda>f. and (snd f) 511) (dk_files dk (managed_config paths))"
proof -
  from assms obtain dk1 main dk2 original dk3 original_mode managed main_mode
    where 1: "disk_read (main_config paths) dk = (dk1, Inr main)"
    and 2: "read_optional (managed_config paths) dk1 = (dk2, Inr original)"
    and 3: "mode_if_any (managed_config paths) original dk2 = (dk3, Inr original_mode)"
    and 4: "disk_mode (main_config paths) dk3 = (dk', Inr main_mode)"
    and ok: "utf8 main" "render_bridge_config node cgroup = Inr managed"
      "inp = \<lparr>in_main = main, in_original = original, in_original_mode = original_mode, in_managed = managed,
        in_main_mode = main_mode\<rparr>"
    by (auto simp: read_for_install_def andThen_Inr_iff split: if_splits sum.splits)
  note c = disk_read_cases [OF 1] read_optional_cases [OF 2] mode_if_any_cases [OF 3] disk_mode_cases [OF 4]
  from c(2) obtain m where m: "dk_files dk (main_config paths) = Some (main, m)" by auto
  show thesis
  proof (rule that)
    show "in_main_mode inp = and m 511" using c m ok(3) by auto
    show "dk_faults dk = [] \<Longrightarrow> dk_faults dk' = [] \<and> in_original inp = map_option fst (dk_files dk (managed_config paths))
      \<and> in_original_mode inp = map_option (\<lambda>f. and (snd f) 511) (dk_files dk (managed_config paths))"
      using c m ok(3) by simp
  qed (use c m ok in simp_all)
qed

lemma write_install_cases:
  assumes "write_install pid paths inp dk = (dk', res)" and ok: "paths_ok pid paths"
  shows "case res of
      Inr ib \<Rightarrow> dk_files dk' (managed_config paths)
          = Some (in_managed inp, case in_original_mode inp of None \<Rightarrow> 420 | Some m \<Rightarrow> m)
        \<and> (if ib_include_added ib
           then dk_files dk' (main_config paths)
             = Some (add_include (in_main inp) (include_line (managed_config paths)), in_main_mode inp)
           else dk_files dk' (main_config paths) = dk_files dk (main_config paths))
    | Inl _ \<Rightarrow> dk_files dk' (main_config paths) = dk_files dk (main_config paths)"
proof -
  let ?main = "main_config paths" and ?managed = "managed_config paths"
  let ?mode = "case in_original_mode inp of None \<Rightarrow> 420 | Some m \<Rightarrow> m"
  have p: "?main \<noteq> ?managed" "temporary_of pid ?main \<noteq> ?main" "temporary_of pid ?main \<noteq> ?managed"
    "temporary_of pid ?managed \<noteq> ?managed" "temporary_of pid ?managed \<noteq> ?main"
    using ok by (auto simp: paths_ok_def)
  obtain dk1 r1 where 1: "atomic_write pid ?managed (in_managed inp) ?mode dk = (dk1, r1)" by fastforce
  note c1 = atomic_write_spec [OF 1 p(4)]
  have main1: "dk_files dk1 ?main = dk_files dk ?main" using c1(1) p by simp
  let ?updated = "add_include (in_main inp) (include_line ?managed)"
  obtain dk2 r2 where 2: "atomic_write pid ?main ?updated (in_main_mode inp) dk1 = (dk2, r2)" by fastforce
  note c2 = atomic_write_spec [OF 2 p(2)]
  obtain dk3 r3 where 3: "restore_managed_file pid ?managed (in_original inp) (in_original_mode inp) dk2 = (dk3, r3)" by fastforce
  note c3 = restore_managed_cases(1) [OF 3 p(4)]
  show ?thesis
    using assms(1) main1 c1 c2 c3 p
    by (cases r1; cases r2) (auto simp: write_install_def Let_def 1 2 3 split: if_splits)
qed

text \<open>C24. Installing is all or nothing for the main configuration, whichever disk calls fail: refused, the main
  configuration is as it was; installed, it includes the managed file, which holds the mount of the node.\<close>

theorem install_all_or_nothing:
  assumes inst: "install_bridge utf8 pid paths node cgroup dk = (dk', res)" and ok: "paths_ok pid paths"
  shows "case res of
      Inl _ \<Rightarrow> dk_files dk' (main_config paths) = dk_files dk (main_config paths)
    | Inr ib \<Rightarrow> \<exists>main m managed mode m'. dk_files dk (main_config paths) = Some (main, m)
        \<and> render_bridge_config node cgroup = Inr managed
        \<and> dk_files dk' (managed_config paths) = Some (managed, mode)
        \<and> dk_files dk' (main_config paths) = Some (add_include main (include_line (managed_config paths)), m')
        \<and> list_ex (\<lambda>l. trim l = include_line (managed_config paths))
            (str_lines (add_include main (include_line (managed_config paths))))"
proof -
  have plain: "plain_line (include_line (managed_config paths))" using ok by (simp add: paths_ok_def)
  obtain dk1 r1 where 1: "read_for_install utf8 paths node cgroup dk = (dk1, r1)" by fastforce
  have same: "dk_files dk1 = dk_files dk"
    using read_for_install_reads [of utf8 paths node cgroup dk] 1 by (simp add: reads_only_def)
  show ?thesis
  proof (cases r1)
    case (Inl err)
    with inst 1 same show ?thesis by (auto simp: install_bridge_def)
  next
    case (Inr inp)
    with inst 1 have w: "write_install pid paths inp dk1 = (dk', res)" by (simp add: install_bridge_def)
    obtain m where inp: "dk_files dk (main_config paths) = Some (in_main inp, m)"
      "render_bridge_config node cgroup = Inr (in_managed inp)"
      by (rule read_for_install_ok [OF 1 [unfolded Inr]])
    have "res = Inr ib \<Longrightarrow> ib_include_added ib \<longleftrightarrow>
        add_include (in_main inp) (include_line (managed_config paths)) \<noteq> in_main inp" for ib
      using w by (auto simp: write_install_def Let_def andThen_Inr_iff split: if_splits prod.splits sum.splits)
    with write_install_cases [OF w ok] inp same add_include_has [OF plain] show ?thesis
      by (cases res) (auto split: if_splits)
  qed
qed

text \<open>A first installation whose last write, the rename over the main configuration, fails.\<close>

definition fresh_disk :: "os_error option list \<Rightarrow> disk" where
  "fresh_disk faults = \<lparr>dk_files = [main_config default_bridge_paths \<mapsto> (''lxc.arch = x86_64'', 420)], dk_faults = faults\<rparr>"

definition touch_node :: input_device_node where
  "touch_node = \<lparr>nd_path = ''/dev/input/event7'', nd_major = 13, nd_minor = 71\<rparr>"

definition faulty :: disk where
  "faulty = fresh_disk (replicate 10 None @ [Some (OsError OtherKind ''I/O error'')])"

lemma install_all_or_nothing_witness:
  "isl (snd (install_bridge (\<lambda>_. True) ''9'' default_bridge_paths touch_node CgroupV2 faulty))
    \<and> dk_files (fst (install_bridge (\<lambda>_. True) ''9'' default_bridge_paths touch_node CgroupV2 faulty)) (main_config default_bridge_paths)
      = Some (''lxc.arch = x86_64'', 420)"
proof -
  have "isl (snd (install_bridge (\<lambda>_. True) ''9'' default_bridge_paths touch_node CgroupV2 faulty))" by code_simp
  with install_all_or_nothing [OF prod.collapse [symmetric] default_paths_ok, of "\<lambda>_. True" "''9''" touch_node CgroupV2 faulty]
  show ?thesis by (auto simp: faulty_def fresh_disk_def split: sum.splits)
qed

lemma remove_managed_include_ok:
  assumes quiet: "dk_faults dk = []" and main: "dk_files dk (main_config paths) = Some (text, m)" and utf8: "utf8 text"
    and ok: "paths_ok pid paths"
  obtains dk' where "remove_managed_include utf8 pid paths dk = (dk', Inr ())" "dk_faults dk' = []"
    "dk_files dk' (main_config paths) =
      (if remove_include text (include_line (managed_config paths)) = text then Some (text, m)
       else Some (remove_include text (include_line (managed_config paths)), and m 511))"
    "dk_files dk' (managed_config paths) = dk_files dk (managed_config paths)"
proof -
  have p: "main_config paths \<noteq> managed_config paths" "temporary_of pid (main_config paths) \<noteq> main_config paths"
    "temporary_of pid (main_config paths) \<noteq> managed_config paths" "path_parent (main_config paths) \<noteq> None"
    using ok by (auto simp: paths_ok_def)
  let ?updated = "remove_include text (include_line (managed_config paths))"
  obtain dk1 where 1: "disk_read_text utf8 (main_config paths) dk = (dk1, Inr text)" "dk_files dk1 = dk_files dk" "dk_faults dk1 = []"
  proof -
    obtain dk1 r where r: "disk_read (main_config paths) dk = (dk1, r)" by fastforce
    from disk_read_cases [OF r] quiet main utf8 r that show thesis by (simp add: disk_read_text_def)
  qed
  obtain dk2 r2 where 2: "disk_mode (main_config paths) dk1 = (dk2, r2)" by fastforce
  have c2: "dk_files dk2 = dk_files dk" "r2 = Inr (and m 511)" "dk_faults dk2 = []"
    using disk_mode_cases [OF 2] 1 main by auto
  obtain dk3 r3 where 3: "atomic_write pid (main_config paths) ?updated (and m 511) dk2 = (dk3, r3)" by fastforce
  note c3 = atomic_write_spec [OF 3 p(2)]
  have r3: "r3 = Inr ()" "dk_faults dk3 = []" using c3(3) c2(3) p(4) by auto
  have run: "remove_managed_include utf8 pid paths dk = (if ?updated = text then (dk2, Inr ()) else (dk3, Inr ()))"
    using 3 by (simp add: remove_managed_include_def 1(1) 2 c2(2) r3(1) Let_def)
  show thesis
  proof (cases "?updated = text")
    case True
    then show thesis using that [of dk2] run c2 1(2) main by simp
  next
    case False
    then show thesis
      using that [of dk3] run c2 1(2) main r3 c3(1) [of "managed_config paths"] c3(2) p by simp
  qed
qed

lemma read_for_install_quiet:
  assumes quiet: "dk_faults dk = []" and main: "dk_files dk (main_config paths) = Some (text, m)" and utf8: "utf8 text"
    and node: "LF \<notin> set (nd_path node)" "CR \<notin> set (nd_path node)"
  obtains inp dk' where "read_for_install utf8 paths node cgroup dk = (dk', Inr inp)"
proof -
  obtain dk1 r1 where 1: "disk_read (main_config paths) dk = (dk1, r1)" by fastforce
  obtain dk2 r2 where 2: "read_optional (managed_config paths) dk1 = (dk2, r2)" by fastforce
  obtain dk3 r3 where 3: "mode_if_any (managed_config paths) (map_option fst (dk_files dk (managed_config paths))) dk2 = (dk3, r3)"
    by fastforce
  obtain dk4 r4 where 4: "disk_mode (main_config paths) dk3 = (dk4, r4)" by fastforce
  have "r1 = Inr text" "dk_faults dk1 = []" "dk_files dk1 = dk_files dk" using disk_read_cases [OF 1] quiet main by auto
  moreover from this have "r2 = Inr (map_option fst (dk_files dk (managed_config paths)))" "dk_faults dk2 = []"
    "dk_files dk2 = dk_files dk"
    using read_optional_cases [OF 2] by auto
  moreover from this have "r3 = Inr (map_option (\<lambda>f. and (snd f) 511) (dk_files dk (managed_config paths)))" "dk_faults dk3 = []"
    "dk_files dk3 = dk_files dk"
    using mode_if_any_cases [OF 3] by auto
  moreover from this have "r4 = Inr (and m 511)" using disk_mode_cases [OF 4] main by auto
  moreover obtain managed where "render_bridge_config node cgroup = Inr managed"
    using node by (cases "render_bridge_config node cgroup") (auto simp: render_bridge_config_def Let_def split: if_splits)
  ultimately show thesis using that 1 2 3 4 utf8 by (simp add: read_for_install_def)
qed

lemma write_install_quiet:
  assumes quiet: "dk_faults dk = []" and ok: "paths_ok pid paths"
  obtains dk' where "write_install pid paths inp dk = (dk', Inr \<lparr>ib_paths = paths, ib_original_managed = in_original inp,
      ib_original_mode = in_original_mode inp,
      ib_include_added = (add_include (in_main inp) (include_line (managed_config paths)) \<noteq> in_main inp), ib_active = True\<rparr>)"
    "dk_faults dk' = []"
proof -
  let ?main = "main_config paths" and ?managed = "managed_config paths"
  let ?updated = "add_include (in_main inp) (include_line ?managed)"
  have p: "temporary_of pid ?main \<noteq> ?main" "temporary_of pid ?managed \<noteq> ?managed" "path_parent ?managed \<noteq> None"
    "path_parent ?main \<noteq> None"
    using ok by (auto simp: paths_ok_def)
  obtain dk1 r1 where 1: "atomic_write pid ?managed (in_managed inp)
      (case in_original_mode inp of None \<Rightarrow> 420 | Some m \<Rightarrow> m) dk = (dk1, r1)" by fastforce
  from atomic_write_spec(3) [OF 1 p(2) quiet p(3)] have c1: "r1 = Inr ()" "dk_faults dk1 = []" by auto
  obtain dk2 r2 where 2: "atomic_write pid ?main ?updated (in_main_mode inp) dk1 = (dk2, r2)" by fastforce
  from atomic_write_spec(3) [OF 2 p(1) c1(2) p(4)] have c2: "r2 = Inr ()" "dk_faults dk2 = []" by auto
  show thesis
    using that [of dk1] that [of dk2] c1 c2 by (cases "?updated = in_main inp") (simp_all add: write_install_def Let_def 1 2)
qed

lemma restore_original:
  assumes quiet: "dk_faults dk = []" and tmp: "temporary_of pid p \<noteq> p" "path_parent p \<noteq> None"
    and original: "original = map_option fst f" "original_mode = map_option (\<lambda>f. and (snd f) 511) f"
  obtains dk' where "restore_managed_file pid p original original_mode dk = (dk', Inr ())"
    "dk_files dk' p = map_option (\<lambda>(t, mode). (t, and mode 511)) f"
    "\<And>q. q \<noteq> p \<Longrightarrow> q \<noteq> temporary_of pid p \<Longrightarrow> dk_files dk' q = dk_files dk q"
proof -
  obtain dk' res where r: "restore_managed_file pid p original original_mode dk = (dk', res)" by fastforce
  note c = restore_managed_cases [OF r tmp(1)]
  from c(2) [OF quiet tmp(2)] have "res = Inr ()"
    "dk_files dk' p = map_option (\<lambda>(t, mode). (t, and mode 511)) f"
    using original by (cases f; auto)+
  with r c(1) show thesis using that by blast
qed

text \<open>C25. Installing the bridge and cleaning it up leaves no trace: on a disk without faults both succeed, the managed
  file is as it was (or absent), and the main configuration has its own lines again. What may differ is the line
  breaks at its end - there is one now - and mode bits beyond the permissions.\<close>

theorem bridge_leaves_no_trace:
  assumes ok: "paths_ok pid paths" and quiet: "dk_faults dk = []"
    and main: "dk_files dk (main_config paths) = Some (text, m)" and plain: "CR \<notin> set text"
    and utf8: "utf8 text" "utf8 (add_include text (include_line (managed_config paths)))"
    and node: "LF \<notin> set (nd_path node)" "CR \<notin> set (nd_path node)"
  shows "\<exists>dk1 ib dk2. install_bridge utf8 pid paths node cgroup dk = (dk1, Inr ib)
    \<and> cleanup_bridge utf8 pid ib dk1 = (dk2, Inr ())
    \<and> dk_files dk2 (managed_config paths) = map_option (\<lambda>(t, mode). (t, and mode 511)) (dk_files dk (managed_config paths))
    \<and> dk_files dk2 (main_config paths) =
        (if list_ex (\<lambda>l. trim l = include_line (managed_config paths)) (str_lines text) then Some (text, m)
         else Some (trim_end_char LF text @ [LF], and m 511))"
proof -
  let ?main = "main_config paths" and ?managed = "managed_config paths"
  let ?i = "include_line ?managed"
  have p: "?main \<noteq> ?managed" "temporary_of pid ?main \<noteq> ?main" "temporary_of pid ?main \<noteq> ?managed"
    "temporary_of pid ?managed \<noteq> ?managed" "temporary_of pid ?managed \<noteq> ?main" "path_parent ?managed \<noteq> None"
    "path_parent ?main \<noteq> None" "plain_line ?i"
    using ok by (auto simp: paths_ok_def)
  obtain inp dk1 where read: "read_for_install utf8 paths node cgroup dk = (dk1, Inr inp)"
    by (rule read_for_install_quiet [where ?utf8.0 = utf8 and paths = paths and node = node and cgroup = cgroup, OF quiet main])
      (simp_all add: utf8(1) node)
  obtain m' where inp: "dk_files dk1 = dk_files dk" "dk_files dk ?main = Some (in_main inp, m')" "in_main_mode inp = and m' 511"
    "dk_faults dk1 = []" "in_original inp = map_option fst (dk_files dk ?managed)"
    "in_original_mode inp = map_option (\<lambda>f. and (snd f) 511) (dk_files dk ?managed)"
    by (rule read_for_install_ok [OF read]) (use quiet in blast)
  have mt: "in_main inp = text" "in_main_mode inp = and m 511" using inp main by simp_all
  let ?bridge = "\<lparr>ib_paths = paths, ib_original_managed = in_original inp, ib_original_mode = in_original_mode inp,
      ib_include_added = (add_include text ?i \<noteq> text), ib_active = True\<rparr>"
  obtain dk2 where w: "write_install pid paths inp dk1 = (dk2, Inr ?bridge)" "dk_faults dk2 = []"
    by (rule write_install_quiet [where inp = inp, OF inp(4) ok]) (simp add: mt)
  have managed2: "dk_files dk2 ?main = Some (add_include text ?i, if add_include text ?i = text then m else and m 511)"
    using write_install_cases [OF w(1) ok] inp mt main by (auto split: if_splits)
  have inst: "install_bridge utf8 pid paths node cgroup dk = (dk2, Inr ?bridge)" by (simp add: install_bridge_def read w(1))
  show ?thesis
  proof (cases "list_ex (\<lambda>l. trim l = ?i) (str_lines text)")
    case True
    then have same: "add_include text ?i = text" by (rule add_include_present)
    obtain dk3 where 3: "restore_managed_file pid ?managed (in_original inp) (in_original_mode inp) dk2 = (dk3, Inr ())"
      "dk_files dk3 ?managed = map_option (\<lambda>(t, mode). (t, and mode 511)) (dk_files dk ?managed)"
      "dk_files dk3 ?main = dk_files dk2 ?main"
      by (rule restore_original [OF w(2) p(4,6) inp(5,6)]) (use p in auto)
    have "cleanup_bridge utf8 pid ?bridge dk2 = (dk3, Inr ())" "dk_files dk3 ?main = Some (text, m)"
      using 3 managed2 same by (simp_all add: cleanup_bridge_def restore_bridge_def both_results_def)
    with inst True 3(2) show ?thesis by auto
  next
    case False
    then have removed: "remove_include (add_include text ?i) ?i = trim_end_char LF text @ [LF]"
      by (rule remove_add_include [OF p(8) plain])
    have added: "add_include text ?i \<noteq> text" using False add_include_has [OF p(8), of "text"] by auto
    have changed: "trim_end_char LF text @ [LF] \<noteq> add_include text ?i"
      using False added removed add_include_idem [OF p(8), of "text"] p(8) by (auto simp: add_include_def plain_line_def)
    have main2: "dk_files dk2 ?main = Some (add_include text ?i, and m 511)" using managed2 added by simp
    obtain dk3 where r: "remove_managed_include utf8 pid paths dk2 = (dk3, Inr ())" "dk_faults dk3 = []"
      and "dk_files dk3 ?main = (if remove_include (add_include text ?i) ?i = add_include text ?i
        then Some (add_include text ?i, and m 511) else Some (remove_include (add_include text ?i) ?i, and (and m 511) 511))"
      by (rule remove_managed_include_ok [where ?utf8.0 = utf8 and pid = pid and paths = paths, OF w(2) main2 utf8(2) ok])
    then have r3: "dk_files dk3 ?main = Some (trim_end_char LF text @ [LF], and m 511)"
      using removed changed by (simp add: and.assoc)
    obtain dk4 where 4: "restore_managed_file pid ?managed (in_original inp) (in_original_mode inp) dk3 = (dk4, Inr ())"
      "dk_files dk4 ?managed = map_option (\<lambda>(t, mode). (t, and mode 511)) (dk_files dk ?managed)"
      "dk_files dk4 ?main = dk_files dk3 ?main"
      by (rule restore_original [OF r(2) p(4,6) inp(5,6)]) (use p in auto)
    have "cleanup_bridge utf8 pid ?bridge dk2 = (dk4, Inr ())"
      "dk_files dk4 ?main = Some (trim_end_char LF text @ [LF], and m 511)"
      using 4 r r3 added by (simp_all add: cleanup_bridge_def restore_bridge_def both_results_def)
    with inst False 4(2) show ?thesis by auto
  qed
qed

lemma bridge_leaves_no_trace_witness:
  "\<exists>dk1 ib dk2. install_bridge (\<lambda>_. True) ''9'' default_bridge_paths touch_node CgroupV2 (fresh_disk []) = (dk1, Inr ib)
    \<and> cleanup_bridge (\<lambda>_. True) ''9'' ib dk1 = (dk2, Inr ())
    \<and> dk_files dk2 (managed_config default_bridge_paths) = None"
proof -
  have h: "dk_faults (fresh_disk []) = []"
    "dk_files (fresh_disk []) (main_config default_bridge_paths) = Some (''lxc.arch = x86_64'', 420)"
    "CR \<notin> set ''lxc.arch = x86_64''" "LF \<notin> set (nd_path touch_node)" "CR \<notin> set (nd_path touch_node)"
    "dk_files (fresh_disk []) (managed_config default_bridge_paths) = None"
    by (simp_all add: fresh_disk_def touch_node_def CR_def LF_def default_bridge_paths_def)
  show ?thesis
    using bridge_leaves_no_trace [where ?utf8.0 = "\<lambda>_. True" and cgroup = CgroupV2 and pid = "''9''",
        OF default_paths_ok h(1-3) TrueI TrueI h(4,5)] h(6)
    by auto
qed

section \<open>Honest disks\<close>

text \<open>No failing call says that a file is missing which is there.\<close>

definition honest :: "disk \<Rightarrow> bool" where
  "honest dk \<longleftrightarrow> (\<forall>err. Some err \<in> set (dk_faults dk) \<longrightarrow> err_kind err \<noteq> NotFound)"

lemma quiet_honest: "dk_faults dk = [] \<Longrightarrow> honest dk" by (simp add: honest_def)

lemma remove_file_done:
  assumes "remove_file_if_exists p dk = (dk', Inr ())" and "honest dk"
  shows "dk_files dk' p = None"
proof -
  obtain dk1 r where r: "disk_remove p dk = (dk1, r)" by fastforce
  have "r = Inl err \<Longrightarrow> err_kind err = NotFound \<Longrightarrow> dk_files dk1 p = None" for err
    using r assms(2)
    by (auto simp: disk_remove_def disk_call_def honest_def file_at_def split: list.splits option.splits)
  with r assms(1) disk_remove_cases(2) [OF r] show ?thesis
    by (cases r) (auto simp: remove_file_if_exists_def split: if_splits)
qed

end
