(* ===== verification/Helper.thy ===== *)
theory Helper
  imports BridgeConfig
begin

text \<open>
  The setuid helper, \<^verbatim>\<open>wroid-inject/src/privileged_bridge.rs\<close>: it waits for a stopped container, checks the event
  node, lends the node to Android, installs the bridge, serves its client over two pipes, and undoes all of it.
  The world it runs in is its disk, the node's inode, the lease, its pipes, and the log of the programs it ran;
  what these programs answer is the environment. A system call fails when \<open>dk_faults\<close> of the disk says so.
\<close>

section \<open>Programs it runs\<close>

record fixed_command =
  fc_executable :: string
  fc_arguments :: "string list"
  fc_env :: "(string \<times> string) list"
  fc_dir :: string

definition SAFE_SYSTEM_PATH :: string where "SAFE_SYSTEM_PATH = ''/usr/sbin:/usr/bin''"
definition LXC_PATH :: string where "LXC_PATH = ''/var/lib/waydroid/lxc''"
definition WAYDROID_CONTAINER_NAME :: string where "WAYDROID_CONTAINER_NAME = ''waydroid''"

definition fixed_privileged_command :: "string \<Rightarrow> string list \<Rightarrow> fixed_command" where
  "fixed_privileged_command executable arguments =
     \<lparr>fc_executable = executable, fc_arguments = arguments,
      fc_env = [(''PATH'', SAFE_SYSTEM_PATH), (''HOME'', ''/root''), (''LANG'', ''C'')], fc_dir = ''/''\<rparr>"

definition udev_settle_command :: fixed_command where
  "udev_settle_command = fixed_privileged_command ''/usr/bin/udevadm'' [''settle'', ''--timeout=5'']"

definition attach_command :: "string list \<Rightarrow> fixed_command" where
  "attach_command program =
     fixed_privileged_command ''/usr/bin/lxc-attach''
       ([''-P'', LXC_PATH, ''-n'', WAYDROID_CONTAINER_NAME, ''--clear-env'', ''--''] @ program)"

definition android_input_probe_command :: fixed_command where
  "android_input_probe_command = attach_command [''/system/bin/getevent'', ''-pl'']"

definition android_dumpsys_input_command :: fixed_command where
  "android_dumpsys_input_command = attach_command [''/system/bin/dumpsys'', ''input'']"

definition android_show_touches_off_command :: fixed_command where
  "android_show_touches_off_command =
     attach_command [''/system/bin/settings'', ''put'', ''system'', ''show_touches'', ''0'']"

definition android_pointer_location_off_command :: fixed_command where
  "android_pointer_location_off_command =
     attach_command [''/system/bin/settings'', ''put'', ''system'', ''pointer_location'', ''0'']"

definition android_input_unfreeze_command :: fixed_command where
  "android_input_unfreeze_command =
     fixed_privileged_command ''/usr/bin/lxc-unfreeze'' [''-P'', LXC_PATH, ''-n'', WAYDROID_CONTAINER_NAME]"

definition lxc_status_command :: fixed_command where
  "lxc_status_command =
     fixed_privileged_command ''/usr/bin/lxc-info'' [''-P'', LXC_PATH, ''-n'', WAYDROID_CONTAINER_NAME, ''-sH'']"

definition lxc_stop_command :: fixed_command where
  "lxc_stop_command =
     fixed_privileged_command ''/usr/bin/lxc-stop'' [''-P'', LXC_PATH, ''-n'', WAYDROID_CONTAINER_NAME, ''-k'']"

section \<open>The world\<close>

record exit_status =
  es_success :: bool
  es_text :: string

record command_output =
  co_status :: exit_status
  co_stdout :: string
  co_stderr :: string

text \<open>
  A program that is polled: at its \<open>n\<close>-th poll, whether both its pipes are closed, what \<open>try_wait\<close> says, and how
  much longer than asked for the polling thread slept before; and what it writes, as the reads deliver it.
\<close>

record child_run =
  cr_finished :: "nat \<Rightarrow> bool"
  cr_status :: "nat \<Rightarrow> os_error + exit_status option"
  cr_delay :: "nat \<Rightarrow> nat"
  cr_stdout :: "(os_error + string) list"
  cr_stderr :: "(os_error + string) list"

text \<open>
  The environment: the process's identity, the system's answers about the event node (\<open>he_sysfs\<close> and \<open>he_device\<close>
  may answer differently every time), and what the \<open>n\<close>-th program answers. \<open>he_lossy\<close> is \<open>from_utf8_lossy\<close>.
\<close>

record device_identity =
  di_name :: "string option"
  di_bus :: u16
  di_vendor :: u16
  di_product :: u16

record helper_env =
  he_euid :: "os_error + u32"
  he_pid :: u32
  he_unified :: bool
  he_utf8 :: "string \<Rightarrow> bool"
  he_lossy :: "string \<Rightarrow> string"
  he_stat :: "string \<Rightarrow> os_error + bool \<times> u64"
  he_sysfs :: "nat \<Rightarrow> string \<Rightarrow> os_error + string"
  he_device :: "nat \<Rightarrow> string \<Rightarrow> os_error + device_identity"
  he_answer :: "nat \<Rightarrow> fixed_command \<Rightarrow> os_error + command_output"
  he_child :: "nat \<Rightarrow> fixed_command \<Rightarrow> os_error + child_run"

record event_inode =
  ei_uid :: u32
  ei_gid :: u32
  ei_mode :: u32

text \<open>All the bytes that arrive before the client closes the pipe, and the error that ends it otherwise.\<close>

record byte_pipe =
  bp_bytes :: string
  bp_end :: "os_error option"

record helper_world =
  hw_disk :: disk
  hw_inode :: event_inode
  hw_lease :: lease_file
  hw_stdin :: byte_pipe
  hw_stdout :: "string list"
  hw_commands :: "fixed_command list"
  hw_checks :: nat
  hw_slept :: nat \<comment> \<open>nanoseconds\<close>

type_synonym 'a helper_st = "(helper_world, os_error, 'a) st"

definition on_disk :: "(disk \<Rightarrow> 'a disk_st) \<Rightarrow> helper_world \<Rightarrow> 'a helper_st" where
  "on_disk f w = (case f (hw_disk w) of (dk, r) \<Rightarrow> (w\<lparr>hw_disk := dk\<rparr>, r))"

definition sys_call :: "(helper_world \<Rightarrow> helper_world) \<Rightarrow> helper_world \<Rightarrow> unit helper_st" where
  "sys_call effect w = andThen (on_disk (disk_call (\<lambda>dk. (dk, Inr ()))) w) (\<lambda>w' _. (effect w', Inr ()))"

definition run_command :: "helper_env \<Rightarrow> fixed_command \<Rightarrow> helper_world \<Rightarrow> command_output helper_st" where
  "run_command env c w =
     (w\<lparr>hw_commands := hw_commands w @ [c]\<rparr>, he_answer env (length (hw_commands w)) c)"

definition sleep_for :: "nat \<Rightarrow> helper_world \<Rightarrow> helper_world" where
  "sleep_for d w = w\<lparr>hw_slept := hw_slept w + d\<rparr>"

definition combined_output :: "helper_env \<Rightarrow> command_output \<Rightarrow> string" where
  "combined_output env out = he_lossy env (co_stdout out) @ he_lossy env (co_stderr out)"

definition write_line :: "string \<Rightarrow> helper_world \<Rightarrow> unit helper_st" where
  "write_line l = sys_call (\<lambda>w. w\<lparr>hw_stdout := hw_stdout w @ [l]\<rparr>)"

section \<open>Waiting for the container\<close>

definition CONTAINER_STOP_ATTEMPTS :: nat where "CONTAINER_STOP_ATTEMPTS = 30"
definition CONTAINER_STOP_INTERVAL :: nat where "CONTAINER_STOP_INTERVAL = 1000000000"
definition ANDROID_INPUT_ATTEMPTS :: nat where "ANDROID_INPUT_ATTEMPTS = 60"
definition ANDROID_INPUT_INTERVAL :: nat where "ANDROID_INPUT_INTERVAL = 500000000"

definition status_failed :: "string \<Rightarrow> os_error" where
  "status_failed output = OsError OtherKind (''privileged Waydroid LXC status failed'' @ [LF] @ output)"

definition ensure_container_stopped :: "helper_env \<Rightarrow> helper_world \<Rightarrow> unit helper_st" where
  "ensure_container_stopped env w =
     andThen (run_command env lxc_status_command w) (\<lambda>w' out.
       (w', if \<not> es_success (co_status out) then Inl (status_failed (combined_output env out))
            else if trim (combined_output env out) = ''STOPPED'' then Inr ()
            else Inl (OsError AlreadyExists
                   ''Waydroid container is running. Stop it first with: waydroid session stop'')))"

fun wait_stopped :: "helper_env \<Rightarrow> nat \<Rightarrow> string \<Rightarrow> helper_world \<Rightarrow> unit helper_st" where
  "wait_stopped env 0 last_status w =
     (w, Inl (OsError AlreadyExists (''Waydroid container is still running after waiting ''
                @ show_nat CONTAINER_STOP_ATTEMPTS
                @ '' seconds. Stop it first with: waydroid session stop'' @ [LF] @ last_status)))"
| "wait_stopped env (Suc n) last_status w =
     andThen (run_command env lxc_status_command w) (\<lambda>w' out.
       if \<not> es_success (co_status out) then (w', Inl (status_failed (combined_output env out)))
       else if trim (combined_output env out) = ''STOPPED'' then (w', Inr ())
       else wait_stopped env n (combined_output env out) (sleep_for CONTAINER_STOP_INTERVAL w'))"

definition wait_for_container_stopped :: "helper_env \<Rightarrow> helper_world \<Rightarrow> unit helper_st" where
  "wait_for_container_stopped env = wait_stopped env CONTAINER_STOP_ATTEMPTS []"

definition force_stop_waydroid_container :: "helper_env \<Rightarrow> helper_world \<Rightarrow> unit helper_st" where
  "force_stop_waydroid_container env w =
     (case ensure_container_stopped env w of
        (w1, Inr _) \<Rightarrow> (w1, Inr ())
      | (w1, Inl _) \<Rightarrow>
          andThen (run_command env lxc_stop_command w1) (\<lambda>w2 out.
            if \<not> es_success (co_status out)
            then (w2, Inl (OsError OtherKind (''privileged Waydroid recovery stop failed'' @ [LF]
                                            @ trim (he_lossy env (co_stderr out)))))
            else ensure_container_stopped env w2))"

definition settle_wroid_input_udev :: "helper_env \<Rightarrow> helper_world \<Rightarrow> unit helper_st" where
  "settle_wroid_input_udev env w =
     andThen (run_command env udev_settle_command w) (\<lambda>w' out.
       (w', if es_success (co_status out) then Inr ()
            else Inl (OsError OtherKind
                   (''udev did not settle the Wroid touchscreen before Android input permission handoff'' @ [LF]
                    @ trim (combined_output env out)))))"

definition unfreeze_waydroid_for_input_probe :: "helper_env \<Rightarrow> helper_world \<Rightarrow> unit helper_st" where
  "unfreeze_waydroid_for_input_probe env w =
     andThen (run_command env lxc_status_command w) (\<lambda>w1 status.
       if \<not> es_success (co_status status)
       then (w1, Inl (OsError OtherKind (''privileged Waydroid status failed before Android input probe'' @ [LF]
                                       @ combined_output env status)))
       else if trim (combined_output env status) \<noteq> ''FROZEN'' then (w1, Inr ())
       else andThen (run_command env android_input_unfreeze_command w1) (\<lambda>w2 out.
              (w2, if es_success (co_status out) then Inr ()
                   else Inl (OsError OtherKind (''privileged Waydroid unfreeze failed before Android input probe'' @ [LF]
                                              @ combined_output env out)))))"

section \<open>Android's pointer diagnostics\<close>

definition MAX_ANDROID_SETTINGS_ERROR_CHARS :: nat where "MAX_ANDROID_SETTINGS_ERROR_CHARS = 4 * 1024"
definition ANDROID_SETTINGS_TIMEOUT :: nat where "ANDROID_SETTINGS_TIMEOUT = 5000000000"
definition ANDROID_SETTINGS_POLL_INTERVAL :: nat where "ANDROID_SETTINGS_POLL_INTERVAL = 10000000"

datatype setting_end = SettingExited exit_status | SettingPollFailed os_error | SettingTimedOut

text \<open>The polling loop: the end, the time that has passed and the number of polls. It sleeps for at least ten
  milliseconds, or what is left, so it ends whatever the child does.\<close>

function setting_loop :: "child_run \<Rightarrow> nat \<Rightarrow> nat \<Rightarrow> nat \<Rightarrow> setting_end \<times> nat \<times> nat" where
  "setting_loop child timeout elapsed n =
     (case (if cr_finished child n then cr_status child n else Inr None) of
        Inr (Some status) \<Rightarrow> (SettingExited status, elapsed, n)
      | Inl err \<Rightarrow> (SettingPollFailed err, elapsed, n)
      | Inr None \<Rightarrow>
          if timeout \<le> elapsed then (SettingTimedOut, elapsed, n)
          else setting_loop child timeout
                 (elapsed + min ANDROID_SETTINGS_POLL_INTERVAL (timeout - elapsed) + cr_delay child (Suc n)) (Suc n))"
  by pat_completeness auto
termination
  by (relation "measure (\<lambda>(child, timeout, elapsed, n). timeout - elapsed)")
    (auto simp: ANDROID_SETTINGS_POLL_INTERVAL_def)

declare setting_loop.simps [simp del]

fun read_android_setting_output :: "string \<Rightarrow> (os_error + string) list \<Rightarrow> os_error + string" where
  "read_android_setting_output retained [] = Inr retained"
| "read_android_setting_output retained (Inl err # chunks) = Inl err"
| "read_android_setting_output retained (Inr chunk # chunks) =
     (if chunk = [] then Inr retained
      else read_android_setting_output
             (retained @ take (MAX_ANDROID_SETTINGS_ERROR_CHARS - length retained) chunk) chunks)"

definition two_digits :: "nat \<Rightarrow> string" where
  "two_digits n = show_nat (n div 10 mod 10) @ show_nat (n mod 10)"

definition join_android_setting_output ::
  "(os_error + string) list \<Rightarrow> string \<Rightarrow> string \<Rightarrow> os_error + string" where
  "join_android_setting_output chunks name label =
     (case read_android_setting_output [] chunks of
        Inl err \<Rightarrow> Inl (OsError (err_kind err) (''failed to read '' @ label @ '' while disabling Android setting ''
                     @ name @ '': '' @ err_text err))
      | Inr text \<Rightarrow> Inr text)"

definition setting_outcome :: "helper_env \<Rightarrow> string \<Rightarrow> exit_status \<Rightarrow> string \<Rightarrow> string \<Rightarrow> os_error + unit" where
  "setting_outcome env name status out err =
     (if es_success status then Inr ()
      else let detail = concat (take MAX_ANDROID_SETTINGS_ERROR_CHARS (str_chars (he_lossy env out @ he_lossy env err)))
           in Inl (OsError OtherKind (''failed to disable fixed Android pointer diagnostic '' @ name @ '' (''
                     @ es_text status @ '')'' @ [LF] @ trim detail)))"

definition run_fixed_android_setting_command ::
  "helper_env \<Rightarrow> string \<Rightarrow> fixed_command \<Rightarrow> nat \<Rightarrow> helper_world \<Rightarrow> unit helper_st" where
  "run_fixed_android_setting_command env name command timeout w =
     (let w1 = w\<lparr>hw_commands := hw_commands w @ [command]\<rparr>
      in case he_child env (length (hw_commands w)) command of
           Inl err \<Rightarrow> (w1, Inl (OsError (err_kind err)
                (''failed to start fixed Android pointer diagnostic cleanup for '' @ name @ '': '' @ err_text err)))
         | Inr child \<Rightarrow>
             (case setting_loop child timeout (cr_delay child 0) 0 of
                (end, elapsed, polls) \<Rightarrow>
                  let w2 = sleep_for elapsed w1
                  in (w2, case end of
                        SettingPollFailed err \<Rightarrow> Inl (OsError (err_kind err)
                          (''failed to poll Android setting cleanup for '' @ name @ '': '' @ err_text err))
                      | SettingTimedOut \<Rightarrow> Inl (OsError TimedOut
                          (''timed out after '' @ show_nat (timeout div 1000000000) @ ''.''
                           @ two_digits (timeout div 10000000) @ '' seconds while disabling Android setting '' @ name))
                      | SettingExited status \<Rightarrow>
                          bind_result (join_android_setting_output (cr_stdout child) name ''stdout'') (\<lambda>out.
                          bind_result (join_android_setting_output (cr_stderr child) name ''stderr'') (\<lambda>err.
                            setting_outcome env name status out err)))))"

definition disable_android_pointer_diagnostics :: "helper_env \<Rightarrow> helper_world \<Rightarrow> unit helper_st" where
  "disable_android_pointer_diagnostics env w =
     andThen (run_fixed_android_setting_command env ''show_touches'' android_show_touches_off_command
                ANDROID_SETTINGS_TIMEOUT w) (\<lambda>w' _.
       run_fixed_android_setting_command env ''pointer_location'' android_pointer_location_off_command
         ANDROID_SETTINGS_TIMEOUT w')"

section \<open>Verifying Android's input\<close>

definition tail_for_error :: "string \<Rightarrow> string" where
  "tail_for_error output =
     (let chars = str_chars output
      in if length chars \<le> 4 * 1024 then output else concat (drop (length chars - 4 * 1024) chars))"

definition dumpsys_lists_input_reader_device :: "string \<Rightarrow> string \<Rightarrow> bool" where
  "dumpsys_lists_input_reader_device dump device_name =
     (case second_part ''Input Reader'' dump of
        Some reader_state \<Rightarrow> str_contains reader_state device_name
      | None \<Rightarrow>
          (case second_part ''InputReader'' dump of
             Some reader_state \<Rightarrow> str_contains reader_state device_name
           | None \<Rightarrow> \<not> str_contains dump ''Event Hub'' \<and> str_contains dump device_name))"

fun wait_for_input_reader :: "helper_env \<Rightarrow> nat \<Rightarrow> string \<Rightarrow> helper_world \<Rightarrow> unit helper_st" where
  "wait_for_input_reader env 0 last_output w =
     (w, Inl (OsError NotFound (''Android InputReader did not register '' @ WROID_TOUCHSCREEN_NAME
                @ ''; the event node is visible but unreadable for system_server (expected host group 1004/AID_INPUT, mode 0660)''
                @ [LF] @ tail_for_error last_output)))"
| "wait_for_input_reader env (Suc n) last_output w =
     andThen (unfreeze_waydroid_for_input_probe env w) (\<lambda>w1 _.
     andThen (run_command env android_dumpsys_input_command w1) (\<lambda>w2 out.
       if es_success (co_status out)
          \<and> dumpsys_lists_input_reader_device (combined_output env out) WROID_TOUCHSCREEN_NAME
       then (w2, Inr ())
       else wait_for_input_reader env n (combined_output env out) (sleep_for ANDROID_INPUT_INTERVAL w2)))"

fun wait_for_input :: "helper_env \<Rightarrow> nat \<Rightarrow> string \<Rightarrow> helper_world \<Rightarrow> unit helper_st" where
  "wait_for_input env 0 last_output w =
     (w, Inl (OsError NotFound (''Android getevent did not list '' @ WROID_TOUCHSCREEN_NAME
                @ ''; device bridge is not active'' @ [LF] @ tail_for_error last_output)))"
| "wait_for_input env (Suc n) last_output w =
     andThen (unfreeze_waydroid_for_input_probe env w) (\<lambda>w1 _.
     andThen (run_command env android_input_probe_command w1) (\<lambda>w2 out.
       if es_success (co_status out) \<and> str_contains (combined_output env out) WROID_TOUCHSCREEN_NAME
       then andThen (wait_for_input_reader env ANDROID_INPUT_ATTEMPTS [] w2) (\<lambda>w3 _.
              disable_android_pointer_diagnostics env w3)
       else wait_for_input env n (combined_output env out) (sleep_for ANDROID_INPUT_INTERVAL w2)))"

definition wait_for_android_input :: "helper_env \<Rightarrow> helper_world \<Rightarrow> unit helper_st" where
  "wait_for_android_input env = wait_for_input env ANDROID_INPUT_ATTEMPTS []"

section \<open>The protocol\<close>

definition READY_LINE :: string where "READY_LINE = ''WROID_BRIDGE_READY 1''"
definition CHECK_LINE :: string where "CHECK_LINE = ''WROID_HELPER_CHECK 1''"
definition CLEANUP_COMMAND :: string where "CLEANUP_COMMAND = ''CLEANUP'' @ [LF]"
definition VERIFY_ANDROID_INPUT_COMMAND :: string where
  "VERIFY_ANDROID_INPUT_COMMAND = ''VERIFY_ANDROID_INPUT'' @ [LF]"
definition ANDROID_INPUT_READY_LINE :: string where "ANDROID_INPUT_READY_LINE = ''WROID_ANDROID_INPUT_READY 1''"
definition MAX_HELPER_COMMAND_BYTES :: nat where "MAX_HELPER_COMMAND_BYTES = 64"

datatype helper_command = HcVerifyAndroidInput | HcCleanup

text \<open>\<open>take(limit).read_until\<close>: a line with its end, or what comes before the limit or the end of the pipe.\<close>

definition pipe_read_until :: "nat \<Rightarrow> byte_pipe \<Rightarrow> byte_pipe \<times> (os_error + string)" where
  "pipe_read_until limit p =
     (let window = take limit (bp_bytes p); line = takeWhile (\<lambda>c. c \<noteq> LF) window
      in if length line < length window
         then (p\<lparr>bp_bytes := drop (Suc (length line)) (bp_bytes p)\<rparr>, Inr (line @ [LF]))
         else if limit \<le> length (bp_bytes p) then (p\<lparr>bp_bytes := drop limit (bp_bytes p)\<rparr>, Inr window)
         else (p\<lparr>bp_bytes := []\<rparr>, case bp_end p of None \<Rightarrow> Inr window | Some err \<Rightarrow> Inl err))"

definition parse_helper_command :: "string \<Rightarrow> os_error + helper_command option" where
  "parse_helper_command command =
     (if command = [] then Inr None
      else if length command > MAX_HELPER_COMMAND_BYTES \<or> last command \<noteq> LF
      then Inl (OsError InvalidInput ''invalid Wroid helper protocol command'')
      else if command = VERIFY_ANDROID_INPUT_COMMAND then Inr (Some HcVerifyAndroidInput)
      else if command = CLEANUP_COMMAND then Inr (Some HcCleanup)
      else Inl (OsError InvalidInput ''invalid Wroid helper protocol command''))"

definition read_helper_command :: "helper_world \<Rightarrow> helper_command option helper_st" where
  "read_helper_command w =
     (case pipe_read_until (MAX_HELPER_COMMAND_BYTES + 1) (hw_stdin w) of
        (p, r) \<Rightarrow> (w\<lparr>hw_stdin := p\<rparr>, bind_result r parse_helper_command))"

text \<open>The loop verifies at most once, so it runs at most twice. \<open>True\<close> is a request to clean up, \<open>False\<close> the end of
  the pipe.\<close>

function serve_helper_protocol ::
  "(helper_world \<Rightarrow> unit helper_st) \<Rightarrow> bool \<Rightarrow> helper_world \<Rightarrow> bool helper_st" where
  "serve_helper_protocol verify_android_input verified w =
     (case read_helper_command w of
        (w1, Inl err) \<Rightarrow> (w1, Inl err)
      | (w1, Inr None) \<Rightarrow> (w1, Inr False)
      | (w1, Inr (Some HcCleanup)) \<Rightarrow> (w1, Inr True)
      | (w1, Inr (Some HcVerifyAndroidInput)) \<Rightarrow>
          if verified then (w1, Inl (OsError InvalidInput ''Android input verification was already requested''))
          else andThen (verify_android_input w1) (\<lambda>w2 _.
               andThen (write_line ANDROID_INPUT_READY_LINE w2) (\<lambda>w3 _.
                 serve_helper_protocol verify_android_input True w3)))"
  by pat_completeness auto
termination
  by (relation "measure (\<lambda>(verify, verified, w). if verified then 0 else 1)") auto

declare serve_helper_protocol.simps [simp del]

section \<open>Lending the node to Android\<close>

definition ANDROID_INPUT_GID :: u32 where "ANDROID_INPUT_GID = 1004"
definition ANDROID_INPUT_MODE :: u32 where "ANDROID_INPUT_MODE = 432" \<comment> \<open>0o660\<close>

definition validate_wroid_touchscreen_node ::
  "helper_env \<Rightarrow> input_device_node \<Rightarrow> helper_world \<Rightarrow> unit helper_st" where
  "validate_wroid_touchscreen_node env node w =
     (let t = hw_checks w; w' = w\<lparr>hw_checks := Suc t\<rparr>
      in (w', case path_file_name (nd_path node) of
           None \<Rightarrow> Inl (OsError InvalidInput ''invalid event node name'')
         | Some event_name \<Rightarrow>
             (case he_sysfs env t (''/sys/class/input/'' @ event_name @ ''/device'') of
                Inl err \<Rightarrow> Inl (OsError (err_kind err) (''failed to resolve sysfs identity for '' @ nd_path node
                             @ '': '' @ err_text err))
              | Inr sysfs_path \<Rightarrow>
                  (case he_device env t (nd_path node) of
                     Inl err \<Rightarrow> Inl (OsError (err_kind err) (''failed to inspect candidate Wroid touchscreen ''
                                  @ nd_path node @ '': '' @ err_text err))
                   | Inr d \<Rightarrow> validate_touchscreen_identity (di_name d) (di_bus d) (di_vendor d) (di_product d)
                                sysfs_path))))"

text \<open>\<open>AndroidInputAccess\<close>: the ownership the open node had.\<close>

record input_access =
  ia_uid :: u32
  ia_gid :: u32
  ia_mode :: u32

definition access_set :: "u32 \<Rightarrow> u32 \<Rightarrow> u32 \<Rightarrow> helper_world \<Rightarrow> unit helper_st" where
  "access_set uid gid mode w =
     andThen (sys_call (\<lambda>w. w\<lparr>hw_inode := (hw_inode w)\<lparr>ei_uid := uid, ei_gid := gid\<rparr>\<rparr>) w) (\<lambda>w' _.
       sys_call (\<lambda>w. w\<lparr>hw_inode := (hw_inode w)\<lparr>ei_mode := mode\<rparr>\<rparr>) w')"

definition access_restore :: "input_access \<Rightarrow> helper_world \<Rightarrow> unit helper_st" where
  "access_restore a = access_set (ia_uid a) (ia_gid a) (ia_mode a)"

text \<open>Opening the node, reading its metadata and handing it over; a guard that could not hand it over restores it
  when it is dropped.\<close>

definition access_prepare :: "helper_env \<Rightarrow> input_device_node \<Rightarrow> helper_world \<Rightarrow> input_access helper_st" where
  "access_prepare env node w =
     andThen (validate_wroid_touchscreen_node env node w) (\<lambda>w1 _.
     andThen (sys_call id w1) (\<lambda>w2 _.
     andThen (sys_call id w2) (\<lambda>w3 _.
       let a = \<lparr>ia_uid = ei_uid (hw_inode w3), ia_gid = ei_gid (hw_inode w3), ia_mode = and (ei_mode (hw_inode w3)) 4095\<rparr>
       in case access_set (ia_uid a) ANDROID_INPUT_GID ANDROID_INPUT_MODE w3 of
            (w4, Inr _) \<Rightarrow> (w4, Inr a)
          | (w4, Inl err) \<Rightarrow> (fst (access_restore a w4), Inl err))))"

definition access_cleanup :: "input_access \<Rightarrow> helper_world \<Rightarrow> unit helper_st" where
  "access_cleanup a w =
     (case access_restore a w of
        (w1, Inr _) \<Rightarrow> (w1, Inr ())
      | (w1, Inl err) \<Rightarrow> (fst (access_restore a w1), Inl err))"

section \<open>The helper's run\<close>

definition assume_full_root_identity :: "helper_world \<Rightarrow> unit helper_st" where
  "assume_full_root_identity w =
     andThen (sys_call id w) (\<lambda>w _. andThen (sys_call id w) (\<lambda>w _. sys_call id w))"

definition ensure_root :: "helper_env \<Rightarrow> string \<Rightarrow> os_error + unit" where
  "ensure_root env tool_name =
     (case he_euid env of
        Inl err \<Rightarrow> Inl err
      | Inr uid \<Rightarrow> if uid \<noteq> 0 then Inl (OsError PermissionDenied (tool_name @ '' requires root; run it with sudo''))
                   else Inr ())"

definition acquire_default_lease :: "helper_env \<Rightarrow> string \<Rightarrow> helper_world \<Rightarrow> unit helper_st" where
  "acquire_default_lease env owner w =
     andThen (sys_call id w) (\<lambda>w _.
     andThen (sys_call id w) (\<lambda>w _.
       case acquire_lease ''the Waydroid input bridge'' (\<lambda>n. show_nat (unat n)) (he_pid env) owner (hw_lease w) of
         (lf, r) \<Rightarrow> (w\<lparr>hw_lease := lf\<rparr>, r)))"

definition pid_text :: "helper_env \<Rightarrow> string" where
  "pid_text env = show_nat (unat (he_pid env))"

definition combine_bridge_cleanup_results :: "os_error + unit \<Rightarrow> os_error + unit \<Rightarrow> os_error + unit" where
  "combine_bridge_cleanup_results =
     both_results (\<lambda>a b. ''bridge cleanup failed: '' @ a @ ''; input node access restore also failed: '' @ b)"

definition combine_helper_cleanup_results :: "os_error + unit \<Rightarrow> os_error + unit \<Rightarrow> os_error + unit" where
  "combine_helper_cleanup_results =
     both_results (\<lambda>a b. ''Waydroid recovery stop failed: '' @ a @ ''; bridge cleanup also failed: '' @ b)"

definition helper_result :: "os_error + bool \<Rightarrow> os_error + unit \<Rightarrow> os_error + unit" where
  "helper_result protocol_result cleanup_result =
     (case (protocol_result, cleanup_result) of
        (Inr _, r) \<Rightarrow> r
      | (Inl p, Inr _) \<Rightarrow> Inl p
      | (Inl p, Inl c) \<Rightarrow> Inl (OsError OtherKind (''helper protocol failed: '' @ err_text p
                                @ ''; cleanup also failed: '' @ err_text c)))"

definition finish_helper ::
  "helper_env \<Rightarrow> installed_bridge \<Rightarrow> input_access \<Rightarrow> bool helper_st \<Rightarrow> unit helper_st" where
  "finish_helper env ib a served =
     (case served of (w, protocol_result) \<Rightarrow>
      case (if protocol_result = Inr True then (w, Inr ()) else force_stop_waydroid_container env w) of
        (w1, stop_result) \<Rightarrow>
      case on_disk (cleanup_bridge (he_utf8 env) (pid_text env) ib) w1 of (w2, bridge_result) \<Rightarrow>
      case access_cleanup a w2 of (w3, access_result) \<Rightarrow>
        (w3, helper_result protocol_result
               (combine_helper_cleanup_results stop_result
                 (combine_bridge_cleanup_results bridge_result access_result))))"

definition bridge_session ::
  "helper_env \<Rightarrow> input_device_node \<Rightarrow> input_access \<Rightarrow> helper_world \<Rightarrow> unit helper_st" where
  "bridge_session env node a w =
     (case on_disk (install_bridge (he_utf8 env) (pid_text env) default_bridge_paths node (cgroup_detect (he_unified env))) w of
        (w1, Inl err) \<Rightarrow> (fst (access_restore a w1), Inl err)
      | (w1, Inr ib) \<Rightarrow>
          (case write_line READY_LINE w1 of
             (w2, Inl err) \<Rightarrow>
               (fst (access_restore a (fst (on_disk (restore_bridge (he_utf8 env) (pid_text env) ib) w2))), Inl err)
           | (w2, Inr _) \<Rightarrow>
               finish_helper env ib a (serve_helper_protocol (wait_for_android_input env) False w2)))"

definition run_leased :: "helper_env \<Rightarrow> string \<Rightarrow> helper_world \<Rightarrow> unit helper_st" where
  "run_leased env event_node w =
     andThen (wait_for_container_stopped env w) (\<lambda>w _.
     andThen (on_disk (remove_bridge (he_utf8 env) (pid_text env) default_bridge_paths) w) (\<lambda>w _.
       case node_from_path (he_stat env) event_node of
         Inl err \<Rightarrow> (w, Inl err)
       | Inr node \<Rightarrow>
           andThen (validate_wroid_touchscreen_node env node w) (\<lambda>w _.
           andThen (settle_wroid_input_udev env w) (\<lambda>w _.
           andThen (validate_wroid_touchscreen_node env node w) (\<lambda>w _.
           andThen (access_prepare env node w) (\<lambda>w a. bridge_session env node a w))))))"

definition run_privileged_bridge_helper :: "helper_env \<Rightarrow> string \<Rightarrow> helper_world \<Rightarrow> unit helper_st" where
  "run_privileged_bridge_helper env event_node w =
     (case ensure_root env ''Wroid privileged input bridge helper'' of
        Inl err \<Rightarrow> (w, Inl err)
      | Inr _ \<Rightarrow>
          andThen (assume_full_root_identity w) (\<lambda>w _.
          andThen (acquire_default_lease env ''privileged bridge helper'' w) (\<lambda>w _.
            case run_leased env event_node w of
              (w', r) \<Rightarrow> (w'\<lparr>hw_lease := release_lease (hw_lease w')\<rparr>, r))))"

definition run_privileged_bridge_helper_check :: "helper_env \<Rightarrow> helper_world \<Rightarrow> unit helper_st" where
  "run_privileged_bridge_helper_check env w =
     (case ensure_root env ''Wroid privileged input bridge helper'' of
        Inl err \<Rightarrow> (w, Inl err)
      | Inr _ \<Rightarrow> andThen (assume_full_root_identity w) (\<lambda>w _. write_line CHECK_LINE w))"

section \<open>Which helper may be run\<close>

definition helper_metadata_is_safe :: "bool \<Rightarrow> u32 \<Rightarrow> u32 \<Rightarrow> bool \<Rightarrow> u32 \<Rightarrow> u32 \<Rightarrow> bool" where
  "helper_metadata_is_safe file_is_regular file_uid file_mode parent_is_directory parent_uid parent_mode \<longleftrightarrow>
     file_is_regular \<and> file_uid = 0 \<and> and file_mode 4095 = 2536 \<comment> \<open>0o4750\<close>
     \<and> parent_is_directory \<and> parent_uid = 0 \<and> and parent_mode 18 = 0 \<comment> \<open>0o022\<close>"

definition MAX_STAGED_HELPER_BYTES :: u64 where "MAX_STAGED_HELPER_BYTES = 64 * 1024 * 1024"

record file_metadata =
  fm_regular :: bool
  fm_directory :: bool
  fm_uid :: u32
  fm_mode :: u32
  fm_nlink :: u64
  fm_len :: u64

definition staged_metadata_is_valid :: "u32 \<Rightarrow> file_metadata \<Rightarrow> bool" where
  "staged_metadata_is_valid expected_uid m \<longleftrightarrow>
     fm_regular m \<and> fm_uid m = expected_uid \<and> and (fm_mode m) 4095 = 365 \<comment> \<open>0o555\<close>
     \<and> fm_nlink m = 1 \<and> fm_len m \<le> MAX_STAGED_HELPER_BYTES"

definition validate_staged_helper_release :: "os_error + file_metadata \<Rightarrow> string \<Rightarrow> u32 \<Rightarrow> os_error + unit" where
  "validate_staged_helper_release opened path expected_uid =
     (case opened of
        Inl err \<Rightarrow> Inl (OsError (err_kind err)
                     (''cannot open paired staged Wroid helper '' @ path @ '': '' @ err_text err))
      | Inr m \<Rightarrow>
          if staged_metadata_is_valid expected_uid m then Inr ()
          else Inl (OsError PermissionDenied
             (''paired staged Wroid helper must be a current-user-owned, single-link mode 0555 regular file no larger than 64 MiB: ''
              @ path)))"

text \<open>An open file: its length and what reading it delivers, read by read.\<close>

record release_file =
  rf_len :: u64
  rf_reads :: "(os_error + string) list"

fun reads_match :: "(os_error + string) list \<Rightarrow> (os_error + string) list \<Rightarrow> os_error + bool" where
  "reads_match (Inl err # _) _ = Inl err"
| "reads_match _ (Inl err # _) = Inl err"
| "reads_match [] [] = Inr True"
| "reads_match [] (Inr b # _) = Inr (b = [])"
| "reads_match (Inr a # _) [] = Inr (a = [])"
| "reads_match (Inr a # as) (Inr b # bs) =
     (if a \<noteq> b then Inr False else if a = [] then Inr True else reads_match as bs)"

definition release_files_match :: "os_error + release_file \<Rightarrow> os_error + release_file \<Rightarrow> os_error + bool" where
  "release_files_match installed staged =
     bind_result installed (\<lambda>i. bind_result staged (\<lambda>s.
       if rf_len i > MAX_STAGED_HELPER_BYTES \<or> rf_len s > MAX_STAGED_HELPER_BYTES
       then Inl (OsError InvalidData ''Wroid helper release exceeds the 64 MiB safety limit'')
       else if rf_len i \<noteq> rf_len s then Inr False
       else reads_match (rf_reads i) (rf_reads s)))"

end
