(* ===== verification/HelperClient.thy ===== *)
theory HelperClient
  imports Helper
begin

text \<open>
  The unprivileged side of the helper, \<^verbatim>\<open>wroid-inject/src/privileged_bridge.rs\<close>: which installed helper is
  trusted, and \<open>PrivilegedBridgeHelper\<close>, the guard that starts it, asks it to verify Android's input and ends it.
\<close>

section \<open>Trusting an installed helper\<close>

definition DEFAULT_PRIVILEGED_BRIDGE_HELPER :: string where
  "DEFAULT_PRIVILEGED_BRIDGE_HELPER = ''/usr/lib/wroid/wroid-helper''"

text \<open>\<open>probed\<close> is what running the helper with \<^verbatim>\<open>--check\<close> gives.\<close>

definition probe_privileged_bridge_helper :: "(string \<Rightarrow> string) \<Rightarrow> os_error + command_output \<Rightarrow> os_error + unit" where
  "probe_privileged_bridge_helper lossy probed =
     (case probed of
        Inl err \<Rightarrow> Inl (OsError (err_kind err) (''failed to execute Wroid bridge helper check: '' @ err_text err))
      | Inr out \<Rightarrow>
          if es_success (co_status out) \<and> trim (lossy (co_stdout out)) = CHECK_LINE then Inr ()
          else Inl (OsError PermissionDenied (''Wroid bridge helper setuid check failed ('' @ es_text (co_status out)
                      @ ''): '' @ trim (lossy (co_stderr out)))))"

definition validate_installed_bridge_helper ::
  "(string \<Rightarrow> os_error + file_metadata) \<Rightarrow> (string \<Rightarrow> string) \<Rightarrow> (string \<Rightarrow> os_error + command_output)
     \<Rightarrow> string \<Rightarrow> os_error + unit" where
  "validate_installed_bridge_helper lstat lossy probe path =
     (case lstat path of
        Inl err \<Rightarrow> Inl (OsError (err_kind err)
                     (''cannot inspect installed Wroid bridge helper '' @ path @ '': '' @ err_text err))
      | Inr m \<Rightarrow>
          (case path_parent path of
             None \<Rightarrow> Inl (OsError InvalidInput ''installed bridge helper path has no parent'')
           | Some dir \<Rightarrow>
               bind_result (lstat (path_text dir)) (\<lambda>d.
                 if \<not> helper_metadata_is_safe (fm_regular m) (fm_uid m) (fm_mode m) (fm_directory d) (fm_uid d) (fm_mode d)
                 then Inl (OsError PermissionDenied (''refusing unsafe Wroid bridge helper '' @ path
                        @ ''; it must be root-owned mode 4750 and '' @ path_text dir
                        @ '' must be root-owned and non-writable''))
                 else probe_privileged_bridge_helper lossy (probe path))))"

text \<open>\<open>BridgeHelperCommand\<close> is the path of the executable.\<close>

definition command_production ::
  "(string \<Rightarrow> os_error + file_metadata) \<Rightarrow> (string \<Rightarrow> string) \<Rightarrow> (string \<Rightarrow> os_error + command_output)
     \<Rightarrow> os_error + string" where
  "command_production lstat lossy probe =
     bind_result (validate_installed_bridge_helper lstat lossy probe DEFAULT_PRIVILEGED_BRIDGE_HELPER)
       (\<lambda>_. Inr DEFAULT_PRIVILEGED_BRIDGE_HELPER)"

definition command_production_release ::
  "(string \<Rightarrow> os_error + file_metadata) \<Rightarrow> (string \<Rightarrow> string) \<Rightarrow> (string \<Rightarrow> os_error + command_output)
     \<Rightarrow> (string \<Rightarrow> os_error + file_metadata) \<Rightarrow> (string \<Rightarrow> os_error + release_file) \<Rightarrow> string \<Rightarrow> u32 \<Rightarrow> os_error + string" where
  "command_production_release lstat lossy probe fstat open_file staged expected_uid =
     bind_result (validate_staged_helper_release (fstat staged) staged expected_uid) (\<lambda>_.
     bind_result (release_files_match (open_file DEFAULT_PRIVILEGED_BRIDGE_HELPER) (open_file staged)) (\<lambda>same.
       if \<not> same
       then Inl (OsError PermissionDenied ''installed Wroid helper differs from the paired staged release'')
       else bind_result (validate_installed_bridge_helper lstat lossy probe DEFAULT_PRIVILEGED_BRIDGE_HELPER)
              (\<lambda>_. Inr DEFAULT_PRIVILEGED_BRIDGE_HELPER)))"

definition helper_arguments :: "string \<Rightarrow> string list" where
  "helper_arguments event_node = [''--event-node'', event_node]"

section \<open>The running helper\<close>

text \<open>\<open>PrivilegedBridgeHelper\<close>: whether its standard input is still open and what was written to it, what is left of
  its output, and how the next writes to it end.\<close>

record bridge_helper =
  bh_stdin :: bool
  bh_sent :: string
  bh_stdout :: byte_pipe
  bh_faults :: "os_error option list"
  bh_active :: bool
  bh_waits :: nat

definition helper_write :: "string \<Rightarrow> bridge_helper \<Rightarrow> (bridge_helper, os_error, unit) st" where
  "helper_write bytes h =
     (case bh_faults h of
        Some err # rest \<Rightarrow> (h\<lparr>bh_faults := rest\<rparr>, Inl err)
      | None # rest \<Rightarrow> (h\<lparr>bh_faults := rest, bh_sent := bh_sent h @ bytes\<rparr>, Inr ())
      | [] \<Rightarrow> (h\<lparr>bh_sent := bh_sent h @ bytes\<rparr>, Inr ()))"

definition helper_wait :: "bridge_helper \<Rightarrow> bridge_helper" where
  "helper_wait h = h\<lparr>bh_stdin := False, bh_waits := Suc (bh_waits h)\<rparr>"

definition pipe_read_line :: "(string \<Rightarrow> bool) \<Rightarrow> byte_pipe \<Rightarrow> byte_pipe \<times> (os_error + string)" where
  "pipe_read_line utf8 p =
     (case pipe_read_until (Suc (length (bp_bytes p))) p of
        (p', Inl err) \<Rightarrow> (p', Inl err)
      | (p', Inr line) \<Rightarrow> (p', if utf8 line then Inr line
                             else Inl (OsError InvalidData ''stream did not contain valid UTF-8'')))"

text \<open>\<open>exited\<close> is what waiting for the child gives.\<close>

definition helper_start ::
  "(string \<Rightarrow> bool) \<Rightarrow> os_error + byte_pipe \<Rightarrow> os_error + exit_status \<Rightarrow> os_error option list \<Rightarrow> os_error + bridge_helper" where
  "helper_start utf8 spawned exited faults =
     (case spawned of
        Inl err \<Rightarrow> Inl (OsError (err_kind err) (''failed to start the Wroid privileged bridge helper: '' @ err_text err))
      | Inr out \<Rightarrow>
          (case pipe_read_line utf8 out of
             (out', Inl err) \<Rightarrow> Inl err
           | (out', Inr ready) \<Rightarrow>
               if trim_end ready \<noteq> READY_LINE
               then bind_result exited (\<lambda>status.
                      Inl (OsError OtherKind (''privileged bridge helper did not become ready (exit '' @ es_text status @ '')'')))
               else Inr \<lparr>bh_stdin = True, bh_sent = [], bh_stdout = out', bh_faults = faults, bh_active = True,
                         bh_waits = 0\<rparr>))"

definition request_android_input_verification :: "bridge_helper \<Rightarrow> (bridge_helper, os_error, unit) st" where
  "request_android_input_verification h =
     andThen (helper_write VERIFY_ANDROID_INPUT_COMMAND h) (\<lambda>h1 _.
       case pipe_read_until (MAX_HELPER_COMMAND_BYTES + 1) (bh_stdout h1) of
         (out, r) \<Rightarrow>
           (h1\<lparr>bh_stdout := out\<rparr>,
            bind_result r (\<lambda>reply.
              if reply = ANDROID_INPUT_READY_LINE @ [LF] then Inr ()
              else Inl (OsError InvalidData ''privileged bridge helper did not verify the Android input device''))))"

definition helper_verify :: "bridge_helper \<Rightarrow> (bridge_helper, os_error, unit) st" where
  "helper_verify h =
     (if \<not> bh_stdin h then (h, Inl (OsError BrokenPipe ''bridge helper stdin pipe is unavailable''))
      else request_android_input_verification h)"

definition helper_drop :: "bridge_helper \<Rightarrow> bridge_helper" where
  "helper_drop h = (if bh_active h then helper_wait h else h)"

text \<open>\<open>finish\<close> consumes the guard, so every early return drops it.\<close>

definition helper_finish :: "os_error + exit_status \<Rightarrow> bool \<Rightarrow> bridge_helper \<Rightarrow> (bridge_helper, os_error, unit) st" where
  "helper_finish exited waydroid_stopped h =
     (case (if waydroid_stopped \<and> bh_stdin h then helper_write CLEANUP_COMMAND h else (h, Inr ())) of
        (h1, Inl err) \<Rightarrow> (helper_drop h1, Inl err)
      | (h1, Inr _) \<Rightarrow>
          let h2 = helper_wait h1
          in (case exited of
                Inl err \<Rightarrow> (helper_drop h2, Inl err)
              | Inr status \<Rightarrow>
                  (helper_drop (h2\<lparr>bh_active := False\<rparr>),
                   if es_success status then Inr ()
                   else Inl (OsError OtherKind (''privileged bridge helper exited with '' @ es_text status)))))"

end
