(* ===== verification/Broker.thy ===== *)
theory Broker
  imports HelperClient
begin

text \<open>
  The bridge broker, \<^verbatim>\<open>wroid-inject/src/bridge_broker.rs\<close>: a game worker asks the daemon over an inherited socket
  to open the bridge, to verify it and to finish it. One JSON object per line each way; the codec is \<open>serde_json\<close>'s,
  a parameter. The socket delivers what each read returns together with the time it is there, in nanoseconds.
\<close>

section \<open>Frames\<close>

datatype client_state = ClientInitial | ClientOpened | ClientVerified
datatype server_state = ServerInitial | ServerOpened | ServerVerified

datatype bridge_request = BrOpen string | BrVerifyAndroidInput | BrFinish bool

record request_frame =
  rq_version :: u32
  rq_request :: bridge_request

datatype bridge_response = BrOpened | BrAndroidInputReady | BrFinished | BrError string string

record response_frame =
  rs_version :: u32
  rs_response :: bridge_response

definition BRIDGE_PROTOCOL_VERSION :: u32 where "BRIDGE_PROTOCOL_VERSION = 1"
definition MAX_BRIDGE_FRAME_BYTES :: nat where "MAX_BRIDGE_FRAME_BYTES = 4096"
definition INITIAL_OPEN_TIMEOUT :: nat where "INITIAL_OPEN_TIMEOUT = 120000000000"
definition VERIFY_REQUEST_TIMEOUT :: nat where "VERIFY_REQUEST_TIMEOUT = 120000000000"
definition CLIENT_RESPONSE_TIMEOUT :: nat where "CLIENT_RESPONSE_TIMEOUT = 125000000000"
definition MAX_ERROR_DETAIL_CHARS :: nat where "MAX_ERROR_DETAIL_CHARS = 512"

record codec =
  cd_print_request :: "request_frame \<Rightarrow> string"
  cd_parse_request :: "string \<Rightarrow> os_error + request_frame"
  cd_print_response :: "response_frame \<Rightarrow> string"
  cd_parse_response :: "string \<Rightarrow> os_error + response_frame"

text \<open>The socket: the bytes read ahead, what the next reads return and when, the clock; the bytes sent, and how the
  next writes end. A read of no bytes is the end of the stream; after the last one nothing comes.\<close>

record channel =
  ch_buffer :: string
  ch_arrivals :: "(nat \<times> (os_error + string)) list"
  ch_now :: nat
  ch_sent :: string
  ch_faults :: "os_error option list"

section \<open>Writing\<close>

definition channel_write :: "string \<Rightarrow> channel \<Rightarrow> (channel, os_error, unit) st" where
  "channel_write bytes ch =
     (case ch_faults ch of
        Some err # rest \<Rightarrow> (ch\<lparr>ch_faults := rest\<rparr>, Inl err)
      | None # rest \<Rightarrow> (ch\<lparr>ch_faults := rest, ch_sent := ch_sent ch @ bytes\<rparr>, Inr ())
      | [] \<Rightarrow> (ch\<lparr>ch_sent := ch_sent ch @ bytes\<rparr>, Inr ()))"

definition write_frame :: "('f \<Rightarrow> string) \<Rightarrow> 'f \<Rightarrow> channel \<Rightarrow> (channel, os_error, unit) st" where
  "write_frame print frame ch =
     (let bytes = print frame @ [LF]
      in if length bytes > MAX_BRIDGE_FRAME_BYTES
         then (ch, Inl (OsError InvalidData ''bridge protocol frame exceeds 4096 bytes''))
         else channel_write bytes ch)"

definition broker_write_response :: "codec \<Rightarrow> bridge_response \<Rightarrow> channel \<Rightarrow> (channel, os_error, unit) st" where
  "broker_write_response cd response =
     write_frame (cd_print_response cd) \<lparr>rs_version = BRIDGE_PROTOCOL_VERSION, rs_response = response\<rparr>"

definition broker_write_error :: "codec \<Rightarrow> string \<Rightarrow> string \<Rightarrow> channel \<Rightarrow> (channel, os_error, unit) st" where
  "broker_write_error cd code detail =
     broker_write_response cd (BrError code (concat (take MAX_ERROR_DETAIL_CHARS (str_chars detail))))"

section \<open>Reading\<close>

datatype 'a reading = Got 'a | ReadFailed os_error | ReadWaits

text \<open>\<open>fill_buf\<close> under a read timeout that ends at \<open>deadline\<close>.\<close>

definition fill_buf :: "nat option \<Rightarrow> channel \<Rightarrow> channel \<times> string reading" where
  "fill_buf deadline ch =
     (if ch_buffer ch \<noteq> [] then (ch, Got (ch_buffer ch))
      else let late = (\<lambda>t. case deadline of None \<Rightarrow> False | Some d \<Rightarrow> d < t);
               timeout = (ch\<lparr>ch_now := (case deadline of None \<Rightarrow> ch_now ch | Some d \<Rightarrow> d)\<rparr>,
                          ReadFailed (OsError WouldBlockKind ''Resource temporarily unavailable''))
           in case ch_arrivals ch of
                [] \<Rightarrow> (case deadline of None \<Rightarrow> (ch, ReadWaits) | Some _ \<Rightarrow> timeout)
              | (t, r) # rest \<Rightarrow>
                  if late t then timeout
                  else let ch' = ch\<lparr>ch_arrivals := rest, ch_now := max (ch_now ch) t\<rparr>
                       in (case r of Inl err \<Rightarrow> (ch', ReadFailed err)
                           | Inr chunk \<Rightarrow> (ch'\<lparr>ch_buffer := chunk\<rparr>, Got chunk)))"

text \<open>The timeout of the next read: none without a deadline; a deadline that has passed is an error, and so is a
  timeout of zero.\<close>

definition check_deadline :: "nat option \<Rightarrow> channel \<Rightarrow> os_error option" where
  "check_deadline deadline ch =
     (case deadline of
        None \<Rightarrow> None
      | Some d \<Rightarrow>
          if d < ch_now ch then Some (OsError TimedOut ''bridge protocol deadline expired'')
          else if d = ch_now ch then Some (OsError InvalidInput ''cannot set a 0 duration timeout'')
          else None)"

function read_bytes :: "nat option \<Rightarrow> string \<Rightarrow> channel \<Rightarrow> channel \<times> string reading" where
  "read_bytes deadline bytes ch =
     (case check_deadline deadline ch of
        Some err \<Rightarrow> (ch, ReadFailed err)
      | None \<Rightarrow>
          (case fill_buf deadline ch of
             (ch1, ReadFailed err) \<Rightarrow> (ch1, ReadFailed err)
           | (ch1, ReadWaits) \<Rightarrow> (ch1, ReadWaits)
           | (ch1, Got available) \<Rightarrow>
               if available = [] then (ch1, Got bytes)
               else let line = takeWhile (\<lambda>c. c \<noteq> LF) available;
                        newline = length line < length available;
                        count = (if newline then Suc (length line) else length available);
                        bytes' = bytes @ take count available;
                        ch2 = ch1\<lparr>ch_buffer := drop count available\<rparr>
                    in if length bytes' > MAX_BRIDGE_FRAME_BYTES \<or> newline then (ch2, Got bytes')
                       else read_bytes deadline bytes' ch2))"
  by pat_completeness auto
termination
  by (relation "measure (\<lambda>(deadline, bytes, ch). 2 * length (ch_arrivals ch) + (if ch_buffer ch = [] then 0 else 1))")
    (auto simp: fill_buf_def Let_def split: if_splits option.splits list.splits sum.splits)

declare read_bytes.simps [simp del]

definition read_frame_until :: "(string \<Rightarrow> os_error + 'f) \<Rightarrow> nat option \<Rightarrow> channel \<Rightarrow> channel \<times> 'f option reading" where
  "read_frame_until parse deadline ch =
     (case read_bytes deadline [] ch of
        (ch', ReadFailed err) \<Rightarrow> (ch', ReadFailed err)
      | (ch', ReadWaits) \<Rightarrow> (ch', ReadWaits)
      | (ch', Got bytes) \<Rightarrow>
          (ch', if bytes = [] then Got None
                else if length bytes > MAX_BRIDGE_FRAME_BYTES \<or> last bytes \<noteq> LF
                then ReadFailed (OsError InvalidData ''invalid or oversized bridge protocol frame'')
                else case parse (butlast bytes) of
                       Inl err \<Rightarrow> ReadFailed (OsError InvalidData (err_text err))
                     | Inr frame \<Rightarrow> Got (Some frame)))"

definition read_required_frame_until :: "(string \<Rightarrow> os_error + 'f) \<Rightarrow> nat option \<Rightarrow> channel \<Rightarrow> channel \<times> 'f reading" where
  "read_required_frame_until parse deadline ch =
     (case read_frame_until parse deadline ch of
        (ch', Got (Some frame)) \<Rightarrow> (ch', Got frame)
      | (ch', Got None) \<Rightarrow> (ch', ReadFailed (OsError UnexpectedEof ''bridge protocol peer closed before replying''))
      | (ch', ReadFailed err) \<Rightarrow> (ch', ReadFailed err)
      | (ch', ReadWaits) \<Rightarrow> (ch', ReadWaits))"

section \<open>The server\<close>

definition valid_event_node_path :: "string \<Rightarrow> bool" where
  "valid_event_node_path path \<longleftrightarrow>
     path_parent path = Some (path_components ''/dev/input'')
     \<and> (case path_file_name path of
          None \<Rightarrow> False
        | Some name \<Rightarrow>
            (case strip_prefix ''event'' name of
               None \<Rightarrow> False
             | Some suf \<Rightarrow> suf \<noteq> [] \<and> parse_unsigned (2 ^ 32) suf \<noteq> None))"

text \<open>The helper session behind the broker: what each call on it answers, and the calls so far.\<close>

datatype helper_call = CallStart string | CallVerify | CallFinish bool | CallDrop

record broker_env =
  be_codec :: codec
  be_start :: "string \<Rightarrow> os_error + unit"
  be_verify :: "os_error + unit"
  be_finish :: "bool \<Rightarrow> os_error + unit"

record broker =
  bk_channel :: channel
  bk_helper :: bool
  bk_calls :: "helper_call list"

datatype broker_end = BrokerDone "os_error + unit" | BrokerWaits

definition call_helper :: "helper_call \<Rightarrow> broker \<Rightarrow> broker" where
  "call_helper c bk = bk\<lparr>bk_calls := bk_calls bk @ [c]\<rparr>"

definition on_channel :: "(channel \<Rightarrow> channel \<times> 'a) \<Rightarrow> broker \<Rightarrow> broker \<times> 'a" where
  "on_channel f bk = (case f (bk_channel bk) of (ch, r) \<Rightarrow> (bk\<lparr>bk_channel := ch\<rparr>, r))"

text \<open>An error is written, if it can be, and returned.\<close>

definition refuse :: "broker_env \<Rightarrow> string \<Rightarrow> os_error \<Rightarrow> broker \<Rightarrow> broker \<times> broker_end" where
  "refuse env code err bk =
     (fst (on_channel (broker_write_error (be_codec env) code (err_text err)) bk), BrokerDone (Inl err))"

definition respond :: "broker_env \<Rightarrow> bridge_response \<Rightarrow> broker \<Rightarrow> (broker, os_error, unit) st" where
  "respond env response = on_channel (broker_write_response (be_codec env) response)"

fun server_rank :: "server_state \<Rightarrow> nat" where
  "server_rank ServerInitial = 2"
| "server_rank ServerOpened = 1"
| "server_rank ServerVerified = 0"

function serve_loop :: "broker_env \<Rightarrow> server_state \<Rightarrow> nat option \<Rightarrow> broker \<Rightarrow> broker \<times> broker_end" where
  "serve_loop env state deadline bk =
     (case on_channel (read_frame_until (cd_parse_request (be_codec env)) deadline) bk of
        (bk1, ReadWaits) \<Rightarrow> (bk1, BrokerWaits)
      | (bk1, ReadFailed err) \<Rightarrow> refuse env ''invalid_frame'' err bk1
      | (bk1, Got None) \<Rightarrow> (bk1, BrokerDone (Inr ()))
      | (bk1, Got (Some frame)) \<Rightarrow>
          if rq_version frame \<noteq> BRIDGE_PROTOCOL_VERSION
          then refuse env ''version_mismatch''
                 (OsError InvalidData ''bridge broker request protocol version mismatch'') bk1
          else (case (state, rq_request frame) of
             (ServerInitial, BrOpen event_node) \<Rightarrow>
               if \<not> valid_event_node_path event_node
               then refuse env ''invalid_event_node'' (OsError PermissionDenied
                      ''bridge event node must be an absolute /dev/input/eventN path'') bk1
               else (let bk2 = call_helper (CallStart event_node) bk1
                     in case be_start env event_node of
                          Inl err \<Rightarrow> refuse env ''helper_start_failed'' err bk2
                        | Inr _ \<Rightarrow>
                            (case respond env BrOpened (bk2\<lparr>bk_helper := True\<rparr>) of
                               (bk3, Inl err) \<Rightarrow> (bk3, BrokerDone (Inl err))
                             | (bk3, Inr _) \<Rightarrow>
                                 serve_loop env ServerOpened (Some (ch_now (bk_channel bk3) + VERIFY_REQUEST_TIMEOUT)) bk3))
           | (ServerOpened, BrVerifyAndroidInput) \<Rightarrow>
               (let bk2 = call_helper CallVerify bk1
                in case be_verify env of
                     Inl err \<Rightarrow> refuse env ''android_verify_failed'' err bk2
                   | Inr _ \<Rightarrow>
                       (case respond env BrAndroidInputReady bk2 of
                          (bk3, Inl err) \<Rightarrow> (bk3, BrokerDone (Inl err))
                        | (bk3, Inr _) \<Rightarrow> serve_loop env ServerVerified None bk3))
           | (ServerVerified, BrFinish waydroid_stopped) \<Rightarrow>
               (let bk2 = (call_helper (CallFinish waydroid_stopped) bk1)\<lparr>bk_helper := False\<rparr>
                in case be_finish env waydroid_stopped of
                     Inl err \<Rightarrow> refuse env ''helper_finish_failed'' err bk2
                   | Inr _ \<Rightarrow>
                       (case respond env BrFinished bk2 of (bk3, r) \<Rightarrow> (bk3, BrokerDone r)))
           | _ \<Rightarrow> refuse env ''invalid_state''
                   (OsError InvalidInput ''bridge broker request is invalid in the current state'') bk1))"
  by pat_completeness auto
termination
  by (relation "measure (\<lambda>(env, state, deadline, bk). server_rank state)") auto

declare serve_loop.simps [simp del]

text \<open>Returning drops a helper that is still there; a broker that waits keeps it.\<close>

definition serve_bridge_broker :: "broker_env \<Rightarrow> broker \<Rightarrow> broker \<times> broker_end" where
  "serve_bridge_broker env bk =
     (case serve_loop env ServerInitial (Some (ch_now (bk_channel bk) + INITIAL_OPEN_TIMEOUT)) bk of
        (bk', BrokerWaits) \<Rightarrow> (bk', BrokerWaits)
      | (bk', BrokerDone r) \<Rightarrow>
          (if bk_helper bk' then (call_helper CallDrop bk')\<lparr>bk_helper := False\<rparr> else bk', BrokerDone r))"

section \<open>The client\<close>

record bridge_client =
  bc_channel :: channel
  bc_state :: client_state

datatype expected_response = ExpectOpened | ExpectAndroidInputReady | ExpectFinished

definition invalid_client_state :: "string \<Rightarrow> os_error" where
  "invalid_client_state operation =
     OsError InvalidInput (''bridge broker cannot '' @ operation @ '' in the current state'')"

definition error_from_response :: "string \<Rightarrow> string \<Rightarrow> os_error" where
  "error_from_response code detail =
     OsError (if code = ''invalid_event_node'' then PermissionDenied
              else if code = ''invalid_state'' then InvalidInput
              else if code = ''invalid_frame'' \<or> code = ''version_mismatch'' then InvalidData
              else OtherKind) detail"

definition broker_transport_error :: "string \<Rightarrow> os_error \<Rightarrow> os_error" where
  "broker_transport_error stage err =
     (if err_kind err \<in> {BrokenPipe, UnexpectedEof, ConnectionReset}
      then OsError (err_kind err) (''could not '' @ stage @ '': the wroidd bridge broker closed the channel before replying. The privileged helper may have failed to stop a running Waydroid container; check the wroidd log for the helper's error (original: '' @ err_text err @ '')'')
      else err)"

definition response_matches :: "bridge_response \<Rightarrow> expected_response \<Rightarrow> os_error + unit" where
  "response_matches response expected =
     (case (response, expected) of
        (BrOpened, ExpectOpened) \<Rightarrow> Inr ()
      | (BrAndroidInputReady, ExpectAndroidInputReady) \<Rightarrow> Inr ()
      | (BrFinished, ExpectFinished) \<Rightarrow> Inr ()
      | (BrError code detail, _) \<Rightarrow> Inl (error_from_response code detail)
      | _ \<Rightarrow> Inl (OsError InvalidData ''bridge broker returned an unexpected response''))"

definition exchange :: "codec \<Rightarrow> bridge_request \<Rightarrow> expected_response \<Rightarrow> bridge_client \<Rightarrow> (bridge_client, os_error, unit) st" where
  "exchange cd request expected c =
     (case write_frame (cd_print_request cd) \<lparr>rq_version = BRIDGE_PROTOCOL_VERSION, rq_request = request\<rparr> (bc_channel c) of
        (ch, Inl err) \<Rightarrow> (c\<lparr>bc_channel := ch\<rparr>, Inl (broker_transport_error ''send a bridge request'' err))
      | (ch, Inr _) \<Rightarrow>
          (case read_required_frame_until (cd_parse_response cd) (Some (ch_now ch + CLIENT_RESPONSE_TIMEOUT)) ch of
             (ch1, Got frame) \<Rightarrow>
               (c\<lparr>bc_channel := ch1\<rparr>,
                if rs_version frame \<noteq> BRIDGE_PROTOCOL_VERSION
                then Inl (OsError InvalidData ''bridge broker response protocol version mismatch'')
                else response_matches (rs_response frame) expected)
           | (ch1, ReadFailed err) \<Rightarrow>
               (c\<lparr>bc_channel := ch1\<rparr>, Inl (broker_transport_error ''read the bridge broker reply'' err))
           | (ch1, ReadWaits) \<Rightarrow> (c\<lparr>bc_channel := ch1\<rparr>, Inl (OsError TimedOut []))))"

definition client_open :: "codec \<Rightarrow> string \<Rightarrow> bridge_client \<Rightarrow> (bridge_client, os_error, unit) st" where
  "client_open cd event_node c =
     (if bc_state c \<noteq> ClientInitial then (c, Inl (invalid_client_state ''open''))
      else andThen (exchange cd (BrOpen event_node) ExpectOpened c) (\<lambda>c' _. (c'\<lparr>bc_state := ClientOpened\<rparr>, Inr ())))"

definition client_verify :: "codec \<Rightarrow> bridge_client \<Rightarrow> (bridge_client, os_error, unit) st" where
  "client_verify cd c =
     (if bc_state c \<noteq> ClientOpened then (c, Inl (invalid_client_state ''verify_android_input''))
      else andThen (exchange cd BrVerifyAndroidInput ExpectAndroidInputReady c)
             (\<lambda>c' _. (c'\<lparr>bc_state := ClientVerified\<rparr>, Inr ())))"

definition client_finish :: "codec \<Rightarrow> bool \<Rightarrow> bridge_client \<Rightarrow> (bridge_client, os_error, unit) st" where
  "client_finish cd waydroid_stopped c =
     (if bc_state c \<noteq> ClientVerified then (c, Inl (invalid_client_state ''finish''))
      else exchange cd (BrFinish waydroid_stopped) ExpectFinished c)"

text \<open>The inherited descriptor and the peer behind it: \<open>stat\<close> says whether it is a socket, \<open>cloexec\<close> whether setting
  the flag worked, \<open>credentials\<close> who the peer is.\<close>

definition validate_owned_socket :: "int \<Rightarrow> os_error + bool \<Rightarrow> os_error + unit \<Rightarrow> os_error + unit" where
  "validate_owned_socket raw_fd stat cloexec =
     (if raw_fd \<le> 2 then Inl (OsError InvalidInput ''bridge channel cannot use a standard I/O descriptor'')
      else bind_result stat (\<lambda>socket.
             if \<not> socket then Inl (OsError InvalidInput ''inherited bridge descriptor is not a Unix socket'')
             else cloexec))"

record broker_peer =
  pc_pid :: int
  pc_uid :: u32
  pc_complete :: bool

definition client_from_owned_fd_for_peer ::
  "int \<Rightarrow> os_error + bool \<Rightarrow> os_error + unit \<Rightarrow> os_error + broker_peer \<Rightarrow> int \<Rightarrow> u32 \<Rightarrow> channel
     \<Rightarrow> os_error + bridge_client" where
  "client_from_owned_fd_for_peer raw_fd stat cloexec credentials expected_pid expected_uid ch =
     bind_result (validate_owned_socket raw_fd stat cloexec) (\<lambda>_.
     bind_result credentials (\<lambda>c.
       if \<not> pc_complete c \<or> pc_pid c \<noteq> expected_pid \<or> pc_uid c \<noteq> expected_uid
       then Inl (OsError PermissionDenied ''inherited bridge socket peer is not the expected Wroid daemon'')
       else Inr \<lparr>bc_channel = ch, bc_state = ClientInitial\<rparr>))"

end
