(* ===== verification/HelperSafe.thy ===== *)
theory HelperSafe
  imports Helper BridgeSafe
begin

text \<open>
  What the setuid helper guarantees: which programs it runs and how many, that its protocol only honours the two
  commands, and that its end undoes what it did - the node's ownership, the configuration, the lease.
\<close>

section \<open>What the steps leave alone\<close>

definition helper_programs :: "fixed_command set" where
  "helper_programs =
     {lxc_status_command, lxc_stop_command, udev_settle_command, android_input_unfreeze_command,
      android_input_probe_command, android_dumpsys_input_command, android_show_touches_off_command,
      android_pointer_location_off_command}"

text \<open>\<open>runs n w w'\<close>: at most \<open>n\<close> programs ran, each of them a fixed one.\<close>

definition runs :: "nat \<Rightarrow> helper_world \<Rightarrow> helper_world \<Rightarrow> bool" where
  "runs n w w' \<longleftrightarrow>
     (\<exists>cs. hw_commands w' = hw_commands w @ cs \<and> length cs \<le> n \<and> set cs \<subseteq> helper_programs)"

text \<open>\<open>keeps w w'\<close>: the files, the inode and the lease are as they were, and there is no new fault.\<close>

definition keeps :: "helper_world \<Rightarrow> helper_world \<Rightarrow> bool" where
  "keeps w w' \<longleftrightarrow>
     dk_files (hw_disk w') = dk_files (hw_disk w) \<and> set (dk_faults (hw_disk w')) \<subseteq> set (dk_faults (hw_disk w))
     \<and> hw_inode w' = hw_inode w \<and> hw_lease w' = hw_lease w"

lemma runs_refl [simp]: "runs n w w" by (simp add: runs_def)
lemma keeps_refl [simp]: "keeps w w" by (simp add: keeps_def)

lemma runs_trans: "runs m w w' \<Longrightarrow> runs n w' w'' \<Longrightarrow> m + n \<le> k \<Longrightarrow> runs k w w''"
  unfolding runs_def by fastforce

lemma keeps_trans: "keeps w w' \<Longrightarrow> keeps w' w'' \<Longrightarrow> keeps w w''"
  by (auto simp: keeps_def)

lemma runs_andThen:
  assumes "runs m w (fst r)" and "\<And>w' a. r = (w', Inr a) \<Longrightarrow> runs n w' (fst (f w' a))" and "m + n \<le> k"
  shows "runs k w (fst (andThen r f))"
proof (cases "(r, f)" rule: andThen.cases)
  case (1 s e g)
  with assms(1,3) show ?thesis by (auto simp: runs_def)
next
  case (2 s a g)
  with assms show ?thesis by (auto intro: runs_trans)
qed

lemma keeps_then:
  assumes "keeps w (fst r)" and "\<And>w' a. r = (w', Inr a) \<Longrightarrow> keeps w' (fst (f w' a))"
  shows "keeps w (fst (andThen r f))"
proof (cases "(r, f)" rule: andThen.cases)
  case (2 s a g)
  with assms show ?thesis by (auto intro: keeps_trans)
qed (use assms in auto)

lemma runs_same: "hw_commands w' = hw_commands w \<Longrightarrow> runs n w w'" by (simp add: runs_def)

text \<open>Both at once, and nothing is read from the client.\<close>

definition steps :: "nat \<Rightarrow> helper_world \<Rightarrow> helper_world \<Rightarrow> bool" where
  "steps n w w' \<longleftrightarrow> keeps w w' \<and> runs n w w' \<and> hw_stdin w' = hw_stdin w"

lemma steps_refl [simp]: "steps n w w" by (simp add: steps_def)

lemma steps_trans: "steps m w w' \<Longrightarrow> steps n w' w'' \<Longrightarrow> m + n \<le> k \<Longrightarrow> steps k w w''"
  by (auto simp: steps_def intro: keeps_trans runs_trans)

lemma steps_mono: "steps m w w' \<Longrightarrow> m \<le> n \<Longrightarrow> steps n w w'"
  by (erule steps_trans [where n = 0]) simp_all

lemma steps_andThen:
  assumes "steps m w (fst r)" and "\<And>w' a. r = (w', Inr a) \<Longrightarrow> steps n w' (fst (f w' a))" and "m + n \<le> k"
  shows "steps k w (fst (andThen r f))"
proof (cases "(r, f)" rule: andThen.cases)
  case (1 s e g)
  with assms(1,3) show ?thesis by (auto intro: steps_mono)
next
  case (2 s a g)
  with assms show ?thesis by (auto intro: steps_trans)
qed

lemma steps_command: "c \<in> helper_programs \<Longrightarrow> 0 < n \<Longrightarrow> steps n w (fst (run_command env c w))"
  by (auto simp: steps_def keeps_def runs_def run_command_def)

lemma steps_sleep: "steps n (sleep_for d w) w' \<Longrightarrow> steps n w w'"
  by (rule steps_trans [where m = 0 and w' = "sleep_for d w"]) (auto simp: steps_def keeps_def runs_def sleep_for_def)

lemma fixed_programs:
  "lxc_status_command \<in> helper_programs" "lxc_stop_command \<in> helper_programs" "udev_settle_command \<in> helper_programs"
  "android_input_unfreeze_command \<in> helper_programs" "android_input_probe_command \<in> helper_programs"
  "android_dumpsys_input_command \<in> helper_programs" "android_show_touches_off_command \<in> helper_programs"
  "android_pointer_location_off_command \<in> helper_programs"
  by (simp_all add: helper_programs_def)

lemma disk_call_faults: "set (dk_faults (fst (disk_call f dk))) \<subseteq> set (dk_faults dk)"
  if "\<And>dk. dk_faults (fst (f dk)) = dk_faults dk"
  using that by (auto simp: disk_call_def split: list.split option.split)

lemma disk_call_const: "dk_files (fst (disk_call (\<lambda>dk. (dk, r)) dk)) = dk_files dk"
  by (auto simp: disk_call_def split: list.split option.split)

lemma sys_call_commands [simp]:
  "(\<And>w. hw_commands (f w) = hw_commands w) \<Longrightarrow> hw_commands (fst (sys_call f w)) = hw_commands w"
  unfolding sys_call_def by (cases "on_disk (disk_call (\<lambda>dk. (dk, Inr ()))) w" rule: prod.exhaust; cases "snd (on_disk (disk_call (\<lambda>dk. (dk, Inr ()))) w)")
    (auto simp: on_disk_def split: prod.splits)

lemma sys_call_stdin [simp]:
  "(\<And>w. hw_stdin (f w) = hw_stdin w) \<Longrightarrow> hw_stdin (fst (sys_call f w)) = hw_stdin w"
  by (cases "on_disk (disk_call (\<lambda>dk. (dk, Inr ()))) w"; cases "snd (on_disk (disk_call (\<lambda>dk. (dk, Inr ()))) w)")
    (auto simp: sys_call_def on_disk_def split: prod.splits)

lemma sys_call_keeps:
  assumes "\<And>w. keeps w (f w)"
  shows "keeps w (fst (sys_call f w))"
proof -
  have "keeps w (fst (on_disk (disk_call (\<lambda>dk. (dk, Inr ()))) w))"
    using disk_call_const [of "Inr ()" "hw_disk w"] disk_call_faults [of "\<lambda>dk. (dk, Inr ())" "hw_disk w"]
    by (auto simp: keeps_def on_disk_def split: prod.splits)
  then show ?thesis unfolding sys_call_def by (rule keeps_then) (use assms in simp)
qed

lemma write_line_steps: "steps 0 w (fst (write_line l w))"
  unfolding write_line_def steps_def
  by (intro conjI sys_call_keeps runs_same sys_call_commands sys_call_stdin) (simp_all add: keeps_def)

section \<open>The waiting loops\<close>

lemma ensure_container_stopped_steps: "steps 1 w (fst (ensure_container_stopped env w))"
  unfolding ensure_container_stopped_def
  by (rule steps_andThen [where m = 1 and n = 0]) (simp_all add: steps_command fixed_programs)

lemma force_stop_steps: "steps 3 w (fst (force_stop_waydroid_container env w))"
proof -
  have "steps 2 w1 (fst (andThen (run_command env lxc_stop_command w1) (\<lambda>w2 out.
      if \<not> es_success (co_status out)
      then (w2, Inl (OsError OtherKind (''privileged Waydroid recovery stop failed'' @ [LF]
                                      @ trim (he_lossy env (co_stderr out)))))
      else ensure_container_stopped env w2)))" for w1
    by (rule steps_andThen [where m = 1 and n = 1])
      (use ensure_container_stopped_steps in \<open>auto simp: steps_command fixed_programs\<close>)
  note stop = this
  obtain w1 r where 1: "ensure_container_stopped env w = (w1, r)" by fastforce
  with ensure_container_stopped_steps [of w env] have w1: "steps 1 w w1" by simp
  show ?thesis
  proof (cases r)
    case (Inl err)
    then show ?thesis
      unfolding force_stop_waydroid_container_def 1 by (simp add: steps_trans [OF w1 stop])
  qed (use 1 w1 in \<open>simp add: force_stop_waydroid_container_def steps_mono\<close>)
qed

lemma wait_stopped_steps: "steps n w (fst (wait_stopped env n last_status w))"
proof (induction env n last_status w rule: wait_stopped.induct)
  case (2 env n last_status w)
  show ?case
    unfolding wait_stopped.simps
    by (rule steps_andThen [where m = 1 and n = n])
      (use 2 in \<open>auto simp: steps_command fixed_programs intro: steps_sleep\<close>)
qed simp

lemma settle_steps: "steps 1 w (fst (settle_wroid_input_udev env w))"
  unfolding settle_wroid_input_udev_def
  by (rule steps_andThen [where m = 1 and n = 0]) (simp_all add: steps_command fixed_programs)

lemma unfreeze_steps: "steps 2 w (fst (unfreeze_waydroid_for_input_probe env w))"
  unfolding unfreeze_waydroid_for_input_probe_def
  by (rule steps_andThen [where m = 1 and n = 1])
    (auto intro!: steps_andThen [where m = 1 and n = 0] simp: steps_command fixed_programs)

lemma run_setting_steps:
  "c \<in> helper_programs \<Longrightarrow> steps 1 w (fst (run_fixed_android_setting_command env name c timeout w))"
  by (auto simp: run_fixed_android_setting_command_def Let_def steps_def keeps_def runs_def sleep_for_def
      split: sum.split prod.split)

lemma disable_diagnostics_steps: "steps 2 w (fst (disable_android_pointer_diagnostics env w))"
  unfolding disable_android_pointer_diagnostics_def
  by (rule steps_andThen [where m = 1 and n = 1]; (rule run_setting_steps)?) (simp_all add: fixed_programs)

lemma wait_for_input_reader_steps: "steps (3 * n) w (fst (wait_for_input_reader env n last_output w))"
proof (induction env n last_output w rule: wait_for_input_reader.induct)
  case (2 env n last_output w)
  show ?case
    unfolding wait_for_input_reader.simps
  proof (rule steps_andThen [where m = 2 and n = "Suc (3 * n)", OF unfreeze_steps])
    fix w1 u assume "unfreeze_waydroid_for_input_probe env w = (w1, Inr u)"
    then show "steps (Suc (3 * n)) w1 (fst (andThen (run_command env android_dumpsys_input_command w1) (\<lambda>w2 out.
       if es_success (co_status out) \<and> dumpsys_lists_input_reader_device (combined_output env out) WROID_TOUCHSCREEN_NAME
       then (w2, Inr ())
       else wait_for_input_reader env n (combined_output env out) (sleep_for ANDROID_INPUT_INTERVAL w2))))"
      by (intro steps_andThen [where m = 1 and n = "3 * n"])
        (use 2 in \<open>auto simp: steps_command fixed_programs intro: steps_sleep\<close>)
  qed simp
qed simp

lemma wait_for_input_steps: "steps (3 * n + 182) w (fst (wait_for_input env n last_output w))"
proof (induction env n last_output w rule: wait_for_input.induct)
  case (2 env n last_output w)
  have found: "steps 182 w2 (fst (andThen (wait_for_input_reader env ANDROID_INPUT_ATTEMPTS [] w2) (\<lambda>w3 _.
      disable_android_pointer_diagnostics env w3)))" for w2
    by (rule steps_andThen [where m = 180 and n = 2])
      (use wait_for_input_reader_steps [of ANDROID_INPUT_ATTEMPTS] disable_diagnostics_steps
        in \<open>simp_all add: ANDROID_INPUT_ATTEMPTS_def\<close>)
  show ?case
    unfolding wait_for_input.simps
  proof (rule steps_andThen [where m = 2 and n = "Suc (3 * n + 182)", OF unfreeze_steps])
    fix w1 u assume "unfreeze_waydroid_for_input_probe env w = (w1, Inr u)"
    then show "steps (Suc (3 * n + 182)) w1 (fst (andThen (run_command env android_input_probe_command w1) (\<lambda>w2 out.
       if es_success (co_status out) \<and> str_contains (combined_output env out) WROID_TOUCHSCREEN_NAME
       then andThen (wait_for_input_reader env ANDROID_INPUT_ATTEMPTS [] w2) (\<lambda>w3 _.
              disable_android_pointer_diagnostics env w3)
       else wait_for_input env n (combined_output env out) (sleep_for ANDROID_INPUT_INTERVAL w2))))"
      by (intro steps_andThen [where m = 1 and n = "3 * n + 182"])
        (use 2 in \<open>auto simp: steps_command fixed_programs intro: steps_sleep steps_mono [OF found]\<close>)
  qed simp
qed simp

section \<open>Polling a child\<close>


text \<open>What a child writes is read to its end, and its first 4096 bytes are kept.\<close>

lemma setting_output_retained:
  "[] \<notin> set chunks \<Longrightarrow> length retained \<le> MAX_ANDROID_SETTINGS_ERROR_CHARS \<Longrightarrow>
    read_android_setting_output retained (map Inr chunks)
      = Inr (take MAX_ANDROID_SETTINGS_ERROR_CHARS (retained @ concat chunks))"
proof (induction chunks arbitrary: retained)
  case (Cons chunk chunks)
  let ?kept = "retained @ take (MAX_ANDROID_SETTINGS_ERROR_CHARS - length retained) chunk"
  have "length ?kept \<le> MAX_ANDROID_SETTINGS_ERROR_CHARS" using Cons.prems by simp
  with Cons show ?case by (auto simp: min_def)
qed simp

section \<open>The paired release\<close>

text \<open>Two releases that match, read without errors and to their end, are the same bytes.\<close>

lemma release_files_match_sound:
  assumes "release_files_match (Inr \<lparr>rf_len = m, rf_reads = map Inr as\<rparr>) (Inr \<lparr>rf_len = n, rf_reads = map Inr bs\<rparr>) = Inr True"
    and "[] \<notin> set as" "[] \<notin> set bs"
  shows "concat as = concat bs \<and> m = n \<and> m \<le> MAX_STAGED_HELPER_BYTES"
proof -
  have "reads_match (map Inr as) (map Inr bs) = Inr True \<Longrightarrow> as = bs"
    using assms(2,3)
  proof (induction as arbitrary: bs)
    case Nil
    then show ?case by (cases bs) auto
  next
    case (Cons a as)
    then show ?case by (cases bs) (auto split: if_splits)
  qed
  with assms(1) show ?thesis by (auto simp: release_files_match_def bind_result_def split: if_splits)
qed

section \<open>The protocol\<close>

lemma read_command_frame:
  assumes "read_helper_command w = (w1, r)"
  shows "keeps w w1" "hw_commands w1 = hw_commands w"
  using assms by (auto simp: read_helper_command_def keeps_def split: prod.splits)

lemma serve_verified_frame:
  "keeps w (fst (serve_helper_protocol verify True w)) \<and> runs 0 w (fst (serve_helper_protocol verify True w))"
proof -
  obtain w1 r where read: "read_helper_command w = (w1, r)" by fastforce
  show ?thesis
    unfolding serve_helper_protocol.simps [of verify True w] read
    using read_command_frame [OF read]
    by (auto simp: runs_same split: sum.split option.split helper_command.split)
qed

lemma serve_frame:
  assumes verify: "\<And>w. steps n w (fst (verify w))"
  shows "keeps w (fst (serve_helper_protocol verify False w)) \<and> runs n w (fst (serve_helper_protocol verify False w))"
proof -
  obtain w1 r where read: "read_helper_command w = (w1, r)" by fastforce
  note w1 = read_command_frame [OF read]
  let ?tail = "andThen (verify w1) (\<lambda>w2 _. andThen (write_line ANDROID_INPUT_READY_LINE w2)
          (\<lambda>w3 _. serve_helper_protocol verify True w3))"
  have lines: "keeps w2 (fst (write_line l w2))" "runs 0 w2 (fst (write_line l w2))" for l w2
    using write_line_steps by (auto simp: steps_def)
  have "keeps w1 (fst ?tail)"
    using verify by (intro keeps_then lines conjunct1 [OF serve_verified_frame]) (auto simp: steps_def)
  then have k: "keeps w (fst ?tail)" by (rule keeps_trans [OF w1(1)])
  have "runs n w1 (fst ?tail)"
    by (rule runs_andThen [where m = n and n = 0], use verify in \<open>simp add: steps_def\<close>,
        rule runs_andThen [where m = 0 and n = 0]) (use lines serve_verified_frame in auto)
  then have "runs n w (fst ?tail)" by (rule runs_trans [where m = 0, OF runs_same [OF w1(2)]]) simp
  with k w1 show ?thesis
    unfolding serve_helper_protocol.simps [of verify False w] read
    by (auto simp: runs_same split: sum.split option.split helper_command.split)
qed

section \<open>The disk under faults\<close>

text \<open>No operation adds faults.\<close>

definition no_new_faults :: "'a disk_st \<Rightarrow> disk \<Rightarrow> bool" where
  "no_new_faults result dk \<longleftrightarrow> set (dk_faults (fst result)) \<subseteq> set (dk_faults dk)"

lemma no_new_faults_andThen:
  assumes "no_new_faults result dk" and "\<And>dk' a. no_new_faults (f dk' a) dk'"
  shows "no_new_faults (andThen result f) dk"
  using assms by (cases "(result, f)" rule: andThen.cases) (fastforce simp: no_new_faults_def)+

lemma no_new_faults_call:
  assumes "\<And>dk. dk_faults (fst (f dk)) = dk_faults dk"
  shows "no_new_faults (disk_call f dk) dk"
  using assms by (auto simp: no_new_faults_def disk_call_def split: list.split option.split)

lemma no_new_faults_calls:
  "no_new_faults (dk, r) dk" "no_new_faults (disk_read p dk) dk" "no_new_faults (disk_mode p dk) dk"
  "no_new_faults (disk_write p c dk) dk" "no_new_faults (disk_set_mode p mode dk) dk"
  "no_new_faults (disk_rename p q dk) dk" "no_new_faults (disk_remove p dk) dk" "no_new_faults (disk_create_dirs d dk) dk"
  unfolding disk_read_def disk_mode_def disk_write_def disk_set_mode_def disk_rename_def disk_remove_def disk_create_dirs_def
  by (auto intro!: no_new_faults_call simp: no_new_faults_def [of "(dk, r)"] split: sum.split prod.split)

lemma no_new_faults_case:
  assumes "no_new_faults r dk" and "\<And>dk1 r1. r = (dk1, r1) \<Longrightarrow> no_new_faults (f dk1 r1) dk1"
  shows "no_new_faults (case r of (dk1, r1) \<Rightarrow> f dk1 r1) dk"
  using assms by (cases r) (fastforce simp: no_new_faults_def)

lemma no_new_faults_drop: "no_new_faults r dk \<Longrightarrow> no_new_faults (fst r, x) dk"
  by (simp add: no_new_faults_def)

lemma no_new_faults_write: "no_new_faults (atomic_write pid p c mode dk) dk"
proof -
  have "no_new_faults (case andThen (disk_write t c dk1) (\<lambda>dk2 _.
      andThen (disk_set_mode t mode dk2) (\<lambda>dk3 _. disk_rename t p dk3)) of
        (dk', Inr _) \<Rightarrow> (dk', Inr ()) | (dk', Inl err) \<Rightarrow> (fst (disk_remove t dk'), Inl err)) dk1" for t dk1
  proof (rule no_new_faults_case)
    show "no_new_faults (andThen (disk_write t c dk1) (\<lambda>dk2 _.
      andThen (disk_set_mode t mode dk2) (\<lambda>dk3 _. disk_rename t p dk3))) dk1"
      by (intro no_new_faults_andThen no_new_faults_calls)
    show "no_new_faults (case r of Inr _ \<Rightarrow> (dk', Inr ()) | Inl err \<Rightarrow> (fst (disk_remove t dk'), Inl err)) dk'"
      for dk' and r :: "os_error + unit"
      by (cases r) (simp_all add: no_new_faults_calls no_new_faults_drop)
  qed
  then show ?thesis
    by (auto simp: atomic_write_def Let_def split: option.split intro!: no_new_faults_andThen no_new_faults_calls)
qed

lemma no_new_faults_remove: "no_new_faults (remove_file_if_exists p dk) dk"
  unfolding remove_file_if_exists_def
  by (rule no_new_faults_case) (auto simp: no_new_faults_calls split: sum.split)

lemma no_new_faults_restore: "no_new_faults (restore_managed_file pid p original original_mode dk) dk"
  by (auto simp: restore_managed_file_def no_new_faults_write no_new_faults_remove split: option.split)

lemma no_new_faults_include: "no_new_faults (remove_managed_include utf8 pid paths dk) dk"
  unfolding remove_managed_include_def disk_read_text_def Let_def
  by (auto intro!: no_new_faults_andThen no_new_faults_calls no_new_faults_write)

lemma no_new_faults_remove_bridge: "no_new_faults (remove_bridge utf8 pid paths dk) dk"
  unfolding remove_bridge_def by (intro no_new_faults_andThen no_new_faults_include no_new_faults_remove)

lemma no_new_faults_install: "no_new_faults (install_bridge utf8 pid paths node cgroup dk) dk"
proof -
  have optional: "no_new_faults (read_optional p dk) dk" "no_new_faults (mode_if_any p c dk) dk" for p c dk
    unfolding read_optional_def mode_if_any_def
    by (auto intro!: no_new_faults_case no_new_faults_andThen no_new_faults_calls split: sum.split option.split)
  have reads: "no_new_faults (read_for_install utf8 paths node cgroup dk) dk"
    unfolding read_for_install_def
    by (auto intro!: no_new_faults_andThen no_new_faults_calls optional split: sum.split)
  have "no_new_faults (write_install pid paths inp dk) dk" for inp dk
    unfolding write_install_def Let_def
    by (auto intro!: no_new_faults_andThen no_new_faults_case no_new_faults_calls no_new_faults_write no_new_faults_restore
        split: sum.split)
  then show ?thesis unfolding install_bridge_def by (intro no_new_faults_andThen reads)
qed

end
