(* ===== verification/HelperSpec.thy ===== *)
theory HelperSpec
  imports HelperSafe
begin

text \<open>
  The helper as a whole: what it leaves behind when it reports success, whichever system calls failed on the way,
  and what it leaves behind whatever happens when none fails.
\<close>

section \<open>A clean configuration\<close>

text \<open>The managed file is gone and no line of the main configuration includes it. Configurations with carriage
  returns are left out: \<open>lines\<close> drops one at the end of a line.\<close>

definition clean :: "bridge_paths \<Rightarrow> disk \<Rightarrow> bool" where
  "clean paths dk \<longleftrightarrow>
     dk_files dk (managed_config paths) = None
     \<and> (\<exists>main m. dk_files dk (main_config paths) = Some (main, m) \<and> CR \<notin> set main
        \<and> \<not> list_ex (\<lambda>l. trim l = include_line (managed_config paths)) (str_lines main))"

definition unix_lines :: "bridge_paths \<Rightarrow> disk \<Rightarrow> bool" where
  "unix_lines paths dk \<longleftrightarrow> (\<forall>main m. dk_files dk (main_config paths) = Some (main, m) \<longrightarrow> CR \<notin> set main)"

lemma honest_mono: "no_new_faults r dk \<Longrightarrow> honest dk \<Longrightarrow> honest (fst r)"
  by (auto simp: honest_def no_new_faults_def)

lemma strip_line_set: "set (strip_line l) \<subseteq> set l"
  by (auto simp: strip_line_def Let_def dest: in_set_butlastD)

lemma str_lines_set: "l \<in> set (str_lines t) \<Longrightarrow> set l \<subseteq> set t"
proof -
  assume "l \<in> set (str_lines t)"
  then obtain l' where l: "l' \<in> set (split_inclusive t)" "l = strip_line l'" by (auto simp: str_lines_def)
  from l(1) have "set l' \<subseteq> set (concat (split_inclusive t))" by auto
  with strip_line_set [of l'] l(2) show "set l \<subseteq> set t" by (auto simp: split_inclusive_concat)
qed

lemma split_inclusive_inner: "l \<in> set (split_inclusive t) \<Longrightarrow> LF \<notin> set (butlast l)"
proof (induction t arbitrary: l)
  case (Cons c t)
  show ?case
  proof (cases "c = LF")
    case False
    with Cons show ?thesis by (cases "split_inclusive t") (auto split: if_splits)
  qed (use Cons in auto)
qed simp

lemma str_lines_no_LF: "l \<in> set (str_lines t) \<Longrightarrow> LF \<notin> set l"
proof -
  assume "l \<in> set (str_lines t)"
  then obtain l' where l: "l' \<in> set (split_inclusive t)" "l = strip_line l'" by (auto simp: str_lines_def)
  have inner: "LF \<notin> set (butlast l')" by (rule split_inclusive_inner [OF l(1)])
  have "LF \<in> set l' \<Longrightarrow> last l' = LF"
    using inner by (cases l' rule: rev_cases) auto
  with inner l(2) show ?thesis by (auto simp: strip_line_def Let_def dest: in_set_butlastD)
qed

lemma join_lines_set: "set (join_lines ls) \<subseteq> insert LF (\<Union> (set ` set ls))"
  by (induction ls rule: join_lines.induct) auto

lemma str_lines_line: "LF \<notin> set l \<Longrightarrow> CR \<notin> set l \<Longrightarrow> str_lines (l @ [LF]) = [l]"
proof (cases "l = []")
  case True
  then show ?thesis by (simp add: str_lines_def strip_line_def)
qed (rule str_lines_single)

lemma str_lines_join:
  assumes "ls \<noteq> []" and "\<And>l. l \<in> set ls \<Longrightarrow> LF \<notin> set l \<and> CR \<notin> set l"
  shows "str_lines (join_lines ls @ [LF]) = ls"
  using assms
proof (induction ls rule: join_lines.induct)
  case (2 l)
  then show ?case by (simp add: str_lines_line)
next
  case (3 l l' ls)
  have first: "str_lines (l @ [LF]) = [l]"
    using 3(3) by (simp add: str_lines_line)
  have "str_lines ((l @ LF # join_lines (l' # ls)) @ [LF]) = str_lines (l @ [LF]) @ str_lines (join_lines (l' # ls) @ [LF])"
    using str_lines_append [of l "join_lines (l' # ls) @ [LF]"] by simp
  with first 3 show ?case by simp
qed simp

lemma remove_include_clean:
  assumes line: "plain_line i" and cr: "CR \<notin> set c"
  shows "\<not> list_ex (\<lambda>l. trim l = i) (str_lines (remove_include c i))" "CR \<notin> set (remove_include c i)"
proof -
  let ?ls = "filter (\<lambda>l. trim l \<noteq> i) (str_lines c)"
  have ls: "l \<in> set ?ls \<Longrightarrow> LF \<notin> set l \<and> CR \<notin> set l \<and> trim l \<noteq> i" for l
    using cr str_lines_set [of l c] str_lines_no_LF [of l c] by auto
  have "CR \<notin> insert LF (\<Union> (set ` set ?ls))" using ls by simp
  with join_lines_set [of ?ls] have join: "CR \<notin> set (join_lines ?ls)" by (rule contra_subsetD)
  then show "CR \<notin> set (remove_include c i)" by (simp add: remove_include_def Let_def)
  show "\<not> list_ex (\<lambda>l. trim l = i) (str_lines (remove_include c i))"
  proof (cases "?ls = []")
    case True
    then show ?thesis
      using line by (auto simp: remove_include_def Let_def str_lines_def strip_line_def plain_line_def)
  next
    case False
    then have lines: "str_lines (join_lines ?ls @ [LF]) = ?ls" by (rule str_lines_join) (use ls in blast)
    show ?thesis
    proof (cases "join_lines ?ls = []")
      case True
      with lines show ?thesis
        using line by (auto simp: remove_include_def Let_def str_lines_def strip_line_def plain_line_def list_ex_iff split: if_splits)
    next
      case False
      then have "remove_include c i = join_lines ?ls @ [LF]" by (simp add: remove_include_def Let_def)
      then show ?thesis using lines by (simp add: list_ex_iff)
    qed
  qed
qed

section \<open>Removing, installing and cleaning up\<close>

lemma paths_ok_facts:
  assumes "paths_ok pid paths"
  shows "main_config paths \<noteq> managed_config paths" "temporary_of pid (main_config paths) \<noteq> main_config paths"
    "temporary_of pid (main_config paths) \<noteq> managed_config paths" "temporary_of pid (managed_config paths) \<noteq> managed_config paths"
    "temporary_of pid (managed_config paths) \<noteq> main_config paths" "plain_line (include_line (managed_config paths))"
  using assms by (auto simp: paths_ok_def)

lemma remove_include_done:
  assumes "remove_managed_include utf8 pid paths dk = (dk', Inr ())" and ok: "paths_ok pid paths"
  obtains main m m' where "dk_files dk (main_config paths) = Some (main, m)"
    "dk_files dk' (main_config paths) = Some (remove_include main (include_line (managed_config paths)), m')"
    "dk_files dk' (managed_config paths) = dk_files dk (managed_config paths)"
proof -
  let ?i = "include_line (managed_config paths)"
  note p = paths_ok_facts [OF ok]
  from assms(1) obtain dk1 main dk2 mode where 1: "disk_read (main_config paths) dk = (dk1, Inr main)"
    and 2: "disk_mode (main_config paths) dk1 = (dk2, Inr mode)"
    and 3: "(if remove_include main ?i \<noteq> main then atomic_write pid (main_config paths) (remove_include main ?i) mode dk2
      else (dk2, Inr ())) = (dk', Inr ())"
    by (auto simp: remove_managed_include_def disk_read_text_def Let_def andThen_Inr_iff split: if_splits)
  have same: "dk_files dk2 = dk_files dk" using disk_read_cases(1) [OF 1] disk_mode_cases(1) [OF 2] by simp
  from disk_read_cases(2) [OF 1] obtain m where m: "dk_files dk (main_config paths) = Some (main, m)" by auto
  show thesis
  proof (cases "remove_include main ?i = main")
    case True
    with 3 that m same show thesis by simp
  next
    case False
    with 3 have w: "atomic_write pid (main_config paths) (remove_include main ?i) mode dk2 = (dk', Inr ())" by simp
    from atomic_write_spec(1,2) [OF w p(2)] that m same p show thesis by simp
  qed
qed

lemma remove_bridge_clean:
  assumes "remove_bridge utf8 pid paths dk = (dk', Inr ())" and ok: "paths_ok pid paths"
    and "honest dk" and cr: "unix_lines paths dk"
  shows "clean paths dk'"
proof -
  from assms(1) obtain dk1 where 1: "remove_managed_include utf8 pid paths dk = (dk1, Inr ())"
    and 2: "remove_file_if_exists (managed_config paths) dk1 = (dk', Inr ())"
    by (auto simp: remove_bridge_def andThen_Inr_iff)
  obtain main m m' where main: "dk_files dk (main_config paths) = Some (main, m)"
    "dk_files dk1 (main_config paths) = Some (remove_include main (include_line (managed_config paths)), m')"
    by (rule remove_include_done [OF 1 ok])
  have "CR \<notin> set main" using cr main(1) by (auto simp: unix_lines_def)
  note c = remove_include_clean [OF paths_ok_facts(6) [OF ok] this]
  have "honest dk1" using honest_mono [OF no_new_faults_include \<open>honest dk\<close>, of utf8 pid paths] 1 by simp
  note removed = remove_file_done [OF 2 this] remove_file_cases(1) [OF 2]
  show ?thesis
    using removed c main(2) paths_ok_facts(1) [OF ok] by (simp add: clean_def)
qed

lemma add_include_set: "plain_line i \<Longrightarrow> CR \<notin> set c \<Longrightarrow> CR \<notin> set (add_include c i)"
  by (auto simp: add_include_def plain_line_def trim_end_char_def dest: set_dropWhileD)

lemma read_optional_missing:
  "read_optional p dk = (dk', Inr original) \<Longrightarrow> dk_files dk p = None \<Longrightarrow> original = None"
  using disk_read_cases(2) [of p dk]
  by (cases "disk_read p dk") (fastforce simp: read_optional_def split: sum.splits if_splits)

lemma read_for_install_missing:
  assumes "read_for_install utf8 paths node cgroup dk = (dk', Inr inp)" and "dk_files dk (managed_config paths) = None"
  shows "in_original inp = None"
proof -
  from assms(1) obtain dk1 main dk2 original where 1: "disk_read (main_config paths) dk = (dk1, Inr main)"
    and 2: "read_optional (managed_config paths) dk1 = (dk2, Inr original)" and "in_original inp = original"
    by (auto simp: read_for_install_def andThen_Inr_iff split: if_splits sum.splits)
  with read_optional_missing [OF 2] assms(2) disk_read_cases(1) [OF 1] show ?thesis by simp
qed

text \<open>What an installation on a clean configuration is.\<close>

definition installed_on :: "bridge_paths \<Rightarrow> installed_bridge \<Rightarrow> disk \<Rightarrow> bool" where
  "installed_on paths ib dk \<longleftrightarrow>
     ib_paths ib = paths \<and> ib_include_added ib \<and> ib_original_managed ib = None \<and> ib_active ib \<and> unix_lines paths dk"

lemma install_on_clean:
  assumes inst: "install_bridge utf8 pid paths node cgroup dk = (dk', Inr ib)" and clean: "clean paths dk"
    and ok: "paths_ok pid paths"
  shows "installed_on paths ib dk'"
    "\<exists>main m. dk_files dk (main_config paths) = Some (main, m)
      \<and> (\<exists>m'. dk_files dk' (main_config paths) = Some (add_include main (include_line (managed_config paths)), m'))
      \<and> utf8 main"
proof -
  let ?i = "include_line (managed_config paths)"
  note line = paths_ok_facts(6) [OF ok]
  from inst obtain dk1 inp where 1: "read_for_install utf8 paths node cgroup dk = (dk1, Inr inp)"
    and 2: "write_install pid paths inp dk1 = (dk', Inr ib)"
    by (auto simp: install_bridge_def andThen_Inr_iff)
  obtain m where m: "dk_files dk (main_config paths) = Some (in_main inp, m)" "utf8 (in_main inp)"
    by (rule read_for_install_ok [OF 1])
  from clean m have main: "CR \<notin> set (in_main inp)" "\<not> list_ex (\<lambda>l. trim l = ?i) (str_lines (in_main inp))"
    "dk_files dk (managed_config paths) = None"
    by (auto simp: clean_def)
  have original: "in_original inp = None" by (rule read_for_install_missing [OF 1 main(3)])
  have added: "add_include (in_main inp) ?i \<noteq> in_main inp" using add_include_has [OF line, of "in_main inp"] main(2) by auto
  have ib: "ib = \<lparr>ib_paths = paths, ib_original_managed = None, ib_original_mode = in_original_mode inp,
      ib_include_added = True, ib_active = True\<rparr>"
  proof -
    from 2 obtain dk2 where "(case atomic_write pid (main_config paths) (add_include (in_main inp) ?i) (in_main_mode inp) dk2 of
        (dk2, Inr _) \<Rightarrow> (dk2, Inr \<lparr>ib_paths = paths, ib_original_managed = None, ib_original_mode = in_original_mode inp,
          ib_include_added = True, ib_active = True\<rparr>)
      | (dk2, Inl install_error) \<Rightarrow>
          (case restore_managed_file pid (managed_config paths) None (in_original_mode inp) dk2 of
             (dk3, rollback) \<Rightarrow> (dk3, Inl (combine_io_errors ''failed to add the Wroid bridge include'' install_error
                 (case rollback of Inl err \<Rightarrow> Some err | Inr _ \<Rightarrow> None))))) = (dk', Inr ib)"
      using original added by (auto simp: write_install_def Let_def andThen_Inr_iff)
    then show ?thesis by (auto split: prod.splits sum.splits)
  qed
  from write_install_cases [OF 2 ok] ib
  have written: "dk_files dk' (main_config paths) = Some (add_include (in_main inp) ?i, in_main_mode inp)" by simp
  show "installed_on paths ib dk'"
    using ib written add_include_set [OF line main(1)] by (simp add: installed_on_def unix_lines_def)
  show "\<exists>main m. dk_files dk (main_config paths) = Some (main, m)
      \<and> (\<exists>m'. dk_files dk' (main_config paths) = Some (add_include main ?i, m')) \<and> utf8 main"
    using m written by blast
qed

lemma cleanup_clean:
  assumes "cleanup_bridge utf8 pid ib dk = (dk', Inr ())" and "installed_on paths ib dk" and ok: "paths_ok pid paths"
    and "honest dk"
  shows "clean paths dk'"
proof -
  note ib = assms(2) [unfolded installed_on_def]
  from assms(1) have "restore_bridge utf8 pid ib dk = (dk', Inr ())"
    by (auto simp: cleanup_bridge_def split: prod.splits sum.splits)
  with ib obtain dk1 where 1: "remove_managed_include utf8 pid paths dk = (dk1, Inr ())"
    and 2: "remove_file_if_exists (managed_config paths) dk1 = (dk', Inr ())"
    by (auto simp: restore_bridge_def both_results_def restore_managed_file_def split: prod.splits sum.splits)
  then have "remove_bridge utf8 pid paths dk = (dk', Inr ())" by (simp add: remove_bridge_def)
  with ok assms(4) ib show ?thesis by (auto intro: remove_bridge_clean)
qed

section \<open>The node's ownership\<close>

text \<open>Same owner, same group, same permission bits (\<open>0o7777\<close>).\<close>

definition same_access :: "event_inode \<Rightarrow> event_inode \<Rightarrow> bool" where
  "same_access i j \<longleftrightarrow> ei_uid i = ei_uid j \<and> ei_gid i = ei_gid j \<and> and (ei_mode i) 4095 = and (ei_mode j) 4095"

lemma same_access_refl [simp]: "same_access i i" by (simp add: same_access_def)

lemma access_restore_done:
  assumes "access_restore a w = (w', Inr ())"
  shows "hw_inode w' = \<lparr>ei_uid = ia_uid a, ei_gid = ia_gid a, ei_mode = ia_mode a\<rparr>"
  using assms
  by (cases "hw_inode w") (auto simp: access_restore_def access_set_def sys_call_def andThen_Inr_iff on_disk_def split: prod.splits)

lemma access_prepare_done:
  assumes "access_prepare env node w = (w', Inr a)"
  shows "a = \<lparr>ia_uid = ei_uid (hw_inode w), ia_gid = ei_gid (hw_inode w), ia_mode = and (ei_mode (hw_inode w)) 4095\<rparr>"
  using assms
  by (auto simp: access_prepare_def andThen_Inr_iff sys_call_def on_disk_def validate_wroid_touchscreen_node_def Let_def
      split: prod.splits sum.splits)

lemma restored_access:
  assumes "access_restore a w = (w', Inr ())" and "access_prepare env node w0 = (w1, Inr a)"
  shows "same_access (hw_inode w') (hw_inode w0)"
  using access_restore_done [OF assms(1)] access_prepare_done [OF assms(2)] by (simp add: same_access_def and.assoc)

text \<open>The operations on the node leave the files alone.\<close>

definition files_kept :: "helper_world \<Rightarrow> helper_world \<Rightarrow> bool" where
  "files_kept w w' \<longleftrightarrow>
     dk_files (hw_disk w') = dk_files (hw_disk w) \<and> set (dk_faults (hw_disk w')) \<subseteq> set (dk_faults (hw_disk w))
     \<and> hw_lease w' = hw_lease w \<and> hw_commands w' = hw_commands w \<and> hw_stdin w' = hw_stdin w"

lemma files_kept_refl [simp]: "files_kept w w" by (simp add: files_kept_def)

lemma files_kept_trans: "files_kept w w' \<Longrightarrow> files_kept w' w'' \<Longrightarrow> files_kept w w''"
  by (auto simp: files_kept_def)

lemma files_kept_andThen:
  assumes "files_kept w (fst r)" and "\<And>w' a. files_kept w' (fst (f w' a))"
  shows "files_kept w (fst (andThen r f))"
  using assms by (cases "(r, f)" rule: andThen.cases) (auto intro: files_kept_trans)

lemma sys_call_files:
  assumes "\<And>w. files_kept w (f w)"
  shows "files_kept w (fst (sys_call f w))"
proof -
  have "files_kept w (fst (on_disk (disk_call (\<lambda>dk. (dk, Inr ()))) w))"
    using disk_call_const [of "Inr ()" "hw_disk w"] disk_call_faults [of "\<lambda>dk. (dk, Inr ())" "hw_disk w"]
    by (auto simp: files_kept_def on_disk_def split: prod.splits)
  then show ?thesis unfolding sys_call_def by (rule files_kept_andThen) (use assms in simp)
qed

lemma validate_files: "files_kept w (fst (validate_wroid_touchscreen_node env node w))"
  "hw_inode (fst (validate_wroid_touchscreen_node env node w)) = hw_inode w"
  by (simp_all add: validate_wroid_touchscreen_node_def Let_def files_kept_def)

lemma access_set_files: "files_kept w (fst (access_set uid gid mode w))"
  unfolding access_set_def by (intro files_kept_andThen sys_call_files) (simp_all add: files_kept_def)

lemma access_restore_files: "files_kept w (fst (access_restore a w))"
  unfolding access_restore_def by (rule access_set_files)

lemma files_kept_case:
  assumes "files_kept w (fst r)" and "\<And>w1 r1. files_kept w1 (fst (f w1 r1))"
  shows "files_kept w (fst (case r of (w1, r1) \<Rightarrow> f w1 r1))"
  using assms by (cases r) (auto intro: files_kept_trans)

lemma access_prepare_files: "files_kept w (fst (access_prepare env node w))"
  unfolding access_prepare_def Let_def
  by (intro files_kept_andThen validate_files sys_call_files files_kept_case access_set_files)
    (auto simp: access_restore_files split: sum.split)

lemma access_cleanup_files: "files_kept w (fst (access_cleanup a w))"
  unfolding access_cleanup_def
  by (rule files_kept_case [OF access_restore_files]) (auto simp: access_restore_files split: sum.split)

section \<open>Success\<close>

lemma on_disk_facts:
  assumes "on_disk f w = (w', r)"
  shows "f (hw_disk w) = (hw_disk w', r)" "hw_inode w' = hw_inode w" "hw_lease w' = hw_lease w"
    "hw_commands w' = hw_commands w" "hw_stdin w' = hw_stdin w"
  using assms by (auto simp: on_disk_def split: prod.splits)

text \<open>The client asked for a clean up, after verifying or without.\<close>

definition requests_cleanup :: "string \<Rightarrow> bool" where
  "requests_cleanup bytes \<longleftrightarrow>
     prefix CLEANUP_COMMAND bytes \<or> prefix (VERIFY_ANDROID_INPUT_COMMAND @ CLEANUP_COMMAND) bytes"

text \<open>The last program that ran asked for the container's status and was told it is stopped.\<close>

definition found_stopped :: "helper_env \<Rightarrow> fixed_command list \<Rightarrow> bool" where
  "found_stopped env cs \<longleftrightarrow>
     (\<exists>before out. cs = before @ [lxc_status_command] \<and> he_answer env (length before) lxc_status_command = Inr out
        \<and> es_success (co_status out) \<and> trim (combined_output env out) = ''STOPPED'')"

lemma ensure_stopped_done:
  "ensure_container_stopped env w = (w', Inr ()) \<Longrightarrow> found_stopped env (hw_commands w')"
  by (auto simp: ensure_container_stopped_def run_command_def andThen_Inr_iff found_stopped_def split: if_splits)

lemma force_stop_done:
  "force_stop_waydroid_container env w = (w', Inr ()) \<Longrightarrow> found_stopped env (hw_commands w')"
  by (auto simp: force_stop_waydroid_container_def andThen_Inr_iff dest!: ensure_stopped_done
      split: prod.splits sum.splits if_splits)

text \<open>A command is read off the front of what the client sends.\<close>

lemma pipe_line:
  assumes "pipe_read_until limit p = (p', Inr line)" and "line \<noteq> []" "last line = LF"
  shows "bp_bytes p = line @ bp_bytes p'"
proof -
  let ?window = "take limit (bp_bytes p)"
  let ?line = "takeWhile (\<lambda>c. c \<noteq> LF) ?window"
  show ?thesis
  proof (cases "length ?line < length ?window")
    case True
    then have lf: "?window ! length ?line = LF" using nth_length_takeWhile [of "\<lambda>c. c \<noteq> LF" ?window] by simp
    have "?window = ?line @ ?window ! length ?line # drop (Suc (length ?line)) ?window"
      using True by (metis id_take_nth_drop takeWhile_eq_take)
    then have "bp_bytes p = ?line @ LF # drop (Suc (length ?line)) ?window @ drop limit (bp_bytes p)"
      using lf by (metis append.assoc append_Cons append_take_drop_id)
    then have "bp_bytes p = (?line @ [LF]) @ drop (Suc (length ?line)) (bp_bytes p)"
      by (metis append.assoc append_Cons append_Nil append_eq_conv_conj length_append_singleton)
    with assms(1) True show ?thesis by (auto simp: pipe_read_until_def Let_def)
  next
    case False
    then have "?line = ?window" by (metis length_takeWhile_le linorder_not_le nat_less_le takeWhile_eq_all_conv takeWhile_eq_take take_all_iff)
    then have "LF \<notin> set ?window" by (metis (mono_tags, lifting) takeWhile_eq_all_conv)
    with assms False show ?thesis
      by (auto simp: pipe_read_until_def Let_def split: if_splits option.splits)
  qed
qed

lemma read_command_done:
  assumes "read_helper_command w = (w1, Inr (Some c))"
  shows "bp_bytes (hw_stdin w)
    = (case c of HcVerifyAndroidInput \<Rightarrow> VERIFY_ANDROID_INPUT_COMMAND | HcCleanup \<Rightarrow> CLEANUP_COMMAND) @ bp_bytes (hw_stdin w1)"
proof -
  from assms obtain p line where read: "pipe_read_until (MAX_HELPER_COMMAND_BYTES + 1) (hw_stdin w) = (p, Inr line)"
    and parse: "parse_helper_command line = Inr (Some c)" and w1: "w1 = w\<lparr>hw_stdin := p\<rparr>"
    by (auto simp: read_helper_command_def bind_result_def split: prod.splits sum.splits)
  from parse have "line \<noteq> []" "last line = LF"
    "line = (case c of HcVerifyAndroidInput \<Rightarrow> VERIFY_ANDROID_INPUT_COMMAND | HcCleanup \<Rightarrow> CLEANUP_COMMAND)"
    by (auto simp: parse_helper_command_def split: if_splits)
  with pipe_line [OF read] w1 show ?thesis by simp
qed

lemma serve_verified_done:
  assumes "serve_helper_protocol verify True w = (w', Inr True)"
  shows "prefix CLEANUP_COMMAND (bp_bytes (hw_stdin w))"
proof -
  obtain w1 r where read: "read_helper_command w = (w1, r)" by fastforce
  with assms have "r = Inr (Some HcCleanup)"
    by (subst (asm) serve_helper_protocol.simps) (auto split: sum.splits option.splits helper_command.splits)
  with read_command_done [of w w1 HcCleanup] read show ?thesis by simp
qed

lemma serve_done:
  assumes "serve_helper_protocol verify False w = (w', Inr True)" and verify: "\<And>w. steps n w (fst (verify w))"
  shows "requests_cleanup (bp_bytes (hw_stdin w))"
proof -
  obtain w1 r where read: "read_helper_command w = (w1, r)" by fastforce
  show ?thesis
  proof (cases "r = Inr (Some HcCleanup)")
    case True
    with read_command_done [of w w1 HcCleanup] read show ?thesis by (simp add: requests_cleanup_def)
  next
    case False
    with assms(1) read obtain w2 w3 where r: "r = Inr (Some HcVerifyAndroidInput)"
      and 2: "verify w1 = (w2, Inr ())" and 3: "write_line ANDROID_INPUT_READY_LINE w2 = (w3, Inr ())"
      and rest: "serve_helper_protocol verify True w3 = (w', Inr True)"
      by (subst (asm) serve_helper_protocol.simps)
        (auto simp: andThen_Inr_iff split: sum.splits option.splits helper_command.splits)
    have "hw_stdin w3 = hw_stdin w1"
      using verify [of w1] write_line_steps [of w2 ANDROID_INPUT_READY_LINE] 2 3 by (simp add: steps_def)
    with serve_verified_done [OF rest] have "prefix CLEANUP_COMMAND (bp_bytes (hw_stdin w1))" by simp
    with read_command_done [of w w1 HcVerifyAndroidInput] read r show ?thesis by (simp add: requests_cleanup_def)
  qed
qed

lemma finish_helper_done:
  assumes "finish_helper env ib a (w, served) = (w', Inr ())"
  obtains b w1 w2 where "served = Inr b" "(if b then (w, Inr ()) else force_stop_waydroid_container env w) = (w1, Inr ())"
    "on_disk (cleanup_bridge (he_utf8 env) (pid_text env) ib) w1 = (w2, Inr ())" "access_restore a w2 = (w', Inr ())"
proof -
  obtain w1 r1 where 1: "(if served = Inr True then (w, Inr ()) else force_stop_waydroid_container env w) = (w1, r1)" by fastforce
  obtain w2 r2 where 2: "on_disk (cleanup_bridge (he_utf8 env) (pid_text env) ib) w1 = (w2, r2)" by fastforce
  obtain w3 r3 where 3: "access_cleanup a w2 = (w3, r3)" by fastforce
  have res: "w' = w3" "helper_result served (combine_helper_cleanup_results r1 (combine_bridge_cleanup_results r2 r3)) = Inr ()"
    using assms by (auto simp: finish_helper_def 1 2 3)
  then obtain b where b: "served = Inr b" "r1 = Inr ()" "r2 = Inr ()" "r3 = Inr ()"
    by (auto simp: helper_result_def combine_helper_cleanup_results_def combine_bridge_cleanup_results_def both_results_def
        split: sum.splits)
  have "access_restore a w2 = (w3, Inr ())"
    using 3 b by (auto simp: access_cleanup_def split: prod.splits sum.splits)
  with 1 2 b res that show thesis by (cases b) auto
qed

lemma wait_for_android_input_steps: "steps 362 w (fst (wait_for_android_input env w))"
  using wait_for_input_steps [of ANDROID_INPUT_ATTEMPTS w env "[]"]
  by (simp add: wait_for_android_input_def ANDROID_INPUT_ATTEMPTS_def)

lemma keeps_honest: "keeps w w' \<Longrightarrow> honest (hw_disk w) \<Longrightarrow> honest (hw_disk w')"
  by (auto simp: keeps_def honest_def)

lemma files_kept_honest: "files_kept w w' \<Longrightarrow> honest (hw_disk w) \<Longrightarrow> honest (hw_disk w')"
  by (auto simp: files_kept_def honest_def)

lemma clean_files: "dk_files dk' = dk_files dk \<Longrightarrow> clean paths dk' = clean paths dk"
  "dk_files dk' = dk_files dk \<Longrightarrow> installed_on paths ib dk' = installed_on paths ib dk"
  "dk_files dk' = dk_files dk \<Longrightarrow> unix_lines paths dk' = unix_lines paths dk"
  by (simp_all add: clean_def installed_on_def unix_lines_def)

lemma bridge_session_done:
  assumes run: "bridge_session env node a w = (w', Inr ())" and clean: "clean default_bridge_paths (hw_disk w)"
    and honest: "honest (hw_disk w)"
  shows "clean default_bridge_paths (hw_disk w')" "\<exists>w2. access_restore a w2 = (w', Inr ())" "hw_lease w' = hw_lease w"
    "requests_cleanup (bp_bytes (hw_stdin w)) \<or> found_stopped env (hw_commands w')"
proof -
  let ?paths = default_bridge_paths and ?verify = "wait_for_android_input env"
  note ok = default_paths_ok [of "pid_text env"]
  from run obtain w1 ib w2 where
    1: "on_disk (install_bridge (he_utf8 env) (pid_text env) ?paths node (cgroup_detect (he_unified env))) w = (w1, Inr ib)"
    and 2: "write_line READY_LINE w1 = (w2, Inr ())"
    and run2: "finish_helper env ib a (serve_helper_protocol ?verify False w2) = (w', Inr ())"
    by (auto simp: bridge_session_def split: prod.splits sum.splits)
  note d1 = on_disk_facts [OF 1]
  have ib: "installed_on ?paths ib (hw_disk w1)" by (rule install_on_clean [OF d1(1) clean ok])
  have h1: "honest (hw_disk w1)" using honest_mono [OF no_new_faults_install honest] d1(1) by (metis fst_conv)
  have s2: "steps 0 w1 w2" using write_line_steps [of w1 READY_LINE] 2 by simp
  obtain w3 served where 3: "serve_helper_protocol ?verify False w2 = (w3, served)" by fastforce
  have k3: "keeps w2 w3" using serve_frame [where verify = ?verify and w = w2, OF wait_for_android_input_steps] 3 by simp
  obtain b w4 w5 where served: "served = Inr b"
    and 4: "(if b then (w3, Inr ()) else force_stop_waydroid_container env w3) = (w4, Inr ())"
    and 5: "on_disk (cleanup_bridge (he_utf8 env) (pid_text env) ib) w4 = (w5, Inr ())"
    and 6: "access_restore a w5 = (w', Inr ())"
    by (rule finish_helper_done [OF run2 [unfolded 3]])
  have k4: "keeps w3 w4" using 4 force_stop_steps [of w3 env] by (auto simp: steps_def split: if_splits)
  note k14 = keeps_trans [OF keeps_trans [OF _ k3] k4, of w1]
  have k: "keeps w1 w4" using k14 s2 by (simp add: steps_def)
  note d5 = on_disk_facts [OF 5]
  have f6: "files_kept w5 w'" using access_restore_files [of w5 a] 6 by simp
  have "installed_on ?paths ib (hw_disk w4)" "honest (hw_disk w4)"
    using ib keeps_honest [OF k h1] k clean_files(2) [of "hw_disk w4" "hw_disk w1"] by (auto simp: keeps_def)
  then have "clean ?paths (hw_disk w5)" by (intro cleanup_clean [OF d5(1) _ ok]) auto
  then show "clean ?paths (hw_disk w')" using f6 clean_files(1) [of "hw_disk w'" "hw_disk w5"] by (simp add: files_kept_def)
  show "\<exists>w2. access_restore a w2 = (w', Inr ())" using 6 by blast
  show "hw_lease w' = hw_lease w" using f6 d5(3) k d1(3) by (simp add: files_kept_def keeps_def)
  show "requests_cleanup (bp_bytes (hw_stdin w)) \<or> found_stopped env (hw_commands w')"
  proof (cases b)
    case True
    have "serve_helper_protocol ?verify False w2 = (w3, Inr True)" using 3 served True by simp
    from serve_done [OF this wait_for_android_input_steps] s2 d1(5) show ?thesis by (simp add: steps_def)
  next
    case False
    then have "force_stop_waydroid_container env w3 = (w4, Inr ())" using 4 by simp
    from force_stop_done [OF this] f6 d5(4) show ?thesis by (simp add: files_kept_def)
  qed
qed

lemma sys_call_id_files: "files_kept w (fst (sys_call id w))" by (rule sys_call_files) simp

lemma root_files: "files_kept w (fst (assume_full_root_identity w))"
  unfolding assume_full_root_identity_def by (intro files_kept_andThen sys_call_id_files)

lemma sys_call_inode: "hw_inode (fst (sys_call id w)) = hw_inode w"
  by (auto simp: sys_call_def on_disk_def split: prod.splits andThen_split)

lemma root_inode: "hw_inode (fst (assume_full_root_identity w)) = hw_inode w"
  unfolding assume_full_root_identity_def
  by (auto split: andThen_split) (metis fst_conv sys_call_inode)+

lemma acquire_facts:
  assumes "acquire_default_lease env owner w = (w', r)"
  shows "dk_files (hw_disk w') = dk_files (hw_disk w)" "set (dk_faults (hw_disk w')) \<subseteq> set (dk_faults (hw_disk w))"
    "hw_inode w' = hw_inode w" "hw_commands w' = hw_commands w" "hw_stdin w' = hw_stdin w"
    "r = Inr () \<Longrightarrow> lf_holder (hw_lease w) = None"
    "r \<noteq> Inr () \<Longrightarrow> hw_lease w' = hw_lease w"
proof -
  have two: "files_kept w (fst (andThen (sys_call id w) (\<lambda>w _. sys_call id w)))"
    "hw_inode (fst (andThen (sys_call id w) (\<lambda>w _. sys_call id w))) = hw_inode w"
    by (intro files_kept_andThen sys_call_id_files)
      (auto split: andThen_split, metis fst_conv sys_call_inode, metis fst_conv sys_call_inode)
  obtain w2 r2 where 2: "andThen (sys_call id w) (\<lambda>w _. sys_call id w) = (w2, r2)" by fastforce
  have "acquire_default_lease env owner w = andThen (w2, r2) (\<lambda>w _.
       case acquire_lease ''the Waydroid input bridge'' (\<lambda>n. show_nat (unat n)) (he_pid env) owner (hw_lease w) of
         (lf, r) \<Rightarrow> (w\<lparr>hw_lease := lf\<rparr>, r))"
    unfolding acquire_default_lease_def 2 [symmetric] by (cases "sys_call id w"; cases "snd (sys_call id w)") auto
  with assms two 2 show "dk_files (hw_disk w') = dk_files (hw_disk w)" "set (dk_faults (hw_disk w')) \<subseteq> set (dk_faults (hw_disk w))"
    "hw_inode w' = hw_inode w" "hw_commands w' = hw_commands w" "hw_stdin w' = hw_stdin w"
    "r = Inr () \<Longrightarrow> lf_holder (hw_lease w) = None" "r \<noteq> Inr () \<Longrightarrow> hw_lease w' = hw_lease w"
    by (cases r2; auto simp: files_kept_def acquire_lease_def Let_def split: option.splits)+
qed

lemma run_leased_done:
  assumes run: "run_leased env event_node w = (w', Inr ())" and honest: "honest (hw_disk w)"
    and lines: "unix_lines default_bridge_paths (hw_disk w)"
  shows "clean default_bridge_paths (hw_disk w')" "same_access (hw_inode w') (hw_inode w)"
    "requests_cleanup (bp_bytes (hw_stdin w)) \<or> found_stopped env (hw_commands w')"
proof -
  obtain node where node: "node_from_path (he_stat env) event_node = Inr node"
    using run by (cases "node_from_path (he_stat env) event_node") (auto simp: run_leased_def andThen_Inr_iff)
  with run obtain w4 w5 w6 w7 w8 a w9 where
    4: "wait_for_container_stopped env w = (w4, Inr ())"
    and 5: "on_disk (remove_bridge (he_utf8 env) (pid_text env) default_bridge_paths) w4 = (w5, Inr ())"
    and 6: "validate_wroid_touchscreen_node env node w5 = (w6, Inr ())"
    and 7: "settle_wroid_input_udev env w6 = (w7, Inr ())"
    and 8: "validate_wroid_touchscreen_node env node w7 = (w8, Inr ())"
    and 9: "access_prepare env node w8 = (w9, Inr a)"
    and rest: "bridge_session env node a w9 = (w', Inr ())"
    by (auto simp: run_leased_def andThen_Inr_iff)
  have k4: "steps 30 w w4"
    using wait_stopped_steps [of CONTAINER_STOP_ATTEMPTS w env "[]"] 4
    by (simp add: wait_for_container_stopped_def CONTAINER_STOP_ATTEMPTS_def)
  note d5 = on_disk_facts [OF 5]
  have f6: "files_kept w5 w6" "hw_inode w6 = hw_inode w5" using validate_files(1) [of w5 env node] validate_files(2) [of env node w5] 6 by simp_all
  have k7: "steps 1 w6 w7" using settle_steps [of w6 env] 7 by simp
  have f8: "files_kept w7 w8" "hw_inode w8 = hw_inode w7" using validate_files(1) [of w7 env node] validate_files(2) [of env node w7] 8 by simp_all
  have f9: "files_kept w8 w9" using access_prepare_files [of w8 env node] 9 by simp
  have k: "keeps w w4" and k7': "keeps w6 w7" using k4 k7 by (simp_all add: steps_def)
  have h4: "honest (hw_disk w4)" "unix_lines default_bridge_paths (hw_disk w4)"
    using keeps_honest [OF k honest] k lines clean_files(3) [of "hw_disk w4" "hw_disk w"] by (auto simp: keeps_def)
  have c5: "clean default_bridge_paths (hw_disk w5)"
    by (rule remove_bridge_clean [OF d5(1) default_paths_ok h4])
  have h5: "honest (hw_disk w5)" using honest_mono [OF no_new_faults_remove_bridge h4(1)] d5(1) by (metis fst_conv)
  have h9: "honest (hw_disk w9)"
    by (rule files_kept_honest [OF f9 files_kept_honest [OF f8(1) keeps_honest [OF k7' files_kept_honest [OF f6(1) h5]]]])
  have "dk_files (hw_disk w9) = dk_files (hw_disk w5)"
    using f6 k7' f8 f9 by (simp add: files_kept_def keeps_def)
  then have c9: "clean default_bridge_paths (hw_disk w9)" using c5 clean_files(1) by blast
  note finished = bridge_session_done [OF rest c9 h9]
  show "clean default_bridge_paths (hw_disk w')" by (rule finished(1))
  have "hw_inode w8 = hw_inode w" using k d5(2) f6 k7' f8 by (simp add: keeps_def)
  with finished(2) restored_access [OF _ 9] show "same_access (hw_inode w') (hw_inode w)" by auto
  have "hw_stdin w9 = hw_stdin w" using k4 d5(5) f6 k7 f8 f9 by (simp add: steps_def files_kept_def)
  with finished(4) show "requests_cleanup (bp_bytes (hw_stdin w)) \<or> found_stopped env (hw_commands w')" by simp
qed

text \<open>C26. When the helper reports success, then whichever system calls failed on the way and whatever its programs
  answered: the managed configuration is gone and no line includes it, the node has its owner, group and mode back,
  the lease is free, and the container is stopped - its last status said so - unless the client asked for the clean
  up itself. No failing call may claim that a file is missing which is there.\<close>

theorem helper_success_undoes_all:
  assumes run: "run_privileged_bridge_helper env event_node w = (w', Inr ())"
    and honest: "honest (hw_disk w)" and lines: "unix_lines default_bridge_paths (hw_disk w)"
  shows "clean default_bridge_paths (hw_disk w') \<and> same_access (hw_inode w') (hw_inode w)
    \<and> lf_holder (hw_lease w) = None \<and> lf_holder (hw_lease w') = None
    \<and> (requests_cleanup (bp_bytes (hw_stdin w)) \<or> found_stopped env (hw_commands w'))"
proof -
  from run obtain w1 w2 where 1: "assume_full_root_identity w = (w1, Inr ())"
    and 2: "acquire_default_lease env ''privileged bridge helper'' w1 = (w2, Inr ())"
    and run2: "(case run_leased env event_node w2 of (w', r) \<Rightarrow> (w'\<lparr>hw_lease := release_lease (hw_lease w')\<rparr>, r)) = (w', Inr ())"
    by (auto simp: run_privileged_bridge_helper_def andThen_Inr_iff split: sum.splits)
  then obtain w3 where 3: "run_leased env event_node w2 = (w3, Inr ())"
    and w': "w' = w3\<lparr>hw_lease := release_lease (hw_lease w3)\<rparr>"
    by (auto split: prod.splits)
  have f1: "files_kept w w1" "hw_inode w1 = hw_inode w" using root_files [of w] root_inode [of w] 1 by simp_all
  note f2 = acquire_facts [OF 2]
  have "honest (hw_disk w2)" using files_kept_honest [OF f1(1) honest] f2(2) by (auto simp: honest_def)
  moreover have "unix_lines default_bridge_paths (hw_disk w2)"
    using lines f1(1) f2(1) clean_files(3) [of "hw_disk w2" "hw_disk w"] by (simp add: files_kept_def)
  ultimately show ?thesis
    using run_leased_done [OF 3] f1 f2(3,5,6) by (auto simp: w' release_lease_def files_kept_def)
qed

section \<open>Bounds\<close>

lemma runs_0_on_disk: "runs n w (fst (on_disk f w))"
  by (auto simp: on_disk_def runs_def split: prod.split)

lemma files_kept_runs: "files_kept w w' \<Longrightarrow> runs n w w'"
  by (simp add: files_kept_def runs_same)

lemma runs_case:
  assumes "runs m w (fst r)" and "\<And>w1 r1. r = (w1, r1) \<Longrightarrow> runs n w1 (fst (f w1 r1))" and "m + n \<le> k"
  shows "runs k w (fst (case r of (w1, r1) \<Rightarrow> f w1 r1))"
  using assms by (cases r) (auto intro: runs_trans)

lemma finish_helper_runs: "runs 3 w (fst (finish_helper env ib a (w, served)))"
proof -
  have stop: "runs 3 w (fst (if served = Inr True then (w, Inr ()) else force_stop_waydroid_container env w))"
    using force_stop_steps [of w env] by (auto simp: steps_def)
  show ?thesis
    unfolding finish_helper_def prod.case
    by (intro runs_case [OF stop, where n = 0] runs_case [where m = 0 and n = 0] runs_0_on_disk
        files_kept_runs [OF access_cleanup_files]) simp_all
qed

lemma bridge_session_runs: "runs 365 w (fst (bridge_session env node a w))"
proof -
  have served: "runs 365 w2 (fst (finish_helper env ib a (serve_helper_protocol (wait_for_android_input env) False w2)))"
    for ib w2
  proof -
    obtain w3 r where 3: "serve_helper_protocol (wait_for_android_input env) False w2 = (w3, r)" by fastforce
    have "runs 362 w2 w3"
      using serve_frame [where verify = "wait_for_android_input env" and w = w2, OF wait_for_android_input_steps] 3 by simp
    then show ?thesis unfolding 3 by (rule runs_trans [OF _ finish_helper_runs]) simp
  qed
  have lines: "runs 0 w (fst (write_line l w))" for l w using write_line_steps by (simp add: steps_def)
  have dropped: "runs 0 w (fst (access_restore a w))" for w by (rule files_kept_runs [OF access_restore_files])
  have dropped2: "runs 0 w (fst (access_restore a (fst (on_disk f w))))" for w and f :: "disk \<Rightarrow> unit disk_st"
    by (rule runs_trans [OF runs_0_on_disk [of 0] dropped]) simp
  have mono: "runs 0 w w' \<Longrightarrow> runs 365 w w'" for w w' by (auto simp: runs_def)
  show ?thesis
    unfolding bridge_session_def
    by (rule runs_case [OF runs_0_on_disk [of 0], where n = 365])
      (auto split: sum.split intro: mono dropped
        intro!: runs_case [OF lines, where n = 365] mono [OF dropped2] served)
qed

lemma run_leased_runs: "runs 396 w (fst (run_leased env event_node w))"
proof -
  have settle: "runs 366 w (fst (andThen (settle_wroid_input_udev env w) (\<lambda>w _.
      andThen (validate_wroid_touchscreen_node env node w) (\<lambda>w _.
      andThen (access_prepare env node w) (\<lambda>w a. bridge_session env node a w)))))" for node w
  proof (rule runs_andThen [where m = 1 and n = 365])
    show "runs 1 w (fst (settle_wroid_input_udev env w))" using settle_steps by (simp add: steps_def)
    show "runs 365 w (fst (andThen (validate_wroid_touchscreen_node env node w) (\<lambda>w _.
      andThen (access_prepare env node w) (\<lambda>w a. bridge_session env node a w))))" for w
      by (rule runs_andThen [where m = 0 and n = 365, OF files_kept_runs [OF validate_files(1)]],
          rule runs_andThen [where m = 0 and n = 365, OF files_kept_runs [OF access_prepare_files]])
        (simp_all add: bridge_session_runs)
  qed simp
  have node: "runs 366 w (fst (case node_from_path (he_stat env) event_node of
         Inl err \<Rightarrow> (w, Inl err)
       | Inr node \<Rightarrow>
           andThen (validate_wroid_touchscreen_node env node w) (\<lambda>w _.
           andThen (settle_wroid_input_udev env w) (\<lambda>w _.
           andThen (validate_wroid_touchscreen_node env node w) (\<lambda>w _.
           andThen (access_prepare env node w) (\<lambda>w a. bridge_session env node a w))))))" for w
  proof (cases "node_from_path (he_stat env) event_node")
    case (Inr node)
    show ?thesis
      unfolding Inr sum.case
      by (rule runs_andThen [where m = 0 and n = 366, OF files_kept_runs [OF validate_files(1)]]) (simp_all add: settle)
  qed simp
  have stop: "runs 30 w (fst (wait_for_container_stopped env w))"
    using wait_stopped_steps [of CONTAINER_STOP_ATTEMPTS w env "[]"]
    by (simp add: wait_for_container_stopped_def CONTAINER_STOP_ATTEMPTS_def steps_def)
  show ?thesis
    unfolding run_leased_def
    by (rule runs_andThen [OF stop, where n = 366], rule runs_andThen [where m = 0 and n = 366])
      (simp_all add: runs_0_on_disk node)
qed

text \<open>C30. The setuid helper only ever runs its eight fixed programs, and at most 396 of them, whatever its client
  sends, whatever the programs answer and whichever system calls fail.\<close>

theorem helper_runs_fixed_programs:
  "\<exists>cs. hw_commands (fst (run_privileged_bridge_helper env event_node w)) = hw_commands w @ cs \<and> length cs \<le> 396
    \<and> set cs \<subseteq> {lxc_status_command, lxc_stop_command, udev_settle_command, android_input_unfreeze_command,
        android_input_probe_command, android_dumpsys_input_command, android_show_touches_off_command,
        android_pointer_location_off_command}"
proof -
  have leased: "runs 396 w (fst (case run_leased env event_node w of
      (w', r) \<Rightarrow> (w'\<lparr>hw_lease := release_lease (hw_lease w')\<rparr>, r)))" for w
    by (rule runs_case [OF run_leased_runs, where n = 0]) (simp_all add: runs_def)
  have acquire: "runs 0 w (fst (acquire_default_lease env owner w))" for w owner
    using acquire_facts(4) [of env owner w] by (cases "acquire_default_lease env owner w") (simp add: runs_def)
  have "runs 396 w (fst (run_privileged_bridge_helper env event_node w))"
    unfolding run_privileged_bridge_helper_def
    by (auto split: sum.split intro!: runs_andThen [OF files_kept_runs [OF root_files], where m = 0 and n = 396]
        runs_andThen [OF acquire, where n = 396] leased)
  then show ?thesis by (simp add: runs_def helper_programs_def)
qed

section \<open>No trace\<close>

lemma quiet_remove_bridge:
  assumes quiet: "dk_faults dk = []" and ok: "paths_ok pid paths" and run: "remove_bridge utf8 pid paths dk = (dk', r)"
  shows "dk_faults dk' = []" "r = Inr () \<or> dk_files dk' = dk_files dk"
proof -
  show "dk_faults dk' = []"
    using no_new_faults_remove_bridge [of utf8 pid paths dk] run quiet by (simp add: no_new_faults_def)
  obtain dk1 r1 where 1: "disk_read (main_config paths) dk = (dk1, r1)" by fastforce
  note c1 = disk_read_cases [OF 1]
  show "r = Inr () \<or> dk_files dk' = dk_files dk"
  proof (cases "\<exists>main m. dk_files dk (main_config paths) = Some (main, m) \<and> utf8 main")
    case True
    then obtain main m where main: "dk_files dk (main_config paths) = Some (main, m)" "utf8 main" by blast
    obtain dk2 where 2: "remove_managed_include utf8 pid paths dk = (dk2, Inr ())" "dk_faults dk2 = []"
      by (rule remove_managed_include_ok [where ?utf8.0 = utf8 and pid = pid, OF quiet main ok])
    obtain dk3 r3 where 3: "remove_file_if_exists (managed_config paths) dk2 = (dk3, r3)" by fastforce
    with run 2 remove_file_cases(2) [OF 3] show ?thesis by (simp add: remove_bridge_def)
  next
    case False
    then have "remove_managed_include utf8 pid paths dk = (dk1, Inl err) \<Longrightarrow> ?thesis" for err
      using run c1(1) by (simp add: remove_bridge_def)
    moreover have "\<exists>err. remove_managed_include utf8 pid paths dk = (dk1, Inl err)"
      using False c1(2) by (cases r1) (auto simp: remove_managed_include_def disk_read_text_def 1)
    ultimately show ?thesis by blast
  qed
qed

lemma quiet_install:
  assumes quiet: "dk_faults dk = []" and ok: "paths_ok pid paths"
    and run: "install_bridge utf8 pid paths node cgroup dk = (dk', r)"
  shows "dk_faults dk' = []" "(\<exists>ib. r = Inr ib) \<or> dk_files dk' = dk_files dk"
proof -
  show "dk_faults dk' = []"
    using no_new_faults_install [of utf8 pid paths node cgroup dk] run quiet by (simp add: no_new_faults_def)
  obtain dk1 r1 where 1: "read_for_install utf8 paths node cgroup dk = (dk1, r1)" by fastforce
  show "(\<exists>ib. r = Inr ib) \<or> dk_files dk' = dk_files dk"
  proof (cases r1)
    case (Inl err)
    with run 1 read_for_install_reads [of utf8 paths node cgroup dk] show ?thesis
      by (simp add: install_bridge_def reads_only_def)
  next
    case (Inr inp)
    obtain m where "dk_faults dk1 = []" by (rule read_for_install_ok [OF 1 [unfolded Inr]]) (use quiet in blast)
    from write_install_quiet [OF this ok, of inp] run 1 Inr show ?thesis by (auto simp: install_bridge_def)
  qed
qed

lemma quiet_cleanup:
  assumes quiet: "dk_faults dk = []" and ok: "paths_ok pid paths" and ib: "installed_on paths ib dk"
    and main: "dk_files dk (main_config paths) = Some (main, m)" "utf8 main"
    and run: "cleanup_bridge utf8 pid ib dk = (dk', r)"
  shows "r = Inr ()" "dk_faults dk' = []"
proof -
  obtain dk1 where 1: "remove_managed_include utf8 pid paths dk = (dk1, Inr ())" "dk_faults dk1 = []"
    by (rule remove_managed_include_ok [where ?utf8.0 = utf8 and pid = pid, OF quiet main ok])
  obtain dk2 r2 where 2: "remove_file_if_exists (managed_config paths) dk1 = (dk2, r2)" by fastforce
  note c = remove_file_cases(2) [OF 2 1(2)]
  have "restore_bridge utf8 pid ib dk = (dk2, Inr ())"
    using ib 1 2 c by (simp add: restore_bridge_def installed_on_def restore_managed_file_def both_results_def)
  with run c show "r = Inr ()" "dk_faults dk' = []" by (auto simp: cleanup_bridge_def)
qed

text \<open>What holds from the removal of an old bridge on: the files are clean, nothing fails, and the node and the lease
  are as they were.\<close>

definition undone :: "helper_world \<Rightarrow> helper_world \<Rightarrow> bool" where
  "undone w0 w \<longleftrightarrow>
     clean default_bridge_paths (hw_disk w) \<and> dk_faults (hw_disk w) = []
     \<and> same_access (hw_inode w) (hw_inode w0) \<and> hw_lease w = hw_lease w0"

lemma undone_keeps: "undone w0 w \<Longrightarrow> keeps w w' \<Longrightarrow> undone w0 w'"
  using clean_files(1) [of "hw_disk w'" "hw_disk w" default_bridge_paths] by (auto simp: undone_def keeps_def)

lemma undone_files: "undone w0 w \<Longrightarrow> files_kept w w' \<Longrightarrow> hw_inode w' = hw_inode w \<Longrightarrow> undone w0 w'"
  using clean_files(1) [of "hw_disk w'" "hw_disk w" default_bridge_paths] by (auto simp: undone_def files_kept_def)

lemma undone_andThen:
  assumes "undone w0 (fst r)" and "\<And>w' a. r = (w', Inr a) \<Longrightarrow> undone w0 (fst (f w' a))"
  shows "undone w0 (fst (andThen r f))"
  using assms by (cases "(r, f)" rule: andThen.cases) auto

lemma quiet_sys_call:
  "dk_faults (hw_disk w) = [] \<Longrightarrow> sys_call f w = (f w, Inr ())"
  by (simp add: sys_call_def on_disk_def disk_call_def)

lemma quiet_restore:
  assumes "dk_faults (hw_disk w) = []"
  shows "access_restore a w
    = (w\<lparr>hw_inode := \<lparr>ei_uid = ia_uid a, ei_gid = ia_gid a, ei_mode = ia_mode a\<rparr>\<rparr>, Inr ())"
  using assms by (cases "hw_inode w") (simp add: access_restore_def access_set_def quiet_sys_call)

text \<open>UTF-8 text stays UTF-8 when the include line, which is ASCII, is added.\<close>

definition utf8_ok :: "helper_env \<Rightarrow> bool" where
  "utf8_ok env \<longleftrightarrow> (\<forall>t. he_utf8 env t \<longrightarrow> he_utf8 env (add_include t (include_line (managed_config default_bridge_paths))))"

text \<open>The access guard of \<open>access_prepare\<close>, and its restoration.\<close>

definition guards :: "input_access \<Rightarrow> helper_world \<Rightarrow> bool" where
  "guards a w0 \<longleftrightarrow> same_access \<lparr>ei_uid = ia_uid a, ei_gid = ia_gid a, ei_mode = ia_mode a\<rparr> (hw_inode w0)"

definition lent :: "helper_world \<Rightarrow> helper_world \<Rightarrow> bool" where
  "lent w0 w \<longleftrightarrow>
     clean default_bridge_paths (hw_disk w) \<and> dk_faults (hw_disk w) = [] \<and> hw_lease w = hw_lease w0"

lemma restored_undone: "lent w0 w \<Longrightarrow> guards a w0 \<Longrightarrow> undone w0 (fst (access_restore a w))"
  by (simp add: lent_def guards_def undone_def quiet_restore)

lemma cleanup_undone: "lent w0 w \<Longrightarrow> guards a w0 \<Longrightarrow> undone w0 (fst (access_cleanup a w))"
  using restored_undone [of w0 w a] by (simp add: lent_def access_cleanup_def quiet_restore)

lemma bridge_session_undone:
  assumes lent: "lent w0 w" and guards: "guards a w0" and utf8: "utf8_ok env"
  shows "undone w0 (fst (bridge_session env node a w))"
proof -
  let ?paths = default_bridge_paths and ?verify = "wait_for_android_input env"
  note ok = default_paths_ok [of "pid_text env"]
  obtain w1 r where 1: "on_disk (install_bridge (he_utf8 env) (pid_text env) ?paths node (cgroup_detect (he_unified env))) w = (w1, r)"
    by fastforce
  note d1 = on_disk_facts [OF 1]
  have q: "dk_faults (hw_disk w) = []" "clean ?paths (hw_disk w)" using lent by (simp_all add: lent_def)
  note inst = quiet_install [OF q(1) ok d1(1)]
  show ?thesis
  proof (cases r)
    case (Inl err)
    with inst d1 lent have "lent w0 w1" using clean_files(1) [of "hw_disk w1" "hw_disk w" ?paths] by (auto simp: lent_def)
    from restored_undone [OF this guards] show ?thesis by (simp add: bridge_session_def 1 Inl)
  next
    case (Inr ib)
    note run = d1(1) [unfolded Inr]
    obtain main m m' where main: "dk_files (hw_disk w1) (main_config ?paths)
        = Some (add_include main (include_line (managed_config ?paths)), m')" "he_utf8 env main"
      using install_on_clean(2) [OF run q(2) ok] by blast
    have ib: "installed_on ?paths ib (hw_disk w1)" by (rule install_on_clean(1) [OF run q(2) ok])
    obtain w2 where 2: "write_line READY_LINE w1 = (w2, Inr ())" using inst(1) by (simp add: write_line_def quiet_sys_call)
    obtain w3 served where 3: "serve_helper_protocol ?verify False w2 = (w3, served)" by fastforce
    obtain w4 stopped where 4: "(if served = Inr True then (w3, Inr ()) else force_stop_waydroid_container env w3) = (w4, stopped)"
      by fastforce
    have k: "keeps w1 w4"
      using write_line_steps [of w1 READY_LINE] serve_frame [where verify = ?verify and w = w2, OF wait_for_android_input_steps]
        force_stop_steps [of w3 env] 2 3 4
      by (auto simp: steps_def split: if_splits intro: keeps_trans)
    obtain w5 cleaned where 5: "on_disk (cleanup_bridge (he_utf8 env) (pid_text env) ib) w4 = (w5, cleaned)" by fastforce
    note d5 = on_disk_facts [OF 5]
    have w4: "dk_faults (hw_disk w4) = []" "installed_on ?paths ib (hw_disk w4)"
      "dk_files (hw_disk w4) (main_config ?paths) = Some (add_include main (include_line (managed_config ?paths)), m')"
      using k inst(1) ib clean_files(2) [of "hw_disk w4" "hw_disk w1"] main by (auto simp: keeps_def)
    have "he_utf8 env (add_include main (include_line (managed_config ?paths)))" using utf8 main by (simp add: utf8_ok_def)
    note c5 = quiet_cleanup [OF w4(1) ok w4(2,3) this d5(1)]
    have "clean ?paths (hw_disk w5)" by (rule cleanup_clean [OF d5(1) [unfolded c5(1)] w4(2) ok quiet_honest [OF w4(1)]])
    with c5(2) d5(3) k d1(3) lent have "lent w0 w5" by (simp add: lent_def keeps_def)
    from cleanup_undone [OF this guards] show ?thesis
      by (cases "access_cleanup a w5") (simp add: bridge_session_def 1 Inr 2 3 finish_helper_def 4 5)
  qed
qed

lemma access_prepare_undone:
  assumes w: "undone w0 w" and run: "access_prepare env node w = (w', r)"
  shows "case r of Inl _ \<Rightarrow> undone w0 w' | Inr a \<Rightarrow> lent w0 w' \<and> guards a w0"
proof -
  obtain w1 r1 where 1: "validate_wroid_touchscreen_node env node w = (w1, r1)" by fastforce
  have u1: "undone w0 w1" using undone_files [OF w, of w1] validate_files(1) [of w env node] validate_files(2) [of env node w] 1 by simp
  then have q: "dk_faults (hw_disk w1) = []" by (simp add: undone_def)
  show ?thesis
  proof (cases r1)
    case (Inl err)
    with run u1 show ?thesis by (auto simp: access_prepare_def 1)
  next
    case (Inr u)
    with run u1 q show ?thesis
      by (auto simp: access_prepare_def 1 quiet_sys_call access_set_def Let_def lent_def undone_def guards_def
          same_access_def and.assoc)
  qed
qed

lemma tail_undone:
  assumes w: "undone w0 w" and utf8: "utf8_ok env"
  shows "undone w0 (fst (andThen (validate_wroid_touchscreen_node env node w) (\<lambda>w _.
      andThen (settle_wroid_input_udev env w) (\<lambda>w _.
      andThen (validate_wroid_touchscreen_node env node w) (\<lambda>w _.
      andThen (access_prepare env node w) (\<lambda>w a. bridge_session env node a w))))))"
proof -
  have validate: "undone w0 w \<Longrightarrow> undone w0 (fst (validate_wroid_touchscreen_node env node w))" for w
    using undone_files validate_files by blast
  have settle: "undone w0 w \<Longrightarrow> undone w0 (fst (settle_wroid_input_udev env w))" for w
    using undone_keeps settle_steps by (auto simp: steps_def)
  have prepare: "undone w0 (fst (andThen (access_prepare env node w) (\<lambda>w a. bridge_session env node a w)))"
    if "undone w0 w" for w
  proof -
    obtain w' r where r: "access_prepare env node w = (w', r)" by fastforce
    from access_prepare_undone [OF that r] bridge_session_undone [OF _ _ utf8] show ?thesis
      unfolding r by (cases r) auto
  qed
  show ?thesis
  proof (rule undone_andThen [OF validate [OF w]])
    fix w1 u assume "validate_wroid_touchscreen_node env node w = (w1, Inr u)"
    with validate [OF w] have w1: "undone w0 w1" by simp
    show "undone w0 (fst (andThen (settle_wroid_input_udev env w1) (\<lambda>w _.
        andThen (validate_wroid_touchscreen_node env node w) (\<lambda>w _.
        andThen (access_prepare env node w) (\<lambda>w a. bridge_session env node a w)))))"
    proof (rule undone_andThen [OF settle [OF w1]])
      fix w2 u assume "settle_wroid_input_udev env w1 = (w2, Inr u)"
      with settle [OF w1] have w2: "undone w0 w2" by simp
      show "undone w0 (fst (andThen (validate_wroid_touchscreen_node env node w2) (\<lambda>w _.
          andThen (access_prepare env node w) (\<lambda>w a. bridge_session env node a w))))"
      proof (rule undone_andThen [OF validate [OF w2]])
        fix w3 u assume "validate_wroid_touchscreen_node env node w2 = (w3, Inr u)"
        with validate [OF w2] have "undone w0 w3" by simp
        then show "undone w0 (fst (andThen (access_prepare env node w3) (\<lambda>w a. bridge_session env node a w)))"
          by (rule prepare)
      qed
    qed
  qed
qed

lemma run_leased_undone:
  assumes quiet: "dk_faults (hw_disk w) = []" and lines: "unix_lines default_bridge_paths (hw_disk w)" and utf8: "utf8_ok env"
  shows "(dk_files (hw_disk (fst (run_leased env event_node w))) = dk_files (hw_disk w)
      \<or> clean default_bridge_paths (hw_disk (fst (run_leased env event_node w))))
    \<and> same_access (hw_inode (fst (run_leased env event_node w))) (hw_inode w)"
proof -
  obtain w1 r1 where 1: "wait_for_container_stopped env w = (w1, r1)" by fastforce
  have k1: "keeps w w1" using wait_stopped_steps [of CONTAINER_STOP_ATTEMPTS w env "[]"] 1
    by (simp add: wait_for_container_stopped_def steps_def)
  then have q1: "dk_faults (hw_disk w1) = []" "unix_lines default_bridge_paths (hw_disk w1)"
    using quiet lines clean_files(3) [of "hw_disk w1" "hw_disk w" default_bridge_paths] by (auto simp: keeps_def)
  obtain w2 r2 where 2: "on_disk (remove_bridge (he_utf8 env) (pid_text env) default_bridge_paths) w1 = (w2, r2)" by fastforce
  note d2 = on_disk_facts [OF 2]
  note removed = quiet_remove_bridge [OF q1(1) default_paths_ok d2(1)]
  show ?thesis
  proof (cases "r1 = Inr () \<and> r2 = Inr ()")
    case False
    then show ?thesis
      using 1 2 k1 d2(2) removed by (cases r1; cases r2) (auto simp: run_leased_def keeps_def)
  next
    case True
    note run2 = d2(1) [unfolded conjunct2 [OF True]]
    have "clean default_bridge_paths (hw_disk w2)"
      by (rule remove_bridge_clean [OF run2 default_paths_ok quiet_honest [OF q1(1)] q1(2)])
    then have u2: "undone w2 w2" using removed(1) by (simp add: undone_def)
    have inode: "hw_inode w2 = hw_inode w" using d2(2) k1 by (simp add: keeps_def)
    show ?thesis
    proof (cases "node_from_path (he_stat env) event_node")
      case (Inl err)
      with True 1 2 u2 inode show ?thesis by (simp add: run_leased_def undone_def)
    next
      case (Inr node)
      with True 1 2 tail_undone [OF u2 utf8, of node] inode show ?thesis by (simp add: run_leased_def undone_def)
    qed
  qed
qed

text \<open>C27. On a machine where no system call fails, the helper leaves no trace, however its run ends - whatever its
  client sends, whatever its programs answer and whether it reports success or an error: it refused before touching
  anything and the files are as they were, or the managed configuration is gone and no line includes it; the node has
  its owner, group and mode, and the lease is held by whoever held it before.\<close>

theorem helper_leaves_no_trace:
  assumes quiet: "dk_faults (hw_disk w) = []" and lines: "unix_lines default_bridge_paths (hw_disk w)"
    and utf8: "utf8_ok env" and run: "run_privileged_bridge_helper env event_node w = (w', r)"
  shows "(dk_files (hw_disk w') = dk_files (hw_disk w) \<or> clean default_bridge_paths (hw_disk w'))
    \<and> same_access (hw_inode w') (hw_inode w) \<and> lf_holder (hw_lease w') = lf_holder (hw_lease w)"
proof (cases "ensure_root env ''Wroid privileged input bridge helper''")
  case (Inl err)
  with run show ?thesis by (simp add: run_privileged_bridge_helper_def)
next
  case (Inr u)
  have root: "assume_full_root_identity w = (w, Inr ())"
    using quiet by (simp add: assume_full_root_identity_def quiet_sys_call)
  obtain w2 r2 where 2: "acquire_default_lease env ''privileged bridge helper'' w = (w2, r2)" by fastforce
  note f2 = acquire_facts [OF 2]
  show ?thesis
  proof (cases r2)
    case (Inl err)
    with run root f2 Inr show ?thesis by (auto simp: run_privileged_bridge_helper_def 2)
  next
    case Inr2: (Inr v)
    obtain w3 r3 where 3: "run_leased env event_node w2 = (w3, r3)" by fastforce
    have q2: "dk_faults (hw_disk w2) = []" "unix_lines default_bridge_paths (hw_disk w2)"
      using f2(1,2) quiet lines clean_files(3) [of "hw_disk w2" "hw_disk w" default_bridge_paths] by auto
    from run_leased_undone [OF q2 utf8, of event_node] 3 f2(1,3,6) Inr2
    show ?thesis
      using run root Inr by (auto simp: run_privileged_bridge_helper_def 2 release_lease_def)
  qed
qed

section \<open>A run that succeeds\<close>

text \<open>An environment in which the helper can do its work: it is root, the container is stopped, udev settles and the
  node is the Wroid touchscreen.\<close>

definition stopped_answer :: "helper_env \<Rightarrow> os_error + command_output \<Rightarrow> bool" where
  "stopped_answer env answer \<longleftrightarrow>
     (\<exists>out. answer = Inr out \<and> es_success (co_status out) \<and> trim (combined_output env out) = ''STOPPED'')"

definition good_env :: "helper_env \<Rightarrow> input_device_node \<Rightarrow> bool" where
  "good_env env node \<longleftrightarrow>
     ensure_root env ''Wroid privileged input bridge helper'' = Inr ()
     \<and> (\<forall>n. stopped_answer env (he_answer env n lxc_status_command))
     \<and> (\<forall>n. \<exists>out. he_answer env n udev_settle_command = Inr out \<and> es_success (co_status out))
     \<and> (\<forall>w. snd (validate_wroid_touchscreen_node env node w) = Inr ())
     \<and> (\<forall>t. he_utf8 env t) \<and> LF \<notin> set (nd_path node) \<and> CR \<notin> set (nd_path node)"

lemma good_wait: "good_env env node \<Longrightarrow> snd (wait_for_container_stopped env w) = Inr ()"
proof -
  assume "good_env env node"
  then obtain out where "he_answer env (length (hw_commands w)) lxc_status_command = Inr out"
    "es_success (co_status out)" "trim (combined_output env out) = ''STOPPED''"
    unfolding good_env_def stopped_answer_def by blast
  moreover have "CONTAINER_STOP_ATTEMPTS = Suc 29" by (simp add: CONTAINER_STOP_ATTEMPTS_def)
  ultimately show ?thesis
    unfolding wait_for_container_stopped_def \<open>CONTAINER_STOP_ATTEMPTS = Suc 29\<close> wait_stopped.simps(2)
    by (simp add: run_command_def)
qed

lemma good_force_stop: "good_env env node \<Longrightarrow> snd (force_stop_waydroid_container env w) = Inr ()"
proof -
  assume "good_env env node"
  then obtain out where "he_answer env (length (hw_commands w)) lxc_status_command = Inr out"
    "es_success (co_status out)" "trim (combined_output env out) = ''STOPPED''"
    unfolding good_env_def stopped_answer_def by blast
  then show ?thesis by (simp add: force_stop_waydroid_container_def ensure_container_stopped_def run_command_def)
qed

lemma good_settle: "good_env env node \<Longrightarrow> snd (settle_wroid_input_udev env w) = Inr ()"
proof -
  assume "good_env env node"
  then obtain out where "he_answer env (length (hw_commands w)) udev_settle_command = Inr out" "es_success (co_status out)"
    unfolding good_env_def by blast
  then show ?thesis by (simp add: settle_wroid_input_udev_def run_command_def)
qed

lemma quiet_install_succeeds:
  assumes quiet: "dk_faults dk = []" and ok: "paths_ok pid paths"
    and main: "dk_files dk (main_config paths) = Some (main, m)" "utf8 main"
    and node: "LF \<notin> set (nd_path node)" "CR \<notin> set (nd_path node)"
  shows "\<exists>ib. snd (install_bridge utf8 pid paths node cgroup dk) = Inr ib"
proof -
  obtain inp dk1 where 1: "read_for_install utf8 paths node cgroup dk = (dk1, Inr inp)"
    by (rule read_for_install_quiet [where ?utf8.0 = utf8 and paths = paths and node = node and cgroup = cgroup,
        OF quiet main(1) _ node]) (rule main(2))
  obtain m where "dk_faults dk1 = []" by (rule read_for_install_ok [OF 1]) (use quiet in blast)
  then obtain dk2 ib where "write_install pid paths inp dk1 = (dk2, Inr ib)"
    by (rule write_install_quiet [OF _ ok, where inp = inp]) (erule that)
  with 1 show ?thesis by (simp add: install_bridge_def)
qed

text \<open>A client that leaves, or asks for a clean up, at once.\<close>

lemma serve_short:
  assumes "bp_bytes (hw_stdin w) \<in> {[], CLEANUP_COMMAND}" "bp_end (hw_stdin w) = None"
  shows "\<exists>w' b. serve_helper_protocol verify False w = (w', Inr b) \<and> hw_disk w' = hw_disk w"
proof -
  have parse: "parse_helper_command CLEANUP_COMMAND = Inr (Some HcCleanup)" "parse_helper_command [] = Inr None" by code_simp+
  have line: "length (takeWhile (\<lambda>c. c \<noteq> LF) (take 65 CLEANUP_COMMAND)) < length (take 65 CLEANUP_COMMAND)"
    "takeWhile (\<lambda>c. c \<noteq> LF) (take 65 CLEANUP_COMMAND) @ [LF] = CLEANUP_COMMAND" by code_simp+
  have "\<exists>p r. pipe_read_until 65 (hw_stdin w) = (p, Inr r) \<and> r \<in> {[], CLEANUP_COMMAND}"
  proof (cases "bp_bytes (hw_stdin w) = []")
    case True
    with assms(2) show ?thesis by (simp add: pipe_read_until_def)
  next
    case False
    with assms(1) have bytes: "bp_bytes (hw_stdin w) = CLEANUP_COMMAND" by simp
    have "pipe_read_until 65 (hw_stdin w) = ((hw_stdin w)\<lparr>bp_bytes := drop (Suc (length (takeWhile (\<lambda>c. c \<noteq> LF) (take 65 CLEANUP_COMMAND)))) CLEANUP_COMMAND\<rparr>, Inr CLEANUP_COMMAND)"
      unfolding pipe_read_until_def bytes Let_def line(2) using line(1) by (rule if_P)
    then show ?thesis by blast
  qed
  then obtain p r where r: "pipe_read_until 65 (hw_stdin w) = (p, Inr r)" "r \<in> {[], CLEANUP_COMMAND}" by blast
  then have "\<exists>c. read_helper_command w = (w\<lparr>hw_stdin := p\<rparr>, Inr c) \<and> c \<in> {None, Some HcCleanup}"
    using parse by (auto simp: read_helper_command_def MAX_HELPER_COMMAND_BYTES_def bind_result_def)
  then show ?thesis
    unfolding serve_helper_protocol.simps [of verify False w] by auto
qed

lemma bridge_session_succeeds:
  assumes lent: "lent w0 w" and good: "good_env env node"
    and client: "bp_bytes (hw_stdin w) \<in> {[], CLEANUP_COMMAND}" "bp_end (hw_stdin w) = None"
  shows "snd (bridge_session env node a w) = Inr ()"
proof -
  let ?paths = default_bridge_paths and ?verify = "wait_for_android_input env"
  note ok = default_paths_ok [of "pid_text env"]
  have q: "dk_faults (hw_disk w) = []" "clean ?paths (hw_disk w)" using lent by (simp_all add: lent_def)
  then obtain main0 m0 where main0: "dk_files (hw_disk w) (main_config ?paths) = Some (main0, m0)" by (auto simp: clean_def)
  have utf8: "he_utf8 env t" for t using good by (simp add: good_env_def)
  obtain w1 r1 where 1: "on_disk (install_bridge (he_utf8 env) (pid_text env) ?paths node (cgroup_detect (he_unified env))) w = (w1, r1)"
    by fastforce
  note d1 = on_disk_facts [OF 1]
  obtain ib where ib: "r1 = Inr ib"
    using quiet_install_succeeds [where ?utf8.0 = "he_utf8 env", OF q(1) ok main0 utf8, of node] d1(1) good
    by (auto simp: good_env_def) (metis snd_conv)
  note inst = quiet_install(1) [OF q(1) ok d1(1)] install_on_clean [OF d1(1) [unfolded ib] q(2) ok]
  obtain w2 where 2: "write_line READY_LINE w1 = (w2, Inr ())" "hw_disk w2 = hw_disk w1" "hw_stdin w2 = hw_stdin w1"
    using inst(1) by (simp add: write_line_def quiet_sys_call)
  obtain w3 b where 3: "serve_helper_protocol ?verify False w2 = (w3, Inr b)" "hw_disk w3 = hw_disk w2"
    using serve_short [of w2 ?verify] client d1(5) 2(3) by auto
  obtain w4 stopped where 4: "(if Inr b = (Inr True :: os_error + bool) then (w3, Inr ()) else force_stop_waydroid_container env w3) = (w4, stopped)"
    by fastforce
  have w4: "stopped = Inr ()" "keeps w3 w4"
    using 4 good_force_stop [OF good, of w3] force_stop_steps [of w3 env] by (auto simp: steps_def split: if_splits)
  obtain w5 cleaned where 5: "on_disk (cleanup_bridge (he_utf8 env) (pid_text env) ib) w4 = (w5, cleaned)" by fastforce
  note d5 = on_disk_facts [OF 5]
  have disk: "dk_faults (hw_disk w4) = []" "dk_files (hw_disk w4) = dk_files (hw_disk w1)"
    using w4(2) 3(2) 2(2) inst(1) by (auto simp: keeps_def)
  obtain main m where "dk_files (hw_disk w4) (main_config ?paths) = Some (main, m)" using inst(3) disk(2) by auto
  moreover have "installed_on ?paths ib (hw_disk w4)" using inst(2) clean_files(2) [OF disk(2)] by simp
  ultimately have c5: "cleaned = Inr ()" "dk_faults (hw_disk w5) = []"
    using quiet_cleanup [OF disk(1) ok _ _ utf8 d5(1)] by auto
  have "bridge_session env node a w
      = (case access_cleanup a w5 of (w6, r) \<Rightarrow> (w6, helper_result (Inr b) (combine_helper_cleanup_results stopped
          (combine_bridge_cleanup_results cleaned r))))"
    using 4 by (simp add: bridge_session_def 1 ib 2(1) 3(1) finish_helper_def 5)
  with c5 w4(1) show ?thesis
    by (simp add: access_cleanup_def quiet_restore helper_result_def combine_helper_cleanup_results_def
        combine_bridge_cleanup_results_def both_results_def)
qed

lemma quiet_root: "dk_faults (hw_disk w) = [] \<Longrightarrow> assume_full_root_identity w = (w, Inr ())"
  by (simp add: assume_full_root_identity_def quiet_sys_call)

lemma remove_bridge_succeeds:
  assumes "dk_faults dk = []" and "paths_ok pid paths" and "dk_files dk (main_config paths) = Some (main, m)" "utf8 main"
  shows "snd (remove_bridge utf8 pid paths dk) = Inr ()"
proof -
  obtain dk2 where 2: "remove_managed_include utf8 pid paths dk = (dk2, Inr ())" "dk_faults dk2 = []"
    by (rule remove_managed_include_ok [where ?utf8.0 = utf8 and pid = pid, OF assms(1,3,4,2)])
  obtain dk3 r3 where 3: "remove_file_if_exists (managed_config paths) dk2 = (dk3, r3)" by fastforce
  with 2 remove_file_cases(2) [OF 3] show ?thesis by (simp add: remove_bridge_def)
qed

lemma run_leased_succeeds:
  assumes quiet: "dk_faults (hw_disk w) = []" and lines: "unix_lines default_bridge_paths (hw_disk w)"
    and main: "dk_files (hw_disk w) (main_config default_bridge_paths) = Some (main, m)"
    and node: "node_from_path (he_stat env) event_node = Inr node" and good: "good_env env node"
    and client: "bp_bytes (hw_stdin w) \<in> {[], CLEANUP_COMMAND}" "bp_end (hw_stdin w) = None"
  shows "snd (run_leased env event_node w) = Inr ()"
proof -
  have utf8: "he_utf8 env t" "utf8_ok env" for t using good by (simp_all add: good_env_def utf8_ok_def)
  obtain w1 where 1: "wait_for_container_stopped env w = (w1, Inr ())" by (metis good_wait [OF good] prod.collapse)
  have s1: "steps CONTAINER_STOP_ATTEMPTS w w1"
    using wait_stopped_steps [of CONTAINER_STOP_ATTEMPTS w env "[]"] 1 by (simp add: wait_for_container_stopped_def)
  then have k1: "dk_faults (hw_disk w1) = []" "dk_files (hw_disk w1) = dk_files (hw_disk w)" using quiet by (simp_all add: steps_def keeps_def)
  obtain w2 r2 where 2: "on_disk (remove_bridge (he_utf8 env) (pid_text env) default_bridge_paths) w1 = (w2, r2)" by fastforce
  note d2 = on_disk_facts [OF 2]
  have r2: "r2 = Inr ()"
    using remove_bridge_succeeds [where ?utf8.0 = "he_utf8 env", OF k1(1) default_paths_ok _ utf8(1), of main m] d2(1) k1(2) main
    by (metis snd_conv)
  have "clean default_bridge_paths (hw_disk w2)"
    by (rule remove_bridge_clean [OF d2(1) [unfolded r2] default_paths_ok quiet_honest [OF k1(1)]])
      (use lines clean_files(3) [OF k1(2)] in simp)
  then have u2: "undone w2 w2" using quiet_remove_bridge(1) [OF k1(1) default_paths_ok d2(1)] by (simp add: undone_def)
  have validate: "\<exists>w'. validate_wroid_touchscreen_node env node w = (w', Inr ()) \<and> undone w2 w' \<and> hw_stdin w' = hw_stdin w"
    if "undone w2 w" for w
    using that good undone_files [OF that validate_files] validate_files(1) [of w env node]
    by (auto simp: good_env_def files_kept_def) (metis prod.collapse)
  obtain w3 where 3: "validate_wroid_touchscreen_node env node w2 = (w3, Inr ())" "undone w2 w3" "hw_stdin w3 = hw_stdin w2"
    using validate [OF u2] by blast
  obtain w4 where 4: "settle_wroid_input_udev env w3 = (w4, Inr ())" by (metis good_settle [OF good] prod.collapse)
  with settle_steps [of w3 env] have s4: "keeps w3 w4" "hw_stdin w4 = hw_stdin w3" by (simp_all add: steps_def)
  obtain w5 where 5: "validate_wroid_touchscreen_node env node w4 = (w5, Inr ())" "undone w2 w5" "hw_stdin w5 = hw_stdin w4"
    using validate [OF undone_keeps [OF 3(2) s4(1)]] by blast
  obtain w6 where 6: "validate_wroid_touchscreen_node env node w5 = (w6, Inr ())" "undone w2 w6" "hw_stdin w6 = hw_stdin w5"
    using validate [OF 5(2)] by blast
  obtain w7 a where 7: "access_prepare env node w5 = (w7, Inr a)"
    using 6 by (auto simp: access_prepare_def quiet_sys_call access_set_def undone_def Let_def)
  have "hw_stdin w7 = hw_stdin w"
    using access_prepare_files [of w5 env node] 7 5(3) s4(2) 3(3) d2(5) s1 by (simp add: files_kept_def steps_def)
  then have "snd (bridge_session env node a w7) = Inr ()"
    using access_prepare_undone [OF 5(2) 7] bridge_session_succeeds [OF _ good, of w2 w7 a] client by simp
  then show ?thesis by (simp add: run_leased_def 1 2 r2 node 3(1) 4 5(1) 7)
qed

lemma helper_succeeds:
  assumes quiet: "dk_faults (hw_disk w) = []" and lines: "unix_lines default_bridge_paths (hw_disk w)"
    and main: "dk_files (hw_disk w) (main_config default_bridge_paths) = Some (main, m)"
    and lease: "lf_holder (hw_lease w) = None"
    and node: "node_from_path (he_stat env) event_node = Inr node" and good: "good_env env node"
    and client: "bp_bytes (hw_stdin w) \<in> {[], CLEANUP_COMMAND}" "bp_end (hw_stdin w) = None"
  shows "snd (run_privileged_bridge_helper env event_node w) = Inr ()"
proof -
  obtain w2 r2 where 2: "acquire_default_lease env ''privileged bridge helper'' w = (w2, r2)" by fastforce
  have r2: "r2 = Inr ()"
    using 2 lease quiet by (simp add: acquire_default_lease_def quiet_sys_call acquire_lease_def Let_def split: prod.splits)
  note f2 = acquire_facts [OF 2]
  have w2: "dk_faults (hw_disk w2) = []" "unix_lines default_bridge_paths (hw_disk w2)"
    "dk_files (hw_disk w2) (main_config default_bridge_paths) = Some (main, m)" "hw_stdin w2 = hw_stdin w"
    using f2 quiet main lines clean_files(3) [of "hw_disk w2" "hw_disk w"] by simp_all
  have "snd (run_leased env event_node w2) = Inr ()"
    by (rule run_leased_succeeds [OF w2(1-3) node good]) (use w2(4) client in simp_all)
  moreover have "ensure_root env ''Wroid privileged input bridge helper'' = Inr ()" using good by (simp add: good_env_def)
  ultimately show ?thesis
    by (cases "run_leased env event_node w2") (simp add: run_privileged_bridge_helper_def quiet_root [OF quiet] 2 r2)
qed

section \<open>A concrete run\<close>

text \<open>A stopped container, the Wroid touchscreen at \<^verbatim>\<open>event7\<close>, and a client that sends \<open>bytes\<close>.\<close>

definition sample_env :: helper_env where
  "sample_env =
     \<lparr>he_euid = Inr 0, he_pid = 7, he_unified = True, he_utf8 = (\<lambda>_. True), he_lossy = id,
      he_stat = (\<lambda>_. Inr (True, 0x0D47)),
      he_sysfs = (\<lambda>_ _. Inr ''/sys/devices/virtual/input/input9''),
      he_device = (\<lambda>_ _. Inr \<lparr>di_name = Some WROID_TOUCHSCREEN_NAME, di_bus = BUS_VIRTUAL,
                                 di_vendor = WROID_TOUCHSCREEN_VENDOR, di_product = WROID_TOUCHSCREEN_PRODUCT\<rparr>),
      he_answer = (\<lambda>_ _. Inr \<lparr>co_status = \<lparr>es_success = True, es_text = ''exit status: 0''\<rparr>,
                                 co_stdout = ''STOPPED'' @ [LF], co_stderr = []\<rparr>),
      he_child = (\<lambda>_ _. Inl (OsError NotFound ''lxc-attach''))\<rparr>"

definition sample_world :: "string \<Rightarrow> helper_world" where
  "sample_world bytes =
     \<lparr>hw_disk = fresh_disk [], hw_inode = \<lparr>ei_uid = 0, ei_gid = 105, ei_mode = 432\<rparr>,
      hw_lease = \<lparr>lf_holder = None, lf_text = []\<rparr>, hw_stdin = \<lparr>bp_bytes = bytes, bp_end = None\<rparr>,
      hw_stdout = [], hw_commands = [], hw_checks = 0, hw_slept = 0\<rparr>"

lemma sample_facts:
  "dk_faults (hw_disk (sample_world bytes)) = []" "honest (hw_disk (sample_world bytes))"
  "unix_lines default_bridge_paths (hw_disk (sample_world bytes))" "utf8_ok sample_env"
  by (simp_all add: sample_world_def fresh_disk_def honest_def unix_lines_def CR_def utf8_ok_def sample_env_def)

definition sample_node :: input_device_node where
  "sample_node = \<lparr>nd_path = ''/dev/input/event7'', nd_major = 13, nd_minor = 71\<rparr>"

lemma sample_good: "good_env sample_env sample_node" "node_from_path (he_stat sample_env) ''/dev/input/event7'' = Inr sample_node"
proof -
  have name: "path_file_name ''/dev/input/event7'' = Some ''event7''" by code_simp
  have identity: "validate_touchscreen_identity (Some WROID_TOUCHSCREEN_NAME) BUS_VIRTUAL WROID_TOUCHSCREEN_VENDOR
      WROID_TOUCHSCREEN_PRODUCT ''/sys/devices/virtual/input/input9'' = Inr ()" by code_simp
  have stopped: "trim (''STOPPED'' @ [LF]) = ''STOPPED''" by code_simp
  show "good_env sample_env sample_node"
    using identity stopped
    by (simp add: good_env_def sample_env_def ensure_root_def stopped_answer_def combined_output_def name
        validate_wroid_touchscreen_node_def Let_def sample_node_def LF_def CR_def)
  show "node_from_path (he_stat sample_env) ''/dev/input/event7'' = Inr sample_node"
    unfolding sample_env_def sample_node_def by code_simp
qed

lemma helper_success_undoes_all_witness:
  "snd (run_privileged_bridge_helper sample_env ''/dev/input/event7'' (sample_world [])) = Inr ()
    \<and> clean default_bridge_paths (hw_disk (fst (run_privileged_bridge_helper sample_env ''/dev/input/event7'' (sample_world []))))"
proof -
  have "snd (run_privileged_bridge_helper sample_env ''/dev/input/event7'' (sample_world [])) = Inr ()"
    by (rule helper_succeeds [OF sample_facts(1,3) _ _ sample_good(2,1)]) (simp_all add: sample_world_def fresh_disk_def)
  then show ?thesis
    using helper_success_undoes_all [OF _ sample_facts(2,3)] by (metis prod.collapse)
qed

lemma helper_leaves_no_trace_witness:
  "same_access (hw_inode (fst (run_privileged_bridge_helper sample_env ''/dev/input/event7'' (sample_world ''QUIT''))))
     (hw_inode (sample_world ''QUIT''))"
  using helper_leaves_no_trace [OF sample_facts(1,3,4) prod.collapse [symmetric]] by blast

end
