(* ===== verification/BrokerSafe.thy ===== *)
theory BrokerSafe
  imports Broker HelperSpec
begin

text \<open>
  What the broker guarantees: a frame is read back however the socket cuts it up, an unverified broker never waits
  for ever, and whatever the peer sends the helper is started at most once, verified before it is finished, and
  finished or dropped before the broker returns.
\<close>

section \<open>Frames\<close>

definition in_time :: "nat option \<Rightarrow> nat \<Rightarrow> bool" where
  "in_time deadline t \<longleftrightarrow> (case deadline of None \<Rightarrow> True | Some d \<Rightarrow> t < d)"

text \<open>Segments, each with its time: non-empty and before the deadline.\<close>

definition segments :: "nat option \<Rightarrow> (nat \<times> string) list \<Rightarrow> bool" where
  "segments deadline segs \<longleftrightarrow> (\<forall>(t, c) \<in> set segs. c \<noteq> [] \<and> in_time deadline t)"

definition arriving :: "(nat \<times> string) list \<Rightarrow> (nat \<times> (os_error + string)) list" where
  "arriving = map (\<lambda>(t, c). (t, Inr c))"

definition pending :: "string \<Rightarrow> (nat \<times> string) list \<Rightarrow> string" where
  "pending buffer segs = buffer @ concat (map snd segs)"

lemma segments_simps [simp]:
  "segments deadline []" "segments deadline ((t, c) # segs) \<longleftrightarrow> c \<noteq> [] \<and> in_time deadline t \<and> segments deadline segs"
  "arriving [] = []" "arriving ((t, c) # segs) = (t, Inr c) # arriving segs"
  "pending b [] = b" "pending b ((t, c) # segs) = b @ pending c segs" "pending [] segs = concat (map snd segs)"
  by (auto simp: segments_def arriving_def pending_def)

lemma in_time_check: "in_time deadline (ch_now ch) \<Longrightarrow> check_deadline deadline ch = None"
  by (auto simp: check_deadline_def in_time_def split: option.splits)

lemma in_time_max: "in_time deadline s \<Longrightarrow> in_time deadline t \<Longrightarrow> in_time deadline (max s t)"
  by (auto simp: in_time_def split: option.splits)

text \<open>The next bytes, from the buffer or from the next segment.\<close>

lemma fill_buf_segment:
  assumes "ch_arrivals ch = arriving segs" and "segments deadline segs" and "in_time deadline (ch_now ch)"
    and "pending (ch_buffer ch) segs \<noteq> []"
  obtains ch1 available segs' where "fill_buf deadline ch = (ch1, Got available)" "available \<noteq> []"
    "ch_buffer ch1 = available" "ch_arrivals ch1 = arriving segs'" "segments deadline segs'" "in_time deadline (ch_now ch1)"
    "pending (ch_buffer ch) segs = pending available segs'" "length segs' \<le> length segs"
    "ch_buffer ch = [] \<longrightarrow> length segs' < length segs"
proof (cases "ch_buffer ch = []")
  case False
  then show thesis using that [of ch "ch_buffer ch" segs] assms by (simp add: fill_buf_def)
next
  case True
  with assms(4) obtain t c rest where segs: "segs = (t, c) # rest" by (cases segs) auto
  let ?ch = "ch\<lparr>ch_arrivals := arriving rest, ch_now := max (ch_now ch) t, ch_buffer := c\<rparr>"
  have "fill_buf deadline ch = (?ch, Got c)"
    using True assms segs by (auto simp: fill_buf_def in_time_def Let_def split: option.splits)
  then show thesis using that [of ?ch c rest] True assms segs in_time_max by auto
qed

lemma takeWhile_line:
  "LF \<notin> set line \<Longrightarrow> takeWhile (\<lambda>c. c \<noteq> LF) (line @ LF # rest) = line"
  by (induction line) auto

lemma split_line:
  assumes "available @ rem = line @ LF # rest" and "LF \<notin> set line"
  shows "if length line < length available
    then takeWhile (\<lambda>c. c \<noteq> LF) available = line \<and> (\<exists>left. available = line @ LF # left \<and> rest = left @ rem)
    else takeWhile (\<lambda>c. c \<noteq> LF) available = available \<and> (\<exists>line'. line = available @ line' \<and> rem = line' @ LF # rest)"
proof (cases "length line < length available")
  case True
  then obtain left where left: "available = line @ LF # left" "rest = left @ rem"
    using assms(1) by (auto simp: append_eq_append_conv2 append_eq_Cons_conv)
  with takeWhile_line [OF assms(2)] True show ?thesis by auto
next
  case False
  then obtain line' where "line = available @ line'" "rem = line' @ LF # rest"
    using assms(1) by (auto simp: append_eq_append_conv2 append_eq_Cons_conv)
  with assms(2) False show ?thesis by auto
qed

lemma read_bytes_line:
  assumes "ch_arrivals ch = arriving segs" and "segments deadline segs" and "in_time deadline (ch_now ch)"
    and "pending (ch_buffer ch) segs = line @ LF # rest" and "LF \<notin> set line"
    and "length bytes + length line < MAX_BRIDGE_FRAME_BYTES"
  shows "\<exists>ch' segs'. read_bytes deadline bytes ch = (ch', Got (bytes @ line @ [LF]))
    \<and> ch_arrivals ch' = arriving segs' \<and> segments deadline segs' \<and> in_time deadline (ch_now ch')
    \<and> pending (ch_buffer ch') segs' = rest"
  using assms
proof (induction deadline bytes ch arbitrary: segs line rule: read_bytes.induct)
  case (1 deadline bytes ch)
  have "pending (ch_buffer ch) segs \<noteq> []" using "1.prems"(4) by simp
  then obtain ch1 available segs' where fill: "fill_buf deadline ch = (ch1, Got available)" "available \<noteq> []"
    and ch1: "ch_arrivals ch1 = arriving segs'" "segments deadline segs'" "in_time deadline (ch_now ch1)"
    "pending (ch_buffer ch) segs = pending available segs'"
    by (rule fill_buf_segment [OF "1.prems"(1-3)])
  let ?more = "concat (map snd segs')"
  have "available @ ?more = line @ LF # rest" using ch1(4) "1.prems"(4) by (simp add: pending_def)
  note split = split_line [OF this "1.prems"(5)]
  show ?case
  proof (cases "length line < length available")
    case True
    with split obtain left where left: "available = line @ LF # left" "rest = left @ ?more"
      "takeWhile (\<lambda>c. c \<noteq> LF) available = line" by auto
    have "read_bytes deadline bytes ch = (ch1\<lparr>ch_buffer := left\<rparr>, Got (bytes @ line @ [LF]))"
      using fill left "1.prems"(6)
      by (subst read_bytes.simps) (simp add: in_time_check [OF "1.prems"(3)] Let_def takeWhile_line [OF "1.prems"(5)])
    then show ?thesis
      using ch1 left(2) by (intro exI [of _ "ch1\<lparr>ch_buffer := left\<rparr>"] exI [of _ segs']) (simp add: pending_def)
  next
    case False
    with split obtain line' where line: "line = available @ line'" "?more = line' @ LF # rest"
      "takeWhile (\<lambda>c. c \<noteq> LF) available = available" by auto
    let ?ch2 = "ch1\<lparr>ch_buffer := []\<rparr>"
    have short: "\<not> MAX_BRIDGE_FRAME_BYTES < length (bytes @ available)" using line(1) "1.prems"(6) by simp
    have rec: "read_bytes deadline bytes ch = read_bytes deadline (bytes @ available) ?ch2"
      using fill short arg_cong [OF line(3), where f = length]
      by (subst read_bytes.simps) (simp add: in_time_check [OF "1.prems"(3)] Let_def)
    have "\<exists>ch' segs''. read_bytes deadline (bytes @ available) ?ch2 = (ch', Got ((bytes @ available) @ line' @ [LF]))
      \<and> ch_arrivals ch' = arriving segs'' \<and> segments deadline segs'' \<and> in_time deadline (ch_now ch')
      \<and> pending (ch_buffer ch') segs'' = rest"
      using "1.IH" [OF in_time_check [OF "1.prems"(3)] fill(1) [symmetric] refl fill(2) refl refl refl refl refl]
        ch1 line short "1.prems"(5,6) fill(2)
      by (simp add: pending_def)
    with rec line(1) show ?thesis by simp
  qed
qed


text \<open>With a deadline a read ends.\<close>

lemma read_bytes_ends: "snd (read_bytes (Some d) bytes ch) \<noteq> ReadWaits"
proof (induction "Some d" bytes ch rule: read_bytes.induct)
  case (1 bytes ch)
  have fill: "snd (fill_buf (Some d) ch) \<noteq> ReadWaits"
    by (auto simp: fill_buf_def Let_def split: list.split sum.split)
  show ?case
  proof (cases "check_deadline (Some d) ch")
    case None
    obtain ch1 r where r: "fill_buf (Some d) ch = (ch1, r)" by fastforce
    show ?thesis
      using 1 [OF None r [symmetric]] fill r
      by (subst read_bytes.simps) (cases r; auto simp: None Let_def)
  qed (subst read_bytes.simps, simp)
qed

lemma read_frame_ends: "snd (read_frame_until parse (Some d) ch) \<noteq> ReadWaits"
  using read_bytes_ends [of d "[]" ch]
  by (cases "read_bytes (Some d) [] ch"; cases "snd (read_bytes (Some d) [] ch)")
    (auto simp: read_frame_until_def split: sum.split)

section \<open>The life of the helper\<close>

lemma on_channel_frame:
  assumes "on_channel f bk = (bk', r)"
  shows "bk_helper bk' = bk_helper bk" "bk_calls bk' = bk_calls bk"
  using assms by (auto simp: on_channel_def split: prod.splits)

lemma refuse_frame:
  assumes "refuse env code err bk = (bk', e)"
  shows "bk_helper bk' = bk_helper bk" "bk_calls bk' = bk_calls bk" "\<exists>err. e = BrokerDone (Inl err)"
  using assms on_channel_frame [of "broker_write_error (be_codec env) code (err_text err)" bk]
  by (cases "on_channel (broker_write_error (be_codec env) code (err_text err)) bk"; auto simp: refuse_def)+

lemma refused:
  assumes "bk' = bk1 \<and> P \<or> (\<exists>code err. refuse env code err bk1 = (bk', end))" and "(\<exists>err. end = BrokerDone (Inl err)) \<Longrightarrow> P"
  shows "bk_helper bk' = bk_helper bk1 \<and> bk_calls bk' = bk_calls bk1 \<and> P"
  using assms refuse_frame by metis

lemma call_helper_simps [simp]:
  "bk_helper (call_helper c bk) = bk_helper bk" "bk_calls (call_helper c bk) = bk_calls bk @ [c]"
  "bk_channel (call_helper c bk) = bk_channel bk"
  by (simp_all add: call_helper_def)

text \<open>What the loop may have called from a state on, and whether the helper is still there.\<close>

definition verified_calls :: "broker_env \<Rightarrow> helper_call list \<Rightarrow> bool \<Rightarrow> broker_end \<Rightarrow> bool" where
  "verified_calls env cs helper end \<longleftrightarrow>
     cs = [] \<and> helper
     \<or> (\<exists>b. cs = [CallFinish b] \<and> \<not> helper \<and> end \<noteq> BrokerWaits \<and> (end = BrokerDone (Inr ()) \<longrightarrow> be_finish env b = Inr ()))"

definition opened_calls :: "broker_env \<Rightarrow> helper_call list \<Rightarrow> bool \<Rightarrow> broker_end \<Rightarrow> bool" where
  "opened_calls env cs helper end \<longleftrightarrow>
     (cs = [] \<or> cs = [CallVerify]) \<and> helper \<and> end \<noteq> BrokerWaits
     \<or> be_verify env = Inr () \<and> (\<exists>cs'. cs = CallVerify # cs' \<and> verified_calls env cs' helper end)"

definition initial_calls :: "broker_env \<Rightarrow> helper_call list \<Rightarrow> bool \<Rightarrow> broker_end \<Rightarrow> bool" where
  "initial_calls env cs helper end \<longleftrightarrow>
     cs = [] \<and> \<not> helper \<and> end \<noteq> BrokerWaits
     \<or> (\<exists>n. valid_event_node_path n
         \<and> (cs = [CallStart n] \<and> end \<noteq> BrokerWaits \<and> (helper \<longleftrightarrow> be_start env n = Inr ())
            \<or> be_start env n = Inr () \<and> (\<exists>cs'. cs = CallStart n # cs' \<and> opened_calls env cs' helper end)))"

lemma serve_verified:
  assumes "serve_loop env ServerVerified deadline bk = (bk', end)" and "bk_helper bk"
  shows "\<exists>cs. bk_calls bk' = bk_calls bk @ cs \<and> verified_calls env cs (bk_helper bk') end"
proof -
  obtain bk1 r where 1: "on_channel (read_frame_until (cd_parse_request (be_codec env)) deadline) bk = (bk1, r)" by fastforce
  note f1 = on_channel_frame [OF 1]
  have finish: ?thesis if r: "r = Got (Some frame)" "rq_version frame = BRIDGE_PROTOCOL_VERSION"
    "rq_request frame = BrFinish b" for frame b
  proof -
    let ?bk2 = "(call_helper (CallFinish b) bk1)\<lparr>bk_helper := False\<rparr>"
    show ?thesis
    proof (cases "be_finish env b")
      case (Inl err)
      with assms(1) 1 r have "refuse env ''helper_finish_failed'' err ?bk2 = (bk', end)"
        by (subst (asm) serve_loop.simps) simp
      from refuse_frame [OF this] f1 show ?thesis by (auto simp: verified_calls_def)
    next
      case (Inr u)
      obtain bk3 r3 where 3: "respond env BrFinished ?bk2 = (bk3, r3)" by fastforce
      with assms(1) 1 r Inr have "bk' = bk3" "end = BrokerDone r3" by (subst (asm) serve_loop.simps; simp)+
      with on_channel_frame [OF 3 [unfolded respond_def]] f1 Inr show ?thesis by (auto simp: verified_calls_def)
    qed
  qed
  show ?thesis
  proof (cases "\<exists>frame b. r = Got (Some frame) \<and> rq_version frame = BRIDGE_PROTOCOL_VERSION \<and> rq_request frame = BrFinish b")
    case True
    with finish show ?thesis by blast
  next
    case False
    with assms(1) 1 have "bk' = bk1 \<and> True \<or> (\<exists>code err. refuse env code err bk1 = (bk', end))"
      by (subst (asm) serve_loop.simps)
        (auto split: reading.splits option.splits if_splits bridge_request.splits)
    from refused [OF this] f1 assms(2) show ?thesis by (auto simp: verified_calls_def)
  qed
qed

lemma serve_opened:
  assumes "serve_loop env ServerOpened (Some d) bk = (bk', end)" and "bk_helper bk"
  shows "\<exists>cs. bk_calls bk' = bk_calls bk @ cs \<and> opened_calls env cs (bk_helper bk') end"
proof -
  obtain bk1 r where 1: "on_channel (read_frame_until (cd_parse_request (be_codec env)) (Some d)) bk = (bk1, r)" by fastforce
  note f1 = on_channel_frame [OF 1]
  have ends: "r \<noteq> ReadWaits"
    using 1 read_frame_ends [of "cd_parse_request (be_codec env)" d "bk_channel bk"] by (auto simp: on_channel_def split: prod.splits)
  show ?thesis
  proof (cases "\<exists>frame. r = Got (Some frame) \<and> rq_version frame = BRIDGE_PROTOCOL_VERSION \<and> rq_request frame = BrVerifyAndroidInput")
    case True
    then obtain frame where r: "r = Got (Some frame)" "rq_version frame = BRIDGE_PROTOCOL_VERSION"
      "rq_request frame = BrVerifyAndroidInput" by blast
    let ?bk2 = "call_helper CallVerify bk1"
    show ?thesis
    proof (cases "be_verify env")
      case (Inl err)
      with assms(1) 1 r have "refuse env ''android_verify_failed'' err ?bk2 = (bk', end)"
        by (subst (asm) serve_loop.simps) simp
      from refuse_frame [OF this] f1 assms(2) show ?thesis by (auto simp: opened_calls_def)
    next
      case (Inr u)
      obtain bk3 r3 where 3: "respond env BrAndroidInputReady ?bk2 = (bk3, r3)" by fastforce
      note f3 = on_channel_frame [OF 3 [unfolded respond_def]]
      show ?thesis
      proof (cases r3)
        case Inl3: (Inl err)
        with assms(1) 1 r Inr 3 have "bk' = bk3" "end = BrokerDone (Inl err)" by (subst (asm) serve_loop.simps; simp)+
        with f1 f3 assms(2) show ?thesis by (auto simp: opened_calls_def)
      next
        case Inr3: (Inr v)
        with assms(1) 1 r Inr 3 have "serve_loop env ServerVerified None bk3 = (bk', end)" by (subst (asm) serve_loop.simps) simp
        from serve_verified [OF this] f1 f3 assms(2) Inr show ?thesis by (auto simp: opened_calls_def)
      qed
    qed
  next
    case False
    with assms(1) 1 ends have "bk' = bk1 \<and> end \<noteq> BrokerWaits \<or> (\<exists>code err. refuse env code err bk1 = (bk', end))"
      by (subst (asm) serve_loop.simps)
        (auto split: reading.splits option.splits if_splits bridge_request.splits)
    then have "bk_helper bk' = bk_helper bk1 \<and> bk_calls bk' = bk_calls bk1 \<and> end \<noteq> BrokerWaits" by (rule refused) auto
    with f1 assms(2) show ?thesis by (auto simp: opened_calls_def)
  qed
qed

lemma serve_initial:
  assumes "serve_loop env ServerInitial (Some d) bk = (bk', end)" and "\<not> bk_helper bk"
  shows "\<exists>cs. bk_calls bk' = bk_calls bk @ cs \<and> initial_calls env cs (bk_helper bk') end"
proof -
  obtain bk1 r where 1: "on_channel (read_frame_until (cd_parse_request (be_codec env)) (Some d)) bk = (bk1, r)" by fastforce
  note f1 = on_channel_frame [OF 1]
  have ends: "r \<noteq> ReadWaits"
    using 1 read_frame_ends [of "cd_parse_request (be_codec env)" d "bk_channel bk"] by (auto simp: on_channel_def split: prod.splits)
  show ?thesis
  proof (cases "\<exists>frame n. r = Got (Some frame) \<and> rq_version frame = BRIDGE_PROTOCOL_VERSION \<and> rq_request frame = BrOpen n
      \<and> valid_event_node_path n")
    case True
    then obtain frame n where r: "r = Got (Some frame)" "rq_version frame = BRIDGE_PROTOCOL_VERSION"
      "rq_request frame = BrOpen n" "valid_event_node_path n" by blast
    let ?bk2 = "call_helper (CallStart n) bk1"
    show ?thesis
    proof (cases "be_start env n")
      case (Inl err)
      with assms(1) 1 r have "refuse env ''helper_start_failed'' err ?bk2 = (bk', end)"
        by (subst (asm) serve_loop.simps) simp
      from refuse_frame [OF this] f1 assms(2) Inl r(4) show ?thesis by (auto simp: initial_calls_def)
    next
      case (Inr u)
      obtain bk3 r3 where 3: "respond env BrOpened (?bk2\<lparr>bk_helper := True\<rparr>) = (bk3, r3)" by fastforce
      note f3 = on_channel_frame [OF 3 [unfolded respond_def]]
      show ?thesis
      proof (cases r3)
        case Inl3: (Inl err)
        with assms(1) 1 r Inr 3 have "bk' = bk3" "end = BrokerDone (Inl err)" by (subst (asm) serve_loop.simps; simp)+
        with f1 f3 Inr r(4) show ?thesis by (auto simp: initial_calls_def)
      next
        case Inr3: (Inr v)
        with assms(1) 1 r Inr 3
        have "serve_loop env ServerOpened (Some (ch_now (bk_channel bk3) + VERIFY_REQUEST_TIMEOUT)) bk3 = (bk', end)"
          by (subst (asm) serve_loop.simps) simp
        from serve_opened [OF this] f1 f3 Inr r(4) show ?thesis by (auto simp: initial_calls_def)
      qed
    qed
  next
    case False
    with assms(1) 1 ends have "bk' = bk1 \<and> end \<noteq> BrokerWaits \<or> (\<exists>code err. refuse env code err bk1 = (bk', end))"
      by (subst (asm) serve_loop.simps)
        (auto split: reading.splits option.splits if_splits bridge_request.splits)
    then have "bk_helper bk' = bk_helper bk1 \<and> bk_calls bk' = bk_calls bk1 \<and> end \<noteq> BrokerWaits" by (rule refused) auto
    with f1 assms(2) show ?thesis by (auto simp: initial_calls_def)
  qed
qed

lemma broker_lifecycle_shape:
  assumes run: "serve_bridge_broker env bk = (bk', BrokerDone r)" and fresh: "\<not> bk_helper bk"
  shows "\<exists>n cs. bk_calls bk' = bk_calls bk @ cs \<and> (cs = [] \<or> cs = [CallStart n] \<and> be_start env n \<noteq> Inr ()
    \<or> cs = [CallStart n, CallDrop] \<or> cs = [CallStart n, CallVerify, CallDrop]
    \<or> (\<exists>b. cs = [CallStart n, CallVerify, CallFinish b]))"
proof -
  obtain bk1 e where 1: "serve_loop env ServerInitial (Some (ch_now (bk_channel bk) + INITIAL_OPEN_TIMEOUT)) bk = (bk1, e)"
    by fastforce
  from serve_initial [OF 1 fresh] obtain cs where cs: "bk_calls bk1 = bk_calls bk @ cs" "initial_calls env cs (bk_helper bk1) e"
    by blast
  from run 1 have "e = BrokerDone r" "bk' = (if bk_helper bk1 then (call_helper CallDrop bk1)\<lparr>bk_helper := False\<rparr> else bk1)"
    by (cases e; auto simp: serve_bridge_broker_def)+
  with cs show ?thesis
    by (auto simp: initial_calls_def opened_calls_def verified_calls_def)
qed

text \<open>C28. Whatever the peer sends, and however reads, writes and the helper fail: the broker starts at most one helper,
  on an event node path; it finishes it only after it verified it, and when it returns the helper is finished or
  dropped. It waits without a deadline only for the finish of a verified helper.\<close>

theorem broker_helper_lifecycle:
  assumes run: "serve_bridge_broker env bk = (bk', end)" and fresh: "\<not> bk_helper bk"
  shows "\<exists>n cs. bk_calls bk' = bk_calls bk @ cs \<and> (cs \<noteq> [] \<longrightarrow> valid_event_node_path n)
    \<and> (if end = BrokerWaits then cs = [CallStart n, CallVerify] \<and> be_verify env = Inr () \<and> bk_helper bk'
       else \<not> bk_helper bk'
         \<and> (cs = [] \<or> cs = [CallStart n] \<and> be_start env n \<noteq> Inr () \<or> cs = [CallStart n, CallDrop]
            \<or> cs = [CallStart n, CallVerify, CallDrop]
            \<or> be_verify env = Inr () \<and> (\<exists>b. cs = [CallStart n, CallVerify, CallFinish b])))"
proof -
  obtain bk1 e where 1: "serve_loop env ServerInitial (Some (ch_now (bk_channel bk) + INITIAL_OPEN_TIMEOUT)) bk = (bk1, e)"
    by fastforce
  from serve_initial [OF 1 fresh] obtain cs where cs: "bk_calls bk1 = bk_calls bk @ cs" "initial_calls env cs (bk_helper bk1) e"
    by blast
  show ?thesis
  proof (cases e)
    case BrokerWaits
    with run 1 have "bk' = bk1" "end = BrokerWaits" by (auto simp: serve_bridge_broker_def)
    with cs BrokerWaits show ?thesis
      by (auto simp: initial_calls_def opened_calls_def verified_calls_def)
  next
    case (BrokerDone r)
    with run 1 have "end = BrokerDone r" "bk' = (if bk_helper bk1 then (call_helper CallDrop bk1)\<lparr>bk_helper := False\<rparr> else bk1)"
      by (auto simp: serve_bridge_broker_def)
    with cs show ?thesis
      by (auto simp: initial_calls_def opened_calls_def verified_calls_def)
  qed
qed

section \<open>What the helper sees\<close>

text \<open>The broker's calls on the guard of a started helper.\<close>

fun drive :: "os_error + exit_status \<Rightarrow> helper_call \<Rightarrow> bridge_helper \<Rightarrow> bridge_helper" where
  "drive exited (CallStart n) h = h"
| "drive exited CallVerify h = fst (helper_verify h)"
| "drive exited (CallFinish b) h = fst (helper_finish exited b h)"
| "drive exited CallDrop h = helper_drop h"

lemma helper_write_frame:
  assumes "helper_write bytes h = (h', r)"
  shows "bh_stdin h' = bh_stdin h" "bh_active h' = bh_active h" "bh_waits h' = bh_waits h"
    "bh_sent h' = bh_sent h \<or> bh_sent h' = bh_sent h @ bytes" "r = Inr () \<Longrightarrow> bh_sent h' = bh_sent h @ bytes"
  using assms by (auto simp: helper_write_def split: list.splits option.splits)

lemma helper_verify_frame:
  assumes "bh_stdin h"
  shows "bh_stdin (fst (helper_verify h)) \<and> bh_active (fst (helper_verify h)) = bh_active h
    \<and> (bh_sent (fst (helper_verify h)) = bh_sent h \<or> bh_sent (fst (helper_verify h)) = bh_sent h @ VERIFY_ANDROID_INPUT_COMMAND)"
proof -
  obtain h1 r where 1: "helper_write VERIFY_ANDROID_INPUT_COMMAND h = (h1, r)" by fastforce
  note f = helper_write_frame [OF 1]
  show ?thesis
    using assms f
    by (cases r) (auto simp: helper_verify_def request_android_input_verification_def 1 split: prod.split)
qed

lemma helper_drop_frame:
  "bh_active h \<Longrightarrow> \<not> bh_stdin (helper_drop h)" "bh_sent (helper_drop h) = bh_sent h"
  "\<not> bh_stdin h \<Longrightarrow> \<not> bh_stdin (helper_drop h)"
  by (simp_all add: helper_drop_def helper_wait_def)

lemma helper_finish_frame:
  assumes "bh_active h"
  shows "\<not> bh_stdin (fst (helper_finish exited b h))
    \<and> (bh_sent (fst (helper_finish exited b h)) = bh_sent h \<or> b \<and> bh_sent (fst (helper_finish exited b h)) = bh_sent h @ CLEANUP_COMMAND)"
proof -
  obtain h1 r where 1: "(if b \<and> bh_stdin h then helper_write CLEANUP_COMMAND h else (h, Inr ())) = (h1, r)" by fastforce
  have f: "bh_active h1" "bh_sent h1 = bh_sent h \<or> b \<and> bh_sent h1 = bh_sent h @ CLEANUP_COMMAND"
  proof -
    have "bh_active h1 \<and> (bh_sent h1 = bh_sent h \<or> b \<and> bh_sent h1 = bh_sent h @ CLEANUP_COMMAND)"
    proof (cases "b \<and> bh_stdin h")
      case True
      with 1 have "helper_write CLEANUP_COMMAND h = (h1, r)" by simp
      from helper_write_frame(2,4) [OF this] True assms show ?thesis by auto
    next
      case False
      with 1 assms show ?thesis by auto
    qed
    then show "bh_active h1" "bh_sent h1 = bh_sent h \<or> b \<and> bh_sent h1 = bh_sent h @ CLEANUP_COMMAND" by blast+
  qed
  show ?thesis
    using f by (cases r; cases exited)
      (auto simp: helper_finish_def 1 Let_def helper_drop_frame helper_wait_def helper_drop_def)
qed

lemma no_cleanup_requested:
  "\<not> requests_cleanup []" "\<not> requests_cleanup VERIFY_ANDROID_INPUT_COMMAND"
  unfolding requests_cleanup_def by code_simp+


section \<open>Paths\<close>

lemma path_components_relative: "\<not> is_absolute p \<Longrightarrow> RootDir \<notin> set (path_components p)"
  by (auto simp: path_components_def path_part_def split: if_splits)

text \<open>What the broker accepts, the helper accepts if it is a character device.\<close>

lemma event_node_accepted:
  assumes "valid_event_node_path p" and "stat p = Inr (True, device)"
  shows "\<exists>node. node_from_path stat p = Inr node \<and> nd_path node = p"
proof -
  have dir: "path_components ''/dev/input'' = [RootDir, NormalName ''dev'', NormalName ''input'']" by code_simp
  from assms(1) obtain suf name where p: "path_parent p = Some (path_components ''/dev/input'')"
    "path_file_name p = Some name" "strip_prefix ''event'' name = Some suf"
    by (auto simp: valid_event_node_path_def split: option.splits)
  have "is_absolute p"
  proof (rule ccontr)
    assume "\<not> is_absolute p"
    then have "RootDir \<notin> set (path_components p)" by (rule path_components_relative)
    moreover have "set (rev cs) \<subseteq> set (path_components p)" if "rev (path_components p) = c # cs" for c cs
      using that by (metis set_rev set_subset_Cons)
    ultimately show False using p(1) dir by (auto simp: path_parent_def split: list.splits path_component.splits)
  qed
  moreover have "prefix ''event'' name" using p(3) by (auto simp: strip_prefix_def split: if_splits)
  ultimately show ?thesis using p(1,2) assms(2) by (simp add: node_from_path_def Let_def)
qed

text \<open>The number may carry a plus sign: \<open>parse\<close> accepts one.\<close>

lemma plus_sign_accepted: "valid_event_node_path ''/dev/input/event+5''" by code_simp

section \<open>A concrete run\<close>

text \<open>A codec of one-letter frames, and a worker that opens, verifies and finishes.\<close>

definition sample_codec :: codec where
  "sample_codec =
     \<lparr>cd_print_request = (\<lambda>q. case rq_request q of BrOpen _ \<Rightarrow> ''o'' | BrVerifyAndroidInput \<Rightarrow> ''v'' | BrFinish _ \<Rightarrow> ''f''),
      cd_parse_request = (\<lambda>s. Inr \<lparr>rq_version = 1, rq_request =
        (if s = ''o'' then BrOpen ''/dev/input/event7'' else if s = ''v'' then BrVerifyAndroidInput else BrFinish True)\<rparr>),
      cd_print_response = (\<lambda>_. ''r''), cd_parse_response = (\<lambda>_. Inr \<lparr>rs_version = 1, rs_response = BrOpened\<rparr>)\<rparr>"

definition sample_broker_env :: broker_env where
  "sample_broker_env = \<lparr>be_codec = sample_codec, be_start = (\<lambda>_. Inr ()), be_verify = Inr (), be_finish = (\<lambda>_. Inr ())\<rparr>"

definition sample_broker :: broker where
  "sample_broker =
     \<lparr>bk_channel = \<lparr>ch_buffer = [], ch_arrivals = [(1, Inr (''o'' @ [LF])), (2, Inr (''v'' @ [LF] @ ''f'')), (3, Inr [LF])],
                    ch_now = 0, ch_sent = [], ch_faults = []\<rparr>,
      bk_helper = False, bk_calls = []\<rparr>"

lemma sample_broker_run:
  "snd (serve_bridge_broker sample_broker_env sample_broker) = BrokerDone (Inr ())
    \<and> bk_calls (fst (serve_bridge_broker sample_broker_env sample_broker))
      = [CallStart ''/dev/input/event7'', CallVerify, CallFinish True]"
  by code_simp


lemma broker_helper_lifecycle_witness:
  "\<not> bk_helper (fst (serve_bridge_broker sample_broker_env sample_broker))"
  using broker_helper_lifecycle [OF prod.collapse [symmetric], of sample_broker sample_broker_env] sample_broker_run
  by (auto simp: sample_broker_def)


end
