(* ===== verification/Waydroid.thy ===== *)
theory Waydroid
  imports Helper
begin

text \<open>
  What the desktop side reads from Waydroid and tells it, the first half of
  \<^verbatim>\<open>wroid-inject/src/waydroid_session.rs\<close>: the status text, the lines a session prints, the size Android
  reports, and the two render-size properties with their rollback. A string is its UTF-8 bytes.
\<close>

section \<open>Presentation\<close>

datatype waydroid_presentation = Direct | Gamescope u32 u32

definition presentation_for_game :: "bool \<Rightarrow> bool \<Rightarrow> u32 \<Rightarrow> u32 \<Rightarrow> waydroid_presentation" where
  "presentation_for_game launch_package gamescope_available width height =
     (if launch_package \<and> gamescope_available then Gamescope width height else Direct)"

definition gamescope_is_available :: "os_error + file_metadata \<Rightarrow> bool" where
  "gamescope_is_available metadata =
     (case metadata of Inl _ \<Rightarrow> False | Inr fm \<Rightarrow> fm_regular fm \<and> and (fm_mode fm) 73 \<noteq> 0)" \<comment> \<open>0o111\<close>

definition show_u32 :: "u32 \<Rightarrow> string" where "show_u32 n = show_nat (unat n)"

definition GAMESCOPE_PATH :: string where "GAMESCOPE_PATH = ''/usr/bin/gamescope''"
definition WAYDROID_PATH :: string where "WAYDROID_PATH = ''/usr/bin/waydroid''"

definition gamescope_arguments :: "u32 \<Rightarrow> u32 \<Rightarrow> string list" where
  "gamescope_arguments width height =
     [''-w'', show_u32 width, ''-h'', show_u32 height, ''-f'', ''--expose-wayland'', ''--force-windows-fullscreen'',
      ''-C'', ''1000'', ''-S'', ''fit'', ''-F'', ''fsr'', ''--sharpness'', ''5'', ''--'',
      WAYDROID_PATH, ''session'', ''start'']"

section \<open>The status\<close>

definition status_field :: "string \<Rightarrow> string \<Rightarrow> string option" where
  "status_field status field =
     find_map (\<lambda>line. case split_once '':'' line of
         None \<Rightarrow> None
       | Some (key, value) \<Rightarrow> if trim key = field then Some (trim value) else None) (str_lines status)"

definition waydroid_session_state :: "string \<Rightarrow> string option" where
  "waydroid_session_state status = status_field status ''Session''"

definition container_state :: "string \<Rightarrow> string option" where
  "container_state status = status_field status ''Container''"

definition waydroid_container_started :: "string \<Rightarrow> bool" where
  "waydroid_container_started status \<longleftrightarrow> container_state status \<in> {Some ''RUNNING'', Some ''FROZEN''}"

definition waydroid_is_stopped :: "string \<Rightarrow> bool" where
  "waydroid_is_stopped status \<longleftrightarrow>
     (if container_state status = Some ''STOPPED'' then True
      else if container_state status = Some ''RUNNING'' then False
      else waydroid_session_state status = Some ''STOPPED'')"

definition ensure_container_stopped_status :: "string \<Rightarrow> os_error + unit" where
  "ensure_container_stopped_status status =
     (if container_state status = Some ''RUNNING''
      then Inl (OsError AlreadyExists ''Waydroid container is running. Stop it first with: waydroid session stop'')
      else if waydroid_session_state status = Some ''RUNNING'' \<and> container_state status = Some ''FROZEN''
      then Inl (OsError AlreadyExists (''Waydroid session is already running but the container is FROZEN. Recover with:'' @ [LF]
             @ ''  sudo target/debug/wroid-native-keyboard --cleanup'' @ [LF]
             @ ''  waydroid session stop'' @ [LF]
             @ ''  sudo systemctl restart waydroid-container''))
      else Inr ())"

section \<open>What a session prints\<close>

definition parse_u32 :: "string \<Rightarrow> u32 option" where
  "parse_u32 s = map_option of_nat (parse_unsigned (2 ^ 32) s)"

definition READY_MARKER :: string where "READY_MARKER = ''Android with user ''"
definition DISPLAY_MARKER :: string where "DISPLAY_MARKER = ''Running compositor on wayland display ''"

definition android_user_ready_event :: "string \<Rightarrow> u32 option" where
  "android_user_ready_event line =
     Option.bind (split_once READY_MARKER line) (\<lambda>(_, event).
     Option.bind (strip_suffix '' is ready'' (trim_end event)) parse_u32)"

definition gamescope_wayland_display_event :: "string \<Rightarrow> string option" where
  "gamescope_wayland_display_event line =
     Option.bind (split_once DISPLAY_MARKER line) (\<lambda>(_, rest).
     Option.bind (strip_prefix [CHR 0x27] (trim rest)) (\<lambda>quoted.
     Option.bind (strip_suffix [CHR 0x27] quoted) (\<lambda>display.
       if display = [] then None else Some display)))"

text \<open>A thread that forwards one output stream: what it wrote, how its next writes end, the events it sent.\<close>

record forwarder =
  fw_written :: string
  fw_faults :: "os_error option list"
  fw_ready :: "u32 list"
  fw_displays :: "string list"

definition forward_write :: "string \<Rightarrow> forwarder \<Rightarrow> (forwarder, os_error, unit) st" where
  "forward_write bytes fw =
     (case fw_faults fw of
        Some err # rest \<Rightarrow> (fw\<lparr>fw_faults := rest\<rparr>, Inl err)
      | None # rest \<Rightarrow> (fw\<lparr>fw_faults := rest, fw_written := fw_written fw @ bytes\<rparr>, Inr ())
      | [] \<Rightarrow> (fw\<lparr>fw_written := fw_written fw @ bytes\<rparr>, Inr ()))"

definition publish_events :: "(string \<Rightarrow> string) \<Rightarrow> bool \<Rightarrow> bool \<Rightarrow> string \<Rightarrow> forwarder \<Rightarrow> forwarder" where
  "publish_events lossy readiness gamescope_displays line fw =
     (let fw1 = (case (readiness, android_user_ready_event (lossy line)) of
            (True, Some user_id) \<Rightarrow> fw\<lparr>fw_ready := fw_ready fw @ [user_id]\<rparr> | _ \<Rightarrow> fw)
      in case (gamescope_displays, gamescope_wayland_display_event (lossy line)) of
           (True, Some display) \<Rightarrow> fw1\<lparr>fw_displays := fw_displays fw1 @ [display]\<rparr> | _ \<Rightarrow> fw1)"

fun forward_session_output ::
  "(string \<Rightarrow> string) \<Rightarrow> bool \<Rightarrow> bool \<Rightarrow> (os_error + string) list \<Rightarrow> forwarder \<Rightarrow> (forwarder, os_error, unit) st" where
  "forward_session_output lossy readiness gamescope_displays [] fw = (fw, Inr ())"
| "forward_session_output lossy readiness gamescope_displays (Inl err # reads) fw = (fw, Inl err)"
| "forward_session_output lossy readiness gamescope_displays (Inr line # reads) fw =
     (if line = [] then (fw, Inr ())
      else andThen (forward_write line fw) (\<lambda>fw1 _.
           andThen (forward_write [] fw1) (\<lambda>fw2 _.
             forward_session_output lossy readiness gamescope_displays reads
               (publish_events lossy readiness gamescope_displays line fw2))))"

section \<open>The size Android reports\<close>

definition parse_size_token :: "string \<Rightarrow> (u32 \<times> u32) option" where
  "parse_size_token line =
     (case rev (split_whitespace line) of
        [] \<Rightarrow> None
      | token # _ \<Rightarrow>
          Option.bind (split_once ''x'' token) (\<lambda>(width, height).
          Option.bind (parse_u32 width) (\<lambda>w. map_option (\<lambda>h. (w, h)) (parse_u32 height))))"

definition parse_android_display_size :: "string \<Rightarrow> (u32 \<times> u32) option" where
  "parse_android_display_size output = find_map (\<lambda>line. parse_size_token (trim line)) (rev (str_lines output))"

section \<open>The render size\<close>

definition WAYDROID_WIDTH_PROPERTY :: string where "WAYDROID_WIDTH_PROPERTY = ''persist.waydroid.width''"
definition WAYDROID_HEIGHT_PROPERTY :: string where "WAYDROID_HEIGHT_PROPERTY = ''persist.waydroid.height''"
definition MAX_WAYDROID_DIMENSION :: u32 where "MAX_WAYDROID_DIMENSION = 9999"

text \<open>The trait \<open>WaydroidPropertyControl\<close>: two operations on some state.\<close>

record 's property_control =
  pc_get :: "string \<Rightarrow> 's \<Rightarrow> ('s, os_error, string) st"
  pc_set :: "string \<Rightarrow> string \<Rightarrow> 's \<Rightarrow> ('s, os_error, unit) st"

definition size_text :: "string \<Rightarrow> string \<Rightarrow> string" where "size_text w h = w @ ''x'' @ h"

definition restore_resolution_properties ::
  "'s property_control \<Rightarrow> string \<Rightarrow> string \<Rightarrow> 's \<Rightarrow> ('s, os_error, unit) st" where
  "restore_resolution_properties c width height s =
     (case pc_set c WAYDROID_WIDTH_PROPERTY width s of (s1, width_result) \<Rightarrow>
      case pc_set c WAYDROID_HEIGHT_PROPERTY height s1 of (s2, height_result) \<Rightarrow>
        (s2, both_results (\<lambda>a b. ''width restore failed: '' @ a @ ''; height restore failed: '' @ b)
               width_result height_result))"

definition update_resolution ::
  "'s property_control \<Rightarrow> u32 \<Rightarrow> u32 \<Rightarrow> string \<Rightarrow> string \<Rightarrow> 's \<Rightarrow> ('s, os_error, unit) st" where
  "update_resolution c width height original_width original_height s =
     andThen (if original_width \<noteq> show_u32 width then pc_set c WAYDROID_WIDTH_PROPERTY (show_u32 width) s else (s, Inr ()))
       (\<lambda>s1 _.
     andThen (if original_height \<noteq> show_u32 height then pc_set c WAYDROID_HEIGHT_PROPERTY (show_u32 height) s1
              else (s1, Inr ())) (\<lambda>s2 _.
     andThen (pc_get c WAYDROID_WIDTH_PROPERTY s2) (\<lambda>s3 saved_width.
     andThen (pc_get c WAYDROID_HEIGHT_PROPERTY s3) (\<lambda>s4 saved_height.
       (s4, if saved_width \<noteq> show_u32 width \<or> saved_height \<noteq> show_u32 height
            then Inl (OsError OtherKind (''Waydroid did not persist render size '' @ size_text (show_u32 width) (show_u32 height)
                   @ ''; saved values are '' @ [CHR 0x27] @ saved_width @ [CHR 0x27] @ ''x''
                   @ [CHR 0x27] @ saved_height @ [CHR 0x27]))
            else Inr ())))))"

definition configure_resolution_properties ::
  "'s property_control \<Rightarrow> u32 \<Rightarrow> u32 \<Rightarrow> 's \<Rightarrow> ('s, os_error, bool) st" where
  "configure_resolution_properties c width height s =
     (if width = 0 \<or> height = 0 \<or> MAX_WAYDROID_DIMENSION < width \<or> MAX_WAYDROID_DIMENSION < height
      then (s, Inl (OsError InvalidInput (''Waydroid render size must be within 1..='' @ show_u32 MAX_WAYDROID_DIMENSION
             @ ''; got '' @ size_text (show_u32 width) (show_u32 height))))
      else andThen (pc_get c WAYDROID_WIDTH_PROPERTY s) (\<lambda>s1 original_width.
           andThen (pc_get c WAYDROID_HEIGHT_PROPERTY s1) (\<lambda>s2 original_height.
             if original_width = show_u32 width \<and> original_height = show_u32 height then (s2, Inr False)
             else case update_resolution c width height original_width original_height s2 of
                 (s3, Inr _) \<Rightarrow> (s3, Inr True)
               | (s3, Inl update_error) \<Rightarrow>
                   (case restore_resolution_properties c original_width original_height s3 of
                      (s4, Inr _) \<Rightarrow> (s4, Inl (OsError (err_kind update_error)
                         (''failed to configure Waydroid render size: '' @ err_text update_error)))
                    | (s4, Inl rollback_error) \<Rightarrow> (s4, Inl (OsError OtherKind
                         (''failed to configure Waydroid render size: '' @ err_text update_error
                          @ ''; rollback also failed: '' @ err_text rollback_error)))))))"

definition confirm_resolution_properties ::
  "'s property_control \<Rightarrow> u32 \<Rightarrow> u32 \<Rightarrow> 's \<Rightarrow> ('s, os_error, unit) st" where
  "confirm_resolution_properties c width height s =
     andThen (pc_get c WAYDROID_WIDTH_PROPERTY s) (\<lambda>s1 reported_width.
     andThen (pc_get c WAYDROID_HEIGHT_PROPERTY s1) (\<lambda>s2 reported_height.
       (s2, if reported_width = show_u32 width \<and> reported_height = show_u32 height then Inr ()
            else Inl (OsError OtherKind (''Waydroid render resolution mismatch: requested ''
                   @ size_text (show_u32 width) (show_u32 height) @ '', reported ''
                   @ size_text reported_width reported_height)))))"

end
