(* ===== verification/Desktop.thy ===== *)
theory Desktop
  imports Waydroid "HOL-Library.Char_ord" "HOL-Library.List_Lexorder"
begin

text \<open>
  The desktop user and the Waydroid session it runs, the second half of
  \<^verbatim>\<open>wroid-inject/src/waydroid_session.rs\<close>: who the user is and how a program is run as that user, and the session's
  child process from its start to its stop. The processes, the files and the clock are parameters; a receiver is the
  list of what its next calls to \<open>recv_timeout\<close> return.
\<close>

section \<open>The world\<close>

definition STATUS_ATTEMPTS :: nat where "STATUS_ATTEMPTS = 60"
definition USER_READY_ATTEMPTS :: nat where "USER_READY_ATTEMPTS = 240"
definition STATUS_INTERVAL :: nat where "STATUS_INTERVAL = 500000000"
definition DEFAULT_ANDROID_USER_ID :: u32 where "DEFAULT_ANDROID_USER_ID = 0"

record program_call =
  pg_program :: string
  pg_args :: "string list"
  pg_env :: "(string \<times> string) list" \<comment> \<open>what is set beside the inherited environment\<close>

datatype 'a waited = Message 'a | NoMessage

text \<open>
  A child process that was spawned: which of its pipes exist, what its \<open>n\<close>-th \<open>try_wait\<close> says, and what the
  receivers of its output deliver, call by call; after the last entry the senders are gone.
\<close>

record spawned_child =
  sp_stdout :: bool
  sp_stderr :: bool
  sp_status :: "nat \<Rightarrow> os_error + exit_status option"
  sp_readiness :: "u32 waited list"
  sp_displays :: "string waited list"

record desktop_env =
  de_var :: "string \<Rightarrow> string option"
  de_utf8 :: "string \<Rightarrow> bool"
  de_lossy :: "string \<Rightarrow> string"
  de_file :: "string \<Rightarrow> os_error + string"
  de_metadata :: "string \<Rightarrow> os_error + file_metadata"
  de_entries :: "string \<Rightarrow> os_error + (string \<times> bool) list"
  de_answer :: "nat \<Rightarrow> program_call \<Rightarrow> os_error + command_output"
  de_spawn :: "nat \<Rightarrow> program_call \<Rightarrow> os_error + spawned_child"

record desktop_world =
  dw_programs :: "program_call list"
  dw_spawned :: nat
  dw_waited :: "nat list" \<comment> \<open>the children that were waited for\<close>
  dw_slept :: nat

type_synonym 'a desktop_st = "(desktop_world, os_error, 'a) st"

definition run_program :: "desktop_env \<Rightarrow> program_call \<Rightarrow> desktop_world \<Rightarrow> command_output desktop_st" where
  "run_program env c w =
     (w\<lparr>dw_programs := dw_programs w @ [c]\<rparr>, de_answer env (length (dw_programs w)) c)"

definition output_text :: "desktop_env \<Rightarrow> command_output \<Rightarrow> string" where
  "output_text env out = de_lossy env (co_stdout out) @ de_lossy env (co_stderr out)"

definition pause :: "nat \<Rightarrow> desktop_world \<Rightarrow> desktop_world" where
  "pause d w = w\<lparr>dw_slept := dw_slept w + d\<rparr>"

definition waydroid_command :: "string list \<Rightarrow> program_call" where
  "waydroid_command arguments = \<lparr>pg_program = ''waydroid'', pg_args = arguments, pg_env = []\<rparr>"

fun join_with :: "string \<Rightarrow> string list \<Rightarrow> string" where
  "join_with sep [] = []"
| "join_with sep [s] = s"
| "join_with sep (s # ss) = s @ sep @ join_with sep ss"

definition waydroid_status :: "desktop_env \<Rightarrow> desktop_world \<Rightarrow> string desktop_st" where
  "waydroid_status env w =
     andThen (run_program env (waydroid_command [''status'']) w) (\<lambda>w' out. (w', Inr (output_text env out)))"

definition run_waydroid :: "desktop_env \<Rightarrow> string list \<Rightarrow> desktop_world \<Rightarrow> unit desktop_st" where
  "run_waydroid env arguments w =
     andThen (run_program env (waydroid_command arguments) w) (\<lambda>w' out.
       (w', if es_success (co_status out) then Inr ()
            else Inl (OsError OtherKind (''waydroid '' @ join_with '' '' arguments @ '' failed'' @ [LF] @ output_text env out))))"

section \<open>The desktop user\<close>

datatype desktop_user_launch = CurrentUser | Runuser

record desktop_user =
  du_name :: string
  du_home :: string
  du_runtime_dir :: string
  du_wayland_display :: string
  du_launch :: desktop_user_launch

definition path_join :: "string \<Rightarrow> string \<Rightarrow> string" where
  "path_join p q = (if is_absolute q then q else if p = [] \<or> last p = CHR ''/'' then p @ q else p @ ''/'' @ q)"

definition path_exists :: "desktop_env \<Rightarrow> string \<Rightarrow> bool" where
  "path_exists env p \<longleftrightarrow> (case de_metadata env p of Inl _ \<Rightarrow> False | Inr _ \<Rightarrow> True)"

text \<open>\<open>env::var\<close> wants UTF-8; the texts of \<open>ParseIntError\<close>.\<close>

definition env_var :: "desktop_env \<Rightarrow> string \<Rightarrow> string option" where
  "env_var env name = Option.bind (de_var env name) (\<lambda>v. if de_utf8 env v then Some v else None)"

definition nonempty_var :: "desktop_env \<Rightarrow> string \<Rightarrow> string option" where
  "nonempty_var env name = Option.bind (de_var env name) (\<lambda>v. if v = [] then None else Some v)"

fun scan_error :: "nat \<Rightarrow> nat \<Rightarrow> string \<Rightarrow> string" where
  "scan_error bound n [] = []"
| "scan_error bound n (c # cs) =
     (case digit_value c of
        None \<Rightarrow> ''invalid digit found in string''
      | Some d \<Rightarrow> if bound \<le> 10 * n + d then ''number too large to fit in target type''
                  else scan_error bound (10 * n + d) cs)"

definition parse_u32_error :: "string \<Rightarrow> string" where
  "parse_u32_error s =
     (if s = [] then ''cannot parse integer from empty string''
      else if s = ''+'' then ''invalid digit found in string''
      else scan_error (2 ^ 32) 0 (if hd s = CHR ''+'' then tl s else s))"

definition effective_uid :: "desktop_env \<Rightarrow> os_error + u32" where
  "effective_uid env =
     bind_result (de_file env ''/proc/self/status'') (\<lambda>status.
       case Option.bind (find_map (strip_prefix ''Uid:'') (str_lines status)) (\<lambda>uids.
              case split_whitespace uids of _ # uid # _ \<Rightarrow> parse_u32 uid | _ \<Rightarrow> None) of
         None \<Rightarrow> Inl (OsError InvalidData ''cannot read effective UID'')
       | Some uid \<Rightarrow> Inr uid)"

fun split_on :: "char \<Rightarrow> string \<Rightarrow> string list" where
  "split_on d [] = [[]]"
| "split_on d (c # cs) =
     (if c = d then [] # split_on d cs
      else case split_on d cs of [] \<Rightarrow> [[c]] | part # parts \<Rightarrow> (c # part) # parts)"

definition home_directory :: "desktop_env \<Rightarrow> string \<Rightarrow> os_error + string" where
  "home_directory env user =
     bind_result (de_file env ''/etc/passwd'') (\<lambda>passwd.
       case find_map (\<lambda>line. case split_on (CHR '':'') line of
                name # _ # _ # _ # _ # home # _ \<Rightarrow> if name = user then Some home else None
              | _ \<Rightarrow> None) (str_lines passwd) of
         None \<Rightarrow> Inl (OsError NotFound (''desktop user '' @ user @ '' is missing from /etc/passwd''))
       | Some home \<Rightarrow> Inr home)"

definition wayland_candidates :: "desktop_env \<Rightarrow> (string \<times> bool) list \<Rightarrow> string list" where
  "wayland_candidates env entries =
     map fst [e \<leftarrow> entries. prefix ''wayland-'' (de_lossy env (fst e)) \<and> snd e]"

definition detect_wayland_display :: "desktop_env \<Rightarrow> string \<Rightarrow> os_error + string" where
  "detect_wayland_display env runtime_dir =
     (case Option.bind (de_var env ''WAYLAND_DISPLAY'')
             (\<lambda>d. if path_exists env (path_join runtime_dir d) then Some d else None) of
        Some display \<Rightarrow> Inr display
      | None \<Rightarrow>
          bind_result (de_entries env runtime_dir) (\<lambda>entries.
            case sort (wayland_candidates env entries) of
              [] \<Rightarrow> Inl (OsError NotFound (''no Wayland socket found in '' @ runtime_dir))
            | display # _ \<Rightarrow> Inr display))"

definition missing_bus :: "string \<Rightarrow> os_error" where
  "missing_bus runtime_dir = OsError NotFound (''desktop DBus socket is missing: '' @ runtime_dir @ ''/bus'')"

definition option_result :: "'e \<Rightarrow> 'a option \<Rightarrow> 'e + 'a" where
  "option_result e x = (case x of None \<Rightarrow> Inl e | Some a \<Rightarrow> Inr a)"

definition from_sudo_environment :: "desktop_env \<Rightarrow> os_error + desktop_user" where
  "from_sudo_environment env =
     bind_result (option_result (OsError InvalidInput
         ''SUDO_USER is not set; run this integration tool with sudo from the desktop user session'')
       (env_var env ''SUDO_USER'')) (\<lambda>name.
     bind_result (option_result (OsError InvalidInput ''SUDO_UID is not set'') (env_var env ''SUDO_UID'')) (\<lambda>uid_text.
     bind_result (option_result (OsError InvalidInput (''invalid SUDO_UID: '' @ parse_u32_error uid_text))
       (parse_u32 uid_text)) (\<lambda>uid.
     bind_result (home_directory env name) (\<lambda>home.
       let runtime_dir = ''/run/user/'' @ show_u32 uid
       in case de_metadata env runtime_dir of
            Inl _ \<Rightarrow> Inl (OsError NotFound (''desktop runtime directory is missing: '' @ runtime_dir))
          | Inr fm \<Rightarrow>
              if \<not> fm_directory fm
              then Inl (OsError NotFound (''desktop runtime directory is missing: '' @ runtime_dir))
              else if \<not> path_exists env (path_join runtime_dir ''bus'') then Inl (missing_bus runtime_dir)
              else bind_result (detect_wayland_display env runtime_dir) (\<lambda>display.
                Inr \<lparr>du_name = name, du_home = home, du_runtime_dir = runtime_dir, du_wayland_display = display,
                     du_launch = Runuser\<rparr>)))))"

definition from_current_environment :: "desktop_env \<Rightarrow> os_error + desktop_user" where
  "from_current_environment env =
     bind_result (effective_uid env) (\<lambda>uid.
     if uid = 0 then Inl (OsError InvalidInput ''current desktop-user discovery must not run as root'')
     else bind_result (option_result (OsError NotFound
              ''XDG_RUNTIME_DIR is unavailable for the desktop Waydroid session'')
            (nonempty_var env ''XDG_RUNTIME_DIR'')) (\<lambda>runtime_dir.
     bind_result (de_metadata env runtime_dir) (\<lambda>fm.
     if \<not> fm_directory fm \<or> fm_uid fm \<noteq> uid
     then Inl (OsError PermissionDenied (''desktop runtime directory is not owned by the current user: '' @ runtime_dir))
     else if \<not> path_exists env (path_join runtime_dir ''bus'') then Inl (missing_bus runtime_dir)
     else bind_result (option_result (OsError NotFound ''HOME is unavailable'') (nonempty_var env ''HOME'')) (\<lambda>home.
     bind_result (case nonempty_var env ''WAYLAND_DISPLAY'' of
                    Some d \<Rightarrow> Inr d | None \<Rightarrow> detect_wayland_display env runtime_dir) (\<lambda>display.
       Inr \<lparr>du_name = (case env_var env ''USER'' of Some n \<Rightarrow> n | None \<Rightarrow> show_u32 uid), du_home = home,
            du_runtime_dir = runtime_dir, du_wayland_display = display, du_launch = CurrentUser\<rparr>)))))"

definition from_session_environment :: "desktop_env \<Rightarrow> os_error + desktop_user" where
  "from_session_environment env =
     bind_result (effective_uid env) (\<lambda>uid.
       if uid = 0 then from_sudo_environment env else from_current_environment env)"

definition bus_address :: "desktop_user \<Rightarrow> string" where
  "bus_address u = ''unix:path='' @ du_runtime_dir u @ ''/bus''"

definition command_for_program :: "desktop_user \<Rightarrow> string \<Rightarrow> string list \<Rightarrow> program_call" where
  "command_for_program u program arguments =
     (let env = [(''HOME'', du_home u), (''XDG_RUNTIME_DIR'', du_runtime_dir u),
                 (''DBUS_SESSION_BUS_ADDRESS'', bus_address u), (''WAYLAND_DISPLAY'', du_wayland_display u)]
      in case du_launch u of
           CurrentUser \<Rightarrow> \<lparr>pg_program = program, pg_args = arguments, pg_env = env\<rparr>
         | Runuser \<Rightarrow>
             \<lparr>pg_program = ''runuser'',
              pg_args = [''-u'', du_name u, ''--'', ''env''] @ map (\<lambda>(k, v). k @ ''='' @ v) env @ [program] @ arguments,
              pg_env = env\<rparr>)"

definition user_command :: "desktop_user \<Rightarrow> string list \<Rightarrow> program_call" where
  "user_command u = command_for_program u ''waydroid''"

definition session_command :: "desktop_user \<Rightarrow> waydroid_presentation \<Rightarrow> program_call" where
  "session_command u presentation =
     (case presentation of
        Direct \<Rightarrow> user_command u [''session'', ''start'']
      | Gamescope width height \<Rightarrow> command_for_program u GAMESCOPE_PATH (gamescope_arguments width height))"

definition user_output :: "desktop_env \<Rightarrow> desktop_user \<Rightarrow> string list \<Rightarrow> desktop_world \<Rightarrow> command_output desktop_st" where
  "user_output env u arguments w =
     andThen (run_program env (user_command u arguments) w) (\<lambda>w' out.
       (w', if es_success (co_status out) then Inr out
            else Inl (OsError OtherKind (''waydroid '' @ join_with '' '' arguments @ '' as desktop user '' @ du_name u
                   @ '' failed'' @ [LF] @ output_text env out))))"

definition user_run :: "desktop_env \<Rightarrow> desktop_user \<Rightarrow> string list \<Rightarrow> desktop_world \<Rightarrow> unit desktop_st" where
  "user_run env u arguments w = andThen (user_output env u arguments w) (\<lambda>w' _. (w', Inr ()))"

definition get_property :: "desktop_env \<Rightarrow> desktop_user \<Rightarrow> string \<Rightarrow> desktop_world \<Rightarrow> string desktop_st" where
  "get_property env u key w =
     andThen (user_output env u [''prop'', ''get'', key] w) (\<lambda>w' out. (w', Inr (trim (de_lossy env (co_stdout out)))))"

definition set_property :: "desktop_env \<Rightarrow> desktop_user \<Rightarrow> string \<Rightarrow> string \<Rightarrow> desktop_world \<Rightarrow> unit desktop_st" where
  "set_property env u key value = user_run env u [''prop'', ''set'', key, value]"

definition user_properties :: "desktop_env \<Rightarrow> desktop_user \<Rightarrow> desktop_world property_control" where
  "user_properties env u = \<lparr>pc_get = get_property env u, pc_set = set_property env u\<rparr>"

section \<open>Waiting for Android\<close>

text \<open>The four waits share one loop: ask, accept or sleep, and report the last output in the end.\<close>

fun probe_until ::
  "desktop_env \<Rightarrow> string list \<Rightarrow> (string \<Rightarrow> bool) \<Rightarrow> (string \<Rightarrow> os_error) \<Rightarrow> nat \<Rightarrow> string \<Rightarrow> desktop_world \<Rightarrow> unit desktop_st" where
  "probe_until env arguments accept give_up 0 last_output w = (w, Inl (give_up last_output))"
| "probe_until env arguments accept give_up (Suc n) last_output w =
     andThen (run_program env (waydroid_command arguments) w) (\<lambda>w' out.
       if es_success (co_status out) \<and> accept (output_text env out) then (w', Inr ())
       else probe_until env arguments accept give_up n (output_text env out) (pause STATUS_INTERVAL w'))"

definition wait_for_android_boot_completed :: "desktop_env \<Rightarrow> desktop_world \<Rightarrow> unit desktop_st" where
  "wait_for_android_boot_completed env =
     probe_until env [''shell'', ''--'', ''getprop'', ''sys.boot_completed''] (\<lambda>out. trim out = ''1'')
       (\<lambda>last. OsError TimedOut (''Android did not report sys.boot_completed=1'' @ [LF] @ last)) STATUS_ATTEMPTS []"

definition wait_for_android_display_size :: "desktop_env \<Rightarrow> u32 \<Rightarrow> u32 \<Rightarrow> desktop_world \<Rightarrow> unit desktop_st" where
  "wait_for_android_display_size env width height =
     probe_until env [''shell'', ''--'', ''wm'', ''size''] (\<lambda>out. parse_android_display_size out = Some (width, height))
       (\<lambda>last. OsError TimedOut (''Android display size did not become '' @ size_text (show_u32 width) (show_u32 height)
                @ [LF] @ last)) STATUS_ATTEMPTS []"

definition wait_for_android_input_device :: "desktop_env \<Rightarrow> string \<Rightarrow> desktop_world \<Rightarrow> unit desktop_st" where
  "wait_for_android_input_device env device_name =
     probe_until env [''shell'', ''--'', ''getevent'', ''-pl''] (\<lambda>out. str_contains out device_name)
       (\<lambda>last. OsError NotFound (''Android getevent did not list '' @ device_name
                @ ''; device bridge is not active'' @ [LF] @ tail_for_error last)) STATUS_ATTEMPTS []"

definition wait_for_android_input_reader :: "desktop_env \<Rightarrow> string \<Rightarrow> desktop_world \<Rightarrow> unit desktop_st" where
  "wait_for_android_input_reader env device_name =
     probe_until env [''shell'', ''--'', ''dumpsys'', ''input''] (\<lambda>out. dumpsys_lists_input_reader_device out device_name)
       (\<lambda>last. OsError NotFound (''Android InputReader did not register '' @ device_name
                @ ''; the event node is visible but unreadable for system_server (expected host group 1004/AID_INPUT, mode 0660)''
                @ [LF] @ tail_for_error last)) STATUS_ATTEMPTS []"

definition ensure_no_container :: "desktop_env \<Rightarrow> desktop_world \<Rightarrow> unit desktop_st" where
  "ensure_no_container env w =
     andThen (waydroid_status env w) (\<lambda>w' status. (w', ensure_container_stopped_status status))"

section \<open>The session\<close>

record desktop_session =
  ds_child :: nat
  ds_status :: "nat \<Rightarrow> os_error + exit_status option"
  ds_polls :: nat
  ds_user :: desktop_user
  ds_presentation :: waydroid_presentation
  ds_active :: bool
  ds_ready_users :: "u32 list"
  ds_readiness :: "u32 waited list"
  ds_displays :: "string waited list"
  ds_display :: "string option"
  ds_threads :: nat
  ds_world :: desktop_world

type_synonym 'a session_st = "(desktop_session, os_error, 'a) st"

definition on_world :: "(desktop_world \<Rightarrow> 'a desktop_st) \<Rightarrow> desktop_session \<Rightarrow> 'a session_st" where
  "on_world f s = (case f (ds_world s) of (w, r) \<Rightarrow> (s\<lparr>ds_world := w\<rparr>, r))"

definition session_try_wait :: "desktop_session \<Rightarrow> exit_status option session_st" where
  "session_try_wait s = (s\<lparr>ds_polls := Suc (ds_polls s)\<rparr>, ds_status s (ds_polls s))"

definition session_sleep :: "desktop_session \<Rightarrow> desktop_session" where
  "session_sleep s = s\<lparr>ds_world := pause STATUS_INTERVAL (ds_world s)\<rparr>"

text \<open>\<open>reap_child_and_output\<close>: waiting for the child, joining the threads. Killing it first is not observable here.\<close>

definition reap_child_and_output :: "desktop_session \<Rightarrow> desktop_session" where
  "reap_child_and_output s =
     s\<lparr>ds_world := (ds_world s)\<lparr>dw_waited := dw_waited (ds_world s) @ [ds_child s]\<rparr>, ds_threads := 0\<rparr>"

fun stop_polls :: "desktop_env \<Rightarrow> nat \<Rightarrow> os_error option \<Rightarrow> string \<Rightarrow> desktop_session \<Rightarrow> unit session_st" where
  "stop_polls env 0 user_stop_error last_status s =
     (case on_world (run_waydroid env [''container'', ''stop'']) s of
        (s1, fallback) \<Rightarrow>
          (reap_child_and_output (s1\<lparr>ds_active := False\<rparr>),
           bind_result fallback (\<lambda>_.
             Inl (OsError TimedOut (''Waydroid container did not stop cleanly'' @ [LF] @ last_status)))))"
| "stop_polls env (Suc n) user_stop_error last_status s =
     andThen (on_world (waydroid_status env) s) (\<lambda>s1 status.
       if waydroid_is_stopped status
       then (reap_child_and_output (s1\<lparr>ds_active := False\<rparr>),
             case user_stop_error of Some err \<Rightarrow> Inl err | None \<Rightarrow> Inr ())
       else stop_polls env n user_stop_error status (session_sleep s1))"

definition session_stop :: "desktop_env \<Rightarrow> desktop_session \<Rightarrow> unit session_st" where
  "session_stop env s =
     (if \<not> ds_active s then (s, Inr ())
      else andThen (on_world (run_program env (user_command (ds_user s) [''session'', ''stop''])) s) (\<lambda>s1 out.
             stop_polls env STATUS_ATTEMPTS
               (if es_success (co_status out) then None
                else Some (OsError OtherKind (''waydroid session stop failed'' @ [LF] @ output_text env out)))
               [] s1))"

definition session_drop :: "desktop_env \<Rightarrow> desktop_session \<Rightarrow> desktop_session" where
  "session_drop env s = (if ds_active s then fst (session_stop env s) else s)"

fun running_polls :: "desktop_env \<Rightarrow> nat \<Rightarrow> string \<Rightarrow> desktop_session \<Rightarrow> unit session_st" where
  "running_polls env 0 last_status s =
     (s, Inl (OsError TimedOut (''Waydroid container did not reach RUNNING state'' @ [LF] @ last_status)))"
| "running_polls env (Suc n) last_status s =
     andThen (session_try_wait s) (\<lambda>s1 exited.
       case exited of
         Some status \<Rightarrow> (s1, Inl (OsError OtherKind (''Waydroid user session exited before the container started: ''
                          @ es_text status @ [LF] @ last_status)))
       | None \<Rightarrow>
           andThen (on_world (waydroid_status env) s1) (\<lambda>s2 status.
             if waydroid_container_started status then (s2, Inr ())
             else running_polls env n status (session_sleep s2)))"

definition wait_until_running :: "desktop_env \<Rightarrow> desktop_session \<Rightarrow> unit session_st" where
  "wait_until_running env = running_polls env STATUS_ATTEMPTS []"

definition capture_session_output :: "spawned_child \<Rightarrow> os_error + unit" where
  "capture_session_output child =
     (if \<not> sp_stdout child then Inl (OsError OtherKind ''Waydroid session stdout pipe is unavailable'')
      else if \<not> sp_stderr child then Inl (OsError OtherKind ''Waydroid session stderr pipe is unavailable'')
      else Inr ())"

definition start_presented ::
  "desktop_env \<Rightarrow> desktop_user \<Rightarrow> waydroid_presentation \<Rightarrow> desktop_world \<Rightarrow> desktop_session desktop_st" where
  "start_presented env user presentation w =
     (let c = session_command user presentation; k = dw_spawned w
      in case de_spawn env k c of
           Inl err \<Rightarrow> (w, Inl err)
         | Inr child \<Rightarrow>
             (let w1 = w\<lparr>dw_spawned := Suc k\<rparr>
              in case capture_session_output child of
                   Inl err \<Rightarrow> (w1\<lparr>dw_waited := dw_waited w1 @ [k]\<rparr>, Inl err)
                 | Inr _ \<Rightarrow>
                     (let s = \<lparr>ds_child = k, ds_status = sp_status child, ds_polls = 0, ds_user = user,
                               ds_presentation = presentation, ds_active = True, ds_ready_users = [],
                               ds_readiness = sp_readiness child, ds_displays = sp_displays child,
                               ds_display = None, ds_threads = 2, ds_world = w1\<rparr>
                      in case wait_until_running env s of
                           (s1, Inr _) \<Rightarrow> (ds_world s1, Inr s1)
                         | (s1, Inl err) \<Rightarrow> (ds_world (session_drop env (fst (session_stop env s1))), Inl err))))"

text \<open>\<open>restart\<close>: the old session, stopped, is dropped when the replacement takes its place.\<close>

definition session_restart :: "desktop_env \<Rightarrow> desktop_session \<Rightarrow> unit session_st" where
  "session_restart env s =
     andThen (session_stop env s) (\<lambda>s1 _.
       case start_presented env (ds_user s1) (ds_presentation s1) (ds_world s1) of
         (w, Inl err) \<Rightarrow> (s1\<lparr>ds_world := w\<rparr>, Inl err)
       | (w, Inr replacement) \<Rightarrow>
           (replacement\<lparr>ds_world := ds_world (session_drop env (s1\<lparr>ds_world := w\<rparr>))\<rparr>, Inr ()))"

section \<open>Readiness\<close>

fun ready_polls :: "nat \<Rightarrow> u32 \<Rightarrow> desktop_session \<Rightarrow> unit session_st" where
  "ready_polls 0 user_id s =
     (s, Inl (OsError TimedOut (''Waydroid did not report Android user '' @ show_u32 user_id
                @ '' readiness before UI launch'')))"
| "ready_polls (Suc n) user_id s =
     andThen (session_try_wait s) (\<lambda>s1 exited.
       case exited of
         Some status \<Rightarrow> (s1, Inl (OsError OtherKind (''Waydroid user session exited before Android user ''
                          @ show_u32 user_id @ '' became ready: '' @ es_text status)))
       | None \<Rightarrow>
           (case ds_readiness s1 of
              [] \<Rightarrow> (s1, Inl (OsError BrokenPipe (''Waydroid session output closed before Android user ''
                        @ show_u32 user_id @ '' became ready'')))
            | NoMessage # rest \<Rightarrow> ready_polls n user_id (session_sleep (s1\<lparr>ds_readiness := rest\<rparr>))
            | Message ready_user # rest \<Rightarrow>
                (let s2 = s1\<lparr>ds_readiness := rest,
                      ds_ready_users := (if ready_user \<in> set (ds_ready_users s1) then ds_ready_users s1
                                         else ds_ready_users s1 @ [ready_user])\<rparr>
                 in if ready_user = user_id then (s2, Inr ()) else ready_polls n user_id s2)))"

definition wait_until_android_user_ready :: "u32 \<Rightarrow> desktop_session \<Rightarrow> unit session_st" where
  "wait_until_android_user_ready user_id s =
     (if user_id \<in> set (ds_ready_users s) then (s, Inr ()) else ready_polls USER_READY_ATTEMPTS user_id s)"

fun display_polls :: "nat \<Rightarrow> desktop_session \<Rightarrow> string option session_st" where
  "display_polls 0 s = (s, Inl (OsError TimedOut ''Gamescope did not publish its nested Wayland display''))"
| "display_polls (Suc n) s =
     (case ds_displays s of
        Message display # rest \<Rightarrow> (s\<lparr>ds_displays := rest, ds_display := Some display\<rparr>, Inr (Some display))
      | [] \<Rightarrow> (s, Inl (OsError BrokenPipe ''Gamescope output closed before publishing its nested Wayland display''))
      | NoMessage # rest \<Rightarrow>
          andThen (session_try_wait (session_sleep (s\<lparr>ds_displays := rest\<rparr>))) (\<lambda>s1 exited.
            case exited of
              Some status \<Rightarrow> (s1, Inl (OsError OtherKind
                (''Gamescope exited before publishing its nested Wayland display: '' @ es_text status)))
            | None \<Rightarrow> display_polls n s1))"

definition gamescope_wayland_display :: "desktop_session \<Rightarrow> string option session_st" where
  "gamescope_wayland_display s =
     (if ds_presentation s = Direct then (s, Inr None)
      else case ds_display s of
             Some display \<Rightarrow> (s, Inr (Some display))
           | None \<Rightarrow> display_polls STATUS_ATTEMPTS s)"

definition show_full_ui :: "desktop_env \<Rightarrow> desktop_session \<Rightarrow> unit session_st" where
  "show_full_ui env s =
     andThen (wait_until_android_user_ready DEFAULT_ANDROID_USER_ID s) (\<lambda>s1 _.
       on_world (user_run env (ds_user s1) [''show-full-ui'']) s1)"

definition ascii_alphanumeric :: "char \<Rightarrow> bool" where
  "ascii_alphanumeric c \<longleftrightarrow>
     (let n = of_char c :: nat in 48 \<le> n \<and> n \<le> 57 \<or> 65 \<le> n \<and> n \<le> 90 \<or> 97 \<le> n \<and> n \<le> 122)"

definition valid_package_name :: "string \<Rightarrow> bool" where
  "valid_package_name name \<longleftrightarrow>
     trim name \<noteq> [] \<and> (\<forall>c \<in> set name. ascii_alphanumeric c \<or> c = CHR ''_'' \<or> c = CHR ''.'')"

definition session_launch_package :: "desktop_env \<Rightarrow> string \<Rightarrow> desktop_session \<Rightarrow> unit session_st" where
  "session_launch_package env package_name s =
     (if \<not> valid_package_name package_name
      then (s, Inl (OsError InvalidInput (''invalid Android package name: '' @ package_name)))
      else on_world (user_run env (ds_user s) [''app'', ''launch'', package_name]) s)"

definition session_configure_resolution :: "desktop_env \<Rightarrow> u32 \<Rightarrow> u32 \<Rightarrow> desktop_session \<Rightarrow> bool session_st" where
  "session_configure_resolution env width height s =
     on_world (configure_resolution_properties (user_properties env (ds_user s)) width height) s"

definition session_confirm_resolution :: "desktop_env \<Rightarrow> u32 \<Rightarrow> u32 \<Rightarrow> desktop_session \<Rightarrow> unit session_st" where
  "session_confirm_resolution env width height s =
     on_world (confirm_resolution_properties (user_properties env (ds_user s)) width height) s"

end
