(* ===== verification/DesktopSpec.thy ===== *)
theory DesktopSpec
  imports Desktop
begin

text \<open>
  What the desktop session promises: the render size is set completely or not at all, no child process of a session
  is left behind, an announced user is found ready, and the texts of Android are read as they were written.
\<close>

section \<open>The render size\<close>

text \<open>\<open>vals\<close> is what the properties of a control are: reading tells them and changes nothing, writing one that succeeds
  changes it, writing one that fails may have changed it.\<close>

definition persists :: "'s property_control \<Rightarrow> ('s \<Rightarrow> string \<Rightarrow> string) \<Rightarrow> bool" where
  "persists c vals \<longleftrightarrow>
     (\<forall>k s s' r. pc_get c k s = (s', r) \<longrightarrow> vals s' = vals s \<and> (\<forall>v. r = Inr v \<longrightarrow> v = vals s k))
   \<and> (\<forall>k v s s' r. pc_set c k v s = (s', r) \<longrightarrow>
        vals s' = (vals s)(k := v) \<or> r \<noteq> Inr () \<and> vals s' = vals s)"

lemma persists_get:
  assumes "persists c vals" "pc_get c k s = (s', r)"
  shows "vals s' = vals s" "r = Inr v \<Longrightarrow> v = vals s k"
  using assms unfolding persists_def by blast+

lemma persists_set:
  assumes "persists c vals" "pc_set c k v s = (s', r)"
  shows "vals s' = (vals s)(k := v) \<or> r \<noteq> Inr () \<and> vals s' = vals s"
  using assms unfolding persists_def by blast

lemma width_height [simp]:
  "WAYDROID_WIDTH_PROPERTY \<noteq> WAYDROID_HEIGHT_PROPERTY" "WAYDROID_HEIGHT_PROPERTY \<noteq> WAYDROID_WIDTH_PROPERTY"
  by (simp_all add: WAYDROID_WIDTH_PROPERTY_def WAYDROID_HEIGHT_PROPERTY_def)

text \<open>Writing the old values back repairs the two properties whatever they are, unless a write fails.\<close>

lemma restore_resolution_effect:
  assumes "persists c vals" "restore_resolution_properties c w h s = (s', Inr ())"
  shows "vals s' = (vals s)(WAYDROID_WIDTH_PROPERTY := w, WAYDROID_HEIGHT_PROPERTY := h)"
proof -
  obtain s1 a where 1: "pc_set c WAYDROID_WIDTH_PROPERTY w s = (s1, a)" by fastforce
  obtain s2 b where 2: "pc_set c WAYDROID_HEIGHT_PROPERTY h s1 = (s2, b)" by fastforce
  from assms(2) 1 2 have "s' = s2" "a = Inr ()" "b = Inr ()"
    by (auto simp: restore_resolution_properties_def both_results_def split: sum.splits)
  with persists_set [OF assms(1) 1] persists_set [OF assms(1) 2] show ?thesis by simp
qed

text \<open>While updating, only the two properties can change.\<close>

lemma set_if_effect:
  assumes "persists c vals" "(if b then pc_set c k v s else (s, Inr ())) = (s', r)"
  shows "(\<exists>u. vals s' = (vals s)(k := u)) \<and> (r = Inr () \<longrightarrow> b \<longrightarrow> vals s' k = v) \<and> (\<not> b \<longrightarrow> vals s' = vals s)"
proof (cases b)
  case True
  with assms(2) have "pc_set c k v s = (s', r)" by simp
  from persists_set [OF assms(1) this] show ?thesis
    using True by (metis fun_upd_same fun_upd_triv)
qed (use assms(2) in \<open>auto intro: exI [of _ "vals s k"]\<close>)

lemma update_resolution_effect:
  assumes p: "persists c vals" and run: "update_resolution c w h ow oh s = (s', r)"
  shows "\<exists>a b. vals s' = (vals s)(WAYDROID_WIDTH_PROPERTY := a, WAYDROID_HEIGHT_PROPERTY := b)
    \<and> (r = Inr () \<longrightarrow> a = show_u32 w \<and> b = show_u32 h)"
proof -
  obtain s1 r1 where 1: "(if ow \<noteq> show_u32 w then pc_set c WAYDROID_WIDTH_PROPERTY (show_u32 w) s else (s, Inr ())) = (s1, r1)"
    by fastforce
  from set_if_effect [OF p 1] obtain a where a: "vals s1 = (vals s)(WAYDROID_WIDTH_PROPERTY := a)" by blast
  show ?thesis
  proof (cases r1)
    case (Inl e)
    have "s' = s1 \<and> r = Inl e" using run by (simp add: update_resolution_def 1 Inl)
    moreover have "vals s1 = (vals s)(WAYDROID_WIDTH_PROPERTY := a,
        WAYDROID_HEIGHT_PROPERTY := vals s WAYDROID_HEIGHT_PROPERTY)"
      using a by (auto simp: fun_eq_iff)
    ultimately show ?thesis by blast
  next
    case (Inr u)
    obtain s2 r2 where 2: "(if oh \<noteq> show_u32 h then pc_set c WAYDROID_HEIGHT_PROPERTY (show_u32 h) s1 else (s1, Inr ())) = (s2, r2)"
      by fastforce
    from set_if_effect [OF p 2] obtain b where b: "vals s2 = (vals s1)(WAYDROID_HEIGHT_PROPERTY := b)" by blast
    note ab = exI [of _ a, OF exI [of _ b]]
    obtain s3 r3 where 3: "pc_get c WAYDROID_WIDTH_PROPERTY s2 = (s3, r3)" by fastforce
    obtain s4 r4 where 4: "pc_get c WAYDROID_HEIGHT_PROPERTY s3 = (s4, r4)" by fastforce
    note g3 = persists_get [OF p 3] and g4 = persists_get [OF p 4]
    show ?thesis
    proof (cases r2)
      case (Inl e)
      with run 1 2 Inr a b show ?thesis by (intro ab) (auto simp: update_resolution_def)
    next
      case r2: (Inr v)
      show ?thesis
      proof (cases r3)
        case (Inl e)
        with run 1 2 3 Inr r2 a b g3 show ?thesis by (intro ab) (auto simp: update_resolution_def)
      next
        case r3: (Inr width)
        show ?thesis
        proof (cases r4)
          case (Inl e)
          with run 1 2 3 4 Inr r2 r3 a b g3 g4 show ?thesis by (intro ab) (auto simp: update_resolution_def)
        next
          case r4: (Inr height)
          have "width = a" "height = b" using g3 g4 r3 r4 a b by auto
          moreover have "s' = s4" "r = Inr () \<longrightarrow> width = show_u32 w \<and> height = show_u32 h"
            using run unfolding update_resolution_def 1 Inr andThen.simps 2 r2 3 r3 4 r4 by (auto split: if_splits)
          moreover have "vals s4 = (vals s)(WAYDROID_WIDTH_PROPERTY := a, WAYDROID_HEIGHT_PROPERTY := b)"
            using a b g3(1) g4(1) by simp
          ultimately show ?thesis by blast
        qed
      qed
    qed
  qed
qed


section \<open>No child is left behind\<close>

text \<open>The children a world has spawned and not waited for.\<close>

definition running_children :: "desktop_world \<Rightarrow> nat set" where
  "running_children w = {..<dw_spawned w} - set (dw_waited w)"

text \<open>What a session may leave running: its own child, as long as it is active.\<close>

definition owns :: "desktop_session \<Rightarrow> bool" where
  "owns s \<longleftrightarrow> running_children (ds_world s) \<subseteq> (if ds_active s then {ds_child s} else {})"

definition programs_answer :: "desktop_env \<Rightarrow> bool" where
  "programs_answer env \<longleftrightarrow> (\<forall>n c e. de_answer env n c \<noteq> Inl e)"

text \<open>Everything but the programs and the time.\<close>

definition same_children :: "desktop_world \<Rightarrow> desktop_world \<Rightarrow> bool" where
  "same_children w w' \<longleftrightarrow> dw_spawned w' = dw_spawned w \<and> dw_waited w' = dw_waited w"

definition same_session :: "desktop_session \<Rightarrow> desktop_session \<Rightarrow> bool" where
  "same_session s s' \<longleftrightarrow> same_children (ds_world s) (ds_world s') \<and> ds_active s' = ds_active s \<and> ds_child s' = ds_child s"

lemma same_session_refl [simp]: "same_session s s" by (simp add: same_session_def same_children_def)

lemma same_session_trans [trans]: "same_session s t \<Longrightarrow> same_session t u \<Longrightarrow> same_session s u"
  by (simp add: same_session_def same_children_def)

lemma same_session_owns: "same_session s s' \<Longrightarrow> owns s \<Longrightarrow> owns s'"
  by (auto simp: same_session_def same_children_def owns_def running_children_def)

lemma same_session_andThen:
  assumes "same_session s (fst r)" "\<And>t a. r = (t, Inr a) \<Longrightarrow> same_session t (fst (f t a))"
  shows "same_session s (fst (andThen r f))"
  using assms by (cases "(r, f)" rule: andThen.cases) (auto intro: same_session_trans)

lemma same_children_andThen:
  assumes "same_children s (fst r)" "\<And>t a. same_children t (fst (f t a))"
  shows "same_children s (fst (andThen r f))"
  using assms by (cases "(r, f)" rule: andThen.cases) (auto simp: same_children_def)

lemma run_program_children [simp]: "same_children w (fst (run_program env c w))"
  by (simp add: run_program_def same_children_def)

lemma same_children_refl [simp]: "same_children w w" by (simp add: same_children_def)

lemma program_children [simp]:
  "same_children w (fst (waydroid_status env w))"
  "same_children w (fst (run_waydroid env arguments w))"
  "same_children w (fst (user_output env u arguments w))"
  "same_children w (fst (user_run env u arguments w))"
  "same_children w (fst (get_property env u k w))"
  "same_children w (fst (set_property env u k v w))"
  unfolding waydroid_status_def run_waydroid_def user_run_def user_output_def get_property_def set_property_def
  by (intro same_children_andThen; simp)+

lemma same_session_on_world: "(\<And>w. same_children w (fst (f w))) \<Longrightarrow> same_session s (fst (on_world f s))"
proof -
  assume "\<And>w. same_children w (fst (f w))"
  from this [of "ds_world s"] show ?thesis
    by (cases "f (ds_world s)") (simp add: on_world_def same_session_def)
qed

lemma same_session_steps [simp]:
  "same_session s (fst (session_try_wait s))"
  "same_session s (session_sleep s)"
  "same_session s (s\<lparr>ds_readiness := a, ds_ready_users := b\<rparr>)"
  "same_session s (s\<lparr>ds_readiness := a\<rparr>)"
  "same_session s (s\<lparr>ds_displays := c\<rparr>)"
  "same_session s (s\<lparr>ds_displays := c, ds_display := d\<rparr>)"
  by (simp_all add: same_session_def same_children_def session_try_wait_def session_sleep_def pause_def)

lemma running_polls_same: "same_session s (fst (running_polls env n l s))"
proof (induction n arbitrary: l s)
  case (Suc n)
  show ?case
    by (auto simp only: running_polls.simps fst_conv intro!: same_session_andThen same_session_on_world program_children
        split: option.split if_split)
      (use Suc same_session_trans same_session_steps same_session_refl in \<open>fastforce+\<close>)
qed simp

lemma ready_polls_same: "same_session s (fst (ready_polls n user s))"
proof (induction n arbitrary: s)
  case (Suc n)
  have step: "same_session s (fst (ready_polls n user t))" if "same_session s t" for s t
    using that Suc by (rule same_session_trans)
  have sleep: "same_session s (session_sleep (s\<lparr>ds_readiness := a\<rparr>))" for s a
    by (rule same_session_trans [OF same_session_steps(4) same_session_steps(2)])
  show ?case
    by (auto simp: Let_def intro!: same_session_andThen step sleep split: option.split list.split waited.split)
qed simp

lemma display_polls_same: "same_session s (fst (display_polls n s))"
proof (induction n arbitrary: s)
  case (Suc n)
  have "same_session s (fst (display_polls n t))" if "same_session s t" for t
    using that Suc by (rule same_session_trans)
  moreover have "same_session s (fst (session_try_wait (session_sleep (s\<lparr>ds_displays := rest\<rparr>))))" for rest
    using same_session_steps(5,2,1) same_session_trans by blast
  moreover have "same_session s t" if "session_try_wait (session_sleep (s\<lparr>ds_displays := rest\<rparr>)) = (t, r)" for rest t r
    using calculation(2) [of rest] that by simp
  ultimately show ?case
    by (auto simp: display_polls.simps split: list.split waited.split option.split andThen_split)
qed simp

lemma control_same:
  assumes "\<And>k s. same_children s (fst (pc_get c k s))" "\<And>k v s. same_children s (fst (pc_set c k v s))"
  shows "same_children s (fst (configure_resolution_properties c w h s))"
    "same_children s (fst (confirm_resolution_properties c w h s))"
proof -
  have trans: "same_children a b \<Longrightarrow> same_children b d \<Longrightarrow> same_children a d" for a b d
    by (simp add: same_children_def)
  have restore: "same_children s (fst (restore_resolution_properties c a b s))" for a b s
    using assms(2) trans by (auto simp: restore_resolution_properties_def split: prod.split) (metis fst_conv)
  have update: "same_children s (fst (update_resolution c w h a b s))" for a b s
    unfolding update_resolution_def
    by (intro same_children_andThen) (simp_all add: assms)
  have "same_children s (fst (case update_resolution c w h a b s of
                 (s3, Inr _) \<Rightarrow> (s3, Inr True)
               | (s3, Inl update_error) \<Rightarrow> (case restore_resolution_properties c a b s3 of
                      (s4, Inr _) \<Rightarrow> (s4, Inl (f update_error))
                    | (s4, Inl rollback_error) \<Rightarrow> (s4, Inl (g update_error rollback_error)))))" for a b s f g
    using update [of s a b] restore [of _ a b] trans
    by (auto split: prod.split sum.split) (metis fst_conv)+
  then show "same_children s (fst (configure_resolution_properties c w h s))"
    unfolding configure_resolution_properties_def
    by (auto intro!: same_children_andThen simp: assms)
  show "same_children s (fst (confirm_resolution_properties c w h s))"
    unfolding confirm_resolution_properties_def
    by (intro same_children_andThen) (simp_all add: assms)
qed

lemma program_answered: "programs_answer env \<Longrightarrow> \<exists>w' out. run_program env c w = (w', Inr out)"
  unfolding programs_answer_def run_program_def by (metis sum.exhaust)

lemma command_answered: "programs_answer env \<Longrightarrow> \<exists>s' out. on_world (run_program env c) s = (s', Inr out)"
  using program_answered [of env c "ds_world s"] by (auto simp: on_world_def)

lemma status_answered: "programs_answer env \<Longrightarrow> \<exists>s' status. on_world (waydroid_status env) s = (s', Inr status)"
  using program_answered [of env "waydroid_command [''status'']" "ds_world s"]
  by (auto simp: on_world_def waydroid_status_def)

lemma stop_polls_reaps:
  assumes answer: "programs_answer env"
  shows "(case stop_polls env n err l s of (s', r) \<Rightarrow> \<not> ds_active s' \<and> ds_child s' = ds_child s
      \<and> dw_spawned (ds_world s') = dw_spawned (ds_world s)
      \<and> dw_waited (ds_world s') = dw_waited (ds_world s) @ [ds_child s])"
proof (induction n arbitrary: l s)
  case 0
  have "same_session s (fst (on_world (run_waydroid env [''container'', ''stop'']) s))"
    by (rule same_session_on_world) simp
  then show ?case
    by (cases "on_world (run_waydroid env [''container'', ''stop'']) s")
      (simp add: same_session_def same_children_def reap_child_and_output_def)
next
  case (Suc n)
  have same: "same_session s (fst (on_world (waydroid_status env) s))"
    by (rule same_session_on_world) simp
  obtain s1 status where 1: "on_world (waydroid_status env) s = (s1, Inr status)"
    using status_answered [OF answer] by blast
  have "same_session s (session_sleep s1)"
    using same 1 same_session_trans same_session_steps(2) by fastforce
  with Suc [where l = status and s = "session_sleep s1"] 1 same show ?case
    by (auto simp: same_session_def same_children_def reap_child_and_output_def split: prod.splits)
qed

lemma session_stop_reaps:
  assumes answer: "programs_answer env" and run: "session_stop env s = (s', r)" and "ds_active s"
  shows "\<not> ds_active s'" "ds_child s' = ds_child s" "dw_spawned (ds_world s') = dw_spawned (ds_world s)"
    "dw_waited (ds_world s') = dw_waited (ds_world s) @ [ds_child s]"
proof -
  let ?c = "user_command (ds_user s) [''session'', ''stop'']"
  have same: "same_session s (fst (on_world (run_program env ?c) s))"
    by (rule same_session_on_world) simp
  obtain s1 out where 1: "on_world (run_program env ?c) s = (s1, Inr out)"
    using command_answered [OF answer] by blast
  from run 1 \<open>ds_active s\<close> obtain err where 2: "stop_polls env STATUS_ATTEMPTS err [] s1 = (s', r)"
    by (auto simp: session_stop_def)
  from stop_polls_reaps [OF answer, where n = STATUS_ATTEMPTS and err = err and l = "[]" and s = s1] same
  show "\<not> ds_active s'" "ds_child s' = ds_child s" "dw_spawned (ds_world s') = dw_spawned (ds_world s)"
    "dw_waited (ds_world s') = dw_waited (ds_world s) @ [ds_child s]"
    by (simp_all add: 2 1 same_session_def same_children_def)
qed

lemma session_stop_owns:
  assumes "programs_answer env" "session_stop env s = (s', r)" "owns s"
  shows "\<not> ds_active s' \<and> running_children (ds_world s') = {}"
proof (cases "ds_active s")
  case True
  from session_stop_reaps [OF assms(1,2) True] assms(3) True show ?thesis
    by (auto simp: owns_def running_children_def)
qed (use assms in \<open>auto simp: session_stop_def owns_def\<close>)

lemma session_drop_owns:
  assumes "programs_answer env" "owns s"
  shows "running_children (ds_world (session_drop env s)) = {}"
  using session_stop_owns [OF assms(1) _ assms(2)] assms(2)
  by (cases "session_stop env s") (auto simp: session_drop_def owns_def)

lemma start_presented_owns:
  assumes answer: "programs_answer env" and run: "start_presented env u p w = (w', r)" and none: "running_children w = {}"
  shows "case r of Inr s \<Rightarrow> ds_world s = w' \<and> owns s | Inl e \<Rightarrow> running_children w' = {}"
proof (cases "de_spawn env (dw_spawned w) (session_command u p)")
  case (Inl err)
  with run none show ?thesis by (auto simp: start_presented_def)
next
  case (Inr child)
  let ?w1 = "w\<lparr>dw_spawned := Suc (dw_spawned w)\<rparr>"
  let ?s = "\<lparr>ds_child = dw_spawned w, ds_status = sp_status child, ds_polls = 0, ds_user = u,
     ds_presentation = p, ds_active = True, ds_ready_users = [], ds_readiness = sp_readiness child,
     ds_displays = sp_displays child, ds_display = None, ds_threads = 2, ds_world = ?w1\<rparr>"
  show ?thesis
  proof (cases "capture_session_output child")
    case (Inl err)
    with run Inr none show ?thesis
      by (fastforce simp: start_presented_def Let_def running_children_def less_Suc_eq)
  next
    case captured: (Inr c)
    have "owns ?s" using none by (auto simp: owns_def running_children_def less_Suc_eq)
    moreover obtain s1 r1 where 1: "wait_until_running env ?s = (s1, r1)" by fastforce
    ultimately have own: "owns s1"
      using running_polls_same [of ?s env STATUS_ATTEMPTS "[]"] same_session_owns by (simp add: wait_until_running_def)
    show ?thesis
    proof (cases r1)
      case (Inr v)
      with run \<open>de_spawn _ _ _ = _\<close> captured 1 own show ?thesis by (auto simp: start_presented_def Let_def)
    next
      case (Inl e)
      obtain s2 r2 where 2: "session_stop env s1 = (s2, r2)" by fastforce
      from session_stop_owns [OF answer 2 own] have 3: "\<not> ds_active s2" "running_children (ds_world s2) = {}" by blast+
      with run \<open>de_spawn _ _ _ = _\<close> captured 1 2 Inl show ?thesis
        by (auto simp: start_presented_def Let_def session_drop_def)
    qed
  qed
qed

lemma session_restart_owns:
  assumes answer: "programs_answer env" and own: "owns s"
  shows "owns (fst (session_restart env s))"
proof -
  obtain s1 r1 where 1: "session_stop env s = (s1, r1)" by fastforce
  from session_stop_owns [OF answer 1 own] have s1: "\<not> ds_active s1" "running_children (ds_world s1) = {}" by blast+
  obtain w r where 2: "start_presented env (ds_user s1) (ds_presentation s1) (ds_world s1) = (w, r)" by fastforce
  from start_presented_owns [OF answer 2 s1(2)]
  show ?thesis using s1 1 2
    by (cases r1; cases r) (auto simp: session_restart_def session_drop_def owns_def)
qed

text \<open>The calls a game session makes on its desktop session.\<close>

datatype session_call =
    DoStop | DoRestart | DoWaitReady u32 | DoDisplay | DoShowUi | DoLaunch string | DoConfigure u32 u32 | DoConfirm u32 u32

fun session_call_run :: "desktop_env \<Rightarrow> session_call \<Rightarrow> desktop_session \<Rightarrow> desktop_session" where
  "session_call_run env DoStop s = fst (session_stop env s)"
| "session_call_run env DoRestart s = fst (session_restart env s)"
| "session_call_run env (DoWaitReady user) s = fst (wait_until_android_user_ready user s)"
| "session_call_run env DoDisplay s = fst (gamescope_wayland_display s)"
| "session_call_run env DoShowUi s = fst (show_full_ui env s)"
| "session_call_run env (DoLaunch name) s = fst (session_launch_package env name s)"
| "session_call_run env (DoConfigure w h) s = fst (session_configure_resolution env w h s)"
| "session_call_run env (DoConfirm w h) s = fst (session_confirm_resolution env w h s)"

lemma wait_ready_same: "same_session s (fst (wait_until_android_user_ready user s))"
  by (simp add: wait_until_android_user_ready_def ready_polls_same)

lemma session_call_owns:
  assumes "programs_answer env" "owns s"
  shows "owns (session_call_run env call s)"
proof (cases call)
  case DoStop
  then show ?thesis using session_stop_owns [OF assms(1) _ assms(2)]
    by (cases "session_stop env s") (auto simp: owns_def)
next
  case DoRestart
  then show ?thesis using session_restart_owns [OF assms] by simp
next
  case (DoWaitReady user)
  then show ?thesis using same_session_owns [OF wait_ready_same assms(2)] by simp
next
  case DoDisplay
  have "same_session s (fst (gamescope_wayland_display s))"
    by (simp add: gamescope_wayland_display_def display_polls_same split: option.split)
  from same_session_owns [OF this assms(2)] DoDisplay show ?thesis by simp
next
  case DoShowUi
  have "same_session s (fst (show_full_ui env s))"
    unfolding show_full_ui_def
    by (intro same_session_andThen wait_ready_same same_session_on_world program_children)
  from same_session_owns [OF this assms(2)] DoShowUi show ?thesis by simp
next
  case (DoLaunch name)
  have "same_session s (fst (session_launch_package env name s))"
    unfolding session_launch_package_def by (simp add: same_session_on_world)
  from same_session_owns [OF this assms(2)] DoLaunch show ?thesis by simp
next
  case (DoConfigure w h)
  have "same_session s (fst (session_configure_resolution env w h s))"
    unfolding session_configure_resolution_def
    by (intro same_session_on_world control_same) (simp_all add: user_properties_def)
  from same_session_owns [OF this assms(2)] DoConfigure show ?thesis by simp
next
  case (DoConfirm w h)
  have "same_session s (fst (session_confirm_resolution env w h s))"
    unfolding session_confirm_resolution_def
    by (intro same_session_on_world control_same) (simp_all add: user_properties_def)
  from same_session_owns [OF this assms(2)] DoConfirm show ?thesis by simp
qed

text \<open>C32. A desktop session never leaves a child process behind, provided the waydroid programs can be run: if the start
  fails, every child it spawned was waited for; and if it succeeds, then after any calls - stops, restarts that fail or
  not, waits, launches - at most the session's own child runs, and none once the session is dropped. Without the
  proviso this is false: a status program that cannot be run leaves the session active.\<close>

theorem no_child_left_behind:
  assumes answer: "programs_answer env" and start: "start_presented env u p w = (w', r)" and none: "running_children w = {}"
  shows "case r of
      Inl e \<Rightarrow> running_children w' = {}
    | Inr s \<Rightarrow> owns (fold (session_call_run env) calls s)
        \<and> running_children (ds_world (session_drop env (fold (session_call_run env) calls s))) = {}"
proof (cases r)
  case (Inl e)
  with start_presented_owns [OF assms] show ?thesis by simp
next
  case (Inr s)
  with start_presented_owns [OF assms] have "owns s" by simp
  then have "owns (fold (session_call_run env) calls s)"
    by (induction calls arbitrary: s) (simp_all add: session_call_owns [OF answer])
  with session_drop_owns [OF answer this] Inr show ?thesis by simp
qed

section \<open>An announced user is ready\<close>

lemma ready_polls_iff:
  "(\<And>n. ds_status s n = Inr None) \<Longrightarrow>
     (\<exists>s'. ready_polls n user s = (s', Inr ())) \<longleftrightarrow> Message user \<in> set (take n (ds_readiness s))"
proof (induction n arbitrary: s)
  case (Suc n)
  have alive: "session_try_wait s = (s\<lparr>ds_polls := Suc (ds_polls s)\<rparr>, Inr None)"
    using Suc.prems by (simp add: session_try_wait_def)
  show ?case
  proof (cases "ds_readiness s")
    case (Cons m rest)
    have "ds_status (session_sleep (s\<lparr>ds_polls := a, ds_readiness := b\<rparr>)) = ds_status s"
      "ds_readiness (session_sleep (s\<lparr>ds_polls := a, ds_readiness := b\<rparr>)) = b" for a b
      by (simp_all add: session_sleep_def)
    with Cons Suc show ?thesis by (cases m) (simp_all add: alive Let_def)
  qed (simp add: alive)
qed simp

text \<open>As long as the session's child runs, waiting for an Android user succeeds exactly if the user was ready before
  or one of the next 240 messages of the output threads announces it; users announced on the way are kept.\<close>

theorem android_user_ready_iff:
  assumes "\<And>n. ds_status s n = Inr None"
  shows "(\<exists>s'. wait_until_android_user_ready user s = (s', Inr ())) \<longleftrightarrow>
    user \<in> set (ds_ready_users s) \<or> Message user \<in> set (take USER_READY_ATTEMPTS (ds_readiness s))"
  using ready_polls_iff [OF assms, of USER_READY_ATTEMPTS user] by (auto simp: wait_until_android_user_ready_def)

section \<open>Numbers and sizes in texts\<close>

lemma digit_value_char: "d < 10 \<Longrightarrow> digit_value (char_of (48 + d)) = Some d"
  by (simp add: digit_value_def)

lemma digits_value_append:
  "digits_value a (xs @ ys) = Option.bind (digits_value a xs) (\<lambda>b. digits_value b ys)"
  by (induction a xs rule: digits_value.induct) (auto split: option.split)

lemma digits_value_show: "digits_value 0 (show_nat n) = Some n"
proof (induction n rule: show_nat.induct)
  case (1 n)
  show ?case
  proof (cases "n < 10")
    case True
    then show ?thesis by (subst show_nat.simps) (simp add: digit_value_char)
  next
    case False
    with 1 show ?thesis
      by (subst show_nat.simps) (simp add: digits_value_append digit_value_char del: show_nat.simps)
  qed
qed

text \<open>The characters of a number are digits.\<close>

definition digit_chars :: "char set" where "digit_chars = set ''0123456789''"

lemma digit_char: "d < 10 \<Longrightarrow> char_of (48 + d :: nat) \<in> digit_chars"
proof -
  assume "d < 10"
  then have "d \<in> {0, 1, 2, 3, 4, 5, 6, 7, 8, 9}" by auto
  then show ?thesis by (elim insertE emptyE) (simp_all add: digit_chars_def char_of_def bit_0 bit_Suc)
qed

lemma show_nat_digits: "set (show_nat n) \<subseteq> digit_chars" "show_nat n \<noteq> []"
proof -
  show "set (show_nat n) \<subseteq> digit_chars"
  proof (induction n rule: show_nat.induct)
    case (1 n)
    then show ?case by (subst show_nat.simps) (auto simp: digit_char)
  qed
  show "show_nat n \<noteq> []" by (subst show_nat.simps) auto
qed

lemma parse_show_u32: "parse_u32 (show_u32 n) = Some n"
proof -
  obtain c cs where c: "show_nat (unat n) = c # cs" using show_nat_digits(2) by (cases "show_nat (unat n)") auto
  with show_nat_digits(1) [of "unat n"] have "c \<noteq> CHR ''+''" by (auto simp: digit_chars_def)
  moreover have "unat n < 2 ^ 32" using unsigned_less [of n] by simp
  ultimately show ?thesis
    using digits_value_show [of "unat n"] c by (simp add: parse_u32_def parse_unsigned_def show_u32_def)
qed

lemma strip_first_other: "list_all (\<lambda>w. w \<noteq> [] \<and> hd w \<noteq> c) ws \<Longrightarrow> strip_first ws (c # cs) = None"
  by (induction ws) (auto simp: prefix_Cons neq_Nil_conv)

definition word_chars :: "char set" where "word_chars = set ''0123456789xPhysicalOvrdze:''"

lemma word_chars_not_white:
  "list_all (\<lambda>c. list_all (\<lambda>w. w \<noteq> [] \<and> hd w \<noteq> c) white_space
     \<and> list_all (\<lambda>w. w \<noteq> [] \<and> hd w \<noteq> c) (map rev white_space)) ''0123456789xPhysicalOvrdze:''"
  by code_simp

lemma word_char_no_white:
  assumes "c \<in> word_chars"
  shows "strip_first white_space (c # cs) = None" "strip_first (map rev white_space) (c # cs) = None"
proof -
  have "list_all (\<lambda>w. w \<noteq> [] \<and> hd w \<noteq> c) white_space \<and> list_all (\<lambda>w. w \<noteq> [] \<and> hd w \<noteq> c) (map rev white_space)"
    by (rule bspec [OF word_chars_not_white [unfolded list_all_iff [of _ "''0123456789xPhysicalOvrdze:''"]]])
      (use assms in \<open>simp only: word_chars_def\<close>)
  then show "strip_first white_space (c # cs) = None" "strip_first (map rev white_space) (c # cs) = None"
    by (auto intro: strip_first_other)
qed

lemma digits_are_words: "digit_chars \<subseteq> word_chars"
  by (auto simp: digit_chars_def word_chars_def)

lemma space_is_white: "strip_first white_space (CHR '' '' # cs) = Some cs"
  by (simp add: white_space_def)

lemma strip_front_word: "set t \<subseteq> word_chars \<Longrightarrow> t \<noteq> [] \<Longrightarrow> strip_front white_space (t @ cs) = t @ cs"
  by (cases t) (simp_all add: strip_front_None word_char_no_white)

lemma take_token_word: "set t \<subseteq> word_chars \<Longrightarrow> cs = [] \<or> hd cs = CHR '' '' \<Longrightarrow> take_token (t @ cs) = (t, cs)"
proof (induction t)
  case Nil
  then show ?case by (cases cs) (auto simp: space_is_white)
qed (simp add: word_char_no_white)

lemma split_whitespace_word:
  assumes t: "set t \<subseteq> word_chars" "t \<noteq> []"
  shows "split_whitespace (t @ CHR '' '' # cs) = t # split_whitespace cs" "split_whitespace t = [t]"
proof -
  have "split_whitespace (CHR '' '' # cs) = split_whitespace cs"
    by (subst (1 2) split_whitespace.simps, subst strip_front.simps) (simp add: space_is_white)
  moreover have "split_whitespace [] = []"
    by (subst split_whitespace.simps) (simp add: strip_front.simps white_space_def)
  ultimately show "split_whitespace (t @ CHR '' '' # cs) = t # split_whitespace cs" "split_whitespace t = [t]"
    using t strip_front_word [OF t, of "CHR '' '' # cs"] strip_front_word [OF t, of "[]"]
      take_token_word [OF t(1), of "CHR '' '' # cs"] take_token_word [OF t(1), of "[]"]
    by (subst split_whitespace.simps; simp)+
qed

lemma split_once_char: "c \<notin> set a \<Longrightarrow> split_once [c] (a @ c # b) = Some (a, b)"
  by (induction a) auto

lemma show_u32_words: "set (show_u32 n) \<subseteq> word_chars" "show_u32 n \<noteq> []" "CHR ''x'' \<notin> set (show_u32 n)"
  "LF \<notin> set (show_u32 n)" "CR \<notin> set (show_u32 n)"
  using show_nat_digits [of "unat n"] digits_are_words
  by (auto simp: show_u32_def digit_chars_def LF_def CR_def)

lemma trim_word: "set t \<subseteq> word_chars \<Longrightarrow> t \<noteq> [] \<Longrightarrow> set u \<subseteq> word_chars \<Longrightarrow> u \<noteq> [] \<Longrightarrow> trim (t @ cs @ u) = t @ cs @ u"
proof (rule trim_idI)
  assume t: "set t \<subseteq> word_chars" "t \<noteq> []" and u: "set u \<subseteq> word_chars" "u \<noteq> []"
  show "strip_first white_space (t @ cs @ u) = None" using t by (cases t) (simp_all add: word_char_no_white)
  show "strip_first (map rev white_space) (rev (t @ cs @ u)) = None"
    using u by (cases u rule: rev_cases) (simp_all add: word_char_no_white)
qed

lemma parse_size_line:
  assumes label: "label \<in> {''Physical'', ''Override''}"
  shows "parse_size_token (trim (label @ '' size: '' @ size_text (show_u32 w) (show_u32 h))) = Some (w, h)"
proof -
  note ws = show_u32_words [of w] and hs = show_u32_words [of h]
  let ?token = "size_text (show_u32 w) (show_u32 h)"
  have words: "set ?token \<subseteq> word_chars" "?token \<noteq> []" "set label \<subseteq> word_chars" "label \<noteq> []" "set ''size:'' \<subseteq> word_chars"
    using ws(1) hs(1) label by (auto simp: size_text_def word_chars_def)
  have "trim (label @ '' size: '' @ ?token) = label @ '' size: '' @ ?token"
    using trim_word [OF words(3,4,1,2), of "'' size: ''"] by simp
  moreover have "split_whitespace (label @ '' size: '' @ ?token) = [label, ''size:'', ?token]"
    using split_whitespace_word(1) [OF words(3,4), of "''size: '' @ ?token"]
      split_whitespace_word(1) [of "''size:''" ?token] split_whitespace_word(2) [OF words(1,2)] words(5) by simp
  moreover have "split_once ''x'' ?token = Some (show_u32 w, show_u32 h)"
    using split_once_char [OF ws(3), of "show_u32 h"] by (simp add: size_text_def)
  ultimately show ?thesis by (simp add: parse_size_token_def parse_show_u32)
qed

lemma split_once_marker:
  assumes "c \<notin> set a" shows "split_once (c # p) (a @ c # p @ b) = Some (a, b)"
  using assms by (induction a) auto

lemma trim_end_ready: "trim_end (show_u32 n @ '' is ready'' @ [LF]) = show_u32 n @ '' is ready''"
proof -
  have "strip_front (map rev white_space) (LF # CHR ''y'' # cs) = CHR ''y'' # cs" for cs
    by (subst strip_front.simps) (simp add: white_space_def LF_def strip_front_None)
  then show ?thesis by (simp add: trim_end_def)
qed

text \<open>What Android and Waydroid print is read as it was written: the size in the last line of \<open>wm size\<close>, whatever
  the lines before it say, and the user that became ready, whatever stands before the announcement as long as it has
  no capital A.\<close>

theorem texts_read_back:
  assumes "label \<in> {''Physical'', ''Override''}" "CHR ''A'' \<notin> set pre"
  shows "parse_android_display_size (earlier @ LF # label @ '' size: '' @ size_text (show_u32 w) (show_u32 h) @ [LF]) = Some (w, h)
    \<and> android_user_ready_event (pre @ ''Android with user '' @ show_u32 n @ '' is ready'' @ [LF]) = Some n"
proof
  let ?line = "label @ '' size: '' @ size_text (show_u32 w) (show_u32 h)"
  have "LF \<notin> set ?line" "CR \<notin> set ?line" "?line \<noteq> []"
    using assms(1) show_u32_words [of w] show_u32_words [of h] by (auto simp: size_text_def LF_def CR_def)
  then have "str_lines (?line @ [LF]) = [?line]" by (intro str_lines_single)
  with str_lines_append [of earlier "?line @ [LF]"] parse_size_line [OF assms(1)]
  show "parse_android_display_size (earlier @ LF # label @ '' size: '' @ size_text (show_u32 w) (show_u32 h) @ [LF]) = Some (w, h)"
    by (simp add: parse_android_display_size_def)
  have "split_once READY_MARKER (pre @ ''Android with user '' @ show_u32 n @ '' is ready'' @ [LF])
      = Some (pre, show_u32 n @ '' is ready'' @ [LF])"
    using split_once_marker [OF assms(2), of "''ndroid with user ''" "show_u32 n @ '' is ready'' @ [LF]"]
    by (simp add: READY_MARKER_def)
  then show "android_user_ready_event (pre @ ''Android with user '' @ show_u32 n @ '' is ready'' @ [LF]) = Some n"
    using trim_end_ready [of n] by (simp add: android_user_ready_event_def strip_suffix_def suffix_def parse_show_u32)
qed

section \<open>Concrete runs\<close>

text \<open>A store whose write of one height fails after the width was written: both are rolled back.\<close>

definition full_hd_refused :: "(string \<Rightarrow> string) property_control" where
  "full_hd_refused =
     \<lparr>pc_get = (\<lambda>k s. (s, Inr (s k))),
      pc_set = (\<lambda>k v s. if v = ''1080'' then (s, Inl (OsError OtherKind ''no'')) else (s(k := v), Inr ()))\<rparr>"

lemma show_1080: "show_u32 1080 = ''1080''" "show_u32 1920 = ''1920''"
  by code_simp+


text \<open>A session whose container never starts.\<close>

definition silent_env :: desktop_env where
  "silent_env =
     \<lparr>de_var = (\<lambda>_. None), de_utf8 = (\<lambda>_. True), de_lossy = id, de_file = (\<lambda>_. Inr []),
      de_metadata = (\<lambda>_. Inl (OsError NotFound [])), de_entries = (\<lambda>_. Inr []),
      de_answer = (\<lambda>_ _. Inr \<lparr>co_status = \<lparr>es_success = True, es_text = []\<rparr>, co_stdout = ''Session: STOPPED'', co_stderr = []\<rparr>),
      de_spawn = (\<lambda>_ _. Inr \<lparr>sp_stdout = True, sp_stderr = True, sp_status = (\<lambda>_. Inr None), sp_readiness = [], sp_displays = []\<rparr>)\<rparr>"

definition some_user :: desktop_user where
  "some_user = \<lparr>du_name = ''a'', du_home = ''/home/a'', du_runtime_dir = ''/run/user/1'', du_wayland_display = ''wayland-0'',
     du_launch = CurrentUser\<rparr>"

definition quiet_world :: desktop_world where
  "quiet_world = \<lparr>dw_programs = [], dw_spawned = 0, dw_waited = [], dw_slept = 0\<rparr>"

lemma no_child_left_behind_witness:
  "case start_presented silent_env some_user Direct quiet_world of
     (w', Inl e) \<Rightarrow> running_children w' = {} | (w', Inr s) \<Rightarrow> owns (fold (session_call_run silent_env) [DoRestart, DoStop] s)"
proof -
  have "programs_answer silent_env" by (simp add: programs_answer_def silent_env_def)
  moreover have "running_children quiet_world = {}" by (simp add: running_children_def quiet_world_def)
  ultimately show ?thesis
    using no_child_left_behind [where env = silent_env and u = some_user and p = Direct and w = quiet_world
        and calls = "[DoRestart, DoStop]"]
    by (cases "start_presented silent_env some_user Direct quiet_world") (auto split: sum.split)
qed

definition waiting_session :: desktop_session where
  "waiting_session =
     \<lparr>ds_child = 0, ds_status = (\<lambda>_. Inr None), ds_polls = 0, ds_user = some_user, ds_presentation = Direct,
      ds_active = True, ds_ready_users = [], ds_readiness = [NoMessage, Message 10, Message 0], ds_displays = [],
      ds_display = None, ds_threads = 2, ds_world = quiet_world\<rparr>"

lemma android_user_ready_iff_witness: "\<exists>s'. wait_until_android_user_ready 0 waiting_session = (s', Inr ())"
  using android_user_ready_iff [of waiting_session 0]
  by (simp add: waiting_session_def USER_READY_ATTEMPTS_def)

lemma texts_read_back_witness:
  "parse_android_display_size (''Physical size: 1x1'' @ LF # ''Override'' @ '' size: '' @ size_text (show_u32 1920) (show_u32 1080) @ [LF])
     = Some (1920, 1080)"
  using texts_read_back [of "''Override''" "[]" "''Physical size: 1x1''" 1920 1080 0] by simp

end
