(* ===== verification/Lifecycle.thy ===== *)
theory Lifecycle
  imports Desktop
begin

text \<open>
  The desktop lifecycle around a game, from \<^verbatim>\<open>wroid-cli/src/commands/launch_v2.rs\<close>: the desktop's own Waydroid
  session is stopped for the game and restored after it, and a detached watchdog process, armed by a ticket on the
  disk, restores it when the launcher dies. Programs, the clock and the random source are parameters.
\<close>

section \<open>Errors with context\<close>

text \<open>An \<open>anyhow\<close> error is its chain of messages, the outermost first; \<open>{:#}\<close> prints all of them.\<close>

type_synonym anyhow = "string list"

definition context_of :: "string \<Rightarrow> anyhow + 'a \<Rightarrow> anyhow + 'a" where
  "context_of msg r = (case r of Inl e \<Rightarrow> Inl (msg # e) | Inr a \<Rightarrow> Inr a)"

definition show_error :: "anyhow \<Rightarrow> string" where "show_error = join_with '': ''"

definition io_anyhow :: "os_error + 'a \<Rightarrow> anyhow + 'a" where
  "io_anyhow r = (case r of Inl e \<Rightarrow> Inl [err_text e] | Inr a \<Rightarrow> Inr a)"

section \<open>The world\<close>

text \<open>\<open>li_child\<close> is the child that the \<open>n\<close>-th spawn gives: what its polls say and how late they come.\<close>

record launch_child =
  lc_status :: "nat \<Rightarrow> os_error + exit_status option"
  lc_delay :: "nat \<Rightarrow> nat"

record launch_env =
  li_status :: "nat \<Rightarrow> os_error + command_output"
  li_child :: "nat \<Rightarrow> os_error + launch_child"
  li_lossy :: "string \<Rightarrow> string"
  li_random :: "os_error + os_error + string" \<comment> \<open>opening the source, reading 16 bytes of it\<close>
  li_runtime_dir :: "string option"
  li_executable :: "os_error + string"
  li_pid :: u32
  li_parent_alive :: "nat \<Rightarrow> bool" \<comment> \<open>at the watchdog's \<open>n\<close>-th look\<close>

datatype launch_event = SawStatus bool | Spawned "string list"

record launch_world =
  lw_disk :: disk
  lw_log :: "launch_event list"
  lw_statuses :: nat
  lw_spawns :: nat
  lw_slept :: nat

type_synonym 'a launch_st = "(launch_world, anyhow, 'a) st"

definition launch_disk :: "(disk \<Rightarrow> 'a disk_st) \<Rightarrow> string \<Rightarrow> launch_world \<Rightarrow> 'a launch_st" where
  "launch_disk f msg w =
     (case f (lw_disk w) of (dk, r) \<Rightarrow> (w\<lparr>lw_disk := dk\<rparr>, if msg = [] then io_anyhow r else context_of msg (io_anyhow r)))"

definition launch_spawn :: "launch_env \<Rightarrow> string list \<Rightarrow> launch_world \<Rightarrow> launch_world \<times> (os_error + launch_child)" where
  "launch_spawn env arguments w =
     (case li_child env (lw_spawns w) of
        Inl err \<Rightarrow> (w\<lparr>lw_spawns := Suc (lw_spawns w)\<rparr>, Inl err)
      | Inr child \<Rightarrow> (w\<lparr>lw_spawns := Suc (lw_spawns w), lw_log := lw_log w @ [Spawned arguments]\<rparr>, Inr child))"

definition launch_sleep :: "nat \<Rightarrow> launch_world \<Rightarrow> launch_world" where
  "launch_sleep d w = w\<lparr>lw_slept := lw_slept w + d\<rparr>"

section \<open>The status of Waydroid\<close>

definition session_is_running :: "string \<Rightarrow> bool" where
  "session_is_running status \<longleftrightarrow>
     list_ex (\<lambda>line. case split_once '':'' line of
         None \<Rightarrow> False
       | Some (name, value) \<Rightarrow> trim name = ''Session'' \<and> trim value = ''RUNNING'') (str_lines status)"

definition status_text :: "launch_env \<Rightarrow> os_error + command_output \<Rightarrow> anyhow + string" where
  "status_text env answer =
     (case answer of
        Inl err \<Rightarrow> Inl [''failed to run waydroid status'', err_text err]
      | Inr out \<Rightarrow>
          if es_success (co_status out) then Inr (trim (li_lossy env (co_stdout out)))
          else Inl [''waydroid status failed: '' @ trim (li_lossy env (co_stderr out))])"

definition status_running :: "anyhow + string \<Rightarrow> bool" where
  "status_running r \<longleftrightarrow> (case r of Inl _ \<Rightarrow> False | Inr status \<Rightarrow> session_is_running status)"

definition launch_status :: "launch_env \<Rightarrow> launch_world \<Rightarrow> string launch_st" where
  "launch_status env w =
     (let r = status_text env (li_status env (lw_statuses w))
      in (w\<lparr>lw_statuses := Suc (lw_statuses w), lw_log := lw_log w @ [SawStatus (status_running r)]\<rparr>, r))"

section \<open>Stopping and starting the desktop session\<close>

definition SESSION_STOP_TIMEOUT :: nat where "SESSION_STOP_TIMEOUT = 45000000000"
definition SESSION_STOP_POLL :: nat where "SESSION_STOP_POLL = 200000000"
definition RESTORE_POLL_INTERVAL :: nat where "RESTORE_POLL_INTERVAL = 250000000"
definition RESTORE_READY_ATTEMPTS :: nat where "RESTORE_READY_ATTEMPTS = 120"

text \<open>Polling the stop until it ends or 45 seconds have passed; the number of polls and the time it took.\<close>

function desktop_stop_loop :: "launch_child \<Rightarrow> nat \<Rightarrow> nat \<Rightarrow> nat \<times> (anyhow + unit)" where
  "desktop_stop_loop child elapsed n =
     (case lc_status child n of
        Inl err \<Rightarrow> (elapsed, Inl [''failed to stop the current Waydroid session'', err_text err])
      | Inr (Some status) \<Rightarrow>
          (elapsed, if es_success status then Inr () else Inl [''waydroid session stop exited with '' @ es_text status])
      | Inr None \<Rightarrow>
          if SESSION_STOP_TIMEOUT \<le> elapsed
          then (elapsed, Inl [''waydroid session stop did not finish within 45s; the session was killed and the privileged stop will finish cleanup''])
          else desktop_stop_loop child (elapsed + SESSION_STOP_POLL + lc_delay child (Suc n)) (Suc n))"
  by pat_completeness auto
termination
  by (relation "measure (\<lambda>(child, elapsed, n). SESSION_STOP_TIMEOUT - elapsed)") (auto simp: SESSION_STOP_POLL_def)

declare desktop_stop_loop.simps [simp del]

definition stop_desktop_waydroid_session :: "launch_env \<Rightarrow> launch_world \<Rightarrow> unit launch_st" where
  "stop_desktop_waydroid_session env w =
     (case launch_spawn env [''waydroid'', ''session'', ''stop''] w of
        (w1, Inl err) \<Rightarrow> (w1, Inl [''failed to stop the current Waydroid session'', err_text err])
      | (w1, Inr child) \<Rightarrow>
          (case desktop_stop_loop child (lc_delay child 0) 0 of (elapsed, r) \<Rightarrow> (launch_sleep elapsed w1, r)))"

fun desktop_start_polls :: "launch_env \<Rightarrow> launch_child \<Rightarrow> nat \<Rightarrow> nat \<Rightarrow> string \<Rightarrow> launch_world \<Rightarrow> unit launch_st" where
  "desktop_start_polls env child 0 n last_status w =
     (w, Inl [''desktop Waydroid did not return to RUNNING state'' @ [LF] @ last_status])"
| "desktop_start_polls env child (Suc k) n last_status w =
     (case launch_status env w of
        (w1, r) \<Rightarrow>
          if status_running r then (w1, Inr ())
          else let last = (case r of Inr status \<Rightarrow> status | Inl err \<Rightarrow> hd err)
               in case lc_status child n of
                    Inl err \<Rightarrow> (w1, Inl [''failed to monitor the restored Waydroid session'', err_text err])
                  | Inr (Some status) \<Rightarrow> (w1, Inl [''waydroid session start exited with '' @ es_text status @ [LF] @ last])
                  | Inr None \<Rightarrow> desktop_start_polls env child k (Suc n) last (launch_sleep RESTORE_POLL_INTERVAL w1))"

definition start_desktop_waydroid_session :: "launch_env \<Rightarrow> launch_world \<Rightarrow> unit launch_st" where
  "start_desktop_waydroid_session env w =
     (case launch_status env w of
        (w1, r) \<Rightarrow>
          if status_running r then (w1, Inr ())
          else case launch_spawn env [''waydroid'', ''session'', ''start''] w1 of
                 (w2, Inl err) \<Rightarrow> (w2, Inl [''failed to start the desktop Waydroid session'', err_text err])
               | (w2, Inr child) \<Rightarrow> desktop_start_polls env child RESTORE_READY_ATTEMPTS 0 [] w2)"

section \<open>The ticket\<close>

definition RESTORE_TICKET_BYTES :: nat where "RESTORE_TICKET_BYTES = 16"

definition ticket_char :: "char \<Rightarrow> bool" where
  "ticket_char c \<longleftrightarrow> (let n = of_char c :: nat in 48 \<le> n \<and> n \<le> 57 \<or> 97 \<le> n \<and> n \<le> 102)"

definition validate_ticket :: "string \<Rightarrow> anyhow + unit" where
  "validate_ticket ticket =
     (if length ticket \<noteq> RESTORE_TICKET_BYTES * 2 \<or> \<not> list_all ticket_char ticket
      then Inl [''invalid lifecycle ticket''] else Inr ())"

definition hex_digit :: "nat \<Rightarrow> char" where
  "hex_digit d = (if d < 10 then char_of (48 + d) else char_of (87 + d))"

definition hex_byte :: "char \<Rightarrow> string" where
  "hex_byte c = (let n = of_char c :: nat in [hex_digit (n div 16), hex_digit (n mod 16)])"

definition random_ticket :: "launch_env \<Rightarrow> anyhow + string" where
  "random_ticket env =
     (case li_random env of
        Inl err \<Rightarrow> Inl [''failed to open the system random source'', err_text err]
      | Inr (Inl err) \<Rightarrow> Inl [''failed to generate a lifecycle ticket'', err_text err]
      | Inr (Inr bytes) \<Rightarrow> Inr (concat (map hex_byte bytes)))"

definition restore_ticket_path :: "launch_env \<Rightarrow> u32 \<Rightarrow> string \<Rightarrow> anyhow + string" where
  "restore_ticket_path env parent_pid ticket =
     bind_result (validate_ticket ticket) (\<lambda>_.
       case li_runtime_dir env of
         Some d \<Rightarrow>
           if d = [] then Inl [''XDG_RUNTIME_DIR is unavailable for the lifecycle watchdog'']
           else Inr (path_join (path_join d ''wroid'') (''restore-'' @ show_u32 parent_pid @ ''-'' @ ticket))
       | None \<Rightarrow> Inl [''XDG_RUNTIME_DIR is unavailable for the lifecycle watchdog''])"

text \<open>Opening with \<open>create_new\<close> and with \<open>truncate\<close>, and writing to what was opened.\<close>

definition disk_create_new :: "string \<Rightarrow> disk \<Rightarrow> unit disk_st" where
  "disk_create_new p =
     disk_call (\<lambda>dk. case dk_files dk p of
       Some _ \<Rightarrow> (dk, Inl (OsError AlreadyExists ''File exists''))
     | None \<Rightarrow> (dk\<lparr>dk_files := (dk_files dk)(p \<mapsto> ([], 384))\<rparr>, Inr ()))" \<comment> \<open>0o600\<close>

definition disk_truncate :: "string \<Rightarrow> disk \<Rightarrow> unit disk_st" where
  "disk_truncate p =
     disk_call (\<lambda>dk. case file_at p dk of
       Inl err \<Rightarrow> (dk, Inl err)
     | Inr (_, mode) \<Rightarrow> (dk\<lparr>dk_files := (dk_files dk)(p \<mapsto> ([], mode))\<rparr>, Inr ()))"

definition ARMED :: string where "ARMED = ''armed'' @ [LF]"
definition RESTORING :: string where "RESTORING = ''restoring'' @ [LF]"

text \<open>Removing what was just created, whatever that answers.\<close>

definition discard_ticket :: "string \<Rightarrow> launch_world \<Rightarrow> launch_world" where
  "discard_ticket path w = fst (launch_disk (disk_remove path) [] w)"

definition watchdog_arm :: "launch_env \<Rightarrow> launch_world \<Rightarrow> string launch_st" where
  "watchdog_arm env w =
     (case bind_result (random_ticket env) (\<lambda>ticket.
             bind_result (restore_ticket_path env (li_pid env) ticket) (\<lambda>p. Inr (ticket, p))) of
        Inl err \<Rightarrow> (w, Inl err)
      | Inr (ticket, ticket_path) \<Rightarrow>
          (let directory = (case path_parent ticket_path of None \<Rightarrow> [] | Some d \<Rightarrow> path_text d)
           in andThen (launch_disk (disk_create_dirs (path_components directory))
                         (''failed to create lifecycle directory '' @ directory) w) (\<lambda>w1 _.
              andThen (launch_disk (disk_create_dirs (path_components directory))
                         (''failed to secure lifecycle directory '' @ directory) w1) (\<lambda>w2 _.
              andThen (launch_disk (disk_create_new ticket_path)
                         (''failed to create lifecycle ticket '' @ ticket_path) w2) (\<lambda>w3 _.
              case launch_disk (disk_write ticket_path ARMED) ''failed to initialize the lifecycle ticket'' w3 of
                (w4, Inl err) \<Rightarrow> (discard_ticket ticket_path w4, Inl err)
              | (w4, Inr _) \<Rightarrow>
                  (case context_of ''failed to locate the wroid executable'' (io_anyhow (li_executable env)) of
                     Inl err \<Rightarrow> (w4, Inl err)
                   | Inr executable \<Rightarrow>
                       (case launch_spawn env [executable, ''restore-desktop-session'', ''--parent-pid'',
                               show_u32 (li_pid env), ''--ticket'', ticket] w4 of
                          (w5, Inl err) \<Rightarrow>
                            (discard_ticket ticket_path w5,
                             Inl [''failed to start the Waydroid lifecycle watchdog'', err_text err])
                        | (w5, Inr _) \<Rightarrow> (w5, Inr ticket_path))))))))"

definition begin_restore :: "string \<Rightarrow> launch_world \<Rightarrow> unit launch_st" where
  "begin_restore ticket_path w =
     andThen (launch_disk (disk_truncate ticket_path) (''failed to update lifecycle ticket '' @ ticket_path) w) (\<lambda>w1 _.
       launch_disk (disk_write ticket_path RESTORING) ''failed to persist the lifecycle restore phase'' w1)"

definition mark_watchdog_restoring :: "string option \<Rightarrow> launch_world \<Rightarrow> launch_world" where
  "mark_watchdog_restoring watchdog w =
     (case watchdog of None \<Rightarrow> w | Some ticket_path \<Rightarrow> fst (begin_restore ticket_path w))"

definition watchdog_disarm :: "string \<Rightarrow> launch_world \<Rightarrow> unit launch_st" where
  "watchdog_disarm ticket_path =
     launch_disk (remove_file_if_exists ticket_path) (''failed to disarm lifecycle ticket '' @ ticket_path)"

definition remove_restore_ticket :: "string \<Rightarrow> launch_world \<Rightarrow> unit launch_st" where
  "remove_restore_ticket ticket_path =
     launch_disk (remove_file_if_exists ticket_path) (''failed to remove lifecycle ticket '' @ ticket_path)"

section \<open>A game with the desktop restored after it\<close>

text \<open>The trait \<open>DesktopSessionControl\<close>.\<close>

record desktop_session_control =
  dc_is_running :: "launch_world \<Rightarrow> bool launch_st"
  dc_stop :: "launch_world \<Rightarrow> unit launch_st"
  dc_start :: "launch_world \<Rightarrow> unit launch_st"
  dc_arm_watchdog :: "launch_world \<Rightarrow> string option launch_st"

definition system_desktop :: "launch_env \<Rightarrow> desktop_session_control" where
  "system_desktop env =
     \<lparr>dc_is_running = (\<lambda>w. case launch_status env w of
          (w', r) \<Rightarrow> (w', map_sum id session_is_running (context_of ''failed to inspect the Waydroid session'' r))),
      dc_stop = stop_desktop_waydroid_session env,
      dc_start = start_desktop_waydroid_session env,
      dc_arm_watchdog = (\<lambda>w. andThen (watchdog_arm env w) (\<lambda>w' t. (w', Inr (Some t))))\<rparr>"

definition combine_lifecycle_errors :: "string \<Rightarrow> anyhow \<Rightarrow> anyhow option \<Rightarrow> anyhow" where
  "combine_lifecycle_errors msg primary secondary =
     (case secondary of
        Some s \<Rightarrow> [msg @ '': '' @ show_error primary @ [LF] @ ''Restore also failed: '' @ show_error s]
      | None \<Rightarrow> msg # primary)"

definition disarm_if_any :: "string option \<Rightarrow> launch_world \<Rightarrow> unit launch_st" where
  "disarm_if_any watchdog w = (case watchdog of None \<Rightarrow> (w, Inr ()) | Some t \<Rightarrow> watchdog_disarm t w)"

definition stop_failed ::
  "desktop_session_control \<Rightarrow> bool \<Rightarrow> string option \<Rightarrow> anyhow \<Rightarrow> launch_world \<Rightarrow> 'a launch_st" where
  "stop_failed c restore watchdog stop_error w =
     (let w1 = (if restore then mark_watchdog_restoring watchdog w else w)
      in case (if restore then dc_start c w1 else (w1, Inr ())) of
           (w2, Inl restore_error) \<Rightarrow>
             (w2, Inl (combine_lifecycle_errors ''failed to stop desktop Waydroid'' stop_error (Some restore_error)))
         | (w2, Inr _) \<Rightarrow>
             (let lifecycle_error = combine_lifecycle_errors ''failed to stop desktop Waydroid'' stop_error None
              in case disarm_if_any watchdog w2 of
                   (w3, Inl disarm_error) \<Rightarrow>
                     (w3, Inl [show_error lifecycle_error @ [LF]
                            @ ''Additionally, the lifecycle watchdog could not be disarmed: '' @ show_error disarm_error])
                 | (w3, Inr _) \<Rightarrow> (w3, Inl lifecycle_error)))"

definition game_outcome :: "anyhow + 'a \<Rightarrow> anyhow + unit \<Rightarrow> anyhow + 'a" where
  "game_outcome run_result restore_result =
     (case (run_result, restore_result) of
        (Inr v, Inr _) \<Rightarrow> Inr v
      | (Inl game_error, Inr _) \<Rightarrow> Inl game_error
      | (Inr _, Inl restore_error) \<Rightarrow>
          Inl (''game session ended, but desktop Waydroid could not be restored'' # restore_error)
      | (Inl game_error, Inl restore_error) \<Rightarrow>
          Inl [show_error game_error @ [LF] @ ''Additionally, desktop Waydroid restore failed: '' @ show_error restore_error])"

definition disarm_outcome :: "anyhow + 'a \<Rightarrow> anyhow + unit \<Rightarrow> anyhow + 'a" where
  "disarm_outcome outcome disarm_result =
     (case (outcome, disarm_result) of
        (r, Inr _) \<Rightarrow> r
      | (Inr _, Inl disarm_error) \<Rightarrow>
          Inl (''desktop Waydroid was restored, but its recovery ticket remains armed'' # disarm_error)
      | (Inl e, Inl disarm_error) \<Rightarrow>
          Inl [show_error e @ [LF] @ ''Additionally, the lifecycle watchdog could not be disarmed: '' @ show_error disarm_error])"

definition after_game ::
  "desktop_session_control \<Rightarrow> bool \<Rightarrow> string option \<Rightarrow> anyhow + 'a \<Rightarrow> launch_world \<Rightarrow> 'a launch_st" where
  "after_game c restore watchdog run_result w =
     (case (if restore then dc_start c (mark_watchdog_restoring watchdog w) else (w, Inr ())) of
        (w1, restore_result) \<Rightarrow>
      case (case restore_result of Inr _ \<Rightarrow> disarm_if_any watchdog w1 | Inl _ \<Rightarrow> (w1, Inr ())) of
        (w2, disarm_result) \<Rightarrow> (w2, disarm_outcome (game_outcome run_result restore_result) disarm_result))"

definition run_with_desktop_restoration ::
  "desktop_session_control \<Rightarrow> (launch_world \<Rightarrow> 'a launch_st) \<Rightarrow> launch_world \<Rightarrow> 'a launch_st" where
  "run_with_desktop_restoration c run w =
     andThen (dc_is_running c w) (\<lambda>w1 restore.
     andThen (if restore then dc_arm_watchdog c w1 else (w1, Inr None)) (\<lambda>w2 watchdog.
       case dc_stop c w2 of
         (w3, Inl stop_error) \<Rightarrow> stop_failed c restore watchdog stop_error w3
       | (w3, Inr _) \<Rightarrow> (case run w3 of (w4, run_result) \<Rightarrow> after_game c restore watchdog run_result w4)))"

section \<open>The watchdog process\<close>

datatype watchdog_action = WatchdogWait | WatchdogComplete | WatchdogRestore

definition watchdog_decision :: "string \<Rightarrow> bool \<Rightarrow> watchdog_action" where
  "watchdog_decision ticket_phase session_running =
     (if \<not> session_running then WatchdogRestore
      else if ticket_phase = ''restoring'' then WatchdogComplete else WatchdogWait)"

definition ticket_exists :: "string \<Rightarrow> launch_world \<Rightarrow> bool" where
  "ticket_exists path w \<longleftrightarrow> dk_files (lw_disk w) path \<noteq> None"

text \<open>The loops run until the ticket is gone; the fuel is the number of their turns, \<open>None\<close> means still running.\<close>

fun watchdog_loop :: "launch_env \<Rightarrow> nat \<Rightarrow> string \<Rightarrow> launch_world \<Rightarrow> (unit launch_st) option" where
  "watchdog_loop env 0 ticket_path w = None"
| "watchdog_loop env (Suc k) ticket_path w =
     (case launch_disk (disk_read ticket_path) [] w of
        (w1, contents) \<Rightarrow>
      case launch_status env w1 of
        (w2, status) \<Rightarrow>
          let action = (case status of
                Inl _ \<Rightarrow> WatchdogWait
              | Inr s \<Rightarrow> watchdog_decision (trim (case contents of Inr p \<Rightarrow> p | Inl _ \<Rightarrow> ''armed'')) (session_is_running s));
              again = (\<lambda>w. if \<not> ticket_exists ticket_path w then Some (w, Inr ())
                           else watchdog_loop env k ticket_path (launch_sleep 1000000000 w))
          in case action of
               WatchdogWait \<Rightarrow> again w2
             | WatchdogComplete \<Rightarrow> Some (remove_restore_ticket ticket_path w2)
             | WatchdogRestore \<Rightarrow>
                 (case start_desktop_waydroid_session env w2 of
                    (w3, Inr _) \<Rightarrow> Some (remove_restore_ticket ticket_path w3)
                  | (w3, Inl _) \<Rightarrow> again w3))"

fun watchdog_wait :: "launch_env \<Rightarrow> nat \<Rightarrow> nat \<Rightarrow> string \<Rightarrow> launch_world \<Rightarrow> launch_world option" where
  "watchdog_wait env 0 n ticket_path w = None"
| "watchdog_wait env (Suc k) n ticket_path w =
     (if ticket_exists ticket_path w \<and> li_parent_alive env n
      then watchdog_wait env k (Suc n) ticket_path (launch_sleep RESTORE_POLL_INTERVAL w)
      else Some w)"

definition restore_desktop_session ::
  "launch_env \<Rightarrow> nat \<Rightarrow> u32 \<Rightarrow> string \<Rightarrow> launch_world \<Rightarrow> (unit launch_st) option" where
  "restore_desktop_session env fuel parent_pid ticket w =
     (case restore_ticket_path env parent_pid ticket of
        Inl err \<Rightarrow> Some (w, Inl err)
      | Inr ticket_path \<Rightarrow>
          Option.bind (watchdog_wait env fuel 0 ticket_path w) (\<lambda>w1.
            if \<not> ticket_exists ticket_path w1 then Some (w1, Inr ())
            else watchdog_loop env fuel ticket_path w1))"

end
