(* ===== verification/LifecycleSpec.thy ===== *)
theory LifecycleSpec
  imports Lifecycle BridgeSafe
begin

text \<open>
  What the launcher owes the desktop: when its Waydroid session ran before the game, it runs again after it, or the
  ticket on the disk still tells the watchdog to bring it back; and the watchdog ends only when it has done so. The
  launcher's part is proved for any \<open>DesktopSessionControl\<close> with the laws of a locale.
\<close>

section \<open>What the programs leave alone\<close>

definition desktop_back :: "launch_world \<Rightarrow> bool" where
  "desktop_back w \<longleftrightarrow> lw_log w \<noteq> [] \<and> last (lw_log w) = SawStatus True"

lemma launch_status_frame [simp]:
  "lw_disk (fst (launch_status env w)) = lw_disk w"
  "desktop_back (fst (launch_status env w)) \<longleftrightarrow> status_running (snd (launch_status env w))"
  "snd (launch_status env w) = status_text env (li_status env (lw_statuses w))"
  "lw_statuses (fst (launch_status env w)) = Suc (lw_statuses w)"
  by (auto simp: launch_status_def Let_def desktop_back_def)

lemma launch_spawn_disk [simp]: "lw_disk (fst (launch_spawn env arguments w)) = lw_disk w"
  by (simp add: launch_spawn_def split: sum.split)

lemma launch_sleep_frame [simp]:
  "lw_disk (launch_sleep d w) = lw_disk w" "desktop_back (launch_sleep d w) = desktop_back w"
  "lw_statuses (launch_sleep d w) = lw_statuses w"
  by (simp_all add: launch_sleep_def desktop_back_def)

lemma stop_desktop_disk [simp]: "lw_disk (fst (stop_desktop_waydroid_session env w)) = lw_disk w"
proof -
  obtain w1 r where 1: "launch_spawn env [''waydroid'', ''session'', ''stop''] w = (w1, r)" by fastforce
  with launch_spawn_disk [of env _ w] have "lw_disk w1 = lw_disk w" by (metis fst_conv)
  with 1 show ?thesis by (cases r) (auto simp: stop_desktop_waydroid_session_def split: prod.split)
qed

lemma desktop_start_polls_frame:
  "desktop_start_polls env child k n l w = (w', r) \<Longrightarrow> lw_disk w' = lw_disk w \<and> (r = Inr () \<longrightarrow> desktop_back w')"
proof (induction k arbitrary: n l w)
  case (Suc k)
  obtain w1 s where 1: "launch_status env w = (w1, s)" by fastforce
  with launch_status_frame(1,2) [of env w] have f: "lw_disk w1 = lw_disk w" "desktop_back w1 \<longleftrightarrow> status_running s" by simp_all
  show ?case
  proof (cases "status_running s")
    case True
    with Suc.prems 1 f show ?thesis by auto
  next
    case False
    with Suc.prems 1 f show ?thesis
      by (cases "lc_status child n") (auto simp: Let_def split: option.splits dest!: Suc.IH)
  qed
qed auto

lemma start_desktop_frame:
  assumes "start_desktop_waydroid_session env w = (w', r)"
  shows "lw_disk w' = lw_disk w" "r = Inr () \<Longrightarrow> desktop_back w'"
proof -
  obtain w1 s where 1: "launch_status env w = (w1, s)" by fastforce
  with launch_status_frame(1,2) [of env w] have f: "lw_disk w1 = lw_disk w" "desktop_back w1 \<longleftrightarrow> status_running s" by simp_all
  obtain w2 c where 2: "launch_spawn env [''waydroid'', ''session'', ''start''] w1 = (w2, c)" by fastforce
  with launch_spawn_disk [of env _ w1] have f2: "lw_disk w2 = lw_disk w1" by (metis fst_conv)
  have "lw_disk w' = lw_disk w \<and> (r = Inr () \<longrightarrow> desktop_back w')"
    using assms 1 2 f f2
    by (cases c) (auto simp: start_desktop_waydroid_session_def split: if_splits dest!: desktop_start_polls_frame)
  then show "lw_disk w' = lw_disk w" "r = Inr () \<Longrightarrow> desktop_back w'" by auto
qed

section \<open>The ticket\<close>

lemma disk_call_ticket:
  assumes "\<And>d. dk_files d p \<noteq> None \<Longrightarrow> dk_files (fst (f d)) p \<noteq> None" "dk_files d p \<noteq> None"
  shows "dk_files (fst (disk_call f d)) p \<noteq> None"
  using assms by (auto simp: disk_call_def split: list.split option.split)

lemma launch_disk_fst: "fst (launch_disk f msg w) = w\<lparr>lw_disk := fst (f (lw_disk w))\<rparr>"
  by (simp add: launch_disk_def split: prod.split)

lemma begin_restore_ticket:
  assumes "ticket_exists p w"
  shows "ticket_exists p (fst (begin_restore p w))" "desktop_back (fst (begin_restore p w)) = desktop_back w"
proof -
  have t: "dk_files (fst (disk_truncate p d)) p \<noteq> None" if "dk_files d p \<noteq> None" for d
    using that unfolding disk_truncate_def by (intro disk_call_ticket) (auto simp: file_at_def split: option.splits)
  have w: "dk_files (fst (disk_write p c d)) p \<noteq> None" if "dk_files d p \<noteq> None" for d c
    using that unfolding disk_write_def by (intro disk_call_ticket) auto
  obtain w1 r where 1: "launch_disk (disk_truncate p) (''failed to update lifecycle ticket '' @ p) w = (w1, r)" by fastforce
  then have w1: "w1 = w\<lparr>lw_disk := fst (disk_truncate p (lw_disk w))\<rparr>" by (metis fst_conv launch_disk_fst)
  with t assms have "ticket_exists p w1" by (simp add: ticket_exists_def)
  with w 1 w1 show "ticket_exists p (fst (begin_restore p w))" "desktop_back (fst (begin_restore p w)) = desktop_back w"
    by (cases r; simp add: begin_restore_def ticket_exists_def launch_disk_fst desktop_back_def)+
qed

lemma honest_disk_call: "(\<And>d. dk_faults (fst (f d)) = dk_faults d) \<Longrightarrow> honest dk \<Longrightarrow> honest (fst (disk_call f dk))"
  by (auto simp: disk_call_def honest_def split: list.split option.split)

lemma begin_restore_honest: "honest (lw_disk w) \<Longrightarrow> honest (lw_disk (fst (begin_restore p w)))"
proof -
  assume h: "honest (lw_disk w)"
  have t: "honest (fst (disk_truncate p d))" if "honest d" for d
    using that unfolding disk_truncate_def by (intro honest_disk_call) (auto split: sum.split)
  have w: "honest (fst (disk_write p c d))" if "honest d" for d c
    using that unfolding disk_write_def by (intro honest_disk_call) auto
  obtain w1 r where 1: "launch_disk (disk_truncate p) (''failed to update lifecycle ticket '' @ p) w = (w1, r)" by fastforce
  then have "w1 = w\<lparr>lw_disk := fst (disk_truncate p (lw_disk w))\<rparr>" by (metis fst_conv launch_disk_fst)
  with t w 1 h show ?thesis by (cases r; simp add: begin_restore_def launch_disk_fst)
qed

lemma remove_ticket:
  assumes "launch_disk (remove_file_if_exists p) msg w = (w', r)"
  shows "desktop_back w' = desktop_back w" "r = Inr () \<Longrightarrow> honest (lw_disk w) \<Longrightarrow> \<not> ticket_exists p w'"
proof -
  obtain dk s where 1: "remove_file_if_exists p (lw_disk w) = (dk, s)" by fastforce
  with assms have 2: "w' = w\<lparr>lw_disk := dk\<rparr>" "r = Inr () \<longrightarrow> s = Inr ()"
    by (auto simp: launch_disk_def io_anyhow_def context_of_def split: if_splits sum.splits)
  then show "desktop_back w' = desktop_back w" by (simp add: desktop_back_def)
  show "r = Inr () \<Longrightarrow> honest (lw_disk w) \<Longrightarrow> \<not> ticket_exists p w'"
    using 2 remove_file_done [of p "lw_disk w" dk] 1 by (auto simp: ticket_exists_def)
qed

section \<open>The launcher, for any desktop\<close>

locale restorable_desktop =
  fixes c :: desktop_session_control and ticket_of :: "string \<Rightarrow> bool"
  assumes running_disk: "dc_is_running c w = (w', r1) \<Longrightarrow> lw_disk w' = lw_disk w"
    and stop_disk: "dc_stop c w = (w', r) \<Longrightarrow> lw_disk w' = lw_disk w"
    and start_disk: "dc_start c w = (w', r) \<Longrightarrow> lw_disk w' = lw_disk w"
    and start_back: "dc_start c w = (w', Inr ()) \<Longrightarrow> desktop_back w'"
    and arm_honest: "dc_arm_watchdog c w = (w', r2) \<Longrightarrow> honest (lw_disk w) \<Longrightarrow> honest (lw_disk w')"
    and arm_ticket: "dc_arm_watchdog c w = (w', Inr x) \<Longrightarrow> \<exists>t. x = Some t \<and> ticket_of t \<and> ticket_exists t w'"
begin

text \<open>Marking the ticket and starting the desktop: the ticket is still there, and success means the desktop is back.\<close>

lemma mark_and_start:
  assumes "ticket_exists t w" "honest (lw_disk w)" and run: "dc_start c (mark_watchdog_restoring (Some t) w) = (w', r)"
  shows "ticket_exists t w'" "honest (lw_disk w')" "r = Inr () \<Longrightarrow> desktop_back w'"
  using start_disk [OF run] begin_restore_ticket(1) [OF assms(1)] begin_restore_honest [OF assms(2), of t] start_back run
  by (auto simp: mark_watchdog_restoring_def ticket_exists_def)

lemma disarm_facts:
  assumes "disarm_if_any (Some t) w = (w', r)" "honest (lw_disk w)"
  shows "desktop_back w' = desktop_back w" "r = Inr () \<Longrightarrow> \<not> ticket_exists t w'"
  using assms remove_ticket [of t "''failed to disarm lifecycle ticket '' @ t" w w' r]
  by (simp_all add: disarm_if_any_def watchdog_disarm_def)

lemma after_game_promise:
  assumes t: "ticket_exists t w" "honest (lw_disk w)" and run: "after_game c True (Some t) rr w = (w', r)"
  shows "desktop_back w' \<or> ticket_exists t w'" "r = Inr v \<Longrightarrow> desktop_back w' \<and> \<not> ticket_exists t w'"
proof -
  obtain w1 sr where 1: "dc_start c (mark_watchdog_restoring (Some t) w) = (w1, sr)" by fastforce
  note f = mark_and_start [OF t 1]
  obtain w2 dr where 2: "disarm_if_any (Some t) w1 = (w2, dr)" by fastforce
  note d = disarm_facts [OF 2 f(2)]
  have "(desktop_back w' \<or> ticket_exists t w') \<and> (r = Inr v \<longrightarrow> desktop_back w' \<and> \<not> ticket_exists t w')"
  proof (cases sr)
    case (Inl e)
    with run 1 f show ?thesis
      by (cases rr) (auto simp: after_game_def game_outcome_def disarm_outcome_def)
  next
    case (Inr u)
    with run 1 2 f d show ?thesis
      by (cases rr; cases dr) (auto simp: after_game_def game_outcome_def disarm_outcome_def)
  qed
  then show "desktop_back w' \<or> ticket_exists t w'" "r = Inr v \<Longrightarrow> desktop_back w' \<and> \<not> ticket_exists t w'" by auto
qed

lemma stop_failed_promise:
  assumes t: "ticket_exists t w" "honest (lw_disk w)" and run: "stop_failed c True (Some t) e w = (w', r)"
  shows "desktop_back w' \<or> ticket_exists t w'" "r \<noteq> Inr v"
proof -
  obtain w1 sr where 1: "dc_start c (mark_watchdog_restoring (Some t) w) = (w1, sr)" by fastforce
  note f = mark_and_start [OF t 1]
  obtain w2 dr where 2: "disarm_if_any (Some t) w1 = (w2, dr)" by fastforce
  note d = disarm_facts [OF 2 f(2)]
  have "(desktop_back w' \<or> ticket_exists t w') \<and> r \<noteq> Inr v"
  proof (cases sr)
    case (Inl e)
    with run 1 f show ?thesis by (auto simp: stop_failed_def)
  next
    case (Inr u)
    with run 1 2 f d show ?thesis by (cases dr) (auto simp: stop_failed_def Let_def)
  qed
  then show "desktop_back w' \<or> ticket_exists t w'" "r \<noteq> Inr v" by auto
qed

lemma restoration_promise:
  assumes run: "run_with_desktop_restoration c game w = (w', r)" and game: "\<And>w. lw_disk (fst (game w)) = lw_disk w"
    and honest: "honest (lw_disk w)" and running: "dc_is_running c w = (w1, Inr True)"
    and arm: "dc_arm_watchdog c w1 = (w2, Inr x)"
  shows "\<exists>t. ticket_of t \<and> (desktop_back w' \<or> ticket_exists t w')
    \<and> (\<forall>v. r = Inr v \<longrightarrow> desktop_back w' \<and> \<not> ticket_exists t w')"
proof -
  from arm_ticket [OF arm] obtain t where t: "x = Some t" "ticket_of t" "ticket_exists t w2" by blast
  have h: "honest (lw_disk w2)" using arm_honest [OF arm] honest running_disk [OF running] by simp
  obtain w3 sr where 3: "dc_stop c w2 = (w3, sr)" by fastforce
  have t3: "ticket_exists t w3" "honest (lw_disk w3)" using t(3) h stop_disk [OF 3] by (simp_all add: ticket_exists_def)
  have "(desktop_back w' \<or> ticket_exists t w') \<and> (\<forall>v. r = Inr v \<longrightarrow> desktop_back w' \<and> \<not> ticket_exists t w')"
  proof (cases sr)
    case (Inl e)
    with run running arm t(1) 3 have "stop_failed c True (Some t) e w3 = (w', r)"
      by (simp add: run_with_desktop_restoration_def)
    from stop_failed_promise [OF t3 this] show ?thesis by blast
  next
    case (Inr u)
    obtain w4 rr where 4: "game w3 = (w4, rr)" by fastforce
    with game [of w3] t3 have t4: "ticket_exists t w4" "honest (lw_disk w4)" by (simp_all add: ticket_exists_def)
    from run running arm t(1) 3 4 Inr have "after_game c True (Some t) rr w4 = (w', r)"
      by (simp add: run_with_desktop_restoration_def)
    from after_game_promise [OF t4 this] show ?thesis by blast
  qed
  with t(2) show ?thesis by blast
qed

end

section \<open>The launcher on the system's desktop\<close>

definition ticket_path_of :: "launch_env \<Rightarrow> string \<Rightarrow> bool" where
  "ticket_path_of env t \<longleftrightarrow> (\<exists>ticket. random_ticket env = Inr ticket \<and> restore_ticket_path env (li_pid env) ticket = Inr t)"

lemma launch_disk_obtain:
  assumes "launch_disk f msg w = (w', r)"
  shows "w' = w\<lparr>lw_disk := fst (f (lw_disk w))\<rparr>" "r = Inr a \<longleftrightarrow> snd (f (lw_disk w)) = Inr a"
  using assms by (auto simp: launch_disk_def io_anyhow_def context_of_def split: prod.splits if_splits sum.splits)

lemma ticket_calls:
  "honest d \<Longrightarrow> honest (fst (disk_create_dirs x d))"
  "honest d \<Longrightarrow> honest (fst (disk_create_new p d))"
  "honest d \<Longrightarrow> honest (fst (disk_write p contents d))"
  "honest d \<Longrightarrow> honest (fst (disk_remove p d))"
  unfolding disk_create_dirs_def disk_create_new_def disk_write_def disk_remove_def
  by (intro honest_disk_call; auto split: option.split sum.split)+

lemma disk_write_exists: "disk_write p contents d = (d', Inr ()) \<Longrightarrow> dk_files d' p \<noteq> None"
  by (auto simp: disk_write_def disk_call_def split: list.splits option.splits)

lemma launch_spawn_frame: "launch_spawn env arguments w = (w', r) \<Longrightarrow> lw_disk w' = lw_disk w"
  using launch_spawn_disk [of env arguments w] by (metis fst_conv)

lemma watchdog_arm_facts:
  assumes "watchdog_arm env w = (w', r)"
  shows "honest (lw_disk w) \<Longrightarrow> honest (lw_disk w')" "r = Inr t \<Longrightarrow> ticket_path_of env t \<and> ticket_exists t w'"
proof -
  have "(honest (lw_disk w) \<longrightarrow> honest (lw_disk w')) \<and> (r = Inr t \<longrightarrow> ticket_path_of env t \<and> ticket_exists t w')"
  proof (cases "bind_result (random_ticket env) (\<lambda>ticket.
             bind_result (restore_ticket_path env (li_pid env) ticket) (\<lambda>p. Inr (ticket, p)))")
    case (Inl e)
    with assms show ?thesis by (auto simp: watchdog_arm_def)
  next
    case (Inr tp)
    then obtain ticket p where tp: "tp = (ticket, p)" "random_ticket env = Inr ticket" "restore_ticket_path env (li_pid env) ticket = Inr p"
      by (auto simp: bind_result_def split: sum.splits)
    let ?dir = "case path_parent p of None \<Rightarrow> [] | Some d \<Rightarrow> path_text d"
    obtain w1 r1 where 1: "launch_disk (disk_create_dirs (path_components ?dir)) (''failed to create lifecycle directory '' @ ?dir) w = (w1, r1)" by fastforce
    obtain w2 r2 where 2: "launch_disk (disk_create_dirs (path_components ?dir)) (''failed to secure lifecycle directory '' @ ?dir) w1 = (w2, r2)" by fastforce
    obtain w3 r3 where 3: "launch_disk (disk_create_new p) (''failed to create lifecycle ticket '' @ p) w2 = (w3, r3)" by fastforce
    obtain w4 r4 where 4: "launch_disk (disk_write p ARMED) ''failed to initialize the lifecycle ticket'' w3 = (w4, r4)" by fastforce
    note d1 = launch_disk_obtain(1) [OF 1] and d2 = launch_disk_obtain(1) [OF 2] and d3 = launch_disk_obtain(1) [OF 3]
      and d4 = launch_disk_obtain [OF 4]
    have h: "honest (lw_disk w1)" "honest (lw_disk w2)" "honest (lw_disk w3)" "honest (lw_disk w4)" if "honest (lw_disk w)"
      using that d1 d2 d3 d4(1) ticket_calls by simp_all
    have ex: "ticket_exists p w4" if "r4 = Inr ()"
      using that d4 disk_write_exists by (metis prod.collapse ticket_exists_def launch_world.select_convs(1) launch_world.surjective launch_world.update_convs(1))
    have discard: "honest (lw_disk (discard_ticket p v))" if "honest (lw_disk v)" for v
      using that ticket_calls(4) by (simp add: discard_ticket_def launch_disk_fst)
    note run = assms [unfolded watchdog_arm_def Inr tp(1) sum.case prod.case Let_def 1 2 3 4]
    show ?thesis
    proof (cases "r1 = Inr () \<and> r2 = Inr () \<and> r3 = Inr () \<and> r4 = Inr ()")
      case False
      then consider e where "r1 = Inl e" | e where "r1 = Inr ()" "r2 = Inl e"
        | e where "r1 = Inr ()" "r2 = Inr ()" "r3 = Inl e"
        | e where "r1 = Inr ()" "r2 = Inr ()" "r3 = Inr ()" "r4 = Inl e"
        by (metis old.sum.exhaust old.unit.exhaust)
      then show ?thesis
      proof cases
        case (1 e)
        with run h show ?thesis by (simp only: andThen.simps) auto
      next
        case (2 e)
        with run h show ?thesis by (simp only: andThen.simps \<open>launch_disk _ _ w1 = _\<close>) auto
      next
        case (3 e)
        with run h show ?thesis
          by (simp only: andThen.simps \<open>launch_disk _ _ w1 = _\<close> \<open>launch_disk _ _ w2 = _\<close>) auto
      next
        case (4 e)
        with run have "(discard_ticket p w4, Inl e) = (w', r)"
          by (simp only: andThen.simps \<open>launch_disk _ _ w1 = _\<close> \<open>launch_disk _ _ w2 = _\<close> \<open>launch_disk _ _ w3 = _\<close>
              prod.case sum.case)
        with h discard show ?thesis by auto
      qed
    next
      case True
      have run4: "(case context_of ''failed to locate the wroid executable'' (io_anyhow (li_executable env)) of
           Inl err \<Rightarrow> (w4, Inl err)
         | Inr executable \<Rightarrow>
             (case launch_spawn env [executable, ''restore-desktop-session'', ''--parent-pid'',
                     show_u32 (li_pid env), ''--ticket'', ticket] w4 of
                (w5, Inl err) \<Rightarrow> (discard_ticket p w5, Inl [''failed to start the Waydroid lifecycle watchdog'', err_text err])
              | (w5, Inr _) \<Rightarrow> (w5, Inr p))) = (w', r)"
        using run True by (simp only: andThen.simps 2 3 4 prod.case sum.case)
      show ?thesis
      proof (cases "li_executable env")
        case (Inl e)
        with run4 h show ?thesis by (auto simp: context_of_def io_anyhow_def)
      next
        case (Inr x)
        obtain w5 r5 where 5: "launch_spawn env [x, ''restore-desktop-session'', ''--parent-pid'',
            show_u32 (li_pid env), ''--ticket'', ticket] w4 = (w5, r5)" by fastforce
        with launch_spawn_frame have w5: "lw_disk w5 = lw_disk w4" by blast
        from run4 have end5: "(case r5 of Inl err \<Rightarrow> (discard_ticket p w5, Inl [''failed to start the Waydroid lifecycle watchdog'', err_text err])
            | Inr _ \<Rightarrow> (w5, Inr p)) = (w', r)"
          by (simp only: Inr context_of_def io_anyhow_def sum.case 5 prod.case)
        have "r5 = Inl err \<Longrightarrow> w' = discard_ticket p w5 \<and> r \<noteq> Inr t" "r5 = Inr v \<Longrightarrow> w' = w5 \<and> r = Inr p" for err v
          using end5 by auto
        moreover have "ticket_path_of env p" using tp(2,3) by (auto simp: ticket_path_of_def)
        moreover have "ticket_exists p w5" using ex True w5 by (simp add: ticket_exists_def)
        moreover have "honest (lw_disk w) \<Longrightarrow> honest (lw_disk w5)" using h(4) w5 by simp
        ultimately show ?thesis using discard [of w5] by (cases r5) (blast | force)+
      qed
    qed
  qed
  then show "honest (lw_disk w) \<Longrightarrow> honest (lw_disk w')" "r = Inr t \<Longrightarrow> ticket_path_of env t \<and> ticket_exists t w'" by auto
qed

interpretation system_desktop: restorable_desktop "system_desktop env" "ticket_path_of env" for env
proof
  fix w w' :: launch_world and r r1 r2 x
  show "dc_is_running (system_desktop env) w = (w', r1) \<Longrightarrow> lw_disk w' = lw_disk w"
    using launch_status_frame(1) [of env w] by (cases "launch_status env w") (simp add: system_desktop_def)
  show "dc_stop (system_desktop env) w = (w', r) \<Longrightarrow> lw_disk w' = lw_disk w"
    using stop_desktop_disk [of env w] by (auto simp: system_desktop_def)
  show "dc_start (system_desktop env) w = (w', r) \<Longrightarrow> lw_disk w' = lw_disk w"
    by (simp add: system_desktop_def start_desktop_frame)
  show "dc_start (system_desktop env) w = (w', Inr ()) \<Longrightarrow> desktop_back w'"
    by (simp add: system_desktop_def start_desktop_frame)
  obtain v s where arm: "watchdog_arm env w = (v, s)" by fastforce
  have run: "dc_arm_watchdog (system_desktop env) w = (v, map_sum id Some s)"
    by (cases s) (simp_all add: system_desktop_def arm)
  show "dc_arm_watchdog (system_desktop env) w = (w', r2) \<Longrightarrow> honest (lw_disk w) \<Longrightarrow> honest (lw_disk w')"
    using watchdog_arm_facts(1) [OF arm] run by simp
  assume "dc_arm_watchdog (system_desktop env) w = (w', Inr x)"
  with run obtain t where "s = Inr t" "x = Some t" "w' = v" by (cases s) auto
  with watchdog_arm_facts(2) [OF arm] show "\<exists>t. x = Some t \<and> ticket_path_of env t \<and> ticket_exists t w'" by blast
qed

text \<open>C22. When the desktop's session ran before a game, the launcher either refuses the game before touching the session,
  because it cannot arm its watchdog, or it ends with the session running again - the last status it saw says so - or
  with the watchdog's ticket still on the disk; and when it reports success the session runs and the ticket is gone.
  This holds whatever the game, the programs and the disk do, as long as the game leaves the disk alone and no failing
  call says that a file is missing which is there.\<close>

theorem desktop_restored_or_ticket:
  assumes run: "run_with_desktop_restoration (system_desktop env) game w = (w', r)"
    and game: "\<And>w. lw_disk (fst (game w)) = lw_disk w" and honest: "honest (lw_disk w)"
    and running: "status_running (status_text env (li_status env (lw_statuses w)))"
  shows "(\<exists>e. r = Inl e \<and> watchdog_arm env (fst (launch_status env w)) = (w', Inl e))
    \<or> (\<exists>t. ticket_path_of env t \<and> (desktop_back w' \<or> ticket_exists t w')
        \<and> (\<forall>v. r = Inr v \<longrightarrow> desktop_back w' \<and> \<not> ticket_exists t w'))"
proof -
  obtain w1 where w1: "launch_status env w = (w1, status_text env (li_status env (lw_statuses w)))"
    by (metis launch_status_frame(3) prod.collapse)
  with running have started: "dc_is_running (system_desktop env) w = (w1, Inr True)"
    by (cases "status_text env (li_status env (lw_statuses w))")
      (simp_all add: system_desktop_def status_running_def context_of_def)
  obtain w2 a where arm: "watchdog_arm env w1 = (w2, a)" by fastforce
  show ?thesis
  proof (cases a)
    case (Inl e)
    then have "dc_arm_watchdog (system_desktop env) w1 = (w2, Inl e)" using arm by (simp add: system_desktop_def)
    with run started have "w' = w2 \<and> r = Inl e" by (simp add: run_with_desktop_restoration_def)
    with arm w1 Inl show ?thesis by simp
  next
    case (Inr t)
    then have "dc_arm_watchdog (system_desktop env) w1 = (w2, Inr (Some t))" using arm by (simp add: system_desktop_def)
    from system_desktop.restoration_promise [OF run game honest started this] show ?thesis by blast
  qed
qed

section \<open>The watchdog\<close>

lemma read_ticket:
  assumes "launch_disk (disk_read p) [] w = (w', r)"
  shows "dk_files (lw_disk w') = dk_files (lw_disk w)" "honest (lw_disk w) \<Longrightarrow> honest (lw_disk w')"
    "lw_statuses w' = lw_statuses w"
    "dk_faults (lw_disk w) = [] \<Longrightarrow> dk_files (lw_disk w) p = Some (contents, m) \<Longrightarrow> r = Inr contents \<and> dk_faults (lw_disk w') = []"
proof -
  note w' = launch_disk_obtain(1) [OF assms]
  have "honest (fst (disk_read p d))" if "honest d" for d
    using that unfolding disk_read_def by (intro honest_disk_call) auto
  then show "honest (lw_disk w) \<Longrightarrow> honest (lw_disk w')" using w' by simp
  show "dk_files (lw_disk w') = dk_files (lw_disk w)"
    using w' disk_read_cases(1) [of p "lw_disk w"] by (metis launch_world.select_convs(1) launch_world.surjective launch_world.update_convs(1) prod.collapse)
  show "lw_statuses w' = lw_statuses w" using w' by simp
  show "dk_faults (lw_disk w) = [] \<Longrightarrow> dk_files (lw_disk w) p = Some (contents, m) \<Longrightarrow> r = Inr contents \<and> dk_faults (lw_disk w') = []"
    using assms by (auto simp: launch_disk_def disk_read_def disk_call_def file_at_def io_anyhow_def)
qed

lemma remove_restore_ticket_done:
  assumes "remove_restore_ticket p w = (w', Inr ())" "honest (lw_disk w)" "desktop_back w"
  shows "\<not> ticket_exists p w' \<and> desktop_back w'"
  using remove_ticket [OF assms(1) [unfolded remove_restore_ticket_def]] assms(2,3) by simp

lemma watchdog_loop_restored:
  "watchdog_loop env k p w = Some (w', Inr ()) \<Longrightarrow> honest (lw_disk w) \<Longrightarrow> ticket_exists p w \<Longrightarrow>
     \<not> ticket_exists p w' \<and> desktop_back w'"
proof (induction k arbitrary: w)
  case (Suc k)
  obtain w1 contents where 1: "launch_disk (disk_read p) [] w = (w1, contents)" by fastforce
  note f1 = read_ticket [OF 1]
  obtain w2 status where 2: "launch_status env w1 = (w2, status)" by fastforce
  have f2: "lw_disk w2 = lw_disk w1" "desktop_back w2 \<longleftrightarrow> status_running status"
    using launch_status_frame(1,2) [of env w1] 2 by simp_all
  have t2: "ticket_exists p w2" "honest (lw_disk w2)" using Suc.prems(2,3) f1(1,2) f2(1) by (simp_all add: ticket_exists_def)
  obtain w3 r3 where 3: "start_desktop_waydroid_session env w2 = (w3, r3)" by fastforce
  note f3 = start_desktop_frame [OF 3]
  have t3: "ticket_exists p w3" "honest (lw_disk w3)" using t2 f3(1) by (simp_all add: ticket_exists_def)
  have again: ?case
    if "(if \<not> ticket_exists p v then Some (v, Inr ()) else watchdog_loop env k p (launch_sleep 1000000000 v)) = Some (w', Inr ())"
      "ticket_exists p v" "honest (lw_disk v)" for v
    using that Suc.IH [of "launch_sleep 1000000000 v"] by (auto simp: ticket_exists_def)
  let ?action = "case status of Inl _ \<Rightarrow> WatchdogWait
    | Inr s \<Rightarrow> watchdog_decision (trim (case contents of Inr c \<Rightarrow> c | Inl _ \<Rightarrow> ''armed'')) (session_is_running s)"
  note run = Suc.prems(1) [unfolded watchdog_loop.simps 1 2 3 Let_def prod.case]
  show ?case
  proof (cases ?action)
    case WatchdogWait
    with run again t2 show ?thesis by simp
  next
    case WatchdogComplete
    then have "desktop_back w2"
      using f2(2) by (auto simp: watchdog_decision_def status_running_def split: sum.splits if_splits)
    with remove_restore_ticket_done [of p w2 w'] WatchdogComplete run t2(2) show ?thesis by simp
  next
    case WatchdogRestore
    show ?thesis
    proof (cases r3)
      case (Inl e)
      with WatchdogRestore run again t3 show ?thesis by simp
    next
      case (Inr u)
      with WatchdogRestore run have "remove_restore_ticket p w3 = (w', Inr ())" by simp
      with remove_restore_ticket_done t3(2) f3(2) Inr show ?thesis by simp
    qed
  qed
qed simp

lemma watchdog_wait_frame:
  "watchdog_wait env k n p w = Some w' \<Longrightarrow> lw_disk w' = lw_disk w \<and> lw_statuses w' = lw_statuses w"
  by (induction k arbitrary: n w) (auto split: if_splits)

lemma watchdog_done:
  assumes run: "restore_desktop_session env fuel parent ticket w = Some (w', Inr ())"
    and path: "restore_ticket_path env parent ticket = Inr p"
    and ticket: "ticket_exists p w" and honest: "honest (lw_disk w)"
  shows "\<not> ticket_exists p w' \<and> desktop_back w'"
proof -
  from run path obtain w1 where 1: "watchdog_wait env fuel 0 p w = Some w1"
    and 2: "(if \<not> ticket_exists p w1 then Some (w1, Inr ()) else watchdog_loop env fuel p w1) = Some (w', Inr ())"
    by (auto simp: restore_desktop_session_def bind_eq_Some_conv)
  from watchdog_wait_frame [OF 1] ticket honest have "ticket_exists p w1" "honest (lw_disk w1)" by (simp_all add: ticket_exists_def)
  with 2 watchdog_loop_restored show ?thesis by simp
qed

text \<open>Whenever the watchdog ends without an error while its ticket was on the disk, the ticket is gone and the desktop's
  session runs: the last status it saw says so. It never gives up on its own.\<close>

theorem watchdog_ends_restored:
  assumes run: "restore_desktop_session env fuel parent ticket w = Some (w', Inr ())"
    and path: "restore_ticket_path env parent ticket = Inr p"
    and ticket: "ticket_exists p w" and honest: "honest (lw_disk w)"
  shows "\<not> ticket_exists p w' \<and> desktop_back w'"
  by (rule watchdog_done [OF assms])

lemma watchdog_wait_ends:
  "\<not> li_parent_alive env m \<Longrightarrow> n \<le> m \<Longrightarrow> m < n + k \<Longrightarrow> \<exists>w'. watchdog_wait env k n p w = Some w'"
proof (induction k arbitrary: n w)
  case (Suc k)
  show ?case
  proof (cases "n = m")
    case False
    with Suc.prems Suc.IH [of "Suc n"] show ?thesis by auto
  qed (use Suc.prems in simp)
qed simp

lemma watchdog_returns:
  assumes path: "restore_ticket_path env parent ticket = Inr p"
    and ticket: "dk_files (lw_disk w) p = Some (contents, m)" and quiet: "dk_faults (lw_disk w) = []"
    and dead: "\<not> li_parent_alive env n" "n < fuel"
    and status: "status_text env (li_status env (lw_statuses w)) = Inr s"
    and needed: "session_is_running s \<longrightarrow> trim contents = ''restoring''"
    and startable: "\<And>v. lw_statuses v = Suc (lw_statuses w) \<Longrightarrow> \<exists>v'. start_desktop_waydroid_session env v = (v', Inr ())"
  shows "\<exists>w'. restore_desktop_session env fuel parent ticket w = Some (w', Inr ())"
proof -
  from watchdog_wait_ends [OF dead(1), of 0 fuel p w] dead(2) obtain w1 where 1: "watchdog_wait env fuel 0 p w = Some w1" by auto
  from watchdog_wait_frame [OF 1] have w1: "lw_disk w1 = lw_disk w" "lw_statuses w1 = lw_statuses w" by auto
  obtain k where fuel: "fuel = Suc k" using dead(2) by (cases fuel) auto
  obtain w2 c where 2: "launch_disk (disk_read p) [] w1 = (w2, c)" by fastforce
  from read_ticket(4) [OF 2, of contents m] ticket quiet w1 have c: "c = Inr contents" "dk_faults (lw_disk w2) = []" by auto
  have s2: "lw_statuses w2 = lw_statuses w" using read_ticket(3) [OF 2] w1(2) by simp
  obtain w3 where 3: "launch_status env w2 = (w3, Inr s)"
    by (metis launch_status_frame(3) prod.collapse s2 status)
  have f3: "lw_disk w3 = lw_disk w2" "lw_statuses w3 = Suc (lw_statuses w)"
    using launch_status_frame(1,4) [of env w2] 3 s2 by simp_all
  have removable: "\<exists>v'. remove_restore_ticket p v = (v', Inr ())" if "dk_faults (lw_disk v) = []" for v
    using that remove_file_cases(2) [of p "lw_disk v"]
    by (cases "remove_file_if_exists p (lw_disk v)")
      (auto simp: remove_restore_ticket_def launch_disk_def io_anyhow_def context_of_def)
  have "\<exists>w'. watchdog_loop env fuel p w1 = Some (w', Inr ())"
  proof (cases "session_is_running s")
    case True
    with needed have "watchdog_loop env fuel p w1 = Some (remove_restore_ticket p w3)"
      by (simp add: fuel 2 3 c watchdog_decision_def)
    with removable [of w3] c(2) f3(1) show ?thesis by auto
  next
    case False
    from startable [OF f3(2)] obtain v where v: "start_desktop_waydroid_session env w3 = (v, Inr ())" by blast
    with False have "watchdog_loop env fuel p w1 = Some (remove_restore_ticket p v)"
      by (simp add: fuel 2 3 c watchdog_decision_def)
    with removable [of v] c(2) f3(1) start_desktop_frame(1) [OF v] show ?thesis by auto
  qed
  moreover have "ticket_exists p w1" using ticket w1 by (simp add: ticket_exists_def)
  ultimately show ?thesis using path 1 by (simp add: restore_desktop_session_def)
qed


section \<open>Concrete runs\<close>

text \<open>A desktop whose session runs at first, is stopped, and runs again when it is started.\<close>

definition status_out :: "bool \<Rightarrow> os_error + command_output" where
  "status_out b =
     Inr \<lparr>co_status = \<lparr>es_success = True, es_text = []\<rparr>, co_stdout = (if b then ''Session: RUNNING'' else ''Session: STOPPED''), co_stderr = []\<rparr>"

definition sample_launch :: "(nat \<Rightarrow> bool) \<Rightarrow> launch_env" where
  "sample_launch running =
     \<lparr>li_status = (\<lambda>n. status_out (running n)),
      li_child = (\<lambda>n. Inr \<lparr>lc_status = (\<lambda>_. if n = 1 then Inr (Some \<lparr>es_success = True, es_text = []\<rparr>) else Inr None), lc_delay = (\<lambda>_. 0)\<rparr>),
      li_lossy = id, li_random = Inr (Inr (replicate 16 (CHR ''a''))), li_runtime_dir = Some ''/run/user/1'',
      li_executable = Inr ''/usr/bin/wroid'', li_pid = 7, li_parent_alive = (\<lambda>n. n < 2)\<rparr>"

definition start_world :: launch_world where
  "start_world = \<lparr>lw_disk = \<lparr>dk_files = (\<lambda>_. None), dk_faults = []\<rparr>, lw_log = [], lw_statuses = 0, lw_spawns = 0, lw_slept = 0\<rparr>"

lemma sample_status:
  "status_text (sample_launch f) (status_out True) = Inr ''Session: RUNNING''" "session_is_running ''Session: RUNNING''"
  "status_text (sample_launch f) (status_out False) = Inr ''Session: STOPPED''" "\<not> session_is_running ''Session: STOPPED''"
  unfolding status_text_def sample_launch_def status_out_def by code_simp+

definition sample_run :: "launch_world \<times> (anyhow + unit)" where
  "sample_run = run_with_desktop_restoration (system_desktop (sample_launch (\<lambda>n. n \<noteq> 1))) (\<lambda>w. (w, Inr ())) start_world"

lemma sample_run_succeeds: "snd sample_run = Inr ()"
  by code_simp

lemma desktop_restored_or_ticket_witness: "snd sample_run = Inr () \<and> desktop_back (fst sample_run)"
proof -
  have run: "run_with_desktop_restoration (system_desktop (sample_launch (\<lambda>n. n \<noteq> 1))) (\<lambda>w. (w, Inr ())) start_world
      = (fst sample_run, Inr ())"
    using sample_run_succeeds by (simp add: sample_run_def prod_eq_iff)
  have "status_running (status_text (sample_launch (\<lambda>n. n \<noteq> 1)) (li_status (sample_launch (\<lambda>n. n \<noteq> 1)) (lw_statuses start_world)))"
    using sample_status(1,2) by (simp add: status_running_def sample_launch_def start_world_def)
  from desktop_restored_or_ticket [OF run _ _ this] sample_run_succeeds show ?thesis
    by (auto simp: start_world_def honest_def)
qed

text \<open>The launcher died with the session stopped; the ticket is there.\<close>

definition some_ticket :: string where "some_ticket = concat (replicate 16 ''61'')"
definition some_path :: string where "some_path = ''/run/user/1/wroid/restore-7-'' @ some_ticket"

definition orphaned_world :: launch_world where
  "orphaned_world = start_world\<lparr>lw_disk := \<lparr>dk_files = [some_path \<mapsto> (ARMED, 384)], dk_faults = []\<rparr>\<rparr>"

lemma some_ticket_path: "restore_ticket_path (sample_launch f) 7 some_ticket = Inr some_path"
proof -
  have "validate_ticket some_ticket = Inr ()" by code_simp
  moreover have "path_join (path_join ''/run/user/1'' ''wroid'') (''restore-'' @ show_u32 7 @ ''-'' @ some_ticket) = some_path"
    by code_simp
  ultimately show ?thesis by (simp add: restore_ticket_path_def bind_result_def sample_launch_def)
qed

lemma sample_startable:
  "lw_statuses v = 1 \<Longrightarrow> \<exists>v'. start_desktop_waydroid_session (sample_launch (\<lambda>n. n \<noteq> 0)) v = (v', Inr ())"
  using sample_status(1,2)
  by (auto simp: start_desktop_waydroid_session_def launch_status_def Let_def sample_launch_def status_running_def)

lemma orphan_facts:
  "status_text (sample_launch (\<lambda>n. n \<noteq> 0)) (li_status (sample_launch (\<lambda>n. n \<noteq> 0)) (lw_statuses orphaned_world))
     = Inr ''Session: STOPPED''"
  "dk_files (lw_disk orphaned_world) some_path = Some (ARMED, 384)" "dk_faults (lw_disk orphaned_world) = []"
  "\<not> li_parent_alive (sample_launch (\<lambda>n. n \<noteq> 0)) 2" "(2::nat) < 5"
  "session_is_running ''Session: STOPPED'' \<longrightarrow> trim ARMED = ''restoring''"
  "lw_statuses v = Suc (lw_statuses orphaned_world) \<Longrightarrow>
     \<exists>v'. start_desktop_waydroid_session (sample_launch (\<lambda>n. n \<noteq> 0)) v = (v', Inr ())"
  using sample_status(3) [of "\<lambda>n. n \<noteq> 0"] sample_status(4) sample_startable [of v]
  by (simp_all add: sample_launch_def orphaned_world_def start_world_def)

lemmas orphan_restores = some_ticket_path orphan_facts(2,3,4,5,1,6,7)

lemma watchdog_runs:
  "\<exists>w'. restore_desktop_session (sample_launch (\<lambda>n. n \<noteq> 0)) 5 7 some_ticket orphaned_world = Some (w', Inr ())"
  by (rule watchdog_returns [OF orphan_restores])


lemma watchdog_ends_restored_witness:
  "\<exists>w'. restore_desktop_session (sample_launch (\<lambda>n. n \<noteq> 0)) 5 7 some_ticket orphaned_world = Some (w', Inr ())
    \<and> \<not> ticket_exists some_path w' \<and> desktop_back w'"
proof -
  have "ticket_exists some_path orphaned_world" "honest (lw_disk orphaned_world)"
    by (simp_all add: ticket_exists_def orphaned_world_def honest_def)
  moreover from watchdog_runs obtain w' where
    "restore_desktop_session (sample_launch (\<lambda>n. n \<noteq> 0)) 5 7 some_ticket orphaned_world = Some (w', Inr ())" by blast
  ultimately show ?thesis using watchdog_ends_restored [OF _ some_ticket_path] by blast
qed

end
