(* ===== verification/SessionReport.thy ===== *)
theory SessionReport
  imports Session Lifecycle BridgeSafe
begin

text \<open>
  The report of the last game session: what the runtime counts (\<^verbatim>\<open>wroid-inject/src/game_session.rs\<close>), the
  outcome the worker writes and the launcher reads back, and which outcomes are believed
  (\<^verbatim>\<open>wroid-cli/src/commands/launch_v2.rs\<close>). The JSON codec, the profile on the disk and the path
  resolution are parameters.
\<close>

section \<open>The report of a runtime\<close>

record game_session_report =
  gr_frames_submitted :: u64
  gr_peak_contacts :: u64
  gr_recenters :: u64
  gr_reader_to_inject :: latency_metrics_data
  gr_kernel_to_inject :: "latency_metrics_data option"
  gr_rejected_timestamps :: u64

definition runtime_report :: "'i metrics_injector unified_runtime \<Rightarrow> game_session_report" where
  "runtime_report r =
     (let m = injector (ur_engine r); kernel = latency_metrics (ur_kernel r)
      in \<lparr>gr_frames_submitted = sm_frames_submitted m,
          gr_peak_contacts = to_u64 (sm_peak_contacts m),
          gr_recenters = sum_list (map mc_recenter_count (concat (map (\<lambda>a. case a of None \<Rightarrow> [] | Some c \<Rightarrow> [c]) (ur_aims r)))),
          gr_reader_to_inject = latency_metrics (ur_pipeline r),
          gr_kernel_to_inject = (if 0 < lm_samples kernel then Some kernel else None),
          gr_rejected_timestamps = ur_rejected r\<rparr>)"

section \<open>The outcome of a session\<close>

record last_session_latency =
  ll_samples :: u64
  ll_p50 :: u64
  ll_p95 :: u64
  ll_p99 :: u64
  ll_max :: u64

record last_session_performance =
  lp_frames_submitted :: u64
  lp_peak_contacts :: u64
  lp_recenters :: u64
  lp_reader_to_inject :: last_session_latency
  lp_kernel_to_inject :: "last_session_latency option"
  lp_rejected_timestamps :: u64

record last_session =
  lo_version :: u32
  lo_pid :: u32
  lo_profile_path :: string
  lo_profile_name :: string
  lo_package_name :: string
  lo_state :: string
  lo_detail :: string
  lo_finished :: u64
  lo_performance :: "last_session_performance option"

definition latency_of :: "latency_metrics_data \<Rightarrow> last_session_latency" where
  "latency_of m =
     \<lparr>ll_samples = lm_samples m, ll_p50 = lm_p50_micros m, ll_p95 = lm_p95_micros m, ll_p99 = lm_p99_micros m,
      ll_max = lm_max_micros m\<rparr>"

definition performance_of :: "game_session_report \<Rightarrow> last_session_performance" where
  "performance_of r =
     \<lparr>lp_frames_submitted = gr_frames_submitted r, lp_peak_contacts = gr_peak_contacts r, lp_recenters = gr_recenters r,
      lp_reader_to_inject = latency_of (gr_reader_to_inject r),
      lp_kernel_to_inject = map_option latency_of (gr_kernel_to_inject r),
      lp_rejected_timestamps = gr_rejected_timestamps r\<rparr>"

definition LAST_SESSION_VERSION :: u32 where "LAST_SESSION_VERSION = 1"
definition LAST_SESSION_FILE :: string where "LAST_SESSION_FILE = ''last-game-session.json''"
definition LAST_SESSION_MAX_BYTES :: nat where "LAST_SESSION_MAX_BYTES = 64 * 1024"
definition LAST_SESSION_DETAIL_CHARS :: nat where "LAST_SESSION_DETAIL_CHARS = 4096"

text \<open>\<open>char::is_control\<close>: U+0000 to U+001F and U+007F to U+009F, by their encodings.\<close>

definition is_control :: "string \<Rightarrow> bool" where
  "is_control g \<longleftrightarrow>
     (case g of
        [c] \<Rightarrow> (of_char c :: nat) < 32 \<or> (of_char c :: nat) = 127
      | [c, d] \<Rightarrow> (of_char c :: nat) = 194 \<and> (of_char d :: nat) < 160
      | _ \<Rightarrow> False)"

definition bounded_session_detail :: "string \<Rightarrow> string" where
  "bounded_session_detail detail =
     concat (take LAST_SESSION_DETAIL_CHARS
       [g \<leftarrow> str_chars detail. \<not> is_control g \<or> g \<in> {[LF], [CR], [CHR 0x09]}])"

definition take_chars :: "nat \<Rightarrow> string \<Rightarrow> string" where
  "take_chars n s = concat (take n (str_chars s))"

text \<open>\<open>Path::file_stem\<close>: the name up to its last dot, unless the dot is the first character or there is none.\<close>

definition file_stem :: "string \<Rightarrow> string option" where
  "file_stem p =
     map_option (\<lambda>name. let before = rev (tl (dropWhile (\<lambda>c. c \<noteq> CHR ''.'') (rev name)))
                         in if CHR ''.'' \<notin> set name \<or> before = [] then name else before) (path_file_name p)"

text \<open>\<open>resolve\<close> is \<open>canonicalize\<close>, \<open>load\<close> the name and package of the profile a file holds, \<open>utf8\<close> whether the
  name of the file is UTF-8.\<close>

definition session_outcome ::
  "(string \<Rightarrow> string option) \<Rightarrow> (string \<Rightarrow> (string \<times> string) option) \<Rightarrow> (string \<Rightarrow> bool) \<Rightarrow> string \<Rightarrow> u32 \<Rightarrow> string
     \<Rightarrow> string \<Rightarrow> u64 \<Rightarrow> last_session_performance option \<Rightarrow> last_session" where
  "session_outcome resolve load utf8 profile_path pid state detail finished performance =
     (let resolved = (case resolve profile_path of Some p \<Rightarrow> p | None \<Rightarrow> profile_path);
          profile = load resolved;
          fallback = (case file_stem resolved of
              Some stem \<Rightarrow> if utf8 stem then stem else ''Wroid game'' | None \<Rightarrow> ''Wroid game'')
      in \<lparr>lo_version = LAST_SESSION_VERSION, lo_pid = pid, lo_profile_path = resolved,
          lo_profile_name = (case profile of Some (name, _) \<Rightarrow> take_chars 160 name | None \<Rightarrow> fallback),
          lo_package_name = (case profile of Some (_, package) \<Rightarrow> take_chars 255 package | None \<Rightarrow> []),
          lo_state = state, lo_detail = bounded_session_detail detail, lo_finished = finished,
          lo_performance = performance\<rparr>)"

definition session_outcome_from_result ::
  "(string \<Rightarrow> string option) \<Rightarrow> (string \<Rightarrow> (string \<times> string) option) \<Rightarrow> (string \<Rightarrow> bool) \<Rightarrow> string \<Rightarrow> u32 \<Rightarrow> u64
     \<Rightarrow> anyhow + game_session_report \<Rightarrow> last_session" where
  "session_outcome_from_result resolve load utf8 profile_path pid now result =
     (case result of
        Inr report \<Rightarrow> session_outcome resolve load utf8 profile_path pid ''clean''
          ''Session ended cleanly; input and Waydroid lifecycle cleanup completed.'' now (Some (performance_of report))
      | Inl err \<Rightarrow> session_outcome resolve load utf8 profile_path pid ''failed'' (show_error err) now None)"

section \<open>Which outcomes are believed\<close>

definition MAX_SAMPLES :: u64 where "MAX_SAMPLES = 100000"
definition MAX_LATENCY_MICROS :: u64 where "MAX_LATENCY_MICROS = 60000000"
definition MAX_COUNTER :: u64 where "MAX_COUNTER = 1000000000000"

definition valid_latency :: "last_session_latency \<Rightarrow> bool" where
  "valid_latency l \<longleftrightarrow>
     ll_samples l \<le> MAX_SAMPLES \<and> (0 < ll_samples l \<or> ll_max l = 0)
     \<and> ll_p50 l \<le> ll_p95 l \<and> ll_p95 l \<le> ll_p99 l \<and> ll_p99 l \<le> ll_max l \<and> ll_max l \<le> MAX_LATENCY_MICROS"

definition valid_session_performance :: "last_session_performance \<Rightarrow> bool" where
  "valid_session_performance p \<longleftrightarrow>
     valid_latency (lp_reader_to_inject p)
     \<and> (case lp_kernel_to_inject p of None \<Rightarrow> True | Some l \<Rightarrow> valid_latency l)
     \<and> lp_frames_submitted p \<le> MAX_COUNTER \<and> lp_recenters p \<le> MAX_COUNTER \<and> lp_rejected_timestamps p \<le> MAX_COUNTER
     \<and> lp_peak_contacts p \<le> 65535"

definition valid_last_game_session :: "last_session \<Rightarrow> bool" where
  "valid_last_game_session o' \<longleftrightarrow>
     lo_version o' = LAST_SESSION_VERSION \<and> 0 < lo_pid o'
     \<and> lo_state o' \<in> {''clean'', ''stopped'', ''failed''}
     \<and> length (str_chars (lo_profile_name o')) \<le> 160
     \<and> length (str_chars (lo_package_name o')) \<le> 255
     \<and> length (str_chars (lo_detail o')) \<le> LAST_SESSION_DETAIL_CHARS
     \<and> length (lo_profile_path o') \<le> 4096
     \<and> (case lo_performance o' of None \<Rightarrow> True | Some p \<Rightarrow> valid_session_performance p)"

section \<open>The file\<close>

record report_codec =
  rc_print :: "last_session \<Rightarrow> string"
  rc_parse :: "string \<Rightarrow> os_error + last_session"

definition disk_append :: "string \<Rightarrow> string \<Rightarrow> disk \<Rightarrow> unit disk_st" where
  "disk_append p bytes =
     disk_call (\<lambda>dk. case dk_files dk p of
       None \<Rightarrow> (dk, Inr ())
     | Some (contents, mode) \<Rightarrow> (dk\<lparr>dk_files := (dk_files dk)(p \<mapsto> (contents @ bytes, mode))\<rparr>, Inr ()))"

text \<open>A call that changes nothing the model has: making a directory, its mode, syncing.\<close>

definition disk_note :: "disk \<Rightarrow> unit disk_st" where "disk_note = disk_call (\<lambda>dk. (dk, Inr ()))"

definition publish_report :: "report_codec \<Rightarrow> string \<Rightarrow> string \<Rightarrow> last_session \<Rightarrow> disk \<Rightarrow> unit disk_st" where
  "publish_report cd temporary path outcome dk =
     andThen (disk_create_new temporary dk) (\<lambda>dk _.
     andThen (disk_append temporary (rc_print cd outcome) dk) (\<lambda>dk _.
     andThen (disk_append temporary [LF] dk) (\<lambda>dk _.
     andThen (disk_note dk) (\<lambda>dk _.
     andThen (disk_rename temporary path dk) (\<lambda>dk _.
     andThen (disk_note dk) (\<lambda>dk _. disk_note dk))))))"

definition report_temporary :: "string \<Rightarrow> string \<Rightarrow> string" where
  "report_temporary path ticket =
     path_join (case path_parent path of Some d \<Rightarrow> path_text d | None \<Rightarrow> []) (''.'' @ LAST_SESSION_FILE @ ''.'' @ ticket @ ''.tmp'')"

definition write_last_game_session_at ::
  "report_codec \<Rightarrow> os_error + string \<Rightarrow> string \<Rightarrow> last_session \<Rightarrow> disk \<Rightarrow> unit disk_st" where
  "write_last_game_session_at cd ticket path outcome dk =
     (if path_parent path = None then (dk, Inl (OsError OtherKind ''last session path has no parent''))
      else andThen (disk_note dk) (\<lambda>dk _.
           andThen (disk_note dk) (\<lambda>dk _.
             case ticket of
               Inl err \<Rightarrow> (dk, Inl err)
             | Inr t \<Rightarrow>
                 (case publish_report cd (report_temporary path t) path outcome dk of
                    (dk1, Inr _) \<Rightarrow> (dk1, Inr ())
                  | (dk1, Inl err) \<Rightarrow> (fst (disk_remove (report_temporary path t) dk1), Inl err)))))"

definition discard_report :: "string \<Rightarrow> disk \<Rightarrow> last_session option disk_st" where
  "discard_report path dk = (fst (disk_remove path dk), Inr None)"

definition read_last_game_session_at :: "report_codec \<Rightarrow> string \<Rightarrow> disk \<Rightarrow> last_session option disk_st" where
  "read_last_game_session_at cd path dk =
     (case disk_call (\<lambda>dk. (dk, map_sum id (\<lambda>_. ()) (file_at path dk))) dk of
        (dk1, Inl err) \<Rightarrow> (dk1, if err_kind err = NotFound then Inr None else Inl err)
      | (dk1, Inr _) \<Rightarrow>
          andThen (disk_call (\<lambda>dk. (dk, map_sum id (\<lambda>f. length (fst f)) (file_at path dk))) dk1) (\<lambda>dk2 len.
            if LAST_SESSION_MAX_BYTES < len then discard_report path dk2
            else andThen (disk_read path dk2) (\<lambda>dk3 bytes.
                   case rc_parse cd bytes of
                     Inl _ \<Rightarrow> discard_report path dk3
                   | Inr outcome \<Rightarrow>
                       if valid_last_game_session outcome then (dk3, Inr (Some outcome))
                       else discard_report path dk3)))"

end
