(* ===== verification/ReportSpec.thy ===== *)
theory ReportSpec
  imports SessionReport
begin

text \<open>
  The report of the last session is believed when it is read: what the worker writes passes the launcher's checks, a
  write replaces the old report completely or not at all, and a report that was written is read back.
\<close>

section \<open>Characters\<close>

text \<open>Groups of bytes that are characters of the text they make: continuation bytes only inside a group.\<close>

definition char_groups :: "string list \<Rightarrow> bool" where
  "char_groups gs \<longleftrightarrow>
     (\<forall>g \<in> set gs. g \<noteq> [] \<and> (\<forall>c \<in> set (tl g). continuation_byte c)) \<and> (\<forall>g \<in> set (tl gs). \<not> continuation_byte (hd g))"

lemma char_groups_str_chars: "char_groups (str_chars s)"
proof (induction s)
  case (Cons c s)
  show ?case
  proof (cases "str_chars s")
    case (Cons g gs)
    with Cons.IH show ?thesis by (cases g; cases gs) (auto simp: char_groups_def)
  qed (auto simp: char_groups_def)
qed (simp add: char_groups_def)

lemma str_chars_group: "(\<forall>c \<in> set g. continuation_byte c) \<Longrightarrow> (gs \<noteq> [] \<Longrightarrow> hd gs \<noteq> [] \<and> \<not> continuation_byte (hd (hd gs))) \<Longrightarrow>
    str_chars (concat gs) = gs \<Longrightarrow> str_chars ((c # g) @ concat gs) = (c # g) # gs"
proof (induction g arbitrary: c)
  case Nil
  then show ?case by (cases gs) auto
next
  case (Cons d g)
  then have "str_chars ((d # g) @ concat gs) = (d # g) # gs" by simp
  with Cons.prems(1) show ?case by simp
qed

lemma str_chars_concat: "char_groups gs \<Longrightarrow> str_chars (concat gs) = gs"
proof (induction gs)
  case (Cons g gs)
  obtain c g' where g: "g = c # g'" using Cons.prems by (cases g) (auto simp: char_groups_def)
  have "char_groups gs" using Cons.prems by (cases gs) (auto simp: char_groups_def)
  with Cons.IH have "str_chars (concat gs) = gs" by simp
  moreover have "gs \<noteq> [] \<Longrightarrow> hd gs \<noteq> [] \<and> \<not> continuation_byte (hd (hd gs))"
    using Cons.prems by (cases gs) (auto simp: char_groups_def)
  ultimately show ?case using str_chars_group [of g' gs c] Cons.prems g by (simp add: char_groups_def)
qed simp

lemma char_groups_take: "char_groups gs \<Longrightarrow> char_groups (take n gs)"
  by (auto simp: char_groups_def tl_take dest: in_set_takeD)

lemma tl_subset: "x \<in> set (tl xs) \<Longrightarrow> x \<in> set xs"
  by (cases xs) auto

lemma char_groups_filter: "char_groups gs \<Longrightarrow> char_groups [g \<leftarrow> gs. P g]"
proof (cases gs)
  case (Cons g gs')
  assume "char_groups gs"
  with Cons show ?thesis by (auto simp: char_groups_def dest: tl_subset)
qed simp

lemma take_chars_length: "length (str_chars (take_chars n s)) \<le> n"
  by (simp add: take_chars_def str_chars_concat char_groups_take char_groups_str_chars)

lemma bounded_detail_length: "length (str_chars (bounded_session_detail d)) \<le> LAST_SESSION_DETAIL_CHARS"
  by (simp add: bounded_session_detail_def str_chars_concat char_groups_take char_groups_filter char_groups_str_chars)

section \<open>Latencies\<close>

definition samples_ok :: "duration list \<Rightarrow> bool" where
  "samples_ok ds \<longleftrightarrow> length ds \<le> MAX_LATENCY_SAMPLES \<and> (\<forall>d \<in> set ds. d \<le> MAX_REASONABLE_AGE)"

lemma reasonable_micros: "d \<le> MAX_REASONABLE_AGE \<Longrightarrow> as_micros d \<le> 60000000"
  by (simp add: MAX_REASONABLE_AGE_def as_micros_def from_millis_def)

lemma unat_to_u64: "n < 2 ^ 64 \<Longrightarrow> unat (to_u64 n) = n"
  by (simp add: to_u64_def unat_of_nat take_bit_nat_eq_self)

lemma valid_latency_metrics:
  assumes "samples_ok ds"
  shows "valid_latency (latency_of (latency_metrics ds))"
proof -
  note ordered = latency_summary_ordered [of ds]
  have len: "length ds \<le> 100000" using assms by (simp add: samples_ok_def MAX_LATENCY_SAMPLES_def)
  have max: "ls_max (latency_summary_micros ds) \<le> 60000000 \<and> (ds = [] \<longrightarrow> ls_max (latency_summary_micros ds) = 0)"
  proof (cases "ds = []")
    case False
    then have "sort (map as_micros ds) \<noteq> []" by (metis length_0_conv length_map length_sort)
    then have "last (sort (map as_micros ds)) \<in> set (map as_micros ds)" by (metis last_in_set set_sort)
    with assms False show ?thesis
      by (auto simp: latency_summary_micros_def Let_def samples_ok_def reasonable_micros)
  qed (simp add: latency_summary_micros_def latency_summary_default_def)
  have "unat (lm_samples (latency_metrics ds)) = length ds" "unat (lm_max_micros (latency_metrics ds)) \<le> 60000000"
    "ds = [] \<Longrightarrow> lm_max_micros (latency_metrics ds) = 0"
    using ordered len max unat_to_u64 [of "length ds"] unat_to_u64 [of "ls_max (latency_summary_micros ds)"]
    by (simp_all add: latency_metrics_def Let_def) (simp add: to_u64_def)
  with ordered len show ?thesis
    by (auto simp: valid_latency_def latency_of_def MAX_SAMPLES_def MAX_LATENCY_MICROS_def word_le_nat_alt word_less_nat_alt)
qed

text \<open>Recording keeps the number of samples and the age of the kernel's; the reader's latency is whatever it is.\<close>

lemma record_keeps_samples:
  assumes "samples_ok (ur_kernel r)" "length (ur_pipeline r) \<le> MAX_LATENCY_SAMPLES"
  shows "samples_ok (ur_kernel (record_pipeline_latency latency stamp r))"
    "length (ur_pipeline (record_pipeline_latency latency stamp r)) \<le> MAX_LATENCY_SAMPLES"
  using assms
  by (auto simp: record_pipeline_latency_def samples_ok_def kernel_event_age_def Let_def split: option.splits if_splits)

section \<open>Reports are believed\<close>

text \<open>The outcome a worker writes is believed when it is read: whether the session succeeded, with the report of its
  runtime, or failed with any error text, the outcome passes the launcher's checks - its texts are cut to the lengths
  the checks allow, its percentiles are ordered and in range, its counts fit - as long as every sample is at most a
  minute old, the counters stay below a million millions, the path fits 4096 bytes, and the profile could be loaded
  or its file name is at most 160 characters long.\<close>

theorem worker_outcome_believed:
  assumes samples: "samples_ok (ur_pipeline r)" "samples_ok (ur_kernel r)"
    and counters: "gr_frames_submitted (runtime_report r) \<le> MAX_COUNTER" "gr_recenters (runtime_report r) \<le> MAX_COUNTER"
      "gr_rejected_timestamps (runtime_report r) \<le> MAX_COUNTER" "gr_peak_contacts (runtime_report r) \<le> 65535"
    and pid: "0 < pid"
    and path: "resolved = (case resolve profile_path of Some p \<Rightarrow> p | None \<Rightarrow> profile_path)" "length resolved \<le> 4096"
    and name: "load resolved \<noteq> None \<or> (\<forall>stem. file_stem resolved = Some stem \<longrightarrow> length (str_chars stem) \<le> 160)"
    and result: "result = Inr (runtime_report r) \<or> result = Inl err"
  shows "valid_last_game_session (session_outcome_from_result resolve load utf8 profile_path pid now result)"
proof -
  have performance: "valid_session_performance (performance_of (runtime_report r))"
    using counters valid_latency_metrics [OF samples(1)] valid_latency_metrics [OF samples(2)]
    by (simp add: valid_session_performance_def performance_of_def runtime_report_def Let_def)
  have fallback: "length (str_chars ''Wroid game'') \<le> 160" "str_chars [] = []" by code_simp+
  have outcome: "valid_last_game_session (session_outcome resolve load utf8 profile_path pid state detail now p)"
    if "state \<in> {''clean'', ''failed''}" "\<And>q. p = Some q \<Longrightarrow> valid_session_performance q" for state detail p
    using that pid path name fallback bounded_detail_length take_chars_length
    unfolding valid_last_game_session_def session_outcome_def Let_def
    by (auto split: option.splits)
  from result show ?thesis
  proof
    assume "result = Inr (runtime_report r)"
    then show ?thesis unfolding session_outcome_from_result_def using performance by (simp only: sum.case) (rule outcome, simp_all)
  next
    assume "result = Inl err"
    then show ?thesis unfolding session_outcome_from_result_def by (simp only: sum.case) (rule outcome, simp_all)
  qed
qed

section \<open>The file\<close>

lemma disk_create_new_effect:
  "disk_create_new p dk = (dk', r) \<Longrightarrow>
     (\<forall>q. q \<noteq> p \<longrightarrow> dk_files dk' q = dk_files dk q) \<and> (r = Inr () \<longrightarrow> dk_files dk' p = Some ([], 384))"
  by (auto simp: disk_create_new_def disk_call_def split: list.splits option.splits)

lemma disk_append_effect:
  "disk_append p bytes dk = (dk', r) \<Longrightarrow>
     (\<forall>q. q \<noteq> p \<longrightarrow> dk_files dk' q = dk_files dk q)
     \<and> (r = Inr () \<longrightarrow> dk_files dk p = Some (c, m) \<longrightarrow> dk_files dk' p = Some (c @ bytes, m))"
  by (auto simp: disk_append_def disk_call_def split: list.splits option.splits)

lemma disk_note_effect: "disk_note dk = (dk', r) \<Longrightarrow> dk_files dk' = dk_files dk"
  by (auto simp: disk_note_def disk_call_def split: list.splits option.splits)

lemma disk_rename_effect:
  "disk_rename p q dk = (dk', r) \<Longrightarrow> p \<noteq> q \<Longrightarrow> dk_files dk p = Some f \<Longrightarrow>
     dk_files dk' q = dk_files dk q \<or> r = Inr () \<and> dk_files dk' q = Some f"
  by (auto simp: disk_rename_def disk_call_def file_at_def split: list.splits option.splits)

lemma publish_report_effect:
  assumes run: "publish_report cd temporary path outcome dk = (dk', r)" and tmp: "temporary \<noteq> path"
  shows "dk_files dk' path = dk_files dk path \<or> dk_files dk' path = Some (rc_print cd outcome @ [LF], 384)"
proof -
  obtain d1 r1 where 1: "disk_create_new temporary dk = (d1, r1)" by fastforce
  obtain d2 r2 where 2: "disk_append temporary (rc_print cd outcome) d1 = (d2, r2)" by fastforce
  obtain d3 r3 where 3: "disk_append temporary [LF] d2 = (d3, r3)" by fastforce
  obtain d4 r4 where 4: "disk_note d3 = (d4, r4)" by fastforce
  obtain d5 r5 where 5: "disk_rename temporary path d4 = (d5, r5)" by fastforce
  obtain d6 r6 where 6: "disk_note d5 = (d6, r6)" by fastforce
  obtain d7 r7 where 7: "disk_note d6 = (d7, r7)" by fastforce
  note run = run [unfolded publish_report_def 1]
  have p1: "dk_files d1 path = dk_files dk path" "r1 = Inr () \<Longrightarrow> dk_files d1 temporary = Some ([], 384)"
    using disk_create_new_effect [OF 1] tmp by auto
  have p2: "dk_files d2 path = dk_files dk path"
    "r1 = Inr () \<Longrightarrow> r2 = Inr () \<Longrightarrow> dk_files d2 temporary = Some (rc_print cd outcome, 384)"
    using disk_append_effect [OF 2, of "[]" 384] p1 tmp by auto
  have p3: "dk_files d3 path = dk_files dk path"
    "r1 = Inr () \<Longrightarrow> r2 = Inr () \<Longrightarrow> r3 = Inr () \<Longrightarrow> dk_files d3 temporary = Some (rc_print cd outcome @ [LF], 384)"
    using disk_append_effect [OF 3, of "rc_print cd outcome" 384] p2 tmp by auto
  note p4 = disk_note_effect [OF 4] and p6 = disk_note_effect [OF 6] and p7 = disk_note_effect [OF 7]
  have p5: "dk_files d5 path = dk_files dk path \<or> dk_files d5 path = Some (rc_print cd outcome @ [LF], 384)"
    if "r1 = Inr ()" "r2 = Inr ()" "r3 = Inr ()"
    using disk_rename_effect [OF 5 tmp, of "(rc_print cd outcome @ [LF], 384)"] p3 p4 that by auto
  consider "dk' = d1" | "dk' = d2" | "dk' = d3" | "dk' = d4" | "dk' = d5 \<or> dk' = d6 \<or> dk' = d7" "r1 = Inr ()" "r2 = Inr ()" "r3 = Inr ()"
    using run 2 3 4 5 6 7 by (cases r1; cases r2; cases r3; cases r4; cases r5; cases r6) auto
  then show ?thesis
    using p1(1) p2(1) p3(1) p4 p5 p6 p7 by cases auto
qed

text \<open>Writing the report replaces the old one completely or not at all, whichever call on the disk fails: what the file
  holds afterwards is what it held before or the new report with its line break.\<close>

theorem report_replaced_atomically:
  assumes run: "write_last_game_session_at cd ticket path outcome dk = (dk', r)"
    and tmp: "\<And>t. report_temporary path t \<noteq> path"
  shows "dk_files dk' path = dk_files dk path \<or> dk_files dk' path = Some (rc_print cd outcome @ [LF], 384)"
proof (cases "path_parent path = None")
  case True
  with run show ?thesis by (simp add: write_last_game_session_at_def)
next
  case False
  obtain d1 r1 where 1: "disk_note dk = (d1, r1)" by fastforce
  obtain d2 r2 where 2: "disk_note d1 = (d2, r2)" by fastforce
  have same: "dk_files d1 = dk_files dk" "dk_files d2 = dk_files dk" using disk_note_effect [OF 1] disk_note_effect [OF 2] by auto
  show ?thesis
  proof (cases "\<exists>t. r1 = Inr () \<and> r2 = Inr () \<and> ticket = Inr t")
    case False
    with run \<open>path_parent path \<noteq> None\<close> 1 2 same show ?thesis
      by (cases r1; cases r2; cases ticket) (auto simp: write_last_game_session_at_def)
  next
    case True
    then obtain t where t: "r1 = Inr ()" "r2 = Inr ()" "ticket = Inr t" by blast
    obtain d3 r3 where 3: "publish_report cd (report_temporary path t) path outcome d2 = (d3, r3)" by fastforce
    have "dk_files (fst (disk_remove p d)) path = dk_files d path" if "p \<noteq> path" for p d
      using that disk_remove_cases(1) [of p d] by (metis prod.collapse)
    with publish_report_effect [OF 3 tmp] tmp [of t] run \<open>path_parent path \<noteq> None\<close> 1 2 3 t same show ?thesis
      by (cases r3) (auto simp: write_last_game_session_at_def)
  qed
qed

lemma quiet_calls:
  "dk_faults dk = [] \<Longrightarrow> disk_note dk = (dk, Inr ())"
  "dk_faults dk = [] \<Longrightarrow> dk_files dk p = None \<Longrightarrow>
     disk_create_new p dk = (dk\<lparr>dk_files := (dk_files dk)(p \<mapsto> ([], 384))\<rparr>, Inr ())"
  "dk_faults dk = [] \<Longrightarrow> dk_files dk p = Some (c, m) \<Longrightarrow>
     disk_append p bytes dk = (dk\<lparr>dk_files := (dk_files dk)(p \<mapsto> (c @ bytes, m))\<rparr>, Inr ())"
  "dk_faults dk = [] \<Longrightarrow> dk_files dk p = Some f \<Longrightarrow>
     disk_rename p q dk = (dk\<lparr>dk_files := (dk_files dk)(p := None, q \<mapsto> f)\<rparr>, Inr ())"
  by (simp_all add: disk_note_def disk_create_new_def disk_append_def disk_rename_def disk_call_def file_at_def)

lemma write_report_quiet:
  assumes "dk_faults dk = []" "path_parent path \<noteq> None" "dk_files dk (report_temporary path t) = None"
  shows "\<exists>dk'. write_last_game_session_at cd (Inr t) path outcome dk = (dk', Inr ())
    \<and> dk_faults dk' = [] \<and> dk_files dk' path = Some (rc_print cd outcome @ [LF], 384)"
  using assms by (auto simp: write_last_game_session_at_def publish_report_def quiet_calls)

lemma read_report_quiet:
  assumes "dk_faults dk = []" "dk_files dk path = Some (bytes, m)" "length bytes \<le> LAST_SESSION_MAX_BYTES"
    and "rc_parse cd bytes = Inr outcome"
  shows "\<exists>dk'. read_last_game_session_at cd path dk = (dk', Inr (if valid_last_game_session outcome then Some outcome else None))
    \<and> (dk_files dk' path = None \<longleftrightarrow> \<not> valid_last_game_session outcome)"
  using assms
  by (auto simp: read_last_game_session_at_def disk_call_def file_at_def disk_read_def discard_report_def disk_remove_def)

text \<open>C35. On a disk that does not fail, a report that was written is read back as it was, if it is believed; otherwise it is
  removed and there is none. The codec reads what it printed, with the line break, and the text fits 64 KiB.\<close>

theorem report_read_back:
  assumes quiet: "dk_faults dk = []" and parent: "path_parent path \<noteq> None"
    and fresh: "dk_files dk (report_temporary path t) = None"
    and codec: "rc_parse cd (rc_print cd outcome @ [LF]) = Inr outcome"
    and size: "length (rc_print cd outcome) < LAST_SESSION_MAX_BYTES"
  shows "\<exists>dk1 dk2. write_last_game_session_at cd (Inr t) path outcome dk = (dk1, Inr ())
    \<and> read_last_game_session_at cd path dk1 = (dk2, Inr (if valid_last_game_session outcome then Some outcome else None))
    \<and> (dk_files dk2 path = None \<longleftrightarrow> \<not> valid_last_game_session outcome)"
proof -
  from write_report_quiet [OF quiet parent fresh] obtain dk1
    where 1: "write_last_game_session_at cd (Inr t) path outcome dk = (dk1, Inr ())" "dk_faults dk1 = []"
      "dk_files dk1 path = Some (rc_print cd outcome @ [LF], 384)" by blast
  from read_report_quiet [OF 1(2,3) _ codec] size 1(1) show ?thesis by auto
qed

text \<open>The report of a session whose profile cannot be loaded is not believed when the name of its file is longer than 160
  characters: the name is not cut, so reading removes the report, and the failure it tells is lost.\<close>

lemma long_name_report_lost:
  assumes "load (case resolve profile_path of Some p \<Rightarrow> p | None \<Rightarrow> profile_path) = None"
    and "file_stem (case resolve profile_path of Some p \<Rightarrow> p | None \<Rightarrow> profile_path) = Some stem" "utf8 stem"
    and "160 < length (str_chars stem)"
  shows "\<not> valid_last_game_session (session_outcome_from_result resolve load utf8 profile_path pid now (Inl err))"
  using assms by (simp add: session_outcome_from_result_def session_outcome_def valid_last_game_session_def Let_def)

section \<open>Concrete runs\<close>

definition sample_outcome :: last_session where
  "sample_outcome =
     session_outcome_from_result (\<lambda>p. Some p) (\<lambda>_. Some (''Game'', ''com.game'')) (\<lambda>_. True) ''/p/a.json'' 7 1 (Inl [''no'', ''why''])"

definition sample_codec :: report_codec where
  "sample_codec = \<lparr>rc_print = (\<lambda>_. ''{}''), rc_parse = (\<lambda>_. Inr sample_outcome)\<rparr>"

definition report_path :: string where "report_path = ''/s/wroid/last-game-session.json''"

lemma report_temporary_differs: "report_temporary report_path t \<noteq> report_path"
proof -
  have "path_parent report_path \<noteq> None" "path_join (case path_parent report_path of Some d \<Rightarrow> path_text d | None \<Rightarrow> []) [CHR ''.''] = ''/s/wroid/.''"
    by code_simp+
  moreover have "is_absolute (''.'' @ LAST_SESSION_FILE @ ''.'' @ t @ ''.tmp'') = False" by (simp add: is_absolute_def)
  moreover have "(case path_parent report_path of Some d \<Rightarrow> path_text d | None \<Rightarrow> []) = ''/s/wroid''" by code_simp
  ultimately show ?thesis
    by (simp add: report_temporary_def path_join_def report_path_def)
qed

lemma worker_outcome_believed_witness: "valid_last_game_session sample_outcome"
proof -
  let ?r = "undefined\<lparr>ur_engine := engine_new (metrics_new ()), ur_aims := [], ur_pipeline := [], ur_kernel := [], ur_rejected := 0\<rparr>
    :: unit metrics_injector unified_runtime"
  have "samples_ok []" by (simp add: samples_ok_def)
  moreover have "gr_frames_submitted (runtime_report ?r) = 0" "gr_recenters (runtime_report ?r) = 0"
    "gr_rejected_timestamps (runtime_report ?r) = 0" "gr_peak_contacts (runtime_report ?r) = 0"
    by (simp_all add: runtime_report_def Let_def metrics_new_def engine_new_def to_u64_def)
  ultimately show ?thesis
    unfolding sample_outcome_def
    using worker_outcome_believed [where r = ?r and pid = 7 and resolved = "''/p/a.json''" and resolve = "\<lambda>p. Some p"
        and profile_path = "''/p/a.json''" and load = "\<lambda>_. Some (''Game'', ''com.game'')" and ?utf8.0 = "\<lambda>_. True"
        and result = "Inl [''no'', ''why'']" and err = "[''no'', ''why'']" and now = 1]
    by simp
qed

definition empty_disk :: disk where "empty_disk = \<lparr>dk_files = (\<lambda>_. None), dk_faults = []\<rparr>"

lemma report_replaced_atomically_witness:
  "dk_files (fst (write_last_game_session_at sample_codec (Inr ''00'') report_path sample_outcome empty_disk)) report_path
     \<in> {None, Some (''{}'' @ [LF], 384)}"
  using report_replaced_atomically [of sample_codec "Inr ''00''" report_path sample_outcome empty_disk, OF _ report_temporary_differs]
  by (cases "write_last_game_session_at sample_codec (Inr ''00'') report_path sample_outcome empty_disk")
    (auto simp: sample_codec_def empty_disk_def)

lemma report_read_back_witness:
  "\<exists>dk1 dk2. write_last_game_session_at sample_codec (Inr ''00'') report_path sample_outcome empty_disk = (dk1, Inr ())
    \<and> read_last_game_session_at sample_codec report_path dk1
        = (dk2, Inr (if valid_last_game_session sample_outcome then Some sample_outcome else None))"
proof -
  have "path_parent report_path \<noteq> None" by code_simp
  with report_read_back [of empty_disk report_path "''00''" sample_codec sample_outcome] show ?thesis
    by (auto simp: empty_disk_def sample_codec_def LAST_SESSION_MAX_BYTES_def)
qed

end
