(* ===== verification/ActiveSession.thy ===== *)
theory ActiveSession
  imports ReportSpec
begin

text \<open>
  The record of the running game session and how another process stops it, from
  \<^verbatim>\<open>wroid-cli/src/commands/launch_v2.rs\<close>. A process is named by its number, which the kernel reuses; the
  record therefore also has its start time and executable, and the signal goes through a process descriptor. The
  process table is a parameter that may change at every look at it.
\<close>

section \<open>Processes\<close>

text \<open>\<open>pr_birth\<close> tells processes apart; \<open>pr_stat\<close> and \<open>pr_cmdline\<close> are the files of \<^verbatim>\<open>/proc\<close>.\<close>

record process =
  pr_birth :: nat
  pr_uid :: u32
  pr_stat :: string
  pr_executable :: string
  pr_cmdline :: string

record active_env =
  ae_process :: "nat \<Rightarrow> u32 \<rightharpoonup> process" \<comment> \<open>the table at the \<open>n\<close>-th look\<close>
  ae_uid :: "nat \<Rightarrow> u32 option" \<comment> \<open>what the \<open>n\<close>-th read of our own status says\<close>
  ae_open :: "nat \<Rightarrow> os_error option" \<comment> \<open>why the \<open>n\<close>-th call for a descriptor fails when the process is there\<close>
  ae_signal :: "nat \<Rightarrow> os_error option"
  ae_runtime_dir :: "string option"

record active_session_record =
  ar_version :: u32
  ar_pid :: u32
  ar_start_ticks :: u64
  ar_executable :: string
  ar_profile_name :: string
  ar_package_name :: string
  ar_started :: u64

record active_codec =
  ac_print :: "active_session_record \<Rightarrow> string"
  ac_parse :: "string \<Rightarrow> active_session_record option"

record active_world =
  aw_disk :: disk
  aw_looks :: nat
  aw_signalled :: "process list" \<comment> \<open>who got a signal\<close>
  aw_slept :: nat

definition ACTIVE_SESSION_VERSION :: u32 where "ACTIVE_SESSION_VERSION = 1"
definition ACTIVE_SESSION_FILE :: string where "ACTIVE_SESSION_FILE = ''active-session.json''"
definition STOP_WAIT_ATTEMPTS :: nat where "STOP_WAIT_ATTEMPTS = 30"

definition next_look :: "active_world \<Rightarrow> active_world" where "next_look w = w\<lparr>aw_looks := Suc (aw_looks w)\<rparr>"

definition look_up :: "active_env \<Rightarrow> u32 \<Rightarrow> active_world \<Rightarrow> process option" where
  "look_up env pid w = ae_process env (aw_looks w) pid"

text \<open>\<open>rsplit_once\<close>: what follows the last occurrence of the separator.\<close>

fun after_last :: "string \<Rightarrow> string \<Rightarrow> string option" where
  "after_last sep [] = None"
| "after_last sep (c # cs) =
     (case after_last sep cs of
        Some rest \<Rightarrow> Some rest
      | None \<Rightarrow> if prefix sep (c # cs) then Some (drop (length sep) (c # cs)) else None)"

definition parse_process_start_ticks :: "string \<Rightarrow> u64 option" where
  "parse_process_start_ticks stat =
     Option.bind (after_last '') '' stat) (\<lambda>after_name.
       let fields = split_whitespace after_name
       in if 19 < length fields then map_option of_nat (parse_unsigned (2 ^ 64) (fields ! 19)) else None)"

definition read_process_start_ticks :: "active_env \<Rightarrow> u32 \<Rightarrow> active_world \<Rightarrow> u64 option" where
  "read_process_start_ticks env pid w = Option.bind (look_up env pid w) (\<lambda>p. parse_process_start_ticks (pr_stat p))"

fun split_zero :: "string \<Rightarrow> string list" where
  "split_zero [] = [[]]"
| "split_zero (c # cs) =
     (if c = CHR 0x00 then [] # split_zero cs
      else case split_zero cs of [] \<Rightarrow> [[c]] | part # parts \<Rightarrow> (c # part) # parts)"

definition process_is_launch_v2 :: "string \<Rightarrow> bool" where
  "process_is_launch_v2 cmdline \<longleftrightarrow> (case split_zero cmdline of _ # argument # _ \<Rightarrow> argument = ''launch-v2'' | _ \<Rightarrow> False)"

text \<open>Five looks, of which each may see another process under the number: our own user, the owner, the start time, the
  executable and the command line.\<close>

definition process_matches_record :: "active_env \<Rightarrow> active_session_record \<Rightarrow> active_world \<Rightarrow> active_world \<times> bool" where
  "process_matches_record env rec w0 =
     (if ar_pid rec = 0 \<or> 2147483647 < ar_pid rec then (w0, False)
      else
        let current_uid = (case ae_uid env (aw_looks w0) of Some uid \<Rightarrow> uid | None \<Rightarrow> - 1); w1 = next_look w0
        in if map_option pr_uid (look_up env (ar_pid rec) w1) \<noteq> Some current_uid then (next_look w1, False)
        else let w2 = next_look w1
             in if read_process_start_ticks env (ar_pid rec) w2 \<noteq> Some (ar_start_ticks rec) then (next_look w2, False)
        else let w3 = next_look w2
             in if map_option pr_executable (look_up env (ar_pid rec) w3) \<noteq> Some (ar_executable rec) then (next_look w3, False)
        else let w4 = next_look w3
             in (next_look w4, case look_up env (ar_pid rec) w4 of
                   None \<Rightarrow> False | Some p \<Rightarrow> process_is_launch_v2 (pr_cmdline p)))"

section \<open>The file of the record\<close>

definition active_session_path :: "active_env \<Rightarrow> anyhow + string" where
  "active_session_path env =
     (case ae_runtime_dir env of
        None \<Rightarrow> Inl [''XDG_RUNTIME_DIR is unavailable for active game session state'']
      | Some d \<Rightarrow> if d = [] then Inl [''XDG_RUNTIME_DIR is unavailable for active game session state'']
                  else Inr (path_join (path_join d ''wroid'') ACTIVE_SESSION_FILE))"

definition on_active_disk :: "(disk \<Rightarrow> 'a disk_st) \<Rightarrow> active_world \<Rightarrow> active_world \<times> (os_error + 'a)" where
  "on_active_disk f w = (case f (aw_disk w) of (dk, r) \<Rightarrow> (w\<lparr>aw_disk := dk\<rparr>, r))"

definition remove_active_session_if_matches_at ::
  "active_codec \<Rightarrow> string \<Rightarrow> active_session_record \<Rightarrow> active_world \<Rightarrow> active_world" where
  "remove_active_session_if_matches_at cd path rec w =
     (case on_active_disk (disk_read path) w of
        (w1, Inl _) \<Rightarrow> w1
      | (w1, Inr bytes) \<Rightarrow>
          (case ac_parse cd bytes of
             None \<Rightarrow> w1
           | Some current \<Rightarrow>
               if ar_pid current = ar_pid rec \<and> ar_start_ticks current = ar_start_ticks rec
               then fst (on_active_disk (disk_remove path) w1) else w1))"

definition remove_active_session_if_matches ::
  "active_env \<Rightarrow> active_codec \<Rightarrow> active_session_record \<Rightarrow> active_world \<Rightarrow> active_world" where
  "remove_active_session_if_matches env cd rec w =
     (case active_session_path env of Inl _ \<Rightarrow> w | Inr path \<Rightarrow> remove_active_session_if_matches_at cd path rec w)"

definition active_temporary :: "string \<Rightarrow> active_session_record \<Rightarrow> string" where
  "active_temporary directory rec =
     path_join directory (''.'' @ ACTIVE_SESSION_FILE @ ''.'' @ show_u32 (ar_pid rec) @ ''-''
       @ show_nat (unat (ar_start_ticks rec)) @ ''.tmp'')"

definition publish_active :: "active_codec \<Rightarrow> string \<Rightarrow> string \<Rightarrow> active_session_record \<Rightarrow> disk \<Rightarrow> unit disk_st" where
  "publish_active cd temporary path rec dk =
     andThen (disk_create_new temporary dk) (\<lambda>dk _.
     andThen (disk_append temporary (ac_print cd rec) dk) (\<lambda>dk _.
     andThen (disk_append temporary [LF] dk) (\<lambda>dk _.
     andThen (disk_note dk) (\<lambda>dk _. disk_rename temporary path dk))))"

definition write_active_session :: "active_codec \<Rightarrow> string \<Rightarrow> active_session_record \<Rightarrow> disk \<Rightarrow> unit disk_st" where
  "write_active_session cd path rec dk =
     (case path_parent path of
        None \<Rightarrow> (dk, Inl (OsError OtherKind ''active session path has no parent''))
      | Some d \<Rightarrow>
          andThen (disk_note dk) (\<lambda>dk _.
          andThen (disk_note dk) (\<lambda>dk _.
            case publish_active cd (active_temporary (path_text d) rec) path rec dk of
              (dk1, Inr _) \<Rightarrow> (dk1, Inr ())
            | (dk1, Inl err) \<Rightarrow> (fst (disk_remove (active_temporary (path_text d) rec) dk1), Inl err))))"

definition read_active_session ::
  "active_env \<Rightarrow> active_codec \<Rightarrow> active_world \<Rightarrow> active_world \<times> (anyhow + active_session_record option)" where
  "read_active_session env cd w =
     (case active_session_path env of
        Inl err \<Rightarrow> (w, Inl err)
      | Inr path \<Rightarrow>
          (case on_active_disk (disk_read path) w of
             (w1, Inl err) \<Rightarrow>
               (w1, if err_kind err = NotFound then Inr None else Inl [''failed to read '' @ path, err_text err])
           | (w1, Inr bytes) \<Rightarrow>
               (case ac_parse cd bytes of
                  None \<Rightarrow> (fst (on_active_disk (disk_remove path) w1), Inr None)
                | Some rec \<Rightarrow>
                    if ar_version rec \<noteq> ACTIVE_SESSION_VERSION
                    then (remove_active_session_if_matches_at cd path rec w1, Inr None)
                    else (case process_matches_record env rec w1 of
                            (w2, False) \<Rightarrow> (remove_active_session_if_matches_at cd path rec w2, Inr None)
                          | (w2, True) \<Rightarrow> (w2, Inr (Some rec))))))"

text \<open>The worker registers itself; \<open>exe\<close> is what \<open>current_exe\<close> and \<open>canonicalize\<close> answer. Dropping the guard
  removes the record if it is still the worker's own.\<close>

definition new_active_record :: "u32 \<Rightarrow> u64 \<Rightarrow> string \<Rightarrow> string \<Rightarrow> string \<Rightarrow> u64 \<Rightarrow> active_session_record" where
  "new_active_record pid ticks executable profile package now =
     \<lparr>ar_version = ACTIVE_SESSION_VERSION, ar_pid = pid, ar_start_ticks = ticks, ar_executable = executable,
      ar_profile_name = take_chars 160 profile, ar_package_name = take_chars 255 package, ar_started = now\<rparr>"

definition active_session_register ::
  "active_env \<Rightarrow> active_codec \<Rightarrow> u32 \<Rightarrow> anyhow + string \<Rightarrow> u64 \<Rightarrow> string \<Rightarrow> string \<Rightarrow> active_world
     \<Rightarrow> active_world \<times> (anyhow + active_session_record \<times> string)" where
  "active_session_register env cd pid exe now profile package w =
     (case read_process_start_ticks env pid w of
        None \<Rightarrow> (next_look w, Inl [''failed to identify the game session process''])
      | Some ticks \<Rightarrow>
          (case exe of
             Inl err \<Rightarrow> (next_look w, Inl err)
           | Inr executable \<Rightarrow>
               let rec = new_active_record pid ticks executable profile package now
               in (case active_session_path env of
                     Inl err \<Rightarrow> (next_look w, Inl err)
                   | Inr path \<Rightarrow>
                       (case on_active_disk (write_active_session cd path rec) (next_look w) of
                          (w1, Inl err) \<Rightarrow> (w1, Inl [err_text err])
                        | (w1, Inr _) \<Rightarrow> (w1, Inr (rec, path))))))"

definition active_session_drop :: "active_codec \<Rightarrow> active_session_record \<times> string \<Rightarrow> active_world \<Rightarrow> active_world" where
  "active_session_drop cd guard w = remove_active_session_if_matches_at cd (snd guard) (fst guard) w"

section \<open>Who owns a session\<close>

record active_game_session_state =
  ag_owner :: "string option"
  ag_can_stop :: bool

definition DEFAULT_WAYDROID_BRIDGE_LOCK :: string where "DEFAULT_WAYDROID_BRIDGE_LOCK = ''/run/wroid/input-bridge.lock''"

text \<open>What opening and locking a lease file answers: \<open>Inr None\<close> when there is no file.\<close>

definition lease_owner_at :: "string \<Rightarrow> os_error + lease_file option \<Rightarrow> anyhow + string option" where
  "lease_owner_at context lease =
     (case lease of
        Inl err \<Rightarrow> if err_kind err = NotFound then Inr None else Inl [context, err_text err]
      | Inr None \<Rightarrow> Inr None
      | Inr (Some lf) \<Rightarrow> Inr (active_lease_owner lf))"

definition optional_launch_lease_path :: "active_env \<Rightarrow> string option" where
  "optional_launch_lease_path env =
     (case ae_runtime_dir env of
        None \<Rightarrow> None
      | Some d \<Rightarrow> if d = [] then None else Some (path_join (path_join d ''wroid'') ''game-launch.lock''))"

definition launch_lease_path :: "active_env \<Rightarrow> anyhow + string" where
  "launch_lease_path env =
     (case optional_launch_lease_path env of
        None \<Rightarrow> Inl [''XDG_RUNTIME_DIR is unavailable for the game launcher''] | Some p \<Rightarrow> Inr p)"

definition active_launch_lease_owner ::
  "active_env \<Rightarrow> (string \<Rightarrow> os_error + lease_file option) \<Rightarrow> anyhow + string option" where
  "active_launch_lease_owner env leases =
     (case optional_launch_lease_path env of
        None \<Rightarrow> Inr None
      | Some p \<Rightarrow> lease_owner_at ''failed to inspect the desktop game launcher lease'' (leases p))"

definition active_game_session_state_of ::
  "active_env \<Rightarrow> active_codec \<Rightarrow> (string \<Rightarrow> os_error + lease_file option) \<Rightarrow> active_world
     \<Rightarrow> active_world \<times> (anyhow + active_game_session_state)" where
  "active_game_session_state_of env cd leases w =
     (case read_active_session env cd w of
        (w1, Inl err) \<Rightarrow> (w1, Inl err)
      | (w1, Inr (Some rec)) \<Rightarrow>
          (w1, Inr \<lparr>ag_owner = Some (''PID '' @ show_u32 (ar_pid rec) @ '' '' @ [CHR 0xC2, CHR 0xB7] @ '' '' @ ar_profile_name rec),
                    ag_can_stop = True\<rparr>)
      | (w1, Inr None) \<Rightarrow>
          (case lease_owner_at ''failed to inspect the Wroid input bridge lease'' (leases DEFAULT_WAYDROID_BRIDGE_LOCK) of
             Inl err \<Rightarrow> (w1, Inl err)
           | Inr (Some owner) \<Rightarrow> (w1, Inr \<lparr>ag_owner = Some owner, ag_can_stop = False\<rparr>)
           | Inr None \<Rightarrow>
               (w1, map_sum id (\<lambda>owner. \<lparr>ag_owner = owner, ag_can_stop = False\<rparr>) (active_launch_lease_owner env leases))))"

definition active_game_session_owner ::
  "active_env \<Rightarrow> active_codec \<Rightarrow> (string \<Rightarrow> os_error + lease_file option) \<Rightarrow> active_world
     \<Rightarrow> active_world \<times> (anyhow + string option)" where
  "active_game_session_owner env cd leases w =
     (case active_game_session_state_of env cd leases w of (w1, r) \<Rightarrow> (w1, map_sum id ag_owner r))"

definition ensure_input_bridge_available :: "(string \<Rightarrow> os_error + lease_file option) \<Rightarrow> anyhow + unit" where
  "ensure_input_bridge_available leases =
     (case lease_owner_at ''failed to inspect the Wroid input bridge lease'' (leases DEFAULT_WAYDROID_BRIDGE_LOCK) of
        Inl err \<Rightarrow> Inl err
      | Inr (Some owner) \<Rightarrow> Inl [''another Wroid game session is already active ('' @ owner
          @ ''); stop it with Ctrl+Esc before launching another game'']
      | Inr None \<Rightarrow> Inr ())"

section \<open>Stopping the session\<close>

text \<open>Opening a descriptor for a number: it stays with the process that has the number now. \<open>None\<close> is \<open>ESRCH\<close>.\<close>

datatype 'a open_result = OpenedProcess 'a | NoSuchProcess | OpenFailed anyhow

definition open_validated_process_fd ::
  "active_env \<Rightarrow> active_session_record \<Rightarrow> active_world \<Rightarrow> active_world \<times> process open_result" where
  "open_validated_process_fd env rec w =
     (if 2147483647 < ar_pid rec then (w, OpenFailed [''active game PID is out of range''])
      else case look_up env (ar_pid rec) w of
             None \<Rightarrow> (next_look w, NoSuchProcess)
           | Some p \<Rightarrow>
               (case ae_open env (aw_looks w) of
                  Some err \<Rightarrow> (next_look w, OpenFailed [''failed to open the active game process'', err_text err])
                | None \<Rightarrow>
                    (case process_matches_record env rec (next_look w) of
                       (w1, False) \<Rightarrow> (w1, OpenFailed [''the active game process changed before it could be stopped''])
                     | (w1, True) \<Rightarrow> (w1, OpenedProcess p))))"

text \<open>The signal through the descriptor reaches that process if it is still there, nobody otherwise (\<open>ESRCH\<close>).\<close>

definition send_stop_signal :: "active_env \<Rightarrow> u32 \<Rightarrow> process \<Rightarrow> active_world \<Rightarrow> active_world \<times> (anyhow + unit)" where
  "send_stop_signal env pid p w =
     (if map_option pr_birth (look_up env pid w) \<noteq> Some (pr_birth p) then (next_look w, Inr ())
      else case ae_signal env (aw_looks w) of
             Some err \<Rightarrow> (next_look w, Inl [''failed to request game session stop'', err_text err])
           | None \<Rightarrow> (next_look w\<lparr>aw_signalled := aw_signalled w @ [p]\<rparr>, Inr ()))"

fun stop_wait :: "active_env \<Rightarrow> active_codec \<Rightarrow> active_session_record \<Rightarrow> nat \<Rightarrow> active_world \<Rightarrow> active_world \<times> string" where
  "stop_wait env cd rec 0 w =
     (w, ''Stop requested for '' @ ar_profile_name rec @ ''; cleanup is still finishing'')"
| "stop_wait env cd rec (Suc n) w =
     (case process_matches_record env rec w of
        (w1, False) \<Rightarrow> (remove_active_session_if_matches env cd rec w1, ''Stopped '' @ ar_profile_name rec)
      | (w1, True) \<Rightarrow> stop_wait env cd rec n (w1\<lparr>aw_slept := aw_slept w1 + 100000000\<rparr>))"

definition stop_active_game_session ::
  "active_env \<Rightarrow> active_codec \<Rightarrow> active_world \<Rightarrow> active_world \<times> (anyhow + string)" where
  "stop_active_game_session env cd w =
     (case read_active_session env cd w of
        (w1, Inl err) \<Rightarrow> (w1, Inl err)
      | (w1, Inr None) \<Rightarrow> (w1, Inl [''no background Wroid game session is active''])
      | (w1, Inr (Some rec)) \<Rightarrow>
          (case open_validated_process_fd env rec w1 of
             (w2, NoSuchProcess) \<Rightarrow>
               (remove_active_session_if_matches env cd rec w2, Inr (ar_profile_name rec @ '' was already stopped''))
           | (w2, OpenFailed err) \<Rightarrow> (w2, Inl err)
           | (w2, OpenedProcess p) \<Rightarrow>
               (case send_stop_signal env (ar_pid rec) p w2 of
                  (w3, Inl err) \<Rightarrow> (w3, Inl err)
                | (w3, Inr _) \<Rightarrow>
                    (case stop_wait env cd rec STOP_WAIT_ATTEMPTS w3 of (w4, msg) \<Rightarrow> (w4, Inr msg)))))"

section \<open>Who is stopped\<close>

text \<open>What the kernel promises: a process that has a number at two looks has it at every look in between.\<close>

definition lasting :: "active_env \<Rightarrow> bool" where
  "lasting env \<longleftrightarrow>
     (\<forall>a b c pid p q. a \<le> b \<and> b \<le> c \<and> ae_process env a pid = Some p \<and> ae_process env c pid = Some q
        \<and> pr_birth p = pr_birth q \<longrightarrow> (\<exists>s. ae_process env b pid = Some s \<and> pr_birth s = pr_birth p))"

text \<open>The process was seen to be the recorded worker: ours, started when the record says, running the recorded executable
  as \<open>launch-v2\<close>. Each was seen at a look of its own.\<close>

definition seen_as_worker :: "active_env \<Rightarrow> active_session_record \<Rightarrow> process \<Rightarrow> bool" where
  "seen_as_worker env rec p \<longleftrightarrow>
     (\<exists>n a b c d. ae_process env (n + 1) (ar_pid rec) = Some a \<and> ae_process env (n + 2) (ar_pid rec) = Some b
        \<and> ae_process env (n + 3) (ar_pid rec) = Some c \<and> ae_process env (n + 4) (ar_pid rec) = Some d
        \<and> {pr_birth a, pr_birth b, pr_birth c, pr_birth d} = {pr_birth p}
        \<and> pr_uid a = (case ae_uid env n of Some uid \<Rightarrow> uid | None \<Rightarrow> - 1)
        \<and> parse_process_start_ticks (pr_stat b) = Some (ar_start_ticks rec)
        \<and> pr_executable c = ar_executable rec \<and> process_is_launch_v2 (pr_cmdline d))"

lemma matches_frame:
  assumes "process_matches_record env rec w = (w', m)"
  shows "aw_signalled w' = aw_signalled w" "aw_disk w' = aw_disk w" "aw_looks w \<le> aw_looks w'"
  using assms by (auto simp: process_matches_record_def Let_def next_look_def split: if_splits)

lemma matches_true:
  assumes "process_matches_record env rec w = (w', True)"
  obtains a b c d where
    "ae_process env (aw_looks w + 1) (ar_pid rec) = Some a" "pr_uid a = (case ae_uid env (aw_looks w) of Some uid \<Rightarrow> uid | None \<Rightarrow> - 1)"
    "ae_process env (aw_looks w + 2) (ar_pid rec) = Some b" "parse_process_start_ticks (pr_stat b) = Some (ar_start_ticks rec)"
    "ae_process env (aw_looks w + 3) (ar_pid rec) = Some c" "pr_executable c = ar_executable rec"
    "ae_process env (aw_looks w + 4) (ar_pid rec) = Some d" "process_is_launch_v2 (pr_cmdline d)"
    "aw_looks w' = aw_looks w + 5"
proof -
  note run = assms [unfolded process_matches_record_def Let_def]
  show thesis
    using run
    by (intro that [of "the (look_up env (ar_pid rec) (next_look w))"
          "the (look_up env (ar_pid rec) (next_look (next_look w)))"
          "the (look_up env (ar_pid rec) (next_look (next_look (next_look w))))"
          "the (look_up env (ar_pid rec) (next_look (next_look (next_look (next_look w)))))"])
      (auto simp: look_up_def next_look_def read_process_start_ticks_def bind_eq_Some_conv eval_nat_numeral
        split: if_splits option.splits)
qed

lemma on_active_disk_frame:
  "on_active_disk f w = (w', r) \<Longrightarrow> aw_signalled w' = aw_signalled w \<and> aw_looks w' = aw_looks w"
  by (auto simp: on_active_disk_def split: prod.splits)

lemma remove_active_at_frame:
  "aw_signalled (remove_active_session_if_matches_at cd path rec w) = aw_signalled w"
proof -
  obtain w1 r where 1: "on_active_disk (disk_read path) w = (w1, r)" by fastforce
  obtain w2 q where 2: "on_active_disk (disk_remove path) w1 = (w2, q)" by fastforce
  show ?thesis
    using 1 2 on_active_disk_frame [OF 1] on_active_disk_frame [OF 2]
    by (auto simp: remove_active_session_if_matches_at_def split: sum.split option.split)
qed

lemma remove_active_frame: "aw_signalled (remove_active_session_if_matches env cd rec w) = aw_signalled w"
  by (simp add: remove_active_session_if_matches_def remove_active_at_frame split: sum.split)

lemma read_active_frame:
  assumes "read_active_session env cd w = (w', r)"
  shows "aw_signalled w' = aw_signalled w"
proof (cases "active_session_path env")
  case (Inl e)
  with assms show ?thesis by (auto simp: read_active_session_def)
next
  case (Inr path)
  obtain w1 b where 1: "on_active_disk (disk_read path) w = (w1, b)" by fastforce
  obtain w2 q where 2: "on_active_disk (disk_remove path) w1 = (w2, q)" by fastforce
  note f1 = on_active_disk_frame [OF 1] and f2 = on_active_disk_frame [OF 2]
  show ?thesis
  proof (cases b)
    case (Inl e)
    with assms Inr 1 f1 show ?thesis by (auto simp: read_active_session_def)
  next
    case b: (Inr bytes)
    show ?thesis
    proof (cases "ac_parse cd bytes")
      case None
      with assms Inr 1 2 b f1 f2 show ?thesis by (auto simp: read_active_session_def)
    next
      case (Some rec)
      obtain w3 m where 3: "process_matches_record env rec w1 = (w3, m)" by fastforce
      with assms Inr 1 b Some f1 matches_frame(1) [OF 3] show ?thesis
        by (cases m) (auto simp: read_active_session_def remove_active_at_frame split: if_splits)
    qed
  qed
qed

lemma stop_wait_frame: "aw_signalled (fst (stop_wait env cd rec n w)) = aw_signalled w"
proof (induction n arbitrary: w)
  case (Suc n)
  obtain w1 m where 1: "process_matches_record env rec w = (w1, m)" by fastforce
  with matches_frame(1) [OF 1] Suc show ?case by (cases m) (simp_all add: remove_active_frame)
qed simp

lemma open_validated:
  assumes "open_validated_process_fd env rec w = (w', o')"
  shows "aw_signalled w' = aw_signalled w"
    "o' = OpenedProcess p \<Longrightarrow> look_up env (ar_pid rec) w = Some p \<and> process_matches_record env rec (next_look w) = (w', True)"
proof -
  obtain w1 m where 1: "process_matches_record env rec (next_look w) = (w1, m)" by fastforce
  have "aw_signalled (next_look w) = aw_signalled w" by (simp add: next_look_def)
  with assms 1 matches_frame(1) [OF 1]
  show "aw_signalled w' = aw_signalled w"
    "o' = OpenedProcess p \<Longrightarrow> look_up env (ar_pid rec) w = Some p \<and> process_matches_record env rec (next_look w) = (w', True)"
    by (auto simp: open_validated_process_fd_def split: if_splits option.splits bool.splits)
qed

text \<open>A process that has its number before and after the five looks was seen at each of them.\<close>

lemma seen_between:
  assumes lasting: "lasting env" and before: "look_up env (ar_pid rec) w = Some p"
    and match: "process_matches_record env rec (next_look w) = (w', True)"
    and after: "map_option pr_birth (look_up env (ar_pid rec) w') = Some (pr_birth p)"
  shows "seen_as_worker env rec p"
proof -
  let ?n = "aw_looks (next_look w)"
  have n: "?n = Suc (aw_looks w)" by (simp add: next_look_def)
  from matches_true [OF match] obtain a b c d where
    m: "ae_process env (?n + 1) (ar_pid rec) = Some a" "pr_uid a = (case ae_uid env ?n of Some uid \<Rightarrow> uid | None \<Rightarrow> - 1)"
    "ae_process env (?n + 2) (ar_pid rec) = Some b" "parse_process_start_ticks (pr_stat b) = Some (ar_start_ticks rec)"
    "ae_process env (?n + 3) (ar_pid rec) = Some c" "pr_executable c = ar_executable rec"
    "ae_process env (?n + 4) (ar_pid rec) = Some d" "process_is_launch_v2 (pr_cmdline d)"
    "aw_looks w' = ?n + 5"
    by blast
  from after m(9) obtain q where q: "ae_process env (?n + 5) (ar_pid rec) = Some q" "pr_birth q = pr_birth p"
    by (auto simp: look_up_def)
  have same: "pr_birth s = pr_birth p"
    if "ae_process env k (ar_pid rec) = Some s" "aw_looks w \<le> k" "k \<le> ?n + 5" for k s
  proof -
    have "\<exists>t. ae_process env k (ar_pid rec) = Some t \<and> pr_birth t = pr_birth p"
      using lasting [unfolded lasting_def, rule_format, of "aw_looks w" k "?n + 5" "ar_pid rec" p q] before q that(2,3)
      by (simp add: look_up_def)
    with that(1) show ?thesis by auto
  qed
  have births: "{pr_birth a, pr_birth b, pr_birth c, pr_birth d} = {pr_birth p}"
    using same [OF m(1)] same [OF m(3)] same [OF m(5)] same [OF m(7)] n by simp
  show ?thesis unfolding seen_as_worker_def
    by (rule exI [of _ ?n], rule exI [of _ a], rule exI [of _ b], rule exI [of _ c], rule exI [of _ d])
      (intro conjI m births)
qed

text \<open>C21. Stopping the active session signals at most one process, and only one that was seen to be the recorded worker
  after its descriptor was opened: our own, started at the recorded time, running the recorded executable as
  \<open>launch-v2\<close>. The number may be reused at any moment; the kernel only keeps a process's number while it lives.\<close>

theorem stop_reaches_only_the_worker:
  assumes lasting: "lasting env" and run: "stop_active_game_session env cd w = (w', r)" and none: "aw_signalled w = []"
  shows "aw_signalled w' = [] \<or> (\<exists>rec p. aw_signalled w' = [p] \<and> seen_as_worker env rec p)"
proof -
  obtain w1 r1 where 1: "read_active_session env cd w = (w1, r1)" by fastforce
  note s1 = read_active_frame [OF 1]
  show ?thesis
  proof (cases "\<exists>rec. r1 = Inr (Some rec)")
    case False
    with run 1 s1 none show ?thesis
      by (auto simp: stop_active_game_session_def split: sum.splits option.splits)
  next
    case True
    then obtain rec where rec: "r1 = Inr (Some rec)" by blast
    obtain w2 o' where 2: "open_validated_process_fd env rec w1 = (w2, o')" by fastforce
    note s2 = open_validated(1) [OF 2]
    show ?thesis
    proof (cases o')
      case (OpenedProcess p)
      from open_validated(2) [OF 2 this] have look: "look_up env (ar_pid rec) w1 = Some p"
        and match: "process_matches_record env rec (next_look w1) = (w2, True)" by blast+
      obtain w3 r3 where 3: "send_stop_signal env (ar_pid rec) p w2 = (w3, r3)" by fastforce
      obtain w4 msg where 4: "stop_wait env cd rec STOP_WAIT_ATTEMPTS w3 = (w4, msg)" by fastforce
      have s4: "aw_signalled w4 = aw_signalled w3" using stop_wait_frame [of env cd rec STOP_WAIT_ATTEMPTS w3] 4 by simp
      have s3: "aw_signalled w3 = [] \<or> aw_signalled w3 = [p] \<and> seen_as_worker env rec p"
      proof (cases "map_option pr_birth (look_up env (ar_pid rec) w2) = Some (pr_birth p)")
        case True
        with seen_between [OF lasting look match] 3 s1 s2 none show ?thesis
          by (auto simp: send_stop_signal_def next_look_def split: option.splits)
      next
        case False
        with 3 s1 s2 none show ?thesis by (auto simp: send_stop_signal_def next_look_def)
      qed
      have "w' = w3 \<or> w' = w4"
        using run 1 rec 2 OpenedProcess 3 4 by (cases r3) (auto simp: stop_active_game_session_def)
      with s3 s4 show ?thesis by auto
    next
      case NoSuchProcess
      with run 1 rec 2 s1 s2 none show ?thesis by (auto simp: stop_active_game_session_def remove_active_frame)
    next
      case (OpenFailed e)
      with run 1 rec 2 s1 s2 none show ?thesis by (auto simp: stop_active_game_session_def)
    qed
  qed
qed

section \<open>The record is found\<close>

text \<open>A process table that does not change, with the worker in it.\<close>

definition steady_worker :: "active_env \<Rightarrow> u32 \<Rightarrow> process \<Rightarrow> bool" where
  "steady_worker env pid p \<longleftrightarrow>
     (\<forall>n. ae_process env n pid = Some p \<and> ae_uid env n = Some (pr_uid p)) \<and> pid \<noteq> 0 \<and> pid \<le> 2147483647
       \<and> process_is_launch_v2 (pr_cmdline p)"

lemma steady_matches:
  assumes "steady_worker env pid p" "ar_pid rec = pid" "parse_process_start_ticks (pr_stat p) = Some (ar_start_ticks rec)"
    and "pr_executable p = ar_executable rec"
  shows "process_matches_record env rec w = (next_look (next_look (next_look (next_look (next_look w)))), True)"
  using assms by (simp add: steady_worker_def process_matches_record_def Let_def look_up_def read_process_start_ticks_def not_less)

lemma write_active_quiet:
  assumes "dk_faults dk = []" "path_parent path = Some d" "dk_files dk (active_temporary (path_text d) rec) = None"
  shows "\<exists>dk'. write_active_session cd path rec dk = (dk', Inr ()) \<and> dk_faults dk' = []
    \<and> dk_files dk' path = Some (ac_print cd rec @ [LF], 384)"
  using assms by (auto simp: write_active_session_def publish_active_def quiet_calls)

lemma disk_quiet:
  "dk_faults dk = [] \<Longrightarrow> dk_files dk p = Some (c, m) \<Longrightarrow> disk_read p dk = (dk, Inr c)"
  "dk_faults dk = [] \<Longrightarrow> dk_files dk p = None \<Longrightarrow>
     disk_read p dk = (dk, Inl (OsError NotFound ''No such file or directory''))"
  "dk_faults dk = [] \<Longrightarrow> dk_files dk p = Some f \<Longrightarrow>
     disk_remove p dk = (dk\<lparr>dk_files := (dk_files dk)(p := None)\<rparr>, Inr ())"
  by (simp_all add: disk_read_def disk_remove_def disk_call_def file_at_def)

text \<open>A worker that registered itself is found as the active session while it runs, by a reader of the same user;
  dropping the registration removes the record, and then there is no active session.\<close>

theorem registered_session_found:
  assumes quiet: "dk_faults (aw_disk w) = []" and steady: "steady_worker env pid p"
    and ticks: "parse_process_start_ticks (pr_stat p) = Some ticks"
    and written: "rec = new_active_record pid ticks (pr_executable p) profile package now"
    and path: "active_session_path env = Inr path" "path_parent path = Some d"
    and fresh: "dk_files (aw_disk w) (active_temporary (path_text d) rec) = None"
    and codec: "ac_parse cd (ac_print cd rec @ [LF]) = Some rec"
  shows "\<exists>w1 w2 w3. active_session_register env cd pid (Inr (pr_executable p)) now profile package w = (w1, Inr (rec, path))
    \<and> read_active_session env cd w1 = (w2, Inr (Some rec))
    \<and> read_active_session env cd (active_session_drop cd (rec, path) w1) = (w3, Inr None)"
proof -
  from write_active_quiet [OF quiet path(2) fresh] obtain dk' where
    dk: "write_active_session cd path rec (aw_disk w) = (dk', Inr ())" "dk_faults dk' = []"
      "dk_files dk' path = Some (ac_print cd rec @ [LF], 384)" by blast
  let ?w1 = "(next_look w)\<lparr>aw_disk := dk'\<rparr>"
  have reg: "active_session_register env cd pid (Inr (pr_executable p)) now profile package w = (?w1, Inr (rec, path))"
    using dk(1) path(1) ticks steady written
    by (simp add: active_session_register_def read_process_start_ticks_def look_up_def steady_worker_def on_active_disk_def
        next_look_def Let_def)
  have match: "process_matches_record env rec v = (next_look (next_look (next_look (next_look (next_look v)))), True)" for v
    by (rule steady_matches [OF steady]) (simp_all add: ticks written new_active_record_def)
  have "\<exists>w2. read_active_session env cd ?w1 = (w2, Inr (Some rec))"
    using path(1)
    by (simp add: read_active_session_def on_active_disk_def disk_quiet(1) [OF dk(2,3)] codec match)
      (simp add: written new_active_record_def)
  moreover have "\<exists>w3. read_active_session env cd (active_session_drop cd (rec, path) ?w1) = (w3, Inr None)"
    using path(1)
    by (simp add: active_session_drop_def remove_active_session_if_matches_at_def read_active_session_def
        on_active_disk_def disk_quiet(1,3) [OF dk(2,3)] disk_quiet(2) dk(2) codec)
  ultimately show ?thesis using reg by auto
qed

section \<open>Concrete runs\<close>

text \<open>A worker that is gone at the fourteenth look, after the signal.\<close>

definition sample_process :: process where
  "sample_process = \<lparr>pr_birth = 1, pr_uid = 1000,
     pr_stat = ''7 (wroid cli) S 1 7 7 0 -1 4194304 100 0 0 0 1 1 0 0 20 0 1 0 4242 0'',
     pr_executable = ''/usr/bin/wroid'', pr_cmdline = ''wroid'' @ [CHR 0x00] @ ''launch-v2'' @ [CHR 0x00]\<rparr>"

definition sample_active_env :: "nat \<Rightarrow> active_env" where
  "sample_active_env life = \<lparr>ae_process = (\<lambda>n pid. if pid = 7 \<and> n < life then Some sample_process else None), ae_uid = (\<lambda>_. Some 1000),
     ae_open = (\<lambda>_. None), ae_signal = (\<lambda>_. None), ae_runtime_dir = Some ''/run/user/1000''\<rparr>"

definition sample_active_record :: active_session_record where
  "sample_active_record = \<lparr>ar_version = 1, ar_pid = 7, ar_start_ticks = 4242, ar_executable = ''/usr/bin/wroid'',
     ar_profile_name = ''Game'', ar_package_name = ''com.game'', ar_started = 5\<rparr>"

definition sample_active_codec :: active_codec where
  "sample_active_codec = \<lparr>ac_print = (\<lambda>_. ''{}''), ac_parse = (\<lambda>_. Some sample_active_record)\<rparr>"

definition sample_active_world :: active_world where
  "sample_active_world = \<lparr>aw_disk = \<lparr>dk_files = [''/run/user/1000/wroid/active-session.json'' \<mapsto> (''{}'', 384)], dk_faults = []\<rparr>,
     aw_looks = 0, aw_signalled = [], aw_slept = 0\<rparr>"

lemma sample_ticks: "parse_process_start_ticks (pr_stat sample_process) = Some 4242" by code_simp

lemma sample_is_launch: "process_is_launch_v2 (pr_cmdline sample_process)" by code_simp

lemma sample_stop:
  "aw_signalled (fst (stop_active_game_session (sample_active_env 14) sample_active_codec sample_active_world)) = [sample_process]"
  by code_simp

lemma stop_reaches_only_the_worker_witness:
  "\<exists>rec p. aw_signalled (fst (stop_active_game_session (sample_active_env 14) sample_active_codec sample_active_world)) = [p]
     \<and> seen_as_worker (sample_active_env 14) rec p"
proof -
  have "lasting (sample_active_env 14)" by (auto simp: lasting_def sample_active_env_def split: if_splits)
  moreover have "aw_signalled sample_active_world = []" by (simp add: sample_active_world_def)
  ultimately show ?thesis
    using stop_reaches_only_the_worker [of "sample_active_env 14" sample_active_codec sample_active_world] sample_stop
    by (cases "stop_active_game_session (sample_active_env 14) sample_active_codec sample_active_world") auto
qed

lemma registered_session_found_witness:
  "let env = (sample_active_env 0)\<lparr>ae_process := (\<lambda>_ _. Some sample_process)\<rparr>;
       rec = new_active_record 7 4242 ''/usr/bin/wroid'' ''Game'' ''com.game'' 5;
       cd = sample_active_codec\<lparr>ac_parse := (\<lambda>_. Some rec)\<rparr>
   in \<exists>w1 w2 w3. active_session_register env cd 7 (Inr (pr_executable sample_process)) 5 ''Game'' ''com.game'' sample_active_world
        = (w1, Inr (rec, ''/run/user/1000/wroid/active-session.json''))
      \<and> read_active_session env cd w1 = (w2, Inr (Some rec))
      \<and> read_active_session env cd (active_session_drop cd (rec, ''/run/user/1000/wroid/active-session.json'') w1) = (w3, Inr None)"
proof -
  let ?env = "(sample_active_env 0)\<lparr>ae_process := (\<lambda>_ _. Some sample_process)\<rparr>"
  let ?rec = "new_active_record 7 4242 ''/usr/bin/wroid'' ''Game'' ''com.game'' 5"
  let ?cd = "sample_active_codec\<lparr>ac_parse := (\<lambda>_. Some ?rec)\<rparr>"
  let ?path = "''/run/user/1000/wroid/active-session.json''"
  have steady: "steady_worker ?env 7 sample_process"
    using sample_is_launch by (simp add: steady_worker_def sample_active_env_def sample_process_def)
  have path: "active_session_path ?env = Inr ?path" by code_simp
  have parent: "path_parent ?path = Some (path_components ''/run/user/1000/wroid'')" by code_simp
  have fresh: "dk_files (aw_disk sample_active_world) (active_temporary (path_text (path_components ''/run/user/1000/wroid'')) ?rec) = None"
    by code_simp
  have exe: "pr_executable sample_process = ''/usr/bin/wroid''" by (simp add: sample_process_def)
  show ?thesis
    unfolding Let_def
    by (rule registered_session_found [OF _ steady sample_ticks _ path parent fresh])
      (simp_all add: sample_active_world_def exe)
qed

end
