(* ===== verification/Upgrade.thy ===== *)
theory Upgrade
  imports Ipc Lifecycle
begin

text \<open>
  Starting the per-user daemon and replacing one of an older release, from
  \<^verbatim>\<open>wroid-cli/src/commands/runtime_daemon.rs\<close>. The old daemon is frozen while it is checked that it runs no game; a
  second process, the resume watchdog, wakes it if the upgrader dies meanwhile. The kernel and the daemon are a
  parameter whose answers may depend on everything that happened before.
\<close>

section \<open>What happens\<close>

datatype daemon_signal = SigStop | SigCont | SigTerm

datatype signal_answer = SignalSent | NoProcess | SignalRefused os_error

datatype upgrade_event =
    EvSignal daemon_signal
  | EvNoProcess daemon_signal \<comment> \<open>\<open>ESRCH\<close>, which counts as success\<close>
  | EvRefused daemon_signal
  | EvWatchdog \<comment> \<open>the resume watchdog was started\<close>
  | EvDisarmed \<comment> \<open>it was told that it is not needed\<close>
  | EvControlLost \<comment> \<open>telling it failed, which closes its channel\<close>
  | EvWatchdogKilled
  | EvState "string option" \<comment> \<open>the status file of the daemon, none when it is gone\<close>
  | EvChildren string
  | EvLook
  | EvAsked daemon_request
  | EvSpawned

type_synonym history = "upgrade_event list"
type_synonym 'a upgrade_st = "(history, anyhow, 'a) st"

record daemon_peer =
  dp_pid :: i32
  dp_uid :: u32

text \<open>\<open>poll\<close> on the descriptor of a process.\<close>

datatype poll_answer = PollReady bool \<comment> \<open>whether the events are those of an exit\<close>
  | PollTimeout | PollInterrupted | PollFailed os_error

record upgrade_env =
  ue_uid :: u32
  ue_ipc_text :: "ipc_error \<Rightarrow> string"
  ue_connect :: "history \<Rightarrow> ipc_error option"
  ue_request :: "history \<Rightarrow> daemon_request \<Rightarrow> ipc_error + daemon_result \<times> daemon_peer"
  ue_identity :: "history \<Rightarrow> string \<Rightarrow> os_error + bool \<times> u64 \<times> u64" \<comment> \<open>a regular file, device and inode\<close>
  ue_symlink_metadata :: "string \<Rightarrow> os_error + Worker.file_metadata"
  ue_is_file :: "string \<Rightarrow> bool"
  ue_current_exe :: "os_error + string"
  ue_var :: "string \<Rightarrow> string option"
  ue_gone :: "history \<Rightarrow> bool" \<comment> \<open>\<open>kill(pid, 0)\<close> answers \<open>ESRCH\<close>\<close>
  ue_exited :: "history \<Rightarrow> poll_answer"
  ue_exit_polls :: "history \<Rightarrow> (poll_answer \<times> nat) list" \<comment> \<open>the answers of a wait, and how long each takes\<close>
  ue_signal :: "history \<Rightarrow> daemon_signal \<Rightarrow> signal_answer"
  ue_state :: "history \<Rightarrow> os_error + string"
  ue_children :: "history \<Rightarrow> os_error + string"
  ue_delay :: "history \<Rightarrow> nat" \<comment> \<open>by how much a sleep is late\<close>
  ue_watchdog :: "history \<Rightarrow> anyhow option" \<comment> \<open>why the watchdog cannot be started\<close>
  ue_control :: "history \<Rightarrow> os_error option"
  ue_watchdog_status :: "history \<Rightarrow> os_error + exit_status option"
  ue_log :: "anyhow option" \<comment> \<open>why the log cannot be used\<close>
  ue_spawn :: "history \<Rightarrow> os_error option"
  ue_child :: "history \<Rightarrow> os_error + exit_status option"

definition START_ATTEMPTS :: nat where "START_ATTEMPTS = 40"
definition RELEASE_STOP_TIMEOUT :: nat where "RELEASE_STOP_TIMEOUT = 2000000000"
definition WATCHDOG_TIMEOUT :: nat where "WATCHDOG_TIMEOUT = 1000000000"
definition UPGRADE_POLL :: nat where "UPGRADE_POLL = 5000000"

section \<open>Signals and the resume watchdog\<close>

definition pidfd_send_signal :: "upgrade_env \<Rightarrow> daemon_signal \<Rightarrow> history \<Rightarrow> unit upgrade_st" where
  "pidfd_send_signal env s h =
     (case ue_signal env h s of
        SignalSent \<Rightarrow> (h @ [EvSignal s], Inr ())
      | NoProcess \<Rightarrow> (h @ [EvNoProcess s], Inr ())
      | SignalRefused err \<Rightarrow> (h @ [EvRefused s], Inl [err_text err]))"

text \<open>The watchdog's one read: the letter, the end of the channel, or an error.\<close>

definition watch_stopped_daemon :: "upgrade_env \<Rightarrow> os_error + char option \<Rightarrow> history \<Rightarrow> unit upgrade_st" where
  "watch_stopped_daemon env answer h =
     (case answer of
        Inr (Some c) \<Rightarrow>
          if c = CHR ''D'' then (h, Inr ())
          else andThen (pidfd_send_signal env SigCont h) (\<lambda>h1 _.
                 (h1, Inl [''stale-daemon watchdog received an invalid control command'']))
      | Inr None \<Rightarrow>
          (case pidfd_send_signal env SigCont h of
             (h1, r) \<Rightarrow> (h1, context_of ''failed to resume stale wroidd after upgrader exit'' r))
      | Inl err \<Rightarrow>
          (case pidfd_send_signal env SigCont h of
             (h1, Inr _) \<Rightarrow> (h1, Inl [''stale-daemon watchdog control failed'', err_text err])
           | (h1, Inl resume) \<Rightarrow>
               (h1, Inl [''stale-daemon watchdog control failed: '' @ err_text err @ ''; resume failed: '' @ hd resume])))"

record continue_guard =
  cg_armed :: bool
  cg_control :: bool
  cg_watchdog :: bool

definition guard_new :: "upgrade_env \<Rightarrow> history \<Rightarrow> continue_guard upgrade_st" where
  "guard_new env h =
     (case ue_watchdog env h of
        Some err \<Rightarrow> (h @ [EvLook], Inl err)
      | None \<Rightarrow> (h @ [EvWatchdog], Inr \<lparr>cg_armed = True, cg_control = True, cg_watchdog = True\<rparr>))"

function watchdog_polls :: "upgrade_env \<Rightarrow> nat \<Rightarrow> history \<Rightarrow> unit upgrade_st" where
  "watchdog_polls env elapsed h =
     (let h1 = h @ [EvLook]
      in case ue_watchdog_status env h of
           Inl err \<Rightarrow> (h1, Inl [''failed to inspect the stale-daemon resume watchdog'', err_text err])
         | Inr (Some status) \<Rightarrow>
             (h1, if es_success status then Inr ()
                  else Inl [''stale-daemon resume watchdog exited with '' @ es_text status])
         | Inr None \<Rightarrow>
             if WATCHDOG_TIMEOUT \<le> elapsed
             then (h1 @ [EvWatchdogKilled], Inl [''stale-daemon resume watchdog did not exit after disarm''])
             else watchdog_polls env (elapsed + UPGRADE_POLL + ue_delay env h1) h1)"
  by pat_completeness auto
termination
  by (relation "measure (\<lambda>(env, elapsed, h). WATCHDOG_TIMEOUT - elapsed)")
    (auto simp: WATCHDOG_TIMEOUT_def UPGRADE_POLL_def)

declare watchdog_polls.simps [simp del]

definition disarm_watchdog :: "upgrade_env \<Rightarrow> continue_guard \<Rightarrow> history \<Rightarrow> continue_guard \<times> unit upgrade_st" where
  "disarm_watchdog env g h =
     (let g1 = g\<lparr>cg_control := False\<rparr>
      in case (if cg_control g then ue_control env h else None) of
           Some err \<Rightarrow>
             (g1, (h @ [EvControlLost], Inl [''failed to disarm the stale-daemon resume watchdog'', err_text err]))
         | None \<Rightarrow>
             let h1 = (if cg_control g then h @ [EvDisarmed] else h)
             in if cg_watchdog g1 then (g1\<lparr>cg_watchdog := False\<rparr>, watchdog_polls env 0 h1) else (g1, (h1, Inr ())))"

definition guard_resume :: "upgrade_env \<Rightarrow> continue_guard \<Rightarrow> history \<Rightarrow> continue_guard \<times> unit upgrade_st" where
  "guard_resume env g h =
     (case pidfd_send_signal env SigCont h of
        (h1, Inl err) \<Rightarrow> (g, (h1, Inl err))
      | (h1, Inr _) \<Rightarrow> disarm_watchdog env (g\<lparr>cg_armed := False\<rparr>) h1)"

definition guard_drop :: "upgrade_env \<Rightarrow> continue_guard \<Rightarrow> history \<Rightarrow> history" where
  "guard_drop env g h =
     (let h1 = (if cg_armed g then fst (pidfd_send_signal env SigCont h) else h)
      in fst (snd (disarm_watchdog env (g\<lparr>cg_armed := False\<rparr>) h1)))"

section \<open>Stopping an old daemon\<close>

definition daemon_file_identity :: "upgrade_env \<Rightarrow> string \<Rightarrow> history \<Rightarrow> (u64 \<times> u64) upgrade_st" where
  "daemon_file_identity env path h =
     (h @ [EvLook],
      case ue_identity env h path of
        Inl err \<Rightarrow> Inl [''failed to inspect daemon identity '' @ path, err_text err]
      | Inr (regular, identity) \<Rightarrow>
          if \<not> regular then Inl [''daemon identity is not a regular file: '' @ path] else Inr identity)"

definition proc_exe :: "i32 \<Rightarrow> string" where "proc_exe pid = ''/proc/'' @ show_nat (unat pid) @ ''/exe''"

definition pidfd_has_exited :: "upgrade_env \<Rightarrow> history \<Rightarrow> bool upgrade_st" where
  "pidfd_has_exited env h =
     (h @ [EvLook],
      case ue_exited env h of
        PollFailed err \<Rightarrow> Inl [''failed to inspect wroidd pidfd'', err_text err]
      | PollInterrupted \<Rightarrow> Inl [''failed to inspect wroidd pidfd'', ''Interrupted system call'']
      | PollReady exit \<Rightarrow> Inr exit
      | PollTimeout \<Rightarrow> Inr False)"

text \<open>A line \<open>State:\<close> that starts with one of the two letters of a stopped process.\<close>

definition shows_stopped :: "string \<Rightarrow> bool" where
  "shows_stopped status \<longleftrightarrow>
     list_ex (\<lambda>line. case strip_prefix ''State:'' line of
         None \<Rightarrow> False
       | Some value \<Rightarrow> (case strip_front white_space value of c # _ \<Rightarrow> c = CHR ''T'' \<or> c = CHR ''t'' | [] \<Rightarrow> False))
       (str_lines status)"

function wait_for_process_stopped :: "upgrade_env \<Rightarrow> nat \<Rightarrow> nat \<Rightarrow> history \<Rightarrow> bool upgrade_st" where
  "wait_for_process_stopped env timeout elapsed h =
     (case ue_state env h of
        Inl err \<Rightarrow>
          if err_kind err = NotFound then (h @ [EvState None], Inr False)
          else (h @ [EvLook], Inl [''failed to inspect frozen stale wroidd'', err_text err])
      | Inr status \<Rightarrow>
          let h1 = h @ [EvState (Some status)]
          in if shows_stopped status then (h1, Inr True)
             else if timeout \<le> elapsed then (h1, Inl [''stale wroidd did not stop for atomic upgrade inspection''])
             else wait_for_process_stopped env timeout (elapsed + UPGRADE_POLL + ue_delay env h1) h1)"
  by pat_completeness auto
termination
  by (relation "measure (\<lambda>(env, timeout, elapsed, h). timeout - elapsed)") (auto simp: UPGRADE_POLL_def)

declare wait_for_process_stopped.simps [simp del]

definition process_has_children :: "upgrade_env \<Rightarrow> history \<Rightarrow> bool upgrade_st" where
  "process_has_children env h =
     (case ue_children env h of
        Inl err \<Rightarrow> (h @ [EvLook], Inl [''failed to inspect stale wroidd children'', err_text err])
      | Inr children \<Rightarrow> (h @ [EvChildren children], Inr (trim children \<noteq> [])))"

text \<open>The wait for the end of the process: an interrupted poll is repeated with the time that is left. When the answers
  of the environment are used up, the poll runs into its timeout.\<close>

fun exit_polls :: "nat \<Rightarrow> nat \<Rightarrow> (poll_answer \<times> nat) list \<Rightarrow> anyhow + unit" where
  "exit_polls timeout elapsed answers =
     (if timeout \<le> elapsed
      then Inl [''stale wroidd did not exit within '' @ show_nat (timeout div 1000000) @ '' ms'']
      else case answers of
             (PollReady exit, _) # _ \<Rightarrow>
               if exit then Inr () else Inl [''unexpected poll state while waiting for stale wroidd'']
           | (PollInterrupted, time) # rest \<Rightarrow> exit_polls timeout (elapsed + time) rest
           | (PollFailed err, _) # _ \<Rightarrow> Inl [''failed while waiting for stale wroidd exit'', err_text err]
           | _ \<Rightarrow> Inl [''stale wroidd did not exit within '' @ show_nat (timeout div 1000000) @ '' ms''])"

declare exit_polls.simps [simp del]

definition wait_for_pidfd_exit :: "upgrade_env \<Rightarrow> nat \<Rightarrow> history \<Rightarrow> unit upgrade_st" where
  "wait_for_pidfd_exit env timeout h = (h @ [EvLook], exit_polls timeout 0 (ue_exit_polls env h))"

text \<open>What happens under the guard: freeze, look, end, wake. The guard is dropped after it, whatever comes out.\<close>

definition stop_frozen :: "upgrade_env \<Rightarrow> i32 \<Rightarrow> continue_guard \<Rightarrow> history \<Rightarrow> continue_guard \<times> unit upgrade_st" where
  "stop_frozen env pid g h =
     (case pidfd_send_signal env SigStop h of
        (h1, Inl err) \<Rightarrow> (g, (h1, Inl (''failed to freeze the authenticated stale wroidd'' # err)))
      | (h1, Inr _) \<Rightarrow>
    (case wait_for_process_stopped env RELEASE_STOP_TIMEOUT 0 h1 of
        (h2, Inl err) \<Rightarrow> (g, (h2, Inl err))
      | (h2, Inr False) \<Rightarrow> (g, (h2, Inr ()))
      | (h2, Inr True) \<Rightarrow>
    (case process_has_children env h2 of
        (h3, Inl err) \<Rightarrow> (g, (h3, Inl err))
      | (h3, Inr True) \<Rightarrow>
          (g, (h3, Inl [''stale wroidd acquired a child process while upgrade safety was being checked'']))
      | (h3, Inr False) \<Rightarrow>
    (case pidfd_send_signal env SigTerm h3 of
        (h4, Inl err) \<Rightarrow> (g, (h4, Inl (''failed to stop the authenticated stale wroidd'' # err)))
      | (h4, Inr _) \<Rightarrow>
    (case guard_resume env g h4 of
        (g1, (h5, Inl err)) \<Rightarrow> (g1, (h5, Inl err))
      | (g1, (h5, Inr _)) \<Rightarrow> (g1, wait_for_pidfd_exit env RELEASE_STOP_TIMEOUT h5))))))"

definition stop_authenticated_idle_daemon ::
  "upgrade_env \<Rightarrow> daemon_peer \<Rightarrow> u64 \<times> u64 \<Rightarrow> history \<Rightarrow> unit upgrade_st" where
  "stop_authenticated_idle_daemon env peer expected h =
     (if sint (dp_pid peer) \<le> 0 \<or> dp_uid peer \<noteq> ue_uid env
      then (h, Inl [''refusing to stop an unauthenticated wroidd peer''])
      else case daemon_file_identity env (proc_exe (dp_pid peer)) h of
             (h1, Inl err) \<Rightarrow> if ue_gone env h1 then (h1 @ [EvLook], Inr ()) else (h1 @ [EvLook], Inl err)
           | (h1, Inr identity) \<Rightarrow>
               if identity \<noteq> expected
               then (h1, Inl [''authenticated wroidd executable changed before replacement''])
               else andThen (pidfd_has_exited env h1) (\<lambda>h2 exited.
                 if exited then (h2, Inr ())
                 else andThen (guard_new env h2) (\<lambda>h3 g.
                   case stop_frozen env (dp_pid peer) g h3 of
                     (g1, (h4, r)) \<Rightarrow> (guard_drop env g1 h4, r))))"

section \<open>Asking the daemon\<close>

definition connect_default :: "upgrade_env \<Rightarrow> history \<Rightarrow> (history, ipc_error, unit) st" where
  "connect_default env h = (h @ [EvLook], case ue_connect env h of Some err \<Rightarrow> Inl err | None \<Rightarrow> Inr ())"

definition request_with_peer :: "upgrade_env \<Rightarrow> daemon_request \<Rightarrow> history \<Rightarrow> (daemon_result \<times> daemon_peer) upgrade_st" where
  "request_with_peer env q h =
     (h @ [EvAsked q], case ue_request env h q of Inl err \<Rightarrow> Inl [ue_ipc_text env err] | Inr answer \<Rightarrow> Inr answer)"

definition authenticated_ping :: "upgrade_env \<Rightarrow> history \<Rightarrow> (u32 \<times> nat \<times> daemon_peer \<times> u64 \<times> u64) upgrade_st" where
  "authenticated_ping env h =
     andThen (request_with_peer env ReqPing h) (\<lambda>h1 (result, peer).
       case result of
         ResPong pid count \<Rightarrow>
           if int (unat pid) \<noteq> sint (dp_pid peer)
           then (h1, Inl [''wroidd response PID '' @ show_u32 pid @ '' does not match authenticated peer PID ''
                  @ show_nat (unat (dp_pid peer))])
           else (case daemon_file_identity env (proc_exe (dp_pid peer)) h1 of
                   (h2, Inl err) \<Rightarrow> (h2, Inl (''failed to identify the authenticated running wroidd'' # err))
                 | (h2, Inr identity) \<Rightarrow> (h2, Inr (pid, count, peer, identity)))
       | _ \<Rightarrow> (h1, Inl [''wroidd returned an unexpected response to ping'']))"

definition sessions_block_upgrade :: "session_snapshot list \<Rightarrow> bool" where
  "sessions_block_upgrade sessions \<longleftrightarrow>
     list_ex (\<lambda>s. sn_process_id s \<noteq> None \<and> sn_state s \<in> {SsPreparing, SsRunning, SsStopping}) sessions"

section \<open>The daemon's files\<close>

definition nonempty_dir :: "upgrade_env \<Rightarrow> string \<Rightarrow> string option" where
  "nonempty_dir env name = Option.bind (ue_var env name) (\<lambda>v. if v = [] then None else Some v)"

definition data_home :: "upgrade_env \<Rightarrow> anyhow + string" where
  "data_home env =
     (case nonempty_dir env ''XDG_DATA_HOME'' of
        Some d \<Rightarrow> Inr d
      | None \<Rightarrow> (case nonempty_dir env ''HOME'' of
                   Some home \<Rightarrow> Inr (path_join (path_join home ''.local'') ''share'')
                 | None \<Rightarrow> Inl [''HOME and XDG_DATA_HOME are unavailable'']))"

definition daemon_log_path :: "upgrade_env \<Rightarrow> anyhow + string" where
  "daemon_log_path env =
     map_sum id (\<lambda>state_home. path_join (path_join state_home ''wroid'') ''wroidd.log'')
       (case nonempty_dir env ''XDG_STATE_HOME'' of
          Some d \<Rightarrow> Inr d
        | None \<Rightarrow> (case nonempty_dir env ''HOME'' of
                     Some home \<Rightarrow> Inr (path_join (path_join home ''.local'') ''state'')
                   | None \<Rightarrow> Inl [''HOME and XDG_STATE_HOME are unavailable for the wroidd log'']))"

definition daemon_executable :: "upgrade_env \<Rightarrow> anyhow + string" where
  "daemon_executable env =
     (case ue_current_exe env of
        Inl err \<Rightarrow> Inl [''failed to locate the current Wroid executable'', err_text err]
      | Inr current \<Rightarrow>
          (case path_parent current of
             None \<Rightarrow> Inl [''Wroid executable has no parent directory'']
           | Some d \<Rightarrow>
               let adjacent = path_join (path_text d) ''wroidd''
               in if ue_is_file env adjacent then Inr adjacent
                  else bind_result (data_home env) (\<lambda>data.
                    let staged = path_join (path_join (path_join data ''libexec'') ''wroid'') ''wroidd''
                    in if ue_is_file env staged then Inr staged
                       else Inl [''wroidd is missing beside '' @ current @ '' and from '' @ staged
                              @ ''; rebuild and run `wroid desktop install`''])))"

definition validate_daemon_executable :: "upgrade_env \<Rightarrow> string \<Rightarrow> anyhow + unit" where
  "validate_daemon_executable env path =
     (case ue_symlink_metadata env path of
        Inl err \<Rightarrow> Inl [''failed to inspect daemon executable '' @ path, err_text err]
      | Inr md \<Rightarrow>
          if \<not> Worker.fm_is_file md \<or> Worker.fm_uid md \<noteq> ue_uid env
             \<or> \<not> has_bits (Worker.fm_mode md) 0x49 \<or> has_bits (Worker.fm_mode md) 0x12
          then Inl [''wroidd must be a current-user-owned executable that is not group/other writable: '' @ path]
          else Inr ())"

section \<open>A daemon of this release\<close>

text \<open>\<open>True\<close> when the daemon that runs is of this release; after \<open>False\<close> none is left.\<close>

definition replace_stale_daemon :: "upgrade_env \<Rightarrow> u64 \<times> u64 \<Rightarrow> history \<Rightarrow> bool upgrade_st" where
  "replace_stale_daemon env desired h =
     (case connect_default env h of
        (h1, Inl _) \<Rightarrow> (h1, Inr False)
      | (h1, Inr _) \<Rightarrow>
    (case authenticated_ping env h1 of
        (h2, Inl err) \<Rightarrow> (h2, Inl (''failed to authenticate the running wroidd release'' # err))
      | (h2, Inr (_, _, peer, running)) \<Rightarrow>
          if running = desired then (h2, Inr True)
          else
    (case request_with_peer env ReqList h2 of
        (h3, Inl err) \<Rightarrow> (h3, Inl (''failed to inspect sessions owned by the stale wroidd release'' # err))
      | (h3, Inr (result, list_peer)) \<Rightarrow>
          if list_peer \<noteq> peer
          then (h3, Inl [''wroidd peer identity changed while checking the running release''])
          else (case result of
                  ResSessions sessions \<Rightarrow>
                    if sessions_block_upgrade sessions
                    then (h3, Inl [''a game is still running under an older wroidd release; stop it before launching with the updated Wroid''])
                    else andThen (stop_authenticated_idle_daemon env peer running h3) (\<lambda>h4 _. (h4, Inr False))
                | _ \<Rightarrow> (h3, Inl [''wroidd returned an unexpected response to session listing''])))))"

definition daemon_is_current :: "upgrade_env \<Rightarrow> u64 \<times> u64 \<Rightarrow> history \<Rightarrow> history \<times> bool" where
  "daemon_is_current env desired h =
     (case connect_default env h of
        (h1, Inl _) \<Rightarrow> (h1, False)
      | (h1, Inr _) \<Rightarrow>
          (case authenticated_ping env h1 of
             (h2, Inl _) \<Rightarrow> (h2, False)
           | (h2, Inr (_, _, _, identity)) \<Rightarrow> (h2, identity = desired)))"

fun start_polls :: "upgrade_env \<Rightarrow> u64 \<times> u64 \<Rightarrow> nat \<Rightarrow> history \<Rightarrow> unit upgrade_st" where
  "start_polls env desired 0 h =
     (h, bind_result (daemon_log_path env) (\<lambda>log.
           Inl [''wroidd did not publish its private socket within 2 seconds; inspect '' @ log]))"
| "start_polls env desired (Suc n) h =
     (case daemon_is_current env desired h of
        (h1, True) \<Rightarrow> (h1, Inr ())
      | (h1, False) \<Rightarrow>
          (case ue_child env h1 of
             Inl err \<Rightarrow> (h1 @ [EvLook], Inl [''failed to inspect the new wroidd process'', err_text err])
           | Inr (Some status) \<Rightarrow>
               (h1 @ [EvLook], bind_result (daemon_log_path env) (\<lambda>log.
                  Inl [''wroidd exited during startup with '' @ es_text status @ ''; inspect '' @ log]))
           | Inr None \<Rightarrow> start_polls env desired n (h1 @ [EvLook])))"

definition ensure_running :: "upgrade_env \<Rightarrow> history \<Rightarrow> unit upgrade_st" where
  "ensure_running env h =
     (case bind_result (daemon_executable env) (\<lambda>exe. map_sum id (\<lambda>_. exe) (validate_daemon_executable env exe)) of
        Inl err \<Rightarrow> (h, Inl err)
      | Inr exe \<Rightarrow>
          andThen (daemon_file_identity env exe h) (\<lambda>h1 desired.
          andThen (replace_stale_daemon env desired h1) (\<lambda>h2 current.
            if current then (h2, Inr ())
            else case ue_log env of
                   Some err \<Rightarrow> (h2, Inl err)
                 | None \<Rightarrow>
                     (case ue_spawn env h2 of
                        Some err \<Rightarrow> (h2 @ [EvLook], Inl [''failed to start '' @ exe, err_text err])
                      | None \<Rightarrow> start_polls env desired START_ATTEMPTS (h2 @ [EvSpawned])))))"

end
