(* ===== verification/ManagedLaunch.thy ===== *)
theory ManagedLaunch
  imports Upgrade ActiveSession
begin

text \<open>
  How a game is launched through the daemon, watched until it ends and stopped
  (\<^verbatim>\<open>wroid-cli/src/commands/runtime_daemon.rs\<close>, \<^verbatim>\<open>launch_v2.rs\<close>, \<^verbatim>\<open>play_v2.rs\<close>). The requests go through the client
  of theory \<open>Upgrade\<close>; the log of the worker, standard output and the interrupt flag are parameters.
\<close>

section \<open>Requests\<close>

record play_v2_options =
  po_keyboard :: "string option"
  po_mouse :: "string option"
  po_resolution :: resolution
  po_grab :: bool
  po_show_ui :: bool
  po_launch_package :: bool
  po_trace_input :: bool
  po_trace_android_input :: bool
  po_exit_after :: "nat option"
  po_focus_socket :: "string option"

definition next_hub_session_id :: "u32 \<Rightarrow> nat \<Rightarrow> u64 \<Rightarrow> string" where
  "next_hub_session_id pid millis sequence =
     ''hub-'' @ show_u32 pid @ ''-'' @ show_nat millis @ ''-'' @ show_nat (unat sequence)"

definition make_launch_request ::
  "string \<Rightarrow> string \<Rightarrow> profile_v2 \<Rightarrow> play_v2_options \<Rightarrow> bool \<Rightarrow> daemon_request" where
  "make_launch_request session_id profile_path profile opts game_mode =
     ReqLaunch \<lparr>gl_session_id = session_id, gl_profile_path = profile_path, gl_profile = profile,
       gl_width = rwidth (po_resolution opts), gl_height = rheight (po_resolution opts),
       gl_keyboard = po_keyboard opts, gl_mouse = po_mouse opts, gl_game_mode = game_mode,
       gl_worker_protocol_generation = BRIDGE_WORKER_PROTOCOL_GENERATION, gl_grab = po_grab opts,
       gl_show_ui = po_show_ui opts, gl_launch_package = po_launch_package opts, gl_trace_input = po_trace_input opts,
       gl_trace_android_input = po_trace_android_input opts,
       gl_exit_after_millis = map_option (\<lambda>d. of_nat (min (d div 1000000) (2 ^ 64 - 1))) (po_exit_after opts)\<rparr>"

record managed_launch =
  ml_session_id :: string
  ml_process_id :: u32
  ml_presentation :: waydroid_presentation

text \<open>A request to the daemon that must be answered by one kind of result. \<open>connect_default\<close> opens no connection yet.\<close>

definition ask :: "upgrade_env \<Rightarrow> daemon_request \<Rightarrow> (daemon_result \<Rightarrow> 'a option) \<Rightarrow> string \<Rightarrow> history \<Rightarrow> 'a upgrade_st" where
  "ask env q expect unexpected h =
     andThen (request_with_peer env q h) (\<lambda>h1 (result, _).
       (h1, case expect result of None \<Rightarrow> Inl [unexpected] | Some a \<Rightarrow> Inr a))"

definition as_session :: "daemon_result \<Rightarrow> session_snapshot option" where
  "as_session r = (case r of ResSession s \<Rightarrow> Some s | _ \<Rightarrow> None)"
definition as_sessions :: "daemon_result \<Rightarrow> session_snapshot list option" where
  "as_sessions r = (case r of ResSessions ss \<Rightarrow> Some ss | _ \<Rightarrow> None)"
definition as_stopped :: "daemon_result \<Rightarrow> session_snapshot option" where
  "as_stopped r = (case r of ResStopped s _ _ _ \<Rightarrow> Some s | _ \<Rightarrow> None)"

definition connected :: "upgrade_env \<Rightarrow> history \<Rightarrow> unit upgrade_st" where
  "connected env h =
     (case connect_default env h of
        (h1, Inl err) \<Rightarrow> (h1, Inl [''wroidd is not running'', ue_ipc_text env err]) | (h1, Inr _) \<Rightarrow> (h1, Inr ()))"

section \<open>Launching and stopping\<close>

definition start_managed_game ::
  "upgrade_env \<Rightarrow> (string \<Rightarrow> os_error + string) \<Rightarrow> bool \<Rightarrow> string \<Rightarrow> string \<Rightarrow> profile_v2 \<Rightarrow> play_v2_options \<Rightarrow> bool \<Rightarrow> history
     \<Rightarrow> managed_launch upgrade_st" where
  "start_managed_game env resolve gamescope session_id profile_path profile opts game_mode h =
     (case resolve profile_path of
        Inl err \<Rightarrow> (h, Inl [''failed to resolve profile '' @ profile_path, err_text err])
      | Inr path \<Rightarrow>
          (case ensure_running env h of
             (h1, Inl err) \<Rightarrow> (h1, Inl (''failed to start the per-user Wroid runtime daemon'' # err))
           | (h1, Inr _) \<Rightarrow>
               (case request_with_peer env (make_launch_request session_id path profile opts game_mode) h1 of
                  (h2, Inl err) \<Rightarrow> (h2, Inl ((''wroidd could not launch session '' @ session_id) # err))
                | (h2, Inr (result, _)) \<Rightarrow>
                    (h2, case as_session result of
                       None \<Rightarrow> Inl [''wroidd returned an unexpected response to game launch'']
                     | Some s \<Rightarrow>
                         (case sn_process_id s of
                            None \<Rightarrow> Inl [''wroidd launched a session without a worker PID'']
                          | Some pid \<Rightarrow>
                              Inr \<lparr>ml_session_id = session_id, ml_process_id = pid,
                                   ml_presentation = presentation_for_game (po_launch_package opts) gamescope
                                     (rwidth (po_resolution opts)) (rheight (po_resolution opts))\<rparr>)))))"

definition managed_session_state :: "upgrade_env \<Rightarrow> string \<Rightarrow> history \<Rightarrow> session_snapshot upgrade_st" where
  "managed_session_state env session_id h =
     andThen (connected env h) (\<lambda>h1 _.
       ask env (ReqState session_id) as_session ''wroidd returned an unexpected response to session state'' h1)"

definition session_is_active :: "session_snapshot \<Rightarrow> bool" where
  "session_is_active s \<longleftrightarrow> sn_process_id s \<noteq> None \<and> sn_state s \<in> {SsRunning, SsStopping}"

definition stop_game :: "upgrade_env \<Rightarrow> history \<Rightarrow> string option upgrade_st" where
  "stop_game env h =
     (case connect_default env h of
        (h1, Inl _) \<Rightarrow> (h1, Inr None)
      | (h1, Inr _) \<Rightarrow>
          andThen (ask env ReqList as_sessions ''wroidd returned an unexpected response to session listing'' h1)
            (\<lambda>h2 sessions.
               case [s \<leftarrow> sessions. session_is_active s] of
                 [] \<Rightarrow> (h2, Inr None)
               | [s] \<Rightarrow>
                   if sn_state s = SsStopping
                   then (h2, Inr (Some (''Stop is already finishing for '' @ sn_package_name s)))
                   else andThen (ask env (ReqStop (sn_session_id s) SwUserRequested) as_stopped
                                   ''wroidd returned an unexpected response to game stop'' h2)
                          (\<lambda>h3 stopped. (h3, Inr (Some (''Stop requested for '' @ sn_package_name stopped
                             @ ''; cleanup is finishing''))))
               | _ \<Rightarrow> (h2, Inl [''wroidd reported more than one active game session''])))"

section \<open>Waiting in the foreground\<close>

definition managed_session_finished :: "session_snapshot \<Rightarrow> bool" where
  "managed_session_finished s \<longleftrightarrow> sn_state s \<in> {SsStopped, SsFailed}"

definition managed_stop_request :: "string \<Rightarrow> daemon_request" where
  "managed_stop_request session_id = ReqStop session_id SwUserRequested"

definition managed_terminal_result :: "session_snapshot \<Rightarrow> anyhow + unit" where
  "managed_terminal_result s =
     (case sn_state s of
        SsStopped \<Rightarrow> Inr ()
      | SsFailed \<Rightarrow> Inl [''managed game session failed: '' @ (case sn_detail s of Some d \<Rightarrow> d | None \<Rightarrow> ''worker failure'')]
      | _ \<Rightarrow> Inl [''managed game session has not reached a terminal state''])"

text \<open>The worker's log: a private directory and a private file of the user.\<close>

record log_metadata =
  lm_is_dir :: bool
  lm_is_file :: bool
  lm_uid :: u32
  lm_mode :: u32
  lm_links :: u64

definition game_session_log_path :: "upgrade_env \<Rightarrow> anyhow + string" where
  "game_session_log_path env =
     map_sum id (\<lambda>state_home. path_join (path_join state_home ''wroid'') ''game-session.log'')
       (case nonempty_dir env ''XDG_STATE_HOME'' of
          Some d \<Rightarrow> Inr d
        | None \<Rightarrow> (case nonempty_dir env ''HOME'' of
                     Some home \<Rightarrow> Inr (path_join (path_join home ''.local'') ''state'')
                   | None \<Rightarrow> Inl [''HOME and XDG_STATE_HOME are unavailable for the game log'']))"

definition open_private_game_session_log_at ::
  "(string \<Rightarrow> os_error + log_metadata) \<Rightarrow> (string \<Rightarrow> os_error + log_metadata) \<Rightarrow> string \<Rightarrow> u32 \<Rightarrow> anyhow + unit" where
  "open_private_game_session_log_at symlink_metadata open_no_follow path uid =
     (case path_parent path of
        None \<Rightarrow> Inl [''game log path has no parent'']
      | Some d \<Rightarrow>
          (case symlink_metadata (path_text d) of
             Inl err \<Rightarrow> Inl [''failed to inspect '' @ path_text d, err_text err]
           | Inr dm \<Rightarrow>
               if \<not> lm_is_dir dm \<or> lm_uid dm \<noteq> uid \<or> and (lm_mode dm) 0x3F \<noteq> 0
               then Inl [''game log directory is not private and current-user-owned'']
               else (case open_no_follow path of
                       Inl err \<Rightarrow> Inl [''failed to open '' @ path, err_text err]
                     | Inr fm \<Rightarrow>
                         if \<not> lm_is_file fm \<or> lm_uid fm \<noteq> uid \<or> lm_links fm \<noteq> 1 \<or> and (lm_mode fm) 0x3F \<noteq> 0
                         then Inl [''game log is not a private current-user file''] else Inr ())))"

text \<open>The reads of the log until it has no more, and the writes to standard output; an interrupted read is repeated.\<close>

datatype log_read = LogChunk string | LogInterrupted | LogFailed os_error

record managed_env =
  me_daemon :: upgrade_env
  me_uid :: u32
  me_directory :: "string \<Rightarrow> os_error + log_metadata"
  me_open_log :: "string \<Rightarrow> os_error + log_metadata"
  me_log :: "history \<Rightarrow> log_read list"
  me_stdout :: "history \<Rightarrow> os_error option" \<comment> \<open>why standard output fails\<close>
  me_interrupted :: "history \<Rightarrow> bool" \<comment> \<open>Ctrl+C was pressed\<close>

record managed_world =
  mw_history :: history
  mw_printed :: string

type_synonym 'a managed_st = "(managed_world, anyhow, 'a) st"

definition on_daemon :: "(history \<Rightarrow> 'a upgrade_st) \<Rightarrow> managed_world \<Rightarrow> 'a managed_st" where
  "on_daemon f w = (case f (mw_history w) of (h, r) \<Rightarrow> (w\<lparr>mw_history := h\<rparr>, r))"

definition open_private_game_session_log :: "managed_env \<Rightarrow> anyhow + unit" where
  "open_private_game_session_log env =
     bind_result (game_session_log_path (me_daemon env)) (\<lambda>path.
       open_private_game_session_log_at (me_directory env) (me_open_log env) path (me_uid env))"

fun copy_log :: "os_error option \<Rightarrow> log_read list \<Rightarrow> string \<Rightarrow> string \<times> (anyhow + unit)" where
  "copy_log out [] printed = (printed, case out of Some err \<Rightarrow> Inl [err_text err] | None \<Rightarrow> Inr ())"
| "copy_log out (LogChunk bytes # rest) printed =
     (if bytes = [] then (printed, case out of Some err \<Rightarrow> Inl [err_text err] | None \<Rightarrow> Inr ())
      else case out of
             Some err \<Rightarrow> (printed, Inl [err_text err])
           | None \<Rightarrow> copy_log out rest (printed @ bytes))"
| "copy_log out (LogInterrupted # rest) printed = copy_log out rest printed"
| "copy_log out (LogFailed err # rest) printed = (printed, Inl [''failed to read the managed game log'', err_text err])"

definition copy_available_log :: "managed_env \<Rightarrow> managed_world \<Rightarrow> unit managed_st" where
  "copy_available_log env w =
     (let h = mw_history w
      in case copy_log (me_stdout env h) (me_log env h) (mw_printed w) of
           (printed, r) \<Rightarrow> (w\<lparr>mw_history := h @ [EvLook], mw_printed := printed\<rparr>, r))"

text \<open>After Ctrl+C the stop is requested, once; \<open>sent\<close> says that it was.\<close>

definition managed_interrupt :: "managed_env \<Rightarrow> string \<Rightarrow> bool \<Rightarrow> managed_world \<Rightarrow> bool managed_st" where
  "managed_interrupt env session_id sent w =
     (if me_interrupted env (mw_history w) \<and> \<not> sent
      then andThen (on_daemon (connected (me_daemon env)) w) (\<lambda>w1 _.
           andThen (case on_daemon (request_with_peer (me_daemon env) (managed_stop_request session_id)) w1 of
                      (w2, r) \<Rightarrow> (w2, context_of ''failed to stop the interrupted managed session'' r))
             (\<lambda>w2 (result, _).
                (w2, if as_stopped result = None
                     then Inl [''wroidd returned an unexpected response to managed session stop'']
                     else Inr True)))
      else (w, Inr sent))"

text \<open>One turn of the loop: \<open>None\<close> goes on.\<close>

definition managed_turn :: "managed_env \<Rightarrow> string \<Rightarrow> bool \<Rightarrow> managed_world \<Rightarrow> (bool \<times> (anyhow + unit) option) managed_st" where
  "managed_turn env session_id sent w =
     andThen (copy_available_log env w) (\<lambda>w1 _.
     andThen (managed_interrupt env session_id sent w1) (\<lambda>w2 sent1.
     andThen (on_daemon (managed_session_state (me_daemon env) session_id) w2) (\<lambda>w3 s.
       if managed_session_finished s
       then andThen (copy_available_log env w3) (\<lambda>w4 _. (w4, Inr (sent1, Some (managed_terminal_result s))))
       else (w3, Inr (sent1, None)))))"

text \<open>The loop, for a number of turns; \<open>None\<close> means that it still waits.\<close>

fun managed_turns ::
  "nat \<Rightarrow> managed_env \<Rightarrow> string \<Rightarrow> bool \<Rightarrow> managed_world \<Rightarrow> managed_world \<times> (anyhow + unit) option" where
  "managed_turns 0 env session_id sent w = (w, None)"
| "managed_turns (Suc n) env session_id sent w =
     (case managed_turn env session_id sent w of
        (w1, Inl err) \<Rightarrow> (w1, Some (Inl err))
      | (w1, Inr (_, Some r)) \<Rightarrow> (w1, Some r)
      | (w1, Inr (sent1, None)) \<Rightarrow> managed_turns n env session_id sent1 w1)"

definition wait_for_managed_session ::
  "nat \<Rightarrow> managed_env \<Rightarrow> string \<Rightarrow> managed_world \<Rightarrow> managed_world \<times> (anyhow + unit) option" where
  "wait_for_managed_session n env session_id w =
     (case open_private_game_session_log env of
        Inl err \<Rightarrow> (w, Some (Inl err)) | Inr _ \<Rightarrow> managed_turns n env session_id False w)"

text \<open>Dropping the armed clean-up asks for the stop, whatever is answered.\<close>

definition managed_cleanup_drop :: "upgrade_env \<Rightarrow> string \<Rightarrow> bool \<Rightarrow> history \<Rightarrow> history" where
  "managed_cleanup_drop env session_id armed h =
     (if \<not> armed then h
      else case connect_default env h of
             (h1, Inl _) \<Rightarrow> h1
           | (h1, Inr _) \<Rightarrow> fst (request_with_peer env (managed_stop_request session_id) h1))"

section \<open>The launcher\<close>

definition load_validated_profile ::
  "(string \<Rightarrow> anyhow + profile_v2) \<Rightarrow> string \<Rightarrow> anyhow + profile_v2" where
  "load_validated_profile load path =
     (case load path of
        Inl err \<Rightarrow> Inl ((''failed to load profile v2 '' @ path) # err)
      | Inr p \<Rightarrow>
          (case validate_profile_v2 p of
             Inr _ \<Rightarrow> Inr p
           | Inl errs \<Rightarrow> Inl [''invalid profile v2: '' @ join_with ''; '' errs]))"

text \<open>\<open>preflight\<close> is the report of the host probes, \<open>handler\<close> the error of \<open>sigaction\<close>.\<close>

definition launch_v2_managed ::
  "nat \<Rightarrow> managed_env \<Rightarrow> (string \<Rightarrow> os_error + string) \<Rightarrow> (string \<Rightarrow> anyhow + profile_v2)
     \<Rightarrow> (string \<Rightarrow> os_error + lease_file option) \<Rightarrow> (profile_v2 \<Rightarrow> bool \<Rightarrow> anyhow + unit) \<Rightarrow> os_error option \<Rightarrow> bool
     \<Rightarrow> string \<Rightarrow> string \<Rightarrow> play_v2_options \<Rightarrow> managed_world \<Rightarrow> managed_world \<times> (anyhow + unit) option" where
  "launch_v2_managed fuel env resolve load leases preflight handler gamescope session_id profile_path opts w =
     (case resolve profile_path of
        Inl err \<Rightarrow> (w, Some (Inl [''failed to resolve profile '' @ profile_path, err_text err]))
      | Inr path \<Rightarrow>
          (case bind_result (load_validated_profile load path) (\<lambda>profile.
                bind_result (ensure_input_bridge_available leases) (\<lambda>_.
                bind_result (preflight profile (po_launch_package opts)) (\<lambda>_.
                case handler of Some err \<Rightarrow> Inl [''failed to install Ctrl+C handler'', err_text err] | None \<Rightarrow> Inr profile))) of
             Inl err \<Rightarrow> (w, Some (Inl err))
           | Inr profile \<Rightarrow>
               (case on_daemon (start_managed_game (me_daemon env) resolve gamescope session_id path profile opts False) w of
                  (w1, Inl err) \<Rightarrow> (w1, Some (Inl err))
                | (w1, Inr started) \<Rightarrow>
                    (case wait_for_managed_session fuel env (ml_session_id started) w1 of
                       (w2, Some (Inl err)) \<Rightarrow>
                         (w2\<lparr>mw_history := managed_cleanup_drop (me_daemon env) (ml_session_id started) True (mw_history w2)\<rparr>,
                          Some (Inl err))
                     | (w2, r) \<Rightarrow> (w2, r)))))"

text \<open>What a worker checks of the daemon that started it.\<close>

definition validate_daemon_worker_parent :: "u32 \<Rightarrow> u32 \<Rightarrow> anyhow + unit" where
  "validate_daemon_worker_parent expected actual =
     (if expected = 0 \<or> actual \<noteq> expected
      then Inl [''daemon worker parent changed: expected PID '' @ show_u32 expected @ '', got '' @ show_u32 actual]
      else Inr ())"

definition validate_daemon_worker_parent_identity :: "upgrade_env \<Rightarrow> string \<Rightarrow> string \<Rightarrow> history \<Rightarrow> unit upgrade_st" where
  "validate_daemon_worker_parent_identity env desired parent h =
     andThen (daemon_file_identity env desired h) (\<lambda>h1 a.
     andThen (daemon_file_identity env parent h1) (\<lambda>h2 b.
       (h2, if a \<noteq> b then Inl [''daemon worker parent executable does not match the selected wroidd release''] else Inr ())))"

definition validate_daemon_worker_parent_executable :: "upgrade_env \<Rightarrow> u32 \<Rightarrow> history \<Rightarrow> unit upgrade_st" where
  "validate_daemon_worker_parent_executable env parent_pid h =
     (case daemon_executable env of
        Inl err \<Rightarrow> (h, Inl err)
      | Inr desired \<Rightarrow>
          validate_daemon_worker_parent_identity env desired (''/proc/'' @ show_u32 parent_pid @ ''/exe'') h)"

section \<open>Playing in this process\<close>

definition ensure_play_bridge_access :: "bool \<Rightarrow> bool \<Rightarrow> anyhow + unit" where
  "ensure_play_bridge_access is_root has_broker =
     (if \<not> is_root \<and> \<not> has_broker
      then Inl [''unprivileged play-v2 requires the daemon bridge; use `wroid launch-v2` for production sessions'']
      else Inr ())"

definition needs_mouse :: "profile_v2 \<Rightarrow> bool" where
  "needs_mouse p \<longleftrightarrow>
     list_ex (\<lambda>b. case b2_input b of I2MouseMove \<Rightarrow> True | I2MouseButton _ \<Rightarrow> True | _ \<Rightarrow> False) (p2_bindings p)"

text \<open>The keyboard and the mouse a session uses; the searches are parameters.\<close>

definition play_devices ::
  "anyhow + string \<Rightarrow> anyhow + string \<Rightarrow> profile_v2 \<Rightarrow> play_v2_options \<Rightarrow> anyhow + string \<times> string option" where
  "play_devices discover_keyboard discover_mouse p opts =
     bind_result (case po_keyboard opts of
          Some path \<Rightarrow> Inr path
        | None \<Rightarrow> context_of ''failed to auto-detect a keyboard; pass --keyboard /dev/input/by-id/...-event-kbd'' discover_keyboard)
       (\<lambda>keyboard.
     bind_result (case (po_mouse opts, needs_mouse p) of
          (Some path, _) \<Rightarrow> Inr (Some path)
        | (None, True) \<Rightarrow> map_sum id Some
            (context_of ''failed to auto-detect a mouse; pass --mouse /dev/input/by-id/...-event-mouse'' discover_mouse)
        | (None, False) \<Rightarrow> Inr None) (\<lambda>mouse. Inr (keyboard, mouse)))"

end
