(* ===== verification/UpgradeSpec.thy ===== *)
theory UpgradeSpec
  imports Upgrade
begin

text \<open>
  What replacing an old daemon promises: it is never left frozen, not even when the upgrader dies in between, it is ended
  only while it is frozen and runs no game, and the daemon that is used afterwards is of this release.
\<close>

section \<open>Properties of every prefix of a history\<close>

definition everywhere :: "(history \<Rightarrow> upgrade_event \<Rightarrow> bool) \<Rightarrow> history \<Rightarrow> bool" where
  "everywhere Q h \<longleftrightarrow> (\<forall>pre e suf. h = pre @ e # suf \<longrightarrow> Q pre e)"

lemma everywhere_Nil [simp]: "everywhere Q []"
  by (simp add: everywhere_def)

lemma everywhere_snoc [simp]: "everywhere Q (h @ [e]) \<longleftrightarrow> everywhere Q h \<and> Q h e"
proof
  assume all: "everywhere Q (h @ [e])"
  have "Q pre x" if "h = pre @ x # suf" for pre x suf
    using all that unfolding everywhere_def by (metis append_assoc append_Cons)
  with all show "everywhere Q h \<and> Q h e" unfolding everywhere_def by blast
next
  assume "everywhere Q h \<and> Q h e"
  then show "everywhere Q (h @ [e])"
    unfolding everywhere_def by (metis append_assoc append_Cons append_butlast_last_id butlast.simps(2) butlast_append
        butlast_snoc last.simps last_appendR last_snoc list.distinct(1))
qed

lemma everywhere_append:
  "everywhere Q h \<Longrightarrow> (\<And>pre e. e \<in> set es \<Longrightarrow> Q pre e) \<Longrightarrow> everywhere Q (h @ es)"
proof (induction es rule: rev_induct)
  case (snoc e es)
  then have "everywhere Q ((h @ es) @ [e])" by (subst everywhere_snoc) simp
  then show ?case by simp
qed simp

section \<open>Frozen and watched\<close>

text \<open>What a history says: whether the last signal froze the daemon, and whether a watchdog waits that was not told to
  go away.\<close>

fun frozen_step :: "upgrade_event \<Rightarrow> bool \<Rightarrow> bool" where
  "frozen_step (EvSignal SigStop) f = True"
| "frozen_step (EvSignal SigCont) f = False"
| "frozen_step (EvNoProcess s) f = False"
| "frozen_step e f = f"

fun watching_step :: "upgrade_event \<Rightarrow> bool \<Rightarrow> bool" where
  "watching_step EvWatchdog w = True"
| "watching_step EvDisarmed w = False"
| "watching_step EvWatchdogKilled w = False"
| "watching_step e w = w"

definition frozen :: "history \<Rightarrow> bool" where "frozen h = fold frozen_step h False"
definition watching :: "history \<Rightarrow> bool" where "watching h = fold watching_step h False"

lemma frozen_snoc [simp]: "frozen [] = False" "frozen (h @ [e]) = frozen_step e (frozen h)"
  by (simp_all add: frozen_def)

lemma watching_snoc [simp]: "watching [] = False" "watching (h @ [e]) = watching_step e (watching h)"
  by (simp_all add: watching_def)

text \<open>Events that change neither.\<close>

definition neutral :: "upgrade_event \<Rightarrow> bool" where
  "neutral e \<longleftrightarrow> (case e of EvState _ \<Rightarrow> True | EvChildren _ \<Rightarrow> True | EvLook \<Rightarrow> True | EvAsked _ \<Rightarrow> True
     | EvSpawned \<Rightarrow> True | _ \<Rightarrow> False)"

definition extends :: "(upgrade_event \<Rightarrow> bool) \<Rightarrow> history \<Rightarrow> history \<Rightarrow> bool" where
  "extends P h h' \<longleftrightarrow> (\<exists>es. h' = h @ es \<and> list_all P es)"

lemma extendsI:
  "extends P h h"
  "P e \<Longrightarrow> extends P h (h @ [e])"
  "extends P (h @ [e]) h' \<Longrightarrow> P e \<Longrightarrow> extends P h h'"
  "extends P h h' \<Longrightarrow> P e \<Longrightarrow> extends P h (h' @ [e])"
  "extends P h1 h2 \<Longrightarrow> extends P h2 h3 \<Longrightarrow> extends P h1 h3"
  "extends P h h' \<Longrightarrow> (\<And>e. P e \<Longrightarrow> R e) \<Longrightarrow> extends R h h'"
  by (auto simp: extends_def list_all_iff)

lemma neutral_step: "neutral e \<Longrightarrow> frozen_step e f = f \<and> watching_step e w = w"
  by (cases e) (simp_all add: neutral_def)

lemma neutral_fold: "list_all neutral es \<Longrightarrow> fold frozen_step es f = f \<and> fold watching_step es w = w"
  by (induction es) (simp_all add: neutral_step)

lemma neutral_extends:
  assumes "extends neutral h h'"
  shows "frozen h' = frozen h" "watching h' = watching h"
  using assms neutral_fold by (auto simp: extends_def frozen_def watching_def)

section \<open>What each operation adds\<close>

lemma neutral_events [simp]:
  "neutral EvLook" "neutral (EvState t)" "neutral (EvChildren c)" "neutral (EvAsked q)" "neutral EvSpawned"
  by (simp_all add: neutral_def)

lemma watchdog_polls_extends:
  "watchdog_polls env n h = (h', r) \<Longrightarrow> extends (\<lambda>e. neutral e \<or> e = EvWatchdogKilled) h h'"
proof (induction env n h arbitrary: h' r rule: watchdog_polls.induct)
  case (1 env n h)
  let ?P = "\<lambda>e. neutral e \<or> e = EvWatchdogKilled"
  have look: "extends ?P h (h @ [EvLook])" by (rule extendsI(2)) simp
  have kill: "extends ?P h (h @ [EvLook] @ [EvWatchdogKilled])"
    using extendsI(4) [OF look, of EvWatchdogKilled] by simp
  show ?case
  proof (cases "ue_watchdog_status env h = Inr None \<and> \<not> WATCHDOG_TIMEOUT \<le> n")
    case True
    with "1.prems" "1.IH" [OF refl] have "extends ?P (h @ [EvLook]) h'"
      by (simp add: watchdog_polls.simps [of env n h] Let_def)
    with look show ?thesis by (rule extendsI(5))
  next
    case False
    with "1.prems" look kill show ?thesis
      by (auto simp: watchdog_polls.simps [of env n h] Let_def split: sum.splits option.splits if_splits)
  qed
qed

lemma wait_stopped_extends:
  "wait_for_process_stopped env t n h = (h', r) \<Longrightarrow>
     extends neutral h h' \<and> (r = Inr True \<longrightarrow> (\<exists>es text. h' = h @ es @ [EvState (Some text)] \<and> shows_stopped text
       \<and> (\<forall>e\<in>set es. \<exists>s. e = EvState s)))"
proof (induction env t n h arbitrary: h' r rule: wait_for_process_stopped.induct)
  case (1 env t n h)
  show ?case
  proof (cases "\<exists>status. ue_state env h = Inr status \<and> \<not> shows_stopped status \<and> \<not> t \<le> n")
    case True
    then obtain status where status: "ue_state env h = Inr status" "\<not> shows_stopped status" "\<not> t \<le> n" by blast
    let ?h1 = "h @ [EvState (Some status)]"
    from status "1.prems" "1.IH" [OF status(1) refl status(2,3)]
    have IH: "extends neutral ?h1 h'" "r = Inr True \<longrightarrow> (\<exists>es text. h' = ?h1 @ es @ [EvState (Some text)] \<and> shows_stopped text
       \<and> (\<forall>e\<in>set es. \<exists>s. e = EvState s))"
      by (simp_all add: wait_for_process_stopped.simps [of env t n h] Let_def)
    have "extends neutral h h'" by (rule extendsI(3) [OF IH(1)]) simp
    moreover have "\<exists>es text. h' = h @ es @ [EvState (Some text)] \<and> shows_stopped text \<and> (\<forall>e\<in>set es. \<exists>s. e = EvState s)"
      if "r = Inr True"
    proof -
      from IH(2) that obtain es line where "h' = ?h1 @ es @ [EvState (Some line)]" "shows_stopped line"
        "\<forall>e\<in>set es. \<exists>s. e = EvState s" by blast
      then show ?thesis by (intro exI [of _ "EvState (Some status) # es"] exI [of _ line]) auto
    qed
    ultimately show ?thesis by blast
  next
    case False
    have one: "extends neutral h (h @ [e])" if "neutral e" for e using that by (rule extendsI(2))
    show ?thesis
    proof (cases "ue_state env h")
      case (Inl err)
      with "1.prems" one show ?thesis
        by (auto simp: wait_for_process_stopped.simps [of env t n h] split: if_splits)
    next
      case (Inr status)
      with False "1.prems" one [of "EvState (Some status)"] show ?thesis
        by (auto simp: wait_for_process_stopped.simps [of env t n h] Let_def split: if_splits intro: exI [of _ "[]"])
    qed
  qed
qed

lemma small_extends:
  "daemon_file_identity env path h = (h', r1) \<Longrightarrow> h' = h @ [EvLook]"
  "pidfd_has_exited env h = (h', r2) \<Longrightarrow> h' = h @ [EvLook]"
  "wait_for_pidfd_exit env t h = (h', r3) \<Longrightarrow> h' = h @ [EvLook]"
  "connect_default env h = (h', r4) \<Longrightarrow> h' = h @ [EvLook]"
  "request_with_peer env q h = (h', r5) \<Longrightarrow> h' = h @ [EvAsked q]"
  "process_has_children env h = (h', r6) \<Longrightarrow>
     extends neutral h h' \<and> (r6 = Inr False \<longrightarrow> (\<exists>ch. h' = h @ [EvChildren ch] \<and> trim ch = []))"
  by (auto simp: daemon_file_identity_def pidfd_has_exited_def wait_for_pidfd_exit_def connect_default_def
      request_with_peer_def process_has_children_def intro: extendsI(2) split: sum.splits)

lemma ping_extends:
  assumes "authenticated_ping env h = (h', r)"
  shows "extends neutral h h'"
proof -
  obtain h1 q where 1: "request_with_peer env ReqPing h = (h1, q)" by fastforce
  note h1 = small_extends(5) [OF 1]
  have "h' = h1 \<or> h' = h1 @ [EvLook]"
    using assms 1
    by (auto simp: authenticated_ping_def andThen_Inr_iff daemon_file_identity_def split: sum.splits prod.splits
        daemon_result.splits if_splits andThen_splits)
  with h1 show ?thesis
    by (auto intro!: extendsI(2) extendsI(4) [where h' = "h @ [EvAsked ReqPing]", simplified])
qed

text \<open>Calm events neither freeze nor end the daemon.\<close>

definition calm :: "upgrade_event \<Rightarrow> bool" where
  "calm e \<longleftrightarrow> e \<noteq> EvSignal SigStop \<and> e \<noteq> EvSignal SigTerm"

lemma calm_events [simp]:
  "neutral e \<Longrightarrow> calm e" "calm EvWatchdogKilled" "calm EvWatchdog" "calm EvDisarmed" "calm EvControlLost"
  "calm (EvSignal SigCont)" "calm (EvNoProcess s)" "calm (EvRefused s)"
  by (auto simp: calm_def neutral_def)

lemma neutral_calm: "extends neutral h h' \<Longrightarrow> extends calm h h'"
  by (erule extendsI(6)) simp

lemma send_extends:
  assumes "pidfd_send_signal env s h = (h', r)"
  shows "(r = Inr () \<and> h' \<in> {h @ [EvSignal s], h @ [EvNoProcess s]}) \<or> (h' = h @ [EvRefused s] \<and> (\<exists>err. r = Inl err))"
    and "s = SigCont \<Longrightarrow> extends calm h h'"
  using assms by (auto simp: pidfd_send_signal_def intro: extendsI(2) split: signal_answer.splits)

lemma disarm_extends:
  assumes "disarm_watchdog env g h = (g', (h', r))"
  shows "extends calm h h'" "cg_armed g' = cg_armed g"
proof -
  have polls: "extends calm h1 h2" if "watchdog_polls env 0 h1 = (h2, q)" for h1 h2 q
    by (rule extendsI(6) [OF watchdog_polls_extends [OF that]]) auto
  have first: "extends calm h (h @ [e])" if "calm e" for e using that by (rule extendsI(2))
  show "extends calm h h'"
    using assms polls first [of EvControlLost] first [of EvDisarmed]
    by (auto simp: disarm_watchdog_def Let_def split: option.splits if_splits
        intro: extendsI(1) extendsI(5) [where ?h2.0 = "h @ [EvDisarmed]"])
  show "cg_armed g' = cg_armed g"
    using assms by (auto simp: disarm_watchdog_def Let_def split: option.splits if_splits)
qed

lemma resume_extends:
  assumes "guard_resume env g h = (g', (h', r))"
  shows "extends calm h h'"
proof -
  obtain h1 q where 1: "pidfd_send_signal env SigCont h = (h1, q)" by fastforce
  obtain g2 h2 r2 where 2: "disarm_watchdog env (g\<lparr>cg_armed := False\<rparr>) h1 = (g2, (h2, r2))" by (metis prod.collapse)
  from assms 1 2 have "h' = h1 \<or> h' = h2" by (cases q) (auto simp: guard_resume_def)
  with send_extends(2) [OF 1] disarm_extends(1) [OF 2] show ?thesis by (auto intro: extendsI(5))
qed

lemma drop_extends: "extends calm h (guard_drop env g h)"
proof -
  let ?h1 = "if cg_armed g then fst (pidfd_send_signal env SigCont h) else h"
  have 1: "extends calm h ?h1"
    using send_extends(2) [of env SigCont h] by (cases "pidfd_send_signal env SigCont h") (auto intro: extendsI(1))
  obtain g2 h2 r2 where 2: "disarm_watchdog env (g\<lparr>cg_armed := False\<rparr>) ?h1 = (g2, (h2, r2))" by (metis prod.collapse)
  from 1 disarm_extends(1) [OF 2] show ?thesis using 2 by (auto simp: guard_drop_def Let_def intro: extendsI(5))
qed

section \<open>Never left frozen\<close>

definition guarded :: "history \<Rightarrow> bool" where
  "guarded = everywhere (\<lambda>pre e. frozen (pre @ [e]) \<longrightarrow> watching (pre @ [e]))"

lemma guarded_snoc [simp]: "guarded (h @ [e]) \<longleftrightarrow> guarded h \<and> (frozen_step e (frozen h) \<longrightarrow> watching_step e (watching h))"
  by (simp add: guarded_def)

lemma guarded_now: "guarded h \<Longrightarrow> frozen h \<Longrightarrow> watching h"
  by (cases h rule: rev_cases) (simp_all add: guarded_def)

lemma guarded_neutral:
  assumes "extends neutral h h'" "guarded h"
  shows "guarded h'"
proof -
  have "guarded (h @ es)" if "list_all neutral es" for es
    using that
  proof (induction es rule: rev_induct)
    case (snoc e es)
    then have "guarded (h @ es)" "neutral e" by auto
    then have "guarded ((h @ es) @ [e])"
      unfolding guarded_snoc using neutral_step guarded_now by blast
    then show ?case by simp
  qed (simp add: assms(2))
  with assms(1) show ?thesis by (auto simp: extends_def)
qed

lemma calm_awake:
  assumes "extends calm h h'" "guarded h" "\<not> frozen h"
  shows "guarded h' \<and> \<not> frozen h'"
proof -
  have "guarded (h @ es) \<and> \<not> frozen (h @ es)" if "list_all calm es" for es
    using that
  proof (induction es rule: rev_induct)
    case (snoc e es)
    then have IH: "guarded (h @ es)" "\<not> frozen (h @ es)" and e: "calm e" by auto
    have "\<not> frozen_step e False"
      using e by (cases "(e, False)" rule: frozen_step.cases) (auto simp: calm_def)
    with IH have "guarded ((h @ es) @ [e]) \<and> \<not> frozen ((h @ es) @ [e])"
      unfolding guarded_snoc frozen_snoc by simp
    then show ?case by simp
  qed (simp add: assms)
  with assms(1) show ?thesis by (auto simp: extends_def)
qed

text \<open>The kernel lets the owner of a process wake it.\<close>

definition waking :: "upgrade_env \<Rightarrow> bool" where
  "waking env \<longleftrightarrow> (\<forall>h err. ue_signal env h SigCont \<noteq> SignalRefused err)"

lemma wake_up:
  assumes "waking env" "pidfd_send_signal env SigCont h = (h', r)"
  shows "\<not> frozen h'" "guarded h \<Longrightarrow> guarded h'" "r = Inr ()"
  using assms by (auto simp: waking_def pidfd_send_signal_def split: signal_answer.splits)

lemma stop_frozen_guarded:
  assumes waking: "waking env" and run: "stop_frozen env pid g h = (g', (h', r))"
    and h: "guarded h" "\<not> frozen h" "watching h" "cg_armed g"
  shows "guarded h' \<and> (frozen h' \<longrightarrow> cg_armed g')"
proof -
  obtain h1 r1 where 1: "pidfd_send_signal env SigStop h = (h1, r1)" by fastforce
  from send_extends(1) [OF 1] h have h1: "guarded h1" by auto
  obtain h2 r2 where 2: "wait_for_process_stopped env RELEASE_STOP_TIMEOUT 0 h1 = (h2, r2)" by fastforce
  have h2: "guarded h2" using wait_stopped_extends [OF 2] h1 guarded_neutral by blast
  obtain h3 r3 where 3: "process_has_children env h2 = (h3, r3)" by fastforce
  have h3: "guarded h3" using small_extends(6) [OF 3] h2 guarded_neutral by blast
  obtain h4 r4 where 4: "pidfd_send_signal env SigTerm h3 = (h4, r4)" by fastforce
  have h4: "guarded h4" using send_extends(1) [OF 4] h3 guarded_now [OF h3] by auto
  obtain g5 h5 r5 where 5: "guard_resume env g h4 = (g5, (h5, r5))" by (metis prod.collapse)
  have h5: "guarded h5 \<and> \<not> frozen h5"
  proof -
    obtain k q where k: "pidfd_send_signal env SigCont h4 = (k, q)" by fastforce
    obtain g6 h6 r6 where 6: "disarm_watchdog env (g\<lparr>cg_armed := False\<rparr>) k = (g6, (h6, r6))" by (metis prod.collapse)
    from wake_up [OF waking k] h4 have "guarded k" "\<not> frozen k" "q = Inr ()" by auto
    with 5 k 6 calm_awake [OF disarm_extends(1) [OF 6]] show ?thesis by (simp add: guard_resume_def)
  qed
  have "h' = h5 \<or> h' = h5 @ [EvLook] \<or> (g' = g \<and> h' \<in> {h1, h2, h3, h4})"
    using run 1 2 3 4 5
    by (auto simp: stop_frozen_def wait_for_pidfd_exit_def split: sum.splits bool.splits)
  with h1 h2 h3 h4 h5 \<open>cg_armed g\<close> show ?thesis by auto
qed

lemma drop_guarded:
  assumes waking: "waking env" and h: "guarded h" "frozen h \<longrightarrow> cg_armed g"
  shows "guarded (guard_drop env g h) \<and> \<not> frozen (guard_drop env g h)"
proof -
  let ?h1 = "if cg_armed g then fst (pidfd_send_signal env SigCont h) else h"
  have h1: "guarded ?h1 \<and> \<not> frozen ?h1"
    using wake_up [OF waking, of h] h by (cases "pidfd_send_signal env SigCont h") auto
  obtain g2 h2 r2 where 2: "disarm_watchdog env (g\<lparr>cg_armed := False\<rparr>) ?h1 = (g2, (h2, r2))" by (metis prod.collapse)
  from calm_awake [OF disarm_extends(1) [OF 2]] h1 2 show ?thesis by (simp add: guard_drop_def Let_def)
qed

section \<open>The runs\<close>

lemma stop_runs:
  assumes run: "stop_authenticated_idle_daemon env peer expected h = (h', r)"
  obtains (looked) "extends neutral h h'"
  | (guarded) h2 g4 h4 where "extends neutral h h2" "dp_uid peer = ue_uid env"
      "stop_frozen env (dp_pid peer) \<lparr>cg_armed = True, cg_control = True, cg_watchdog = True\<rparr> (h2 @ [EvWatchdog]) = (g4, (h4, r))"
      "h' = guard_drop env g4 h4"
proof -
  let ?g = "\<lparr>cg_armed = True, cg_control = True, cg_watchdog = True\<rparr>"
  let ?h1 = "h @ [EvLook]"
  let ?h2 = "?h1 @ [EvLook]"
  have n1: "extends neutral h ?h1" by (rule extendsI(2)) simp
  have n2: "extends neutral h ?h2" by (rule extendsI(4) [OF n1]) simp
  have n3: "extends neutral h (?h2 @ [EvLook])" by (rule extendsI(4) [OF n2]) simp
  obtain r1 where 1: "daemon_file_identity env (proc_exe (dp_pid peer)) h = (?h1, r1)"
    using small_extends(1) by (metis prod.exhaust)
  obtain r2 where 2: "pidfd_has_exited env ?h1 = (?h2, r2)"
    using small_extends(2) by (metis prod.exhaust)
  obtain g4 h4 r4 where 4: "stop_frozen env (dp_pid peer) ?g (?h2 @ [EvWatchdog]) = (g4, (h4, r4))" by (metis prod.collapse)
  show thesis
  proof (cases "dp_uid peer = ue_uid env \<and> 0 < sint (dp_pid peer) \<and> r1 = Inr expected \<and> r2 = Inr False \<and> ue_watchdog env ?h2 = None")
    case True
    with run 1 2 4 have "r = r4" "h' = guard_drop env g4 h4"
      by (simp_all add: stop_authenticated_idle_daemon_def guard_new_def)
    with n2 True 4 that(2) show ?thesis by blast
  next
    case False
    with run 1 2 have "h' = h \<or> h' = ?h1 \<or> h' = ?h2 \<or> h' = ?h2 @ [EvLook]"
      by (cases r1; cases r2) (auto simp: stop_authenticated_idle_daemon_def guard_new_def split: if_splits sum.splits option.splits)
    with n1 n2 n3 extendsI(1) [of neutral h] that(1) show ?thesis by blast
  qed
qed

lemma stop_guarded:
  assumes waking: "waking env" and run: "stop_authenticated_idle_daemon env peer expected h = (h', r)"
    and h: "guarded h" "\<not> frozen h"
  shows "guarded h' \<and> \<not> frozen h'"
  using run
proof (cases rule: stop_runs)
  case looked
  with h neutral_extends(1) guarded_neutral show ?thesis by metis
next
  case (guarded h2 g4 h4)
  have "guarded (h2 @ [EvWatchdog])" "\<not> frozen (h2 @ [EvWatchdog])" "watching (h2 @ [EvWatchdog])"
    using guarded_neutral [OF guarded(1)] neutral_extends(1) [OF guarded(1)] h by auto
  from stop_frozen_guarded [OF waking guarded(3) this] drop_guarded [OF waking] guarded(4) show ?thesis by simp
qed

lemma replace_runs:
  assumes run: "replace_stale_daemon env desired h = (h', r)"
  obtains (looked) "extends neutral h h'"
  | (stopped) h2 peer running sessions q where "extends neutral h h2"
      "ue_request env h2 ReqList = Inr (ResSessions sessions, peer)" "\<not> sessions_block_upgrade sessions"
      "stop_authenticated_idle_daemon env peer running (h2 @ [EvAsked ReqList]) = (h', q)"
proof -
  obtain r1 where 1: "connect_default env h = (h @ [EvLook], r1)" using small_extends(4) by (metis prod.exhaust)
  obtain h2 r2 where 2: "authenticated_ping env (h @ [EvLook]) = (h2, r2)" by fastforce
  have n2: "extends neutral h h2" by (rule extendsI(3) [OF ping_extends [OF 2]]) simp
  obtain r3 where 3: "request_with_peer env ReqList h2 = (h2 @ [EvAsked ReqList], r3)"
    using small_extends(5) by (metis prod.exhaust)
  have n3: "extends neutral h (h2 @ [EvAsked ReqList])" by (rule extendsI(4) [OF n2]) simp
  have n1: "extends neutral h (h @ [EvLook])" by (rule extendsI(2)) simp
  show thesis
  proof (cases "\<exists>pid n peer running sessions. r1 = Inr () \<and> r2 = Inr (pid, n, peer, running) \<and> running \<noteq> desired
      \<and> r3 = Inr (ResSessions sessions, peer) \<and> \<not> sessions_block_upgrade sessions")
    case True
    then obtain pid n peer running sessions where t: "r1 = Inr ()" "r2 = Inr (pid, n, peer, running)" "running \<noteq> desired"
      "r3 = Inr (ResSessions sessions, peer)" "\<not> sessions_block_upgrade sessions" by blast
    obtain h4 q where 4: "stop_authenticated_idle_daemon env peer running (h2 @ [EvAsked ReqList]) = (h4, q)" by fastforce
    have "h' = h4" using run 1 2 3 4 t by (cases q) (simp_all add: replace_stale_daemon_def)
    moreover have "ue_request env h2 ReqList = Inr (ResSessions sessions, peer)"
      using 3 t(4) by (simp add: request_with_peer_def split: sum.splits)
    ultimately show ?thesis using that(2) n2 t(5) 4 by blast
  next
    case False
    with run 1 2 3 have "h' = h @ [EvLook] \<or> h' = h2 \<or> h' = h2 @ [EvAsked ReqList]"
      by (auto simp: replace_stale_daemon_def split: sum.splits if_splits daemon_result.splits prod.splits)
    with n1 n2 n3 that(1) show ?thesis by blast
  qed
qed

lemma current_extends: "daemon_is_current env desired h = (h', b) \<Longrightarrow> extends neutral h h'"
  using ping_extends [of env "h @ [EvLook]"]
  by (auto simp: daemon_is_current_def connect_default_def split: sum.splits option.splits prod.splits
      intro: extendsI(2) extendsI(3) [of neutral h EvLook])

lemma polls_extend: "start_polls env desired n h = (h', r) \<Longrightarrow> extends neutral h h'"
proof (induction n arbitrary: h)
  case (Suc n)
  obtain h1 b where 1: "daemon_is_current env desired h = (h1, b)" by fastforce
  note n1 = current_extends [OF 1]
  have n2: "extends neutral h (h1 @ [EvLook])" by (rule extendsI(4) [OF n1]) simp
  show ?case
  proof (cases "\<not> b \<and> ue_child env h1 = Inr None")
    case True
    with Suc.prems 1 Suc.IH [of "h1 @ [EvLook]"] n2 show ?thesis by (auto intro: extendsI(5))
  next
    case False
    with Suc.prems 1 n1 n2 show ?thesis by (auto split: bool.splits sum.splits option.splits)
  qed
qed (simp add: extendsI(1))

lemma ensure_runs:
  assumes run: "ensure_running env h = (h', r)"
  obtains (refused) "h' = h"
  | (ran) desired h1 q where "replace_stale_daemon env desired (h @ [EvLook]) = (h1, q)" "extends neutral h1 h'"
  | (unidentified) "h' = h @ [EvLook]"
proof (cases "bind_result (daemon_executable env) (\<lambda>exe. map_sum id (\<lambda>_. exe) (validate_daemon_executable env exe))")
  case (Inl err)
  with run that(1) show thesis by (simp add: ensure_running_def)
next
  case (Inr exe)
  obtain r1 where 1: "daemon_file_identity env exe h = (h @ [EvLook], r1)" using small_extends(1) by (metis prod.exhaust)
  show thesis
  proof (cases r1)
    case (Inl err)
    with run Inr 1 that(3) show ?thesis by (simp add: ensure_running_def)
  next
    case r1: (Inr desired)
    obtain h2 r2 where 2: "replace_stale_daemon env desired (h @ [EvLook]) = (h2, r2)" by fastforce
    obtain h3 r3 where 3: "start_polls env desired START_ATTEMPTS (h2 @ [EvSpawned]) = (h3, r3)" by fastforce
    have "extends neutral h2 h3" by (rule extendsI(3) [OF polls_extend [OF 3]]) simp
    moreover have "extends neutral h2 (h2 @ [EvLook])" by (rule extendsI(2)) simp
    moreover have "h' = h2 \<or> h' = h2 @ [EvLook] \<or> h' = h3"
      using run Inr 1 r1 2 3
      by (cases r2) (auto simp: ensure_running_def split: sum.splits if_splits option.splits)
    ultimately have "extends neutral h2 h'" using extendsI(1) by blast
    with 2 that(2) show ?thesis by blast
  qed
qed

text \<open>C17. Replacing an old daemon never leaves it frozen: not at the end, and if the upgrader dies at any moment in
  between, a watchdog is there that was not told to go, and the end of its channel makes it wake the daemon.\<close>

theorem stale_daemon_wakes_up:
  assumes waking: "waking env" and run: "ensure_running env [] = (h', r)"
  shows "\<not> frozen h'
    \<and> (\<forall>pre suf. h' = pre @ suf \<and> frozen pre \<longrightarrow> watching pre \<and> \<not> frozen (fst (watch_stopped_daemon env (Inr None) pre)))"
proof -
  have "guarded h' \<and> \<not> frozen h'"
    using run
  proof (cases rule: ensure_runs)
    case (ran desired h1 q)
    have "guarded h1 \<and> \<not> frozen h1"
      using ran(1)
    proof (cases rule: replace_runs)
      case looked
      have "guarded []" "guarded [EvLook]" "\<not> frozen [EvLook]"
        using guarded_snoc [of "[]" EvLook] frozen_snoc(2) [of "[]" EvLook] by (simp_all add: guarded_def)
      with looked guarded_neutral neutral_extends(1) show ?thesis by (metis append_Nil)
    next
      case (stopped h2 peer running sessions p)
      have "guarded [EvLook]" "\<not> frozen [EvLook]"
        using guarded_snoc [of "[]" EvLook] frozen_snoc(2) [of "[]" EvLook] by (simp_all add: guarded_def)
      moreover have "extends neutral [EvLook] (h2 @ [EvAsked ReqList])"
        by (rule extendsI(4)) (use stopped(1) in simp_all)
      ultimately have "guarded (h2 @ [EvAsked ReqList])" "\<not> frozen (h2 @ [EvAsked ReqList])"
        using guarded_neutral neutral_extends(1) by blast+
      from stop_guarded [OF waking stopped(4) this] show ?thesis .
    qed
    with ran(2) guarded_neutral neutral_extends(1) show ?thesis by metis
  next
    case refused
    then show ?thesis by (simp add: guarded_def)
  next
    case unidentified
    then show ?thesis using guarded_snoc [of "[]" EvLook] frozen_snoc(2) [of "[]" EvLook] by (simp add: guarded_def)
  qed
  moreover have "watching pre" if "guarded (pre @ suf)" "frozen pre" for pre suf
  proof (rule guarded_now [OF _ that(2)])
    show "guarded pre" using that(1) unfolding guarded_def everywhere_def by fastforce
  qed
  moreover have "\<not> frozen (fst (watch_stopped_daemon env (Inr None) pre))" for pre
    using wake_up(1) [OF waking, of pre] by (cases "pidfd_send_signal env SigCont pre") (simp add: watch_stopped_daemon_def)
  ultimately show ?thesis by blast
qed

section \<open>Ended only when idle\<close>

text \<open>The daemon was asked for its sessions before, by the same peer, and none of them blocks the upgrade.\<close>

definition listed :: "upgrade_env \<Rightarrow> history \<Rightarrow> bool" where
  "listed env h \<longleftrightarrow>
     (\<exists>pre suf sessions peer. h = pre @ EvAsked ReqList # suf
        \<and> ue_request env pre ReqList = Inr (ResSessions sessions, peer) \<and> dp_uid peer = ue_uid env
        \<and> \<not> sessions_block_upgrade sessions)"

text \<open>Then it was frozen, looked at until it was seen stopped, and had no children; nothing woke it since.\<close>

definition idle_when_frozen :: "upgrade_env \<Rightarrow> history \<Rightarrow> bool" where
  "idle_when_frozen env h \<longleftrightarrow>
     (\<exists>h0 s looks status children. h = h0 @ s # looks @ [EvState (Some status), EvChildren children]
        \<and> listed env h0 \<and> s \<in> {EvSignal SigStop, EvNoProcess SigStop} \<and> (\<forall>e\<in>set looks. \<exists>t. e = EvState t)
        \<and> shows_stopped status \<and> trim children = [])"

definition terminated_idle :: "upgrade_env \<Rightarrow> history \<Rightarrow> bool" where
  "terminated_idle env = everywhere (\<lambda>pre e. e = EvSignal SigTerm \<longrightarrow> idle_when_frozen env pre)"

lemma terminated_snoc [simp]:
  "terminated_idle env (h @ [e]) \<longleftrightarrow> terminated_idle env h \<and> (e = EvSignal SigTerm \<longrightarrow> idle_when_frozen env h)"
  by (simp add: terminated_idle_def)

lemma calm_terminated: "extends calm h h' \<Longrightarrow> terminated_idle env h \<Longrightarrow> terminated_idle env h'"
  unfolding terminated_idle_def extends_def by (auto simp: list_all_iff calm_def intro!: everywhere_append)

lemma stop_frozen_terminated:
  assumes run: "stop_frozen env pid g h = (g', (h', r))" and h: "terminated_idle env h" "listed env h"
  shows "terminated_idle env h'"
proof -
  obtain h1 r1 where 1: "pidfd_send_signal env SigStop h = (h1, r1)" by fastforce
  from send_extends(1) [OF 1] h have h1: "terminated_idle env h1" by auto
  obtain h2 r2 where 2: "wait_for_process_stopped env RELEASE_STOP_TIMEOUT 0 h1 = (h2, r2)" by fastforce
  note w2 = wait_stopped_extends [OF 2]
  have h2: "terminated_idle env h2" using w2 neutral_calm calm_terminated h1 by blast
  obtain h3 r3 where 3: "process_has_children env h2 = (h3, r3)" by fastforce
  note w3 = small_extends(6) [OF 3]
  have h3: "terminated_idle env h3" using w3 neutral_calm calm_terminated h2 by blast
  obtain h4 r4 where 4: "pidfd_send_signal env SigTerm h3 = (h4, r4)" by fastforce
  obtain g5 h5 r5 where 5: "guard_resume env g h4 = (g5, (h5, r5))" by (metis prod.collapse)
  show ?thesis
  proof (cases "r1 = Inr () \<and> r2 = Inr True \<and> r3 = Inr False")
    case False
    with run 1 2 3 have "h' \<in> {h1, h2, h3}"
      by (cases r1; cases r2; cases r3) (auto simp: stop_frozen_def split: bool.splits)
    with h1 h2 h3 show ?thesis by auto
  next
    case True
    from send_extends(1) [OF 1] True obtain s where s: "h1 = h @ [s]" "s \<in> {EvSignal SigStop, EvNoProcess SigStop}" by auto
    from w2 True obtain looks status where l: "h2 = h1 @ looks @ [EvState (Some status)]" "shows_stopped status"
      "\<forall>e\<in>set looks. \<exists>t. e = EvState t" by blast
    from w3 True obtain children where c: "h3 = h2 @ [EvChildren children]" "trim children = []" by blast
    have "h3 = h @ s # looks @ [EvState (Some status), EvChildren children]" using s(1) l(1) c(1) by simp
    with h(2) s(2) l(2,3) c(2) have "idle_when_frozen env h3" unfolding idle_when_frozen_def by blast
    then have h4: "terminated_idle env h4" using send_extends(1) [OF 4] h3 by auto
    then have h5: "terminated_idle env h5" using calm_terminated [OF resume_extends [OF 5]] by simp
    have "h' \<in> {h4, h5, h5 @ [EvLook]}"
      using run 1 2 3 4 5 True
      by (cases r4; cases r5) (auto simp: stop_frozen_def wait_for_pidfd_exit_def)
    with h4 h5 show ?thesis by auto
  qed
qed

lemma stop_terminated:
  assumes run: "stop_authenticated_idle_daemon env peer running (h2 @ [EvAsked ReqList]) = (h', r)"
    and h: "terminated_idle env h2" "ue_request env h2 ReqList = Inr (ResSessions sessions, peer)"
      "\<not> sessions_block_upgrade sessions"
  shows "terminated_idle env h'"
  using run
proof (cases rule: stop_runs)
  case looked
  with h(1) neutral_calm calm_terminated show ?thesis by (metis extendsI(3) neutral_events(4))
next
  case (guarded h3 g4 h4)
  from guarded(1) obtain es where es: "h3 = h2 @ EvAsked ReqList # es" "list_all neutral es" by (auto simp: extends_def)
  have "terminated_idle env (h3 @ [EvWatchdog])"
    using guarded(1) h(1) neutral_calm calm_terminated [of "h2 @ [EvAsked ReqList]" h3 env] by auto
  moreover have "listed env (h3 @ [EvWatchdog])"
    unfolding listed_def
    by (rule exI [of _ h2], rule exI [of _ "es @ [EvWatchdog]"], rule exI [of _ sessions], rule exI [of _ peer])
      (simp add: es(1) h(2,3) guarded(2))
  ultimately have "terminated_idle env h4" by (rule stop_frozen_terminated [OF guarded(3)])
  with guarded(4) calm_terminated [OF drop_extends] show ?thesis by simp
qed


section \<open>A daemon of this release\<close>

text \<open>The last thing that happened is a ping whose answer came from a process that runs this file.\<close>

definition pinged_as :: "upgrade_env \<Rightarrow> u64 \<times> u64 \<Rightarrow> history \<Rightarrow> bool" where
  "pinged_as env identity h \<longleftrightarrow>
     (\<exists>pre pid n peer. h = pre @ [EvAsked ReqPing, EvLook] \<and> ue_request env pre ReqPing = Inr (ResPong pid n, peer)
        \<and> int (unat pid) = sint (dp_pid peer)
        \<and> ue_identity env (pre @ [EvAsked ReqPing]) (proc_exe (dp_pid peer)) = Inr (True, identity))"

lemma ping_answer:
  assumes "authenticated_ping env h = (h', Inr (pid, n, peer, identity))"
  shows "pinged_as env identity h'"
proof -
  obtain result p where 1: "ue_request env h ReqPing = Inr (result, p)"
    using assms by (cases "ue_request env h ReqPing") (auto simp: authenticated_ping_def request_with_peer_def)
  obtain pong m where 2: "result = ResPong pong m"
    using assms 1 by (cases result) (auto simp: authenticated_ping_def request_with_peer_def)
  obtain h2 q where 3: "daemon_file_identity env (proc_exe (dp_pid p)) (h @ [EvAsked ReqPing]) = (h2, q)" by fastforce
  from assms 1 2 3 have "q = Inr identity" "h' = h2" "int (unat pong) = sint (dp_pid p)"
    by (cases q; auto simp: authenticated_ping_def request_with_peer_def split: if_splits)+
  moreover from this(1) 3 have "ue_identity env (h @ [EvAsked ReqPing]) (proc_exe (dp_pid p)) = Inr (True, identity)"
    "h2 = h @ [EvAsked ReqPing, EvLook]"
    by (auto simp: daemon_file_identity_def split: sum.splits if_splits)
  ultimately show ?thesis using 1 2 unfolding pinged_as_def by blast
qed

lemma current_answer: "daemon_is_current env desired h = (h', True) \<Longrightarrow> pinged_as env desired h'"
  using ping_answer [of env "h @ [EvLook]"]
  by (auto simp: daemon_is_current_def connect_default_def split: sum.splits option.splits prod.splits)

lemma polls_answer: "start_polls env desired n h = (h', Inr ()) \<Longrightarrow> pinged_as env desired h'"
proof (induction n arbitrary: h)
  case (Suc n)
  obtain h1 b where 1: "daemon_is_current env desired h = (h1, b)" by fastforce
  from Suc 1 current_answer [of env desired h h1] show ?case
    by (auto simp: bind_result_def split: bool.splits sum.splits option.splits)
qed (auto simp: bind_result_def split: sum.splits)

lemma replace_answer: "replace_stale_daemon env desired h = (h', Inr True) \<Longrightarrow> pinged_as env desired h'"
  using ping_answer [of env "h @ [EvLook]"]
  by (auto simp: replace_stale_daemon_def connect_default_def andThen_Inr_iff split: sum.splits option.splits prod.splits
      if_splits daemon_result.splits)

text \<open>C18. When the launcher has a daemon, it is one of this release: the executable is a private file of the user, and the
  last thing that happened is that a process that runs this very file answered a ping.\<close>

theorem ensured_daemon_is_current:
  assumes run: "ensure_running env [] = (h', Inr ())"
  shows "\<exists>exe identity. daemon_executable env = Inr exe \<and> validate_daemon_executable env exe = Inr ()
    \<and> ue_identity env [] exe = Inr (True, identity) \<and> pinged_as env identity h'"
proof (cases "bind_result (daemon_executable env) (\<lambda>exe. map_sum id (\<lambda>_. exe) (validate_daemon_executable env exe))")
  case (Inl err)
  with run show ?thesis by (simp add: ensure_running_def)
next
  case (Inr exe)
  have exe: "daemon_executable env = Inr exe" "validate_daemon_executable env exe = Inr ()"
  proof -
    obtain found where found: "daemon_executable env = Inr found"
      using Inr by (cases "daemon_executable env") (auto simp: bind_result_def)
    with Inr show "daemon_executable env = Inr exe" "validate_daemon_executable env exe = Inr ()"
      by (cases "validate_daemon_executable env found"; auto simp: bind_result_def)+
  qed
  from run Inr obtain h1 identity where 1: "daemon_file_identity env exe [] = (h1, Inr identity)"
    by (auto simp: ensure_running_def andThen_Inr_iff)
  then have "ue_identity env [] exe = Inr (True, identity)"
    by (auto simp: daemon_file_identity_def split: sum.splits if_splits)
  moreover obtain h2 b where 2: "replace_stale_daemon env identity h1 = (h2, Inr b)"
    using run Inr 1 by (auto simp: ensure_running_def andThen_Inr_iff)
  moreover have "pinged_as env identity h'"
  proof (cases b)
    case True
    with run Inr 1 2 replace_answer [of env identity h1 h2] show ?thesis by (simp add: ensure_running_def)
  next
    case False
    with run Inr 1 2 polls_answer [of env identity START_ATTEMPTS "h2 @ [EvSpawned]" h'] show ?thesis
      by (simp add: ensure_running_def split: option.splits)
  qed
  ultimately show ?thesis using exe by blast
qed

section \<open>A concrete upgrade\<close>

definition sample_upgrade_env :: upgrade_env where
  "sample_upgrade_env =
     \<lparr>ue_uid = 1000, ue_ipc_text = (\<lambda>_. ''ipc''), ue_connect = (\<lambda>_. None),
      ue_request = (\<lambda>h q. let new = list_ex (\<lambda>e. case e of EvSpawned \<Rightarrow> True | _ \<Rightarrow> False) h
         in Inr (case q of ReqPing \<Rightarrow> ResPong (if new then 9 else 8) 0 | _ \<Rightarrow> ResSessions [],
                 \<lparr>dp_pid = (if new then 9 else 8), dp_uid = 1000\<rparr>)),
      ue_identity = (\<lambda>_ path. Inr (True, 1, if path = ''/proc/8/exe'' then 1 else 2)),
      ue_symlink_metadata = (\<lambda>_. Inr \<lparr>Worker.file_metadata.fm_is_file = True, Worker.file_metadata.fm_is_dir = False,
        Worker.file_metadata.fm_uid = 1000, Worker.file_metadata.fm_mode = 493\<rparr>),
      ue_is_file = (\<lambda>_. True), ue_current_exe = Inr ''/opt/wroid/wroid'', ue_var = (\<lambda>_. None), ue_gone = (\<lambda>_. False),
      ue_exited = (\<lambda>_. PollTimeout), ue_exit_polls = (\<lambda>_. [(PollInterrupted, 7), (PollReady True, 0)]),
      ue_signal = (\<lambda>_ _. SignalSent), ue_state = (\<lambda>_. Inr ''State: T (stopped)''), ue_children = (\<lambda>_. Inr '' ''),
      ue_delay = (\<lambda>_. 0), ue_watchdog = (\<lambda>_. None), ue_control = (\<lambda>_. None),
      ue_watchdog_status = (\<lambda>_. Inr (Some \<lparr>es_success = True, es_text = ''exit status: 0''\<rparr>)),
      ue_log = None, ue_spawn = (\<lambda>_. None), ue_child = (\<lambda>_. Inr None)\<rparr>"

lemma sample_upgrade:
  "ensure_running sample_upgrade_env [] =
     ([EvLook, EvLook, EvAsked ReqPing, EvLook, EvAsked ReqList, EvLook, EvLook, EvWatchdog, EvSignal SigStop,
       EvState (Some ''State: T (stopped)''), EvChildren '' '', EvSignal SigTerm, EvSignal SigCont, EvDisarmed, EvLook, EvLook,
       EvSpawned, EvLook, EvAsked ReqPing, EvLook], Inr ())"
  by code_simp

lemma stale_daemon_wakes_up_witness:
  "watching [EvLook, EvLook, EvAsked ReqPing, EvLook, EvAsked ReqList, EvLook, EvLook, EvWatchdog, EvSignal SigStop]"
proof -
  have "waking sample_upgrade_env" by (simp add: waking_def sample_upgrade_env_def)
  from stale_daemon_wakes_up [OF this sample_upgrade] show ?thesis
    by (auto simp: frozen_def dest!: spec [of _ "[EvLook, EvLook, EvAsked ReqPing, EvLook, EvAsked ReqList, EvLook, EvLook,
        EvWatchdog, EvSignal SigStop]"])
qed


lemma ensured_daemon_is_current_witness:
  "\<exists>exe identity. daemon_executable sample_upgrade_env = Inr exe \<and> validate_daemon_executable sample_upgrade_env exe = Inr ()
    \<and> ue_identity sample_upgrade_env [] exe = Inr (True, identity)
    \<and> pinged_as sample_upgrade_env identity (fst (ensure_running sample_upgrade_env []))"
  using ensured_daemon_is_current [OF sample_upgrade] by (simp add: sample_upgrade)

end
