(* ===== verification/ManagedSpec.thy ===== *)
theory ManagedSpec
  imports ManagedLaunch UpgradeSpec IpcSafe DesktopSpec
begin

text \<open>
  What the launcher promises: its session names are new and are accepted by the daemon, an idle listing means that the
  daemon has no worker, and a game that was launched in the foreground is watched to its end or asked to stop.
\<close>

section \<open>Session names\<close>

lemma id_bytes: "list_all id_byte ''0123456789''" "list_all id_byte ''hub-''"
  by code_simp+

lemma id_byte_digit: "c \<in> digit_chars \<Longrightarrow> id_byte c"
  using id_bytes(1) unfolding digit_chars_def list_all_iff by blast

lemma show_nat_length: "n < 10 ^ k \<Longrightarrow> 0 < k \<Longrightarrow> length (show_nat n) \<le> k"
proof (induction n arbitrary: k rule: show_nat.induct)
  case (1 n)
  show ?case
  proof (cases "n < 10")
    case True
    with "1.prems" show ?thesis by (subst show_nat.simps) simp
  next
    case False
    from False "1.prems" have "1 < k" by (cases "k = 1") auto
    then obtain m where m: "k = Suc m" "0 < m" by (cases k) auto
    with "1.prems"(1) have "n div 10 < 10 ^ m" by (simp add: less_mult_imp_div_less)
    from "1.IH" [OF False this m(2)] False m show ?thesis by (subst show_nat.simps) simp
  qed
qed

lemma dash_split:
  assumes "a @ CHR ''-'' # x = b @ CHR ''-'' # y" "set a \<subseteq> digit_chars" "set b \<subseteq> digit_chars"
  shows "a = b \<and> x = y"
proof -
  have dash: "CHR ''-'' \<notin> digit_chars" by (simp add: digit_chars_def)
  from assms(2,3) dash have "CHR ''-'' \<notin> set a" "CHR ''-'' \<notin> set b" by auto
  with assms(1) show ?thesis
  proof (induction a arbitrary: b)
    case Nil
    then show ?case by (cases b) auto
  next
    case (Cons c a)
    then show ?case by (cases b) auto
  qed
qed

lemma show_nat_inj: "show_nat m = show_nat n \<Longrightarrow> m = n"
  by (metis digits_value_show option.inject)

lemma trim_not_empty: "trim (next_hub_session_id pid millis sequence) \<noteq> []"
proof -
  have "set ''h'' \<subseteq> word_chars" by (simp add: word_chars_def)
  moreover have "set (show_nat (unat sequence)) \<subseteq> word_chars"
    using show_nat_digits(1) [of "unat sequence"] digits_are_words by blast
  ultimately have h: "set ''h'' \<subseteq> word_chars" "set (show_nat (unat sequence)) \<subseteq> word_chars" by blast+
  have "trim (''h'' @ (''ub-'' @ show_u32 pid @ ''-'' @ show_nat millis @ ''-'') @ show_nat (unat sequence)) \<noteq> []"
    by (subst trim_word [OF h(1) _ h(2) show_nat_digits(2)]) simp_all
  then show ?thesis by (simp add: next_hub_session_id_def)
qed

text \<open>The names the launcher makes up are accepted by the daemon, and two names are equal only for the same process,
  time and sequence number.\<close>

theorem hub_session_ids:
  assumes millis: "millis < 10 ^ 39"
  shows "validated_session_id (next_hub_session_id pid millis sequence) = Inr (next_hub_session_id pid millis sequence)
    \<and> (next_hub_session_id pid millis sequence = next_hub_session_id pid' millis' sequence' \<longrightarrow>
         pid = pid' \<and> millis = millis' \<and> sequence = sequence')"
proof
  let ?i = "next_hub_session_id pid millis sequence"
  have "unat pid < 2 ^ 32" "unat sequence < 2 ^ 64" using unsigned_less [of pid] unsigned_less [of sequence] by simp_all
  then have pid: "unat pid < 10 ^ 10" and sq: "unat sequence < 10 ^ 20" by simp_all
  have "length ?i \<le> 4 + 10 + 1 + 39 + 1 + 20"
    using show_nat_length [OF pid] show_nat_length [OF sq] show_nat_length [OF millis]
    by (simp add: next_hub_session_id_def show_u32_def)
  moreover have bytes: "list_all id_byte ?i"
    using show_nat_digits(1) id_byte_digit id_bytes(2)
    by (auto simp: next_hub_session_id_def show_u32_def list_all_iff subset_eq)
  moreover have "trim ?i \<noteq> []"
    by (rule trim_not_empty)
  ultimately show "validated_session_id ?i = Inr ?i"
    by (simp add: validated_session_id_def session_id_new_def next_hub_session_id_def)
next
  show "next_hub_session_id pid millis sequence = next_hub_session_id pid' millis' sequence' \<longrightarrow>
         pid = pid' \<and> millis = millis' \<and> sequence = sequence'"
  proof
    assume "next_hub_session_id pid millis sequence = next_hub_session_id pid' millis' sequence'"
    then have "show_nat (unat pid) @ CHR ''-'' # show_nat millis @ CHR ''-'' # show_nat (unat sequence)
      = show_nat (unat pid') @ CHR ''-'' # show_nat millis' @ CHR ''-'' # show_nat (unat sequence')"
      by (simp add: next_hub_session_id_def show_u32_def)
    from dash_split [OF this show_nat_digits(1) show_nat_digits(1)]
    have "show_nat (unat pid) = show_nat (unat pid')"
      and rest: "show_nat millis @ CHR ''-'' # show_nat (unat sequence) = show_nat millis' @ CHR ''-'' # show_nat (unat sequence')"
      by auto
    moreover from dash_split [OF rest show_nat_digits(1) show_nat_digits(1)]
    have "show_nat millis = show_nat millis'" "show_nat (unat sequence) = show_nat (unat sequence')" by auto
    ultimately show "pid = pid' \<and> millis = millis' \<and> sequence = sequence'"
      by (metis show_nat_inj unsigned_word_eqI)
  qed
qed

section \<open>An idle daemon\<close>

text \<open>C20. A daemon that lists no session that blocks the upgrade has no worker: after any run of its loop, the answer that
  lets the launcher replace it comes from a daemon without children.\<close>

theorem idle_listing_means_no_worker:
  assumes run: "serve_until parse envs (server_new uid) = (sv, r)"
    and listing: "dispatch os peer ReqList sv = (sv', Inr (ResSessions sessions))"
    and idle: "\<not> sessions_block_upgrade sessions"
  shows "RBT.is_empty (sv_processes sv')"
proof -
  have inv: "server_inv sv" using serve_until_keeps [OF server_inv_new, of parse envs uid] run by (cases r) auto
  from listing have sv': "sv' = sv" and sessions: "sessions = map snapshot_of (manager_sessions (sv_manager sv))"
    by (auto simp: dispatch_def)
  have "RBT.lookup (sv_processes sv) i = None" for i
  proof (rule ccontr)
    assume "RBT.lookup (sv_processes sv) i \<noteq> None"
    then obtain p where p: "RBT.lookup (sv_processes sv) i = Some p" by blast
    from inv have "tracked (manager_session (sv_manager sv) i) (Some p)" unfolding server_inv_def using p by metis
    then obtain s where s: "manager_session (sv_manager sv) i = Some s" "rs_process_id s = Some (mp_pid p)"
      "rs_state s = StRunning \<or> rs_state s = StStopping"
      by (cases "manager_session (sv_manager sv) i") (auto simp: tracked_def)
    from s(1) have "(i, s) \<in> set (RBT.entries (sv_manager sv))"
      unfolding manager_session_def RBT.map_of_entries [symmetric] by (rule map_of_SomeD)
    then have "snapshot_of s \<in> set sessions" by (force simp: sessions manager_sessions_def)
    moreover have "sn_process_id (snapshot_of s) \<noteq> None \<and> sn_state (snapshot_of s) \<in> {SsPreparing, SsRunning, SsStopping}"
      using s(2,3) by (auto simp: snapshot_of_def state_wire_def)
    ultimately show False using idle unfolding sessions_block_upgrade_def list_ex_iff by blast
  qed
  then have "RBT.lookup (sv_processes sv) = Map.empty" by blast
  then show ?thesis by (simp add: sv')
qed

section \<open>Waiting for the end of a game\<close>

text \<open>A wait only looks, asks for the state of its session and asks for its stop.\<close>

definition waits_for :: "string \<Rightarrow> upgrade_event \<Rightarrow> bool" where
  "waits_for i e \<longleftrightarrow> e = EvLook \<or> e = EvAsked (ReqState i) \<or> e = EvAsked (managed_stop_request i)"

definition stops :: "string \<Rightarrow> history \<Rightarrow> nat" where
  "stops i es = length (filter (\<lambda>e. e = EvAsked (managed_stop_request i)) es)"

lemma waits_for_simps [simp]:
  "waits_for i EvLook" "waits_for i (EvAsked (ReqState i))" "waits_for i (EvAsked (managed_stop_request i))"
  by (simp_all add: waits_for_def)

lemma stops_simps [simp]:
  "stops i [] = 0" "stops i (EvLook # es) = stops i es" "stops i (EvAsked (ReqState i) # es) = stops i es"
  "stops i (EvAsked (managed_stop_request i) # es) = Suc (stops i es)" "stops i (xs @ ys) = stops i xs + stops i ys"
  by (simp_all add: stops_def managed_stop_request_def)

lemma copy_history: "copy_available_log env w = (w', r) \<Longrightarrow> mw_history w' = mw_history w @ [EvLook]"
  by (auto simp: copy_available_log_def Let_def split: prod.splits)

lemma state_history:
  assumes "managed_session_state env i h = (h', r)"
  shows "h' = h @ [EvLook] \<or> h' = h @ [EvLook, EvAsked (ReqState i)]"
    and "r = Inr s \<Longrightarrow> h' = h @ [EvLook, EvAsked (ReqState i)]
      \<and> (\<exists>p. ue_request env (h @ [EvLook]) (ReqState i) = Inr (ResSession s, p))"
  using assms
  by (auto simp: managed_session_state_def connected_def connect_default_def ask_def request_with_peer_def as_session_def
      andThen_Inr_iff andThen_Inl_iff split: sum.splits option.splits daemon_result.splits andThen_splits)

lemma interrupt_history:
  assumes "managed_interrupt env i sent w = (w', r)"
  shows "\<exists>es. mw_history w' = mw_history w @ es
    \<and> (es = [] \<and> r = Inr sent \<or> \<not> sent \<and> es = [EvLook] \<and> (\<exists>err. r = Inl err)
       \<or> \<not> sent \<and> es = [EvLook, EvAsked (managed_stop_request i)] \<and> (r = Inr True \<or> (\<exists>err. r = Inl err)))"
  using assms
  by (auto simp: managed_interrupt_def on_daemon_def connected_def connect_default_def request_with_peer_def context_of_def
      split: if_splits option.splits sum.splits andThen_splits)

text \<open>The answer that ends a wait: the daemon said at the end of this history that the session is finished.\<close>

definition reported :: "managed_env \<Rightarrow> string \<Rightarrow> history \<Rightarrow> session_snapshot \<Rightarrow> bool" where
  "reported env i h s \<longleftrightarrow>
     (\<exists>pre p. h = pre @ [EvAsked (ReqState i)] \<and> ue_request (me_daemon env) pre (ReqState i) = Inr (ResSession s, p))"

text \<open>What one turn adds, and what it says when it ends the wait.\<close>

lemma turn_history:
  assumes run: "managed_turn env i sent w = (w', r)"
  shows "\<exists>es. mw_history w' = mw_history w @ es \<and> list_all (waits_for i) es
    \<and> stops i es \<le> (if sent then 0 else 1)
    \<and> (\<forall>sent1 q. r = Inr (sent1, q) \<longrightarrow> stops i es = (if sent1 \<and> \<not> sent then 1 else 0) \<and> (sent \<longrightarrow> sent1))"
    and "r = Inr (sent1, Some q) \<Longrightarrow> \<exists>s h. q = managed_terminal_result s \<and> managed_session_finished s \<and> reported env i h s
      \<and> mw_history w' = h @ [EvLook]"
proof -
  obtain w1 r1 where 1: "copy_available_log env w = (w1, r1)" by fastforce
  note h1 = copy_history [OF 1]
  obtain w2 r2 where 2: "managed_interrupt env i sent w1 = (w2, r2)" by fastforce
  from interrupt_history [OF 2] obtain es2 where h2: "mw_history w2 = mw_history w1 @ es2"
    "es2 = [] \<and> r2 = Inr sent \<or> \<not> sent \<and> es2 = [EvLook] \<and> (\<exists>err. r2 = Inl err)
       \<or> \<not> sent \<and> es2 = [EvLook, EvAsked (managed_stop_request i)] \<and> (r2 = Inr True \<or> (\<exists>err. r2 = Inl err))" by blast
  obtain h3 r3 where 3: "managed_session_state (me_daemon env) i (mw_history w2) = (h3, r3)" by fastforce
  let ?w3 = "w2\<lparr>mw_history := h3\<rparr>"
  obtain w4 r4 where 4: "copy_available_log env ?w3 = (w4, r4)" by fastforce
  have h4: "mw_history w4 = h3 @ [EvLook]" using copy_history [OF 4] by simp
  from state_history(1) [OF 3] obtain es3 where h3: "h3 = mw_history w2 @ es3"
    "es3 \<in> {[EvLook], [EvLook, EvAsked (ReqState i)]}" by auto
  note turn = run [unfolded managed_turn_def on_daemon_def]
  have "\<exists>es. mw_history w' = mw_history w @ es \<and> list_all (waits_for i) es
    \<and> stops i es \<le> (if sent then 0 else 1)
    \<and> (\<forall>sent1 q. r = Inr (sent1, q) \<longrightarrow> stops i es = (if sent1 \<and> \<not> sent then 1 else 0) \<and> (sent \<longrightarrow> sent1))"
  proof (cases r1)
    case (Inl e)
    with turn 1 h1 show ?thesis by auto
  next
    case r1: Inr
    show ?thesis
    proof (cases r2)
      case (Inl e)
      with turn 1 r1 2 h1 h2 show ?thesis by (intro exI [of _ "EvLook # es2"]) auto
    next
      case r2: (Inr sent1)
      have b: "stops i es2 = (if sent1 \<and> \<not> sent then 1 else 0)" "sent \<longrightarrow> sent1" "list_all (waits_for i) es2"
        using h2(2) r2 by auto
      have "(w' = ?w3 \<or> w' = w4) \<and> (\<forall>s q. r = Inr (s, q) \<longrightarrow> s = sent1)"
      proof (cases r3)
        case (Inl e)
        with turn show ?thesis by (auto simp: 1 r1 2 r2 3)
      next
        case (Inr s)
        note turn' = turn [unfolded 1 r1 andThen.simps 2 r2 prod.case 3 Inr]
        show ?thesis
        proof (cases "managed_session_finished s")
          case True
          with turn' show ?thesis unfolding 4 by (cases r4) auto
        next
          case False
          with turn' show ?thesis by auto
        qed
      qed
      then have ends: "w' = ?w3 \<or> w' = w4" and same: "\<forall>s q. r = Inr (s, q) \<longrightarrow> s = sent1" by blast+
      from ends have "mw_history w' = mw_history w @ EvLook # es2 @ es3 \<or> mw_history w' = mw_history w @ EvLook # es2 @ es3 @ [EvLook]"
        by (elim disjE) (simp_all add: h1 h2(1) h3(1) h4)
      then obtain es where es: "mw_history w' = mw_history w @ es" "es = EvLook # es2 @ es3 \<or> es = EvLook # es2 @ es3 @ [EvLook]"
        by blast
      have "stops i es = stops i es2" "list_all (waits_for i) es"
        using es(2) h3(2) b(3) by (elim disjE; auto)+
      with b(1,2) same es(1) show ?thesis by (intro exI [of _ es]) (simp, blast)
    qed
  qed
  then show "\<exists>es. mw_history w' = mw_history w @ es \<and> list_all (waits_for i) es
    \<and> stops i es \<le> (if sent then 0 else 1)
    \<and> (\<forall>sent1 q. r = Inr (sent1, q) \<longrightarrow> stops i es = (if sent1 \<and> \<not> sent then 1 else 0) \<and> (sent \<longrightarrow> sent1))" .
  show "\<exists>s h. q = managed_terminal_result s \<and> managed_session_finished s \<and> reported env i h s
      \<and> mw_history w' = h @ [EvLook]" if "r = Inr (sent1, Some q)"
  proof -
    from turn that 1 2 3 obtain s where s: "r3 = Inr s" "managed_session_finished s" "q = managed_terminal_result s"
      "copy_available_log env ?w3 = (w', Inr ())"
      by (auto simp: andThen_Inr_iff split: if_splits)
    from state_history(2) [OF 3 s(1)] have "reported env i h3 s" by (auto simp: reported_def)
    with s copy_history [OF s(4)] show ?thesis by auto
  qed
qed

lemma turns_history:
  assumes "managed_turns n env i sent w = (w', r)"
  shows "\<exists>es. mw_history w' = mw_history w @ es \<and> list_all (waits_for i) es \<and> stops i es \<le> (if sent then 0 else 1)"
    and "r = Some (Inr ()) \<Longrightarrow> \<exists>s h. sn_state s = SsStopped \<and> reported env i h s \<and> mw_history w' = h @ [EvLook]"
proof -
  have "(\<exists>es. mw_history w' = mw_history w @ es \<and> list_all (waits_for i) es \<and> stops i es \<le> (if sent then 0 else 1))
    \<and> (r = Some (Inr ()) \<longrightarrow> (\<exists>s h. sn_state s = SsStopped \<and> reported env i h s \<and> mw_history w' = h @ [EvLook]))"
    using assms
  proof (induction n arbitrary: sent w)
    case 0
    then show ?case by auto
  next
    case (Suc n)
    obtain w1 r1 where 1: "managed_turn env i sent w = (w1, r1)" by fastforce
    from turn_history(1) [OF 1] obtain es where es: "mw_history w1 = mw_history w @ es" "list_all (waits_for i) es"
      "stops i es \<le> (if sent then 0 else 1)"
      "\<forall>sent1 q. r1 = Inr (sent1, q) \<longrightarrow> stops i es = (if sent1 \<and> \<not> sent then 1 else 0) \<and> (sent \<longrightarrow> sent1)" by blast
    show ?case
    proof (cases "\<exists>sent1. r1 = Inr (sent1, None)")
      case True
      then obtain sent1 where r1: "r1 = Inr (sent1, None)" by blast
      with Suc.prems 1 have "managed_turns n env i sent1 w1 = (w', r)" by simp
      from Suc.IH [OF this] obtain es' where es': "mw_history w' = mw_history w1 @ es'" "list_all (waits_for i) es'"
        "stops i es' \<le> (if sent1 then 0 else 1)"
        "r = Some (Inr ()) \<longrightarrow> (\<exists>s h. sn_state s = SsStopped \<and> reported env i h s \<and> mw_history w' = h @ [EvLook])" by blast
      with es r1 show ?thesis by (intro conjI exI [of _ "es @ es'"]) (auto split: if_splits)
    next
      case False
      show ?thesis
      proof (cases r1)
        case (Inl e)
        with Suc.prems 1 es show ?thesis by auto
      next
        case (Inr p)
        with False obtain sent1 q where r1: "r1 = Inr (sent1, Some q)" by (cases p) (auto split: option.splits)
        with Suc.prems 1 have w': "w' = w1" "r = Some q" by auto
        from turn_history(2) [OF 1 r1] obtain s h where "q = managed_terminal_result s" "managed_session_finished s"
          "reported env i h s" "mw_history w1 = h @ [EvLook]" by blast
        then have "r = Some (Inr ()) \<longrightarrow> (\<exists>s h. sn_state s = SsStopped \<and> reported env i h s \<and> mw_history w1 = h @ [EvLook])"
          using w'(2)
          by (cases "sn_state s") (auto simp: managed_terminal_result_def managed_session_finished_def)
        with es(1,2,3) show ?thesis unfolding w'(1) by blast
      qed
    qed
  qed
  then show "\<exists>es. mw_history w' = mw_history w @ es \<and> list_all (waits_for i) es \<and> stops i es \<le> (if sent then 0 else 1)"
    "r = Some (Inr ()) \<Longrightarrow> \<exists>s h. sn_state s = SsStopped \<and> reported env i h s \<and> mw_history w' = h @ [EvLook]"
    by blast+
qed

lemma wait_history:
  assumes "wait_for_managed_session n env i w = (w', r)"
  shows "\<exists>es. mw_history w' = mw_history w @ es \<and> list_all (waits_for i) es \<and> stops i es \<le> 1"
    and "r = Some (Inr ()) \<Longrightarrow> \<exists>s h. sn_state s = SsStopped \<and> reported env i h s \<and> mw_history w' = h @ [EvLook]"
  using assms turns_history [of n env i False w w' r]
  by (auto simp: wait_for_managed_session_def split: sum.splits)

text \<open>C19. A game that was launched in the foreground is not abandoned: when the launcher ends without an error, the last
  thing the daemon said is that the session has stopped; when it ends with an error, it has asked for the stop, or the
  daemon could not be reached for it. Meanwhile it asked at most once.\<close>

theorem managed_game_not_abandoned:
  assumes started: "on_daemon (start_managed_game (me_daemon env) resolve gamescope session_id path profile opts False) w
      = (w1, Inr launched)"
    and run: "launch_v2_managed fuel env resolve load leases preflight handler gamescope session_id profile_path opts w = (w', Some r)"
    and passed: "resolve profile_path = Inr path" "load_validated_profile load path = Inr profile"
      "ensure_input_bridge_available leases = Inr ()" "preflight profile (po_launch_package opts) = Inr ()" "handler = None"
  shows "\<exists>es. mw_history w' = mw_history w1 @ es \<and> list_all (waits_for session_id) es \<and>
    (case r of
       Inr _ \<Rightarrow> stops session_id es \<le> 1 \<and> (\<exists>s h. sn_state s = SsStopped \<and> reported env session_id h s
         \<and> mw_history w' = h @ [EvLook])
     | Inl _ \<Rightarrow> stops session_id es \<in> {1, 2} \<or> (\<exists>h. mw_history w' = h @ [EvLook] \<and> ue_connect (me_daemon env) h \<noteq> None))"
proof -
  have id: "ml_session_id launched = session_id"
    using started
    by (auto simp: on_daemon_def start_managed_game_def split: sum.splits prod.splits option.splits if_splits)
  obtain w2 q where 2: "wait_for_managed_session fuel env session_id w1 = (w2, q)" by fastforce
  note wait = wait_history [OF 2]
  from wait(1) obtain es where es: "mw_history w2 = mw_history w1 @ es" "list_all (waits_for session_id) es"
    "stops session_id es \<le> 1" by blast
  note launch = run [unfolded launch_v2_managed_def passed sum.case bind_result_def option.case started prod.case id 2]
  show ?thesis
  proof (cases "\<exists>err. q = Some (Inl err)")
    case False
    then have q: "q = Some r" "w' = w2" "\<forall>err. r \<noteq> Inl err" using launch by (auto split: option.splits sum.splits)
    then have "r = Inr ()" by (cases r) auto
    with es wait(2) q show ?thesis by (intro exI [of _ es]) simp
  next
    case True
    then obtain err where q: "q = Some (Inl err)" by blast
    let ?h = "mw_history w2"
    have w': "mw_history w' = managed_cleanup_drop (me_daemon env) session_id True ?h" "r = Inl err"
      using launch q by auto
    show ?thesis
    proof (cases "ue_connect (me_daemon env) ?h")
      case (Some e)
      then have "mw_history w' = ?h @ [EvLook]" using w'(1) by (simp add: managed_cleanup_drop_def connect_default_def)
      with Some es w'(2) show ?thesis by (intro exI [of _ "es @ [EvLook]"]) auto
    next
      case None
      then have "mw_history w' = ?h @ [EvLook, EvAsked (managed_stop_request session_id)]"
        using w'(1) by (simp add: managed_cleanup_drop_def connect_default_def request_with_peer_def)
      with es w'(2) show ?thesis
        by (intro exI [of _ "es @ [EvLook, EvAsked (managed_stop_request session_id)]"]) auto
    qed
  qed
qed

section \<open>Concrete runs\<close>

lemma hub_session_ids_witness:
  "validated_session_id (next_hub_session_id 42 1700000000000 7) = Inr (next_hub_session_id 42 1700000000000 7)"
  using hub_session_ids [of 1700000000000 42 7 42 7 7] by simp

lemma idle_listing_means_no_worker_witness: "RBT.is_empty (sv_processes (server_new 1000))"
proof (rule idle_listing_means_no_worker)
  show "serve_until (\<lambda>_. Inl []) [] (server_new 1000) = (server_new 1000, Inr ())" by simp
  show "dispatch undefined 9 ReqList (server_new 1000) = (server_new 1000, Inr (ResSessions []))"
  proof -
    have "manager_sessions manager_new = []" by code_simp
    then show ?thesis by (simp add: dispatch_def server_new_def)
  qed
  show "\<not> sessions_block_upgrade []" by (simp add: sessions_block_upgrade_def)
qed

text \<open>A daemon of this release launches the game; at the first look it has stopped.\<close>

definition sample_snapshot :: "session_state_wire \<Rightarrow> session_snapshot" where
  "sample_snapshot st = \<lparr>sn_session_id = ''s'', sn_state = st, sn_package_name = ''com.game'', sn_launch_package = True,
     sn_control_count = 3, sn_process_id = Some 9, sn_detail = None\<rparr>"

definition sample_daemon_env :: upgrade_env where
  "sample_daemon_env = sample_upgrade_env\<lparr>ue_identity := (\<lambda>_ _. Inr (True, 1, 1)), ue_var := (\<lambda>_. Some ''/s''),
     ue_request := (\<lambda>_ q. Inr (case q of
         ReqPing \<Rightarrow> ResPong 8 0 | ReqLaunch _ \<Rightarrow> ResSession (sample_snapshot SsRunning)
       | ReqState _ \<Rightarrow> ResSession (sample_snapshot SsStopped) | _ \<Rightarrow> ResSessions [], \<lparr>dp_pid = 8, dp_uid = 1000\<rparr>))\<rparr>"

definition sample_managed_env :: managed_env where
  "sample_managed_env = \<lparr>me_daemon = sample_daemon_env, me_uid = 1000,
     me_directory = (\<lambda>_. Inr \<lparr>lm_is_dir = True, lm_is_file = False, lm_uid = 1000, lm_mode = 448, lm_links = 2\<rparr>),
     me_open_log = (\<lambda>_. Inr \<lparr>lm_is_dir = False, lm_is_file = True, lm_uid = 1000, lm_mode = 384, lm_links = 1\<rparr>),
     me_log = (\<lambda>_. [LogChunk ''hi'', LogInterrupted]), me_stdout = (\<lambda>_. None), me_interrupted = (\<lambda>_. False)\<rparr>"

definition sample_options :: play_v2_options where
  "sample_options = \<lparr>po_keyboard = None, po_mouse = None, po_resolution = \<lparr>rwidth = 1280, rheight = 720\<rparr>, po_grab = True,
     po_show_ui = True, po_launch_package = True, po_trace_input = False, po_trace_android_input = False,
     po_exit_after = None, po_focus_socket = None\<rparr>"

abbreviation sample_request :: daemon_request where
  "sample_request \<equiv> make_launch_request ''s'' ''/p'' example_profile_v2 sample_options False"

abbreviation sample_launched :: history where
  "sample_launched \<equiv> [EvLook, EvLook, EvAsked ReqPing, EvLook, EvAsked sample_request]"

lemma sample_ready: "ensure_running sample_daemon_env [] = ([EvLook, EvLook, EvAsked ReqPing, EvLook], Inr ())"
  by code_simp

lemma sample_log: "open_private_game_session_log sample_managed_env = Inr ()"
  by code_simp

lemma sample_started:
  "on_daemon (start_managed_game (me_daemon sample_managed_env) Inr False ''s'' ''/p'' example_profile_v2 sample_options False)
     \<lparr>mw_history = [], mw_printed = []\<rparr>
   = (\<lparr>mw_history = sample_launched, mw_printed = []\<rparr>,
      Inr \<lparr>ml_session_id = ''s'', ml_process_id = 9, ml_presentation = presentation_for_game True False 1280 720\<rparr>)"
proof -
  have daemon: "me_daemon sample_managed_env = sample_daemon_env" by (simp add: sample_managed_env_def)
  have "request_with_peer sample_daemon_env sample_request [EvLook, EvLook, EvAsked ReqPing, EvLook]
    = (sample_launched, Inr (ResSession (sample_snapshot SsRunning), \<lparr>dp_pid = 8, dp_uid = 1000\<rparr>))"
    by (simp add: request_with_peer_def sample_daemon_env_def make_launch_request_def)
  then show ?thesis
    by (simp add: on_daemon_def start_managed_game_def daemon sample_ready as_session_def sample_snapshot_def sample_options_def)
qed

lemma sample_waited:
  "wait_for_managed_session 1 sample_managed_env ''s'' \<lparr>mw_history = sample_launched, mw_printed = []\<rparr>
   = (\<lparr>mw_history = sample_launched @ [EvLook, EvLook, EvAsked (ReqState ''s''), EvLook], mw_printed = ''hihi''\<rparr>, Some (Inr ()))"
proof -
  have copy: "copy_available_log sample_managed_env w
    = (w\<lparr>mw_history := mw_history w @ [EvLook], mw_printed := mw_printed w @ ''hi''\<rparr>, Inr ())" for w
    by (simp add: copy_available_log_def sample_managed_env_def Let_def)
  have state: "managed_session_state sample_daemon_env ''s'' h = (h @ [EvLook, EvAsked (ReqState ''s'')], Inr (sample_snapshot SsStopped))" for h
    by (simp add: managed_session_state_def connected_def connect_default_def ask_def request_with_peer_def as_session_def
        sample_daemon_env_def sample_upgrade_env_def)
  have fields: "me_daemon sample_managed_env = sample_daemon_env" "me_interrupted sample_managed_env h = False" for h
    by (simp_all add: sample_managed_env_def)
  show ?thesis
    by (simp add: wait_for_managed_session_def sample_log managed_turn_def copy managed_interrupt_def on_daemon_def state fields
        sample_snapshot_def managed_session_finished_def managed_terminal_result_def)
qed

lemma managed_game_not_abandoned_witness:
  "\<exists>s h. sn_state s = SsStopped \<and> reported sample_managed_env ''s'' h s
    \<and> sample_launched @ [EvLook, EvLook, EvAsked (ReqState ''s''), EvLook] = h @ [EvLook]"
proof -
  have valid: "load_validated_profile (\<lambda>_. Inr example_profile_v2) ''/p'' = Inr example_profile_v2"
    using example_profile_v2_ok(1) by (simp add: load_validated_profile_def flip: validate_profile_v2_ok)
  have bridge: "ensure_input_bridge_available (\<lambda>_. Inr None) = Inr ()"
    by (simp add: ensure_input_bridge_available_def lease_owner_at_def)
  have run: "launch_v2_managed 1 sample_managed_env Inr (\<lambda>_. Inr example_profile_v2) (\<lambda>_. Inr None) (\<lambda>_ _. Inr ()) None False
      ''s'' ''/p'' sample_options \<lparr>mw_history = [], mw_printed = []\<rparr>
    = (\<lparr>mw_history = sample_launched @ [EvLook, EvLook, EvAsked (ReqState ''s''), EvLook], mw_printed = ''hihi''\<rparr>, Some (Inr ()))"
    unfolding launch_v2_managed_def sum.case valid bridge bind_result_def option.case sample_started prod.case
    by (simp only: managed_launch.select_convs sample_waited sum.case option.case prod.case)
  from managed_game_not_abandoned [OF sample_started run _ valid bridge] show ?thesis by auto
qed

end
