(* ===== verification/Spec2Isabelle.thy ===== *)
theory Spec2Isabelle
  imports F64 SessionSpec CursorTouch IpcSafe BridgeSafe BrokerSafe DesktopSpec LifecycleSpec ReportSpec ActiveSession ManagedSpec
begin

text \<open>
  A verification library for the Wroid gaming hub (crates under \<^verbatim>\<open>src/crates\<close>): a program that plays Android games
  on a Linux desktop. It reads the host's keyboard and mouse, turns them into touches by a control profile, writes the
  touches to a virtual touchscreen and bridges that device into the Waydroid container in which the game runs.

  \<^bold>\<open>The parts and how they interact.\<close> A \<^emph>\<open>profile\<close> is validated and materialised into a \<^emph>\<open>control plan\<close>. The
  \<^emph>\<open>unified runtime\<close> of a game session holds the plan, the held inputs and the controllers of the bindings (taps,
  holds, joysticks, mouse aim, the cursor), and moves contacts through the \<^emph>\<open>touch engine\<close>, which commits a frame only
  when the \<^emph>\<open>injector\<close>, the uinput device behind a measuring wrapper, has taken it. The \<^emph>\<open>event loop\<close> owns the input
  devices and decides between the game and the desktop. Around it, the launcher stops the desktop's own Waydroid
  session and a watchdog restores it; the worker runs under the \<^emph>\<open>daemon\<close>, which is asked over a socket, starts one
  worker at a time and hands it a channel to the \<^emph>\<open>bridge broker\<close>; the broker drives the setuid \<^emph>\<open>helper\<close>, which installs
  the bridge configuration, hands the device node to Android and undoes both.

  \<^bold>\<open>Theories and code.\<close>
  \<^item> \<open>Prelude\<close>: machine integers, saturating arithmetic, the state-and-error type \<open>st\<close> with \<open>andThen\<close> for \<open>?\<close>, loops
    with an early return, strings as UTF-8 bytes. \<open>Paths\<close>: lexical paths, lines, splitting and parsing of texts.
    \<open>F64\<close>: binary64 with rounding to nearest even.
  \<^item> \<open>Profile\<close> (\<^verbatim>\<open>wroid-core/src/lib.rs\<close>) and \<open>ProfileV2\<close> (\<^verbatim>\<open>wroid-core/src/profile_v2.rs\<close>): the data of a
    profile, its validators, scaling and materialising of coordinates.
  \<^item> \<open>Touch\<close> (\<^verbatim>\<open>wroid-runtime/src/lib.rs\<close>): frames, committed contacts and the engine over an injector, whose
    contract is the locale \<open>touch_injector\<close>. \<open>Uinput\<close> (\<^verbatim>\<open>wroid-inject/src/config.rs, state.rs, transition.rs,
    translate.rs, injector.rs\<close>) is that injector: slots and evdev batches, with a model of the kernel's multitouch
    receiver. \<open>Metrics\<close> is the measuring wrapper and the latency summary; both interpret the locale.
  \<^item> \<open>Joystick\<close>, \<open>MouseAim\<close>, \<open>Controls\<close> (\<^verbatim>\<open>wroid-runtime/src/joystick.rs, mouse_aim.rs, profile_controls.rs\<close>): the
    controllers and the plan; \<open>Plan\<close> proves what a plan promises. The locale \<open>name_table\<close> is shared by keys and buttons.
  \<^item> \<open>Input\<close> (\<^verbatim>\<open>wroid-input/src/lib.rs, mouse.rs\<close>): evdev events to host events, mouse reports.
  \<^item> \<open>Session\<close>, \<open>EventLoop\<close> (\<^verbatim>\<open>wroid-inject/src/game_session.rs\<close>): the unified runtime and \<open>run_event_loop\<close> with its
    readers and modes; \<open>SessionSafe\<close>, \<open>SessionRun\<close>, \<open>SessionSpec\<close>, \<open>EventLoopSafe\<close> and \<open>CursorTouch\<close> hold their proofs.
  \<^item> \<open>Daemon\<close> (\<^verbatim>\<open>wroid-daemon/src/lib.rs\<close>, \<^verbatim>\<open>wroid-runtime/src/services.rs\<close>): sessions and the locale
    \<open>session_lifecycle\<close>; \<open>Worker\<close> (\<^verbatim>\<open>process.rs\<close>): child processes; \<open>Ipc\<close> (\<^verbatim>\<open>ipc.rs\<close>): requests, messages and the
    server loop; \<open>IpcSafe\<close> has their proofs.
  \<^item> \<open>BridgeConfig\<close>, \<open>BridgeSafe\<close> (\<^verbatim>\<open>wroid-inject/src/waydroid_bridge.rs\<close>): the bridge files over a disk whose calls may
    fail, and the lease. \<open>Helper\<close>, \<open>HelperClient\<close>, \<open>HelperSafe\<close>, \<open>HelperSpec\<close> (\<^verbatim>\<open>privileged_bridge.rs\<close>): the setuid
    helper and its client. \<open>Broker\<close>, \<open>BrokerSafe\<close> (\<^verbatim>\<open>bridge_broker.rs\<close>): the channel and the broker.
  \<^item> \<open>Waydroid\<close>, \<open>Desktop\<close>, \<open>DesktopSpec\<close> (\<^verbatim>\<open>waydroid_session.rs\<close>): what Waydroid prints and is told, the desktop user
    and the session child. \<open>Lifecycle\<close>, \<open>LifecycleSpec\<close>, \<open>SessionReport\<close>, \<open>ReportSpec\<close>
    (\<^verbatim>\<open>wroid-cli/src/commands/launch_v2.rs\<close>): the desktop around a game with its watchdog, as the locale
    \<open>restorable_desktop\<close>, and the report of the last session. \<open>ActiveSession\<close> (the same file): the record of the
    running session and how it is stopped. \<open>Upgrade\<close>, \<open>UpgradeSpec\<close> (\<^verbatim>\<open>runtime_daemon.rs\<close>): starting the daemon and
    replacing an old one; \<open>ManagedLaunch\<close>, \<open>ManagedSpec\<close> (\<^verbatim>\<open>runtime_daemon.rs, launch_v2.rs, play_v2.rs\<close>): launching a game
    through the daemon and watching it.

  \<^bold>\<open>How state and effects are modelled.\<close> A struct is a record, an enum a datatype, a method a function from the state
  to the state and a result; an error return keeps the changes made before it. Machine integers are words, an \<open>i64\<close> is
  an integer kept in range, a \<open>Duration\<close> or an \<open>Instant\<close> a natural number of nanoseconds, a \<open>BTreeMap\<close> a red-black tree.
  The kernel, the file system, child processes, clocks, serde and libm's \<open>hypot\<close> are not in the repository: they are
  parameters (functions, or lists of what the next calls answer), and a theorem holds for all of them unless it names a
  hypothesis about them.

  \<^bold>\<open>What the theorems show.\<close>
  \<^item> Validators accept exactly the well-formed profiles; a plan is sound and is made for every valid profile but three
    named cases, one of which is a finding.
  \<^item> A frame is committed as a whole or not at all, and the kernel's receiver stays in step with the engine whatever
    batches the sink refuses; joystick and aim controllers stay on the surface and keep their contacts apart.
  \<^item> After reconciling, every binding is where the held inputs want it; layers take precedence as specified; suspending
    releases everything; the runtime and the event loop keep their invariants under any events, and input released to
    the desktop leaves no touch, no held key and no grab - with one exception, a finding about the cursor's contact.
  \<^item> The daemon's sessions and children stay in step over any run of its server loop; sessions live once.
  \<^item> Installing and removing the bridge is all or nothing on a failing disk; a successful helper has undone all its
    effects, one on a disk that does not fail leaves no trace however it ends, and it only runs its fixed programs; the
    broker drives one helper through open, verify and finish, and frames survive any segmentation.
  \<^item> A desktop session leaves no child behind; the render size is set completely or rolled back; the desktop is restored
    after a game or a ticket tells the watchdog to do it, and the watchdog ends only then; reports are believed.
  \<^item> Stopping a session signals nobody but the recorded worker, although process numbers are reused. Replacing an old
    daemon ends it only when it is idle and never leaves it frozen, and what is used then is the installed release; a game
    that is watched in the foreground runs to its end or is asked to stop. These are statements about every prefix of the
    history of what the upgrader did and saw.

  \<^bold>\<open>Bounds and fuel.\<close> Loops of the source that count attempts recurse on that count. Loops bounded by time (the settings
  program, the stop of the desktop session, frames under a deadline) recurse with a measure on the remaining time or
  bytes, so that they end is proved with the definition. The watchdog's two loops,
  the foreground wait and the server loop may run for ever: the first two have fuel, \<open>None\<close> means still running, and
  the watchdog's liveness theorem says which fuel is enough (more than the number of looks until the launcher is gone);
  the server and event loops run over a list of the turns that happen.

  \<^bold>\<open>Not modelled.\<close> The command line with its JSON output and terminal interface, the HTTP servers of the hub and of the
  profile editor and their assets, the probes that only parse other programs' output (graphics, compatibility, doctor),
  the wrappers of \<^verbatim>\<open>adb\<close>, \<^verbatim>\<open>waydroid\<close> and Android shells but for the status, the rendering of the cursor overlay, the stand-alone
  smoke and benchmark binaries, the KWin focus script, the opening of devices and the set-up of a session that opens
  them (\<open>run_game_session\<close>): these are I/O whose meaning lies outside the repository.
  Within modelled parts, printing, log files, file descriptors and process groups are left out, as are the contexts
  that some errors carry where nothing depends on them.
\<close>

end
